(* ===== verification/Prelude.thy ===== *)
theory Prelude
  imports Main "HOL-Library.Word" "HOL-Library.Multiset"
begin

text \<open>
  Shared vocabulary of the development: the machine integers of Go (\<open>uint64\<close> as a
  64-bit word, \<open>int64\<close> and \<open>int\<close> as integers wrapped by \<open>i64\<close>), the error values,
  decimal printing, and the generic lemmas on lists, words and maps that the
  component theories share.
\<close>

unbundle bit_operations_syntax

section \<open>Collections\<close>

named_theorems go_defs \<open>unfolding of the small pure helpers of the code\<close>
named_theorems keeps \<open>preservation of the component invariants\<close>

section \<open>Machine integers\<close>

type_synonym u64 = "64 word"
type_synonym u32 = "32 word"
type_synonym u8 = "8 word"

text \<open>
  \<open>int64\<close> (and \<open>int\<close>, which has 64 bits on the platforms the program is built for):
  an integer whose arithmetic wraps in two's complement. \<open>i64 x\<close> is the value left in
  an \<open>int64\<close> after computing the mathematical result \<open>x\<close>.
\<close>

definition i64 :: "int \<Rightarrow> int" where
  "i64 x = signed_take_bit 63 x"

definition in_i64 :: "int \<Rightarrow> bool" where
  "in_i64 x \<longleftrightarrow> - 9223372036854775808 \<le> x \<and> x < 9223372036854775808"

lemma i64_id [simp]: "in_i64 x \<Longrightarrow> i64 x = x"
  by (simp add: i64_def in_i64_def signed_take_bit_int_eq_self)

lemma i64_range: "in_i64 (i64 x)"
  using signed_take_bit_int_greater_eq_minus_exp [of 63 x]
    signed_take_bit_int_less_exp [of 63 x]
  by (simp add: i64_def in_i64_def)

lemma in_i64_between: "in_i64 a \<Longrightarrow> in_i64 b \<Longrightarrow> a \<le> x \<Longrightarrow> x \<le> b \<Longrightarrow> in_i64 x"
  by (auto simp: in_i64_def)

lemma i64_nat_id: "0 \<le> x \<Longrightarrow> x < 9223372036854775808 \<Longrightarrow> i64 x = x"
  by (simp add: in_i64_def)

text \<open>The conversion \<open>int64(w)\<close> of a \<open>uint64\<close> is \<open>sint\<close>; below \<open>2^63\<close> it is the value itself.\<close>

lemma sint_small:
  fixes w :: u64
  assumes "unat w < 9223372036854775808"
  shows "sint w = int (unat w)"
proof -
  have u: "uint w = int (unat w)" by (rule uint_nat)
  then have "uint w < 9223372036854775808" "- 9223372036854775808 \<le> uint w"
    using assms by linarith+
  then have "signed_take_bit 63 (uint w) = uint w"
    by (intro signed_take_bit_int_eq_self) simp_all
  with sint_uint [of w] have "sint w = uint w" by simp
  then show ?thesis by (simp only: u)
qed

lemma unat_lt_2p64: "unat (w :: u64) < 18446744073709551616"
  by (rule order_less_le_trans [OF unsigned_less]) simp

lemma unat_of_nat64: "n < 18446744073709551616 \<Longrightarrow> unat (of_nat n :: u64) = n"
  by (simp add: unat_of_nat)

lemma of_nat_u64_inject:
  "i < 18446744073709551616 \<Longrightarrow> j < 18446744073709551616 \<Longrightarrow>
   (of_nat i :: u64) = of_nat j \<longleftrightarrow> i = j"
  by (metis unat_of_nat64)

lemma unat_add64: "unat a + unat b < 18446744073709551616 \<Longrightarrow> unat ((a :: u64) + b) = unat a + unat b"
  by (simp add: unat_word_ariths)

lemma unat_mult64: "unat a * unat b < 18446744073709551616 \<Longrightarrow> unat ((a :: u64) * b) = unat a * unat b"
  by (simp add: unat_word_ariths)

lemma unat_of_int64: "0 \<le> x \<Longrightarrow> x < 18446744073709551616 \<Longrightarrow> unat (word_of_int x :: u64) = nat x"
  by (simp add: unat_eq_nat_uint uint_word_of_int)

lemma xor_cancel_left [simp]: "(a :: 'a::len word) XOR b = a XOR c \<longleftrightarrow> b = c"
  by (metis xor.assoc xor_self_eq xor.left_neutral)

lemma xor_cancel_right [simp]: "(a :: 'a::len word) XOR b = c XOR b \<longleftrightarrow> a = c"
  by (metis xor.commute xor_cancel_left)

lemma word_eq_unat: "(a :: 'a::len word) = b \<longleftrightarrow> unat a = unat b"
  by (simp add: word_unat_eq_iff)

declare of_nat_unat [simp del]

section \<open>Lists\<close>

lemma mset_rotate1 [simp]: "mset (rotate1 xs) = mset xs"
  by (cases xs) auto

lemma mset_rotate: "mset (rotate n xs) = mset xs"
  by (induction n) (simp_all add: rotate_def)

lemma sum_list_update:
  fixes xs :: "'a::ab_group_add list"
  assumes "i < length xs"
  shows "sum_list (xs[i := v]) = sum_list xs - xs ! i + v"
  using assms
proof (induction xs arbitrary: i)
  case Nil
  then show ?case by simp
next
  case (Cons x xs)
  then show ?case by (cases i) (auto simp: algebra_simps)
qed

lemma sum_list_replicate_zero [simp]: "sum_list (replicate n (0::int)) = 0"
  by (induction n) auto

lemma sum_list_le_pointwise_eq:
  fixes xs ys :: "int list"
  assumes "length xs = length ys"
    and "\<And>i. i < length xs \<Longrightarrow> xs ! i \<le> ys ! i"
    and "sum_list xs = sum_list ys"
  shows "xs = ys"
  using assms
proof (induction xs ys rule: list_induct2)
  case Nil
  then show ?case by simp
next
  case (Cons x xs y ys)
  have hd: "x \<le> y" using Cons.prems(1) [of 0] by simp
  have tl: "\<And>i. i < length xs \<Longrightarrow> xs ! i \<le> ys ! i"
    using Cons.prems(1) [of "Suc _"] by simp
  have "sum_list xs \<le> sum_list ys"
    using tl Cons.hyps by (auto simp: sum_list_sum_nth intro: sum_mono)
  with hd Cons.prems(2) have "x = y" "sum_list xs = sum_list ys" by auto
  with Cons.IH tl show ?case by simp
qed

text \<open>Doubling up to a limit.\<close>

lemma min_doubling:
  fixes b m :: int
  assumes "0 \<le> b" and "0 \<le> m"
  shows "min (min (b * 2) m * 2 ^ k) m = min (b * 2 ^ Suc k) m"
proof (cases "b * 2 \<le> m")
  case True
  then show ?thesis by (simp add: min_absorb1 mult.assoc)
next
  case False
  have up: "x * 1 \<le> x * 2 ^ k" if "0 \<le> x" for x :: int using that by (intro mult_left_mono) simp_all
  have "m \<le> m * 2 ^ k" using up [OF assms(2)] by simp
  moreover have "m \<le> b * 2 ^ Suc k"
  proof -
    have "m \<le> b * 2 * 1" using False by simp
    also have "\<dots> \<le> b * 2 * 2 ^ k" using assms(1) by (intro up) simp
    finally show ?thesis by (simp add: mult.assoc)
  qed
  ultimately show ?thesis using False by (simp add: min_absorb2)
qed

text \<open>Durations are in nanoseconds.\<close>

abbreviation (input) "ns_per_ms \<equiv> (1000000 :: int)"
abbreviation (input) "ns_per_s \<equiv> (1000000000 :: int)"

text \<open>Integer division of Go, rounding towards zero, for a positive divisor.\<close>

definition go_quot :: "int \<Rightarrow> int \<Rightarrow> int" where "go_quot a b = sgn a * (\<bar>a\<bar> div b)"
definition go_rem :: "int \<Rightarrow> int \<Rightarrow> int" where "go_rem a b = a - go_quot a b * b"

section \<open>Validation as a sequence of early returns\<close>

text \<open>
  A \<open>Validate\<close> method is a sequence of \<open>if bad { return err }\<close>: \<open>err_if\<close> is one of them,
  \<open>first_err\<close> their sequence; \<open>None\<close> is the nil error.
\<close>

definition err_if :: "bool \<Rightarrow> 'e \<Rightarrow> 'e option" where
  "err_if b e = (if b then Some e else None)"

fun first_err :: "'e option list \<Rightarrow> 'e option" where
  "first_err [] = None"
| "first_err (None # es) = first_err es"
| "first_err (Some e # es) = Some e"

lemma err_if_None [simp]: "err_if b e = None \<longleftrightarrow> \<not> b"
  by (simp add: err_if_def)

lemma err_if_Some [simp]: "err_if b e = Some e' \<longleftrightarrow> b \<and> e = e'"
  by (simp add: err_if_def)

lemma first_err_None [simp]: "first_err es = None \<longleftrightarrow> (\<forall>e \<in> set es. e = None)"
  by (induction es rule: first_err.induct) auto

lemma first_err_Cons: "first_err (e # es) = (case e of None \<Rightarrow> first_err es | Some x \<Rightarrow> Some x)"
  by (cases e) auto

section \<open>Decimal printing\<close>

text \<open>\<open>%d\<close> and \<open>strconv.Itoa\<close> on a non-negative number.\<close>

definition digit_char :: "nat \<Rightarrow> char" where
  "digit_char d = char_of (48 + d)"

fun itoa :: "nat \<Rightarrow> string" where
  "itoa n = (if n < 10 then [digit_char n] else itoa (n div 10) @ [digit_char (n mod 10)])"

declare itoa.simps [simp del]

lemma digit_char_inj: "a < 10 \<Longrightarrow> b < 10 \<Longrightarrow> digit_char a = digit_char b \<Longrightarrow> a = b"
  by (simp add: digit_char_def char_of_eq_iff take_bit_eq_mod)

lemma itoa_nonempty [simp]: "itoa n \<noteq> []"
  by (subst itoa.simps) simp

lemma itoa_chars: "c \<in> set (itoa n) \<Longrightarrow> \<exists>d < 10. c = digit_char d"
proof (induction n rule: itoa.induct)
  case (1 n)
  show ?case
  proof (cases "n < 10")
    case True
    with "1.prems" show ?thesis by (auto simp: itoa.simps [of n])
  next
    case False
    then have "c \<in> set (itoa (n div 10)) \<or> c = digit_char (n mod 10)"
      using "1.prems" by (auto simp: itoa.simps [of n])
    moreover have "n mod 10 < 10" by simp
    ultimately show ?thesis using "1.IH" False by blast
  qed
qed

lemma itoa_inject: "itoa m = itoa n \<Longrightarrow> m = n"
proof (induction m arbitrary: n rule: itoa.induct)
  case (1 m)
  show ?case
  proof (cases "m < 10")
    case True
    then have "n < 10"
      using "1.prems" itoa_nonempty [of "n div 10"]
      by (rule_tac ccontr) (simp add: itoa.simps [of m] itoa.simps [of n] del: itoa_nonempty)
    with True "1.prems" show ?thesis
      by (simp add: itoa.simps [of m] itoa.simps [of n] digit_char_inj)
  next
    case False
    then have n: "\<not> n < 10"
      using "1.prems" itoa_nonempty [of "m div 10"]
      by (rule_tac notI) (simp add: itoa.simps [of m] itoa.simps [of n] del: itoa_nonempty)
    with False "1.prems" have "itoa (m div 10) = itoa (n div 10)"
      and "digit_char (m mod 10) = digit_char (n mod 10)"
      by (simp_all add: itoa.simps [of m] itoa.simps [of n])
    then have "m div 10 = n div 10" "m mod 10 = n mod 10"
      using "1.IH" False by (auto intro: digit_char_inj)
    then show ?thesis by (metis div_mult_mod_eq)
  qed
qed

end
