(* ===== verification/MgConfig.thy ===== *)
theory MgConfig
  imports Prelude Complex_Main GoStrings
begin

text \<open>
  The configuration of the metric generator (\<open>internal/metricgen/config.go\<close>): the record,
  the defaults, the validation with every early return as a constructor of \<open>mg_err\<close>, the
  cardinality curve and the resolution of the start time. Durations are nanoseconds.

  Floating-point settings are rationals (every finite \<open>float64\<close> is one). The curve value
  \<open>m * math.Pow(b, x)\<close> is the parameter \<open>curve m b x\<close>, and the two parsers of package
  \<open>time\<close> are the parameters \<open>parse_dur\<close> and \<open>parse_rfc\<close>.
\<close>

section \<open>Metric types\<close>

datatype metricType = TypeGauge | TypeSum | TypeHistogram | TypeExpHistogram | TypeSummary

fun metricType_String :: "metricType \<Rightarrow> string" where
  "metricType_String TypeGauge = ''gauge''"
| "metricType_String TypeSum = ''sum''"
| "metricType_String TypeHistogram = ''histogram''"
| "metricType_String TypeExpHistogram = ''exponential_histogram''"
| "metricType_String TypeSummary = ''summary''"

definition parseMetricType :: "string \<Rightarrow> metricType option" where
  "parseMetricType s =
     (if s = ''gauge'' then Some TypeGauge
      else if s = ''sum'' then Some TypeSum
      else if s = ''histogram'' then Some TypeHistogram
      else if s = ''exponential_histogram'' then Some TypeExpHistogram
      else if s = ''summary'' then Some TypeSummary
      else None)"

text \<open>
  Parsing and printing of metric types are inverse to each other: a string is accepted
  exactly when it is the printed form of the type it is parsed to.
\<close>

theorem parseMetricType_roundtrip:
  "parseMetricType s = Some t \<longleftrightarrow> s = metricType_String t"
  by (cases t) (auto simp: parseMetricType_def split: if_splits)

section \<open>The configuration record\<close>

record type_weights =
  tw_Gauge :: int
  tw_Sum :: int
  tw_Histogram :: int
  tw_ExponentialHistogram :: int
  tw_Summary :: int

definition tw_total :: "type_weights \<Rightarrow> int" where
  "tw_total w = i64 (tw_Gauge w + tw_Sum w + tw_Histogram w + tw_ExponentialHistogram w + tw_Summary w)"

record mg_config =
  mg_Enabled :: bool
  mg_Protocol :: string
  mg_URL :: string
  mg_Insecure :: bool
  mg_Compression :: string
  mg_Headers :: "(string \<times> string) list"
  mg_Timeout :: int
  mg_Threads :: int
  mg_PointsPerRequest :: int
  mg_PointsPerSecond :: int
  mg_FlushInterval :: int
  mg_MetricCount :: int
  mg_MetricNames :: "string list"
  mg_MetricTypes :: "string list"
  mg_MetricCardinalities :: "int list"
  mg_CardinalityM :: rat
  mg_CardinalityB :: rat
  mg_AttributesPerMetricMin :: int
  mg_AttributesPerMetricMax :: int
  mg_Resources :: int
  mg_Services :: int
  mg_Interval :: int
  mg_StartTime :: string
  mg_Sweeps :: int
  mg_AlignedTimestamps :: bool
  mg_TimestampJitterMs :: int
  mg_ResourceLifetime :: int
  mg_StalenessMarkers :: bool
  mg_DeltaRatio :: "rat option"
  mg_ExemplarProbability :: rat
  mg_TypeWeights :: type_weights


definition maxResources :: int where "maxResources = 1000000"
definition maxSeriesPerMetric :: int where "maxSeriesPerMetric = 100000000"
definition maxTotalSeries :: u64 where "maxTotalSeries = 2000000000"
definition maxHeadersPerExport :: nat where "maxHeadersPerExport = 64"
definition maxAttrsPerMetric :: int where "maxAttrsPerMetric = 16"
definition maxTypeWeightTotal :: int where "maxTypeWeightTotal = 10000"
definition MaxMetricCount :: int where "MaxMetricCount = 50000"

definition defaultTypeWeights :: type_weights where
  "defaultTypeWeights =
     \<lparr>tw_Gauge = 30, tw_Sum = 30, tw_Histogram = 20, tw_ExponentialHistogram = 10, tw_Summary = 10\<rparr>"

definition mg_protocol :: "mg_config \<Rightarrow> string" where
  "mg_protocol c = (if mg_Protocol c = [] then ''grpc'' else mg_Protocol c)"

section \<open>Defaults\<close>

text \<open>
  One field per \<open>if\<close> of \<open>withDefaults\<close>, in its order. The two places where the code reads
  a field it has just filled in are the \<open>let\<close>s: the metric count taken from the names and
  the number of resources, from which the number of services is derived.
\<close>

definition mg_withDefaults :: "mg_config \<Rightarrow> mg_config" where
  "mg_withDefaults c =
     (let count = (if 0 < length (mg_MetricNames c) then int (length (mg_MetricNames c))
                   else mg_MetricCount c);
          resources = (if mg_Resources c \<le> 0 then 1000 else mg_Resources c)
      in c\<lparr>mg_Timeout := (if mg_Timeout c \<le> 0 then 30 * ns_per_s else mg_Timeout c),
           mg_FlushInterval := (if mg_FlushInterval c \<le> 0 then ns_per_s else mg_FlushInterval c),
           mg_Threads := (if mg_Threads c \<le> 0 then 4 else mg_Threads c),
           mg_PointsPerRequest :=
             (if mg_PointsPerRequest c \<le> 0 then 4000 else mg_PointsPerRequest c),
           mg_Interval := (if mg_Interval c \<le> 0 then 15 * ns_per_s else mg_Interval c),
           mg_MetricCount := (if count \<le> 0 then 1000 else count),
           mg_CardinalityM := (if mg_CardinalityM c \<le> 0 then 1000 else mg_CardinalityM c),
           mg_CardinalityB := (if mg_CardinalityB c \<le> 0 then 99 / 100 else mg_CardinalityB c),
           mg_Resources := resources,
           mg_AttributesPerMetricMin :=
             (if mg_AttributesPerMetricMin c = 0 then 2 else mg_AttributesPerMetricMin c),
           mg_AttributesPerMetricMax :=
             (if mg_AttributesPerMetricMax c = 0 then 5 else mg_AttributesPerMetricMax c),
           mg_Services := (if mg_Services c \<le> 0 then max 1 (resources div 20) else mg_Services c),
           mg_DeltaRatio :=
             (case mg_DeltaRatio c of None \<Rightarrow> Some (1 / 4) | Some r \<Rightarrow> Some r),
           mg_TypeWeights :=
             (if tw_total (mg_TypeWeights c) \<le> 0 then defaultTypeWeights
              else mg_TypeWeights c)\<rparr>)"

lemma mg_withDefaults_fields [simp]:
  "mg_Timeout (mg_withDefaults c) = (if mg_Timeout c \<le> 0 then 30 * ns_per_s else mg_Timeout c)"
  "mg_FlushInterval (mg_withDefaults c) = (if mg_FlushInterval c \<le> 0 then ns_per_s else mg_FlushInterval c)"
  "mg_Threads (mg_withDefaults c) = (if mg_Threads c \<le> 0 then 4 else mg_Threads c)"
  "mg_PointsPerRequest (mg_withDefaults c) = (if mg_PointsPerRequest c \<le> 0 then 4000 else mg_PointsPerRequest c)"
  "mg_Interval (mg_withDefaults c) = (if mg_Interval c \<le> 0 then 15 * ns_per_s else mg_Interval c)"
  "mg_MetricCount (mg_withDefaults c) =
     (if mg_MetricNames c \<noteq> [] then int (length (mg_MetricNames c))
      else if mg_MetricCount c \<le> 0 then 1000 else mg_MetricCount c)"
  "mg_CardinalityM (mg_withDefaults c) = (if mg_CardinalityM c \<le> 0 then 1000 else mg_CardinalityM c)"
  "mg_CardinalityB (mg_withDefaults c) = (if mg_CardinalityB c \<le> 0 then 99 / 100 else mg_CardinalityB c)"
  "mg_Resources (mg_withDefaults c) = (if mg_Resources c \<le> 0 then 1000 else mg_Resources c)"
  "mg_AttributesPerMetricMin (mg_withDefaults c) =
     (if mg_AttributesPerMetricMin c = 0 then 2 else mg_AttributesPerMetricMin c)"
  "mg_AttributesPerMetricMax (mg_withDefaults c) =
     (if mg_AttributesPerMetricMax c = 0 then 5 else mg_AttributesPerMetricMax c)"
  "mg_Services (mg_withDefaults c) =
     (if mg_Services c \<le> 0 then max 1 ((if mg_Resources c \<le> 0 then 1000 else mg_Resources c) div 20)
      else mg_Services c)"
  "mg_DeltaRatio (mg_withDefaults c) =
     (case mg_DeltaRatio c of None \<Rightarrow> Some (1 / 4) | Some r \<Rightarrow> Some r)"
  "mg_TypeWeights (mg_withDefaults c) =
     (if tw_total (mg_TypeWeights c) \<le> 0 then defaultTypeWeights else mg_TypeWeights c)"
  by (simp_all add: mg_withDefaults_def Let_def)

lemma mg_withDefaults_other [simp]:
  "mg_Enabled (mg_withDefaults c) = mg_Enabled c"
  "mg_Protocol (mg_withDefaults c) = mg_Protocol c"
  "mg_URL (mg_withDefaults c) = mg_URL c"
  "mg_Insecure (mg_withDefaults c) = mg_Insecure c"
  "mg_Compression (mg_withDefaults c) = mg_Compression c"
  "mg_Headers (mg_withDefaults c) = mg_Headers c"
  "mg_PointsPerSecond (mg_withDefaults c) = mg_PointsPerSecond c"
  "mg_MetricNames (mg_withDefaults c) = mg_MetricNames c"
  "mg_MetricTypes (mg_withDefaults c) = mg_MetricTypes c"
  "mg_MetricCardinalities (mg_withDefaults c) = mg_MetricCardinalities c"
  "mg_StartTime (mg_withDefaults c) = mg_StartTime c"
  "mg_Sweeps (mg_withDefaults c) = mg_Sweeps c"
  "mg_AlignedTimestamps (mg_withDefaults c) = mg_AlignedTimestamps c"
  "mg_TimestampJitterMs (mg_withDefaults c) = mg_TimestampJitterMs c"
  "mg_ResourceLifetime (mg_withDefaults c) = mg_ResourceLifetime c"
  "mg_StalenessMarkers (mg_withDefaults c) = mg_StalenessMarkers c"
  "mg_ExemplarProbability (mg_withDefaults c) = mg_ExemplarProbability c"
  by (simp_all add: mg_withDefaults_def Let_def)

section \<open>The cardinality curve and the start time\<close>

text \<open>\<open>math.Round\<close>: half away from zero.\<close>

definition go_round :: "rat \<Rightarrow> int" where
  "go_round y = (if 0 \<le> y then \<lfloor>y + 1 / 2\<rfloor> else - \<lfloor>- y + 1 / 2\<rfloor>)"

definition mg_cardinality :: "(rat \<Rightarrow> rat \<Rightarrow> int \<Rightarrow> rat) \<Rightarrow> mg_config \<Rightarrow> int \<Rightarrow> int" where
  "mg_cardinality curve c x =
     (if x - 1 < int (length (mg_MetricCardinalities c))
      then mg_MetricCardinalities c ! nat (x - 1)
      else let y = curve (mg_CardinalityM c) (mg_CardinalityB c) x
           in if of_int maxSeriesPerMetric * 2 < y then maxSeriesPerMetric * 2
              else max 1 (go_round y))"

definition mg_totalSeries :: "(rat \<Rightarrow> rat \<Rightarrow> int \<Rightarrow> rat) \<Rightarrow> mg_config \<Rightarrow> u64 \<times> int" where
  "mg_totalSeries curve c =
     fold (\<lambda>x (total, largest).
             let n = mg_cardinality curve c x
             in (total + word_of_int n, max largest n))
          [1..mg_MetricCount c] (0, 0)"


datatype mg_err =
    EProtocol | EURL | ECompression | EThreads | EMetricCount | EMetricNames
  | EEmptyName nat | EDuplicateName string
  | ETypesNeedNames | ETypesLength | EBadType nat string
  | ECardsNeedNames | ECardsLength | ECardLow nat int | ECardHigh nat
  | ECardinalityB | EResources | EDeltaRatio | EExemplar | EWeightNegative | EWeightTotal
  | ESweeps | EHeaders | EInterval | EAttrsMin | EAttrsMax | EAttrsOrder | EJitter
  | ELifetime | EStaleness | EStartOffset string | EStartTime string
  | ESeriesPerMetric int | ETotalSeries u64

definition mg_resolveStartTime ::
  "(string \<Rightarrow> int option) \<Rightarrow> (string \<Rightarrow> int option) \<Rightarrow> mg_config \<Rightarrow> int \<Rightarrow> mg_err + int" where
  "mg_resolveStartTime parse_dur parse_rfc c now =
     (let s = trimSpace (mg_StartTime c)
      in if s = [] \<or> s = ''now'' then Inr now
         else if hasPrefix s ''now-''
         then (case parse_dur (drop 4 s) of None \<Rightarrow> Inl (EStartOffset s) | Some d \<Rightarrow> Inr (now + - d))
         else (case parse_rfc s of None \<Rightarrow> Inl (EStartTime s) | Some t \<Rightarrow> Inr t))"

section \<open>Validation\<close>

text \<open>The loops of \<open>Validate\<close> over the three parallel lists.\<close>

fun names_err :: "nat \<Rightarrow> string set \<Rightarrow> string list \<Rightarrow> mg_err option" where
  "names_err i seen [] = None"
| "names_err i seen (name # names) =
     (if name = [] then Some (EEmptyName i)
      else if name \<in> seen then Some (EDuplicateName name)
      else names_err (Suc i) (insert name seen) names)"

fun types_err :: "nat \<Rightarrow> string list \<Rightarrow> mg_err option" where
  "types_err i [] = None"
| "types_err i (s # ss) =
     (case parseMetricType s of None \<Rightarrow> Some (EBadType i s) | Some t \<Rightarrow> types_err (Suc i) ss)"

fun cards_err :: "nat \<Rightarrow> int list \<Rightarrow> mg_err option" where
  "cards_err i [] = None"
| "cards_err i (n # ns) =
     (if n < 1 then Some (ECardLow i n)
      else if maxSeriesPerMetric < n then Some (ECardHigh i)
      else cards_err (Suc i) ns)"

definition duration_ms :: "int \<Rightarrow> int" where
  "duration_ms d = d div ns_per_ms"

definition mg_Validate ::
  "(string \<Rightarrow> int option) \<Rightarrow> (string \<Rightarrow> int option) \<Rightarrow> (rat \<Rightarrow> rat \<Rightarrow> int \<Rightarrow> rat) \<Rightarrow> int \<Rightarrow>
   mg_config \<Rightarrow> mg_err option" where
  "mg_Validate parse_dur parse_rfc curve now c =
     (if \<not> mg_Enabled c then None
      else let d = mg_withDefaults c in first_err [
        err_if (mg_Protocol c \<notin> {[], ''grpc'', ''http''}) EProtocol,
        err_if (mg_URL c = []) EURL,
        err_if (mg_Compression c \<notin> {[], ''none'', ''gzip''}) ECompression,
        err_if (mg_Threads c < 0) EThreads,
        err_if (MaxMetricCount < mg_MetricCount c) EMetricCount,
        err_if (MaxMetricCount < int (length (mg_MetricNames c))) EMetricNames,
        names_err 0 {} (mg_MetricNames c),
        (if 0 < length (mg_MetricTypes c) then first_err [
           err_if (mg_MetricNames c = []) ETypesNeedNames,
           err_if (length (mg_MetricTypes c) \<noteq> length (mg_MetricNames c)) ETypesLength,
           types_err 0 (mg_MetricTypes c)]
         else None),
        (if 0 < length (mg_MetricCardinalities c) then first_err [
           err_if (mg_MetricNames c = []) ECardsNeedNames,
           err_if (length (mg_MetricCardinalities c) \<noteq> length (mg_MetricNames c)) ECardsLength,
           cards_err 0 (mg_MetricCardinalities c)]
         else None),
        err_if (3 / 2 < mg_CardinalityB c) ECardinalityB,
        err_if (maxResources < mg_Resources c) EResources,
        (case mg_DeltaRatio c of None \<Rightarrow> None | Some r \<Rightarrow> err_if (r < 0 \<or> 1 < r) EDeltaRatio),
        err_if (mg_ExemplarProbability c < 0 \<or> 1 < mg_ExemplarProbability c) EExemplar,
        err_if (tw_Gauge (mg_TypeWeights c) < 0 \<or> tw_Sum (mg_TypeWeights c) < 0 \<or>
                tw_Histogram (mg_TypeWeights c) < 0 \<or>
                tw_ExponentialHistogram (mg_TypeWeights c) < 0 \<or>
                tw_Summary (mg_TypeWeights c) < 0) EWeightNegative,
        err_if (maxTypeWeightTotal < tw_total (mg_TypeWeights c)) EWeightTotal,
        err_if (mg_Sweeps c < 0) ESweeps,
        err_if (maxHeadersPerExport < length (mg_Headers c)) EHeaders,
        err_if (mg_Interval d < ns_per_ms) EInterval,
        err_if (mg_AttributesPerMetricMin d < 1) EAttrsMin,
        err_if (min maxAttrsPerMetric 20 < mg_AttributesPerMetricMax d) EAttrsMax,
        err_if (mg_AttributesPerMetricMax d < mg_AttributesPerMetricMin d) EAttrsOrder,
        err_if (mg_TimestampJitterMs c < 0 \<or>
                duration_ms (mg_Interval d) \<le> i64 (mg_TimestampJitterMs c * 2)) EJitter,
        err_if (mg_ResourceLifetime d \<noteq> 0 \<and> mg_ResourceLifetime d < mg_Interval d) ELifetime,
        err_if (mg_StalenessMarkers c \<and> mg_ResourceLifetime d = 0) EStaleness,
        (case mg_resolveStartTime parse_dur parse_rfc d now of Inl e \<Rightarrow> Some e | Inr t \<Rightarrow> None),
        (let (total, largest) = mg_totalSeries curve d in first_err [
           err_if (maxSeriesPerMetric < largest) (ESeriesPerMetric largest),
           err_if (maxTotalSeries < total) (ETotalSeries total)])])"

section \<open>What the defaults and the validation guarantee\<close>

lemma tw_total_default [simp]: "tw_total defaultTypeWeights = 100"
  by (simp add: tw_total_def defaultTypeWeights_def in_i64_def)

text \<open>
  Applying the defaults twice is the same as applying them once: the scheduler may
  default a configuration that \<open>Validate\<close> has already defaulted on a copy.
\<close>

theorem mg_withDefaults_idem: "mg_withDefaults (mg_withDefaults c) = mg_withDefaults c"
  by (rule mg_config.equality) (auto split: option.splits)

lemma names_err_None:
  "names_err i seen names = None \<longleftrightarrow>
   distinct names \<and> set names \<inter> seen = {} \<and> [] \<notin> set names"
  by (induction names arbitrary: i seen) auto

lemma types_err_None: "types_err i ss = None \<longleftrightarrow> (\<forall>s \<in> set ss. parseMetricType s \<noteq> None)"
  by (induction ss arbitrary: i) (auto split: option.splits)

lemma cards_err_None:
  "cards_err i cs = None \<longleftrightarrow> (\<forall>n \<in> set cs. 1 \<le> n \<and> n \<le> maxSeriesPerMetric)"
  by (induction cs arbitrary: i) auto

text \<open>
  The well-formedness of a configuration with defaults that the plan, the builder and the
  workers rely on (intervals, jitter, lifetimes, weights, attribute counts, names).
\<close>

definition mg_wf :: "mg_config \<Rightarrow> bool" where
  "mg_wf d \<longleftrightarrow>
     0 < mg_Threads d \<and> 0 < mg_PointsPerRequest d \<and> 0 < mg_MetricCount d \<and>
     mg_MetricCount d \<le> MaxMetricCount \<and>
     0 < mg_Resources d \<and> mg_Resources d \<le> maxResources \<and> 0 < mg_Services d \<and>
     1 \<le> mg_AttributesPerMetricMin d \<and>
     mg_AttributesPerMetricMin d \<le> mg_AttributesPerMetricMax d \<and>
     mg_AttributesPerMetricMax d \<le> maxAttrsPerMetric \<and>
     1 \<le> duration_ms (mg_Interval d) \<and>
     0 \<le> mg_TimestampJitterMs d \<and> 2 * mg_TimestampJitterMs d < duration_ms (mg_Interval d) \<and>
     (mg_ResourceLifetime d = 0 \<or> mg_Interval d \<le> mg_ResourceLifetime d) \<and>
     (mg_StalenessMarkers d \<longrightarrow> mg_ResourceLifetime d \<noteq> 0) \<and>
     0 < tw_total (mg_TypeWeights d) \<and> tw_total (mg_TypeWeights d) \<le> maxTypeWeightTotal \<and>
     distinct (mg_MetricNames d) \<and>
     (mg_MetricNames d \<noteq> [] \<longrightarrow> int (length (mg_MetricNames d)) = mg_MetricCount d) \<and>
     (\<forall>s \<in> set (mg_MetricTypes d). parseMetricType s \<noteq> None) \<and>
     (\<forall>n \<in> set (mg_MetricCardinalities d). 1 \<le> n \<and> n \<le> maxSeriesPerMetric) \<and>
     0 \<le> mg_Sweeps d"

lemma mg_Validate_guards:
  assumes "mg_Enabled c" and "mg_Validate parse_dur parse_rfc curve now c = None"
  shows "0 \<le> mg_Threads c \<and> mg_MetricCount c \<le> MaxMetricCount \<and>
    int (length (mg_MetricNames c)) \<le> MaxMetricCount \<and>
    names_err 0 {} (mg_MetricNames c) = None \<and>
    types_err 0 (mg_MetricTypes c) = None \<and>
    cards_err 0 (mg_MetricCardinalities c) = None \<and>
    mg_Resources c \<le> maxResources \<and>
    tw_total (mg_TypeWeights c) \<le> maxTypeWeightTotal \<and> 0 \<le> mg_Sweeps c"
    and "let d = mg_withDefaults c in
    ns_per_ms \<le> mg_Interval d \<and> 1 \<le> mg_AttributesPerMetricMin d \<and>
    mg_AttributesPerMetricMax d \<le> maxAttrsPerMetric \<and>
    mg_AttributesPerMetricMin d \<le> mg_AttributesPerMetricMax d \<and>
    0 \<le> mg_TimestampJitterMs c \<and>
    i64 (mg_TimestampJitterMs c * 2) < duration_ms (mg_Interval d) \<and>
    (mg_ResourceLifetime d \<noteq> 0 \<longrightarrow> mg_Interval d \<le> mg_ResourceLifetime d) \<and>
    (mg_StalenessMarkers c \<longrightarrow> mg_ResourceLifetime d \<noteq> 0)"
proof -
  note v = assms(2) [unfolded mg_Validate_def Let_def if_not_P [OF notI [of "\<not> mg_Enabled c"]]]
  show "0 \<le> mg_Threads c \<and> mg_MetricCount c \<le> MaxMetricCount \<and>
    int (length (mg_MetricNames c)) \<le> MaxMetricCount \<and>
    names_err 0 {} (mg_MetricNames c) = None \<and>
    types_err 0 (mg_MetricTypes c) = None \<and>
    cards_err 0 (mg_MetricCardinalities c) = None \<and>
    mg_Resources c \<le> maxResources \<and>
    tw_total (mg_TypeWeights c) \<le> maxTypeWeightTotal \<and> 0 \<le> mg_Sweeps c"
    using v assms(1)
    by (auto simp: not_less simp del: mg_withDefaults_fields mg_withDefaults_other split: if_splits)
  show "let d = mg_withDefaults c in
    ns_per_ms \<le> mg_Interval d \<and> 1 \<le> mg_AttributesPerMetricMin d \<and>
    mg_AttributesPerMetricMax d \<le> maxAttrsPerMetric \<and>
    mg_AttributesPerMetricMin d \<le> mg_AttributesPerMetricMax d \<and>
    0 \<le> mg_TimestampJitterMs c \<and>
    i64 (mg_TimestampJitterMs c * 2) < duration_ms (mg_Interval d) \<and>
    (mg_ResourceLifetime d \<noteq> 0 \<longrightarrow> mg_Interval d \<le> mg_ResourceLifetime d) \<and>
    (mg_StalenessMarkers c \<longrightarrow> mg_ResourceLifetime d \<noteq> 0)"
    using v assms(1)
    by (auto simp: not_less not_le maxAttrsPerMetric_def Let_def
        simp del: mg_withDefaults_fields mg_withDefaults_other)
qed

lemma duration_ms_pos: "ns_per_ms \<le> d \<Longrightarrow> 1 \<le> duration_ms d"
  by (simp add: duration_ms_def pos_imp_zdiv_pos_iff int_one_le_iff_zero_less)

lemma mg_Validate_wf_lemma:
  assumes "mg_Enabled c" and "mg_Validate parse_dur parse_rfc curve now c = None"
    and "mg_TimestampJitterMs c < 4611686018427387904"
  shows "mg_wf (mg_withDefaults c)"
proof -
  note g = mg_Validate_guards(1) [OF assms(1,2)]
  note d = mg_Validate_guards(2) [OF assms(1,2), unfolded Let_def]
  have "i64 (mg_TimestampJitterMs c * 2) = mg_TimestampJitterMs c * 2"
    using d assms(3) by (intro i64_nat_id) auto
  with d have "2 * mg_TimestampJitterMs c < duration_ms (mg_Interval (mg_withDefaults c))"
    by simp
  moreover have "1 \<le> duration_ms (mg_Interval (mg_withDefaults c))"
    using d by (intro duration_ms_pos) blast
  ultimately show ?thesis
    using g d unfolding mg_wf_def names_err_None types_err_None cards_err_None
    by (auto simp: MaxMetricCount_def maxResources_def maxTypeWeightTotal_def simp del: mg_withDefaults_fields(5))
qed


definition sample_config :: mg_config where
  "sample_config =
     \<lparr>mg_Enabled = True, mg_Protocol = [], mg_URL = ''localhost:4317'', mg_Insecure = True,
      mg_Compression = [], mg_Headers = [], mg_Timeout = 0, mg_Threads = 0,
      mg_PointsPerRequest = 0, mg_PointsPerSecond = 0, mg_FlushInterval = 0,
      mg_MetricCount = 0, mg_MetricNames = [''requests'', ''latency''],
      mg_MetricTypes = [''sum'', ''histogram''], mg_MetricCardinalities = [3, 4],
      mg_CardinalityM = 0, mg_CardinalityB = 0, mg_AttributesPerMetricMin = 0,
      mg_AttributesPerMetricMax = 0, mg_Resources = 10, mg_Services = 0, mg_Interval = 0,
      mg_StartTime = ''now'', mg_Sweeps = 3, mg_AlignedTimestamps = False,
      mg_TimestampJitterMs = 500, mg_ResourceLifetime = 60000000000, mg_StalenessMarkers = True,
      mg_DeltaRatio = None, mg_ExemplarProbability = 0,
      mg_TypeWeights = \<lparr>tw_Gauge = 0, tw_Sum = 0, tw_Histogram = 0,
                        tw_ExponentialHistogram = 0, tw_Summary = 0\<rparr>\<rparr>"

lemma sample_config_accepted:
  "mg_Validate (\<lambda>_. None) (\<lambda>_. None) (\<lambda>m b x. m) 0 sample_config = None"
  by (simp add: mg_Validate_def sample_config_def Let_def tw_total_def mg_totalSeries_def
      mg_cardinality_def mg_resolveStartTime_def parseMetricType_def trimSpace_def is_space_def
      MaxMetricCount_def maxResources_def maxTypeWeightTotal_def maxAttrsPerMetric_def
      maxHeadersPerExport_def maxSeriesPerMetric_def maxTotalSeries_def duration_ms_def
      in_i64_def upto.simps)


text \<open>
  The jitter check doubles the value in an \<open>int64\<close>: a jitter of \<open>2^62\<close> milliseconds
  passes it, although it is far beyond half of the (15 s) interval.
\<close>

theorem mg_jitter_overflow_accepted:
  "mg_Validate (\<lambda>_. None) (\<lambda>_. None) (\<lambda>m b x. m) 0
     (sample_config\<lparr>mg_TimestampJitterMs := 4611686018427387904\<rparr>) = None \<and>
   \<not> mg_wf (mg_withDefaults (sample_config\<lparr>mg_TimestampJitterMs := 4611686018427387904\<rparr>))"
  by (simp add: mg_Validate_def sample_config_def Let_def tw_total_def mg_totalSeries_def
      mg_cardinality_def mg_resolveStartTime_def parseMetricType_def trimSpace_def is_space_def
      MaxMetricCount_def maxResources_def maxTypeWeightTotal_def maxAttrsPerMetric_def
      maxHeadersPerExport_def maxSeriesPerMetric_def maxTotalSeries_def duration_ms_def
      in_i64_def i64_def upto.simps mg_wf_def)

end
