(* ===== verification/Hash.thy ===== *)
theory Hash
  imports Prelude Complex_Main
begin

text \<open>
  The mixing primitives of \<open>internal/metricgen/hash.go\<close>: every series attribute,
  resource pick and point value of the metric generator is a function of seeds mixed
  through them. They are modelled on 64-bit words, with wrap-around.
\<close>

section \<open>Definitions\<close>

definition splitmix64 :: "u64 \<Rightarrow> u64" where
  "splitmix64 x0 =
     (let x1 = x0 + 0x9E3779B97F4A7C15;
          x2 = x1 XOR drop_bit 30 x1;
          x3 = x2 * 0xBF58476D1CE4E5B9;
          x4 = x3 XOR drop_bit 27 x3;
          x5 = x4 * 0x94D049BB133111EB
      in x5 XOR drop_bit 31 x5)"

definition mix2 :: "u64 \<Rightarrow> u64 \<Rightarrow> u64" where
  "mix2 a b = splitmix64 (splitmix64 a XOR b)"

definition mix3 :: "u64 \<Rightarrow> u64 \<Rightarrow> u64 \<Rightarrow> u64" where
  "mix3 a b c = splitmix64 (mix2 a b XOR c)"

section \<open>The mixers lose nothing\<close>

lemma xorshift_inj:
  fixes x y :: "'a::len word"
  assumes "0 < n" and eq: "x XOR drop_bit n x = y XOR drop_bit n y"
  shows "x = y"
proof (rule bit_word_eqI)
  fix i
  have step: "bit x i = bit y i" if "\<And>j. i < j \<Longrightarrow> bit x j = bit y j" for i
  proof -
    from eq have "bit (x XOR drop_bit n x) i = bit (y XOR drop_bit n y) i" by simp
    then have "(bit x i \<noteq> bit x (n + i)) = (bit y i \<noteq> bit y (n + i))"
      by (simp add: bit_xor_iff bit_drop_bit_eq)
    with that [of "n + i"] \<open>0 < n\<close> show ?thesis by auto
  qed
  have "bit x i = bit y i" for i
  proof (induction "LENGTH('a) - i" arbitrary: i rule: less_induct)
    case less
    show ?case
    proof (cases "LENGTH('a) \<le> i")
      case True
      then show ?thesis by (metis bit_imp_le_length linorder_not_le)
    next
      case False
      show ?thesis
      proof (rule step)
        fix j assume "i < j"
        with False have "LENGTH('a) - j < LENGTH('a) - i" by simp
        then show "bit x j = bit y j" by (rule less)
      qed
    qed
  qed
  then show "bit x i = bit y i" .
qed

lemma mult_inverse_inj:
  fixes x y c d :: "'a::len word"
  assumes "c * d = 1" and "x * c = y * c"
  shows "x = y"
proof -
  have "x * (c * d) = y * (c * d)" using assms(2) by (metis mult.assoc)
  with assms(1) show ?thesis by simp
qed

definition xsh :: "nat \<Rightarrow> u64 \<Rightarrow> u64" where
  "xsh n z = z XOR drop_bit n z"

lemma xsh_inject: "0 < n \<Longrightarrow> xsh n x = xsh n y \<Longrightarrow> x = y"
  unfolding xsh_def by (rule xorshift_inj)

lemma splitmix64_stages:
  "splitmix64 x =
     xsh 31 (xsh 27 (xsh 30 (x + 0x9E3779B97F4A7C15) * 0xBF58476D1CE4E5B9) * 0x94D049BB133111EB)"
  by (simp only: splitmix64_def Let_def xsh_def)

lemma splitmix64_inject: "splitmix64 x = splitmix64 y \<Longrightarrow> x = y"
proof -
  assume eq: "splitmix64 x = splitmix64 y"
  have i1: "(0xBF58476D1CE4E5B9 :: u64) * 0x96DE1B173F119089 = 1" by simp
  have i2: "(0x94D049BB133111EB :: u64) * 0x319642B2D24D8EC3 = 1" by simp
  let ?f = "\<lambda>z :: u64. xsh 30 (z + 0x9E3779B97F4A7C15)"
  let ?g = "\<lambda>z :: u64. xsh 27 (?f z * 0xBF58476D1CE4E5B9)"
  have "?g x * 0x94D049BB133111EB = ?g y * 0x94D049BB133111EB"
    by (rule xsh_inject [of 31, OF _ eq [unfolded splitmix64_stages]]) simp
  then have "?g x = ?g y" by (rule mult_inverse_inj [OF i2])
  then have "?f x * 0xBF58476D1CE4E5B9 = ?f y * 0xBF58476D1CE4E5B9"
    by (rule xsh_inject [rotated]) simp
  then have "?f x = ?f y" by (rule mult_inverse_inj [OF i1])
  then have "x + 0x9E3779B97F4A7C15 = y + 0x9E3779B97F4A7C15"
    by (rule xsh_inject [rotated]) simp
  then show ?thesis by (simp only: add_right_cancel)
qed

lemma splitmix64_eq_iff [simp]: "splitmix64 x = splitmix64 y \<longleftrightarrow> x = y"
  using splitmix64_inject by blast

lemma mix2_eq_right [simp]: "mix2 a b = mix2 a c \<longleftrightarrow> b = c"
  by (simp add: mix2_def)

lemma mix2_eq_left [simp]: "mix2 a b = mix2 c b \<longleftrightarrow> a = c"
  by (simp add: mix2_def)

lemma mix3_eq_right [simp]: "mix3 a b c = mix3 a b d \<longleftrightarrow> c = d"
  by (simp add: mix3_def)

lemma mix3_eq_mid [simp]: "mix3 a b c = mix3 a d c \<longleftrightarrow> b = d"
  by (simp add: mix3_def)

lemma mix3_eq_left [simp]: "mix3 a b c = mix3 d b c \<longleftrightarrow> a = d"
  by (simp add: mix3_def)

text \<open>
  \<open>splitmix64\<close> is a bijection of the 64-bit values, so seeding with it loses nothing:
  two different inputs of any one argument of \<open>mix2\<close> or \<open>mix3\<close> give different outputs.
\<close>

theorem splitmix64_bij:
  "bij splitmix64 \<and> inj (mix2 a) \<and> inj (\<lambda>x. mix2 x b) \<and>
   inj (mix3 a b) \<and> inj (\<lambda>y. mix3 a y c) \<and> inj (\<lambda>x. mix3 x b c)"
proof -
  have "inj splitmix64" by (rule injI) simp
  then have "bij splitmix64" by (simp add: bij_def finite_UNIV_inj_surj)
  then show ?thesis by (auto intro!: injI)
qed

section \<open>Strings from hashes\<close>

text \<open>
  \<open>fnvHash\<close> is the FNV-1a hash of Go's \<open>hash/fnv\<close> (\<open>New64a\<close>) over the bytes of the
  string; a Go string is a byte sequence, as a HOL string is.
\<close>

definition fnv_offset64 :: u64 where "fnv_offset64 = 14695981039346656037"
definition fnv_prime64 :: u64 where "fnv_prime64 = 1099511628211"

fun fnv1a :: "u64 \<Rightarrow> string \<Rightarrow> u64" where
  "fnv1a h [] = h"
| "fnv1a h (c # cs) = fnv1a ((h XOR of_char c) * fnv_prime64) cs"

definition fnvHash :: "string \<Rightarrow> u64" where
  "fnvHash s = fnv1a fnv_offset64 s"

text \<open>
  \<open>frac\<close>: the top 53 bits over \<open>2^53\<close>. Both the conversion and the division are exact in
  \<open>float64\<close>, so the value is the rational itself.
\<close>

definition frac64 :: "u64 \<Rightarrow> rat" where
  "frac64 h = of_nat (unat (drop_bit 11 h)) / 9007199254740992"

lemma frac64_range: "0 \<le> frac64 h \<and> frac64 h < 1"
proof -
  define n where "n = unat (drop_bit 11 h)"
  have "unat h < 18446744073709551616" by (rule unat_lt_2p64)
  then have "n < 9007199254740992"
    by (simp add: n_def drop_bit_eq_div unat_div_distrib less_mult_imp_div_less)
  then have "(of_nat n :: rat) < of_nat 9007199254740992"
    by (simp only: of_nat_less_iff)
  moreover have "frac64 h = of_nat n / 9007199254740992"
    by (simp only: frac64_def n_def)
  ultimately show ?thesis by simp
qed

definition hexChars :: string where
  "hexChars = ''0123456789abcdef''"

text \<open>
  \<open>hexBytes\<close>: the loop over the output index \<open>i\<close>; every sixteenth character the hash is
  stirred again.
\<close>

function hex_loop :: "u64 \<Rightarrow> nat \<Rightarrow> nat \<Rightarrow> string" where
  "hex_loop h i n =
     (if i < n then
        let h' = (if i mod 16 = 0 \<and> 0 < i then splitmix64 h else h)
        in hexChars ! unat (drop_bit (i mod 16 * 4) h' AND 0xF) # hex_loop h' (Suc i) n
      else [])"
  by pat_completeness auto
termination by (relation "measure (\<lambda>(h, i, n). n - i)") auto

declare hex_loop.simps [simp del]

definition hexBytes :: "u64 \<Rightarrow> nat \<Rightarrow> string" where
  "hexBytes h n = hex_loop h 0 n"

lemma length_hex_loop: "length (hex_loop h i n) = n - i"
proof (induction h i n rule: hex_loop.induct)
  case (1 h i n)
  then show ?case by (simp add: hex_loop.simps [of h i n] Let_def Suc_diff_Suc)
qed

lemma length_hexBytes [simp]: "length (hexBytes h n) = n"
  by (simp add: hexBytes_def length_hex_loop)

lemma nibble_less: "unat ((x :: u64) AND 15) < 16"
proof -
  have "x AND 15 \<le> 15" by (rule word_and_le1)
  then have "unat (x AND 15) \<le> unat (15 :: u64)" by (simp only: word_le_nat_alt)
  then show ?thesis by simp
qed

lemma length_hexChars [simp]: "length hexChars = 16"
  by (simp add: hexChars_def)

lemma distinct_hexChars: "distinct hexChars"
  by (simp add: hexChars_def)

lemma set_hex_loop: "set (hex_loop h i n) \<subseteq> set hexChars"
proof (induction h i n rule: hex_loop.induct)
  case (1 h i n)
  have nth: "hexChars ! unat (w AND 15) \<in> set hexChars" for w :: u64
    by (rule nth_mem) (simp add: nibble_less)
  show ?case
  proof (cases "i < n")
    case True
    with 1 [OF True refl] nth show ?thesis by (simp add: hex_loop.simps [of h i n] Let_def)
  next
    case False
    then show ?thesis by (subst hex_loop.simps) simp
  qed
qed

lemma hex_loop_small:
  "n \<le> 16 \<Longrightarrow>
   hex_loop h i n = map (\<lambda>k. hexChars ! unat (drop_bit (k * 4) h AND 15)) [i..<n]"
proof (induction h i n rule: hex_loop.induct)
  case (1 h i n)
  have "\<not> (i mod 16 = 0 \<and> 0 < i)" if "i < n" using that "1.prems" by auto
  with 1 show ?case
    by (auto simp: hex_loop.simps [of h i n] Let_def upt_conv_Cons)
qed

lemma nibbles_determine:
  fixes h g :: u64
  assumes "\<And>k. k < 16 \<Longrightarrow> drop_bit (k * 4) h AND 15 = drop_bit (k * 4) g AND 15"
  shows "h = g"
proof (rule bit_word_eqI)
  fix i assume "i < LENGTH(64)"
  then have k: "i div 4 < 16" by simp
  have "i mod 4 = 0 \<or> i mod 4 = 1 \<or> i mod 4 = 2 \<or> i mod 4 = 3" by arith
  then have b: "bit (15 :: u64) (i mod 4)"
    by (elim disjE) (simp_all only: bit_numeral_simps, simp_all)
  from assms [OF k]
  have "bit (drop_bit (i div 4 * 4) h AND 15) (i mod 4) =
        bit (drop_bit (i div 4 * 4) g AND 15) (i mod 4)" by simp
  with b show "bit h i = bit g i"
    by (simp add: bit_and_iff bit_drop_bit_eq)
qed

text \<open>
  \<open>hexBytes h n\<close> has exactly \<open>n\<close> characters, all lowercase hex digits, and its first
  sixteen characters determine the hash: two hashes with the same sixteen digits are equal.
\<close>

theorem hexBytes_faithful:
  "length (hexBytes h n) = n \<and> set (hexBytes h n) \<subseteq> set ''0123456789abcdef'' \<and>
   (hexBytes h 16 = hexBytes g 16 \<longleftrightarrow> h = g)"
proof -
  have "h = g" if eq: "hexBytes h 16 = hexBytes g 16"
  proof (rule nibbles_determine)
    fix k :: nat assume k: "k < 16"
    from eq have "hexBytes h 16 ! k = hexBytes g 16 ! k" by simp
    then have "hexChars ! unat (drop_bit (k * 4) h AND 15) =
        hexChars ! unat (drop_bit (k * 4) g AND 15)"
      using k by (simp add: hexBytes_def hex_loop_small)
    then have "unat (drop_bit (k * 4) h AND 15) = unat (drop_bit (k * 4) g AND 15)"
      using distinct_hexChars by (simp add: nth_eq_iff_index_eq nibble_less)
    then show "drop_bit (k * 4) h AND 15 = drop_bit (k * 4) g AND 15"
      by (simp only: word_eq_unat)
  qed
  then show ?thesis
    using set_hex_loop [of h 0 n] by (auto simp: hexBytes_def length_hex_loop hexChars_def)
qed

end
