(* ===== verification/MgSweep.thy ===== *)
theory MgSweep
  imports MgConfig Hash
begin

text \<open>
  The data of a run of the metric generator and its virtual clock
  (\<open>internal/metricgen/plan.go\<close>, \<open>values.go\<close>): metric definitions, the plan, the time of a
  sweep and of a point, the churn generations of a resource and the reset epochs of a
  cumulative series. All of it is a function of the plan, the series and the sweep number.

  Sweep numbers are \<open>uint64\<close> words, times are milliseconds in an \<open>int64\<close>.
\<close>

section \<open>Plan data\<close>

record dim =
  dim_key :: string
  dim_values :: "(string \<times> string) list"

record histShape =
  hs_weights :: "rat list"
  hs_minIdx :: nat
  hs_maxIdx :: nat

datatype Temporality = TemporalityUnspecified | TemporalityDelta | TemporalityCumulative

record metricDef =
  md_index :: nat
  md_name :: string
  md_typ :: metricType
  md_temporality :: Temporality
  md_monotonic :: bool
  md_valueIsInt :: bool
  md_unit :: string
  md_description :: string
  md_scopeIdx :: nat
  md_cardinality :: nat
  md_dims :: "dim list"
  md_bounds :: "rat list"
  md_mids :: "rat list"
  md_histShapes :: "histShape list"
  md_expScale :: int
  md_hasNegative :: bool
  md_expPowMin :: int
  md_expPow :: "rat list"
  md_quantiles :: "rat list"
  md_structSeed :: u64
  md_valueSeed :: u64

record plan =
  pl_cfg :: mg_config
  pl_metrics :: "metricDef list"
  pl_startMs :: int
  pl_intervalMs :: int
  pl_jitterMs :: int
  pl_lifetimeSwps :: u64
  pl_totalSeries :: u64
  pl_typeCounts :: "string \<Rightarrow> nat"
  pl_typeSeries :: "string \<Rightarrow> u64"
  pl_exemplarThresh :: u64
  pl_seedHash :: u64

record seriesRef =
  sr_def :: metricDef
  sr_j :: nat
  sr_resourceIdx :: nat
  sr_sVal :: u64

section \<open>Series\<close>

definition makeSeriesRef :: "metricDef \<Rightarrow> nat \<Rightarrow> nat \<Rightarrow> seriesRef" where
  "makeSeriesRef d j resources =
     (let sIdent = mix2 (md_structSeed d) (of_nat j)
      in \<lparr>sr_def = d, sr_j = j, sr_resourceIdx = unat (sIdent mod of_nat resources),
          sr_sVal = mix2 (md_valueSeed d) (of_nat j)\<rparr>)"

section \<open>The virtual clock\<close>

definition sweepTimeMs :: "plan \<Rightarrow> int \<Rightarrow> nat \<Rightarrow> int" where
  "sweepTimeMs p k resourceIdx =
     (let ts = i64 (pl_startMs p + k * pl_intervalMs p)
      in if \<not> mg_AlignedTimestamps (pl_cfg p)
         then i64 (ts + sint (mix2 (of_nat resourceIdx) 0x7068617365 mod word_of_int (pl_intervalMs p)))
         else ts)"

definition pointTimeMs :: "plan \<Rightarrow> u64 \<Rightarrow> int \<Rightarrow> nat \<Rightarrow> int" where
  "pointTimeMs p sVal k resourceIdx =
     (let ts = sweepTimeMs p k resourceIdx
      in if 0 < pl_jitterMs p
         then i64 (ts + (sint (mix3 sVal (word_of_int k) 0x6a697474
                                 mod word_of_int (i64 (2 * pl_jitterMs p + 1)))
                         - pl_jitterMs p))
         else ts)"

definition metricAt :: "plan \<Rightarrow> nat \<Rightarrow> u64 \<Rightarrow> metricDef" where
  "metricAt p i k =
     (let n = length (pl_metrics p)
      in pl_metrics p ! ((i + unat (k mod of_nat n)) mod n))"

section \<open>Churn generations\<close>

definition churn_phase :: "plan \<Rightarrow> nat \<Rightarrow> u64" where
  "churn_phase p resourceIdx = mix2 (of_nat resourceIdx) 0x6c696665 mod pl_lifetimeSwps p"

definition generation :: "plan \<Rightarrow> nat \<Rightarrow> u64 \<Rightarrow> u64" where
  "generation p resourceIdx k =
     (if pl_lifetimeSwps p = 0 then 0
      else (k + churn_phase p resourceIdx) div pl_lifetimeSwps p)"

definition generationChanged :: "plan \<Rightarrow> nat \<Rightarrow> u64 \<Rightarrow> bool" where
  "generationChanged p resourceIdx k =
     (if pl_lifetimeSwps p = 0 \<or> k = 0 then False
      else (k + churn_phase p resourceIdx) mod pl_lifetimeSwps p = 0)"

definition generationStart :: "plan \<Rightarrow> nat \<Rightarrow> u64 \<Rightarrow> u64" where
  "generationStart p resourceIdx k =
     (if pl_lifetimeSwps p = 0 then 0
      else let phase = churn_phase p resourceIdx;
               gen = (k + phase) div pl_lifetimeSwps p
           in if gen = 0 then 0 else gen * pl_lifetimeSwps p - phase)"

section \<open>Reset epochs\<close>

definition resetPeriod :: "seriesRef \<Rightarrow> u64" where
  "resetPeriod s = 2000 + mix2 (sr_sVal s) 8 mod 20000"

definition epochStart :: "seriesRef \<Rightarrow> plan \<Rightarrow> u64 \<Rightarrow> int" where
  "epochStart s p k =
     (let period = resetPeriod s;
          phase = mix2 (sr_sVal s) 9 mod period;
          resetStart = i64 (sint k - sint ((k + phase) mod period));
          genStart = sint (generationStart p (sr_resourceIdx s) k)
      in if resetStart < genStart then genStart else resetStart)"

section \<open>A concrete plan\<close>

text \<open>
  A small plan with churn, jitter and two counters, at which the properties below are applied
  to concrete sweeps.
\<close>

definition sample_metric :: metricDef where
  "sample_metric =
     \<lparr>md_index = 0, md_name = ''http.server.requests'', md_typ = TypeSum,
      md_temporality = TemporalityCumulative, md_monotonic = True, md_valueIsInt = True,
      md_unit = ''1'', md_description = [], md_scopeIdx = 0, md_cardinality = 6,
      md_dims = [\<lparr>dim_key = ''http.method'', dim_values = [(''GET'', ''GET''), (''PUT'', ''PUT'')]\<rparr>,
                 \<lparr>dim_key = ''region'', dim_values = [(''a'', ''a''), (''b'', ''b''), (''c'', ''c'')]\<rparr>],
      md_bounds = [], md_mids = [], md_histShapes = [], md_expScale = 0,
      md_hasNegative = False, md_expPowMin = 0, md_expPow = [], md_quantiles = [],
      md_structSeed = 11, md_valueSeed = 12\<rparr>"

definition sample_plan :: plan where
  "sample_plan =
     \<lparr>pl_cfg = sample_config, pl_metrics = [sample_metric, sample_metric\<lparr>md_index := 1\<rparr>],
      pl_startMs = 1700000000000, pl_intervalMs = 15000, pl_jitterMs = 500,
      pl_lifetimeSwps = 4, pl_totalSeries = 12, pl_typeCounts = (\<lambda>_. 0),
      pl_typeSeries = (\<lambda>_. 0), pl_exemplarThresh = 0, pl_seedHash = 7\<rparr>"

section \<open>Generations: lemmas\<close>

text \<open>
  \<open>sweep_fits p k\<close>: the sweep number plus one resource lifetime stays within a \<open>uint64\<close>, so
  that \<open>k + phase\<close> does not wrap. At one sweep per nanosecond the bound is reached after
  five centuries.
\<close>

definition sweep_fits :: "plan \<Rightarrow> u64 \<Rightarrow> bool" where
  "sweep_fits p k \<longleftrightarrow> unat k + unat (pl_lifetimeSwps p) < 18446744073709551616"

lemma churn_phase_less:
  "pl_lifetimeSwps p \<noteq> 0 \<Longrightarrow> unat (churn_phase p r) < unat (pl_lifetimeSwps p)"
  by (simp add: churn_phase_def unat_mod_distrib unat_gt_0)

lemma unat_k_plus_phase:
  "pl_lifetimeSwps p \<noteq> 0 \<Longrightarrow> sweep_fits p k \<Longrightarrow>
   unat (k + churn_phase p r) = unat k + unat (churn_phase p r)"
  using churn_phase_less [of p r] by (intro unat_add64) (simp add: sweep_fits_def)

lemma unat_generation:
  "pl_lifetimeSwps p \<noteq> 0 \<Longrightarrow> sweep_fits p k \<Longrightarrow>
   unat (generation p r k) = (unat k + unat (churn_phase p r)) div unat (pl_lifetimeSwps p)"
  by (simp add: generation_def unat_div_distrib unat_k_plus_phase)

lemma generationChanged_nat:
  "pl_lifetimeSwps p \<noteq> 0 \<Longrightarrow> sweep_fits p k \<Longrightarrow>
   generationChanged p r k \<longleftrightarrow>
     k \<noteq> 0 \<and> (unat k + unat (churn_phase p r)) mod unat (pl_lifetimeSwps p) = 0"
  by (simp add: generationChanged_def word_eq_unat [of "_ mod _"] unat_mod_distrib
      unat_k_plus_phase)

lemma unat_generationStart:
  assumes L: "pl_lifetimeSwps p \<noteq> 0" and fits: "sweep_fits p k"
  shows "unat (generationStart p r k) =
    (let g = (unat k + unat (churn_phase p r)) div unat (pl_lifetimeSwps p)
     in if g = 0 then 0 else g * unat (pl_lifetimeSwps p) - unat (churn_phase p r))"
proof -
  let ?L = "unat (pl_lifetimeSwps p)" and ?ph = "unat (churn_phase p r)"
  let ?gw = "(k + churn_phase p r) div pl_lifetimeSwps p"
  let ?g = "(unat k + ?ph) div ?L"
  have g: "unat ?gw = ?g"
    by (simp add: unat_div_distrib unat_k_plus_phase [OF L fits])
  have le: "?g * ?L \<le> unat k + ?ph" by (rule div_times_less_eq_dividend)
  have lt: "unat k + ?ph < 18446744073709551616"
    using churn_phase_less [OF L, of r] fits by (simp add: sweep_fits_def)
  show ?thesis
  proof (cases "?g = 0")
    case True
    then have "?gw = 0" using g by (simp add: word_eq_unat)
    with True L show ?thesis by (simp add: generationStart_def Let_def)
  next
    case False
    then have nz: "?gw \<noteq> 0" using g by auto
    have m: "unat (?gw * pl_lifetimeSwps p) = ?g * ?L"
      using le_less_trans [OF le lt] unat_mult64 [of ?gw "pl_lifetimeSwps p"] unfolding g by blast
    have "1 * ?L \<le> ?g * ?L" using False by (intro mult_le_mono1) simp
    then have "?ph \<le> ?g * ?L" using churn_phase_less [OF L, of r] by linarith
    then have "churn_phase p r \<le> ?gw * pl_lifetimeSwps p"
      by (simp add: word_le_nat_alt m)
    then have "unat (?gw * pl_lifetimeSwps p - churn_phase p r) = ?g * ?L - ?ph"
      by (simp add: unat_sub m)
    with False nz L show ?thesis by (simp add: generationStart_def Let_def)
  qed
qed

text \<open>Arithmetic of a phase-shifted period: the facts every clock of the plan needs.\<close>

lemma div_Suc_phase:
  fixes k ph L :: nat
  assumes "0 < L"
  shows "(Suc k + ph) div L = (k + ph) div L + (if (Suc k + ph) mod L = 0 then 1 else 0)"
  using div_Suc [of "k + ph" L] by simp

definition period_start :: "nat \<Rightarrow> nat \<Rightarrow> nat \<Rightarrow> nat" where
  "period_start L ph k = (let g = (k + ph) div L in if g = 0 then 0 else g * L - ph)"

lemma period_start_le: "0 < L \<Longrightarrow> period_start L ph k \<le> k"
  using div_times_less_eq_dividend [of "k + ph" L]
  by (cases "(k + ph) div L = 0") (simp_all add: period_start_def Let_def le_diff_conv)

lemma period_start_Suc:
  assumes L: "0 < L" and ph: "ph < L"
  shows "period_start L ph (Suc k) =
    (if (Suc k + ph) mod L = 0 then Suc k else period_start L ph k)"
proof (cases "(Suc k + ph) mod L = 0")
  case True
  then have "(Suc k + ph) div L * L = Suc k + ph" by (metis add.right_neutral div_mult_mod_eq)
  moreover from this have "(Suc k + ph) div L \<noteq> 0" by (metis add_Suc mult_zero_left nat.distinct(1))
  ultimately show ?thesis using True by (simp add: period_start_def Let_def)
next
  case False
  then have "(Suc k + ph) div L = (k + ph) div L" using div_Suc_phase [OF L, of k ph] by simp
  with False show ?thesis by (simp only: period_start_def if_False)
qed

lemma div_at_period_start:
  assumes L: "0 < L" and ph: "ph < L"
  shows "(period_start L ph k + ph) div L = (k + ph) div L"
proof (cases "(k + ph) div L = 0")
  case True
  then show ?thesis using ph L by (simp add: period_start_def Let_def)
next
  case False
  then have "1 * L \<le> (k + ph) div L * L" by (intro mult_le_mono1) simp
  with ph have "(k + ph) div L * L - ph + ph = (k + ph) div L * L" by linarith
  with False L show ?thesis by (simp add: period_start_def Let_def)
qed

lemma before_period_start:
  assumes L: "0 < L" and ph: "ph < L" and j: "j < period_start L ph k"
  shows "(j + ph) div L < (k + ph) div L"
proof -
  have g: "(k + ph) div L \<noteq> 0" using j by (cases "(k + ph) div L = 0") (simp_all add: period_start_def)
  then have "j < (k + ph) div L * L - ph" using j by (simp add: period_start_def Let_def)
  then have "j + ph < (k + ph) div L * L" by simp
  then show ?thesis using L by (simp add: less_mult_imp_div_less)
qed

lemma unat_generationStart_period:
  "pl_lifetimeSwps p \<noteq> 0 \<Longrightarrow> sweep_fits p k \<Longrightarrow>
   unat (generationStart p r k) =
     period_start (unat (pl_lifetimeSwps p)) (unat (churn_phase p r)) (unat k)"
  by (simp add: unat_generationStart period_start_def)

text \<open>
  The generation number changes exactly at the sweeps \<open>generationChanged\<close> reports: it is
  true at \<open>k\<close> exactly when the generation at \<open>k\<close> differs from the one at \<open>k - 1\<close>, in which
  case it is its successor. (With churn disabled neither ever happens.)
\<close>

theorem generationChanged_iff:
  assumes "sweep_fits p k" and "k \<noteq> 0"
  shows "(generationChanged p r k \<longleftrightarrow> generation p r k \<noteq> generation p r (k - 1)) \<and>
         (generationChanged p r k \<longrightarrow> generation p r k = generation p r (k - 1) + 1)"
proof (cases "pl_lifetimeSwps p = 0")
  case True
  then show ?thesis by (simp add: generationChanged_def generation_def)
next
  case L: False
  define K where "K = unat (k - 1)"
  have k: "unat k = Suc K"
    using assms(2) by (simp add: K_def unat_minus_one unat_gt_0 Suc_pred)
  have fits: "sweep_fits p (k - 1)" using assms(1) k by (simp add: sweep_fits_def K_def)
  let ?L = "unat (pl_lifetimeSwps p)" and ?ph = "unat (churn_phase p r)"
  have Lpos: "0 < ?L" using L by (simp add: unat_gt_0)
  have g: "unat (generation p r k) = (Suc K + ?ph) div ?L"
    and g': "unat (generation p r (k - 1)) = (K + ?ph) div ?L"
    using unat_generation [OF L assms(1), of r] unat_generation [OF L fits, of r]
    by (simp_all add: k K_def)
  have c: "generationChanged p r k \<longleftrightarrow> (Suc K + ?ph) mod ?L = 0"
    using generationChanged_nat [OF L assms(1), of r] assms(2) by (simp add: k)
  have step: "unat (generation p r k) =
      unat (generation p r (k - 1)) + (if generationChanged p r k then 1 else 0)"
    unfolding g g' c by (rule div_Suc_phase [OF Lpos])
  have succ: "generation p r k = generation p r (k - 1) + 1" if "generationChanged p r k"
  proof -
    have "unat (generation p r (k - 1)) + unat (1 :: u64) < 18446744073709551616"
      using step that unat_lt_2p64 [of "generation p r k"] by simp
    then show ?thesis using step that by (simp add: word_eq_unat unat_add64)
  qed
  with step show ?thesis by (auto simp: word_eq_unat)
qed

theorem generationChanged_iff_witness:
  "(generationChanged sample_plan 3 5 \<longleftrightarrow> generation sample_plan 3 5 \<noteq> generation sample_plan 3 (5 - 1)) \<and>
   (generationChanged sample_plan 3 5 \<longrightarrow> generation sample_plan 3 5 = generation sample_plan 3 (5 - 1) + 1)"
  by (rule generationChanged_iff) (simp_all add: sweep_fits_def sample_plan_def)

text \<open>
  \<open>generationStart\<close> is the first sweep of the current generation: it is not after the
  sweep asked about, it belongs to the same generation, and every earlier sweep belongs to an
  earlier generation.
\<close>

theorem generationStart_first:
  assumes fits: "sweep_fits p k"
  shows "generationStart p r k \<le> k \<and>
         generation p r (generationStart p r k) = generation p r k \<and>
         (\<forall>j < generationStart p r k. generation p r j < generation p r k)"
proof (cases "pl_lifetimeSwps p = 0")
  case True
  then show ?thesis by (simp add: generationStart_def generation_def)
next
  case L: False
  let ?L = "unat (pl_lifetimeSwps p)" and ?ph = "unat (churn_phase p r)"
  have Lpos: "0 < ?L" using L by (simp add: unat_gt_0)
  note ph = churn_phase_less [OF L, of r]
  note start = unat_generationStart_period [OF L fits, of r]
  have le: "unat (generationStart p r k) \<le> unat k"
    unfolding start by (rule period_start_le [OF Lpos])
  have below: "sweep_fits p j" if "unat j \<le> unat k" for j
    using that fits by (simp add: sweep_fits_def)
  have "unat (generation p r (generationStart p r k)) = unat (generation p r k)"
    unfolding unat_generation [OF L below [OF le]] unat_generation [OF L fits] start
    by (rule div_at_period_start [OF Lpos ph])
  moreover have "generation p r j < generation p r k" if "j < generationStart p r k" for j
  proof -
    have j: "unat j < unat (generationStart p r k)" using that by (simp add: word_less_nat_alt)
    then have "unat j \<le> unat k" using le by simp
    then show ?thesis
      using before_period_start [OF Lpos ph, of "unat j" "unat k"] j
      by (simp add: word_less_nat_alt unat_generation [OF L] below fits start)
  qed
  ultimately show ?thesis using le by (simp add: word_le_nat_alt word_eq_unat)
qed

theorem generationStart_first_witness:
  "generationStart sample_plan 3 9 \<le> 9 \<and>
   generation sample_plan 3 (generationStart sample_plan 3 9) = generation sample_plan 3 9"
  using generationStart_first [of sample_plan 9 3] by (simp add: sweep_fits_def sample_plan_def)

section \<open>Epochs: lemmas\<close>

lemma unat_resetPeriod: "2000 \<le> unat (resetPeriod s) \<and> unat (resetPeriod s) < 22000"
proof -
  have "unat (mix2 (sr_sVal s) 8 mod 20000) < 20000"
    by (simp add: unat_mod_distrib)
  then have "unat (resetPeriod s) = 2000 + unat (mix2 (sr_sVal s) 8 mod 20000)"
    by (simp add: resetPeriod_def unat_add64)
  with \<open>unat (mix2 (sr_sVal s) 8 mod 20000) < 20000\<close> show ?thesis by simp
qed

definition resetPhase :: "seriesRef \<Rightarrow> u64" where
  "resetPhase s = mix2 (sr_sVal s) 9 mod resetPeriod s"

lemma unat_resetPhase: "unat (resetPhase s) < unat (resetPeriod s)"
  using unat_resetPeriod [of s] by (simp add: resetPhase_def unat_mod_distrib)

text \<open>\<open>epoch_fits\<close>: the sweep number is below \<open>2^62\<close>, and \<open>sweep_fits\<close>.\<close>

definition epoch_fits :: "plan \<Rightarrow> u64 \<Rightarrow> bool" where
  "epoch_fits p k \<longleftrightarrow> unat k < 4611686018427387904 \<and> sweep_fits p k"

lemma generationStart_le: "sweep_fits p k \<Longrightarrow> unat (generationStart p r k) \<le> unat k"
  using unat_generationStart_period [of p k r] period_start_le [of "unat (pl_lifetimeSwps p)"]
  by (cases "pl_lifetimeSwps p = 0") (simp_all add: generationStart_def unat_gt_0)

lemma epochStart_max:
  assumes fits: "epoch_fits p k"
  shows "epochStart s p k =
    max (int (unat k) - int ((unat k + unat (resetPhase s)) mod unat (resetPeriod s)))
        (int (unat (generationStart p (sr_resourceIdx s) k)))"
proof -
  let ?m = "(k + resetPhase s) mod resetPeriod s"
  have k: "unat k < 4611686018427387904" using fits by (simp add: epoch_fits_def)
  have P: "unat (resetPeriod s) < 22000" using unat_resetPeriod [of s] by simp
  have "unat (k + resetPhase s) = unat k + unat (resetPhase s)"
    using k P unat_resetPhase [of s] by (intro unat_add64) simp
  then have m: "unat ?m = (unat k + unat (resetPhase s)) mod unat (resetPeriod s)"
    by (simp add: unat_mod_distrib)
  have mless: "unat ?m < 22000"
    unfolding m using unat_resetPeriod [of s] mod_less_divisor [of "unat (resetPeriod s)"]
    by (meson less_trans less_le_trans zero_less_numeral)
  have g: "sint (generationStart p (sr_resourceIdx s) k) =
      int (unat (generationStart p (sr_resourceIdx s) k))"
    using generationStart_le [of p k "sr_resourceIdx s"] fits k
    by (intro sint_small) (auto simp: epoch_fits_def)
  have sk: "sint k = int (unat k)" and sm: "sint ?m = int (unat ?m)"
    using k mless by (simp_all add: sint_small)
  have "i64 (sint k - sint ?m) = int (unat k) - int (unat ?m)"
    unfolding sk sm by (rule i64_id) (unfold in_i64_def, use k mless in linarith)
  then show ?thesis
    unfolding epochStart_def Let_def resetPhase_def [symmetric] g m [symmetric]
    by (simp add: max_def)
qed

lemma epochStart_range:
  assumes fits: "epoch_fits p k"
  shows "epochStart s p k \<le> int (unat k) \<and> int (unat k) - epochStart s p k < 22000"
proof -
  let ?P = "unat (resetPeriod s)"
  have P: "0 < ?P" "?P < 22000" using unat_resetPeriod [of s] by auto
  then have "(unat k + unat (resetPhase s)) mod ?P < ?P" by simp
  moreover have "unat (generationStart p (sr_resourceIdx s) k) \<le> unat k"
    using generationStart_le fits by (simp add: epoch_fits_def)
  ultimately show ?thesis using P unfolding epochStart_max [OF fits] by linarith
qed

lemma epoch_arith:
  fixes k m m' P g g' :: nat and e e' :: int
  assumes "e = max (int k - int m) (int g)" and "e' = max (int (Suc k) - int m') (int g')"
    and "m < P" and "P < 22000" and "g \<le> k" and "g' = g \<or> g' = Suc k" and "m' = 0 \<or> m' = Suc m"
  shows "e \<le> int k \<and> int k - e < 22000 \<and> (e' = e \<or> e' = int k + 1)"
  using assms by linarith

lemma epochStart_next:
  assumes fits: "epoch_fits p (k + 1)" and k: "unat k < 4611686018427387903"
  shows "epochStart s p k \<le> int (unat k) \<and> int (unat k) - epochStart s p k < 22000 \<and>
         (epochStart s p (k + 1) = epochStart s p k \<or>
          epochStart s p (k + 1) = int (unat k) + 1)"
proof -
  have k1: "unat (k + 1) = Suc (unat k)"
    using k unat_add64 [of k 1] by simp
  have fk: "epoch_fits p k"
    using fits by (simp add: epoch_fits_def sweep_fits_def k1)
  let ?P = "unat (resetPeriod s)" and ?ph = "unat (resetPhase s)"
  let ?r = "sr_resourceIdx s"
  have P: "0 < ?P" "?P < 22000" using unat_resetPeriod [of s] by auto
  have mP: "(unat k + ?ph) mod ?P < ?P" using P by simp
  have gle: "unat (generationStart p ?r k) \<le> unat k"
    using generationStart_le fk by (simp add: epoch_fits_def)
  have gstep: "unat (generationStart p ?r (k + 1)) = unat (generationStart p ?r k) \<or>
      unat (generationStart p ?r (k + 1)) = Suc (unat k)"
  proof (cases "pl_lifetimeSwps p = 0")
    case True
    then show ?thesis by (simp add: generationStart_def)
  next
    case L: False
    have f1: "sweep_fits p k" and f2: "sweep_fits p (k + 1)"
      using fk fits by (simp_all add: epoch_fits_def)
    show ?thesis
      using period_start_Suc [OF _ churn_phase_less [OF L], of ?r "unat k"] L
      by (simp add: unat_generationStart_period [OF L f1] unat_generationStart_period [OF L f2]
          k1 unat_gt_0)
  qed
  have mstep: "(Suc (unat k) + ?ph) mod ?P = 0 \<or>
      (Suc (unat k) + ?ph) mod ?P = Suc ((unat k + ?ph) mod ?P)"
    by (simp add: mod_Suc)
  show ?thesis
    by (rule epoch_arith [OF epochStart_max [OF fk] epochStart_max [OF fits, unfolded k1]
          mP P(2) gle gstep mstep])
qed

text \<open>
  The epoch of a cumulative series starts at or before the current sweep and fewer than
  22000 sweeps ago, and from one sweep to the next it either stays the same or starts anew
  exactly at the new sweep: cumulative values never straddle a reset.
\<close>

theorem epochStart_step:
  assumes fits: "epoch_fits p (k + 1)" and k: "unat k < 4611686018427387903"
  shows "epochStart s p k \<le> int (unat k) \<and> int (unat k) - epochStart s p k < 22000 \<and>
         (epochStart s p (k + 1) = epochStart s p k \<or>
          epochStart s p (k + 1) = int (unat k) + 1)"
  using assms by (rule epochStart_next)

theorem epochStart_step_witness:
  "epochStart (makeSeriesRef sample_metric 3 5) sample_plan 9 \<le> int (unat (9 :: u64)) \<and>
   int (unat (9 :: u64)) - epochStart (makeSeriesRef sample_metric 3 5) sample_plan 9 < 22000 \<and>
   (epochStart (makeSeriesRef sample_metric 3 5) sample_plan (9 + 1) =
      epochStart (makeSeriesRef sample_metric 3 5) sample_plan 9 \<or>
    epochStart (makeSeriesRef sample_metric 3 5) sample_plan (9 + 1) = int (unat (9 :: u64)) + 1)"
  by (rule epochStart_step) (simp_all add: epoch_fits_def sweep_fits_def sample_plan_def)

section \<open>Timestamps: lemmas\<close>

text \<open>
  \<open>clock_wf\<close> is what validation guarantees of the clock (a positive interval, a jitter below
  half of it) together with a start and an interval that leave room in an \<open>int64\<close>;
  \<open>sweep_in_range\<close> is the same for a sweep number.
\<close>

definition clock_wf :: "plan \<Rightarrow> bool" where
  "clock_wf p \<longleftrightarrow>
     1 \<le> pl_intervalMs p \<and> pl_intervalMs p < 1152921504606846976 \<and>
     0 \<le> pl_jitterMs p \<and> 2 * pl_jitterMs p < pl_intervalMs p \<and>
     \<bar>pl_startMs p\<bar> < 1152921504606846976"

definition sweep_in_range :: "plan \<Rightarrow> int \<Rightarrow> bool" where
  "sweep_in_range p k \<longleftrightarrow> \<bar>k * pl_intervalMs p\<bar> < 1152921504606846976"

lemma sint_mod_range:
  fixes w :: u64
  assumes "1 \<le> m" and "m < 9223372036854775808"
  shows "0 \<le> sint (w mod word_of_int m) \<and> sint (w mod word_of_int m) < m"
proof -
  have m: "unat (word_of_int m :: u64) = nat m"
    using assms by (intro unat_of_int64) auto
  then have "unat (w mod word_of_int m) = unat w mod nat m"
    by (simp add: unat_mod_distrib)
  then have "unat (w mod word_of_int m) < nat m" using assms by simp
  moreover from this have "sint (w mod word_of_int m) = int (unat (w mod word_of_int m))"
    using assms by (intro sint_small) linarith
  ultimately show ?thesis using assms by linarith
qed

definition clock_phase :: "plan \<Rightarrow> nat \<Rightarrow> int" where
  "clock_phase p r =
     (if mg_AlignedTimestamps (pl_cfg p) then 0
      else sint (mix2 (of_nat r) 0x7068617365 mod word_of_int (pl_intervalMs p)))"

lemma clock_phase_range: "clock_wf p \<Longrightarrow> 0 \<le> clock_phase p r \<and> clock_phase p r < pl_intervalMs p"
  using sint_mod_range [of "pl_intervalMs p"] by (auto simp: clock_phase_def clock_wf_def)

lemma sweepTimeMs_eq:
  assumes "clock_wf p" and "sweep_in_range p k"
  shows "sweepTimeMs p k r = pl_startMs p + k * pl_intervalMs p + clock_phase p r"
proof -
  note ph = clock_phase_range [OF assms(1), of r]
  have "in_i64 (pl_startMs p + k * pl_intervalMs p)"
    and "in_i64 (pl_startMs p + k * pl_intervalMs p + clock_phase p r)"
    using assms ph unfolding clock_wf_def sweep_in_range_def in_i64_def by linarith+
  then show ?thesis by (simp add: sweepTimeMs_def clock_phase_def Let_def split: if_splits)
qed

definition jitter_off :: "plan \<Rightarrow> u64 \<Rightarrow> int \<Rightarrow> int" where
  "jitter_off p sVal k =
     (if 0 < pl_jitterMs p
      then sint (mix3 sVal (word_of_int k) 0x6a697474 mod word_of_int (i64 (2 * pl_jitterMs p + 1)))
           - pl_jitterMs p
      else 0)"

lemma jitter_off_range: "clock_wf p \<Longrightarrow> \<bar>jitter_off p sVal k\<bar> \<le> pl_jitterMs p"
proof -
  assume wf: "clock_wf p"
  then have "i64 (2 * pl_jitterMs p + 1) = 2 * pl_jitterMs p + 1"
    by (intro i64_nat_id) (auto simp: clock_wf_def)
  then show ?thesis
    using sint_mod_range [of "2 * pl_jitterMs p + 1" "mix3 sVal (word_of_int k) 0x6a697474"] wf
    by (auto simp: jitter_off_def clock_wf_def)
qed

lemma pointTimeMs_eq:
  assumes "clock_wf p" and "sweep_in_range p k"
  shows "pointTimeMs p sVal k r = sweepTimeMs p k r + jitter_off p sVal k"
proof -
  have "in_i64 (sweepTimeMs p k r + jitter_off p sVal k)"
    using assms clock_phase_range [OF assms(1), of r] jitter_off_range [OF assms(1), of sVal k]
    unfolding sweepTimeMs_eq [OF assms] clock_wf_def sweep_in_range_def in_i64_def by linarith
  then show ?thesis by (simp add: pointTimeMs_def jitter_off_def Let_def split: if_splits)
qed

text \<open>
  C34. The timestamps of one series are strictly increasing from sweep to sweep, and no point
  is further from the exact time of its sweep than the configured jitter.
\<close>

theorem pointTimeMs_strictly_increasing:
  assumes "clock_wf p" and "sweep_in_range p k" and "sweep_in_range p (k + 1)"
  shows "pointTimeMs p sVal k r < pointTimeMs p sVal (k + 1) r \<and>
         \<bar>pointTimeMs p sVal k r - sweepTimeMs p k r\<bar> \<le> pl_jitterMs p"
proof -
  have "sweepTimeMs p (k + 1) r - sweepTimeMs p k r = pl_intervalMs p"
    unfolding sweepTimeMs_eq [OF assms(1,2)] sweepTimeMs_eq [OF assms(1,3)]
    by (simp add: algebra_simps)
  moreover have "\<bar>jitter_off p sVal k\<bar> \<le> pl_jitterMs p" "\<bar>jitter_off p sVal (k + 1)\<bar> \<le> pl_jitterMs p"
    using assms(1) by (rule jitter_off_range)+
  moreover have "2 * pl_jitterMs p < pl_intervalMs p" using assms(1) by (simp add: clock_wf_def)
  ultimately show ?thesis
    unfolding pointTimeMs_eq [OF assms(1,2)] pointTimeMs_eq [OF assms(1,3)] by linarith
qed

theorem pointTimeMs_strictly_increasing_witness:
  "pointTimeMs sample_plan 77 5 3 < pointTimeMs sample_plan 77 (5 + 1) 3 \<and>
   \<bar>pointTimeMs sample_plan 77 5 3 - sweepTimeMs sample_plan 5 3\<bar> \<le> pl_jitterMs sample_plan"
  by (rule pointTimeMs_strictly_increasing)
    (simp_all add: clock_wf_def sweep_in_range_def sample_plan_def)

lemma metricAt_rotate:
  assumes "length (pl_metrics p) = n" and "0 < n" and "n < 18446744073709551616"
  shows "map (\<lambda>i. metricAt p i k) [0..<n] = rotate (unat k mod n) (pl_metrics p) \<and>
         mset (map (\<lambda>i. metricAt p i k) [0..<n]) = mset (pl_metrics p)"
proof -
  have "unat (k mod of_nat n) = unat k mod n"
    using assms(3) by (simp add: unat_mod_distrib unat_of_nat64)
  then have "map (\<lambda>i. metricAt p i k) [0..<n] = rotate (unat k mod n) (pl_metrics p)"
    using assms(1,2)
    by (intro nth_equalityI) (simp_all add: metricAt_def Let_def nth_rotate add.commute)
  then show ?thesis by (simp add: mset_rotate)
qed

lemma metricAt_perm:
  "length (pl_metrics p) = n \<Longrightarrow> 0 < n \<Longrightarrow> n < 18446744073709551616 \<Longrightarrow>
   mset (map (\<lambda>i. metricAt p i k) [0..<n]) = mset (pl_metrics p)"
  using metricAt_rotate by blast

text \<open>
  The start offset of a sweep only rotates the metrics: the metrics visited in sweep \<open>k\<close>
  are the metrics of the plan, rotated, each visited exactly once.
\<close>

theorem metricAt_rotation:
  assumes "length (pl_metrics p) = n" and "0 < n" and "n < 18446744073709551616"
  shows "map (\<lambda>i. metricAt p i k) [0..<n] = rotate (unat k mod n) (pl_metrics p) \<and>
         mset (map (\<lambda>i. metricAt p i k) [0..<n]) = mset (pl_metrics p)"
  using assms by (rule metricAt_rotate)

theorem metricAt_rotation_witness:
  "map (\<lambda>i. metricAt sample_plan i 5) [0..<2] = rotate (unat (5 :: u64) mod 2) (pl_metrics sample_plan) \<and>
   mset (map (\<lambda>i. metricAt sample_plan i 5) [0..<2]) = mset (pl_metrics sample_plan)"
  by (rule metricAt_rotation) (simp_all add: sample_plan_def)

end
