(* ===== verification/Rejection.thy ===== *)
theory Rejection
  imports Prelude
begin

text \<open>
  Rejection sampling: the loops of the metric generator that draw until they have \<open>k\<close> distinct
  candidates (\<open>for len(xs) < k\<close> with a \<open>seen\<close> map in \<open>plan.go\<close> and \<open>names.go\<close>). A draw may also
  be rejected on its own (\<open>None\<close>). The loop takes fuel, \<open>None\<close> is running out of it; it never
  does on a fair source.
\<close>

fun collect :: "nat \<Rightarrow> ('g \<Rightarrow> 'a option \<times> 'g) \<Rightarrow> nat \<Rightarrow> 'a list \<Rightarrow> 'g \<Rightarrow> ('a list \<times> 'g) option" where
  "collect fuel draw k seen g =
     (if k \<le> length seen then Some (seen, g)
      else case fuel of 0 \<Rightarrow> None
      | Suc fuel \<Rightarrow>
          (case draw g of
             (None, g') \<Rightarrow> collect fuel draw k seen g'
           | (Some x, g') \<Rightarrow>
               if x \<in> set seen then collect fuel draw k seen g'
               else collect fuel draw k (seen @ [x]) g'))"

declare collect.simps [simp del]

lemma collect_done: "k \<le> length seen \<Longrightarrow> collect fuel draw k seen g = Some (seen, g)"
  by (simp add: collect.simps)

lemma collect_Suc:
  "length seen < k \<Longrightarrow> collect (Suc fuel) draw k seen g =
     (case draw g of
        (None, g') \<Rightarrow> collect fuel draw k seen g'
      | (Some x, g') \<Rightarrow>
          if x \<in> set seen then collect fuel draw k seen g'
          else collect fuel draw k (seen @ [x]) g')"
  by (simp add: collect.simps [of "Suc fuel"])

text \<open>What the draws can produce, and the \<open>n\<close>-th draw from a state. A source is
  fair when no proper subset of its range ever captures all further draws.\<close>

definition draws_in :: "('g \<Rightarrow> 'a option \<times> 'g) \<Rightarrow> 'a set \<Rightarrow> bool" where
  "draws_in draw U \<longleftrightarrow> (\<forall>g x. fst (draw g) = Some x \<longrightarrow> x \<in> U)"

fun drawn :: "('g \<Rightarrow> 'a option \<times> 'g) \<Rightarrow> nat \<Rightarrow> 'g \<Rightarrow> 'a option" where
  "drawn draw 0 g = fst (draw g)"
| "drawn draw (Suc n) g = drawn draw n (snd (draw g))"

definition fair :: "('g \<Rightarrow> 'a option \<times> 'g) \<Rightarrow> 'a set \<Rightarrow> 'g \<Rightarrow> bool" where
  "fair draw U g \<longleftrightarrow>
     (\<forall>seen N. seen \<subset> U \<longrightarrow> (\<exists>n x. N \<le> n \<and> drawn draw n g = Some x \<and> x \<notin> seen))"

lemma fair_next: "fair draw U g \<Longrightarrow> fair draw U (snd (draw g))"
  unfolding fair_def
proof (intro allI impI)
  fix seen N
  assume f: "\<forall>seen N. seen \<subset> U \<longrightarrow> (\<exists>n x. N \<le> n \<and> drawn draw n g = Some x \<and> x \<notin> seen)"
    and "seen \<subset> U"
  then obtain n x where n: "Suc N \<le> n" "drawn draw n g = Some x" "x \<notin> seen" by blast
  then obtain m where "n = Suc m" by (cases n) auto
  with n show "\<exists>n x. N \<le> n \<and> drawn draw n (snd (draw g)) = Some x \<and> x \<notin> seen" by auto
qed

text \<open>Whatever is collected is distinct, from the range of the draws, and \<open>k\<close> long.\<close>

lemma collect_props:
  assumes "draws_in draw U" and "collect fuel draw k seen g = Some (xs, g')"
    and "distinct seen" and "set seen \<subseteq> U" and "length seen \<le> k"
  shows "distinct xs \<and> set xs \<subseteq> U \<and> length xs = k"
  using assms
proof (induction fuel arbitrary: seen g)
  case 0
  then show ?case by (simp add: collect.simps [of 0] split: if_splits)
next
  case (Suc fuel)
  show ?case
  proof (cases "k \<le> length seen")
    case True
    with Suc.prems show ?thesis by (simp add: collect_done)
  next
    case False
    obtain o1 g1 where d: "draw g = (o1, g1)" by (rule prod.exhaust)
    have step: "collect (Suc fuel) draw k seen g = collect fuel draw k
        (case o1 of None \<Rightarrow> seen | Some x \<Rightarrow> if x \<in> set seen then seen else seen @ [x]) g1"
      using False by (simp add: collect_Suc d split: option.splits)
    let ?seen = "case o1 of None \<Rightarrow> seen | Some x \<Rightarrow> if x \<in> set seen then seen else seen @ [x]"
    have "distinct ?seen" "set ?seen \<subseteq> U" "length ?seen \<le> k"
      using Suc.prems(1,3,4,5) False d unfolding draws_in_def
      by (auto split: option.splits) (metis fst_conv)
    then show ?thesis using Suc.IH [OF Suc.prems(1)] Suc.prems(2) step by simp
  qed
qed

lemma collect_next:
  assumes "drawn draw n g = Some y" and "y \<notin> set seen" and "length seen < k" and "fair draw U g"
  shows "\<exists>x h g' m. fst (draw h) = Some x \<and> x \<notin> set seen \<and> fair draw U g' \<and>
    (\<forall>fuel. collect (fuel + Suc m) draw k seen g = collect fuel draw k (seen @ [x]) g')"
  using assms
proof (induction n arbitrary: g)
  case 0
  obtain g1 where d: "draw g = (Some y, g1)" using 0 by (cases "draw g") auto
  then have "collect (fuel + Suc 0) draw k seen g = collect fuel draw k (seen @ [y]) g1" for fuel
    using 0 by (simp add: collect_Suc)
  moreover have "fair draw U g1" using fair_next [OF 0(4)] d by simp
  ultimately show ?case using d 0 by (metis fst_conv)
next
  case (Suc n)
  obtain o1 g1 where d: "draw g = (o1, g1)" by (rule prod.exhaust)
  have fair1: "fair draw U g1" using fair_next [OF Suc.prems(4)] d by simp
  show ?case
  proof (cases "o1 = None \<or> the o1 \<in> set seen")
    case True
    have "drawn draw n g1 = Some y" using Suc.prems(1) d by simp
    then obtain x h g' m where ih: "fst (draw h) = Some x" "x \<notin> set seen" "fair draw U g'"
      "\<forall>fuel. collect (fuel + Suc m) draw k seen g1 = collect fuel draw k (seen @ [x]) g'"
      using Suc.IH [OF _ Suc.prems(2,3) fair1] by blast
    have "collect (fuel + Suc (Suc m)) draw k seen g = collect fuel draw k (seen @ [x]) g'" for fuel
      using True d Suc.prems(3) ih(4) by (auto simp: collect_Suc split: option.splits)
    with ih show ?thesis by blast
  next
    case False
    then obtain x where x: "o1 = Some x" "x \<notin> set seen" by auto
    then have "collect (fuel + Suc 0) draw k seen g = collect fuel draw k (seen @ [x]) g1" for fuel
      using d Suc.prems(3) by (simp add: collect_Suc)
    with x d fair1 show ?thesis by (metis fst_conv)
  qed
qed

text \<open>On a fair source with at least \<open>k\<close> candidates some amount of fuel is enough.\<close>

lemma collect_returns_from:
  assumes "draws_in draw U" and "finite U" and "k \<le> card U"
    and "fair draw U g" and "distinct seen" and "set seen \<subseteq> U" and "length seen + n = k"
  shows "\<exists>fuel res. collect fuel draw k seen g = Some res"
  using assms(4-)
proof (induction n arbitrary: seen g)
  case 0
  then show ?case by (intro exI [of _ 0]) (simp add: collect_done)
next
  case (Suc n)
  have "card (set seen) < card U" using Suc.prems assms(3) by (simp add: distinct_card)
  then have "set seen \<subset> U" using Suc.prems(3) by blast
  then obtain m y where y: "drawn draw m g = Some y" "y \<notin> set seen"
    using Suc.prems(1) unfolding fair_def by blast
  have "length seen < k" using Suc.prems(4) by simp
  from collect_next [OF y this Suc.prems(1)] obtain x h g' q
    where x: "fst (draw h) = Some x" "x \<notin> set seen" "fair draw U g'"
    and step: "\<forall>fuel. collect (fuel + Suc q) draw k seen g = collect fuel draw k (seen @ [x]) g'"
    by blast
  have "x \<in> U" using x(1) assms(1) by (auto simp: draws_in_def)
  then obtain fuel res where "collect fuel draw k (seen @ [x]) g' = Some res"
    using Suc.IH [of g' "seen @ [x]"] Suc.prems x(2,3) by auto
  then have "collect (fuel + Suc q) draw k seen g = Some res" using step by simp
  then show ?case by blast
qed

lemma collect_returns:
  "draws_in draw U \<Longrightarrow> fair draw U g \<Longrightarrow> finite U \<Longrightarrow> k \<le> card U \<Longrightarrow>
   \<exists>fuel res. collect fuel draw k [] g = Some res"
  by (rule collect_returns_from [of draw U k g "[]" k]) simp_all

text \<open>More fuel does not change a result.\<close>

lemma collect_mono:
  "collect fuel draw k seen g = Some res \<Longrightarrow> fuel \<le> fuel' \<Longrightarrow> collect fuel' draw k seen g = Some res"
proof (induction fuel arbitrary: fuel' seen g)
  case 0
  then show ?case by (simp add: collect.simps split: if_splits)
next
  case (Suc fuel)
  then obtain m where m: "fuel' = Suc m" "fuel \<le> m" by (cases fuel') auto
  show ?case
  proof (cases "k \<le> length seen")
    case True
    with Suc.prems show ?thesis by (simp add: collect_done)
  next
    case False
    with Suc show ?thesis by (auto simp: m collect_Suc split: option.splits prod.splits if_splits)
  qed
qed

end
