(* ===== verification/MgDims.thy ===== *)
theory MgDims
  imports MgSweep Rejection
begin

text \<open>
  The attribute space of a metric (\<open>internal/metricgen/plan.go\<close>, \<open>names.go\<close>,
  \<open>values.go\<close>): the key pool and the value of an attribute, the sizes of the dimensions, and
  the mixed-radix decomposition of a series index into one value per dimension.

  Draws from \<open>math/rand/v2\<close> are a state-passing function \<open>intN\<close>; what the code relies on is
  \<open>rng_ok\<close>: the result of \<open>IntN(n)\<close> is below \<open>n\<close>. The real root that sizes a dimension,
  \<open>int(math.Ceil(math.Pow(remaining, 1/left)))\<close>, is the parameter \<open>rootc\<close>, about which
  nothing is assumed.
\<close>

section \<open>Word lists and attribute keys\<close>

definition adjectives :: "string list" where
  "adjectives =
     [''swift'', ''vibrant'', ''ancient'', ''shadowy'', ''silent'', ''crimson'',
      ''frozen'', ''golden'', ''hidden'', ''cosmic'', ''mystic'', ''rugged'', ''luminous'',
      ''spectral'', ''rusty'', ''whispering'', ''emerald'', ''furious'', ''serene'',
      ''boreal'', ''celestial'', ''obsidian'', ''azure'', ''primal'', ''endless'',
      ''infinite'', ''gilded'', ''forgotten'', ''arcane'', ''stellar'', ''radiant'',
      ''somber'', ''twinkling'', ''murmuring'', ''shimmering'', ''blazing'', ''velvet'',
      ''frosty'', ''echoing'', ''timeless'']"

definition nouns :: "string list" where
  "nouns =
     [''horizon'', ''phoenix'', ''glacier'', ''canyon'', ''voyager'', ''nebula'',
      ''tempest'', ''cavern'', ''citadel'', ''summit'', ''eclipse'', ''oasis'',
      ''phantom'', ''echo'', ''oracle'', ''monolith'', ''vortex'', ''beacon'', ''odyssey'',
      ''sanctuary'', ''tundra'', ''comet'', ''spire'', ''crag'', ''mirage'', ''sentinel'',
      ''current'', ''threshold'', ''bastion'', ''relic'', ''cascade'', ''abyss'',
      ''fable'', ''matrix'', ''prophet'', ''mariner'', ''enclave'', ''zenith'',
      ''pinnacle'', ''artifact'']"

definition attrKeyPool :: "string list" where
  "attrKeyPool =
     [''http.method'', ''http.status_code'', ''http.route'', ''rpc.method'',
      ''rpc.service'', ''db.operation'', ''db.table'', ''messaging.destination'',
      ''queue.name'', ''operation'', ''endpoint'', ''cache.result'', ''error.type'',
      ''priority'', ''shard'', ''partition'', ''tier'', ''protocol'', ''direction'',
      ''status'']"

text \<open>The natural pools of \<open>attrValue\<close>, one per group of keys of its \<open>switch\<close>.\<close>

definition method_pool :: "string list" where
  "method_pool = [''GET'', ''POST'', ''PUT'', ''DELETE'', ''PATCH'', ''HEAD'', ''OPTIONS'']"

definition status_pool :: "string list" where
  "status_pool = [''200'', ''201'', ''204'', ''301'', ''304'', ''400'', ''401'', ''403'', ''404'',
                  ''429'', ''500'', ''502'', ''503'']"

definition cache_pool :: "string list" where
  "cache_pool = [''hit'', ''miss'', ''expired'', ''bypass'']"

definition direction_pool :: "string list" where
  "direction_pool = [''inbound'', ''outbound'']"

definition protocol_pool :: "string list" where
  "protocol_pool = [''http/1.1'', ''http/2'', ''grpc'', ''amqp'', ''mqtt'', ''kafka'']"

definition error_pool :: "string list" where
  "error_pool = [''none'', ''timeout'', ''connection_reset'', ''dns'', ''throttled'', ''internal'',
                 ''canceled'']"

definition tier_pool :: "string list" where
  "tier_pool = [''p0'', ''p1'', ''p2'', ''p3'']"

definition db_pool :: "string list" where
  "db_pool = [''select'', ''insert'', ''update'', ''delete'', ''batch'']"

definition attr_pool :: "string \<Rightarrow> string list option" where
  "attr_pool key =
     (if key \<in> {''http.method'', ''rpc.method''} then Some method_pool
      else if key \<in> {''http.status_code'', ''status''} then Some status_pool
      else if key = ''cache.result'' then Some cache_pool
      else if key = ''direction'' then Some direction_pool
      else if key = ''protocol'' then Some protocol_pool
      else if key = ''error.type'' then Some error_pool
      else if key \<in> {''priority'', ''tier''} then Some tier_pool
      else if key = ''db.operation'' then Some db_pool
      else None)"

definition attrValue :: "string \<Rightarrow> nat \<Rightarrow> string" where
  "attrValue key idx =
     (case attr_pool key of
        Some pool \<Rightarrow>
          if idx < length pool then pool ! idx
          else pool ! (idx mod length pool) @ ''-'' @ itoa (idx div length pool)
      | None \<Rightarrow>
          if key \<in> {''http.route'', ''endpoint''}
          then ''/api/v1/'' @ nouns ! (idx mod length nouns) @ ''/'' @ itoa (idx div length nouns)
          else if key = ''rpc.service''
          then nouns ! (idx mod length nouns) @ ''.'' @ adjectives ! (idx mod length adjectives)
               @ ''Service''
          else if key \<in> {''db.table'', ''messaging.destination'', ''queue.name''}
          then adjectives ! (idx mod length adjectives) @ ''_''
               @ nouns ! ((idx div 3) mod length nouns) @ ''_'' @ itoa (idx div length nouns)
          else if key = ''operation''
          then adjectives ! (idx mod length adjectives) @ ''-''
               @ nouns ! ((idx div 7) mod length nouns)
          else nouns ! (idx mod length nouns) @ ''-'' @ itoa idx)"

section \<open>Sizes of the dimensions\<close>

definition rng_ok :: "(nat \<Rightarrow> 'g \<Rightarrow> nat \<times> 'g) \<Rightarrow> bool" where
  "rng_ok intN \<longleftrightarrow> (\<forall>n g. 0 < n \<longrightarrow> fst (intN n g) < n)"

text \<open>
  \<open>dim_size\<close> is the size of one dimension with \<open>left = k - d\<close> dimensions to go, \<open>head\<close> holds for
  the first one (\<open>d == 0\<close>) only; \<open>dimSizes_loop\<close> is the loop over the dimensions.
\<close>

definition dim_size ::
  "(nat \<Rightarrow> nat \<Rightarrow> int) \<Rightarrow> (nat \<Rightarrow> 'g \<Rightarrow> nat \<times> 'g) \<Rightarrow> bool \<Rightarrow> nat \<Rightarrow> nat \<Rightarrow> 'g \<Rightarrow> nat \<times> 'g" where
  "dim_size rootc intN head left remaining g =
     (let t = rootc remaining left
      in if head then let (r, g') = intN 6 g in (nat (max 1 (min t (3 + int r))), g')
         else (nat (max 1 t), g))"

fun dimSizes_loop ::
  "(nat \<Rightarrow> nat \<Rightarrow> int) \<Rightarrow> (nat \<Rightarrow> 'g \<Rightarrow> nat \<times> 'g) \<Rightarrow> bool \<Rightarrow> nat \<Rightarrow> nat \<Rightarrow> 'g \<Rightarrow> nat list \<times> 'g"
where
  "dimSizes_loop rootc intN head 0 remaining g = ([], g)"
| "dimSizes_loop rootc intN head (Suc 0) remaining g = ([max 1 remaining], g)"
| "dimSizes_loop rootc intN head (Suc (Suc left)) remaining g =
     (case dim_size rootc intN head (Suc (Suc left)) remaining g of
        (t, g1) \<Rightarrow>
          (case dimSizes_loop rootc intN False (Suc left) ((remaining + t - 1) div t) g1 of
             (sizes, g2) \<Rightarrow> (t # sizes, g2)))"

definition dimSizes ::
  "(nat \<Rightarrow> nat \<Rightarrow> int) \<Rightarrow> (nat \<Rightarrow> 'g \<Rightarrow> nat \<times> 'g) \<Rightarrow> nat \<Rightarrow> nat \<Rightarrow> 'g \<Rightarrow> nat list \<times> 'g" where
  "dimSizes rootc intN c k g = dimSizes_loop rootc intN True k c g"

section \<open>Attribute vectors\<close>

fun attr_digits :: "dim list \<Rightarrow> nat \<Rightarrow> (string \<times> string) list" where
  "attr_digits [] rem = []"
| "attr_digits (d # ds) rem =
     (let size = length (dim_values d)
      in dim_values d ! (rem mod size) # attr_digits ds (rem div size))"

definition appendAttrs :: "seriesRef \<Rightarrow> (string \<times> string) list \<Rightarrow> (string \<times> string) list" where
  "appendAttrs s dst = dst @ attr_digits (md_dims (sr_def s)) (sr_j s)"

section \<open>Building the dimensions\<close>

definition key_draw :: "(nat \<Rightarrow> 'g \<Rightarrow> nat \<times> 'g) \<Rightarrow> 'g \<Rightarrow> nat option \<times> 'g" where
  "key_draw intN g = (case intN (length attrKeyPool) g of (idx, g') \<Rightarrow> (Some idx, g'))"

definition make_dim :: "string \<Rightarrow> nat \<Rightarrow> dim" where
  "make_dim key n = \<lparr>dim_key = key, dim_values = map (\<lambda>v. (key, attrValue key v)) [0..<n]\<rparr>"

definition buildDims ::
  "nat \<Rightarrow> (nat \<Rightarrow> nat \<Rightarrow> int) \<Rightarrow> (nat \<Rightarrow> 'g \<Rightarrow> nat \<times> 'g) \<Rightarrow> nat \<Rightarrow> nat \<Rightarrow> nat \<Rightarrow> 'g \<Rightarrow>
   (dim list \<times> 'g) option" where
  "buildDims fuel rootc intN cardinality minAttrs maxAttrs g =
     (let (r, g) = intN (maxAttrs - minAttrs + 1) g; k = minAttrs + r
      in case collect fuel (key_draw intN) k [] g of
           None \<Rightarrow> None
         | Some (idxs, g) \<Rightarrow>
             let keys = map (nth attrKeyPool) idxs;
                 (sizes, g) = dimSizes rootc intN cardinality k g
             in Some (map2 make_dim keys sizes, g))"

section \<open>Sizes: lemmas\<close>

lemma ceil_div_mult: "0 < t \<Longrightarrow> r \<le> t * ((r + t - 1) div t)" for r t :: nat
proof -
  assume t: "0 < t"
  have "r + t - 1 < t * Suc ((r + t - 1) div t)"
    using t by (simp add: dividend_less_times_div)
  then show ?thesis by simp
qed

lemma dim_size_pos: "0 < fst (dim_size rootc intN head left remaining g)"
  by (auto simp: dim_size_def Let_def split: prod.splits)

lemma dimSizes_loop_length [simp]:
  "length (fst (dimSizes_loop rootc intN head left remaining g)) = left"
  by (induction rootc intN head left remaining g rule: dimSizes_loop.induct)
    (auto split: prod.splits)

lemma dimSizes_loop_pos: "n \<in> set (fst (dimSizes_loop rootc intN head left remaining g)) \<Longrightarrow> 0 < n"
proof (induction rootc intN head left remaining g rule: dimSizes_loop.induct)
  case (3 rootc intN head left remaining g)
  then show ?case
    using dim_size_pos [of rootc intN head "Suc (Suc left)" remaining g]
    by (auto split: prod.splits)
qed auto

lemma dimSizes_loop_product:
  "0 < left \<Longrightarrow> remaining \<le> prod_list (fst (dimSizes_loop rootc intN head left remaining g))"
proof (induction rootc intN head left remaining g rule: dimSizes_loop.induct)
  case (3 rootc intN head left remaining g)
  obtain t g1 where d: "dim_size rootc intN head (Suc (Suc left)) remaining g = (t, g1)"
    by (rule prod.exhaust)
  then have t: "0 < t"
    using dim_size_pos [of rootc intN head "Suc (Suc left)" remaining g] by simp
  have "(remaining + t - 1) div t \<le>
      prod_list (fst (dimSizes_loop rootc intN False (Suc left) ((remaining + t - 1) div t) g1))"
    using "3.IH" [OF d [symmetric]] by simp
  then have "t * ((remaining + t - 1) div t) \<le>
      t * prod_list (fst (dimSizes_loop rootc intN False (Suc left) ((remaining + t - 1) div t) g1))"
    by (rule mult_le_mono2)
  with ceil_div_mult [OF t, of remaining]
  have "remaining \<le> t *
      prod_list (fst (dimSizes_loop rootc intN False (Suc left) ((remaining + t - 1) div t) g1))"
    by (rule order_trans)
  then show ?case by (simp add: d case_prod_beta)
qed auto

lemma dimSizes_length [simp]: "length (fst (dimSizes rootc intN c k g)) = k"
  by (simp add: dimSizes_def)

lemma dimSizes_pos: "n \<in> set (fst (dimSizes rootc intN c k g)) \<Longrightarrow> 0 < n"
  by (simp add: dimSizes_def dimSizes_loop_pos)

lemma dimSizes_product: "0 < k \<Longrightarrow> c \<le> prod_list (fst (dimSizes rootc intN c k g))"
  by (simp add: dimSizes_def dimSizes_loop_product)

section \<open>Attribute vectors: lemmas\<close>

definition dim_size_of :: "dim \<Rightarrow> nat" where
  "dim_size_of d = length (dim_values d)"

lemma attr_digits_length [simp]: "length (attr_digits ds rem) = length ds"
  by (induction ds arbitrary: rem) (auto simp: Let_def)

lemma attr_digits_inject:
  assumes "\<forall>d \<in> set ds. distinct (dim_values d)"
    and "i < prod_list (map dim_size_of ds)" and "j < prod_list (map dim_size_of ds)"
    and "attr_digits ds i = attr_digits ds j"
  shows "i = j"
  using assms
proof (induction ds arbitrary: i j)
  case Nil
  then show ?case by simp
next
  case (Cons d ds)
  let ?n = "dim_size_of d" and ?m = "prod_list (map dim_size_of ds)"
  have n: "0 < ?n" using Cons.prems(2) by (cases "?n = 0") auto
  have "i div ?n < ?m" "j div ?n < ?m"
    using Cons.prems(2,3) by (simp_all add: less_mult_imp_div_less mult.commute)
  moreover have "attr_digits ds (i div ?n) = attr_digits ds (j div ?n)"
    and eq: "dim_values d ! (i mod ?n) = dim_values d ! (j mod ?n)"
    using Cons.prems(4) by (simp_all add: Let_def dim_size_of_def)
  ultimately have "i div ?n = j div ?n" using Cons.IH Cons.prems(1) by auto
  moreover have "i mod ?n = j mod ?n"
    using eq n Cons.prems(1) by (simp add: nth_eq_iff_index_eq dim_size_of_def)
  ultimately show ?case by (metis div_mult_mod_eq)
qed

section \<open>Attribute values: lemmas\<close>

lemma first_sep_inject:
  assumes "c \<notin> set xs" "c \<notin> set xs'" "xs @ c # ys = xs' @ c # ys'"
  shows "xs = xs' \<and> ys = ys'"
  using assms
proof (induction xs arbitrary: xs')
  case Nil
  then show ?case by (cases xs') auto
next
  case (Cons x xs)
  then show ?case by (cases xs') auto
qed

lemma last_sep_inject:
  assumes "c \<notin> set ys" "c \<notin> set ys'" "xs @ c # ys = xs' @ c # ys'"
  shows "xs = xs' \<and> ys = ys'"
proof -
  have "rev ys @ c # rev xs = rev ys' @ c # rev xs'"
    using arg_cong [OF assms(3), of rev] by simp
  then show ?thesis
    using first_sep_inject [of c "rev ys" "rev ys'" "rev xs" "rev xs'"] assms(1,2) by simp
qed

lemma itoa_code: "c \<in> set (itoa n) \<Longrightarrow> 48 \<le> (of_char c :: nat) \<and> (of_char c :: nat) < 58"
  using itoa_chars [of c n] by (auto simp: digit_char_def of_char_of)

lemma dash_notin_itoa [simp]: "CHR ''-'' \<notin> set (itoa n)"
  and underscore_notin_itoa [simp]: "CHR ''_'' \<notin> set (itoa n)"
  and slash_notin_itoa [simp]: "CHR ''/'' \<notin> set (itoa n)"
  using itoa_code [of _ n] by fastforce+

lemma length_adjectives [simp]: "length adjectives = 40"
  and length_nouns [simp]: "length nouns = 40"
  and length_attrKeyPool [simp]: "length attrKeyPool = 20"
  by (simp_all add: adjectives_def nouns_def attrKeyPool_def)

lemma distinct_adjectives: "distinct adjectives"
  and distinct_nouns: "distinct nouns"
  and distinct_attrKeyPool: "distinct attrKeyPool"
  by code_simp+

lemma adjectives_no_underscore: "\<forall>s \<in> set adjectives. CHR ''_'' \<notin> set s \<and> CHR ''-'' \<notin> set s"
  by code_simp

definition pool_ok :: "string list \<Rightarrow> bool" where
  "pool_ok pool \<longleftrightarrow> pool \<noteq> [] \<and> distinct pool \<and> (\<forall>s \<in> set pool. CHR ''-'' \<notin> set s)"

lemma pools_ok: "pool_ok method_pool" "pool_ok status_pool" "pool_ok cache_pool"
  "pool_ok direction_pool" "pool_ok protocol_pool" "pool_ok error_pool" "pool_ok tier_pool"
  "pool_ok db_pool"
  by code_simp+

lemma attr_pool_ok: "attr_pool key = Some pool \<Longrightarrow> pool_ok pool"
  using pools_ok by (simp only: attr_pool_def split: if_split_asm) auto

lemma pool_value_inject:
  assumes ok: "pool_ok pool"
    and eq: "(if i < length pool then pool ! i
              else pool ! (i mod length pool) @ ''-'' @ itoa (i div length pool)) =
             (if j < length pool then pool ! j
              else pool ! (j mod length pool) @ ''-'' @ itoa (j div length pool))"
  shows "i = j"
proof -
  let ?n = "length pool"
  have n: "0 < ?n" and dist: "distinct pool" and nodash: "\<And>q. q < ?n \<Longrightarrow> CHR ''-'' \<notin> set (pool ! q)"
    using ok by (auto simp: pool_ok_def)
  have pos: "x div ?n \<noteq> 0" if "\<not> x < ?n" for x using that n by (simp add: div_eq_0_iff)
  have dash: "CHR ''-'' \<in> set (a @ ''-'' @ b)" for a b by simp
  consider "i < ?n" "j < ?n" | "i < ?n" "\<not> j < ?n" | "\<not> i < ?n" "j < ?n"
    | "\<not> i < ?n" "\<not> j < ?n" by blast
  then show ?thesis
  proof cases
    case 1
    with eq dist show ?thesis by (simp add: nth_eq_iff_index_eq)
  next
    case 2
    with eq dash nodash [of i] show ?thesis by simp
  next
    case 3
    with eq dash nodash [of j] show ?thesis by (metis)
  next
    case 4
    then have "pool ! (i mod ?n) @ CHR ''-'' # itoa (i div ?n) =
        pool ! (j mod ?n) @ CHR ''-'' # itoa (j div ?n)" using eq by simp
    then have "pool ! (i mod ?n) = pool ! (j mod ?n)" and "itoa (i div ?n) = itoa (j div ?n)"
      using last_sep_inject by (metis dash_notin_itoa)+
    then have "i mod ?n = j mod ?n" "i div ?n = j div ?n"
      using dist n by (auto simp: nth_eq_iff_index_eq dest: itoa_inject)
    then show ?thesis by (metis div_mult_mod_eq)
  qed
qed

lemma noun_div_inject:
  assumes "nouns ! (i mod 40) = nouns ! (j mod 40)" and "itoa (i div 40) = itoa (j div 40)"
  shows "i = j"
proof -
  have "i mod 40 = j mod 40"
    using assms(1) nth_eq_iff_index_eq [OF distinct_nouns, of "i mod 40" "j mod 40"] by simp
  moreover have "i div 40 = j div 40" using assms(2) by (rule itoa_inject)
  ultimately show ?thesis by (metis div_mult_mod_eq)
qed

lemma adj_div_inject:
  assumes "adjectives ! (i mod 40) @ CHR ''_'' # xs = adjectives ! (j mod 40) @ CHR ''_'' # ys"
    and "i div 40 = j div 40"
  shows "i = j"
proof -
  have "CHR ''_'' \<notin> set (adjectives ! (q mod 40))" for q
    using adjectives_no_underscore by simp
  then have "adjectives ! (i mod 40) = adjectives ! (j mod 40)"
    using first_sep_inject [OF _ _ assms(1)] by blast
  then have "i mod 40 = j mod 40"
    using nth_eq_iff_index_eq [OF distinct_adjectives, of "i mod 40" "j mod 40"] by simp
  with assms(2) show ?thesis by (metis div_mult_mod_eq)
qed

lemma last_dash_itoa:
  "xs @ CHR ''-'' # itoa m = ys @ CHR ''-'' # itoa n \<Longrightarrow> m = n"
  by (meson last_sep_inject dash_notin_itoa itoa_inject)

text \<open>The four shapes of an attribute value.\<close>

lemma attrValue_pool:
  "attr_pool key = Some pool \<Longrightarrow> attrValue key i =
     (if i < length pool then pool ! i
      else pool ! (i mod length pool) @ ''-'' @ itoa (i div length pool))"
  by (simp add: attrValue_def)

lemma attrValue_route:
  assumes "attr_pool key = None" and "key \<in> {''http.route'', ''endpoint''}"
  shows "attrValue key i =
    ''/api/v1/'' @ nouns ! (i mod 40) @ CHR ''/'' # itoa (i div 40)"
  unfolding attrValue_def assms(1) option.case if_P [OF assms(2)] by simp

lemma attrValue_table:
  assumes "attr_pool key = None" and "key \<in> {''db.table'', ''messaging.destination'', ''queue.name''}"
  shows "attrValue key i =
    (adjectives ! (i mod 40) @ CHR ''_'' # nouns ! (i div 3 mod 40)) @ CHR ''_'' # itoa (i div 40)"
proof -
  have n: "key \<notin> {''http.route'', ''endpoint''}" "key \<noteq> ''rpc.service''" using assms(2) by auto
  show ?thesis
    unfolding attrValue_def assms(1) option.case if_P [OF assms(2)] if_not_P [OF n(1)] if_not_P [OF n(2)]
    by simp
qed

lemma attrValue_other:
  assumes "attr_pool key = None" and "key \<notin> {''http.route'', ''endpoint''}"
    and "key \<notin> {''db.table'', ''messaging.destination'', ''queue.name''}"
    and "key \<noteq> ''rpc.service''" and "key \<noteq> ''operation''"
  shows "attrValue key i = nouns ! (i mod 40) @ CHR ''-'' # itoa i"
  unfolding attrValue_def assms(1) option.case if_not_P [OF assms(2)] if_not_P [OF assms(3)]
    if_not_P [OF assms(4)] if_not_P [OF assms(5)]
  by simp

lemma attrValue_inj_iff:
  assumes "key \<noteq> ''rpc.service''" and "key \<noteq> ''operation''"
  shows "attrValue key i = attrValue key j \<longleftrightarrow> i = j"
proof
  assume eq: "attrValue key i = attrValue key j"
  show "i = j"
  proof (cases "attr_pool key")
    case (Some pool)
    show ?thesis
      by (rule pool_value_inject [OF attr_pool_ok [OF Some]])
        (use eq in \<open>simp only: attrValue_pool [OF Some]\<close>)
  next
    case None
    show ?thesis
    proof (cases "key \<in> {''http.route'', ''endpoint''}")
      case True
      have "nouns ! (i mod 40) @ CHR ''/'' # itoa (i div 40) =
          nouns ! (j mod 40) @ CHR ''/'' # itoa (j div 40)"
        using eq by (simp only: attrValue_route [OF None True] same_append_eq)
      note parts = last_sep_inject [OF slash_notin_itoa slash_notin_itoa this]
      show ?thesis by (rule noun_div_inject [OF parts [THEN conjunct1] parts [THEN conjunct2]])
    next
      case not_route: False
      show ?thesis
      proof (cases "key \<in> {''db.table'', ''messaging.destination'', ''queue.name''}")
        case True
        note parts = last_sep_inject [OF underscore_notin_itoa underscore_notin_itoa
            eq [unfolded attrValue_table [OF None True]]]
        show ?thesis
          by (rule adj_div_inject [OF parts [THEN conjunct1] itoa_inject [OF parts [THEN conjunct2]]])
      next
        case False
        show ?thesis
          by (rule last_dash_itoa [OF eq [unfolded attrValue_other [OF None not_route False assms]]])
      qed
    qed
  qed
qed simp

text \<open>
  A natural pool or a numbered name never repeats: apart from the keys \<open>rpc.service\<close> and
  \<open>operation\<close>, the value of an attribute key determines the index it was made from.
\<close>

theorem attrValue_inject:
  assumes "key \<noteq> ''rpc.service''" and "key \<noteq> ''operation''"
  shows "attrValue key i = attrValue key j \<longleftrightarrow> i = j"
  using assms by (rule attrValue_inj_iff)

theorem attrValue_inject_witness:
  "attrValue ''db.table'' 3 = attrValue ''db.table'' 4003 \<longleftrightarrow> (3::nat) = 4003"
  by (rule attrValue_inject) simp_all

text \<open>
  For \<open>rpc.service\<close> and \<open>operation\<close> the values repeat, with period 40 and 280: a dimension
  over one of these keys with more values than that carries duplicates.
\<close>

theorem attrValue_repeats:
  "attrValue ''rpc.service'' (i + 40) = attrValue ''rpc.service'' i \<and>
   attrValue ''operation'' (i + 280) = attrValue ''operation'' i"
proof -
  have "(i + 280) div 7 = (i + 40 * 7) div 7" by simp
  also have "\<dots> = 40 + i div 7" by (rule div_mult_self1) simp
  finally have d: "(i + 280) div 7 mod 40 = i div 7 mod 40" by simp
  have m: "(i + 280) mod 40 = (i + 40 * 7) mod 40" by simp
  also have "\<dots> = i mod 40" by (rule mod_mult_self2)
  finally show ?thesis using d by (simp add: attrValue_def attr_pool_def)
qed

section \<open>Building the dimensions: lemmas\<close>

lemma make_dim_simps [simp]:
  "dim_key (make_dim key n) = key"
  "length (dim_values (make_dim key n)) = n"
  "dim_size_of (make_dim key n) = n"
  "v < n \<Longrightarrow> dim_values (make_dim key n) ! v = (key, attrValue key v)"
  by (simp_all add: make_dim_def dim_size_of_def)

lemma make_dim_distinct:
  "key \<noteq> ''rpc.service'' \<Longrightarrow> key \<noteq> ''operation'' \<Longrightarrow> distinct (dim_values (make_dim key n))"
  by (auto simp: make_dim_def distinct_map inj_on_def attrValue_inj_iff)

lemma map2_make_dim_keys:
  "length keys = length sizes \<Longrightarrow> map dim_key (map2 make_dim keys sizes) = keys"
  by (rule nth_equalityI) simp_all

lemma map2_make_dim_sizes:
  "length keys = length sizes \<Longrightarrow> map dim_size_of (map2 make_dim keys sizes) = sizes"
  by (rule nth_equalityI) simp_all

lemma key_draw_in: "rng_ok intN \<Longrightarrow> draws_in (key_draw intN) {..<20}"
  unfolding draws_in_def rng_ok_def key_draw_def
  by (auto split: prod.splits) (metis fst_conv zero_less_numeral)

lemma buildDims_ok:
  assumes "rng_ok intN" and "0 < minAttrs" and "minAttrs \<le> maxAttrs"
    and "buildDims fuel rootc intN cardinality minAttrs maxAttrs g = Some (ds, g')"
  shows "minAttrs \<le> length ds \<and> length ds \<le> maxAttrs \<and>
    distinct (map dim_key ds) \<and> set (map dim_key ds) \<subseteq> set attrKeyPool \<and>
    cardinality \<le> prod_list (map dim_size_of ds) \<and>
    (set (map dim_key ds) \<inter> {''rpc.service'', ''operation''} = {} \<longrightarrow>
      (\<forall>i < cardinality. \<forall>j < cardinality. attr_digits ds i = attr_digits ds j \<longrightarrow> i = j))"
proof -
  obtain r g1 where r: "intN (Suc (maxAttrs - minAttrs)) g = (r, g1)" by (rule prod.exhaust)
  define k where "k = minAttrs + r"
  have rless: "r < Suc (maxAttrs - minAttrs)"
    using assms(1) r unfolding rng_ok_def by (metis fst_conv zero_less_Suc)
  obtain idxs g2 where picked: "collect fuel (key_draw intN) k [] g1 = Some (idxs, g2)"
    using assms(4) by (auto simp: buildDims_def r k_def Let_def split: option.splits)
  define keys where "keys = map (nth attrKeyPool) idxs"
  define sizes where "sizes = fst (dimSizes rootc intN cardinality k g2)"
  have ds: "ds = map2 make_dim keys sizes"
    using assms(4) picked
    by (auto simp: buildDims_def r k_def keys_def sizes_def Let_def split: prod.splits)
  have idxs: "distinct idxs" "set idxs \<subseteq> {..<20}" "length idxs = k"
    using collect_props [OF key_draw_in [OF assms(1)] picked] by auto
  have len: "length keys = length sizes" and lk: "length keys = k"
    using idxs(3) by (simp_all add: keys_def sizes_def)
  have kd: "map dim_key ds = keys" and sd: "map dim_size_of ds = sizes"
    unfolding ds using len by (rule map2_make_dim_keys, rule map2_make_dim_sizes)
  have "inj_on (nth attrKeyPool) (set idxs)"
    using idxs(2) by (intro inj_on_nth [OF distinct_attrKeyPool]) auto
  then have dist: "distinct keys" using idxs(1) by (simp add: keys_def distinct_map)
  have pool: "set keys \<subseteq> set attrKeyPool"
    using idxs(2) by (auto simp: keys_def)
  have prod: "cardinality \<le> prod_list sizes"
    unfolding sizes_def using assms(2) by (intro dimSizes_product) (simp add: k_def)
  have uniq: "i = j"
    if "set keys \<inter> {''rpc.service'', ''operation''} = {}" "i < cardinality" "j < cardinality"
      "attr_digits ds i = attr_digits ds j" for i j
  proof -
    have "distinct (dim_values d)" if "d \<in> set ds" for d
      using that \<open>set keys \<inter> _ = {}\<close> unfolding ds
      by (auto simp: set_zip intro!: make_dim_distinct dest: nth_mem)
    then show ?thesis
      using attr_digits_inject [of ds i j] that(2-4) prod unfolding sd by auto
  qed
  have ld: "length ds = k" unfolding ds using len lk by simp
  show ?thesis
    unfolding kd sd ld using rless assms(3) dist pool prod uniq by (auto simp: k_def)
qed


text \<open>
  The generator of the example below: a list of raw draws, each reduced modulo the bound.
\<close>

fun feed :: "nat \<Rightarrow> nat list \<Rightarrow> nat \<times> nat list" where
  "feed n [] = (0, [])"
| "feed n (x # xs) = (x mod n, xs)"

lemma feed_ok: "rng_ok feed"
  unfolding rng_ok_def
proof (intro allI impI)
  fix n :: nat and g :: "nat list"
  assume "0 < n"
  then show "fst (feed n g) < n" by (cases g) simp_all
qed


text \<open>
  With one of the repeating keys the attribute vectors are not unique: the same draws with
  \<open>rpc.service\<close> in place of \<open>http.route\<close> give series 0 and 320 of the 1000 series the same
  attributes.
\<close>

theorem buildDims_repeating_key:
  "buildDims 2 (\<lambda>_ _. 10) feed 1000 2 5 [0, 0, 4, 5] =
     Some ([make_dim ''http.method'' 8, make_dim ''rpc.service'' 125], []) \<and>
   attr_digits [make_dim ''http.method'' 8, make_dim ''rpc.service'' 125] 0 =
   attr_digits [make_dim ''http.method'' 8, make_dim ''rpc.service'' 125] 320"
proof -
  have "attrValue ''rpc.service'' 40 = attrValue ''rpc.service'' 0"
    by (simp add: attrValue_def attr_pool_def)
  then show ?thesis
    by (simp add: buildDims_def collect.simps key_draw_def numeral_2_eq_2 dimSizes_def dim_size_def
        attrKeyPool_def)
qed

text \<open>
  On a fair generator the dimensions of a metric are built: the rejection loop that draws
  the keys ends.
\<close>

theorem buildDims_returns:
  assumes "rng_ok intN" and "minAttrs \<le> maxAttrs" and "maxAttrs \<le> 20"
    and "fair (key_draw intN) {..<20} (snd (intN (Suc (maxAttrs - minAttrs)) g))"
  shows "\<exists>fuel res. buildDims fuel rootc intN cardinality minAttrs maxAttrs g = Some res"
proof -
  obtain r g1 where r: "intN (Suc (maxAttrs - minAttrs)) g = (r, g1)" by (rule prod.exhaust)
  then have "r < Suc (maxAttrs - minAttrs)"
    using assms(1) unfolding rng_ok_def by (metis fst_conv zero_less_Suc)
  then have "minAttrs + r \<le> 20" using assms(2,3) by linarith
  moreover have "fair (key_draw intN) {..<20} g1" using assms(4) r by simp
  ultimately obtain fuel res where "collect fuel (key_draw intN) (minAttrs + r) [] g1 = Some res"
    using collect_returns [OF key_draw_in [OF assms(1)], of g1 "minAttrs + r"] by auto
  then show ?thesis
    by (intro exI [of _ fuel]) (simp add: buildDims_def r Let_def case_prod_beta)
qed

definition count_rng :: "nat \<Rightarrow> nat \<Rightarrow> nat \<times> nat" where
  "count_rng n g = (g mod n, Suc g)"

lemma drawn_count: "drawn (key_draw count_rng) n g = Some ((g + n) mod 20)"
  by (induction n arbitrary: g) (simp_all add: count_rng_def key_draw_def)

lemma count_rng_ok: "rng_ok count_rng"
  by (simp add: rng_ok_def count_rng_def)

lemma count_rng_fair: "fair (key_draw count_rng) {..<20} g"
  unfolding fair_def
proof (intro allI impI)
  fix seen :: "nat set" and N :: nat
  assume "seen \<subset> {..<20}"
  then obtain x where x: "x < 20" "x \<notin> seen" by blast
  have "g + (x + 19 * g + 20 * N) = x + 20 * (g + N)" by simp
  then have "(g + (x + 19 * g + 20 * N)) mod 20 = (x + 20 * (g + N)) mod 20" by (rule arg_cong)
  also have "\<dots> = x mod 20" by (rule mod_mult_self2)
  also have "\<dots> = x" using x(1) by simp
  finally show "\<exists>n y. N \<le> n \<and> drawn (key_draw count_rng) n g = Some y \<and> y \<notin> seen"
    using x(2)
    by (intro exI [of _ "x + 19 * g + 20 * N"] exI [of _ x]) (simp add: drawn_count)
qed

theorem buildDims_returns_witness:
  "\<exists>fuel res. buildDims fuel (\<lambda>_ _. 10) count_rng 1000 2 5 0 = Some res"
  by (rule buildDims_returns [OF count_rng_ok _ _ count_rng_fair]) simp_all

end
