(* ===== verification/MgResources.thy ===== *)
theory MgResources
  imports MgDims
begin

text \<open>
  The name tables (\<open>internal/metricgen/names.go\<close>) and the pool of resources
  (\<open>internal/metricgen/resources.go\<close>): the attributes of a resource in a generation, and the
  lock-free cache the workers share, whose slots hold the two most recent generations. A slot is
  an atomic pointer: here an address in an append-only heap, so that \<open>CompareAndSwap\<close> compares
  addresses and not contents.
\<close>

section \<open>Name tables\<close>

definition name_draw :: "(nat \<Rightarrow> 'g \<Rightarrow> nat \<times> 'g) \<Rightarrow> 'g \<Rightarrow> string option \<times> 'g" where
  "name_draw intN g =
     (case intN (length adjectives) g of (a1, g1) \<Rightarrow>
      case intN (length adjectives) g1 of (a2, g2) \<Rightarrow>
        if adjectives ! a1 = adjectives ! a2 then (None, g2)
        else case intN (length nouns) g2 of (n, g3) \<Rightarrow>
          (Some (adjectives ! a1 @ ''_'' @ adjectives ! a2 @ ''_'' @ nouns ! n), g3))"

definition metricNames :: "nat \<Rightarrow> (nat \<Rightarrow> 'g \<Rightarrow> nat \<times> 'g) \<Rightarrow> nat \<Rightarrow> 'g \<Rightarrow> string list option" where
  "metricNames fuel intN n g = map_option fst (collect fuel (name_draw intN) n [] g)"

text \<open>\<open>serviceNames\<close> appends one name per iteration: the phrase, or the phrase with the position.\<close>

fun serviceNames_loop ::
  "(nat \<Rightarrow> 'g \<Rightarrow> nat \<times> 'g) \<Rightarrow> nat \<Rightarrow> string list \<Rightarrow> 'g \<Rightarrow> string list" where
  "serviceNames_loop intN 0 names g = names"
| "serviceNames_loop intN (Suc n) names g =
     (case intN (length adjectives) g of (a, g1) \<Rightarrow>
      case intN (length nouns) g1 of (m, g2) \<Rightarrow>
        let name = adjectives ! a @ ''-'' @ nouns ! m;
            name = (if name \<in> set names then name @ ''-'' @ itoa (length names) else name)
        in serviceNames_loop intN n (names @ [name]) g2)"

definition serviceNames :: "(nat \<Rightarrow> 'g \<Rightarrow> nat \<times> 'g) \<Rightarrow> nat \<Rightarrow> 'g \<Rightarrow> string list" where
  "serviceNames intN n g = serviceNames_loop intN n [] g"

section \<open>Resources\<close>

type_synonym resource = "(string \<times> string) list"

definition regions :: "string list" where
  "regions = [''us-east-1'', ''us-west-2'', ''eu-west-1'', ''eu-central-1'', ''ap-southeast-1'', ''sa-east-1'']"

definition namespaces :: "string list" where
  "namespaces = [''prod'', ''staging'', ''canary'']"

definition sdkLanguages :: "string list" where
  "sdkLanguages = [''go'', ''java'', ''python'', ''nodejs'', ''dotnet'', ''rust'']"

text \<open>\<open>pick xs h\<close> is the indexing \<open>xs[h % uint64(len(xs))]\<close>.\<close>

definition pick :: "'a list \<Rightarrow> u64 \<Rightarrow> 'a" where
  "pick xs h = xs ! unat (h mod of_nat (length xs))"

definition strAttr :: "string \<Rightarrow> string \<Rightarrow> string \<times> string" where
  "strAttr key value = (key, value)"

definition serviceName :: "string list \<Rightarrow> nat \<Rightarrow> string" where
  "serviceName services idx = services ! (idx mod length services)"

definition resource_build :: "string list \<Rightarrow> nat \<Rightarrow> nat \<Rightarrow> u64 \<Rightarrow> resource" where
  "resource_build services resources idx gen =
     (let service = serviceName services idx;
          h = mix2 (of_nat idx) 0x7265736f75726365;
          gh = mix3 (of_nat idx) gen 0x706f64;
          namespace = pick namespaces h;
          region = pick regions (drop_bit 8 h);
          zone = region @ [char_of (97 + unat (drop_bit 16 h mod 3))];
          node = ''node-'' @ region @ ''-'' @
                 itoa (unat ((of_nat idx :: u64) mod max 1 (of_nat (resources div 10))));
          pod = service @ ''-'' @ hexBytes h 10 @ ''-'' @ hexBytes gh 5
      in [strAttr ''service.name'' service,
          strAttr ''service.namespace'' namespace,
          strAttr ''service.instance.id''
            (hexBytes (splitmix64 gh) 8 @ ''-'' @ hexBytes (drop_bit 32 gh) 4),
          strAttr ''k8s.pod.name'' pod,
          strAttr ''k8s.namespace.name'' namespace,
          strAttr ''k8s.node.name'' node,
          strAttr ''host.name'' node,
          strAttr ''cloud.region'' region,
          strAttr ''cloud.availability_zone'' zone,
          strAttr ''os.type'' ''linux'',
          strAttr ''telemetry.sdk.name'' ''opentelemetry'',
          strAttr ''telemetry.sdk.language'' (pick sdkLanguages (drop_bit 24 h))])"

section \<open>The cache\<close>

record resourceSlot =
  rs_gen :: u64
  rs_res :: resource
  rs_prev :: "(u64 \<times> resource) option"

record resourcePool =
  rp_services :: "string list"
  rp_resources :: nat
  rp_slots :: "nat \<Rightarrow> nat option"
  rp_heap :: "resourceSlot list"

definition newResourcePool :: "string list \<Rightarrow> nat \<Rightarrow> resourcePool" where
  "newResourcePool services resources =
     \<lparr>rp_services = services, rp_resources = resources, rp_slots = (\<lambda>_. None), rp_heap = []\<rparr>"

definition rp_build :: "resourcePool \<Rightarrow> nat \<Rightarrow> u64 \<Rightarrow> resource" where
  "rp_build rp idx gen = resource_build (rp_services rp) (rp_resources rp) idx gen"

text \<open>\<open>get\<close> is an atomic load of the slot followed by the rest of the call.\<close>

definition slot_hit :: "resourceSlot \<Rightarrow> u64 \<Rightarrow> resource option" where
  "slot_hit slot gen =
     (if rs_gen slot = gen then Some (rs_res slot)
      else case rs_prev slot of
             Some (g, r) \<Rightarrow> if g = gen then Some r else None
           | None \<Rightarrow> None)"

definition rp_get_rest :: "resourcePool \<Rightarrow> nat \<Rightarrow> u64 \<Rightarrow> nat option \<Rightarrow> resource \<times> resourcePool" where
  "rp_get_rest rp idx gen ptr =
     (let slot = map_option (nth (rp_heap rp)) ptr
      in case Option.bind slot (\<lambda>s. slot_hit s gen) of
           Some res \<Rightarrow> (res, rp)
         | None \<Rightarrow>
             let res = rp_build rp idx gen;
                 nxt = \<lparr>rs_gen = gen, rs_res = res,
                        rs_prev = (case slot of
                           Some s \<Rightarrow> if rs_gen s < gen then Some (rs_gen s, rs_res s) else None
                         | None \<Rightarrow> None)\<rparr>;
                 addr = length (rp_heap rp);
                 rp = rp\<lparr>rp_heap := rp_heap rp @ [nxt]\<rparr>
             in if (case slot of Some s \<Rightarrow> rs_gen s < gen | None \<Rightarrow> True) \<and> rp_slots rp idx = ptr
                then (res, rp\<lparr>rp_slots := (rp_slots rp)(idx := Some addr)\<rparr>)
                else (res, rp))"

definition rp_get :: "resourcePool \<Rightarrow> nat \<Rightarrow> u64 \<Rightarrow> resource \<times> resourcePool" where
  "rp_get rp idx gen = rp_get_rest rp idx gen (rp_slots rp idx)"

text \<open>
  Concurrent calls: each worker is idle, has loaded the slot, or has returned; the workers'
  steps interleave arbitrarily.
\<close>

datatype rp_call = Idle | Loaded nat u64 "nat option" | Returned nat u64 resource

inductive rp_step ::
  "resourcePool \<times> (nat \<Rightarrow> rp_call) \<Rightarrow> resourcePool \<times> (nat \<Rightarrow> rp_call) \<Rightarrow> bool" where
  load: "(\<forall>i g p. calls w \<noteq> Loaded i g p) \<Longrightarrow>
         rp_step (rp, calls) (rp, calls(w := Loaded idx gen (rp_slots rp idx)))"
| rest: "calls w = Loaded idx gen ptr \<Longrightarrow> rp_get_rest rp idx gen ptr = (res, rp') \<Longrightarrow>
         rp_step (rp, calls) (rp', calls(w := Returned idx gen res))"

inductive_cases rp_stepE: "rp_step (rp, calls) (rp', calls')"

section \<open>Name tables: lemmas\<close>

lemma nth_adjectives_inject: "i < 40 \<Longrightarrow> j < 40 \<Longrightarrow> adjectives ! i = adjectives ! j \<longleftrightarrow> i = j"
  using distinct_adjectives by (simp add: nth_eq_iff_index_eq)

lemma nth_nouns_inject: "i < 40 \<Longrightarrow> j < 40 \<Longrightarrow> nouns ! i = nouns ! j \<longleftrightarrow> i = j"
  using distinct_nouns by (simp add: nth_eq_iff_index_eq)

definition metric_phrase :: "nat \<times> nat \<times> nat \<Rightarrow> string" where
  "metric_phrase = (\<lambda>(a, b, n). adjectives ! a @ ''_'' @ adjectives ! b @ ''_'' @ nouns ! n)"

definition phrase_space :: "(nat \<times> nat \<times> nat) set" where
  "phrase_space = {(a, b, n). a < 40 \<and> b < 40 \<and> a \<noteq> b \<and> n < 40}"

lemma phrase_space_card: "finite phrase_space" "card phrase_space = 62400"
proof -
  have s: "phrase_space =
      (SIGMA a : {..<40}. ({..<40} - {a}) \<times> {..<40})"
    by (auto simp: phrase_space_def)
  show "finite phrase_space" unfolding s by simp
  have "card phrase_space = (\<Sum>a\<in>{..<40::nat}. card (({..<40::nat} - {a}) \<times> {..<40::nat}))"
    unfolding s by (rule card_SigmaI) simp_all
  also have "\<dots> = (\<Sum>a\<in>{..<40::nat}. 1560)"
    by (rule sum.cong) (simp_all add: card_cartesian_product)
  finally show "card phrase_space = 62400" by simp
qed

lemma metric_phrase_inj: "inj_on metric_phrase phrase_space"
proof (rule inj_onI)
  fix x y assume x: "x \<in> phrase_space" and y: "y \<in> phrase_space" and eq: "metric_phrase x = metric_phrase y"
  obtain a b n a' b' n' where xy: "x = (a, b, n)" "y = (a', b', n')" by (metis prod_cases3)
  have lim: "a < 40" "b < 40" "n < 40" "a' < 40" "b' < 40" "n' < 40"
    using x y by (simp_all add: xy phrase_space_def)
  have clean: "CHR ''_'' \<notin> set (adjectives ! i)" if "i < 40" for i
    using that adjectives_no_underscore by simp
  have e: "adjectives ! a @ CHR ''_'' # (adjectives ! b @ CHR ''_'' # nouns ! n) =
      adjectives ! a' @ CHR ''_'' # (adjectives ! b' @ CHR ''_'' # nouns ! n')"
    using eq by (simp add: xy metric_phrase_def)
  note first = first_sep_inject [OF clean [OF lim(1)] clean [OF lim(4)] e]
  note second = first_sep_inject [OF clean [OF lim(2)] clean [OF lim(5)] first [THEN conjunct2]]
  show "x = y"
    using first second lim by (simp add: xy nth_adjectives_inject nth_nouns_inject)
qed

lemma name_draw_in: "rng_ok intN \<Longrightarrow> draws_in (name_draw intN) (metric_phrase ` phrase_space)"
  unfolding draws_in_def
proof (intro allI impI)
  fix g x assume ok: "rng_ok intN" and d: "fst (name_draw intN g) = Some x"
  obtain a g1 where a: "intN 40 g = (a, g1)" by (rule prod.exhaust)
  obtain b g2 where b: "intN 40 g1 = (b, g2)" by (rule prod.exhaust)
  obtain n g3 where n: "intN 40 g2 = (n, g3)" by (rule prod.exhaust)
  have lim: "a < 40" "b < 40" "n < 40"
    using ok a b n unfolding rng_ok_def by (metis fst_conv zero_less_numeral)+
  have "a \<noteq> b" "x = metric_phrase (a, b, n)"
    using d a b n lim by (auto simp: name_draw_def metric_phrase_def split: if_splits)
  with lim show "x \<in> metric_phrase ` phrase_space" by (auto simp: phrase_space_def)
qed

text \<open>
  The metric name table: \<open>metricNames n\<close> is a list of \<open>n\<close> pairwise distinct names, and on a
  fair generator it is built for every \<open>n\<close> that configuration allows (\<open>n\<close> up to
  \<open>MaxMetricCount\<close>, which is below the 62,400 phrases).
\<close>

theorem metricNames_table:
  assumes "rng_ok intN" and "fair (name_draw intN) (metric_phrase ` phrase_space) g"
    and "int n \<le> MaxMetricCount"
  shows "(\<exists>fuel names. metricNames fuel intN n g = Some names) \<and>
    (\<forall>fuel names. metricNames fuel intN n g = Some names \<longrightarrow> distinct names \<and> length names = n)"
proof -
  let ?U = "metric_phrase ` phrase_space"
  have card: "finite ?U" "card ?U = 62400"
    using phrase_space_card by (simp_all add: card_image [OF metric_phrase_inj])
  have "n \<le> card ?U" using assms(3) by (simp add: card MaxMetricCount_def)
  then obtain fuel res where "collect fuel (name_draw intN) n [] g = Some res"
    using collect_returns [OF name_draw_in [OF assms(1)] assms(2) card(1)] by blast
  moreover have "distinct names \<and> length names = n" if "metricNames fuel intN n g = Some names" for fuel names
    using that collect_props [OF name_draw_in [OF assms(1)], of fuel n "[]" g]
    by (auto simp: metricNames_def)
  ultimately show ?thesis unfolding metricNames_def by (metis option.simps(9))
qed

text \<open>
  A fair generator for the witness: a counter read as three base-40 digits, one per draw, that
  moves on when the first two agree.
\<close>

fun digit_rng :: "nat \<Rightarrow> nat \<times> nat \<Rightarrow> nat \<times> nat \<times> nat" where
  "digit_rng n (c, p) =
     (if p = 0 then ((c mod 40) mod n, c, 1)
      else if p = 1
      then ((c div 40 mod 40) mod n, if c div 40 mod 40 = c mod 40 then (Suc c, 0) else (c, 2))
      else ((c div 1600 mod 40) mod n, Suc c, 0))"

lemma digit_rng_ok: "rng_ok digit_rng"
  by (auto simp: rng_ok_def)

lemma name_draw_digit:
  "name_draw digit_rng (c, 0) =
     (let a = c mod 40; b = c div 40 mod 40; n = c div 1600 mod 40
      in (if a = b then None else Some (metric_phrase (a, b, n)), Suc c, 0))"
  by (simp add: name_draw_def Let_def metric_phrase_def nth_adjectives_inject)

lemma drawn_digit:
  "drawn (name_draw digit_rng) n (c, 0) = fst (name_draw digit_rng (c + n, 0))"
  by (induction n arbitrary: c) (simp_all add: name_draw_digit Let_def)

lemma digit_rng_fair: "fair (name_draw digit_rng) (metric_phrase ` phrase_space) (0, 0)"
  unfolding fair_def
proof (intro allI impI)
  fix seen :: "string set" and N :: nat
  assume "seen \<subset> metric_phrase ` phrase_space"
  then obtain a b n where x: "a < 40" "b < 40" "a \<noteq> b" "n < 40" "metric_phrase (a, b, n) \<notin> seen"
    by (auto simp: phrase_space_def)
  define q where "q = n + 40 * N"
  define r where "r = b + 40 * q"
  define c where "c = a + 40 * r"
  have d1: "c mod 40 = a" "c div 40 = r" using x(1) by (simp_all add: c_def)
  have "c div 1600 = c div 40 div 40" by (simp add: div_mult2_eq [symmetric])
  then have d2: "c div 40 mod 40 = b" "c div 1600 mod 40 = n"
    using x(2,4) by (simp_all add: d1 r_def) (simp add: q_def)
  have "N \<le> c" by (simp add: c_def r_def q_def)
  then show "\<exists>n x. N \<le> n \<and> drawn (name_draw digit_rng) n (0, 0) = Some x \<and> x \<notin> seen"
    using x d1(1) d2
    by (intro exI [of _ c] exI [of _ "metric_phrase (a, b, n)"])
      (simp add: drawn_digit name_draw_digit Let_def)
qed

theorem metricNames_table_witness:
  "(\<exists>fuel names. metricNames fuel digit_rng 1000 (0, 0) = Some names) \<and>
   (\<forall>fuel names. metricNames fuel digit_rng 1000 (0, 0) = Some names \<longrightarrow>
      distinct names \<and> length names = 1000)"
  by (rule metricNames_table [OF digit_rng_ok digit_rng_fair]) (simp add: MaxMetricCount_def)

section \<open>Service names: lemmas\<close>

text \<open>
  A name in the table is a bare phrase or a phrase with the position it was added at; the
  numbered names are told apart by their position and from the bare ones by the second dash.
\<close>

definition service_phrase :: "nat \<Rightarrow> nat \<Rightarrow> string" where
  "service_phrase a m = adjectives ! a @ ''-'' @ nouns ! m"

definition table_name :: "nat \<Rightarrow> string \<Rightarrow> bool" where
  "table_name bound s \<longleftrightarrow> (\<exists>a < 40. \<exists>m < 40. s = service_phrase a m \<or>
     (\<exists>i < bound. s = service_phrase a m @ ''-'' @ itoa i))"

lemma nouns_no_dash: "\<forall>s \<in> set nouns. CHR ''-'' \<notin> set s"
  by code_simp

lemma numbered_not_phrase:
  assumes "a < 40" "m < 40" "b < 40" "n < 40"
  shows "service_phrase a m @ ''-'' @ itoa i \<noteq> service_phrase b n"
proof
  assume eq: "service_phrase a m @ ''-'' @ itoa i = service_phrase b n"
  have "CHR ''-'' \<notin> set (nouns ! n)" using nouns_no_dash assms by simp
  moreover have "service_phrase a m @ CHR ''-'' # itoa i = adjectives ! b @ CHR ''-'' # nouns ! n"
    using eq by (simp add: service_phrase_def)
  ultimately have "service_phrase a m = adjectives ! b"
    using last_sep_inject [OF dash_notin_itoa] by blast
  moreover have "CHR ''-'' \<in> set (service_phrase a m)" by (simp add: service_phrase_def)
  moreover have "CHR ''-'' \<notin> set (adjectives ! b)" using adjectives_no_underscore assms by simp
  ultimately show False by simp
qed

lemma numbered_fresh:
  assumes "a < 40" "m < 40" and "\<forall>s \<in> set names. table_name (length names) s"
  shows "service_phrase a m @ ''-'' @ itoa (length names) \<notin> set names"
proof
  assume "service_phrase a m @ ''-'' @ itoa (length names) \<in> set names"
  then have "table_name (length names) (service_phrase a m @ ''-'' @ itoa (length names))"
    using assms(3) by blast
  then obtain b n where b: "b < 40" "n < 40" and
    "service_phrase a m @ ''-'' @ itoa (length names) = service_phrase b n \<or>
     (\<exists>i < length names. service_phrase a m @ ''-'' @ itoa (length names) =
        service_phrase b n @ ''-'' @ itoa i)"
    unfolding table_name_def by blast
  then obtain i where "i < length names"
    "service_phrase a m @ ''-'' @ itoa (length names) = service_phrase b n @ ''-'' @ itoa i"
    using numbered_not_phrase [OF assms(1,2) b] by blast
  then show False using last_dash_itoa [of _ "length names" _ i] by simp
qed

lemma table_name_mono: "table_name m s \<Longrightarrow> m \<le> n \<Longrightarrow> table_name n s"
  unfolding table_name_def by (elim exE conjE disjE) (blast, metis order_less_le_trans)

lemma serviceNames_loop_props:
  assumes "rng_ok intN" and "distinct names" and "\<forall>s \<in> set names. table_name (length names) s"
  shows "distinct (serviceNames_loop intN n names g) \<and>
    length (serviceNames_loop intN n names g) = length names + n"
  using assms(2,3)
proof (induction n arbitrary: names g)
  case 0
  then show ?case by simp
next
  case (Suc n)
  obtain a g1 where a: "intN 40 g = (a, g1)" by (rule prod.exhaust)
  obtain m g2 where m: "intN 40 g1 = (m, g2)" by (rule prod.exhaust)
  have lim: "a < 40" "m < 40"
    using assms(1) a m unfolding rng_ok_def by (metis fst_conv zero_less_numeral)+
  define name where "name = (if service_phrase a m \<in> set names
      then service_phrase a m @ ''-'' @ itoa (length names) else service_phrase a m)"
  have step: "serviceNames_loop intN (Suc n) names g = serviceNames_loop intN n (names @ [name]) g2"
    by (simp add: a m name_def service_phrase_def Let_def)
  have "name \<notin> set names"
    using numbered_fresh [OF lim Suc.prems(2)] by (simp add: name_def)
  moreover have "table_name (Suc (length names)) name"
    unfolding table_name_def name_def using lim by auto
  moreover have "\<forall>s \<in> set names. table_name (Suc (length names)) s"
    using Suc.prems(2) table_name_mono le_SucI by blast
  ultimately show ?case
    unfolding step using Suc.IH [of "names @ [name]" g2] Suc.prems(1) by simp
qed

text \<open>
  \<open>serviceNames n\<close> has exactly \<open>n\<close> pairwise distinct names, for every \<open>n\<close>: the suffix
  added on a collision never produces a name that is already there.
\<close>

theorem serviceNames_distinct:
  assumes "rng_ok intN"
  shows "distinct (serviceNames intN n g) \<and> length (serviceNames intN n g) = n"
  using serviceNames_loop_props [OF assms, of "[]"] by (simp add: serviceNames_def)

theorem serviceNames_distinct_witness:
  "distinct (serviceNames feed 4 [1, 2, 1, 2]) \<and> length (serviceNames feed 4 [1, 2, 1, 2]) = 4"
  by (rule serviceNames_distinct [OF feed_ok])

section \<open>Resources: lemmas\<close>

text \<open>
  Churn only replaces the pod: between two generations of a resource, all attributes but
  the instance id and the pod name are the same, and the keys are always the same twelve.
\<close>

theorem resource_build_churn:
  "filter (\<lambda>(key, _). key \<noteq> ''service.instance.id'' \<and> key \<noteq> ''k8s.pod.name'')
     (resource_build services resources idx gen) =
   filter (\<lambda>(key, _). key \<noteq> ''service.instance.id'' \<and> key \<noteq> ''k8s.pod.name'')
     (resource_build services resources idx gen') \<and>
   map fst (resource_build services resources idx gen) =
   map fst (resource_build services resources idx gen') \<and>
   distinct (map fst (resource_build services resources idx gen))"
  by (simp add: resource_build_def strAttr_def Let_def)

section \<open>The cache: lemmas\<close>

text \<open>
  The invariant: every slot reachable from the pool or from a pending call holds the resource
  that \<open>build\<close> gives for its index and generation, with an older previous generation.
\<close>

definition slot_ok :: "resourcePool \<Rightarrow> nat \<Rightarrow> resourceSlot \<Rightarrow> bool" where
  "slot_ok rp idx s \<longleftrightarrow> rs_res s = rp_build rp idx (rs_gen s) \<and>
     (case rs_prev s of None \<Rightarrow> True | Some (g, r) \<Rightarrow> g < rs_gen s \<and> r = rp_build rp idx g)"

definition ptr_ok :: "resourcePool \<Rightarrow> nat \<Rightarrow> nat option \<Rightarrow> bool" where
  "ptr_ok rp idx ptr \<longleftrightarrow>
     (case ptr of None \<Rightarrow> True | Some a \<Rightarrow> a < length (rp_heap rp) \<and> slot_ok rp idx (rp_heap rp ! a))"

definition pool_inv :: "resourcePool \<Rightarrow> bool" where
  "pool_inv rp \<longleftrightarrow> (\<forall>idx. ptr_ok rp idx (rp_slots rp idx))"

fun call_ok :: "resourcePool \<Rightarrow> rp_call \<Rightarrow> bool" where
  "call_ok rp Idle \<longleftrightarrow> True"
| "call_ok rp (Loaded idx gen ptr) \<longleftrightarrow> ptr_ok rp idx ptr"
| "call_ok rp (Returned idx gen res) \<longleftrightarrow> res = rp_build rp idx gen"

text \<open>The generation a slot publishes: 0 for an empty slot, one more than its number otherwise.\<close>

definition slot_level :: "resourcePool \<Rightarrow> nat \<Rightarrow> nat" where
  "slot_level rp idx =
     (case rp_slots rp idx of None \<Rightarrow> 0 | Some a \<Rightarrow> Suc (unat (rs_gen (rp_heap rp ! a))))"

definition extends :: "resourcePool \<Rightarrow> resourcePool \<Rightarrow> bool" where
  "extends rp rp' \<longleftrightarrow> rp_services rp' = rp_services rp \<and> rp_resources rp' = rp_resources rp \<and>
     (\<exists>new. rp_heap rp' = rp_heap rp @ new)"

lemma extends_build: "extends rp rp' \<Longrightarrow> rp_build rp' = rp_build rp"
  by (auto simp: extends_def rp_build_def fun_eq_iff)

lemma extends_ptr_ok: "extends rp rp' \<Longrightarrow> ptr_ok rp idx ptr \<Longrightarrow> ptr_ok rp' idx ptr"
  using extends_build [of rp rp']
  by (auto simp: extends_def ptr_ok_def slot_ok_def nth_append split: option.splits)

lemma extends_call_ok: "extends rp rp' \<Longrightarrow> call_ok rp c \<Longrightarrow> call_ok rp' c"
  by (cases c) (auto intro: extends_ptr_ok simp: extends_build)

lemma slot_hit_ok: "slot_ok rp idx s \<Longrightarrow> slot_hit s gen = Some r \<Longrightarrow> r = rp_build rp idx gen"
  by (auto simp: slot_ok_def slot_hit_def split: if_splits option.splits)

lemma rp_get_rest_extends: "rp_get_rest rp idx gen ptr = (res, rp') \<Longrightarrow> extends rp rp'"
  by (auto simp: rp_get_rest_def extends_def Let_def split: option.splits if_splits)

lemma rp_get_rest_result:
  assumes "ptr_ok rp idx ptr" and "rp_get_rest rp idx gen ptr = (res, rp')"
  shows "res = rp_build rp idx gen"
  using assms slot_hit_ok [of rp idx _ gen]
  by (auto simp: rp_get_rest_def ptr_ok_def Let_def bind_eq_Some_conv split: option.splits if_splits)

lemma rp_get_rest_level:
  assumes "pool_inv rp" and "rp_get_rest rp idx gen ptr = (res, rp')"
  shows "slot_level rp i \<le> slot_level rp' i"
  using assms spec [OF assms(1) [unfolded pool_inv_def], of i]
  by (auto simp: rp_get_rest_def slot_level_def ptr_ok_def Let_def nth_append word_less_nat_alt
      bind_eq_Some_conv less_imp_le split: option.splits if_splits)

lemma rp_get_rest_inv:
  assumes inv: "pool_inv rp" and ptr: "ptr_ok rp idx ptr"
    and run: "rp_get_rest rp idx gen ptr = (res, rp')"
  shows "pool_inv rp'"
proof -
  have ext: "extends rp rp'" using run by (rule rp_get_rest_extends)
  have "ptr_ok rp' i (rp_slots rp' i)" for i
  proof (cases "rp_slots rp' i = rp_slots rp i")
    case True
    then show ?thesis using inv extends_ptr_ok [OF ext] by (auto simp: pool_inv_def)
  next
    case False
    then have "i = idx" "rp_slots rp' i = Some (length (rp_heap rp))"
      and "\<exists>new. rp_heap rp' = rp_heap rp @ [new] \<and> slot_ok rp i new"
      using run ptr
      by (auto simp: rp_get_rest_def Let_def slot_ok_def ptr_ok_def split: option.splits if_splits)
    then show ?thesis
      using extends_build [OF ext] by (auto simp: ptr_ok_def slot_ok_def split: option.splits)
  qed
  then show ?thesis by (simp add: pool_inv_def)
qed

definition sys_inv :: "resourcePool \<times> (nat \<Rightarrow> rp_call) \<Rightarrow> bool" where
  "sys_inv = (\<lambda>(rp, calls). pool_inv rp \<and> (\<forall>w. call_ok rp (calls w)))"

lemma rp_step_inv: "rp_step s s' \<Longrightarrow> sys_inv s \<Longrightarrow> sys_inv s'"
proof (induction rule: rp_step.induct)
  case (load calls w rp idx gen)
  then show ?case by (auto simp: sys_inv_def pool_inv_def)
next
  case (rest calls w idx gen ptr rp res rp')
  then have ptr: "ptr_ok rp idx ptr" by (auto simp: sys_inv_def dest!: spec [of _ w])
  note ext = rp_get_rest_extends [OF rest(2)]
  have "call_ok rp' (calls v)" for v
    using rest(3) extends_call_ok [OF ext] by (auto simp: sys_inv_def)
  then show ?case
    using rp_get_rest_inv [OF _ ptr rest(2)] rp_get_rest_result [OF ptr rest(2)] rest(3)
      extends_build [OF ext]
    by (auto simp: sys_inv_def)
qed

lemma rp_steps_inv: "rp_step\<^sup>*\<^sup>* s s' \<Longrightarrow> sys_inv s \<Longrightarrow> sys_inv s'"
  by (induction rule: rtranclp_induct) (auto intro: rp_step_inv)

lemma rp_steps_params:
  "rp_step\<^sup>*\<^sup>* s s' \<Longrightarrow> rp_build (fst s') = rp_build (fst s)"
  by (induction rule: rtranclp_induct)
    (auto elim!: rp_step.cases dest!: rp_get_rest_extends extends_build)

lemma sys_inv_init: "sys_inv (newResourcePool services resources, \<lambda>_. Idle)"
  by (simp add: sys_inv_def pool_inv_def ptr_ok_def newResourcePool_def)

text \<open>
  C33. The resource cache is transparent under concurrency: in every state that any
  interleaving of loads and compare-and-swaps of any number of workers reaches, every call that
  has returned got exactly the resource \<open>build\<close> gives for its index and generation, even when
  the workers disagree on the current generation; and no step ever moves a slot back to an older
  generation.
\<close>

theorem resource_cache_transparent:
  assumes "rp_step\<^sup>*\<^sup>* (newResourcePool services resources, \<lambda>_. Idle) (rp, calls)"
  shows "(\<forall>w idx gen res. calls w = Returned idx gen res \<longrightarrow>
            res = resource_build services resources idx gen) \<and>
         (\<forall>rp' calls' idx. rp_step (rp, calls) (rp', calls') \<longrightarrow>
            slot_level rp idx \<le> slot_level rp' idx)"
proof -
  have inv: "sys_inv (rp, calls)" by (rule rp_steps_inv [OF assms sys_inv_init])
  have build: "rp_build rp = resource_build services resources"
    using rp_steps_params [OF assms] by (simp add: fun_eq_iff rp_build_def newResourcePool_def)
  have "res = resource_build services resources idx gen" if "calls w = Returned idx gen res" for w idx gen res
  proof -
    have "call_ok rp (calls w)" using inv by (simp add: sys_inv_def)
    then show ?thesis using that build by simp
  qed
  moreover have "slot_level rp idx \<le> slot_level rp' idx" if "rp_step (rp, calls) (rp', calls')" for rp' calls' idx
    using that inv by (auto elim!: rp_stepE simp: sys_inv_def intro: rp_get_rest_level)
  ultimately show ?thesis by blast
qed

text \<open>A run of one worker, from the load to the returned resource.\<close>

definition one_call :: "nat \<Rightarrow> rp_call" where
  "one_call = (\<lambda>_. Idle)(0 := Returned 1 2 (resource_build [''web''] 4 1 2))"

theorem resource_cache_transparent_witness:
  "\<exists>rp. rp_step\<^sup>*\<^sup>* (newResourcePool [''web''] 4, \<lambda>_. Idle) (rp, one_call) \<and>
    one_call 0 = Returned 1 2 (resource_build [''web''] 4 1 2)"
proof -
  let ?p = "newResourcePool [''web''] 4"
  obtain res rp where run: "rp_get_rest ?p 1 2 None = (res, rp)" by (rule prod.exhaust)
  have "ptr_ok ?p 1 None" by (simp add: ptr_ok_def)
  then have res: "res = resource_build [''web''] 4 1 2"
    using rp_get_rest_result [OF _ run] by (simp add: rp_build_def newResourcePool_def)
  have "rp_step (?p, \<lambda>_. Idle) (?p, (\<lambda>_. Idle)(0 := Loaded 1 2 None))"
    using rp_step.load [of "\<lambda>_. Idle" 0 ?p 1 2] by (simp add: newResourcePool_def)
  moreover have "rp_step (?p, (\<lambda>_. Idle)(0 := Loaded 1 2 None)) (rp, one_call)"
    using rp_step.rest [of "(\<lambda>_. Idle)(0 := Loaded 1 2 None)" 0, OF _ run] res
    by (simp add: one_call_def)
  ultimately have steps: "rp_step\<^sup>*\<^sup>* (?p, \<lambda>_. Idle) (rp, one_call)" by simp
  note theorem_at = resource_cache_transparent [OF this]
  have "one_call 0 = Returned 1 2 res" by (simp add: one_call_def res)
  moreover from this theorem_at have "res = resource_build [''web''] 4 1 2" by blast
  ultimately show ?thesis using steps by blast
qed

end
