(* ===== verification/MgCycle.thy ===== *)
theory MgCycle
  imports MgConfig
begin

text \<open>
  \<open>typeCycle\<close> of \<open>internal/metricgen/plan.go\<close>: smooth weighted round-robin over the metric
  types. One visit of an entry, one step of the outer loop and the whole cycle are separate
  definitions; \<open>None\<close> is the panic of indexing with \<open>best = -1\<close>. The lemmas show that every
  type occurs exactly as often as its weight says. (Weights are validated to sum to at most
  10000, so the running scores never leave an \<open>int\<close>.)
\<close>

section \<open>Definitions\<close>

type_synonym entries = "(metricType \<times> int) list"

definition cycle_entries :: "type_weights \<Rightarrow> entries" where
  "cycle_entries w =
     [(TypeGauge, tw_Gauge w), (TypeSum, tw_Sum w), (TypeHistogram, tw_Histogram w),
      (TypeExpHistogram, tw_ExponentialHistogram w), (TypeSummary, tw_Summary w)]"

definition swrr_visit :: "entries \<Rightarrow> nat \<Rightarrow> int list \<times> nat option \<Rightarrow> int list \<times> nat option" where
  "swrr_visit entries e st =
     (case st of (cur, best) \<Rightarrow>
        let w = snd (entries ! e) in
        if w = 0 then (cur, best)
        else let cur = cur[e := cur ! e + w] in
          (cur, case best of None \<Rightarrow> Some e | Some b \<Rightarrow> if cur ! b < cur ! e then Some e else Some b))"

definition swrr_step :: "entries \<Rightarrow> int \<Rightarrow> int list \<Rightarrow> (nat \<times> int list) option" where
  "swrr_step entries tot cur =
     (case fold (swrr_visit entries) [0..<length entries] (cur, None) of
        (cur, None) \<Rightarrow> None
      | (cur, Some b) \<Rightarrow> Some (b, cur[b := cur ! b - tot]))"

fun swrr_loop :: "entries \<Rightarrow> int \<Rightarrow> nat \<Rightarrow> int list \<Rightarrow> nat list option" where
  "swrr_loop entries tot 0 cur = Some []"
| "swrr_loop entries tot (Suc n) cur =
     (case swrr_step entries tot cur of
        None \<Rightarrow> None
      | Some (b, cur') \<Rightarrow> map_option ((#) b) (swrr_loop entries tot n cur'))"

definition typeCycle :: "type_weights \<Rightarrow> metricType list option" where
  "typeCycle w =
     (let entries = cycle_entries w;
          tot = tw_total w;
          cur = replicate (length entries) 0
      in map_option (map (\<lambda>b. fst (entries ! b))) (swrr_loop entries tot (nat tot) cur))"

section \<open>One scan of the entries\<close>

lemma swrr_scan:
  assumes "length cur = length es" and "m \<le> length es"
  shows "\<exists>cur' best. fold (swrr_visit es) [0..<m] (cur, None) = (cur', best) \<and>
    length cur' = length es \<and>
    (\<forall>e < length es. cur' ! e = cur ! e + (if e < m then snd (es ! e) else 0)) \<and>
    (case best of
       None \<Rightarrow> \<forall>e < m. snd (es ! e) = 0
     | Some b \<Rightarrow> b < m \<and> (\<forall>e < m. snd (es ! e) \<noteq> 0 \<longrightarrow> cur' ! e \<le> cur' ! b))"
  using assms(2)
proof (induction m)
  case 0
  then show ?case using assms(1) by simp
next
  case (Suc m)
  then obtain cur' best where f: "fold (swrr_visit es) [0..<m] (cur, None) = (cur', best)"
    and len: "length cur' = length es"
    and cur': "\<forall>e < length es. cur' ! e = cur ! e + (if e < m then snd (es ! e) else 0)"
    and best: "case best of None \<Rightarrow> \<forall>e < m. snd (es ! e) = 0
       | Some b \<Rightarrow> b < m \<and> (\<forall>e < m. snd (es ! e) \<noteq> 0 \<longrightarrow> cur' ! e \<le> cur' ! b)"
    by auto
  have m: "m < length es" using Suc.prems by simp
  let ?w = "snd (es ! m)"
  have step: "fold (swrr_visit es) [0..<Suc m] (cur, None) = swrr_visit es m (cur', best)"
    by (simp add: f)
  show ?case
  proof (cases "?w = 0")
    case True
    then show ?thesis
      unfolding step using len cur' best
      by (auto simp: swrr_visit_def less_Suc_eq split: option.splits)
  next
    case False
    then show ?thesis
      unfolding step using len cur' best m
      by (auto simp: swrr_visit_def Let_def less_Suc_eq nth_list_update split: option.splits)
  qed
qed

section \<open>The invariant of the cycle\<close>

text \<open>
  After \<open>i\<close> steps that chose the entries \<open>chosen\<close>, the score of an entry is \<open>i\<close> times its
  weight minus \<open>tot\<close> times the number of times it was chosen, and it is above \<open>- tot\<close>.
\<close>

definition swrr_inv :: "entries \<Rightarrow> int \<Rightarrow> nat list \<Rightarrow> int list \<Rightarrow> bool" where
  "swrr_inv es tot chosen cur \<longleftrightarrow>
     length cur = length es \<and> set chosen \<subseteq> {..<length es} \<and>
     (\<forall>e < length es.
        cur ! e = int (length chosen) * snd (es ! e) - tot * int (count_list chosen e) \<and>
        - tot < cur ! e)"

lemma sum_count_list:
  fixes xs :: "nat list"
  shows "set xs \<subseteq> {..<n} \<Longrightarrow> (\<Sum>e<n. int (count_list xs e)) = int (length xs)"
proof (induction xs)
  case Nil
  then show ?case by simp
next
  case (Cons x xs)
  have "(\<Sum>e<n. int (count_list (x # xs) e)) =
      (\<Sum>e<n. int (count_list xs e) + (if e = x then 1 else 0))"
    by (intro sum.cong) auto
  also have "\<dots> = (\<Sum>e<n. int (count_list xs e)) + (\<Sum>e<n. if e = x then 1 else 0)"
    by (rule sum.distrib)
  also have "(\<Sum>e<n. if e = x then 1 else (0::int)) = 1"
    using Cons.prems by (subst sum.delta) auto
  finally have "(\<Sum>e<n. int (count_list (x # xs) e)) = int (length xs) + 1"
    using Cons by simp
  then show ?case by (simp del: count_list.simps)
qed

lemma swrr_step_inv:
  assumes inv: "swrr_inv es tot chosen cur"
    and nonneg: "\<forall>e < length es. 0 \<le> snd (es ! e)"
    and tot: "tot = (\<Sum>e<length es. snd (es ! e))" and pos: "0 < tot"
  shows "\<exists>b cur'. swrr_step es tot cur = Some (b, cur') \<and> b < length es \<and>
    swrr_inv es tot (chosen @ [b]) cur'"
proof -
  let ?n = "length es"
  have lcur: "length cur = ?n" and sub: "set chosen \<subseteq> {..<?n}"
    and cur: "\<And>e. e < ?n \<Longrightarrow>
        cur ! e = int (length chosen) * snd (es ! e) - tot * int (count_list chosen e)"
    and lower: "\<And>e. e < ?n \<Longrightarrow> - tot < cur ! e"
    using inv by (auto simp: swrr_inv_def)
  obtain c best where f: "fold (swrr_visit es) [0..<?n] (cur, None) = (c, best)"
    and lc: "length c = ?n"
    and c: "\<And>e. e < ?n \<Longrightarrow> c ! e = cur ! e + snd (es ! e)"
    and best: "case best of None \<Rightarrow> \<forall>e < ?n. snd (es ! e) = 0
       | Some b \<Rightarrow> b < ?n \<and> (\<forall>e < ?n. snd (es ! e) \<noteq> 0 \<longrightarrow> c ! e \<le> c ! b)"
    using swrr_scan [OF lcur order_refl] by force
  have sumcur: "(\<Sum>e<?n. cur ! e) = 0"
  proof -
    have "(\<Sum>e<?n. cur ! e) =
        (\<Sum>e<?n. int (length chosen) * snd (es ! e) - tot * int (count_list chosen e))"
      by (intro sum.cong) (auto simp: cur)
    also have "\<dots> = int (length chosen) * tot - tot * int (length chosen)"
      by (simp add: sum_subtractf tot flip: sum_distrib_left sum_count_list [OF sub])
    finally show ?thesis by simp
  qed
  have sumc: "(\<Sum>e<?n. c ! e) = tot"
    using sumcur tot by (simp add: c sum.distrib)
  have zero: "c ! e \<le> 0" if "e < ?n" "snd (es ! e) = 0" for e
    using that pos by (simp add: c cur)
  obtain b where b: "best = Some b"
    using best pos tot by (cases best) auto
  have bn: "b < ?n" and bmax: "\<And>e. e < ?n \<Longrightarrow> snd (es ! e) \<noteq> 0 \<Longrightarrow> c ! e \<le> c ! b"
    using best by (auto simp: b)
  have bpos: "0 < c ! b"
  proof (rule ccontr)
    assume "\<not> 0 < c ! b"
    then have "c ! e \<le> 0" if "e < ?n" for e
      using bmax [of e] zero [of e] that by (cases "snd (es ! e) = 0") auto
    then have "(\<Sum>e<?n. c ! e) \<le> 0" by (intro sum_nonpos) auto
    then show False using sumc pos by simp
  qed
  let ?c' = "c[b := c ! b - tot]"
  have "swrr_step es tot cur = Some (b, ?c')"
    by (simp add: swrr_step_def f b)
  moreover have "swrr_inv es tot (chosen @ [b]) ?c'"
  proof -
    have "?c' ! e = int (length (chosen @ [b])) * snd (es ! e)
            - tot * int (count_list (chosen @ [b]) e) \<and> - tot < ?c' ! e" if "e < ?n" for e
      using that lc bn bpos lower [OF that] nonneg
      by (cases "e = b") (auto simp: c cur algebra_simps add_pos_nonneg intro: add_strict_increasing2)
    moreover have "length ?c' = ?n" "set (chosen @ [b]) \<subseteq> {..<?n}" using lc bn sub by simp_all
    ultimately show ?thesis unfolding swrr_inv_def by blast
  qed
  ultimately show ?thesis using bn by blast
qed

lemma swrr_loop_inv:
  assumes "swrr_inv es tot chosen cur"
    and "\<forall>e < length es. 0 \<le> snd (es ! e)"
    and "tot = (\<Sum>e<length es. snd (es ! e))" and "0 < tot"
  shows "\<exists>bs cur'. swrr_loop es tot n cur = Some bs \<and> length bs = n \<and>
    swrr_inv es tot (chosen @ bs) cur'"
  using assms(1)
proof (induction n arbitrary: chosen cur)
  case 0
  then show ?case by auto
next
  case (Suc n)
  from swrr_step_inv [OF Suc.prems assms(2-4)] obtain b c
    where st: "swrr_step es tot cur = Some (b, c)" and "swrr_inv es tot (chosen @ [b]) c" by blast
  from Suc.IH [OF this(2)] obtain bs c'
    where "swrr_loop es tot n c = Some bs" "length bs = n" "swrr_inv es tot (chosen @ [b] @ bs) c'"
    by auto
  then show ?case using st by auto
qed

text \<open>After a whole cycle the lower bound leaves no slack: every count is the weight.\<close>

lemma swrr_inv_exact:
  assumes inv: "swrr_inv es tot chosen cur" and len: "int (length chosen) = tot"
    and tot: "tot = (\<Sum>e<length es. snd (es ! e))" and pos: "0 < tot"
  shows "\<forall>e < length es. int (count_list chosen e) = snd (es ! e)"
proof -
  let ?n = "length es"
  have le: "int (count_list chosen e) \<le> snd (es ! e)" if "e < ?n" for e
  proof -
    have "- tot < tot * (snd (es ! e) - int (count_list chosen e))"
    proof -
      have "cur ! e = tot * snd (es ! e) - tot * int (count_list chosen e)" "- tot < cur ! e"
        using inv that len by (auto simp: swrr_inv_def)
      then show ?thesis by (simp only: right_diff_distrib)
    qed
    then have "tot * (- 1) < tot * (snd (es ! e) - int (count_list chosen e))" by simp
    then have "- 1 < snd (es ! e) - int (count_list chosen e)"
      using pos by (simp only: mult_less_cancel_left_pos)
    then show ?thesis by simp
  qed
  have "(\<Sum>e<?n. snd (es ! e) - int (count_list chosen e)) = 0"
    using inv len by (simp add: sum_subtractf sum_count_list swrr_inv_def tot)
  then have "\<forall>e \<in> {..<?n}. snd (es ! e) - int (count_list chosen e) = 0"
    using le by (subst (asm) sum_nonneg_eq_0_iff) auto
  then show ?thesis by auto
qed

definition weight_of :: "type_weights \<Rightarrow> metricType \<Rightarrow> int" where
  "weight_of w t =
     (case t of TypeGauge \<Rightarrow> tw_Gauge w | TypeSum \<Rightarrow> tw_Sum w | TypeHistogram \<Rightarrow> tw_Histogram w
      | TypeExpHistogram \<Rightarrow> tw_ExponentialHistogram w | TypeSummary \<Rightarrow> tw_Summary w)"

lemma length_cycle_entries [simp]: "length (cycle_entries w) = 5"
  by (simp add: cycle_entries_def)

lemma cycle_entries_nth:
  "e < 5 \<Longrightarrow> snd (cycle_entries w ! e) = weight_of w (fst (cycle_entries w ! e))"
  by (auto simp: cycle_entries_def weight_of_def less_Suc_eq numeral_eq_Suc)

lemma cycle_entries_distinct: "inj_on (\<lambda>e. fst (cycle_entries w ! e)) {..<5}"
  by (auto simp: inj_on_def cycle_entries_def less_Suc_eq numeral_eq_Suc)

lemma cycle_entries_type: "\<exists>e < 5. fst (cycle_entries w ! e) = t"
  by (cases t) (auto simp: cycle_entries_def intro: exI [of _ 0] exI [of _ 1] exI [of _ 2]
      exI [of _ 3] exI [of _ 4])

lemma sum_cycle_entries:
  "(\<Sum>e<5. snd (cycle_entries w ! e)) =
     tw_Gauge w + tw_Sum w + tw_Histogram w + tw_ExponentialHistogram w + tw_Summary w"
  by (simp add: cycle_entries_def numeral_eq_Suc)

lemma count_list_map_inj:
  "inj_on f A \<Longrightarrow> set xs \<subseteq> A \<Longrightarrow> x \<in> A \<Longrightarrow> count_list (map f xs) (f x) = count_list xs x"
  by (induction xs) (auto simp: inj_on_def)

lemma typeCycle_Some:
  assumes "\<forall>t. 0 \<le> weight_of w t" and "0 < tw_total w" and "\<forall>t. weight_of w t \<le> 10000"
  shows "\<exists>cycle. typeCycle w = Some cycle \<and> int (length cycle) = tw_total w \<and>
    (\<forall>t. int (count_list cycle t) = weight_of w t)"
proof -
  let ?es = "cycle_entries w"
  have fields: "0 \<le> tw_Gauge w" "0 \<le> tw_Sum w" "0 \<le> tw_Histogram w"
      "0 \<le> tw_ExponentialHistogram w" "0 \<le> tw_Summary w"
      "tw_Gauge w \<le> 10000" "tw_Sum w \<le> 10000" "tw_Histogram w \<le> 10000"
      "tw_ExponentialHistogram w \<le> 10000" "tw_Summary w \<le> 10000"
    using assms(1) [THEN spec, of TypeGauge] assms(1) [THEN spec, of TypeSum]
      assms(1) [THEN spec, of TypeHistogram] assms(1) [THEN spec, of TypeExpHistogram]
      assms(1) [THEN spec, of TypeSummary]
      assms(3) [THEN spec, of TypeGauge] assms(3) [THEN spec, of TypeSum]
      assms(3) [THEN spec, of TypeHistogram] assms(3) [THEN spec, of TypeExpHistogram]
      assms(3) [THEN spec, of TypeSummary]
    by (simp_all add: weight_of_def)
  have tot: "tw_total w = (\<Sum>e<length ?es. snd (?es ! e))"
    unfolding tw_total_def length_cycle_entries sum_cycle_entries
    by (rule i64_nat_id) (use fields in linarith)+
  have nonneg: "\<forall>e < length ?es. 0 \<le> snd (?es ! e)"
    using assms(1) by (simp add: cycle_entries_nth)
  have "swrr_inv ?es (tw_total w) [] (replicate (length ?es) 0)"
    using assms(2) by (simp add: swrr_inv_def)
  from swrr_loop_inv [OF this nonneg tot assms(2), of "nat (tw_total w)"] obtain bs cur
    where bs: "swrr_loop ?es (tw_total w) (nat (tw_total w)) (replicate (length ?es) 0) = Some bs"
      and len: "length bs = nat (tw_total w)" and inv: "swrr_inv ?es (tw_total w) bs cur" by auto
  have "int (length bs) = tw_total w" using len assms(2) by simp
  from swrr_inv_exact [OF inv this tot assms(2)]
  have cnt: "\<forall>e < 5. int (count_list bs e) = snd (?es ! e)" by simp
  have "int (count_list (map (\<lambda>b. fst (?es ! b)) bs) t) = weight_of w t" for t
  proof -
    obtain e where e: "e < 5" "fst (?es ! e) = t" using cycle_entries_type by blast
    have "set bs \<subseteq> {..<5}" using inv by (simp add: swrr_inv_def)
    from count_list_map_inj [OF cycle_entries_distinct [of w] this, of e] e cnt
      cycle_entries_nth [OF e(1), of w]
    show ?thesis by simp
  qed
  then show ?thesis using bs len assms(2) by (simp add: typeCycle_def Let_def)
qed

text \<open>
  \<open>typeCycle\<close> never panics on validated weights, its cycle is as long as the sum of the
  weights, and every metric type occurs in it exactly as often as its weight says.
\<close>

theorem typeCycle_exact:
  assumes "\<forall>t. 0 \<le> weight_of w t" and "0 < tw_total w" and "\<forall>t. weight_of w t \<le> 10000"
  shows "\<exists>cycle. typeCycle w = Some cycle \<and> int (length cycle) = tw_total w \<and>
    (\<forall>t. int (count_list cycle t) = weight_of w t)"
  using assms by (rule typeCycle_Some)

text \<open>The default weights.\<close>

theorem typeCycle_exact_witness:
  "\<exists>cycle. typeCycle defaultTypeWeights = Some cycle \<and>
    int (length cycle) = tw_total defaultTypeWeights \<and>
    (\<forall>t. int (count_list cycle t) = weight_of defaultTypeWeights t)"
  by (rule typeCycle_exact)
     (auto simp: weight_of_def defaultTypeWeights_def tw_total_def in_i64_def split: metricType.splits)

end
