(* ===== verification/MgPlan.thy ===== *)
theory MgPlan
  imports MgResources MgCycle
begin

text \<open>
  The construction of the run plan (\<open>internal/metricgen/plan.go\<close>): bucket midpoints, histogram
  shapes, the exponential bucket table, one definition per metric, and \<open>newPlan\<close>, with the
  invariants the value functions and the builder index by.

  The parts of the standard library whose results are not fixed by their documentation (the
  generator behind \<open>rand.New\<close>, \<open>math.Pow\<close>, \<open>math.Exp\<close>, the \<open>%q\<close> verb, the duration and time
  parsers) are the fields of an environment record. Floats are exact rationals here. A nil
  dereference, an index out of range and running out of fuel in a rejection loop are \<open>None\<close>.
\<close>

section \<open>The environment\<close>

record 'g go_env =
  ge_pcg :: "u64 \<Rightarrow> u64 \<Rightarrow> 'g"
  ge_intN :: "nat \<Rightarrow> 'g \<Rightarrow> nat \<times> 'g"
  ge_float :: "'g \<Rightarrow> rat \<times> 'g"
  ge_root :: "nat \<Rightarrow> nat \<Rightarrow> int"
  ge_pow :: "rat \<Rightarrow> rat \<Rightarrow> rat"
  ge_exp :: "rat \<Rightarrow> rat"
  ge_quote :: "string \<Rightarrow> string"
  ge_curve :: "rat \<Rightarrow> rat \<Rightarrow> int \<Rightarrow> rat"
  ge_parse_dur :: "string \<Rightarrow> int option"
  ge_parse_rfc :: "string \<Rightarrow> int option"

section \<open>Tables\<close>

definition scopePool :: "(string \<times> string \<times> string) list" where
  "scopePool =
     [(''go.opentelemetry.io/otel/metric'', ''1.43.0'', ''https://opentelemetry.io/schemas/1.27.0''),
      (''go.opentelemetry.io/contrib/instrumentation/net/http/otelhttp'', ''0.61.0'',
       ''https://opentelemetry.io/schemas/1.27.0''),
      (''io.opentelemetry.sdk.metrics'', ''1.38.0'', ''https://opentelemetry.io/schemas/1.26.0''),
      (''io.opentelemetry.micrometer-1.5'', ''2.9.0'', []),
      (''opentelemetry.instrumentation.system_metrics'', ''0.48b0'', []),
      (''@opentelemetry/sdk-metrics'', ''1.28.0'', []),
      (''prometheus-receiver'', ''0.157.0'', []),
      (''clickcannon.metricgen'', ''1.0.0'', [])]"

definition histogramBoundPool :: "rat list list" where
  "histogramBoundPool =
     [[5/1000, 1/100, 25/1000, 5/100, 1/10, 1/4, 1/2, 1, 5/2, 5, 10],
      [1, 2, 4, 8, 16, 32, 64, 128, 256, 512, 1024, 2048, 4096, 8192, 16384],
      [128, 512, 2048, 8192, 32768, 131072, 524288, 2097152, 8388608],
      [1, 2, 5, 10, 20, 50, 100, 200, 500, 1000],
      [1/10, 1/2, 1, 5, 30, 60]]"

definition summaryQuantilePool :: "rat list list" where
  "summaryQuantilePool =
     [[1/2, 9/10, 99/100], [1/2, 3/4, 9/10, 95/100, 99/100], [95/100, 99/100, 999/1000],
      [99/100], [1/2, 99/100, 999/1000, 9999/10000]]"

definition unitPools :: "metricType \<Rightarrow> string list" where
  "unitPools t =
     (case t of
        TypeGauge \<Rightarrow> [''1'', ''%'', ''By'', ''s'', ''{connections}'', ''{threads}'']
      | TypeSum \<Rightarrow> [''1'', ''{requests}'', ''By'', ''{errors}'', ''{messages}'']
      | TypeHistogram \<Rightarrow> [''s'', ''ms'', ''By'']
      | TypeExpHistogram \<Rightarrow> [''s'', ''ms'', ''By'']
      | TypeSummary \<Rightarrow> [''s'', ''ms''])"

definition bucketMids :: "rat list \<Rightarrow> rat list" where
  "bucketMids bounds =
     (let n = length bounds
      in hd bounds / 2
         # map (\<lambda>i. (bounds ! (i - 1) + bounds ! i) / 2) [1..<n]
         @ [bounds ! (n - 1) * (3 / 2)])"

definition expPowTable :: "(rat \<Rightarrow> rat \<Rightarrow> rat) \<Rightarrow> int \<Rightarrow> int \<Rightarrow> nat \<Rightarrow> rat list" where
  "expPowTable pw scale minIdx n =
     (let base = pw 2 (pw 2 (- of_int scale))
      in map (\<lambda>i. pw base (of_int (minIdx + int i))) [0..<n])"

section \<open>Histogram shapes\<close>

definition hist_weights :: "(rat \<Rightarrow> rat) \<Rightarrow> nat \<Rightarrow> rat \<Rightarrow> rat \<Rightarrow> rat list" where
  "hist_weights ex n center sigma =
     (let raw = map (\<lambda>l. let d = (of_nat l + 1 / 2 - center) / sigma in ex (- 1 / 2 * d * d)) [0..<n];
          total = sum_list raw
      in map (\<lambda>w. w / total) raw)"

definition first_idx :: "(nat \<Rightarrow> bool) \<Rightarrow> nat list \<Rightarrow> nat \<Rightarrow> nat" where
  "first_idx P ls d = (case filter P ls of [] \<Rightarrow> d | l # _ \<Rightarrow> l)"

definition hist_shape :: "rat list \<Rightarrow> histShape" where
  "hist_shape ws =
     (let n = length ws; maxW = fold max ws 0; big = (\<lambda>l. maxW * (5 / 100) \<le> ws ! l)
      in \<lparr>hs_weights = ws, hs_minIdx = first_idx big [0..<n] 0,
          hs_maxIdx = first_idx big (rev [0..<n]) (n - 1)\<rparr>)"

definition buildHistShapes :: "(rat \<Rightarrow> rat) \<Rightarrow> nat \<Rightarrow> histShape list" where
  "buildHistShapes ex n =
     concat (map (\<lambda>ci :: nat. let center = of_nat n * (of_nat ci + 1 / 2) / 8 in
       map (\<lambda>spread. hist_shape (hist_weights ex n center (max (1 / 2) (of_nat n * spread))))
         [8/100, 15/100, 3/10]) [0..<8])"

section \<open>One metric\<close>

definition structDomain :: "u64 \<Rightarrow> u64" where
  "structDomain v = v XOR 0x7365726965735555"

definition pickTemporality :: "'g go_env \<Rightarrow> mg_config \<Rightarrow> 'g \<Rightarrow> (Temporality \<times> 'g) option" where
  "pickTemporality env cfg g =
     (case mg_DeltaRatio cfg of
        None \<Rightarrow> None
      | Some ratio \<Rightarrow>
          (case ge_float env g of (r, g') \<Rightarrow>
             Some (if r < ratio then TemporalityDelta else TemporalityCumulative, g')))"

text \<open>The branches of the \<open>switch\<close> on the metric type, each with its own draws.\<close>

definition fill_sum :: "'g go_env \<Rightarrow> mg_config \<Rightarrow> metricDef \<Rightarrow> 'g \<Rightarrow> (metricDef \<times> 'g) option" where
  "fill_sum env cfg d g =
     (case pickTemporality env cfg g of
        None \<Rightarrow> None
      | Some (tmp, g1) \<Rightarrow>
          (case ge_float env g1 of (m, g2) \<Rightarrow>
             let d = d\<lparr>md_temporality := tmp, md_monotonic := m < 85 / 100\<rparr>
             in if md_unit d = ''By'' then Some (d\<lparr>md_valueIsInt := False\<rparr>, g2)
                else (case ge_float env g2 of (v, g3) \<Rightarrow>
                        Some (d\<lparr>md_valueIsInt := v < 1 / 2\<rparr>, g3))))"

definition fill_histogram :: "'g go_env \<Rightarrow> mg_config \<Rightarrow> metricDef \<Rightarrow> 'g \<Rightarrow> (metricDef \<times> 'g) option" where
  "fill_histogram env cfg d g =
     (case pickTemporality env cfg g of
        None \<Rightarrow> None
      | Some (tmp, g1) \<Rightarrow>
          (case ge_intN env (length histogramBoundPool) g1 of (b, g2) \<Rightarrow>
             let bounds = histogramBoundPool ! b
             in Some (d\<lparr>md_temporality := tmp, md_bounds := bounds, md_mids := bucketMids bounds,
                        md_histShapes := buildHistShapes (ge_exp env) (length bounds + 1)\<rparr>, g2)))"

definition fill_exp :: "'g go_env \<Rightarrow> mg_config \<Rightarrow> metricDef \<Rightarrow> 'g \<Rightarrow> (metricDef \<times> 'g) option" where
  "fill_exp env cfg d g =
     (case pickTemporality env cfg g of
        None \<Rightarrow> None
      | Some (tmp, g1) \<Rightarrow>
          (case ge_intN env 5 g1 of (s, g2) \<Rightarrow>
           case ge_float env g2 of (h, g3) \<Rightarrow>
             let scale = int s - 1
             in Some (d\<lparr>md_temporality := tmp, md_expScale := scale, md_hasNegative := h < 1 / 10,
                        md_expPowMin := - 20, md_expPow := expPowTable (ge_pow env) scale (- 20) 80,
                        md_histShapes := buildHistShapes (ge_exp env) 32\<rparr>, g3)))"

definition fill_type :: "'g go_env \<Rightarrow> mg_config \<Rightarrow> metricDef \<Rightarrow> 'g \<Rightarrow> (metricDef \<times> 'g) option" where
  "fill_type env cfg d g =
     (case md_typ d of
        TypeGauge \<Rightarrow>
          Some (d\<lparr>md_temporality := TemporalityUnspecified,
                  md_valueIsInt := (md_unit d \<in> {''By'', ''{connections}'', ''{threads}''})\<rparr>, g)
      | TypeSum \<Rightarrow> fill_sum env cfg d g
      | TypeHistogram \<Rightarrow> fill_histogram env cfg d g
      | TypeExpHistogram \<Rightarrow> fill_exp env cfg d g
      | TypeSummary \<Rightarrow>
          (case ge_intN env (length summaryQuantilePool) g of (q, g1) \<Rightarrow>
             Some (d\<lparr>md_temporality := TemporalityUnspecified,
                     md_quantiles := summaryQuantilePool ! q\<rparr>, g1)))"

definition planSeed1 :: u64 where "planSeed1 = 0x6d65747269637067"
definition planSeed2 :: u64 where "planSeed2 = 0x706c616e5f763031"

definition metric_seed :: "nat \<Rightarrow> u64" where
  "metric_seed index = splitmix64 (planSeed1 XOR of_nat index * 0x9E3779B97F4A7C15)"

definition describe :: "'g go_env \<Rightarrow> metricType \<Rightarrow> string \<Rightarrow> string" where
  "describe env typ name =
     ''Synthetic '' @ metricType_String typ @ '' metric '' @ ge_quote env name
     @ '' generated by ClickCannon.''"

definition blank_metric ::
  "'g go_env \<Rightarrow> mg_config \<Rightarrow> nat \<Rightarrow> string \<Rightarrow> u64 \<Rightarrow> metricType \<Rightarrow> nat \<Rightarrow> string \<Rightarrow> metricDef" where
  "blank_metric env cfg index name seedHash typ scope unit =
     \<lparr>md_index = index, md_name = name, md_typ = typ, md_temporality = TemporalityUnspecified,
      md_monotonic = False, md_valueIsInt = False, md_unit = unit,
      md_description = describe env typ name, md_scopeIdx = scope,
      md_cardinality = nat (mg_cardinality (ge_curve env) cfg (int index + 1)), md_dims = [],
      md_bounds = [], md_mids = [], md_histShapes = [], md_expScale = 0, md_hasNegative = False,
      md_expPowMin = 0, md_expPow = [], md_quantiles = [],
      md_structSeed = splitmix64 (metric_seed index XOR structDomain (of_nat index)),
      md_valueSeed = splitmix64 (seedHash XOR metric_seed index)\<rparr>"

definition buildMetricDef ::
  "nat \<Rightarrow> 'g go_env \<Rightarrow> mg_config \<Rightarrow> nat \<Rightarrow> string \<Rightarrow> u64 \<Rightarrow> metricType \<Rightarrow> metricDef option" where
  "buildMetricDef fuel env cfg index name seedHash typ =
     (let s1 = metric_seed index;
          g = ge_pcg env s1 (splitmix64 (s1 XOR planSeed2))
      in case ge_intN env (length scopePool) g of (scope, g1) \<Rightarrow>
         case ge_intN env (length (unitPools typ)) g1 of (u, g2) \<Rightarrow>
         case fill_type env cfg
                (blank_metric env cfg index name seedHash typ scope (unitPools typ ! u)) g2 of
           None \<Rightarrow> None
         | Some (d, g3) \<Rightarrow>
             (case buildDims fuel (ge_root env) (ge_intN env) (md_cardinality d)
                     (nat (mg_AttributesPerMetricMin cfg)) (nat (mg_AttributesPerMetricMax cfg)) g3 of
                None \<Rightarrow> None
              | Some (dims, g4) \<Rightarrow> Some (d\<lparr>md_dims := dims\<rparr>)))"

section \<open>The plan\<close>

definition nameTableSeed1 :: u64 where "nameTableSeed1 = 0x636c69636b63616e"
definition nameTableSeed2 :: u64 where "nameTableSeed2 = 0x6d65747269637331"

definition plan_names :: "nat \<Rightarrow> 'g go_env \<Rightarrow> mg_config \<Rightarrow> string list option" where
  "plan_names fuel env cfg =
     (if mg_MetricNames cfg = []
      then metricNames fuel (ge_intN env) (nat (mg_MetricCount cfg))
             (ge_pcg env nameTableSeed1 nameTableSeed2)
      else Some (mg_MetricNames cfg))"

text \<open>The type of metric \<open>i\<close>: the explicit entry when it parses, the cycle otherwise.\<close>

definition plan_type :: "mg_config \<Rightarrow> metricType list \<Rightarrow> nat \<Rightarrow> metricType" where
  "plan_type cfg cycle i =
     (let typ = cycle ! (i mod length cycle)
      in if i < length (mg_MetricTypes cfg)
         then (case parseMetricType (mg_MetricTypes cfg ! i) of Some t \<Rightarrow> t | None \<Rightarrow> typ)
         else typ)"

fun plan_metrics ::
  "nat \<Rightarrow> 'g go_env \<Rightarrow> mg_config \<Rightarrow> u64 \<Rightarrow> string list \<Rightarrow> metricType list \<Rightarrow> nat list \<Rightarrow>
   metricDef list option" where
  "plan_metrics fuel env cfg seedHash names cycle [] = Some []"
| "plan_metrics fuel env cfg seedHash names cycle (i # is) =
     (if cycle = [] \<or> length names \<le> i then None
      else case buildMetricDef fuel env cfg i (names ! i) seedHash (plan_type cfg cycle i) of
             None \<Rightarrow> None
           | Some d \<Rightarrow>
               map_option (Cons d) (plan_metrics fuel env cfg seedHash names cycle is))"

definition exemplar_thresh :: "mg_config \<Rightarrow> u64" where
  "exemplar_thresh cfg =
     (if 1 \<le> mg_ExemplarProbability cfg then - 1
      else if 0 < mg_ExemplarProbability cfg
      then word_of_int \<lfloor>mg_ExemplarProbability cfg * 18446744073709551616\<rfloor>
      else 0)"

definition lifetime_sweeps :: "mg_config \<Rightarrow> u64" where
  "lifetime_sweeps cfg =
     (if 0 < mg_ResourceLifetime cfg
      then word_of_int (mg_ResourceLifetime cfg div mg_Interval cfg) else 0)"

text \<open>The running totals of the loop of \<open>newPlan\<close>.\<close>

definition tally :: "plan \<Rightarrow> metricDef \<Rightarrow> plan" where
  "tally p d =
     (let t = metricType_String (md_typ d); n = of_nat (md_cardinality d) in
      p\<lparr>pl_totalSeries := pl_totalSeries p + n,
        pl_typeCounts := (pl_typeCounts p)(t := Suc (pl_typeCounts p t)),
        pl_typeSeries := (pl_typeSeries p)(t := pl_typeSeries p t + n)\<rparr>)"

definition empty_plan :: "mg_config \<Rightarrow> string \<Rightarrow> int \<Rightarrow> plan" where
  "empty_plan cfg seed start =
     \<lparr>pl_cfg = cfg, pl_metrics = [], pl_startMs = start div ns_per_ms,
      pl_intervalMs = duration_ms (mg_Interval cfg), pl_jitterMs = mg_TimestampJitterMs cfg,
      pl_lifetimeSwps = lifetime_sweeps cfg, pl_totalSeries = 0, pl_typeCounts = (\<lambda>_. 0),
      pl_typeSeries = (\<lambda>_. 0), pl_exemplarThresh = exemplar_thresh cfg,
      pl_seedHash = splitmix64 (fnvHash seed)\<rparr>"

definition newPlan ::
  "nat \<Rightarrow> 'g go_env \<Rightarrow> mg_config \<Rightarrow> string \<Rightarrow> int \<Rightarrow> (mg_err + plan \<times> resourcePool) option" where
  "newPlan fuel env cfg seed now =
     (case mg_resolveStartTime (ge_parse_dur env) (ge_parse_rfc env) cfg now of
        Inl e \<Rightarrow> Some (Inl e)
      | Inr start \<Rightarrow>
          let p = empty_plan cfg seed start in
          (case plan_names fuel env cfg of
             None \<Rightarrow> None
           | Some names \<Rightarrow>
               (case typeCycle (mg_TypeWeights cfg) of
                  None \<Rightarrow> None
                | Some cycle \<Rightarrow>
                    (case plan_metrics fuel env cfg (pl_seedHash p) names cycle
                            [0..<nat (mg_MetricCount cfg)] of
                       None \<Rightarrow> None
                     | Some metrics \<Rightarrow>
                         let p = foldl tally p metrics;
                             services = serviceNames (ge_intN env) (nat (mg_Services cfg))
                                          (ge_pcg env nameTableSeed2 nameTableSeed1)
                         in Some (Inr (p\<lparr>pl_metrics := metrics\<rparr>,
                              newResourcePool services (nat (mg_Resources cfg))))))))"

section \<open>Tables: lemmas\<close>

lemma length_bucketMids: "bounds \<noteq> [] \<Longrightarrow> length (bucketMids bounds) = length bounds + 1"
  by (cases bounds) (simp_all add: bucketMids_def Let_def del: upt_Suc)

lemma length_expPowTable [simp]: "length (expPowTable pw s m n) = n"
  by (simp add: expPowTable_def Let_def)

lemma first_idx_bound: "\<forall>l \<in> set ls. l < n \<Longrightarrow> d < n \<Longrightarrow> first_idx P ls d < n"
  unfolding first_idx_def by (auto split: list.splits) (metis filter_is_subset list.set_intros(1) subsetD)

lemma first_idx_between:
  assumes "P l" and "l < n"
  shows "first_idx P [0..<n] 0 \<le> l \<and> l \<le> first_idx P (rev [0..<n]) d"
proof -
  let ?xs = "filter P [0..<n]"
  have l: "l \<in> set ?xs" using assms by simp
  have sorted: "sorted ?xs" by (rule sorted_wrt_filter) simp
  have "hd ?xs \<le> l" using l sorted by (cases ?xs) auto
  moreover have "l \<le> last ?xs"
    using l sorted by (cases ?xs rule: rev_cases) (auto simp: sorted_append)
  moreover have ne: "?xs \<noteq> []" using l by (metis empty_iff list.set(1))
  moreover have "first_idx P [0..<n] 0 = hd ?xs"
    using ne by (cases ?xs) (auto simp: first_idx_def)
  moreover have "first_idx P (rev [0..<n]) d = last ?xs"
    using ne by (cases ?xs rule: rev_cases) (auto simp: first_idx_def rev_filter [symmetric])
  ultimately show ?thesis by simp
qed

lemma fold_max_attained:
  fixes ws :: "rat list"
  shows "fold max ws a = a \<or> fold max ws a \<in> set ws"
  by (induction ws arbitrary: a) (auto simp: max_def)

lemma fold_max_ge:
  fixes ws :: "rat list"
  shows "a \<le> fold max ws a"
  by (induction ws arbitrary: a) (auto intro: order_trans [OF max.cobounded2])

definition shape_ok :: "nat \<Rightarrow> histShape \<Rightarrow> bool" where
  "shape_ok n h \<longleftrightarrow> length (hs_weights h) = n \<and> hs_minIdx h \<le> hs_maxIdx h \<and> hs_maxIdx h < n \<and>
     (\<forall>w \<in> set (hs_weights h). 0 \<le> w) \<and> sum_list (hs_weights h) = 1"

lemma sum_list_pos_rat:
  fixes xs :: "rat list"
  shows "xs \<noteq> [] \<Longrightarrow> \<forall>x \<in> set xs. 0 < x \<Longrightarrow> 0 < sum_list xs"
  by (induction xs rule: list_nonempty_induct) auto

lemma sum_list_divide:
  fixes xs :: "rat list"
  shows "sum_list (map (\<lambda>w. w / t) xs) = sum_list xs / t"
  by (induction xs) (simp_all add: add_divide_distrib)

lemma hist_shape_ok:
  assumes "\<forall>x. 0 < ex x" and "0 < n"
  shows "shape_ok n (hist_shape (hist_weights ex n center sigma))"
proof -
  define raw where
    "raw = map (\<lambda>l. let d = (of_nat l + 1 / 2 - center) / sigma in ex (- 1 / 2 * d * d)) [0..<n]"
  have ws: "hist_weights ex n center sigma = map (\<lambda>w. w / sum_list raw) raw"
    by (simp add: hist_weights_def raw_def Let_def)
  have pos: "\<forall>x \<in> set raw. 0 < x" using assms(1) by (auto simp: raw_def Let_def)
  have "raw \<noteq> []" using assms(2) by (simp add: raw_def)
  then have total: "0 < sum_list raw" using pos by (rule sum_list_pos_rat)
  define ws where "ws = map (\<lambda>w. w / sum_list raw) raw"
  have len: "length ws = n" by (simp add: ws_def raw_def)
  have wpos: "\<forall>w \<in> set ws. 0 < w" using pos total by (auto simp: ws_def)
  have sum: "sum_list ws = 1" using total by (simp add: ws_def sum_list_divide)
  define big where "big = (\<lambda>l. fold max ws 0 * (5 / 100) \<le> ws ! l)"
  have "\<exists>l < n. big l"
  proof (cases "fold max ws 0 = 0")
    case True
    then have "big 0" using wpos len assms(2) by (auto simp: big_def less_imp_le)
    with assms(2) show ?thesis by blast
  next
    case False
    then have "fold max ws 0 \<in> set ws" using fold_max_attained [of ws 0] by blast
    then obtain l where l: "l < n" "ws ! l = fold max ws 0" by (metis in_set_conv_nth len)
    then have "big l" using fold_max_ge [of 0 ws] by (simp add: big_def)
    with l show ?thesis by blast
  qed
  then obtain l where l: "big l" "l < n" by blast
  have "hist_shape ws = \<lparr>hs_weights = ws, hs_minIdx = first_idx big [0..<n] 0,
      hs_maxIdx = first_idx big (rev [0..<n]) (n - 1)\<rparr>"
    by (simp add: hist_shape_def len big_def Let_def)
  moreover have "first_idx big (rev [0..<n]) (n - 1) < n"
    using assms(2) by (intro first_idx_bound) auto
  ultimately show ?thesis
    using first_idx_between [of big, OF l, of "n - 1"] len wpos sum
    by (auto simp: shape_ok_def ws ws_def [symmetric] less_imp_le)
qed

lemma buildHistShapes_ok:
  assumes "\<forall>x. 0 < ex x" and "0 < n"
  shows "length (buildHistShapes ex n) = 24 \<and> (\<forall>h \<in> set (buildHistShapes ex n). shape_ok n h)"
  using hist_shape_ok [OF assms]
  by (auto simp: buildHistShapes_def Let_def length_concat comp_def sum_list_triv)

section \<open>Metric definitions: lemmas\<close>

definition env_ok :: "'g go_env \<Rightarrow> bool" where
  "env_ok env \<longleftrightarrow> rng_ok (ge_intN env) \<and> (\<forall>x. 0 < ge_exp env x)"

lemma env_draw: "env_ok env \<Longrightarrow> ge_intN env n g = (r, g') \<Longrightarrow> 0 < n \<Longrightarrow> r < n"
  unfolding env_ok_def rng_ok_def by (metis fst_conv)

text \<open>What each metric type promises to the code that generates its values.\<close>

definition metric_type_ok :: "metricDef \<Rightarrow> bool" where
  "metric_type_ok d \<longleftrightarrow>
     (case md_typ d of
        TypeGauge \<Rightarrow> md_temporality d = TemporalityUnspecified
      | TypeSum \<Rightarrow> md_temporality d \<noteq> TemporalityUnspecified
      | TypeHistogram \<Rightarrow> md_temporality d \<noteq> TemporalityUnspecified \<and> md_bounds d \<noteq> [] \<and>
          length (md_mids d) = length (md_bounds d) + 1 \<and> length (md_histShapes d) = 24 \<and>
          (\<forall>h \<in> set (md_histShapes d). shape_ok (length (md_bounds d) + 1) h)
      | TypeExpHistogram \<Rightarrow> md_temporality d \<noteq> TemporalityUnspecified \<and>
          - 1 \<le> md_expScale d \<and> md_expScale d \<le> 3 \<and> md_expPowMin d = - 20 \<and>
          length (md_expPow d) = 80 \<and> length (md_histShapes d) = 24 \<and>
          (\<forall>h \<in> set (md_histShapes d). shape_ok 32 h)
      | TypeSummary \<Rightarrow> md_temporality d = TemporalityUnspecified \<and> md_quantiles d \<noteq> [] \<and>
          sorted (md_quantiles d) \<and> (\<forall>q \<in> set (md_quantiles d). 0 \<le> q))"

text \<open>Filling in the type-specific part leaves the rest of the definition alone.\<close>

definition same_frame :: "metricDef \<Rightarrow> metricDef \<Rightarrow> bool" where
  "same_frame d e \<longleftrightarrow> md_index e = md_index d \<and> md_name e = md_name d \<and> md_typ e = md_typ d \<and>
     md_unit e = md_unit d \<and> md_scopeIdx e = md_scopeIdx d \<and>
     md_cardinality e = md_cardinality d \<and> md_structSeed e = md_structSeed d \<and>
     md_valueSeed e = md_valueSeed d"

lemmas fill_defs = fill_type_def fill_sum_def fill_histogram_def fill_exp_def pickTemporality_def

lemma fill_type_frame: "fill_type env cfg d g = Some (e, g') \<Longrightarrow> same_frame d e"
  by (auto simp: fill_defs same_frame_def Let_def
      split: metricType.splits option.splits prod.splits if_splits)

lemma pickTemporality_specified:
  "pickTemporality env cfg g = Some (t, g') \<Longrightarrow> t \<noteq> TemporalityUnspecified"
  by (auto simp: pickTemporality_def split: option.splits prod.splits if_splits)

lemma bound_pool_nonempty: "i < length histogramBoundPool \<Longrightarrow> histogramBoundPool ! i \<noteq> []"
  by (simp add: histogramBoundPool_def less_Suc_eq numeral_eq_Suc) (elim disjE; simp)

lemma quantile_pool_ok:
  "i < length summaryQuantilePool \<Longrightarrow> summaryQuantilePool ! i \<noteq> [] \<and> sorted (summaryQuantilePool ! i) \<and>
     (\<forall>q \<in> set (summaryQuantilePool ! i). 0 \<le> q)"
  by (simp add: summaryQuantilePool_def less_Suc_eq numeral_eq_Suc) (elim disjE; simp)

lemma pools_nonempty: "0 < length histogramBoundPool" "0 < length summaryQuantilePool"
  "0 < length scopePool" "0 < length (unitPools t)"
  by (simp_all add: histogramBoundPool_def summaryQuantilePool_def scopePool_def unitPools_def
      split: metricType.splits)

lemma fill_type_ok:
  assumes env: "env_ok env" and run: "fill_type env cfg d g = Some (e, g')"
  shows "metric_type_ok e"
proof (cases "md_typ d")
  case TypeGauge
  then show ?thesis using run by (auto simp: fill_type_def metric_type_ok_def)
next
  case TypeSum
  then show ?thesis using run fill_type_frame [OF run]
    by (auto simp: fill_type_def fill_sum_def metric_type_ok_def same_frame_def Let_def
        dest: pickTemporality_specified split: option.splits prod.splits if_splits)
next
  case TypeHistogram
  then obtain tmp g1 b where t: "tmp \<noteq> TemporalityUnspecified"
    and b: "ge_intN env (length histogramBoundPool) g1 = (b, g')"
    and e: "e = d\<lparr>md_temporality := tmp, md_bounds := histogramBoundPool ! b,
      md_mids := bucketMids (histogramBoundPool ! b),
      md_histShapes := buildHistShapes (ge_exp env) (length (histogramBoundPool ! b) + 1)\<rparr>"
    using run by (auto simp: fill_type_def fill_histogram_def Let_def
        dest: pickTemporality_specified split: option.splits prod.splits)
  have "histogramBoundPool ! b \<noteq> []"
    using bound_pool_nonempty env_draw [OF env b] pools_nonempty by blast
  then show ?thesis
    using TypeHistogram t env buildHistShapes_ok [of "ge_exp env" "length (histogramBoundPool ! b) + 1"]
    by (simp add: metric_type_ok_def e length_bucketMids env_ok_def)
next
  case TypeExpHistogram
  then obtain tmp g1 s g2 and h :: bool where t: "tmp \<noteq> TemporalityUnspecified"
    and s: "ge_intN env 5 g1 = (s, g2)"
    and e: "e = d\<lparr>md_temporality := tmp, md_expScale := int s - 1, md_hasNegative := h,
      md_expPowMin := - 20, md_expPow := expPowTable (ge_pow env) (int s - 1) (- 20) 80,
      md_histShapes := buildHistShapes (ge_exp env) 32\<rparr>"
    using run by (auto simp: fill_type_def fill_exp_def Let_def
        dest: pickTemporality_specified split: option.splits prod.splits)
  have "s < 5" using env_draw [OF env s] by simp
  then show ?thesis
    using TypeExpHistogram t env buildHistShapes_ok [of "ge_exp env" 32]
    by (simp add: metric_type_ok_def e env_ok_def)
next
  case TypeSummary
  then obtain q where q: "ge_intN env (length summaryQuantilePool) g = (q, g')"
    and e: "e = d\<lparr>md_temporality := TemporalityUnspecified, md_quantiles := summaryQuantilePool ! q\<rparr>"
    using run by (auto simp: fill_type_def split: prod.splits)
  note quantile_pool_ok [OF env_draw [OF env q pools_nonempty(2)]]
  then show ?thesis using TypeSummary by (simp add: metric_type_ok_def e)
qed

text \<open>The invariant of a finished metric definition.\<close>

definition metric_ok :: "'g go_env \<Rightarrow> mg_config \<Rightarrow> metricDef \<Rightarrow> bool" where
  "metric_ok env cfg d \<longleftrightarrow> metric_type_ok d \<and>
     md_cardinality d = nat (mg_cardinality (ge_curve env) cfg (int (md_index d) + 1)) \<and>
     md_scopeIdx d < length scopePool \<and> md_unit d \<in> set (unitPools (md_typ d)) \<and>
     length (md_dims d) \<le> nat (mg_AttributesPerMetricMax cfg) \<and>
     nat (mg_AttributesPerMetricMin cfg) \<le> length (md_dims d) \<and>
     distinct (map dim_key (md_dims d)) \<and>
     md_cardinality d \<le> prod_list (map dim_size_of (md_dims d)) \<and>
     (set (map dim_key (md_dims d)) \<inter> {''rpc.service'', ''operation''} = {} \<longrightarrow>
       (\<forall>i < md_cardinality d. \<forall>j < md_cardinality d.
          attr_digits (md_dims d) i = attr_digits (md_dims d) j \<longrightarrow> i = j))"

definition attrs_range_ok :: "mg_config \<Rightarrow> bool" where
  "attrs_range_ok cfg \<longleftrightarrow> 1 \<le> mg_AttributesPerMetricMin cfg \<and>
     mg_AttributesPerMetricMin cfg \<le> mg_AttributesPerMetricMax cfg \<and>
     mg_AttributesPerMetricMax cfg \<le> maxAttrsPerMetric"

lemma metric_type_ok_dims [simp]: "metric_type_ok (d\<lparr>md_dims := ds\<rparr>) = metric_type_ok d"
  by (simp add: metric_type_ok_def split: metricType.splits)

lemma buildMetricDef_ok:
  assumes env: "env_ok env" and attrs: "attrs_range_ok cfg"
    and run: "buildMetricDef fuel env cfg index name seedHash typ = Some d"
  shows "metric_ok env cfg d \<and> md_index d = index \<and> md_name d = name \<and> md_typ d = typ"
proof -
  let ?lo = "nat (mg_AttributesPerMetricMin cfg)" and ?hi = "nat (mg_AttributesPerMetricMax cfg)"
  let ?g = "ge_pcg env (metric_seed index) (splitmix64 (metric_seed index XOR planSeed2))"
  obtain scope g1 where s: "ge_intN env (length scopePool) ?g = (scope, g1)" by (rule prod.exhaust)
  obtain u g2 where u: "ge_intN env (length (unitPools typ)) g1 = (u, g2)" by (rule prod.exhaust)
  let ?b = "blank_metric env cfg index name seedHash typ scope (unitPools typ ! u)"
  obtain e g3 ds g4 where f: "fill_type env cfg ?b g2 = Some (e, g3)"
    and b: "buildDims fuel (ge_root env) (ge_intN env) (md_cardinality e) ?lo ?hi g3 = Some (ds, g4)"
    and d: "d = e\<lparr>md_dims := ds\<rparr>"
    using run s u by (auto simp: buildMetricDef_def Let_def split: option.splits prod.splits)
  have frame: "md_index e = index" "md_name e = name" "md_typ e = typ"
    "md_unit e = unitPools typ ! u" "md_scopeIdx e = scope"
    "md_cardinality e = nat (mg_cardinality (ge_curve env) cfg (int index + 1))"
    using fill_type_frame [OF f] by (simp_all add: same_frame_def blank_metric_def)
  have lim: "scope < length scopePool" "u < length (unitPools typ)"
    using env_draw [OF env s] env_draw [OF env u] pools_nonempty by blast+
  have lo: "0 < ?lo" "?lo \<le> ?hi" using attrs by (auto simp: attrs_range_ok_def)
  have rng: "rng_ok (ge_intN env)" using env by (simp add: env_ok_def)
  note dims = buildDims_ok [OF rng lo b]
  show ?thesis
    using dims fill_type_ok [OF env f] lim unfolding metric_ok_def
    by (simp add: d frame)
qed

lemma plan_metrics_ok:
  assumes env: "env_ok env" and attrs: "attrs_range_ok cfg"
    and run: "plan_metrics fuel env cfg seedHash names cycle is = Some ms"
  shows "length ms = length is \<and>
    (\<forall>n < length is. metric_ok env cfg (ms ! n) \<and> md_index (ms ! n) = is ! n \<and>
       md_name (ms ! n) = names ! (is ! n) \<and> md_typ (ms ! n) = plan_type cfg cycle (is ! n))"
  using run
proof (induction "is" arbitrary: ms)
  case Nil
  then show ?case by simp
next
  case (Cons i "is")
  from Cons.prems obtain d ms' where
    d: "buildMetricDef fuel env cfg i (names ! i) seedHash (plan_type cfg cycle i) = Some d"
    and ms': "plan_metrics fuel env cfg seedHash names cycle is = Some ms'" and ms: "ms = d # ms'"
    by (auto split: if_splits option.splits)
  show ?case
    using Cons.IH [OF ms'] buildMetricDef_ok [OF env attrs d]
    by (auto simp: ms nth_Cons split: nat.splits)
qed

lemma foldl_tally:
  "pl_totalSeries (foldl tally p ms) =
     pl_totalSeries p + of_nat (sum_list (map md_cardinality ms)) \<and>
   (\<forall>t. pl_typeCounts (foldl tally p ms) (metricType_String t) =
      pl_typeCounts p (metricType_String t) + length (filter (\<lambda>d. md_typ d = t) ms)) \<and>
   pl_cfg (foldl tally p ms) = pl_cfg p \<and> pl_startMs (foldl tally p ms) = pl_startMs p \<and>
   pl_intervalMs (foldl tally p ms) = pl_intervalMs p \<and>
   pl_jitterMs (foldl tally p ms) = pl_jitterMs p \<and>
   pl_lifetimeSwps (foldl tally p ms) = pl_lifetimeSwps p \<and>
   pl_seedHash (foldl tally p ms) = pl_seedHash p"
proof (induction ms arbitrary: p)
  case Nil
  then show ?case by simp
next
  case (Cons d ms)
  have inj: "metricType_String s = metricType_String t \<longleftrightarrow> s = t" for s t
    by (cases s; cases t) simp_all
  show ?case
    using Cons.IH [of "tally p d"] by (auto simp: tally_def Let_def inj algebra_simps)
qed

section \<open>The plan: what it guarantees\<close>

lemma plan_names_props:
  assumes "rng_ok (ge_intN env)" and "mg_wf cfg" and "plan_names fuel env cfg = Some names"
  shows "distinct names \<and> length names = nat (mg_MetricCount cfg)"
proof (cases "mg_MetricNames cfg = []")
  case True
  then show ?thesis
    using assms(3) collect_props [OF name_draw_in [OF assms(1)]]
    by (auto simp: plan_names_def metricNames_def)
next
  case False
  then show ?thesis using assms(2,3) by (auto simp: plan_names_def mg_wf_def)
qed

lemma mg_wf_attrs: "mg_wf cfg \<Longrightarrow> attrs_range_ok cfg"
  by (simp add: mg_wf_def attrs_range_ok_def)

lemma lifetime_zero:
  assumes "mg_wf cfg" and "in_i64 (mg_ResourceLifetime cfg)"
  shows "lifetime_sweeps cfg = 0 \<longleftrightarrow> mg_ResourceLifetime cfg = 0"
proof -
  have i: "0 < mg_Interval cfg"
    using assms(1) by (auto simp: mg_wf_def duration_ms_def)
  show ?thesis
  proof (cases "mg_ResourceLifetime cfg = 0")
    case False
    then have le: "mg_Interval cfg \<le> mg_ResourceLifetime cfg"
      using assms(1) by (simp add: mg_wf_def)
    let ?q = "mg_ResourceLifetime cfg div mg_Interval cfg"
    have "1 \<le> ?q" using i le by (simp add: int_one_le_iff_zero_less pos_imp_zdiv_pos_iff)
    moreover have "?q \<le> mg_ResourceLifetime cfg" using i le by (intro int_div_le_self) auto
    ultimately have "unat (word_of_int ?q :: u64) = nat ?q"
      using assms(2) by (intro unat_of_int64) (auto simp: in_i64_def)
    then have "(word_of_int ?q :: u64) \<noteq> 0" using \<open>1 \<le> ?q\<close> by (auto simp: word_eq_unat)
    then show ?thesis using False i le by (simp add: lifetime_sweeps_def)
  qed (simp add: lifetime_sweeps_def)
qed

text \<open>
  C36. A plan built from a well-formed configuration: one definition per metric, with pairwise
  distinct names, the type the configuration or the cycle gives it and an attribute space that
  covers its cardinality; the total is the sum of the cardinalities, the per-type counters count
  the metrics of each type; the clock of the plan is the one validation accepted, with churn
  exactly when a resource lifetime is configured; the service names are distinct.
\<close>

theorem newPlan_wf:
  assumes "env_ok env" and "mg_wf cfg" and "in_i64 (mg_ResourceLifetime cfg)"
    and "newPlan fuel env cfg seed now = Some (Inr (p, pool))"
  shows "length (pl_metrics p) = nat (mg_MetricCount cfg) \<and>
    (\<forall>i < length (pl_metrics p). metric_ok env cfg (pl_metrics p ! i) \<and> md_index (pl_metrics p ! i) = i) \<and>
    distinct (map md_name (pl_metrics p)) \<and>
    (\<exists>cycle. typeCycle (mg_TypeWeights cfg) = Some cycle \<and>
       map md_typ (pl_metrics p) = map (plan_type cfg cycle) [0..<nat (mg_MetricCount cfg)]) \<and>
    pl_totalSeries p = of_nat (sum_list (map md_cardinality (pl_metrics p))) \<and>
    (\<forall>t. pl_typeCounts p (metricType_String t) = length (filter (\<lambda>d. md_typ d = t) (pl_metrics p))) \<and>
    1 \<le> pl_intervalMs p \<and> 0 \<le> pl_jitterMs p \<and> 2 * pl_jitterMs p < pl_intervalMs p \<and>
    (pl_lifetimeSwps p = 0 \<longleftrightarrow> mg_ResourceLifetime cfg = 0) \<and>
    distinct (rp_services pool) \<and> length (rp_services pool) = nat (mg_Services cfg) \<and>
    pl_cfg p = cfg"
proof -
  from assms(4) obtain start names cycle ms where
    names: "plan_names fuel env cfg = Some names" and cycle: "typeCycle (mg_TypeWeights cfg) = Some cycle"
    and ms: "plan_metrics fuel env cfg (splitmix64 (fnvHash seed)) names cycle
      [0..<nat (mg_MetricCount cfg)] = Some ms"
    and p: "p = (foldl tally (empty_plan cfg seed start) ms)\<lparr>pl_metrics := ms\<rparr>"
    and pool: "pool = newResourcePool (serviceNames (ge_intN env) (nat (mg_Services cfg))
      (ge_pcg env nameTableSeed2 nameTableSeed1)) (nat (mg_Resources cfg))"
    by (auto simp: newPlan_def Let_def empty_plan_def split: sum.splits option.splits)
  have rng: "rng_ok (ge_intN env)" using assms(1) by (simp add: env_ok_def)
  note nm = plan_names_props [OF rng assms(2) names]
  note met = plan_metrics_ok [OF assms(1) mg_wf_attrs [OF assms(2)] ms]
  have len: "length ms = nat (mg_MetricCount cfg)" using met by simp
  have "map md_name ms = names" using met nm len by (intro nth_equalityI) simp_all
  moreover have "map md_typ ms = map (plan_type cfg cycle) [0..<nat (mg_MetricCount cfg)]"
    using met len by (intro nth_equalityI) simp_all
  moreover have "\<forall>i < length ms. metric_ok env cfg (ms ! i) \<and> md_index (ms ! i) = i"
    using met len by simp
  moreover note serviceNames_loop_props [OF rng, of "[]" "nat (mg_Services cfg)"
      "ge_pcg env nameTableSeed2 nameTableSeed1"]
  ultimately show ?thesis
    using nm len cycle foldl_tally [of "empty_plan cfg seed start" ms] lifetime_zero [OF assms(2,3)]
      assms(2)
    by (auto simp: p pool empty_plan_def newResourcePool_def serviceNames_def mg_wf_def)
qed

section \<open>The plan is built\<close>

text \<open>
  \<open>env_fair\<close>: the draws for the attribute keys are fair from every state, those for the metric
  names from the seed of the name table. \<open>weights_ok\<close>: no weight is negative or above the bound
  on their sum.
\<close>

definition env_fair :: "'g go_env \<Rightarrow> bool" where
  "env_fair env \<longleftrightarrow> (\<forall>g. fair (key_draw (ge_intN env)) {..<20} g) \<and>
     fair (name_draw (ge_intN env)) (metric_phrase ` phrase_space) (ge_pcg env nameTableSeed1 nameTableSeed2)"

definition weights_ok :: "type_weights \<Rightarrow> bool" where
  "weights_ok w \<longleftrightarrow> (\<forall>t. 0 \<le> weight_of w t \<and> weight_of w t \<le> 10000)"

lemma buildDims_fuel:
  assumes rng: "rng_ok intN" and "lo \<le> hi" and "hi \<le> 20" and "\<forall>g. fair (key_draw intN) {..<20} g"
  shows "\<exists>fuel res. \<forall>fuel' \<ge> fuel. buildDims fuel' rootc intN n lo hi g = Some res"
proof -
  obtain r g1 where r: "intN (Suc (hi - lo)) g = (r, g1)" by (rule prod.exhaust)
  then have "r < Suc (hi - lo)" using rng unfolding rng_ok_def by (metis fst_conv zero_less_Suc)
  then have "lo + r \<le> 20" using assms(2,3) by linarith
  then obtain fuel idxs g2 where run: "collect fuel (key_draw intN) (lo + r) [] g1 = Some (idxs, g2)"
    using collect_returns [OF key_draw_in [OF rng], of g1 "lo + r"] assms(4) by auto
  obtain sizes g3 where s: "dimSizes rootc intN n (lo + r) g2 = (sizes, g3)" by (rule prod.exhaust)
  have "\<forall>fuel' \<ge> fuel. buildDims fuel' rootc intN n lo hi g =
      Some (map2 make_dim (map (nth attrKeyPool) idxs) sizes, g3)"
    using collect_mono [OF run] by (simp add: buildDims_def r s Let_def)
  then show ?thesis by blast
qed

lemma fill_type_Some: "mg_DeltaRatio cfg \<noteq> None \<Longrightarrow> \<exists>res. fill_type env cfg d g = Some res"
  by (cases "md_typ d") (auto simp: fill_defs Let_def split: prod.splits option.splits if_splits)

lemma buildMetricDef_fuel:
  assumes env: "env_ok env" "env_fair env" and attrs: "attrs_range_ok cfg"
    and delta: "mg_DeltaRatio cfg \<noteq> None"
  shows "\<exists>fuel d. \<forall>fuel' \<ge> fuel. buildMetricDef fuel' env cfg i name sh typ = Some d"
proof -
  let ?lo = "nat (mg_AttributesPerMetricMin cfg)" and ?hi = "nat (mg_AttributesPerMetricMax cfg)"
  let ?g = "ge_pcg env (metric_seed i) (splitmix64 (metric_seed i XOR planSeed2))"
  obtain scope g1 where s: "ge_intN env (length scopePool) ?g = (scope, g1)" by (rule prod.exhaust)
  obtain u g2 where u: "ge_intN env (length (unitPools typ)) g1 = (u, g2)" by (rule prod.exhaust)
  obtain e g3 where f: "fill_type env cfg
      (blank_metric env cfg i name sh typ scope (unitPools typ ! u)) g2 = Some (e, g3)"
    using fill_type_Some [OF delta] by (metis surj_pair)
  have "?lo \<le> ?hi" "?hi \<le> 20" using attrs by (auto simp: attrs_range_ok_def maxAttrsPerMetric_def)
  then obtain fuel ds g4 where "\<forall>fuel' \<ge> fuel. buildDims fuel' (ge_root env) (ge_intN env)
      (md_cardinality e) ?lo ?hi g3 = Some (ds, g4)"
    using buildDims_fuel [of "ge_intN env" ?lo ?hi] env
    unfolding env_ok_def env_fair_def by (metis surj_pair)
  then have "\<forall>fuel' \<ge> fuel. buildMetricDef fuel' env cfg i name sh typ = Some (e\<lparr>md_dims := ds\<rparr>)"
    by (simp add: buildMetricDef_def s u f Let_def)
  then show ?thesis by blast
qed

lemma plan_metrics_fuel:
  assumes env: "env_ok env" "env_fair env" and attrs: "attrs_range_ok cfg"
    and delta: "mg_DeltaRatio cfg \<noteq> None" and cyc: "cycle \<noteq> []"
  shows "\<forall>i \<in> set is. i < length names \<Longrightarrow>
    \<exists>fuel ms. \<forall>fuel' \<ge> fuel. plan_metrics fuel' env cfg sh names cycle is = Some ms"
proof (induction "is")
  case Nil
  then show ?case by simp
next
  case (Cons i "is")
  obtain f1 d where "\<forall>fuel' \<ge> f1. buildMetricDef fuel' env cfg i (names ! i) sh (plan_type cfg cycle i) = Some d"
    using buildMetricDef_fuel [OF env attrs delta] by blast
  moreover obtain f2 ms where "\<forall>fuel' \<ge> f2. plan_metrics fuel' env cfg sh names cycle is = Some ms"
    using Cons by auto
  ultimately have "\<forall>fuel' \<ge> max f1 f2. plan_metrics fuel' env cfg sh names cycle (i # is) = Some (d # ms)"
    using Cons.prems cyc by (simp add: not_le)
  then show ?case by blast
qed

lemma plan_names_fuel:
  assumes env: "env_ok env" "env_fair env" and wf: "mg_wf cfg"
  shows "\<exists>fuel names. \<forall>fuel' \<ge> fuel. plan_names fuel' env cfg = Some names"
proof (cases "mg_MetricNames cfg = []")
  case False
  then show ?thesis by (simp add: plan_names_def)
next
  case True
  let ?U = "metric_phrase ` phrase_space" and ?n = "nat (mg_MetricCount cfg)"
  let ?g = "ge_pcg env nameTableSeed1 nameTableSeed2"
  have rng: "rng_ok (ge_intN env)" using env by (simp add: env_ok_def)
  have card: "finite ?U" "card ?U = 62400"
    using phrase_space_card by (simp_all add: card_image [OF metric_phrase_inj])
  have "mg_MetricCount cfg \<le> 50000" using wf by (simp add: mg_wf_def MaxMetricCount_def)
  then have "?n \<le> card ?U" by (simp add: card)
  then obtain fuel xs g where run: "collect fuel (name_draw (ge_intN env)) ?n [] ?g = Some (xs, g)"
    using collect_returns [OF name_draw_in [OF rng] _ card(1)] env(2)
    unfolding env_fair_def by (metis surj_pair)
  have "\<forall>fuel' \<ge> fuel. plan_names fuel' env cfg = Some xs"
    using True collect_mono [OF run] by (simp add: plan_names_def metricNames_def)
  then show ?thesis by blast
qed

lemma newPlan_Some:
  assumes env: "env_ok env" "env_fair env" and wf: "mg_wf cfg"
    and w: "weights_ok (mg_TypeWeights cfg)" and delta: "mg_DeltaRatio cfg \<noteq> None"
    and start: "mg_resolveStartTime (ge_parse_dur env) (ge_parse_rfc env) cfg now = Inr start"
  shows "\<exists>fuel p pool. newPlan fuel env cfg seed now = Some (Inr (p, pool))"
proof -
  obtain f1 names where n: "\<forall>fuel' \<ge> f1. plan_names fuel' env cfg = Some names"
    using plan_names_fuel [OF env wf] by blast
  have rng: "rng_ok (ge_intN env)" using env by (simp add: env_ok_def)
  have len: "length names = nat (mg_MetricCount cfg)"
    using plan_names_props [OF rng wf] n by blast
  have "0 < tw_total (mg_TypeWeights cfg)" using wf by (simp add: mg_wf_def)
  then obtain cycle where c: "typeCycle (mg_TypeWeights cfg) = Some cycle"
      and "int (length cycle) = tw_total (mg_TypeWeights cfg)"
    using typeCycle_Some [of "mg_TypeWeights cfg"] w unfolding weights_ok_def by blast
  with \<open>0 < tw_total (mg_TypeWeights cfg)\<close> have "cycle \<noteq> []" by auto
  from plan_metrics_fuel [OF env mg_wf_attrs [OF wf] delta this,
      of "[0..<nat (mg_MetricCount cfg)]" names "splitmix64 (fnvHash seed)"] len
  obtain f2 ms where m: "\<forall>fuel' \<ge> f2. plan_metrics fuel' env cfg (splitmix64 (fnvHash seed)) names cycle
      [0..<nat (mg_MetricCount cfg)] = Some ms" by auto
  have "plan_names (max f1 f2) env cfg = Some names"
    and "plan_metrics (max f1 f2) env cfg (splitmix64 (fnvHash seed)) names cycle
      [0..<nat (mg_MetricCount cfg)] = Some ms" using n m by simp_all
  then show ?thesis
    by (intro exI [of _ "max f1 f2"]) (simp add: newPlan_def start c empty_plan_def Let_def)
qed

lemma mg_Validate_start:
  assumes "mg_Enabled c" and "mg_Validate parse_dur parse_rfc curve now c = None"
  shows "\<exists>t. mg_resolveStartTime parse_dur parse_rfc (mg_withDefaults c) now = Inr t"
  using assms
  by (auto simp: mg_Validate_def Let_def simp del: mg_withDefaults_fields mg_withDefaults_other
      split: sum.splits if_splits)

lemma resolveStartTime_now:
  "mg_resolveStartTime parse_dur parse_rfc c now = Inr t \<Longrightarrow>
   \<exists>t'. mg_resolveStartTime parse_dur parse_rfc c now' = Inr t'"
  by (auto simp: mg_resolveStartTime_def Let_def split: if_splits option.splits)

lemma weights_ok_default: "weights_ok defaultTypeWeights"
  by (simp add: weights_ok_def weight_of_def defaultTypeWeights_def split: metricType.splits)

lemma validated_plan_exists:
  assumes env: "env_ok env" "env_fair env" and "mg_Enabled c"
    and v: "mg_Validate (ge_parse_dur env) (ge_parse_rfc env) curve now c = None"
    and "mg_TimestampJitterMs c < 4611686018427387904" and w: "weights_ok (mg_TypeWeights c)"
  shows "\<exists>fuel p pool. newPlan fuel env (mg_withDefaults c) seed now' = Some (Inr (p, pool))"
proof -
  obtain t where "mg_resolveStartTime (ge_parse_dur env) (ge_parse_rfc env) (mg_withDefaults c) now' = Inr t"
    using mg_Validate_start [OF assms(3) v] resolveStartTime_now by blast
  moreover have "mg_wf (mg_withDefaults c)" by (rule mg_Validate_wf_lemma [OF assms(3) v assms(5)])
  moreover have "weights_ok (mg_TypeWeights (mg_withDefaults c))"
    using w weights_ok_default by simp
  moreover have "mg_DeltaRatio (mg_withDefaults c) \<noteq> None"
    by (cases "mg_DeltaRatio c") (simp_all del: not_None_eq)
  ultimately show ?thesis using newPlan_Some [OF env] by blast
qed

text \<open>
  Every configuration that \<open>Validate\<close> accepts has a plan: on a fair generator \<open>newPlan\<close>
  returns one, without a panic (an index out of range, a nil delta ratio, an empty type cycle)
  and without an error, whatever the seed and the time it is called at.
\<close>

theorem validated_plan:
  assumes "env_ok env" and "env_fair env" and "mg_Enabled c"
    and "mg_Validate (ge_parse_dur env) (ge_parse_rfc env) curve now c = None"
    and "mg_TimestampJitterMs c < 4611686018427387904" and "weights_ok (mg_TypeWeights c)"
  shows "\<exists>fuel p pool. newPlan fuel env (mg_withDefaults c) seed now' = Some (Inr (p, pool))"
  using assms by (rule validated_plan_exists)

text \<open>A concrete environment: the digit generator, and constant results for the rest.\<close>

definition sample_env :: "(nat \<times> nat) go_env" where
  "sample_env =
     \<lparr>ge_pcg = (\<lambda>_ _. (0, 0)), ge_intN = digit_rng, ge_float = (\<lambda>g. (1 / 2, g)),
      ge_root = (\<lambda>n _. int n), ge_pow = (\<lambda>x y. x), ge_exp = (\<lambda>_. 1), ge_quote = (\<lambda>s. s),
      ge_curve = (\<lambda>m b x. m), ge_parse_dur = (\<lambda>_. None), ge_parse_rfc = (\<lambda>_. None)\<rparr>"

lemma sample_env_ok: "env_ok sample_env"
  using digit_rng_ok by (simp add: env_ok_def sample_env_def)

fun digit_steps :: "nat \<Rightarrow> nat \<times> nat \<Rightarrow> nat \<times> nat" where
  "digit_steps 0 g = g"
| "digit_steps (Suc n) g = digit_steps n (snd (digit_rng 20 g))"

lemma drawn_digit_key: "drawn (key_draw digit_rng) n g = Some (fst (digit_rng 20 (digit_steps n g)))"
  by (induction n arbitrary: g) (simp_all add: key_draw_def case_prod_beta)

lemma digit_steps_add: "digit_steps (m + n) g = digit_steps n (digit_steps m g)"
  by (induction m arbitrary: g) simp_all

lemma digit_steps_next: "\<exists>n. 0 < n \<and> digit_steps n (c, p) = (Suc c, 0)"
proof -
  have two: "digit_steps (Suc 0) (c, p) = (Suc c, 0)" if "p \<noteq> 0" "p \<noteq> 1" for p
    using that by simp
  have one: "\<exists>n. 0 < n \<and> digit_steps n (c, 1) = (Suc c, 0)"
  proof (cases "c div 40 mod 40 = c mod 40")
    case True
    then have "digit_steps (Suc 0) (c, 1) = (Suc c, 0)" by simp
    then show ?thesis by blast
  next
    case False
    then have "digit_steps (Suc (Suc 0)) (c, 1) = (Suc c, 0)" by simp
    then show ?thesis by blast
  qed
  then obtain n where n: "0 < n" "digit_steps n (c, 1) = (Suc c, 0)" by blast
  then have "digit_steps (Suc n) (c, 0) = (Suc c, 0)" by simp
  with one two show ?thesis by (cases "p = 0"; cases "p = 1") blast+
qed

lemma digit_steps_reach: "\<exists>n. k \<le> n \<and> digit_steps n (c, 0) = (c + k, 0)"
proof (induction k)
  case 0
  then show ?case by (intro exI [of _ 0]) simp
next
  case (Suc k)
  then obtain n m where "k \<le> n" "digit_steps n (c, 0) = (c + k, 0)" "0 < m"
    "digit_steps m (c + k, 0) = (Suc (c + k), 0)" using digit_steps_next [of "c + k" 0] by blast
  then show ?case by (intro exI [of _ "n + m"]) (simp add: digit_steps_add)
qed

lemma digit_key_fair: "fair (key_draw digit_rng) {..<20} g"
  unfolding fair_def
proof (intro allI impI)
  fix seen :: "nat set" and N :: nat
  assume "seen \<subset> {..<20}"
  then obtain x where x: "x < 20" "x \<notin> seen" by blast
  obtain c p where g: "g = (c, p)" by (rule prod.exhaust)
  obtain m where m: "digit_steps m g = (Suc c, 0)" using digit_steps_next g by blast
  define k where "k = N + (x + 39 * (Suc c + N))"
  obtain n where n: "k \<le> n" "digit_steps n (Suc c, 0) = (Suc c + k, 0)" using digit_steps_reach by blast
  have "Suc c + k = x + 40 * (Suc c + N)" by (simp add: k_def)
  then have "(Suc c + k) mod 40 = x mod 40" by (simp only: mod_mult_self2)
  then have "(Suc c + k) mod 40 = x" using x(1) by simp
  then have "fst (digit_rng 20 (digit_steps (m + n) g)) = x"
    using x(1) by (simp add: digit_steps_add m n(2) del: add_Suc)
  moreover have "N \<le> m + n" using n(1) by (simp add: k_def)
  ultimately show "\<exists>n y. N \<le> n \<and> drawn (key_draw digit_rng) n g = Some y \<and> y \<notin> seen"
    using x(2) drawn_digit_key [of "m + n" g] by blast
qed

lemma sample_env_fair: "env_fair sample_env"
  using digit_key_fair digit_rng_fair by (simp add: env_fair_def sample_env_def)

lemma sample_weights: "weights_ok (mg_TypeWeights sample_config)"
  by (simp add: weights_ok_def weight_of_def sample_config_def split: metricType.splits)

theorem validated_plan_witness:
  "\<exists>fuel p pool. newPlan fuel sample_env (mg_withDefaults sample_config) ''seed'' 5 = Some (Inr (p, pool))"
proof (rule validated_plan [OF sample_env_ok sample_env_fair _ _ _ sample_weights])
  show "mg_Validate (ge_parse_dur sample_env) (ge_parse_rfc sample_env) (\<lambda>m b x. m) 0 sample_config = None"
    using sample_config_accepted by (simp add: sample_env_def)
qed (simp_all add: sample_config_def)

theorem newPlan_wf_witness:
  "\<exists>fuel p pool. newPlan fuel sample_env (mg_withDefaults sample_config) ''seed'' 5 = Some (Inr (p, pool)) \<and>
     length (pl_metrics p) = 2 \<and> pl_lifetimeSwps p \<noteq> 0"
proof -
  have v: "mg_Validate (ge_parse_dur sample_env) (ge_parse_rfc sample_env) (\<lambda>m b x. m) 0 sample_config = None"
    using sample_config_accepted by (simp add: sample_env_def)
  have j: "mg_Enabled sample_config" "mg_TimestampJitterMs sample_config < 4611686018427387904"
    by (simp_all add: sample_config_def)
  obtain fuel p pool where
    run: "newPlan fuel sample_env (mg_withDefaults sample_config) ''seed'' 5 = Some (Inr (p, pool))"
    using validated_plan_exists [OF sample_env_ok sample_env_fair j(1) v j(2) sample_weights] by blast
  have wf: "mg_wf (mg_withDefaults sample_config)" by (rule mg_Validate_wf_lemma [OF j(1) v j(2)])
  have lt: "in_i64 (mg_ResourceLifetime (mg_withDefaults sample_config))"
    by (simp add: sample_config_def in_i64_def)
  note newPlan_wf [OF sample_env_ok wf lt run]
  moreover have "nat (mg_MetricCount (mg_withDefaults sample_config)) = 2"
    and "mg_ResourceLifetime (mg_withDefaults sample_config) \<noteq> 0"
    by (simp_all add: sample_config_def)
  ultimately show ?thesis using run by auto
qed

end
