(* ===== verification/Floats.thy ===== *)
theory Floats
  imports Hash
begin

text \<open>
  Floating-point arithmetic. A float64 is a rational and every operation rounds its exact result
  (\<open>go_float\<close>); lemmas assume of the rounding only what IEEE 754 promises (\<open>float_ok\<close>): it is
  monotone, exact on integers of 53 bits and accurate to half a unit in the last place.
\<close>

section \<open>Floats\<close>

record go_float =
  fl_rnd :: "rat \<Rightarrow> rat"
  fl_pow :: "rat \<Rightarrow> rat \<Rightarrow> rat"
  fl_sin :: "rat \<Rightarrow> rat"
  fl_2pi :: rat

definition fadd :: "go_float \<Rightarrow> rat \<Rightarrow> rat \<Rightarrow> rat" where "fadd F a b = fl_rnd F (a + b)"
definition fsub :: "go_float \<Rightarrow> rat \<Rightarrow> rat \<Rightarrow> rat" where "fsub F a b = fl_rnd F (a - b)"
definition fmul :: "go_float \<Rightarrow> rat \<Rightarrow> rat \<Rightarrow> rat" where "fmul F a b = fl_rnd F (a * b)"
definition fdiv :: "go_float \<Rightarrow> rat \<Rightarrow> rat \<Rightarrow> rat" where "fdiv F a b = fl_rnd F (a / b)"

text \<open>A decimal constant of the source, and the conversions from and to integers.\<close>

definition fconst :: "go_float \<Rightarrow> rat \<Rightarrow> rat" where "fconst F c = fl_rnd F c"
definition of_u64 :: "go_float \<Rightarrow> u64 \<Rightarrow> rat" where "of_u64 F w = fl_rnd F (of_nat (unat w))"
definition of_i64 :: "go_float \<Rightarrow> int \<Rightarrow> rat" where "of_i64 F i = fl_rnd F (of_int i)"
definition to_u64 :: "rat \<Rightarrow> u64" where "to_u64 v = word_of_int \<lfloor>v\<rfloor>"
section \<open>Rounding: lemmas\<close>

definition float_ok :: "go_float \<Rightarrow> bool" where
  "float_ok F \<longleftrightarrow> mono (fl_rnd F) \<and>
     (\<forall>n. \<bar>n\<bar> \<le> 9007199254740992 \<longrightarrow> fl_rnd F (of_int n) = of_int n) \<and> fl_rnd F (1 / 2) = 1 / 2 \<and>
     (\<forall>x. \<bar>x\<bar> \<le> 2 ^ 1000 \<longrightarrow> \<bar>fl_rnd F x - x\<bar> \<le> \<bar>x\<bar> / 2 ^ 53 + 1 / 2 ^ 1000) \<and>
     (\<forall>x. -1 \<le> x \<and> x \<le> 3 \<longrightarrow> 1 / 16 \<le> fl_pow F 10 x \<and> fl_pow F 10 x \<le> 1024) \<and>
     (\<forall>x. 0 \<le> fl_pow F 10 x)"

lemma rnd_mono: "float_ok F \<Longrightarrow> x \<le> y \<Longrightarrow> fl_rnd F x \<le> fl_rnd F y"
  unfolding float_ok_def by (blast dest: monoD)

lemma rnd_int: "float_ok F \<Longrightarrow> \<bar>n\<bar> \<le> 9007199254740992 \<Longrightarrow> fl_rnd F (of_int n) = of_int n"
  unfolding float_ok_def by blast

lemma rnd_zero: "float_ok F \<Longrightarrow> fl_rnd F 0 = 0"
  using rnd_int [of F 0] by simp

lemma rnd_nonneg: "float_ok F \<Longrightarrow> 0 \<le> x \<Longrightarrow> 0 \<le> fl_rnd F x"
  using rnd_mono [of F 0 x] rnd_zero [of F] by simp

text \<open>
  The error bound with small constants: \<open>2^-53\<close> is below \<open>10^-12\<close> and \<open>2^-1000\<close> below \<open>10^-20\<close>.
\<close>

abbreviation (input) "rel_err \<equiv> (1 / 1000000000000 :: rat)"
abbreviation (input) "abs_err \<equiv> (1 / 100000000000000000000 :: rat)"

lemma rnd_bounds:
  assumes F: "float_ok F" and x: "0 \<le> x" "x \<le> 1000000000000000"
  shows "fl_rnd F x \<le> x + x * rel_err + abs_err" and "x - x * rel_err - abs_err \<le> fl_rnd F x"
proof -
  have "(1000000000000000 :: rat) \<le> 2 ^ 60" by simp
  also have "(2 ^ 60 :: rat) \<le> 2 ^ 1000" by (rule power_increasing) simp_all
  finally have "\<bar>x\<bar> \<le> 2 ^ 1000" using x by linarith
  then have "\<bar>fl_rnd F x - x\<bar> \<le> \<bar>x\<bar> / 2 ^ 53 + 1 / 2 ^ 1000"
    using F unfolding float_ok_def by blast
  moreover have "\<bar>x\<bar> / 2 ^ 53 \<le> x * rel_err" using x by (simp add: field_simps)
  moreover have "(1 / 2 ^ 1000 :: rat) \<le> 1 / 2 ^ 70"
    by (intro divide_left_mono power_increasing) simp_all
  moreover have "(1 / 2 ^ 70 :: rat) \<le> abs_err" by simp
  ultimately show "fl_rnd F x \<le> x + x * rel_err + abs_err" "x - x * rel_err - abs_err \<le> fl_rnd F x"
    by linarith+
qed
section \<open>An instance\<close>

text \<open>Arithmetic without rounding.\<close>

definition exact_float :: go_float where
  "exact_float = \<lparr>fl_rnd = (\<lambda>x. x), fl_pow = (\<lambda>_ _. 1), fl_sin = (\<lambda>_. 0), fl_2pi = 6\<rparr>"

lemma exact_float_ok: "float_ok exact_float"
  unfolding float_ok_def exact_float_def by (auto simp: mono_def)
end
