(* ===== verification/MgValues.thy ===== *)
theory MgValues
  imports MgPlan Floats
begin

text \<open>
  Point values (\<open>internal/metricgen/values.go\<close>): every value is a function of the series and the
  sweep, computed in the float arithmetic of \<open>Floats\<close>.
\<close>

section \<open>Value classes\<close>

datatype valueClass = ClassIdle | ClassInt | ClassDecimal | ClassFull

definition classFor :: "go_float \<Rightarrow> u64 \<Rightarrow> valueClass" where
  "classFor F sVal =
     (let r = frac64 (mix2 sVal 30)
      in if r < fconst F (12 / 100) then ClassIdle
         else if r < fconst F (1 / 2) then ClassInt
         else if r < fconst F (85 / 100) then ClassDecimal
         else ClassFull)"

definition pow10 :: "rat list" where
  "pow10 = [1, 10, 100, 1000, 10000, 100000, 1000000]"

definition quantize :: "go_float \<Rightarrow> rat \<Rightarrow> valueClass \<Rightarrow> nat \<Rightarrow> rat" where
  "quantize F v cls decimals =
     (case cls of
        ClassInt \<Rightarrow> of_int \<lfloor>v\<rfloor>
      | ClassDecimal \<Rightarrow> (let p = pow10 ! decimals in fdiv F (of_int (go_round (fmul F v p))) p)
      | ClassIdle \<Rightarrow> v
      | ClassFull \<Rightarrow> v)"

definition series_class :: "go_float \<Rightarrow> seriesRef \<Rightarrow> valueClass" where
  "series_class F s =
     (let c = classFor F (sr_sVal s)
      in if md_valueIsInt (sr_def s) \<and> (c = ClassDecimal \<or> c = ClassFull) then ClassInt else c)"

definition decimals :: "seriesRef \<Rightarrow> nat" where
  "decimals s = 1 + unat (mix2 (sr_sVal s) 31 mod 3)"

section \<open>Gauges and sums\<close>

definition gaugeValue :: "go_float \<Rightarrow> seriesRef \<Rightarrow> u64 \<Rightarrow> rat" where
  "gaugeValue F s k =
     (let v0 = sr_sVal s;
          base = fl_pow F 10 (fsub F (fmul F (frac64 (mix2 v0 1)) 6) 2);
          cls = series_class F s
      in if cls = ClassIdle then quantize F base ClassDecimal 1
         else
           let regimePeriod = 500 + mix2 v0 41 mod 2000;
               level = fadd F (fconst F (6 / 10))
                         (fmul F (fconst F (8 / 10)) (frac64 (mix3 v0 (k div regimePeriod) 42)));
               period = of_u64 F (60 + mix2 v0 2 mod 3540);
               amp = fadd F (fconst F (1 / 10)) (fmul F (fconst F (4 / 10)) (frac64 (mix2 v0 3)));
               phase = frac64 (mix2 v0 4);
               noise = fmul F (fsub F (frac64 (mix3 v0 k 5)) (fconst F (1 / 2))) (fconst F (1 / 10));
               wave = fl_sin F (fmul F (fl_2pi F) (fadd F (fdiv F (of_u64 F k) period) phase));
               v = fmul F (fmul F base level) (fadd F (fadd F 1 (fmul F amp wave)) noise)
           in quantize F v cls (decimals s))"

definition perSweepRate :: "go_float \<Rightarrow> seriesRef \<Rightarrow> rat" where
  "perSweepRate F s = fl_pow F 10 (fsub F (fmul F (frac64 (mix2 (sr_sVal s) 6)) 4) 1)"

definition epochRate :: "go_float \<Rightarrow> seriesRef \<Rightarrow> int \<Rightarrow> rat" where
  "epochRate F s es =
     fl_pow F 10 (fsub F (fmul F (frac64 (mix3 (sr_sVal s) (word_of_int es) 6)) 4) 1)"

text \<open>
  The wobbling ramp \<open>r*e + frac*r*0.9\<close> that the counters, the bucket counts and the summary count
  share.
\<close>

definition ramp :: "go_float \<Rightarrow> rat \<Rightarrow> rat \<Rightarrow> rat \<Rightarrow> rat" where
  "ramp F r e f = fadd F (fmul F r e) (fmul F (fmul F f r) (fconst F (9 / 10)))"

definition counterValue :: "go_float \<Rightarrow> seriesRef \<Rightarrow> u64 \<Rightarrow> int \<Rightarrow> rat" where
  "counterValue F s k es =
     (let e = of_i64 F (i64 (sint k - es));
          cls = series_class F s
      in if cls = ClassIdle
         then of_int \<lfloor>fmul F (fmul F (epochRate F s es) (fconst F (2 / 100))) e\<rfloor>
         else quantize F (ramp F (epochRate F s es) e (frac64 (mix3 (sr_sVal s) k 7))) cls (decimals s))"

definition deltaSumValue :: "go_float \<Rightarrow> seriesRef \<Rightarrow> u64 \<Rightarrow> bool \<Rightarrow> rat" where
  "deltaSumValue F s k monotonic =
     (let cls = series_class F s; h = frac64 (mix3 (sr_sVal s) k 10)
      in if cls = ClassIdle
         then (if h < fconst F (5 / 100)
               then of_int \<lfloor>fadd F 1 (fmul F (frac64 (mix3 (sr_sVal s) k 11)) 4)\<rfloor> else 0)
         else
           let r = perSweepRate F s;
               v = (if monotonic then fmul F r (fadd F (fconst F (1 / 2)) h)
                    else fmul F (fmul F r (fsub F h (fconst F (1 / 2)))) 2)
           in quantize F v cls (decimals s))"

section \<open>Histograms\<close>

definition histShapeOf :: "seriesRef \<Rightarrow> histShape" where
  "histShapeOf s =
     (let shapes = md_histShapes (sr_def s)
      in shapes ! unat (mix2 (sr_sVal s) 11 mod of_nat (length shapes)))"

definition monotoneCount :: "go_float \<Rightarrow> seriesRef \<Rightarrow> u64 \<Rightarrow> int \<Rightarrow> rat \<Rightarrow> u64 \<Rightarrow> u64" where
  "monotoneCount F s k es rate salt =
     (let e = of_i64 F (i64 (sint k - es));
          v = ramp F rate e (frac64 (mix3 (sr_sVal s) k salt))
      in if v < 0 then 0 else to_u64 v)"

definition deltaCount :: "go_float \<Rightarrow> seriesRef \<Rightarrow> u64 \<Rightarrow> rat \<Rightarrow> u64 \<Rightarrow> u64" where
  "deltaCount F s k rate salt =
     to_u64 (fmul F rate (fadd F (fconst F (1 / 2)) (frac64 (mix3 (sr_sVal s) k salt))))"

definition is_cumulative :: "seriesRef \<Rightarrow> bool" where
  "is_cumulative s \<longleftrightarrow> md_temporality (sr_def s) = TemporalityCumulative"

definition point_rate :: "go_float \<Rightarrow> seriesRef \<Rightarrow> int \<Rightarrow> rat" where
  "point_rate F s es = (if is_cumulative s then epochRate F s es else perSweepRate F s)"

definition bucket_count :: "go_float \<Rightarrow> seriesRef \<Rightarrow> u64 \<Rightarrow> int \<Rightarrow> rat \<Rightarrow> u64 \<Rightarrow> u64" where
  "bucket_count F s k es rate salt =
     (if is_cumulative s then monotoneCount F s k es rate salt else deltaCount F s k rate salt)"

text \<open>The running sum of \<open>float64(n) * mid\<close> over the buckets.\<close>

definition add_sum :: "go_float \<Rightarrow> rat \<Rightarrow> u64 \<Rightarrow> rat \<Rightarrow> rat" where
  "add_sum F acc n mid = fadd F acc (fmul F (of_u64 F n) mid)"

definition sub_sum :: "go_float \<Rightarrow> rat \<Rightarrow> u64 \<Rightarrow> rat \<Rightarrow> rat" where
  "sub_sum F acc n mid = fsub F acc (fmul F (of_u64 F n) mid)"

definition hist_counts :: "go_float \<Rightarrow> seriesRef \<Rightarrow> u64 \<Rightarrow> int \<Rightarrow> nat \<Rightarrow> u64 list" where
  "hist_counts F s k es n =
     (let shape = histShapeOf s; rate = point_rate F s es
      in map (\<lambda>l. bucket_count F s k es (fmul F rate (hs_weights shape ! l)) (of_nat l + 16)) [0..<n])"

definition histPoint ::
  "go_float \<Rightarrow> seriesRef \<Rightarrow> u64 \<Rightarrow> int \<Rightarrow> nat \<Rightarrow> u64 list \<times> u64 \<times> rat \<times> rat \<times> rat" where
  "histPoint F s k es n =
     (let shape = histShapeOf s;
          mids = md_mids (sr_def s);
          counts = hist_counts F s k es n;
          total = foldl (+) 0 counts;
          hsum = foldl (\<lambda>acc l. add_sum F acc (counts ! l) (mids ! l)) 0 [0..<n]
      in (counts, total, hsum, fmul F (mids ! hs_minIdx shape) (fconst F (8 / 10)),
          fmul F (mids ! hs_maxIdx shape) (fconst F (12 / 10))))"

section \<open>Exponential histograms\<close>

definition expBucketLens :: "seriesRef \<Rightarrow> nat \<times> nat" where
  "expBucketLens s =
     (let posLen = 8 + unat (mix2 (sr_sVal s) 18 mod 25)
      in (posLen, if md_hasNegative (sr_def s) \<and> mix2 (sr_sVal s) 19 mod 3 = 0
                  then max 2 (posLen div 2) else 0))"

text \<open>\<open>exp_index\<close> is the index of a bucket in the power table, \<open>exp_mid\<close> its midpoint.\<close>

definition exp_index :: "seriesRef \<Rightarrow> int \<Rightarrow> int" where
  "exp_index s bucket = bucket - md_expPowMin (sr_def s)"

definition exp_mid :: "go_float \<Rightarrow> seriesRef \<Rightarrow> int \<Rightarrow> rat" where
  "exp_mid F s bucket =
     (let tab = md_expPow (sr_def s); i = exp_index s bucket
      in fdiv F (fadd F (tab ! nat i) (tab ! nat (i + 1))) 2)"

definition exp_offset :: "seriesRef \<Rightarrow> int" where
  "exp_offset s = md_expPowMin (sr_def s) + int (unat (mix2 (sr_sVal s) 13 mod 40))"

definition exp_weight :: "seriesRef \<Rightarrow> nat \<Rightarrow> rat" where
  "exp_weight s l = (let ws = hs_weights (histShapeOf s) in ws ! (l mod length ws))"

definition exp_pos_counts :: "go_float \<Rightarrow> seriesRef \<Rightarrow> u64 \<Rightarrow> int \<Rightarrow> nat \<Rightarrow> u64 list" where
  "exp_pos_counts F s k es n =
     map (\<lambda>l. bucket_count F s k es (fmul F (point_rate F s es) (exp_weight s l)) (of_nat l + 64)) [0..<n]"

definition exp_neg_counts :: "go_float \<Rightarrow> seriesRef \<Rightarrow> u64 \<Rightarrow> int \<Rightarrow> nat \<Rightarrow> u64 list" where
  "exp_neg_counts F s k es n =
     map (\<lambda>l. bucket_count F s k es
                (fmul F (fmul F (point_rate F s es) (fconst F (1 / 10))) (exp_weight s l))
                (of_nat l + 128)) [0..<n]"

definition exp_zero :: "go_float \<Rightarrow> seriesRef \<Rightarrow> u64 \<Rightarrow> int \<Rightarrow> u64 \<times> rat" where
  "exp_zero F s k es =
     (if mix2 (sr_sVal s) 15 mod 4 = 0
      then (bucket_count F s k es (fmul F (point_rate F s es) (fconst F (1 / 100))) 192,
            if mix2 (sr_sVal s) 17 mod 2 = 0 then fconst F (1 / 1000000000) else 0)
      else (0, 0))"

record expPoint =
  xp_pos :: "u64 list"
  xp_neg :: "u64 list"
  xp_posOffset :: int
  xp_negOffset :: int
  xp_zeroCount :: u64
  xp_zeroThreshold :: rat
  xp_count :: u64
  xp_sum :: rat
  xp_min :: rat
  xp_max :: rat

definition expHistPoint :: "go_float \<Rightarrow> seriesRef \<Rightarrow> u64 \<Rightarrow> int \<Rightarrow> nat \<Rightarrow> nat \<Rightarrow> expPoint" where
  "expHistPoint F s k es posLen negLen =
     (let off = exp_offset s;
          pos = exp_pos_counts F s k es posLen;
          neg = exp_neg_counts F s k es negLen;
          (zc, zt) = exp_zero F s k es;
          possum = foldl (\<lambda>acc l. add_sum F acc (pos ! l) (exp_mid F s (off + int l))) 0 [0..<posLen];
          allsum = foldl (\<lambda>acc l. sub_sum F acc (neg ! l) (exp_mid F s (off + int l))) possum [0..<negLen]
      in \<lparr>xp_pos = pos, xp_neg = neg, xp_posOffset = off,
          xp_negOffset = (if 0 < negLen then off else 0),
          xp_zeroCount = zc, xp_zeroThreshold = zt,
          xp_count = foldl (+) (foldl (+) 0 pos) neg + zc, xp_sum = allsum,
          xp_min = (if 0 < negLen
                    then fmul F (- exp_mid F s (off + int negLen - 1)) (fconst F (12 / 10))
                    else fmul F (exp_mid F s off) (fconst F (8 / 10))),
          xp_max = fmul F (exp_mid F s (off + int posLen - 1)) (fconst F (12 / 10))\<rparr>)"

section \<open>Summaries and exemplars\<close>

definition summary_noise :: "go_float \<Rightarrow> seriesRef \<Rightarrow> u64 \<Rightarrow> rat" where
  "summary_noise F s k =
     (if series_class F s = ClassIdle then 1
      else fadd F 1 (fmul F (fconst F (2 / 10))
             (fsub F (frac64 (mix3 (sr_sVal s) k 22)) (fconst F (1 / 2)))))"

definition summary_latency :: "go_float \<Rightarrow> seriesRef \<Rightarrow> rat" where
  "summary_latency F s = fl_pow F 10 (fsub F (fmul F (frac64 (mix2 (sr_sVal s) 21)) 3) 3)"

definition summary_quantile :: "go_float \<Rightarrow> seriesRef \<Rightarrow> u64 \<Rightarrow> rat \<Rightarrow> rat" where
  "summary_quantile F s k q =
     quantize F (fmul F (fmul F (summary_latency F s) (fadd F 1 (fmul F (fmul F 4 q) q)))
                   (summary_noise F s k)) ClassDecimal (3 + decimals s)"

definition summaryPoint :: "go_float \<Rightarrow> seriesRef \<Rightarrow> u64 \<Rightarrow> int \<Rightarrow> u64 \<times> rat \<times> rat list" where
  "summaryPoint F s k es =
     (let count = monotoneCount F s k es (epochRate F s es) 20
      in (count, fmul F (of_u64 F count) (summary_latency F s),
          map (summary_quantile F s k) (md_quantiles (sr_def s))))"

definition exemplarFor ::
  "go_float \<Rightarrow> seriesRef \<Rightarrow> plan \<Rightarrow> u64 \<Rightarrow> rat \<Rightarrow> (rat \<times> u64 \<times> u64 \<times> u64) option" where
  "exemplarFor F s p k v =
     (if pl_exemplarThresh p = 0 then None
      else let h = mix3 (sr_sVal s) k 0x657865
           in if pl_exemplarThresh p \<le> h then None
              else Some (fmul F v (fadd F (fconst F (1 / 2)) (frac64 (splitmix64 h))),
                         mix3 (sr_sVal s) k 0x74726831, mix3 (sr_sVal s) k 0x74726832,
                         mix3 (sr_sVal s) k 0x7370616e))"

section \<open>Unit fractions: lemmas\<close>

lemma frac64_unit: "0 \<le> frac64 h \<and> frac64 h \<le> 1"
  using frac64_range [of h] by simp

section \<open>Monotone counters: lemmas\<close>

text \<open>
  The ramp never decreases from one sweep to the next, rounding included: the increment is at
  least a tenth of the rate, which dwarfs the rounding errors for rates down to \<open>10^-12\<close> and
  epochs of up to 22,000 sweeps.
\<close>

lemma ramp_upper:
  assumes F: "float_ok F" and r: "1 / 1000000000000 \<le> r" "r \<le> 10000" and e: "0 \<le> e" "e \<le> 22000"
    and f: "0 \<le> f" "f \<le> 1"
  shows "ramp F r e f \<le> r * e + 95 / 100 * r"
proof -
  define p where "p = r * e"
  have p: "0 \<le> p" "p \<le> r * 22000" using r e by (simp_all add: p_def mult_left_mono)
  define a where "a = fmul F r e"
  have a: "a \<le> p + p * rel_err + abs_err"
    unfolding a_def fmul_def p_def [symmetric] by (rule rnd_bounds(1) [OF F]) (use p r in linarith)+
  have fr: "0 \<le> f * r" "f * r \<le> r" using f r by (simp_all add: mult_left_le_one_le)
  define b where "b = fmul F f r"
  have b: "b \<le> r + r * rel_err + abs_err"
    using rnd_bounds(1) [OF F fr(1)] fr r unfolding b_def fmul_def by linarith
  have b0: "0 \<le> b" unfolding b_def fmul_def by (rule rnd_nonneg [OF F fr(1)])
  define c where "c = fconst F (9 / 10)"
  have c: "c \<le> 9001 / 10000" using rnd_bounds(1) [OF F, of "9 / 10"] by (simp add: c_def fconst_def)
  have c0: "0 \<le> c" unfolding c_def fconst_def by (rule rnd_nonneg [OF F]) simp
  define b' where "b' = r + r * rel_err + abs_err"
  have "b * c \<le> b' * (9001 / 10000)"
    using b b0 c c0 by (intro mult_mono) (simp_all add: b'_def)
  then have bc: "b * c \<le> 9002 / 10000 * r" using r unfolding b'_def by (simp add: field_simps)
  define q where "q = b * c"
  have q: "0 \<le> q" "q \<le> 9002 / 10000 * r" using b0 c0 bc by (simp_all add: q_def)
  define w where "w = fmul F b c"
  have w: "w \<le> q + q * rel_err + abs_err"
    unfolding w_def fmul_def q_def [symmetric] by (rule rnd_bounds(1) [OF F q(1)]) (use q r in linarith)
  have w0: "0 \<le> w" unfolding w_def fmul_def q_def [symmetric] by (rule rnd_nonneg [OF F q(1)])
  have a0: "0 \<le> a" unfolding a_def fmul_def p_def [symmetric] by (rule rnd_nonneg [OF F p(1)])
  define s where "s = a + w"
  have s: "0 \<le> s" "s \<le> p + p * rel_err + abs_err + (q + q * rel_err + abs_err)"
    using a0 w0 a w by (simp_all add: s_def)
  have "ramp F r e f \<le> s + s * rel_err + abs_err"
    unfolding ramp_def fadd_def a_def [symmetric] b_def [symmetric] c_def [symmetric]
      w_def [symmetric] s_def [symmetric]
    by (rule rnd_bounds(1) [OF F s(1)]) (use s q r p in linarith)
  then show ?thesis using s q p r unfolding p_def [symmetric] by linarith
qed

lemma ramp_lower:
  assumes F: "float_ok F" and r: "1 / 1000000000000 \<le> r" "r \<le> 10000" and e: "0 \<le> e" "e \<le> 22000"
    and f: "0 \<le> f"
  shows "r * e - r / 1000 \<le> ramp F r e f"
proof -
  define p where "p = r * e"
  have p: "0 \<le> p" "p \<le> r * 22000" using r e by (simp_all add: p_def mult_left_mono)
  define a where "a = fmul F r e"
  have a: "p - p * rel_err - abs_err \<le> a" "a \<le> p + p * rel_err + abs_err"
    unfolding a_def fmul_def p_def [symmetric] by (rule rnd_bounds [OF F]; use p r in linarith)+
  have a0: "0 \<le> a" unfolding a_def fmul_def p_def [symmetric] by (rule rnd_nonneg [OF F p(1)])
  have "0 \<le> fconst F (9 / 10)" unfolding fconst_def by (rule rnd_nonneg [OF F]) simp
  then have "0 \<le> fmul F (fmul F f r) (fconst F (9 / 10))"
    using f r by (auto simp: fmul_def intro!: rnd_nonneg [OF F] mult_nonneg_nonneg)
  then have "fl_rnd F a \<le> ramp F r e f"
    unfolding ramp_def fadd_def a_def by (intro rnd_mono [OF F]) simp
  moreover have "a - a * rel_err - abs_err \<le> fl_rnd F a"
    by (rule rnd_bounds(2) [OF F a0]) (use a p r in linarith)
  ultimately show ?thesis using a p r unfolding p_def [symmetric] by linarith
qed

lemma ramp_step:
  assumes "float_ok F" and "1 / 1000000000000 \<le> r" "r \<le> 10000" and "0 \<le> e" "e + 1 \<le> 22000"
    and "0 \<le> f" "f \<le> 1" "0 \<le> f'"
  shows "ramp F r e f \<le> ramp F r (e + 1) f'"
  using ramp_upper [OF assms(1-4) _ assms(6,7)] ramp_lower [OF assms(1-3) _ assms(5,8)] assms
  by (simp add: algebra_simps)

lemma go_round_mono: "x \<le> y \<Longrightarrow> go_round x \<le> go_round y"
  unfolding go_round_def by (auto intro!: floor_mono split: if_splits) linarith+

lemma pow10_pos: "d < 7 \<Longrightarrow> 0 < pow10 ! d"
  by (auto simp: pow10_def less_Suc_eq numeral_eq_Suc)

lemma quantize_mono:
  assumes "float_ok F" and "d < 7" and "x \<le> y"
  shows "quantize F x cls d \<le> quantize F y cls d"
proof (cases cls)
  case ClassDecimal
  have "fmul F x (pow10 ! d) \<le> fmul F y (pow10 ! d)"
    unfolding fmul_def using assms pow10_pos [OF assms(2)]
    by (intro rnd_mono [OF assms(1)] mult_right_mono) auto
  then have "go_round (fmul F x (pow10 ! d)) \<le> go_round (fmul F y (pow10 ! d))"
    by (rule go_round_mono)
  then show ?thesis
    using ClassDecimal pow10_pos [OF assms(2)] assms(1)
    by (auto simp: quantize_def Let_def fdiv_def intro!: rnd_mono divide_right_mono)
qed (use assms in \<open>auto simp: quantize_def intro: floor_mono\<close>)

lemma decimals_range: "1 \<le> decimals s \<and> decimals s \<le> 3"
proof -
  have "unat (mix2 (sr_sVal s) 31 mod 3) < 3" by (simp add: unat_mod_distrib)
  then show ?thesis by (simp add: decimals_def)
qed

text \<open>The rates of an epoch and of a sweep lie between a sixteenth and 1024 events per sweep.\<close>

lemma pow_arg:
  assumes "float_ok F"
  shows "-1 \<le> fsub F (fmul F (frac64 h) 4) 1 \<and> fsub F (fmul F (frac64 h) 4) 1 \<le> 3"
proof -
  have i: "fl_rnd F 4 = 4" "fl_rnd F 3 = 3" "fl_rnd F (- 1) = - 1"
    using rnd_int [OF assms, of 4] rnd_int [OF assms, of 3] rnd_int [OF assms, of "- 1"] by simp_all
  have "0 \<le> fmul F (frac64 h) 4" "fmul F (frac64 h) 4 \<le> 4"
    using rnd_nonneg [OF assms, of "frac64 h * 4"] rnd_mono [OF assms, of "frac64 h * 4" 4]
      frac64_unit [of h] i by (simp_all add: fmul_def)
  then show ?thesis
    using rnd_mono [OF assms, of "- 1" "fmul F (frac64 h) 4 - 1"]
      rnd_mono [OF assms, of "fmul F (frac64 h) 4 - 1" 3] i by (simp add: fsub_def)
qed

lemma epochRate_range: "float_ok F \<Longrightarrow> 1 / 16 \<le> epochRate F s es \<and> epochRate F s es \<le> 1024"
  using pow_arg [of F "mix3 (sr_sVal s) (word_of_int es) 6"]
  unfolding epochRate_def float_ok_def by blast

lemma perSweepRate_range: "float_ok F \<Longrightarrow> 1 / 16 \<le> perSweepRate F s \<and> perSweepRate F s \<le> 1024"
  using pow_arg [of F "mix2 (sr_sVal s) 6"] unfolding perSweepRate_def float_ok_def by blast

text \<open>Two consecutive sweeps of one epoch: the elapsed time goes from \<open>e\<close> to \<open>e + 1\<close>.\<close>

definition same_epoch :: "plan \<Rightarrow> seriesRef \<Rightarrow> u64 \<Rightarrow> bool" where
  "same_epoch p s k \<longleftrightarrow> epoch_fits p (k + 1) \<and> unat k < 4611686018427387903 \<and>
     epochStart s p (k + 1) = epochStart s p k"

lemma same_epoch_elapsed:
  assumes F: "float_ok F" and same: "same_epoch p s k"
  defines "e \<equiv> of_i64 F (i64 (sint k - epochStart s p k))"
  shows "0 \<le> e \<and> e + 1 \<le> 22000 \<and> of_i64 F (i64 (sint (k + 1) - epochStart s p k)) = e + 1"
proof -
  let ?es = "epochStart s p k"
  have fits: "epoch_fits p (k + 1)" and k: "unat k < 4611686018427387903"
    and eq: "epochStart s p (k + 1) = ?es" using same by (simp_all add: same_epoch_def)
  note step = epochStart_next [OF fits k, of s]
  have k1: "unat (k + 1) = Suc (unat k)" using k unat_add64 [of k 1] by simp
  have sk: "sint k = int (unat k)" and sk1: "sint (k + 1) = int (unat k) + 1"
    using k k1 by (simp_all add: sint_small)
  have d: "0 \<le> sint k - ?es" "sint k - ?es < 21999"
  proof -
    show "0 \<le> sint k - ?es" using step sk by simp
    show "sint k - ?es < 21999"
      using epochStart_range [OF fits, of s] step sk k1 eq by simp
  qed
  have r: "i64 (sint k - ?es) = sint k - ?es" "i64 (sint (k + 1) - ?es) = sint k - ?es + 1"
    using d sk sk1 by (auto simp: in_i64_def algebra_simps intro!: i64_nat_id)
  have "of_i64 F (sint k - ?es) = of_int (sint k - ?es)"
    unfolding of_i64_def by (rule rnd_int [OF F]) (use d in linarith)
  moreover have "of_i64 F (sint k - ?es + 1) = of_int (sint k - ?es + 1)"
    unfolding of_i64_def by (rule rnd_int [OF F]) (use d in linarith)
  moreover have "(0 :: rat) \<le> of_int (sint k - ?es)" using d(1) by (simp only: of_int_0_le_iff)
  moreover have "of_int (sint k - ?es) \<le> (21999 :: rat)" using d by linarith
  ultimately show ?thesis using r by (simp add: e_def)
qed

section \<open>Examples\<close>

text \<open>A plan without churn and two series.\<close>

definition still_plan :: plan where
  "still_plan = sample_plan\<lparr>pl_lifetimeSwps := 0\<rparr>"

definition sample_series :: seriesRef where
  "sample_series = makeSeriesRef sample_metric 3 10"

definition sample_histogram :: metricDef where
  "sample_histogram = sample_metric\<lparr>md_typ := TypeHistogram, md_bounds := [1, 5],
     md_mids := bucketMids [1, 5],
     md_histShapes := replicate 24 \<lparr>hs_weights = [1/2, 1/4, 1/4], hs_minIdx = 0, hs_maxIdx = 2\<rparr>\<rparr>"

definition histogram_series :: seriesRef where
  "histogram_series = makeSeriesRef sample_histogram 3 10"

lemma sample_phase: "unat (resetPhase sample_series) = 665" "unat (resetPeriod sample_series) = 11351"
  by code_simp+

lemma sVal_phase:
  "sr_sVal s = sr_sVal t \<Longrightarrow> resetPhase s = resetPhase t \<and> resetPeriod s = resetPeriod t"
  by (simp add: resetPhase_def resetPeriod_def)

lemma still_start: "generationStart still_plan r k = 0"
  by (simp add: generationStart_def still_plan_def)

lemma still_epoch:
  assumes "sr_sVal s = sr_sVal sample_series"
  shows "same_epoch still_plan s 1"
proof -
  have f: "epoch_fits still_plan 1" "epoch_fits still_plan 2"
    by (simp_all add: epoch_fits_def sweep_fits_def still_plan_def)
  have "epochStart s still_plan 1 = 0" "epochStart s still_plan 2 = 0"
    using sVal_phase [OF assms] sample_phase
    by (simp_all add: epochStart_max [OF f(1)] epochStart_max [OF f(2)] still_start)
  with f show ?thesis by (simp add: same_epoch_def)
qed

text \<open>
  A cumulative counter never decreases within a reset epoch, whatever the precision class of
  the series and with every float operation rounded: rates and queries over the stored points
  are never negative between two resets.
\<close>

theorem counterValue_monotone:
  assumes F: "float_ok F" and same: "same_epoch p s k"
  shows "counterValue F s k (epochStart s p k) \<le>
         counterValue F s (k + 1) (epochStart s p (k + 1))"
proof -
  define es where "es = epochStart s p k"
  define e where "e = of_i64 F (i64 (sint k - es))"
  have es': "epochStart s p (k + 1) = es" using same by (simp add: same_epoch_def es_def)
  have e: "0 \<le> e" "e + 1 \<le> 22000" and e1: "of_i64 F (i64 (sint (k + 1) - es)) = e + 1"
    using same_epoch_elapsed [OF F same] by (simp_all add: e_def es_def)
  define r where "r = epochRate F s es"
  have r: "1 / 16 \<le> r" "r \<le> 1024" using epochRate_range [OF F] by (simp_all add: r_def)
  show ?thesis
  proof (cases "series_class F s = ClassIdle")
    case True
    have "0 \<le> fmul F r (fconst F (2 / 100))"
      using r by (auto simp: fmul_def fconst_def intro!: rnd_nonneg [OF F] mult_nonneg_nonneg)
    then have "fmul F (fmul F r (fconst F (2 / 100))) e \<le> fmul F (fmul F r (fconst F (2 / 100))) (e + 1)"
      unfolding fmul_def [of F _ e] fmul_def [of F _ "e + 1"]
      by (intro rnd_mono [OF F] mult_left_mono) simp_all
    then have "\<lfloor>fmul F (fmul F r (fconst F (2 / 100))) e\<rfloor> \<le>
        \<lfloor>fmul F (fmul F r (fconst F (2 / 100))) (e + 1)\<rfloor>" by (rule floor_mono)
    then show ?thesis
      using True by (simp add: counterValue_def Let_def es' es_def [symmetric] e_def [symmetric] e1
          r_def [symmetric])
  next
    case False
    have "ramp F r e (frac64 (mix3 (sr_sVal s) k 7)) \<le>
        ramp F r (e + 1) (frac64 (mix3 (sr_sVal s) (k + 1) 7))"
      using r e frac64_unit by (intro ramp_step [OF F]) (simp_all add: frac64_unit)
    then have "quantize F (ramp F r e (frac64 (mix3 (sr_sVal s) k 7))) (series_class F s) (decimals s) \<le>
        quantize F (ramp F r (e + 1) (frac64 (mix3 (sr_sVal s) (k + 1) 7))) (series_class F s) (decimals s)"
      using decimals_range [of s] by (intro quantize_mono [OF F]) auto
    then show ?thesis
      using False by (simp add: counterValue_def Let_def es' es_def [symmetric] e_def [symmetric] e1
          r_def [symmetric])
  qed
qed

theorem counterValue_monotone_witness:
  "counterValue exact_float sample_series 1 (epochStart sample_series still_plan 1) \<le>
   counterValue exact_float sample_series (1 + 1) (epochStart sample_series still_plan (1 + 1))"
  by (rule counterValue_monotone [OF exact_float_ok still_epoch [OF refl]])

section \<open>Monotone bucket counts: lemmas\<close>

lemma ramp_nonneg:
  assumes "float_ok F" and "0 \<le> r" "0 \<le> e" "0 \<le> f"
  shows "0 \<le> ramp F r e f"
  using assms(2-) unfolding ramp_def fadd_def fmul_def fconst_def
  by (intro rnd_nonneg [OF assms(1)] add_nonneg_nonneg mult_nonneg_nonneg) simp_all

lemma ramp_rate_mono:
  assumes F: "float_ok F" and "0 \<le> r" "r \<le> r'" and "0 \<le> e" and "0 \<le> f"
  shows "ramp F r e f \<le> ramp F r' e f"
proof -
  have "fmul F r e \<le> fmul F r' e" "fmul F f r \<le> fmul F f r'"
    unfolding fmul_def using assms by (auto intro!: rnd_mono [OF F] mult_left_mono mult_right_mono)
  moreover have "0 \<le> fconst F (9 / 10)" unfolding fconst_def by (rule rnd_nonneg [OF F]) simp
  ultimately have "fmul F (fmul F f r) (fconst F (9 / 10)) \<le> fmul F (fmul F f r') (fconst F (9 / 10))"
    unfolding fmul_def [of F "fmul F f _"] by (intro rnd_mono [OF F] mult_right_mono)
  with \<open>fmul F r e \<le> fmul F r' e\<close> show ?thesis
    unfolding ramp_def fadd_def by (intro rnd_mono [OF F] add_mono)
qed

lemma ramp_bound:
  assumes F: "float_ok F" and "0 \<le> r" "r \<le> 1024" and "0 \<le> e" "e \<le> 22000" and "0 \<le> f" "f \<le> 1"
  shows "ramp F r e f \<le> 23000000"
proof -
  have "ramp F r e f \<le> ramp F 1024 e f" using assms by (intro ramp_rate_mono)
  also have "\<dots> \<le> 1024 * e + 95 / 100 * 1024" using assms by (intro ramp_upper) simp_all
  also have "\<dots> \<le> 23000000" using assms by simp
  finally show ?thesis .
qed

lemma floor_ramp_step:
  assumes F: "float_ok F" and r: "0 \<le> r" "r \<le> 1024" and e: "0 \<le> e" "e + 1 \<le> 22000"
    and f: "0 \<le> f" "f \<le> 1" "0 \<le> f'"
  shows "\<lfloor>ramp F r e f\<rfloor> \<le> \<lfloor>ramp F r (e + 1) f'\<rfloor>"
proof (cases "1 / 1000000000000 \<le> r")
  case True
  then show ?thesis using assms by (intro floor_mono ramp_step) auto
next
  case False
  then have "ramp F r e f \<le> ramp F (1 / 1000000000000) e f"
    using assms by (intro ramp_rate_mono) auto
  also have "\<dots> \<le> 1 / 1000000000000 * e + 95 / 100 * (1 / 1000000000000)"
    using assms by (intro ramp_upper) auto
  also have "\<dots> < 1" using e by simp
  finally have "\<lfloor>ramp F r e f\<rfloor> \<le> 0" using ramp_nonneg [OF F r(1) e(1) f(1)] by linarith
  moreover have "0 \<le> \<lfloor>ramp F r (e + 1) f'\<rfloor>" using ramp_nonneg [OF F r(1) _ f(3), of "e + 1"] e by simp
  ultimately show ?thesis by linarith
qed

lemma unat_to_u64:
  assumes "0 \<le> v" and "v \<le> 23000000"
  shows "unat (to_u64 v) = nat \<lfloor>v\<rfloor> \<and> unat (to_u64 v) \<le> 23000000"
proof -
  have "0 \<le> \<lfloor>v\<rfloor>" "\<lfloor>v\<rfloor> \<le> 23000000" using assms by (simp_all add: floor_le_iff)
  then have "unat (to_u64 v) = nat \<lfloor>v\<rfloor>" unfolding to_u64_def by (intro unat_of_int64) auto
  moreover have "nat \<lfloor>v\<rfloor> \<le> 23000000" using \<open>\<lfloor>v\<rfloor> \<le> 23000000\<close> by linarith
  ultimately show ?thesis by linarith
qed

lemma monotoneCount_step:
  assumes F: "float_ok F" and same: "same_epoch p s k" and r: "0 \<le> r" "r \<le> 1024"
  shows "unat (monotoneCount F s k (epochStart s p k) r salt) \<le>
      unat (monotoneCount F s (k + 1) (epochStart s p k) r salt) \<and>
    unat (monotoneCount F s (k + 1) (epochStart s p k) r salt) \<le> 23000000"
proof -
  define es where "es = epochStart s p k"
  define e where "e = of_i64 F (i64 (sint k - es))"
  have e: "0 \<le> e" "e + 1 \<le> 22000" and e1: "of_i64 F (i64 (sint (k + 1) - es)) = e + 1"
    using same_epoch_elapsed [OF F same] by (simp_all add: e_def es_def)
  let ?f = "frac64 (mix3 (sr_sVal s) k salt)" and ?f' = "frac64 (mix3 (sr_sVal s) (k + 1) salt)"
  note f = frac64_unit [of "mix3 (sr_sVal s) k salt"] frac64_unit [of "mix3 (sr_sVal s) (k + 1) salt"]
  have v: "0 \<le> ramp F r e ?f" "ramp F r e ?f \<le> 23000000"
    using e f by (auto intro!: ramp_nonneg [OF F r(1)] ramp_bound [OF F r])
  have v': "0 \<le> ramp F r (e + 1) ?f'" "ramp F r (e + 1) ?f' \<le> 23000000"
    using e f by (auto intro!: ramp_nonneg [OF F r(1)] ramp_bound [OF F r])
  have m: "monotoneCount F s k es r salt = to_u64 (ramp F r e ?f)"
    "monotoneCount F s (k + 1) es r salt = to_u64 (ramp F r (e + 1) ?f')"
    using v(1) v'(1) by (simp_all add: monotoneCount_def Let_def e_def [symmetric] e1)
  have "\<lfloor>ramp F r e ?f\<rfloor> \<le> \<lfloor>ramp F r (e + 1) ?f'\<rfloor>"
    using f by (intro floor_ramp_step [OF F r e]) auto
  then show ?thesis
    unfolding es_def [symmetric] m using unat_to_u64 [OF v] unat_to_u64 [OF v'] by simp
qed

lemma sum_list_weights_le_one:
  fixes ws :: "rat list"
  assumes "\<forall>w \<in> set ws. 0 \<le> w" and "sum_list ws = 1" and "l < length ws"
  shows "0 \<le> ws ! l \<and> ws ! l \<le> 1"
proof -
  have "ws = take l ws @ ws ! l # drop (Suc l) ws" using assms(3) by (rule id_take_nth_drop)
  then have "sum_list ws = sum_list (take l ws) + ws ! l + sum_list (drop (Suc l) ws)"
    by (metis sum_list_append sum_list.Cons add.assoc)
  moreover have "0 \<le> sum_list (take l ws)" "0 \<le> sum_list (drop (Suc l) ws)"
    using assms(1) by (auto intro!: sum_list_nonneg dest: in_set_takeD in_set_dropD)
  moreover have "0 \<le> ws ! l" using assms(1,3) by simp
  ultimately show ?thesis using assms(2) by linarith
qed

lemma bucket_rate_range:
  assumes F: "float_ok F" and w: "0 \<le> w" "w \<le> 1" and r: "0 \<le> r" "r \<le> 1024"
  shows "0 \<le> fmul F r w \<and> fmul F r w \<le> 1024"
proof -
  have "r * w \<le> 1024" using r w mult_mono [of r 1024 w 1] by simp
  moreover have "fl_rnd F 1024 = 1024" using rnd_int [OF F, of 1024] by simp
  ultimately show ?thesis
    using rnd_mono [OF F, of "r * w" 1024] r w by (simp add: fmul_def rnd_nonneg [OF F])
qed

lemma histShapeOf_mem:
  assumes "md_histShapes (sr_def s) \<noteq> []" and "length (md_histShapes (sr_def s)) < 18446744073709551616"
  shows "histShapeOf s \<in> set (md_histShapes (sr_def s))"
proof -
  let ?n = "length (md_histShapes (sr_def s))"
  have "unat (mix2 (sr_sVal s) 11 mod of_nat ?n) < ?n"
    using assms by (simp add: unat_mod_distrib unat_of_nat64)
  then show ?thesis by (simp add: histShapeOf_def Let_def)
qed

lemma foldl_add_start: "foldl (+) a (ws :: u64 list) = a + foldl (+) 0 ws"
proof (induction ws arbitrary: a)
  case (Cons w ws)
  show ?case by (simp add: Cons.IH [of "a + w"] Cons.IH [of w] add.assoc)
qed simp

text \<open>Adding up counts that cannot wrap.\<close>

lemma unat_total:
  fixes ws :: "u64 list"
  assumes "\<forall>w \<in> set ws. unat w \<le> 23000000" and "length ws \<le> 1000"
  shows "unat (foldl (+) 0 ws) = sum_list (map unat ws)"
proof -
  have "unat (foldl (+) 0 ws) = sum_list (map unat ws) \<and> sum_list (map unat ws) \<le> 23000000 * length ws"
    using assms
  proof (induction ws)
    case Nil
    then show ?case by simp
  next
    case (Cons w ws)
    then have ih: "unat (foldl (+) 0 ws) = sum_list (map unat ws)"
      "sum_list (map unat ws) \<le> 23000000 * length ws" and w: "unat w \<le> 23000000" by simp_all
    have "unat (w + foldl (+) 0 ws) = unat w + unat (foldl (+) 0 ws)"
      using ih w Cons.prems(2) by (intro unat_add64) simp
    then show ?case using ih w foldl_add_start [of w ws] by simp
  qed
  then show ?thesis by simp
qed

lemma hist_counts_step:
  assumes F: "float_ok F" and same: "same_epoch p s k" and cum: "is_cumulative s"
    and ok: "shape_ok n (histShapeOf s)"
  shows "length (hist_counts F s k' es n) = n"
    and "l < n \<Longrightarrow> unat (hist_counts F s k (epochStart s p k) n ! l) \<le>
        unat (hist_counts F s (k + 1) (epochStart s p k) n ! l) \<and>
      unat (hist_counts F s (k + 1) (epochStart s p k) n ! l) \<le> 23000000"
proof -
  show "length (hist_counts F s k' es n) = n" by (simp add: hist_counts_def Let_def)
  assume l: "l < n"
  let ?r = "epochRate F s (epochStart s p k)" and ?w = "hs_weights (histShapeOf s) ! l"
  have "0 \<le> ?w \<and> ?w \<le> 1"
    using ok l by (intro sum_list_weights_le_one) (simp_all add: shape_ok_def)
  then have "0 \<le> fmul F ?r ?w \<and> fmul F ?r ?w \<le> 1024"
    using epochRate_range [OF F, of s "epochStart s p k"] by (intro bucket_rate_range [OF F]) auto
  then show "unat (hist_counts F s k (epochStart s p k) n ! l) \<le>
        unat (hist_counts F s (k + 1) (epochStart s p k) n ! l) \<and>
      unat (hist_counts F s (k + 1) (epochStart s p k) n ! l) \<le> 23000000"
    using monotoneCount_step [OF F same, of "fmul F ?r ?w" "of_nat l + 16"] l cum
    by (simp add: hist_counts_def Let_def point_rate_def bucket_count_def)
qed

text \<open>
  A cumulative histogram is consistent from point to point: within a reset epoch no bucket
  count ever decreases, the total never decreases, and the total is the exact sum of the bucket
  counts (no wrap-around), for every histogram metric of a plan.
\<close>

theorem histPoint_cumulative:
  assumes F: "float_ok F" and same: "same_epoch p s k" and cum: "is_cumulative s"
    and hist: "md_typ (sr_def s) = TypeHistogram" and ok: "metric_type_ok (sr_def s)"
    and n: "n = length (md_bounds (sr_def s)) + 1" "n \<le> 1000"
    and pt: "histPoint F s k (epochStart s p k) n = (counts, cnt, hsum, mn, mx)"
    and pt': "histPoint F s (k + 1) (epochStart s p (k + 1)) n = (counts', cnt', hsum', mn', mx')"
  shows "length counts = n \<and> list_all2 (\<le>) counts counts' \<and> cnt \<le> cnt' \<and>
    unat cnt = sum_list (map unat counts)"
proof -
  have es': "epochStart s p (k + 1) = epochStart s p k" using same by (simp add: same_epoch_def)
  have shapes: "length (md_histShapes (sr_def s)) = 24"
    "\<forall>h \<in> set (md_histShapes (sr_def s)). shape_ok n h"
    using ok hist n by (simp_all add: metric_type_ok_def)
  then have "histShapeOf s \<in> set (md_histShapes (sr_def s))"
    by (intro histShapeOf_mem) auto
  with shapes have "shape_ok n (histShapeOf s)" by blast
  note step = hist_counts_step [OF F same cum this]
  have c: "counts = hist_counts F s k (epochStart s p k) n" "cnt = foldl (+) 0 counts"
    "counts' = hist_counts F s (k + 1) (epochStart s p k) n" "cnt' = foldl (+) 0 counts'"
    using pt pt' es' by (auto simp: histPoint_def Let_def)
  have len: "length counts = n" "length counts' = n" unfolding c(1,3) by (rule step(1))+
  have le: "\<forall>l < n. unat (counts ! l) \<le> unat (counts' ! l) \<and> unat (counts' ! l) \<le> 23000000"
    using step(2) unfolding c(1,3) by blast
  then have "\<forall>w \<in> set counts'. unat w \<le> 23000000" "\<forall>w \<in> set counts. unat w \<le> 23000000"
    using len by (auto simp: in_set_conv_nth) (meson order_trans)
  then have tot: "unat cnt = sum_list (map unat counts)" "unat cnt' = sum_list (map unat counts')"
    unfolding c(2,4) using unat_total len n(2) by simp_all
  have "sum_list (map unat counts) \<le> sum_list (map unat counts')"
    using le len by (auto simp: sum_list_sum_nth intro!: sum_mono)
  then show ?thesis
    using tot len le by (simp add: word_le_nat_alt list_all2_conv_all_nth)
qed

theorem histPoint_cumulative_witness:
  "\<exists>counts cnt rest counts' cnt' rest'.
     histPoint exact_float histogram_series 1 (epochStart histogram_series still_plan 1) 3 = (counts, cnt, rest) \<and>
     histPoint exact_float histogram_series (1 + 1) (epochStart histogram_series still_plan (1 + 1)) 3 =
       (counts', cnt', rest') \<and>
     length counts = 3 \<and> list_all2 (\<le>) counts counts' \<and> cnt \<le> cnt'"
proof -
  have s: "sr_sVal histogram_series = sr_sVal sample_series"
    by (simp add: histogram_series_def sample_series_def makeSeriesRef_def sample_histogram_def Let_def)
  have d: "sr_def histogram_series = sample_histogram"
    by (simp add: histogram_series_def makeSeriesRef_def Let_def)
  have cum: "is_cumulative histogram_series"
    by (simp add: is_cumulative_def d sample_histogram_def sample_metric_def)
  have ok: "metric_type_ok (sr_def histogram_series)" "md_typ (sr_def histogram_series) = TypeHistogram"
    "3 = length (md_bounds (sr_def histogram_series)) + 1"
    by (simp_all add: d metric_type_ok_def sample_histogram_def sample_metric_def length_bucketMids shape_ok_def)
  obtain c t h mn mx where pt: "histPoint exact_float histogram_series 1
      (epochStart histogram_series still_plan 1) 3 = (c, t, h, mn, mx)" by (metis prod_cases5)
  obtain c' t' h' mn' mx' where pt': "histPoint exact_float histogram_series (1 + 1)
      (epochStart histogram_series still_plan (1 + 1)) 3 = (c', t', h', mn', mx')" by (metis prod_cases5)
  note histPoint_cumulative [OF exact_float_ok still_epoch [OF s] cum ok(2,1,3) _ pt pt']
  then show ?thesis using pt pt' by auto
qed

section \<open>Exponential histograms and summaries: lemmas\<close>

lemma expBucketLens_range:
  assumes "expBucketLens s = (posLen, negLen)"
  shows "8 \<le> posLen \<and> posLen \<le> 32 \<and> (negLen = 0 \<or> 2 \<le> negLen \<and> negLen \<le> 16)"
proof -
  have "unat (mix2 (sr_sVal s) 18 mod 25) < 25" by (simp add: unat_mod_distrib)
  then show ?thesis using assms by (auto simp: expBucketLens_def Let_def split: if_splits)
qed

text \<open>
  No bucket of an exponential histogram point leaves the power table: the windows have 8 to
  32 and at most 16 buckets, and for every bucket of either window (the minimum and the maximum
  are taken from the first and last of them) both table entries that its midpoint averages exist.
\<close>

theorem exp_index_in_table:
  assumes "md_typ (sr_def s) = TypeExpHistogram" and "metric_type_ok (sr_def s)"
    and "expBucketLens s = (posLen, negLen)" and "l < posLen \<or> l < negLen"
  shows "0 \<le> exp_index s (exp_offset s + int l) \<and>
    exp_index s (exp_offset s + int l) + 1 < int (length (md_expPow (sr_def s))) \<and>
    8 \<le> posLen \<and> posLen \<le> 32 \<and> negLen \<le> 16"
proof -
  have "length (md_expPow (sr_def s)) = 80" using assms(1,2) by (simp add: metric_type_ok_def)
  moreover have "unat (mix2 (sr_sVal s) 13 mod 40) < 40" by (simp add: unat_mod_distrib)
  moreover note expBucketLens_range [OF assms(3)]
  ultimately show ?thesis using assms(4) by (auto simp: exp_index_def exp_offset_def)
qed

definition sample_exp :: metricDef where
  "sample_exp = sample_metric\<lparr>md_typ := TypeExpHistogram, md_hasNegative := True,
     md_expPowMin := - 20, md_expPow := replicate 80 1,
     md_histShapes := replicate 24 \<lparr>hs_weights = 1 # replicate 31 0, hs_minIdx = 0, hs_maxIdx = 0\<rparr>\<rparr>"

theorem exp_index_in_table_witness:
  "0 \<le> exp_index (makeSeriesRef sample_exp 3 10) (exp_offset (makeSeriesRef sample_exp 3 10) + int 7) \<and>
   exp_index (makeSeriesRef sample_exp 3 10) (exp_offset (makeSeriesRef sample_exp 3 10) + int 7) + 1 <
     int (length (md_expPow (sr_def (makeSeriesRef sample_exp 3 10))))"
proof -
  let ?s = "makeSeriesRef sample_exp 3 10"
  have d: "sr_def ?s = sample_exp" by (simp add: makeSeriesRef_def Let_def)
  obtain m n where mn: "expBucketLens ?s = (m, n)" by (rule prod.exhaust)
  have "md_typ (sr_def ?s) = TypeExpHistogram" "metric_type_ok (sr_def ?s)"
    unfolding d
    by (simp_all add: sample_exp_def sample_metric_def metric_type_ok_def shape_ok_def sum_list_replicate)
  moreover have "7 < m \<or> 7 < n" using expBucketLens_range [OF mn] by simp
  ultimately show ?thesis using exp_index_in_table [OF _ _ mn, of 7] by blast
qed

text \<open>
  The quantile values of a summary point are ordered: with the quantile levels of the
  metric sorted, so are the values reported for them, and none is negative.
\<close>

theorem summary_quantiles_sorted:
  assumes F: "float_ok F" and "sorted (md_quantiles (sr_def s))"
    and "\<forall>q \<in> set (md_quantiles (sr_def s)). 0 \<le> q"
    and pt: "summaryPoint F s k es = (cnt, sm, qs)"
  shows "sorted qs \<and> length qs = length (md_quantiles (sr_def s)) \<and> (\<forall>v \<in> set qs. 0 \<le> v)"
proof -
  have noise: "0 \<le> summary_noise F s k"
  proof -
    let ?f = "frac64 (mix3 (sr_sVal s) k 22)"
    have c: "fl_rnd F (- 1) = - 1" "fconst F (1 / 2) = 1 / 2"
      using rnd_int [OF F, of "- 1"] F unfolding float_ok_def fconst_def by auto
    have x: "- 1 \<le> fsub F ?f (1 / 2)"
      using rnd_mono [OF F, of "- 1" "?f - 1 / 2"] frac64_unit [of "mix3 (sr_sVal s) k 22"] c(1)
      by (simp add: fsub_def)
    have y: "0 \<le> fconst F (2 / 10)" "fconst F (2 / 10) \<le> 1"
      using rnd_nonneg [OF F, of "2 / 10"] rnd_mono [OF F, of "2 / 10" 1] rnd_int [OF F, of 1]
      by (simp_all add: fconst_def)
    have "0 \<le> fconst F (2 / 10) * (fsub F ?f (1 / 2) + 1)"
      using x y by (intro mult_nonneg_nonneg) linarith+
    then have "- 1 \<le> fconst F (2 / 10) * fsub F ?f (1 / 2)"
      using y by (simp add: distrib_left)
    then have "- 1 \<le> fmul F (fconst F (2 / 10)) (fsub F ?f (1 / 2))"
      unfolding fmul_def using rnd_mono [OF F] c(1) by metis
    then have "0 \<le> fl_rnd F (1 + fmul F (fconst F (2 / 10)) (fsub F ?f (1 / 2)))"
      by (intro rnd_nonneg [OF F]) linarith
    then show ?thesis unfolding summary_noise_def fadd_def c(2) by simp
  qed
  have lat: "0 \<le> summary_latency F s" using F unfolding summary_latency_def float_ok_def by blast
  define raw where "raw q = fmul F (fmul F (summary_latency F s) (fadd F 1 (fmul F (fmul F 4 q) q)))
      (summary_noise F s k)" for q
  have mono: "raw q \<le> raw q' \<and> 0 \<le> raw q" if "0 \<le> q" "q \<le> q'" for q q'
    unfolding raw_def fmul_def fadd_def using that noise lat
    by (auto intro!: rnd_mono [OF F] rnd_nonneg [OF F] mult_mono mult_nonneg_nonneg add_nonneg_nonneg)
  have d: "3 + decimals s < 7" using decimals_range [of s] by simp
  have "\<lfloor>1 / 2 :: rat\<rfloor> = 0" by (rule floor_unique) simp_all
  then have q0: "quantize F 0 ClassDecimal (3 + decimals s) = 0"
    using rnd_zero [OF F] by (simp add: quantize_def Let_def fdiv_def fmul_def go_round_def)
  have le: "summary_quantile F s k q \<le> summary_quantile F s k q' \<and> 0 \<le> summary_quantile F s k q"
    if "0 \<le> q" "q \<le> q'" for q q'
    using mono [OF that] quantize_mono [OF F d, of _ _ ClassDecimal] q0
    unfolding summary_quantile_def raw_def [symmetric] by metis
  have qs: "qs = map (summary_quantile F s k) (md_quantiles (sr_def s))"
    using pt by (simp add: summaryPoint_def Let_def)
  have "sorted qs" unfolding qs sorted_map
    using assms(2,3) le by (auto intro: sorted_wrt_mono_rel [of _ "(\<le>)"])
  then show ?thesis using assms(3) le qs by auto
qed

definition sample_summary :: metricDef where
  "sample_summary = sample_metric\<lparr>md_typ := TypeSummary, md_quantiles := [1/2, 9/10, 99/100]\<rparr>"

theorem summary_quantiles_sorted_witness:
  "\<exists>cnt sm qs. summaryPoint exact_float (makeSeriesRef sample_summary 3 10) 7 0 = (cnt, sm, qs) \<and>
     sorted qs \<and> length qs = 3"
proof -
  let ?s = "makeSeriesRef sample_summary 3 10"
  have d: "sr_def ?s = sample_summary" by (simp add: makeSeriesRef_def Let_def)
  obtain c m qs where pt: "summaryPoint exact_float ?s 7 0 = (c, m, qs)" by (metis prod_cases3)
  have q: "md_quantiles (sr_def ?s) = [1/2, 9/10, 99/100]" unfolding d by (simp add: sample_summary_def)
  have "sorted (md_quantiles (sr_def ?s))" "\<forall>q \<in> set (md_quantiles (sr_def ?s)). 0 \<le> q"
    unfolding q by simp_all
  from summary_quantiles_sorted [OF exact_float_ok this pt] show ?thesis using pt unfolding q by auto
qed

end
