(* ===== verification/Batch.thy ===== *)
theory Batch
  imports Prelude
begin

text \<open>
  The contract between a worker and the request builder it fills
  (\<open>internal/metricgen/worker.go\<close>, \<open>internal/otel/worker.go\<close>): an empty builder, an operation
  that adds a row, and a count the worker compares with its limit. The laws say that adding
  loses nothing, invents nothing and counts right; the client lemmas say what a worker that
  flushes at the limit sends.
\<close>

locale batch =
  fixes inv :: "'b \<Rightarrow> bool"
    and fresh :: "'b \<Rightarrow> 'b"
    and add :: "'r \<Rightarrow> 'b \<Rightarrow> 'b"
    and len :: "'b \<Rightarrow> nat"
    and items :: "'b \<Rightarrow> 'i multiset"
    and expand :: "'r \<Rightarrow> 'b \<Rightarrow> 'i multiset"
  assumes inv_add: "inv b \<Longrightarrow> inv (add r b)"
    and inv_fresh: "inv b \<Longrightarrow> inv (fresh b)"
    and items_fresh: "items (fresh b) = {#}"
    and items_add: "inv b \<Longrightarrow> items (add r b) = items b + expand r b"
    and len_items: "inv b \<Longrightarrow> len b = size (items b)"
    and expand_fresh: "expand r (fresh b) = expand r b"
    and expand_add: "expand r (add r' b) = expand r b"

text \<open>
  The worker's loop: add a row, flush when the count has reached the limit. \<open>out\<close> collects the
  flushed builders in order.
\<close>

fun batch_run ::
  "('b \<Rightarrow> 'b) \<Rightarrow> ('r \<Rightarrow> 'b \<Rightarrow> 'b) \<Rightarrow> ('b \<Rightarrow> nat) \<Rightarrow> nat \<Rightarrow> 'r list \<Rightarrow> 'b \<Rightarrow> 'b list \<Rightarrow> 'b list \<times> 'b" where
  "batch_run fresh add len limit [] b out = (out, b)"
| "batch_run fresh add len limit (r # rs) b out =
     (let b1 = add r b
      in if limit \<le> len b1 then batch_run fresh add len limit rs (fresh b1) (out @ [b1])
         else batch_run fresh add len limit rs b1 out)"

definition flushed_items :: "('b \<Rightarrow> 'i multiset) \<Rightarrow> 'b list \<Rightarrow> 'i multiset" where
  "flushed_items items out = sum_list (map items out)"

context batch
begin

lemma run_items:
  assumes "inv b"
  shows "flushed_items items (fst (batch_run fresh add len limit rs b out)) +
      items (snd (batch_run fresh add len limit rs b out)) =
    flushed_items items out + items b + sum_list (map (\<lambda>r. expand r b) rs)"
  using assms
proof (induction rs arbitrary: b out)
  case Nil
  then show ?case by simp
next
  case (Cons r rs)
  have i: "inv (add r b)" "inv (fresh (add r b))" using Cons.prems inv_add inv_fresh by blast+
  show ?case
    using Cons.IH [OF i(1)] Cons.IH [OF i(2)] items_add [OF Cons.prems]
    by (simp add: Let_def items_fresh expand_fresh expand_add flushed_items_def ac_simps)
qed

lemma run_inv: "inv b \<Longrightarrow> inv (snd (batch_run fresh add len limit rs b out))"
  by (induction rs arbitrary: b out) (simp_all add: Let_def inv_add inv_fresh)

lemma len_fresh: "inv b \<Longrightarrow> len (fresh b) = 0"
  using len_items [of "fresh b"] inv_fresh [of b] by (simp add: items_fresh)

lemma run_below:
  assumes "len b < limit" and "inv b"
  shows "len (snd (batch_run fresh add len limit rs b out)) < limit"
  using assms
proof (induction rs arbitrary: b out)
  case Nil
  then show ?case by simp
next
  case (Cons r rs)
  have i: "inv (add r b)" "inv (fresh (add r b))" using Cons.prems(2) inv_add inv_fresh by blast+
  have "len (fresh (add r b)) < limit" using len_fresh [OF i(1)] Cons.prems(1) by simp
  then show ?case
    using Cons.IH [OF _ i(1)] Cons.IH [OF _ i(2)] by (simp add: Let_def)
qed

text \<open>No request exceeds the limit by more than what one row adds, and none is empty.\<close>

lemma run_sizes:
  assumes "inv b" and "len b < limit" and "\<forall>r \<in> set rs. size (expand r b) \<le> w"
    and "\<forall>x \<in> set out. limit \<le> len x \<and> len x < limit + w"
  shows "\<forall>x \<in> set (fst (batch_run fresh add len limit rs b out)). limit \<le> len x \<and> len x < limit + w"
  using assms
proof (induction rs arbitrary: b out)
  case Nil
  then show ?case by simp
next
  case (Cons r rs)
  have i: "inv (add r b)" "inv (fresh (add r b))" using Cons.prems(1) inv_add inv_fresh by blast+
  have l: "len (add r b) = len b + size (expand r b)"
    using len_items [OF Cons.prems(1)] len_items [OF i(1)] items_add [OF Cons.prems(1)] by simp
  have e: "\<forall>r' \<in> set rs. size (expand r' (add r b)) \<le> w"
    "\<forall>r' \<in> set rs. size (expand r' (fresh (add r b))) \<le> w"
    using Cons.prems(3) unfolding expand_add expand_fresh by simp_all
  show ?case
  proof (cases "limit \<le> len (add r b)")
    case True
    have "len (fresh (add r b)) < limit" using len_fresh [OF i(1)] Cons.prems(2) by simp
    moreover have "\<forall>x \<in> set (out @ [add r b]). limit \<le> len x \<and> len x < limit + w"
      using Cons.prems(2,3,4) True l by auto
    moreover have "batch_run fresh add len limit (r # rs) b out =
        batch_run fresh add len limit rs (fresh (add r b)) (out @ [add r b])"
      using True by (simp add: Let_def)
    ultimately show ?thesis using Cons.IH [OF i(2) _ e(2)] by metis
  next
    case False
    then have "batch_run fresh add len limit (r # rs) b out = batch_run fresh add len limit rs (add r b) out"
      by (simp add: Let_def)
    then show ?thesis using Cons.IH [OF i(1) _ e(1) Cons.prems(4)] False by (metis not_le)
  qed
qed

end

end
