(* ===== verification/MgBuilder.thy ===== *)
theory MgBuilder
  imports MgValues Batch
begin

text \<open>
  The export request builder (\<open>internal/metricgen/builder.go\<close>): points are grouped by
  (resource, generation, scope), one metric per definition in each group. The pointers the code
  shares between the \<open>groups\<close> map and the \<open>order\<close> slice are positions in the order list, the
  ones between a group's \<open>metrics\<close> map and the request's metric list positions in that list.
  Creating a group asks the shared resource cache, which is threaded through.
\<close>

section \<open>The request\<close>

datatype ('r, 'v) point_body =
    NumberInt int
  | NumberDouble 'v
  | HistogramBody u64 "'v option" "u64 list" "'v list" "'v option" "'v option"
  | ExpBody u64 "'v option" int u64 'v "int \<times> u64 list" "(int \<times> u64 list) option" "'v option" "'v option"
  | SummaryBody u64 'v "('v \<times> 'v) list"

type_synonym pbody = "(resource, rat) point_body"

record exemplar =
  ex_time :: u64
  ex_value :: rat
  ex_trace :: "u8 list"
  ex_span :: "u8 list"

record dataPoint =
  dp_attrs :: "(string \<times> string) list"
  dp_start :: u64
  dp_time :: u64
  dp_flags :: u32
  dp_body :: pbody
  dp_exemplars :: "exemplar list"

record metricPb =
  mp_name :: string
  mp_description :: string
  mp_unit :: string
  mp_typ :: metricType
  mp_temporality :: "Temporality option"
  mp_monotonic :: bool
  mp_points :: "dataPoint list"

record group =
  gr_resource :: resource
  gr_scope :: nat
  gr_metrics :: "nat \<Rightarrow> nat option"
  gr_list :: "metricPb list"

record builder =
  bl_groups :: "u64 \<Rightarrow> nat option"
  bl_order :: "group list"
  bl_points :: nat
  bl_pool :: resourcePool

definition newBuilder :: "resourcePool \<Rightarrow> builder" where
  "newBuilder rp = \<lparr>bl_groups = (\<lambda>_. None), bl_order = [], bl_points = 0, bl_pool = rp\<rparr>"

definition builder_len :: "builder \<Rightarrow> nat" where
  "builder_len b = bl_points b"

definition builder_build :: "builder \<Rightarrow> (resource \<times> nat \<times> metricPb list) list" where
  "builder_build b = map (\<lambda>g. (gr_resource g, gr_scope g, gr_list g)) (bl_order b)"

definition builder_reset :: "builder \<Rightarrow> builder" where
  "builder_reset b = b\<lparr>bl_groups := (\<lambda>_. None), bl_order := [], bl_points := 0\<rparr>"

section \<open>Groups and metrics\<close>

definition group_key :: "nat \<Rightarrow> u64 \<Rightarrow> nat \<Rightarrow> u64" where
  "group_key resourceIdx gen scopeIdx = mix3 (of_nat resourceIdx) gen (of_nat scopeIdx)"

definition builder_group :: "builder \<Rightarrow> nat \<Rightarrow> u64 \<Rightarrow> nat \<Rightarrow> nat \<times> builder" where
  "builder_group b resourceIdx gen scopeIdx =
     (let key = group_key resourceIdx gen scopeIdx
      in case bl_groups b key of
           Some i \<Rightarrow> (i, b)
         | None \<Rightarrow>
             (case rp_get (bl_pool b) resourceIdx gen of (res, rp) \<Rightarrow>
                let i = length (bl_order b);
                    g = \<lparr>gr_resource = res, gr_scope = scopeIdx, gr_metrics = (\<lambda>_. None), gr_list = []\<rparr>
                in (i, b\<lparr>bl_groups := (bl_groups b)(key := Some i), bl_order := bl_order b @ [g],
                         bl_pool := rp\<rparr>)))"

definition temporalityProto :: "Temporality \<Rightarrow> Temporality" where
  "temporalityProto t =
     (case t of TemporalityDelta \<Rightarrow> TemporalityDelta
      | TemporalityCumulative \<Rightarrow> TemporalityCumulative
      | _ \<Rightarrow> TemporalityUnspecified)"

definition new_metric :: "metricDef \<Rightarrow> metricPb" where
  "new_metric d =
     \<lparr>mp_name = md_name d, mp_description = md_description d, mp_unit = md_unit d, mp_typ = md_typ d,
      mp_temporality = (if md_typ d \<in> {TypeSum, TypeHistogram, TypeExpHistogram}
                        then Some (temporalityProto (md_temporality d)) else None),
      mp_monotonic = (md_typ d = TypeSum \<and> md_monotonic d), mp_points = []\<rparr>"

definition group_metric :: "group \<Rightarrow> metricDef \<Rightarrow> nat \<times> group" where
  "group_metric g d =
     (case gr_metrics g (md_index d) of
        Some m \<Rightarrow> (m, g)
      | None \<Rightarrow>
          let m = length (gr_list g)
          in (m, g\<lparr>gr_metrics := (gr_metrics g)(md_index d := Some m),
                   gr_list := gr_list g @ [new_metric d]\<rparr>))"

text \<open>Appending a point to the metric of a definition in a group.\<close>

definition group_append :: "group \<Rightarrow> metricDef \<Rightarrow> dataPoint \<Rightarrow> group" where
  "group_append g d dp =
     (case group_metric g d of (m, g) \<Rightarrow>
        let mp = gr_list g ! m
        in g\<lparr>gr_list := (gr_list g)[m := mp\<lparr>mp_points := mp_points mp @ [dp]\<rparr>]\<rparr>)"

definition builder_append ::
  "builder \<Rightarrow> nat \<Rightarrow> u64 \<Rightarrow> metricDef \<Rightarrow> dataPoint \<Rightarrow> builder" where
  "builder_append b resourceIdx gen d dp =
     (case builder_group b resourceIdx gen (md_scopeIdx d) of (i, b) \<Rightarrow>
        b\<lparr>bl_order := (bl_order b)[i := group_append (bl_order b ! i) d dp],
          bl_points := Suc (bl_points b)\<rparr>)"

section \<open>Encoding of values\<close>

definition msToNano :: "int \<Rightarrow> u64" where
  "msToNano ms = (if ms < 0 then 0 else word_of_int ms * 1000000)"

text \<open>The conversion \<open>int64(v)\<close> truncates towards zero.\<close>

definition trunc_i64 :: "rat \<Rightarrow> int" where
  "trunc_i64 v = i64 (if 0 \<le> v then \<lfloor>v\<rfloor> else - \<lfloor>- v\<rfloor>)"

definition setNumberValue :: "rat \<Rightarrow> bool \<Rightarrow> pbody" where
  "setNumberValue v isInt = (if isInt then NumberInt (trunc_i64 v) else NumberDouble v)"

definition be_bytes :: "u64 \<Rightarrow> u8 list" where
  "be_bytes w = map (\<lambda>i. ucast (drop_bit (56 - 8 * i) w)) [0..<8]"

definition exemplarProto :: "rat \<Rightarrow> u64 \<Rightarrow> u64 \<Rightarrow> u64 \<Rightarrow> u64 \<Rightarrow> exemplar" where
  "exemplarProto value traceHi traceLo spanID tsNano =
     \<lparr>ex_time = tsNano, ex_value = value, ex_trace = be_bytes traceHi @ be_bytes traceLo,
      ex_span = be_bytes spanID\<rparr>"

definition exemplars :: "go_float \<Rightarrow> plan \<Rightarrow> seriesRef \<Rightarrow> u64 \<Rightarrow> rat \<Rightarrow> u64 \<Rightarrow> exemplar list" where
  "exemplars F p s k v tsNano =
     (case exemplarFor F s p k v of
        None \<Rightarrow> []
      | Some (ev, hi, lo, spanID) \<Rightarrow> [exemplarProto ev hi lo spanID tsNano])"

section \<open>Windows\<close>

definition windowStart :: "plan \<Rightarrow> seriesRef \<Rightarrow> metricDef \<Rightarrow> u64 \<Rightarrow> int \<times> u64" where
  "windowStart p s d k =
     (if md_temporality d = TemporalityCumulative
      then let epoch = epochStart s p k
           in (epoch, msToNano (pointTimeMs p (sr_sVal s) epoch (sr_resourceIdx s)))
      else (i64 (sint k - 1), msToNano (pointTimeMs p (sr_sVal s) (i64 (sint k - 1)) (sr_resourceIdx s))))"

definition markerStartNano :: "plan \<Rightarrow> seriesRef \<Rightarrow> metricDef \<Rightarrow> u64 \<Rightarrow> u64" where
  "markerStartNano p s d k =
     (if md_temporality d = TemporalityCumulative \<or> md_typ d = TypeSummary
      then let epoch = epochStart s p (k - 1)
           in msToNano (pointTimeMs p (sr_sVal s) epoch (sr_resourceIdx s))
      else msToNano (pointTimeMs p (sr_sVal s) (i64 (sint k - 1)) (sr_resourceIdx s)))"

section \<open>Points\<close>

text \<open>
  The data point of series \<open>s\<close> at sweep \<open>k\<close>, one definition per case of the \<open>switch\<close> in
  \<open>addPoint\<close>; \<open>point_base\<close> is what every case shares.
\<close>

definition point_time :: "plan \<Rightarrow> seriesRef \<Rightarrow> u64 \<Rightarrow> u64" where
  "point_time p s k = msToNano (pointTimeMs p (sr_sVal s) (sint k) (sr_resourceIdx s))"

definition epoch_time :: "plan \<Rightarrow> seriesRef \<Rightarrow> int \<Rightarrow> u64" where
  "epoch_time p s epoch = msToNano (pointTimeMs p (sr_sVal s) epoch (sr_resourceIdx s))"

definition point_base :: "plan \<Rightarrow> seriesRef \<Rightarrow> u64 \<Rightarrow> u64 \<Rightarrow> pbody \<Rightarrow> exemplar list \<Rightarrow> dataPoint" where
  "point_base p s k start body exs =
     \<lparr>dp_attrs = appendAttrs s [], dp_start = start, dp_time = point_time p s k, dp_flags = 0,
      dp_body = body, dp_exemplars = exs\<rparr>"

definition sum_point :: "go_float \<Rightarrow> plan \<Rightarrow> metricDef \<Rightarrow> seriesRef \<Rightarrow> u64 \<Rightarrow> dataPoint" where
  "sum_point F p d s k =
     (let (v, start) =
        (if md_temporality d = TemporalityCumulative
         then let epoch = epochStart s p k
              in (if md_monotonic d then counterValue F s k epoch else gaugeValue F s k,
                  epoch_time p s epoch)
         else (deltaSumValue F s k (md_monotonic d), epoch_time p s (i64 (sint k - 1))))
      in point_base p s k start (setNumberValue v (md_valueIsInt d))
           (exemplars F p s k v (point_time p s k)))"

definition histogram_point :: "go_float \<Rightarrow> plan \<Rightarrow> metricDef \<Rightarrow> seriesRef \<Rightarrow> u64 \<Rightarrow> dataPoint" where
  "histogram_point F p d s k =
     (case windowStart p s d k of (epoch, start) \<Rightarrow>
      case histPoint F s k epoch (length (md_bounds d) + 1) of (counts, cnt, sumV, minV, maxV) \<Rightarrow>
        point_base p s k start
          (HistogramBody cnt (Some sumV) counts (md_bounds d) (Some minV) (Some maxV))
          (exemplars F p s k maxV (point_time p s k)))"

definition exp_point :: "go_float \<Rightarrow> plan \<Rightarrow> metricDef \<Rightarrow> seriesRef \<Rightarrow> u64 \<Rightarrow> dataPoint" where
  "exp_point F p d s k =
     (case windowStart p s d k of (epoch, start) \<Rightarrow>
      case expBucketLens s of (posLen, negLen) \<Rightarrow>
        let x = expHistPoint F s k epoch posLen negLen
        in point_base p s k start
             (ExpBody (xp_count x) (Some (xp_sum x)) (md_expScale d) (xp_zeroCount x)
                (xp_zeroThreshold x) (xp_posOffset x, xp_pos x)
                (if 0 < negLen then Some (xp_negOffset x, xp_neg x) else None)
                (Some (xp_min x)) (Some (xp_max x)))
             (exemplars F p s k (xp_max x) (point_time p s k)))"

definition summary_point :: "go_float \<Rightarrow> plan \<Rightarrow> metricDef \<Rightarrow> seriesRef \<Rightarrow> u64 \<Rightarrow> dataPoint" where
  "summary_point F p d s k =
     (let epoch = epochStart s p k
      in case summaryPoint F s k epoch of (cnt, sumV, qValues) \<Rightarrow>
           point_base p s k (epoch_time p s epoch)
             (SummaryBody cnt sumV (zip (md_quantiles d) qValues)) [])"

definition real_point :: "go_float \<Rightarrow> plan \<Rightarrow> metricDef \<Rightarrow> seriesRef \<Rightarrow> u64 \<Rightarrow> dataPoint" where
  "real_point F p d s k =
     (case md_typ d of
        TypeGauge \<Rightarrow>
          point_base p s k 0 (setNumberValue (gaugeValue F s k) (md_valueIsInt d)) []
      | TypeSum \<Rightarrow> sum_point F p d s k
      | TypeHistogram \<Rightarrow> histogram_point F p d s k
      | TypeExpHistogram \<Rightarrow> exp_point F p d s k
      | TypeSummary \<Rightarrow> summary_point F p d s k)"

text \<open>The staleness marker: identity kept, values zeroed, \<open>FLAG_NO_RECORDED_VALUE\<close> set.\<close>

definition marker_body :: "metricDef \<Rightarrow> pbody" where
  "marker_body d =
     (case md_typ d of
        TypeGauge \<Rightarrow> setNumberValue 0 (md_valueIsInt d)
      | TypeSum \<Rightarrow> setNumberValue 0 (md_valueIsInt d)
      | TypeHistogram \<Rightarrow>
          HistogramBody 0 None (replicate (length (md_bounds d) + 1) 0) (md_bounds d) None None
      | TypeExpHistogram \<Rightarrow> ExpBody 0 None (md_expScale d) 0 0 (0, []) None None None
      | TypeSummary \<Rightarrow> SummaryBody 0 0 (map (\<lambda>q. (q, 0)) (md_quantiles d)))"

definition marker_point :: "plan \<Rightarrow> metricDef \<Rightarrow> seriesRef \<Rightarrow> u64 \<Rightarrow> dataPoint" where
  "marker_point p d s k =
     \<lparr>dp_attrs = appendAttrs s [],
      dp_start = (if md_typ d = TypeGauge then 0 else markerStartNano p s d k),
      dp_time = point_time p s k, dp_flags = 1, dp_body = marker_body d, dp_exemplars = []\<rparr>"

section \<open>Adding points\<close>

definition addStalenessMarker ::
  "plan \<Rightarrow> builder \<Rightarrow> metricDef \<Rightarrow> seriesRef \<Rightarrow> u64 \<Rightarrow> u64 \<Rightarrow> builder" where
  "addStalenessMarker p b d s k oldGen =
     builder_append b (sr_resourceIdx s) oldGen d (marker_point p d s k)"

definition plan_series :: "plan \<Rightarrow> metricDef \<Rightarrow> nat \<Rightarrow> seriesRef" where
  "plan_series p d j = makeSeriesRef d j (nat (mg_Resources (pl_cfg p)))"

definition addPoint :: "go_float \<Rightarrow> plan \<Rightarrow> metricDef \<times> nat \<times> u64 \<Rightarrow> builder \<Rightarrow> builder" where
  "addPoint F p = (\<lambda>(d, j, k) b.
     let s = plan_series p d j;
         gen = generation p (sr_resourceIdx s) k;
         b = (if mg_StalenessMarkers (pl_cfg p) \<and> generationChanged p (sr_resourceIdx s) k
              then addStalenessMarker p b d s k (gen - 1) else b)
     in builder_append b (sr_resourceIdx s) gen d (real_point F p d s k))"

section \<open>The builder invariant\<close>

text \<open>
  \<open>builder_ok\<close>: the map and the order list describe the same groups, each group's metric map
  and list the same metrics, and the point count is the number of points in the request.
\<close>

definition group_points :: "group \<Rightarrow> dataPoint list" where
  "group_points g = concat (map mp_points (gr_list g))"

definition builder_points :: "builder \<Rightarrow> dataPoint multiset" where
  "builder_points b = sum_list (map (mset \<circ> group_points) (bl_order b))"

definition group_ok :: "group \<Rightarrow> bool" where
  "group_ok g \<longleftrightarrow> (\<forall>i m. gr_metrics g i = Some m \<longrightarrow> m < length (gr_list g))"

definition builder_ok :: "builder \<Rightarrow> bool" where
  "builder_ok b \<longleftrightarrow> (\<forall>key i. bl_groups b key = Some i \<longrightarrow> i < length (bl_order b)) \<and>
     (\<forall>g \<in> set (bl_order b). group_ok g) \<and> bl_points b = size (builder_points b) \<and>
     pool_inv (bl_pool b)"

lemma sum_list_map_update:
  fixes f :: "'a \<Rightarrow> 'b multiset"
  assumes "i < length xs" and "f y = f (xs ! i) + c"
  shows "sum_list (map f (xs[i := y])) = sum_list (map f xs) + c"
  using assms
proof (induction xs arbitrary: i)
  case (Cons x xs)
  then show ?case by (cases i) (simp_all add: ac_simps)
qed simp

lemma mset_concat_update:
  assumes "i < length xss" and "mset ys = mset (xss ! i) + c"
  shows "mset (concat (xss[i := ys])) = mset (concat xss) + c"
  using assms
proof (induction xss arbitrary: i)
  case (Cons x xss)
  then show ?case by (cases i) (simp_all add: ac_simps)
qed simp

lemma group_metric_ok:
  assumes "group_ok g" and "group_metric g d = (m, g')"
  shows "group_ok g' \<and> m < length (gr_list g') \<and> group_points g' = group_points g \<and>
    gr_resource g' = gr_resource g \<and> gr_scope g' = gr_scope g \<and> gr_metrics g' (md_index d) = Some m"
  using assms
  by (auto simp: group_metric_def group_ok_def group_points_def new_metric_def Let_def less_Suc_eq
      split: option.splits if_splits)

lemma group_append_ok:
  assumes "group_ok g"
  shows "group_ok (group_append g d dp) \<and>
    mset (group_points (group_append g d dp)) = mset (group_points g) + {#dp#} \<and>
    gr_resource (group_append g d dp) = gr_resource g \<and> gr_scope (group_append g d dp) = gr_scope g"
proof -
  obtain m g' where m: "group_metric g d = (m, g')" by (rule prod.exhaust)
  note ok = group_metric_ok [OF assms m]
  have "mset (concat ((map mp_points (gr_list g'))[m := mp_points (gr_list g' ! m) @ [dp]])) =
      mset (concat (map mp_points (gr_list g'))) + {#dp#}"
    using ok by (intro mset_concat_update) simp_all
  then show ?thesis
    using ok by (auto simp: group_append_def m group_points_def group_ok_def Let_def map_update)
qed

lemma builder_group_ok:
  assumes "builder_ok b" and "builder_group b r gen sc = (i, b')"
  shows "builder_ok b' \<and> i < length (bl_order b') \<and> builder_points b' = builder_points b \<and>
    bl_points b' = bl_points b \<and> bl_groups b' (group_key r gen sc) = Some i"
proof (cases "bl_groups b (group_key r gen sc)")
  case (Some j)
  then show ?thesis using assms by (auto simp: builder_group_def builder_ok_def Let_def)
next
  case None
  obtain res rp where g: "rp_get (bl_pool b) r gen = (res, rp)" by (rule prod.exhaust)
  have "pool_inv (bl_pool b)" using assms(1) by (simp add: builder_ok_def)
  moreover from this have "ptr_ok (bl_pool b) r (rp_slots (bl_pool b) r)" by (simp add: pool_inv_def)
  ultimately have "pool_inv rp" using rp_get_rest_inv g unfolding rp_get_def by blast
  then show ?thesis
    using assms None g
    by (auto simp: builder_group_def builder_ok_def builder_points_def group_points_def group_ok_def
        Let_def less_Suc_eq split: if_splits)
qed

lemma builder_append_ok:
  assumes "builder_ok b"
  shows "builder_ok (builder_append b r gen d dp) \<and>
    builder_points (builder_append b r gen d dp) = builder_points b + {#dp#}"
proof -
  obtain i b' where i: "builder_group b r gen (md_scopeIdx d) = (i, b')" by (rule prod.exhaust)
  note ok = builder_group_ok [OF assms i]
  have g: "group_ok (bl_order b' ! i)" using ok by (simp add: builder_ok_def)
  let ?o = "(bl_order b')[i := group_append (bl_order b' ! i) d dp]"
  have pts: "sum_list (map (mset \<circ> group_points) ?o) =
      sum_list (map (mset \<circ> group_points) (bl_order b')) + {#dp#}"
    using ok group_append_ok [OF g] by (intro sum_list_map_update) simp_all
  have "\<forall>h \<in> set ?o. group_ok h"
    using ok group_append_ok [OF g] unfolding builder_ok_def
    by (metis in_set_conv_nth length_list_update nth_list_update nth_mem)
  then show ?thesis
    using ok pts by (simp add: builder_append_def i builder_ok_def builder_points_def)
qed

text \<open>The points one call of \<open>addPoint\<close> contributes.\<close>

definition point_row :: "go_float \<Rightarrow> plan \<Rightarrow> metricDef \<times> nat \<times> u64 \<Rightarrow> dataPoint multiset" where
  "point_row F p = (\<lambda>(d, j, k).
     let s = plan_series p d j
     in {#real_point F p d s k#} +
        (if mg_StalenessMarkers (pl_cfg p) \<and> generationChanged p (sr_resourceIdx s) k
         then {#marker_point p d s k#} else {#}))"

lemma addPoint_ok:
  assumes "builder_ok b"
  shows "builder_ok (addPoint F p r b) \<and>
    builder_points (addPoint F p r b) = builder_points b + point_row F p r"
proof -
  obtain d j k where r: "r = (d, j, k)" by (rule prod_cases3)
  show ?thesis
    using builder_append_ok [OF assms]
      builder_append_ok [OF builder_append_ok [OF assms, THEN conjunct1]]
    by (simp add: r addPoint_def point_row_def addStalenessMarker_def Let_def)
qed

lemma builder_reset_ok:
  assumes "builder_ok b"
  shows "builder_ok (builder_reset b) \<and> builder_points (builder_reset b) = {#}"
  using assms by (simp add: builder_ok_def builder_reset_def builder_points_def)

lemma builder_len_points: "builder_ok b \<Longrightarrow> builder_len b = size (builder_points b)"
  by (simp add: builder_ok_def builder_len_def)

lemma builder_reset_points: "builder_points (builder_reset b) = {#}"
  by (simp add: builder_reset_def builder_points_def)

lemma newBuilder_ok: "pool_inv rp \<Longrightarrow> builder_ok (newBuilder rp)"
  by (simp add: builder_ok_def newBuilder_def builder_points_def)

text \<open>The builder provides the batch contract; \<open>F\<close> and \<open>p\<close> stay arbitrary.\<close>

interpretation mg_batch: batch builder_ok builder_reset "addPoint F p" builder_len builder_points
    "\<lambda>r b. point_row F p r"
  for F p
  by unfold_locales
    (simp_all add: addPoint_ok builder_reset_ok builder_len_points builder_reset_points)



section \<open>Attribution\<close>

text \<open>
  Where a point ends up: the resource and scope of its group and the header of its metric.
  \<open>attributed\<close> is the invariant behind it, for the group triples \<open>U\<close> and the definitions \<open>D\<close>
  of the rows added.
\<close>

definition group_placed :: "group \<Rightarrow> (resource \<times> nat \<times> metricPb \<times> dataPoint) list" where
  "group_placed g =
     concat (map (\<lambda>mp. map (\<lambda>dp. (gr_resource g, gr_scope g, mp\<lparr>mp_points := []\<rparr>, dp)) (mp_points mp))
       (gr_list g))"

definition builder_placed :: "builder \<Rightarrow> (resource \<times> nat \<times> metricPb \<times> dataPoint) multiset" where
  "builder_placed b = sum_list (map (mset \<circ> group_placed) (bl_order b))"

definition metrics_of :: "metricDef set \<Rightarrow> group \<Rightarrow> bool" where
  "metrics_of D g \<longleftrightarrow> (\<forall>idx m. gr_metrics g idx = Some m \<longrightarrow>
     (\<exists>d \<in> D. md_index d = idx \<and> (gr_list g ! m)\<lparr>mp_points := []\<rparr> = new_metric d))"

definition group_of :: "resourcePool \<Rightarrow> (nat \<times> u64 \<times> nat) set \<Rightarrow> u64 \<Rightarrow> group \<Rightarrow> bool" where
  "group_of rp U key g \<longleftrightarrow> (\<exists>r gen sc. (r, gen, sc) \<in> U \<and> key = group_key r gen sc \<and>
     gr_resource g = rp_build rp r gen \<and> gr_scope g = sc)"

definition attributed ::
  "resourcePool \<Rightarrow> (nat \<times> u64 \<times> nat) set \<Rightarrow> metricDef set \<Rightarrow> builder \<Rightarrow> bool" where
  "attributed rp U D b \<longleftrightarrow> builder_ok b \<and> rp_build (bl_pool b) = rp_build rp \<and>
     (\<forall>key i. bl_groups b key = Some i \<longrightarrow> group_of rp U key (bl_order b ! i)) \<and>
     (\<forall>g \<in> set (bl_order b). metrics_of D g)"

definition keys_inj :: "(nat \<times> u64 \<times> nat) set \<Rightarrow> bool" where
  "keys_inj U \<longleftrightarrow> inj_on (\<lambda>(r, gen, sc). group_key r gen sc) U"

lemma group_of_unique:
  assumes "keys_inj U" and "(r, gen, sc) \<in> U" and "group_of rp U (group_key r gen sc) g"
  shows "gr_resource g = rp_build rp r gen \<and> gr_scope g = sc"
proof -
  obtain r' gen' sc' where t: "(r', gen', sc') \<in> U" "group_key r gen sc = group_key r' gen' sc'"
    "gr_resource g = rp_build rp r' gen'" "gr_scope g = sc'"
    using assms(3) by (auto simp: group_of_def)
  have "(r, gen, sc) = (r', gen', sc')"
    using inj_onD [OF assms(1) [unfolded keys_inj_def] _ assms(2) t(1)] t(2) by simp
  with t show ?thesis by simp
qed

lemma new_metric_points [simp]:
  "mp_points (new_metric d) = []" "(new_metric d)\<lparr>mp_points := []\<rparr> = new_metric d"
  by (simp_all add: new_metric_def)

lemma group_metric_placed:
  assumes "group_ok g" and "metrics_of D g" and "inj_on md_index D" and "d \<in> D"
    and "group_metric g d = (m, g')"
  shows "metrics_of D g' \<and> group_placed g' = group_placed g \<and>
    (gr_list g' ! m)\<lparr>mp_points := []\<rparr> = new_metric d"
proof (cases "gr_metrics g (md_index d)")
  case (Some n)
  then have g: "g' = g" "m = n" using assms(5) by (simp_all add: group_metric_def)
  obtain e where "e \<in> D" "md_index e = md_index d" "(gr_list g ! n)\<lparr>mp_points := []\<rparr> = new_metric e"
    using assms(2) Some unfolding metrics_of_def by blast
  then show ?thesis using g assms(2,3,4) by (auto dest: inj_onD)
next
  case None
  then have g: "m = length (gr_list g)" "g' = g\<lparr>gr_metrics := (gr_metrics g)(md_index d := Some m),
      gr_list := gr_list g @ [new_metric d]\<rparr>"
    using assms(5) by (auto simp: group_metric_def Let_def)
  have "metrics_of D g'"
    unfolding metrics_of_def
  proof (intro allI impI)
    fix idx n assume n: "gr_metrics g' idx = Some n"
    show "\<exists>e \<in> D. md_index e = idx \<and> (gr_list g' ! n)\<lparr>mp_points := []\<rparr> = new_metric e"
    proof (cases "idx = md_index d")
      case True
      with n g assms(4) show ?thesis by auto
    next
      case False
      with n g have "gr_metrics g idx = Some n" by simp
      with assms(1,2) show ?thesis by (auto simp: g group_ok_def metrics_of_def nth_append)
    qed
  qed
  then show ?thesis by (simp add: g group_placed_def)
qed

lemma group_append_placed:
  assumes "group_ok g" and "metrics_of D g" and "inj_on md_index D" and "d \<in> D"
  shows "metrics_of D (group_append g d dp) \<and>
    mset (group_placed (group_append g d dp)) =
      mset (group_placed g) + {#(gr_resource g, gr_scope g, new_metric d, dp)#}"
proof -
  obtain m g' where m: "group_metric g d = (m, g')" by (rule prod.exhaust)
  note ok = group_metric_ok [OF assms(1) m] and pl = group_metric_placed [OF assms m]
  let ?place = "\<lambda>mp. map (\<lambda>dp. (gr_resource g', gr_scope g', mp\<lparr>mp_points := []\<rparr>, dp)) (mp_points mp)"
  let ?mp = "(gr_list g' ! m)\<lparr>mp_points := mp_points (gr_list g' ! m) @ [dp]\<rparr>"
  have hd: "?mp\<lparr>mp_points := []\<rparr> = new_metric d" using pl by simp
  have "mset (concat ((map ?place (gr_list g'))[m := ?place ?mp])) =
      mset (concat (map ?place (gr_list g'))) + {#(gr_resource g', gr_scope g', new_metric d, dp)#}"
    using ok pl by (intro mset_concat_update) simp_all
  moreover have "group_append g d dp = g'\<lparr>gr_list := (gr_list g')[m := ?mp]\<rparr>"
    by (simp add: group_append_def m Let_def)
  moreover have "metrics_of D (g'\<lparr>gr_list := (gr_list g')[m := ?mp]\<rparr>)"
    using pl ok by (auto simp: metrics_of_def nth_list_update)
  ultimately show ?thesis using ok pl by (simp add: group_placed_def map_update)
qed

lemma builder_group_attr:
  assumes at: "attributed rp U D b" and inj: "keys_inj U" and U: "(r, gen, sc) \<in> U"
    and run: "builder_group b r gen sc = (i, b')"
  shows "attributed rp U D b' \<and> builder_placed b' = builder_placed b \<and>
    gr_resource (bl_order b' ! i) = rp_build rp r gen \<and> gr_scope (bl_order b' ! i) = sc"
proof -
  have ok: "builder_ok b" using at by (simp add: attributed_def)
  note ok' = builder_group_ok [OF ok run]
  show ?thesis
  proof (cases "bl_groups b (group_key r gen sc)")
    case (Some j)
    then have "b' = b" "i = j" using run by (simp_all add: builder_group_def Let_def)
    moreover have "group_of rp U (group_key r gen sc) (bl_order b ! j)"
      using at Some by (simp add: attributed_def)
    ultimately show ?thesis using at group_of_unique [OF inj U] by blast
  next
    case None
    obtain res rp' where g: "rp_get (bl_pool b) r gen = (res, rp')" by (rule prod.exhaust)
    have ptr: "ptr_ok (bl_pool b) r (rp_slots (bl_pool b) r)"
      using ok by (simp add: builder_ok_def pool_inv_def)
    have res: "res = rp_build rp r gen"
      using rp_get_rest_result [OF ptr] g at unfolding rp_get_def attributed_def by metis
    have build: "rp_build rp' = rp_build rp"
      using extends_build [OF rp_get_rest_extends] g at unfolding rp_get_def attributed_def by metis
    let ?g = "\<lparr>gr_resource = res, gr_scope = sc, gr_metrics = (\<lambda>_. None), gr_list = []\<rparr>"
    have b': "i = length (bl_order b)" "b' = b\<lparr>bl_groups := (bl_groups b)(group_key r gen sc := Some i),
        bl_order := bl_order b @ [?g], bl_pool := rp'\<rparr>"
      using run None g by (auto simp: builder_group_def Let_def)
    have "group_of rp U key (bl_order b' ! n)" if n: "bl_groups b' key = Some n" for key n
    proof (cases "key = group_key r gen sc")
      case True
      then have "n = length (bl_order b)" using n b' by auto
      then have "bl_order b' ! n = ?g" using b' by simp
      then show ?thesis unfolding group_of_def using True U res
        by (intro exI [of _ r] exI [of _ gen] exI [of _ sc]) simp
    next
      case False
      then have "bl_groups b key = Some n" using n b' by simp
      moreover from this have "n < length (bl_order b)" using ok by (simp add: builder_ok_def)
      ultimately show ?thesis using at by (simp add: b' attributed_def nth_append)
    qed
    moreover have "metrics_of D ?g" "group_placed ?g = []"
      by (simp_all add: metrics_of_def group_placed_def)
    ultimately show ?thesis
      using at ok' build res by (auto simp: attributed_def b' builder_placed_def)
  qed
qed

lemma builder_append_attr:
  assumes at: "attributed rp U D b" and inj: "keys_inj U" "inj_on md_index D"
    and U: "(r, gen, md_scopeIdx d) \<in> U" and d: "d \<in> D"
  shows "attributed rp U D (builder_append b r gen d dp) \<and>
    builder_placed (builder_append b r gen d dp) =
      builder_placed b + {#(rp_build rp r gen, md_scopeIdx d, new_metric d, dp)#}"
proof -
  obtain i b' where i: "builder_group b r gen (md_scopeIdx d) = (i, b')" by (rule prod.exhaust)
  note at' = builder_group_attr [OF at inj(1) U i]
  have ok: "builder_ok b" using at by (simp add: attributed_def)
  note ok' = builder_group_ok [OF ok i]
  let ?g = "bl_order b' ! i" and ?g' = "group_append (bl_order b' ! i) d dp"
  have g: "group_ok ?g" "metrics_of D ?g"
    using at' ok' by (simp_all add: builder_ok_def attributed_def)
  note app = group_append_placed [OF g inj(2) d, of dp] and appok = group_append_ok [OF g(1), of d dp]
  have eq: "builder_append b r gen d dp =
      b'\<lparr>bl_order := (bl_order b')[i := ?g'], bl_points := Suc (bl_points b')\<rparr>"
    by (simp add: builder_append_def i)
  have "group_of rp U key ((bl_order b')[i := ?g'] ! n)" if "bl_groups b' key = Some n" for key n
  proof -
    have "group_of rp U key (bl_order b' ! n)" using that at' by (simp add: attributed_def)
    then show ?thesis
      using appok that ok' by (cases "n = i") (auto simp: group_of_def builder_ok_def)
  qed
  moreover have "\<forall>h \<in> set ((bl_order b')[i := ?g']). metrics_of D h"
    using at' app ok' unfolding attributed_def
    by (metis in_set_conv_nth length_list_update nth_list_update nth_mem)
  moreover have "sum_list (map (mset \<circ> group_placed) ((bl_order b')[i := ?g'])) =
      sum_list (map (mset \<circ> group_placed) (bl_order b')) +
      {#(rp_build rp r gen, md_scopeIdx d, new_metric d, dp)#}"
    using ok' app at' by (intro sum_list_map_update) simp_all
  ultimately show ?thesis
    using builder_append_ok [OF ok, of r gen d dp] at' unfolding eq
    by (simp add: attributed_def builder_placed_def)
qed

text \<open>The triples a row files its points under, and where its points belong.\<close>

definition row_triples :: "plan \<Rightarrow> metricDef \<times> nat \<times> u64 \<Rightarrow> (nat \<times> u64 \<times> nat) set" where
  "row_triples p = (\<lambda>(d, j, k).
     let r = sr_resourceIdx (plan_series p d j); gen = generation p r k
     in {(r, gen, md_scopeIdx d), (r, gen - 1, md_scopeIdx d)})"

definition row_placed ::
  "go_float \<Rightarrow> plan \<Rightarrow> resourcePool \<Rightarrow> metricDef \<times> nat \<times> u64 \<Rightarrow>
   (resource \<times> nat \<times> metricPb \<times> dataPoint) multiset" where
  "row_placed F p rp = (\<lambda>(d, j, k).
     let s = plan_series p d j; r = sr_resourceIdx s; gen = generation p r k
     in {#(rp_build rp r gen, md_scopeIdx d, new_metric d, real_point F p d s k)#} +
        (if mg_StalenessMarkers (pl_cfg p) \<and> generationChanged p r k
         then {#(rp_build rp r (gen - 1), md_scopeIdx d, new_metric d, marker_point p d s k)#}
         else {#}))"

lemma addPoint_attr:
  assumes at: "attributed rp U D b" and inj: "keys_inj U" "inj_on md_index D"
    and U: "row_triples p row \<subseteq> U" and d: "fst row \<in> D"
  shows "attributed rp U D (addPoint F p row b) \<and>
    builder_placed (addPoint F p row b) = builder_placed b + row_placed F p rp row"
proof -
  obtain d j k where row: "row = (d, j, k)" by (rule prod_cases3)
  let ?s = "plan_series p d j" and ?r = "sr_resourceIdx (plan_series p d j)"
  let ?gen = "generation p ?r k"
  have t: "(?r, ?gen, md_scopeIdx d) \<in> U" "(?r, ?gen - 1, md_scopeIdx d) \<in> U" "d \<in> D"
    using U d by (simp_all add: row row_triples_def Let_def)
  note real = builder_append_attr [OF _ inj t(1,3)] and mark = builder_append_attr [OF at inj t(2,3)]
  show ?thesis
    using real [OF at] mark real [OF mark [THEN conjunct1]]
    by (simp add: row addPoint_def row_placed_def addStalenessMarker_def Let_def)
qed

lemma fold_addPoint_attr:
  assumes "attributed rp U D b" and "keys_inj U" "inj_on md_index D"
    and "\<forall>row \<in> set rows. row_triples p row \<subseteq> U \<and> fst row \<in> D"
  shows "attributed rp U D (fold (addPoint F p) rows b) \<and>
    builder_placed (fold (addPoint F p) rows b) =
      builder_placed b + sum_list (map (row_placed F p rp) rows)"
  using assms(1,4)
proof (induction rows arbitrary: b)
  case Nil
  then show ?case by simp
next
  case (Cons row rows)
  have "row_triples p row \<subseteq> U" "fst row \<in> D" using Cons.prems(2) by simp_all
  note step = addPoint_attr [OF Cons.prems(1) assms(2,3) this, of F]
  show ?case using Cons.IH [OF step [THEN conjunct1]] Cons.prems(2) step by (simp add: ac_simps)
qed

text \<open>
  Every point is filed under the right identity: in a request filled from a fresh builder,
  the point of series \<open>j\<close> of a metric at sweep \<open>k\<close> stands in a resource block with the
  attributes of its resource in its generation (the staleness marker: in the previous
  generation), in the scope block of the metric, under a metric with the metric's name, unit,
  type and temporality; nothing else is in the request. The 64-bit group keys are assumed not to
  collide among the triples in use, and the definitions have distinct indices.
\<close>

theorem builder_attribution:
  assumes "pool_inv rp" and "keys_inj (\<Union>row \<in> set rows. row_triples p row)"
    and "inj_on md_index (fst ` set rows)"
  shows "builder_placed (fold (addPoint F p) rows (newBuilder rp)) =
    sum_list (map (row_placed F p rp) rows)"
proof -
  let ?U = "\<Union>row \<in> set rows. row_triples p row" and ?D = "fst ` set rows"
  have "attributed rp ?U ?D (newBuilder rp)"
    using newBuilder_ok [OF assms(1)] by (simp add: attributed_def newBuilder_def)
  then have "builder_placed (fold (addPoint F p) rows (newBuilder rp)) =
      builder_placed (newBuilder rp) + sum_list (map (row_placed F p rp) rows)"
    by (rule fold_addPoint_attr [OF _ assms(2,3), THEN conjunct2]) auto
  then show ?thesis by (simp add: newBuilder_def builder_placed_def)
qed

text \<open>A series in two sweeps of the example plan.\<close>

lemma still_generation: "generation still_plan r k = 0"
  by (simp add: generation_def still_plan_def)

theorem builder_attribution_witness:
  "builder_placed (fold (addPoint exact_float still_plan) [(sample_metric, 0, 7), (sample_metric, 0, 8)]
     (newBuilder (newResourcePool [''web''] 10))) =
   sum_list (map (row_placed exact_float still_plan (newResourcePool [''web''] 10))
     [(sample_metric, 0, 7), (sample_metric, 0, 8)])"
proof (rule builder_attribution)
  show "pool_inv (newResourcePool [''web''] 10)" using sys_inv_init by (simp add: sys_inv_def)
  let ?r = "sr_resourceIdx (plan_series still_plan sample_metric 0)"
  have "(\<Union>row \<in> set [(sample_metric, 0, 7), (sample_metric, 0, 8)]. row_triples still_plan row) =
      {(?r, 0, md_scopeIdx sample_metric), (?r, - 1, md_scopeIdx sample_metric)}"
    by (auto simp: row_triples_def still_generation Let_def)
  moreover have "group_key r 0 sc \<noteq> group_key r (- 1) sc \<and> group_key r (- 1) sc \<noteq> group_key r 0 sc" for r sc
    by (simp add: group_key_def)
  ultimately show "keys_inj (\<Union>row \<in> set [(sample_metric, 0, 7), (sample_metric, 0, 8)].
      row_triples still_plan row)"
    by (auto simp: keys_inj_def inj_on_def)
qed simp

section \<open>Time windows\<close>

lemma sweep_less:
  assumes wf: "clock_wf p" and "sweep_in_range p a" "sweep_in_range p b" and "a < b"
  shows "pointTimeMs p sVal a r < pointTimeMs p sVal b r"
proof -
  have "pl_intervalMs p * 1 \<le> pl_intervalMs p * (b - a)"
    using wf assms(4) by (intro mult_left_mono) (auto simp: clock_wf_def)
  then have "pl_intervalMs p \<le> sweepTimeMs p b r - sweepTimeMs p a r"
    unfolding sweepTimeMs_eq [OF wf assms(2)] sweepTimeMs_eq [OF wf assms(3)]
    by (simp add: algebra_simps)
  moreover have "\<bar>jitter_off p sVal a\<bar> \<le> pl_jitterMs p" "\<bar>jitter_off p sVal b\<bar> \<le> pl_jitterMs p"
    using wf by (rule jitter_off_range)+
  moreover have "2 * pl_jitterMs p < pl_intervalMs p" using wf by (simp add: clock_wf_def)
  ultimately show ?thesis
    unfolding pointTimeMs_eq [OF wf assms(2)] pointTimeMs_eq [OF wf assms(3)] by linarith
qed

lemma unat_msToNano:
  "0 \<le> ms \<Longrightarrow> ms < 18446744073709 \<Longrightarrow> unat (msToNano ms) = nat ms * 1000000"
proof -
  assume ms: "0 \<le> ms" "ms < 18446744073709"
  have u: "unat (word_of_int ms :: u64) = nat ms" using ms by (intro unat_of_int64) auto
  have "nat ms < 18446744073709" using ms by linarith
  then have "unat (word_of_int ms * 1000000 :: u64) = nat ms * 1000000"
    using unat_mult64 [of "word_of_int ms" 1000000] u by simp
  then show ?thesis using ms by (simp add: msToNano_def)
qed

lemma msToNano_mono:
  assumes "a \<le> b" and "b < 18446744073709"
  shows "msToNano a \<le> msToNano b"
proof (cases "a < 0")
  case True
  then show ?thesis by (simp add: msToNano_def)
next
  case False
  then show ?thesis
    using assms unat_msToNano [of a] unat_msToNano [of b] by (simp add: word_le_nat_alt nat_mono)
qed

text \<open>
  \<open>times_in_range\<close>: the sweeps from the start of the epoch to \<open>k\<close> stay in the clock's range and
  \<open>k\<close> is before the year 2554, the last one a nanosecond timestamp can express.
\<close>

definition times_in_range :: "plan \<Rightarrow> seriesRef \<Rightarrow> u64 \<Rightarrow> bool" where
  "times_in_range p s k \<longleftrightarrow> epoch_fits p k \<and> sweep_in_range p (int (unat k)) \<and>
     sweep_in_range p (int (unat k) - 1) \<and> sweep_in_range p (epochStart s p k) \<and>
     pointTimeMs p (sr_sVal s) (int (unat k)) (sr_resourceIdx s) < 18446744073709"

lemma dp_fields [simp]:
  "dp_start (point_base p s k start body exs) = start"
  "dp_time (point_base p s k start body exs) = point_time p s k"
  by (simp_all add: point_base_def)

lemma real_point_time: "dp_time (real_point F p d s k) = point_time p s k"
  by (simp add: real_point_def sum_point_def histogram_point_def exp_point_def summary_point_def
      Let_def split: metricType.splits prod.splits)

definition uses_epoch :: "metricDef \<Rightarrow> bool" where
  "uses_epoch d \<longleftrightarrow> md_typ d = TypeSummary \<or>
     (md_typ d \<noteq> TypeGauge \<and> md_temporality d = TemporalityCumulative)"

lemma real_point_start:
  "dp_start (real_point F p d s k) =
     (if md_typ d = TypeGauge then 0
      else if uses_epoch d then epoch_time p s (epochStart s p k)
      else epoch_time p s (i64 (sint k - 1)))"
  by (simp add: real_point_def sum_point_def histogram_point_def exp_point_def summary_point_def
      windowStart_def uses_epoch_def epoch_time_def Let_def split: metricType.splits prod.splits)

text \<open>
  The window of a data point: it never starts after it ends, and for delta metrics the
  windows of one series tile the time line, each one starting exactly at the timestamp of the
  series' previous point, jitter included.
\<close>

theorem point_windows:
  assumes wf: "clock_wf p" and r: "times_in_range p s k" and k: "unat k < 4611686018427387903"
  shows "dp_start (real_point F p d s k) \<le> dp_time (real_point F p d s k) \<and>
    (md_typ d \<noteq> TypeGauge \<and> \<not> uses_epoch d \<longrightarrow>
       dp_start (real_point F p d s (k + 1)) = dp_time (real_point F p d s k))"
proof -
  let ?t = "\<lambda>x. pointTimeMs p (sr_sVal s) x (sr_resourceIdx s)"
  have sk: "sint k = int (unat k)" using k by (intro sint_small) simp
  have pred: "i64 (int (unat k) - 1) = int (unat k) - 1"
    using k by (intro i64_id) (simp add: in_i64_def)
  have before: "msToNano (?t x) \<le> msToNano (?t (int (unat k)))"
    if "sweep_in_range p x" "x \<le> int (unat k)" for x
  proof -
    have "?t x \<le> ?t (int (unat k))"
      using sweep_less [OF wf that(1), of "int (unat k)"] r that(2)
      by (cases "x = int (unat k)") (auto simp: times_in_range_def less_le)
    then show ?thesis using r by (intro msToNano_mono) (auto simp: times_in_range_def)
  qed
  have "epochStart s p k \<le> int (unat k)"
    using r epochStart_range [of p k s] by (simp add: times_in_range_def)
  then have "dp_start (real_point F p d s k) \<le> dp_time (real_point F p d s k)"
    using before r
    by (auto simp: real_point_start real_point_time epoch_time_def point_time_def sk pred times_in_range_def)
  moreover have "unat (k + 1) = Suc (unat k)" using k unat_add64 [of k 1] by simp
  then have "sint (k + 1) = sint k + 1" using k sk by (simp add: sint_small)
  then have "i64 (sint (k + 1) - 1) = sint k" using k sk by (simp add: in_i64_def)
  ultimately show ?thesis
    by (simp add: real_point_start real_point_time epoch_time_def point_time_def)
qed

text \<open>The example plan at its second sweep.\<close>

theorem point_windows_witness:
  "dp_start (real_point exact_float still_plan sample_metric sample_series 1) \<le>
   dp_time (real_point exact_float still_plan sample_metric sample_series 1)"
proof -
  have wf: "clock_wf still_plan" by (simp add: clock_wf_def still_plan_def sample_plan_def)
  have r: "sweep_in_range still_plan x" if "\<bar>x\<bar> \<le> 1" for x
  proof -
    have "\<bar>x * 15000\<bar> \<le> 15000" using that by linarith
    then show ?thesis by (simp add: sweep_in_range_def still_plan_def sample_plan_def)
  qed
  have f: "epoch_fits still_plan 1" by (simp add: epoch_fits_def sweep_fits_def still_plan_def)
  have e: "epochStart sample_series still_plan 1 = 0"
    using sample_phase by (simp add: epochStart_max [OF f] still_start)
  have "pointTimeMs still_plan v 1 i < 18446744073709" for v i
  proof -
    have "clock_phase still_plan i < 15000" "\<bar>jitter_off still_plan v 1\<bar> \<le> 500"
      using clock_phase_range [OF wf, of i] jitter_off_range [OF wf, of v 1]
      by (simp_all add: still_plan_def sample_plan_def)
    then show ?thesis
      unfolding pointTimeMs_eq [OF wf r [of 1, simplified]] sweepTimeMs_eq [OF wf r [of 1, simplified]]
      by (simp add: still_plan_def sample_plan_def)
  qed
  then have "times_in_range still_plan sample_series 1"
    using r f by (simp add: times_in_range_def e)
  from point_windows [OF wf this, of exact_float sample_metric] show ?thesis by simp
qed

end
