(* ===== verification/MgWorker.thy ===== *)
theory MgWorker
  imports MgBuilder
begin

text \<open>
  The generator workers (\<open>internal/metricgen/worker.go\<close>, \<open>scheduler.go\<close>, and the parts of
  \<open>client.go\<close> and \<open>client_http.go\<close> that decide something): the target of an export, the retry
  loop of \<open>flush\<close>, the checkpoint between chunks of points, the main loop over a worker's stripe
  of the series, and the rate limiter settings.

  What the world answers (the marshaled size, the result of an export attempt, whether the
  context is done, whether the partial request is stale, whether the limiter grants a chunk) is
  an environment of functions of a step counter.
\<close>

section \<open>Targets\<close>

definition parseTarget :: "string \<Rightarrow> string \<times> bool" where
  "parseTarget url =
     (if hasPrefix url ''http://'' then (trimPrefix url ''http://'', True)
      else if hasPrefix url ''https://'' then (trimPrefix url ''https://'', False)
      else if hasPrefix url ''grpc://'' then (trimPrefix url ''grpc://'', False)
      else (url, False))"

definition grpc_plaintext :: "mg_config \<Rightarrow> bool" where
  "grpc_plaintext cfg = (if mg_Insecure cfg then True else snd (parseTarget (mg_URL cfg)))"

datatype transport = GRPC | HTTP

definition mg_dial :: "mg_config \<Rightarrow> transport" where
  "mg_dial cfg = (if mg_protocol cfg = ''http'' then HTTP else GRPC)"

text \<open>\<open>signalURL\<close> on the path of the base URL.\<close>

definition signal_path :: "string \<Rightarrow> string \<Rightarrow> string" where
  "signal_path path signalPath =
     (let p = trimRight (CHR ''/'') path in if hasSuffix p signalPath then p else p @ signalPath)"

section \<open>Errors of an export\<close>

text \<open>
  The error of an export as the code inspects it: a 413 of the HTTP transport, a gRPC status
  with its code and message, anything else.
\<close>

datatype export_err = HTTPTooLarge | GrpcStatus bool string | OtherErr

definition isMessageTooLarge :: "export_err option \<Rightarrow> bool" where
  "isMessageTooLarge err =
     (case err of
        None \<Rightarrow> False
      | Some HTTPTooLarge \<Rightarrow> True
      | Some (GrpcStatus resourceExhausted msg) \<Rightarrow> resourceExhausted \<and> contains msg ''larger than max''
      | Some OtherErr \<Rightarrow> False)"

section \<open>The stripe of a worker\<close>

function stride :: "nat \<Rightarrow> nat \<Rightarrow> nat \<Rightarrow> nat list" where
  "stride j threads n = (if threads = 0 \<or> n \<le> j then [] else j # stride (j + threads) threads n)"
  by pat_completeness auto
termination by (relation "measure (\<lambda>(j, threads, n). n - j)") auto

declare stride.simps [simp del]

definition sweep_rows :: "plan \<Rightarrow> nat \<Rightarrow> nat \<Rightarrow> u64 \<Rightarrow> (metricDef \<times> nat \<times> u64) list" where
  "sweep_rows p ident threads k =
     concat (map (\<lambda>i. let d = metricAt p i k in map (\<lambda>j. (d, j, k)) (stride ident threads (md_cardinality d)))
       [0..<length (pl_metrics p)])"

definition worker_rows :: "plan \<Rightarrow> nat \<Rightarrow> nat \<Rightarrow> nat \<Rightarrow> (metricDef \<times> nat \<times> u64) list" where
  "worker_rows p ident threads sweeps =
     concat (map (\<lambda>k. sweep_rows p ident threads (of_nat k)) [0..<sweeps])"

section \<open>Flushing\<close>

definition baseFlushBackoff :: int where "baseFlushBackoff = 250 * ns_per_ms"
definition maxFlushBackoff :: int where "maxFlushBackoff = 5 * ns_per_s"
definition maxFlushAttempts :: nat where "maxFlushAttempts = 5"

record 'q send_env =
  se_marshal :: "'q \<Rightarrow> nat option"
  se_export :: "nat \<Rightarrow> nat \<Rightarrow> export_err option \<times> nat"
  se_done :: "nat \<Rightarrow> nat \<Rightarrow> bool"
  se_wait_done :: "nat \<Rightarrow> nat \<Rightarrow> bool"

text \<open>
  \<open>se_export n a\<close> is the result of attempt \<open>a\<close> of flush \<open>n\<close>: the error and the number of
  rejected points; \<open>se_done\<close> and \<open>se_wait_done\<close> say whether the context was done after the
  attempt and during the back-off. \<open>verdict\<close> is how a flush ends.
\<close>

datatype verdict = Delivered nat | Dropped | DroppedOnShutdown

text \<open>The attempts of one flush: the verdict, the attempts made and the back-offs waited.\<close>

function flush_loop :: "'q send_env \<Rightarrow> nat \<Rightarrow> nat \<Rightarrow> int \<Rightarrow> int list \<Rightarrow> verdict \<times> nat \<times> int list" where
  "flush_loop E n attempt backoff waits =
     (case se_export E n attempt of (ferr, rejected) \<Rightarrow>
        if isMessageTooLarge ferr then (Dropped, attempt, waits)
        else if ferr = None then (Delivered rejected, attempt, waits)
        else if se_done E n attempt \<or> maxFlushAttempts \<le> attempt then (Dropped, attempt, waits)
        else if se_wait_done E n attempt then (DroppedOnShutdown, attempt, waits)
        else flush_loop E n (Suc attempt) (min (backoff * 2) maxFlushBackoff) (waits @ [backoff]))"
  by pat_completeness auto
termination
  by (relation "measure (\<lambda>(E, n, attempt, backoff, waits). maxFlushAttempts - attempt)") auto

declare flush_loop.simps [simp del]

record stats =
  st_points :: u64
  st_requests :: u64
  st_bytes :: u64
  st_rejected :: u64
  st_failed :: u64

record worker =
  wk_builder :: builder
  wk_allowance :: int
  wk_flushes :: nat
  wk_checks :: nat
  wk_waits :: nat
  wk_sent :: "builder list"
  wk_lost :: "builder list"
  wk_stats :: stats

definition count_failed :: "verdict \<Rightarrow> nat \<Rightarrow> nat" where
  "count_failed v attempts = (case v of Delivered _ \<Rightarrow> attempts - 1 | _ \<Rightarrow> attempts)"

definition worker_flush :: "builder send_env \<Rightarrow> worker \<Rightarrow> worker" where
  "worker_flush E w =
     (let b = wk_builder w; n = wk_flushes w; st = wk_stats w in
      if builder_len b = 0 then w
      else case se_marshal E b of
        None \<Rightarrow>
          w\<lparr>wk_builder := builder_reset b, wk_flushes := Suc n, wk_lost := wk_lost w @ [b],
            wk_stats := st\<lparr>st_failed := st_failed st + 1\<rparr>\<rparr>
      | Some sz \<Rightarrow>
          (case flush_loop E n 1 baseFlushBackoff [] of (v, attempts, waits) \<Rightarrow>
             let st = st\<lparr>st_failed := st_failed st + of_nat (count_failed v attempts)\<rparr>;
                 w = w\<lparr>wk_builder := builder_reset b, wk_flushes := Suc n\<rparr>
             in case v of
                  Delivered rejected \<Rightarrow>
                    w\<lparr>wk_sent := wk_sent w @ [b],
                      wk_stats := st\<lparr>st_points := st_points st + of_nat (builder_len b),
                                     st_requests := st_requests st + 1,
                                     st_bytes := st_bytes st + of_nat sz,
                                     st_rejected := st_rejected st + of_nat rejected\<rparr>\<rparr>
                | _ \<Rightarrow> w\<lparr>wk_lost := wk_lost w @ [b], wk_stats := st\<rparr>))"

section \<open>The main loop\<close>

record world =
  wo_send :: "builder send_env"
  wo_done :: "nat \<Rightarrow> bool"
  wo_stale :: "nat \<Rightarrow> bool"
  wo_limited :: bool
  wo_grant :: "nat \<Rightarrow> bool"
  wo_chunk :: int

datatype stop = StoppedByContext | LimiterError | Finished

text \<open>\<open>checkpoint\<close>: cancellation, then the stale partial request, then the limiter.\<close>

definition checkpoint :: "world \<Rightarrow> worker \<Rightarrow> stop option \<times> worker" where
  "checkpoint W w =
     (let n = wk_checks w; w = w\<lparr>wk_checks := Suc n\<rparr> in
      if wo_done W n then (Some StoppedByContext, w)
      else let w = (if 0 < builder_len (wk_builder w) \<and> wo_stale W n then worker_flush (wo_send W) w else w)
           in if wo_limited W \<and> \<not> wo_grant W n
              then (Some (if wo_done W (Suc n) then StoppedByContext else LimiterError), w)
              else (None, w\<lparr>wk_allowance := wo_chunk W, wk_waits := Suc (wk_waits w)\<rparr>))"

definition worker_point ::
  "go_float \<Rightarrow> plan \<Rightarrow> world \<Rightarrow> nat \<Rightarrow> metricDef \<times> nat \<times> u64 \<Rightarrow> worker \<Rightarrow> worker" where
  "worker_point F p W limit row w =
     (let w = w\<lparr>wk_allowance := wk_allowance w - 1, wk_builder := addPoint F p row (wk_builder w)\<rparr>
      in if limit \<le> builder_len (wk_builder w) then worker_flush (wo_send W) w else w)"

fun worker_loop ::
  "go_float \<Rightarrow> plan \<Rightarrow> world \<Rightarrow> nat \<Rightarrow> (metricDef \<times> nat \<times> u64) list \<Rightarrow> worker \<Rightarrow>
   stop \<times> worker \<times> (metricDef \<times> nat \<times> u64) list" where
  "worker_loop F p W limit [] w = (Finished, w, [])"
| "worker_loop F p W limit (row # rows) w =
     (case (if wk_allowance w = 0 then checkpoint W w else (None, w)) of
        (Some s, w') \<Rightarrow> (s, w', row # rows)
      | (None, w') \<Rightarrow> worker_loop F p W limit rows (worker_point F p W limit row w'))"

definition worker_start :: "resourcePool \<Rightarrow> worker" where
  "worker_start rp =
     \<lparr>wk_builder = newBuilder rp, wk_allowance = 0, wk_flushes = 0, wk_checks = 0, wk_waits = 0,
      wk_sent = [], wk_lost = [],
      wk_stats = \<lparr>st_points = 0, st_requests = 0, st_bytes = 0, st_rejected = 0, st_failed = 0\<rparr>\<rparr>"

definition worker_run ::
  "go_float \<Rightarrow> plan \<Rightarrow> world \<Rightarrow> nat \<Rightarrow> nat \<Rightarrow> nat \<Rightarrow> nat \<Rightarrow> resourcePool \<Rightarrow>
   stop \<times> worker \<times> (metricDef \<times> nat \<times> u64) list" where
  "worker_run F p W limit ident threads sweeps rp =
     (case worker_loop F p W limit (worker_rows p ident threads sweeps) (worker_start rp) of
        (Finished, w, rest) \<Rightarrow> (Finished, worker_flush (wo_send W) w, rest)
      | r \<Rightarrow> r)"

section \<open>The rate limiter\<close>

definition limiter_settings :: "int \<Rightarrow> int \<Rightarrow> int \<times> int" where
  "limiter_settings pointsPerSecond threads =
     (let chunk = max 1 (min 256 (pointsPerSecond div (threads * 10)));
          burst = max (chunk * threads * 2) (pointsPerSecond div 10)
      in (chunk, burst))"

section \<open>Stripes: lemmas\<close>

lemma stride_mem: "0 < threads \<Longrightarrow> x \<in> set (stride j threads n) \<longleftrightarrow> j \<le> x \<and> x < n \<and> x mod threads = j mod threads"
proof (induction j threads n rule: stride.induct)
  case (1 j threads n)
  show ?case
  proof (cases "n \<le> j")
    case True
    then show ?thesis by (simp add: stride.simps [of j])
  next
    case False
    have step: "x mod threads = j mod threads \<and> j < x \<longrightarrow> j + threads \<le> x"
      using "1.prems" by (metis le_add_diff_inverse less_imp_le mod_eq_dvd_iff_nat dvd_imp_le zero_less_diff add_le_cancel_left)
    have "x \<in> set (stride j threads n) \<longleftrightarrow> x = j \<or> x \<in> set (stride (j + threads) threads n)"
      using False "1.prems" by (simp add: stride.simps [of j])
    also have "\<dots> \<longleftrightarrow> x = j \<or> (j + threads \<le> x \<and> x < n \<and> x mod threads = j mod threads)"
      using "1.IH" False "1.prems" by simp
    also have "\<dots> \<longleftrightarrow> j \<le> x \<and> x < n \<and> x mod threads = j mod threads"
      using step False "1.prems" by auto
    finally show ?thesis .
  qed
qed

lemma stride_distinct: "0 < threads \<Longrightarrow> distinct (stride j threads n)"
proof (induction j threads n rule: stride.induct)
  case (1 j threads n)
  show ?case
  proof (cases "n \<le> j")
    case True
    then show ?thesis by (simp add: stride.simps [of j])
  next
    case False
    then show ?thesis
      using "1.IH" "1.prems" stride_mem [OF "1.prems", of j "j + threads" n]
      by (simp add: stride.simps [of j])
  qed
qed

lemma count_concat_upt:
  "count (mset (concat (map f [0..<n]))) x = (\<Sum>i<n. count (mset (f i)) x)"
  by (induction n) simp_all

text \<open>The stripes of all workers partition the series of a metric.\<close>

lemma stride_partition:
  assumes t: "0 < threads"
  shows "mset (concat (map (\<lambda>i. stride i threads n) [0..<threads])) = mset [0..<n]"
proof (rule multiset_eqI)
  fix x
  have "count (mset (stride i threads n)) x = (if i = x mod threads \<and> x < n then 1 else 0)"
    if "i < threads" for i
  proof -
    have "x \<in> set (stride i threads n) \<longleftrightarrow> i = x mod threads \<and> x < n"
      using stride_mem [OF t, of x i n] that by auto
    then show ?thesis
      using stride_distinct [OF t, of i n] unfolding distinct_count_atmost_1 by simp
  qed
  then have "(\<Sum>i<threads. count (mset (stride i threads n)) x) =
      (\<Sum>i<threads. if i = x mod threads \<and> x < n then 1 else 0)" by (intro sum.cong) auto
  also have "\<dots> = (if x < n then 1 else 0)" using t by (simp add: sum.delta)
  also have "\<dots> = count (mset [0..<n]) x"
    using distinct_upt [of 0 n] unfolding distinct_count_atmost_1 by simp
  finally show "count (mset (concat (map (\<lambda>i. stride i threads n) [0..<threads]))) x = count (mset [0..<n]) x"
    unfolding count_concat_upt .
qed

text \<open>The rows of one sweep, over all workers and over one metric after the other.\<close>

definition all_rows :: "plan \<Rightarrow> u64 \<Rightarrow> (metricDef \<times> nat \<times> u64) list" where
  "all_rows p k = concat (map (\<lambda>d. map (\<lambda>j. (d, j, k)) [0..<md_cardinality d]) (pl_metrics p))"

lemma mset_concat_map: "mset (concat (map f xs)) = sum_mset (image_mset (\<lambda>x. mset (f x)) (mset xs))"
  by (induction xs) simp_all

lemma sum_mset_swap:
  "sum_list (map (\<lambda>i. sum_list (map (\<lambda>j. f i j) ys)) xs) =
   sum_list (map (\<lambda>j. sum_list (map (\<lambda>i. f i j :: 'a multiset) xs)) ys)"
  by (induction xs) (simp_all add: sum_list_addf)

lemma sum_list_mset_map:
  "sum_list (map (\<lambda>i. mset (map g (f i))) xs) = image_mset g (mset (concat (map f xs)))"
  by (induction xs) simp_all

lemma sum_list_image: "sum_list (map (\<lambda>n. g (f n)) xs) = sum_mset (image_mset g (mset (map f xs)))"
  by (induction xs) simp_all

lemma mset_concat_sum: "mset (concat xss) = sum_list (map mset xss)"
  by (induction xss) simp_all

text \<open>
  C35. In each sweep the workers together visit every series of every metric exactly once: the
  rows of all workers are, up to order, the pairs of a metric of the plan and a series index
  below its cardinality, however many workers there are and whatever the start offset of the
  sweep.
\<close>

theorem workers_cover_sweep:
  assumes t: "0 < threads" and m: "0 < length (pl_metrics p)" "length (pl_metrics p) < 18446744073709551616"
  shows "mset (concat (map (\<lambda>i. sweep_rows p i threads k) [0..<threads])) = mset (all_rows p k)"
proof -
  let ?n = "length (pl_metrics p)"
  let ?row = "\<lambda>i n. map (\<lambda>j. (metricAt p n k, j, k)) (stride i threads (md_cardinality (metricAt p n k)))"
  let ?all = "\<lambda>d. mset (map (\<lambda>j. (d, j, k)) [0..<md_cardinality d])"
  have "mset (concat (map (\<lambda>i. sweep_rows p i threads k) [0..<threads])) =
      sum_list (map (\<lambda>i. sum_list (map (\<lambda>n. mset (?row i n)) [0..<?n])) [0..<threads])"
    by (simp add: mset_concat_sum sweep_rows_def Let_def comp_def)
  also have "\<dots> = sum_list (map (\<lambda>n. sum_list (map (\<lambda>i. mset (?row i n)) [0..<threads])) [0..<?n])"
    by (rule sum_mset_swap)
  also have "\<dots> = sum_list (map (\<lambda>n. ?all (metricAt p n k)) [0..<?n])"
  proof -
    have "sum_list (map (\<lambda>i. mset (?row i n)) [0..<threads]) = ?all (metricAt p n k)" for n
    proof -
      let ?c = "md_cardinality (metricAt p n k)"
      have "sum_list (map (\<lambda>i. mset (?row i n)) [0..<threads]) =
          image_mset (\<lambda>j. (metricAt p n k, j, k)) (mset (concat (map (\<lambda>i. stride i threads ?c) [0..<threads])))"
        by (rule sum_list_mset_map)
      also have "\<dots> = ?all (metricAt p n k)" unfolding stride_partition [OF t] by simp
      finally show ?thesis .
    qed
    then show ?thesis by simp
  qed
  also have "\<dots> = sum_mset (image_mset ?all (mset (map (\<lambda>n. metricAt p n k) [0..<?n])))"
    by (rule sum_list_image)
  also have "\<dots> = sum_mset (image_mset ?all (mset (pl_metrics p)))"
    using metricAt_perm [OF refl m, of k] by simp
  also have "\<dots> = mset (all_rows p k)"
    by (simp add: all_rows_def mset_concat_map)
  finally show ?thesis .
qed

theorem workers_cover_sweep_witness:
  "mset (concat (map (\<lambda>i. sweep_rows sample_plan i 3 5) [0..<3])) = mset (all_rows sample_plan 5)"
  by (rule workers_cover_sweep) (simp_all add: sample_plan_def)

section \<open>Flushing: lemmas\<close>

definition flush_schedule :: "int list" where
  "flush_schedule = [250 * ns_per_ms, 500 * ns_per_ms, 1000 * ns_per_ms, 2000 * ns_per_ms]"

lemma flush_loop_inv:
  assumes "flush_loop E n att backoff ws = (v, attempts, waits)"
    and "1 \<le> att" "att \<le> 5" and "att \<le> 4 \<longrightarrow> backoff = flush_schedule ! (att - 1)"
    and "ws = take (att - 1) flush_schedule"
  shows "att \<le> attempts \<and> attempts \<le> 5 \<and> waits = take (attempts - 1) flush_schedule \<and>
    (\<forall>a. att \<le> a \<and> a < attempts \<longrightarrow>
       fst (se_export E n a) \<noteq> None \<and> \<not> isMessageTooLarge (fst (se_export E n a)) \<and> \<not> se_done E n a) \<and>
    (\<forall>r. v = Delivered r \<longleftrightarrow> se_export E n attempts = (None, r))"
  using assms
proof (induction E n att backoff ws rule: flush_loop.induct)
  case (1 E n att backoff ws)
  obtain ferr rej where x: "se_export E n att = (ferr, rej)" by (rule prod.exhaust)
  show ?case
  proof (cases "isMessageTooLarge ferr \<or> ferr = None \<or> se_done E n att \<or> maxFlushAttempts \<le> att \<or>
      se_wait_done E n att")
    case True
    then have "attempts = att" "waits = ws" "\<forall>r. v = Delivered r \<longleftrightarrow> se_export E n att = (None, r)"
      using "1.prems"(1) x
      by (auto simp: flush_loop.simps [of E n att] isMessageTooLarge_def split: if_splits option.splits)
    then show ?thesis using "1.prems" by auto
  next
    case False
    then have att: "att < 5" by (simp add: maxFlushAttempts_def)
    have step: "flush_loop E n (Suc att) (min (backoff * 2) maxFlushBackoff) (ws @ [backoff]) = (v, attempts, waits)"
      using "1.prems"(1) False x by (auto simp: flush_loop.simps [of E n att])
    have cases: "att = 1 \<or> att = 2 \<or> att = 3 \<or> att = 4" using "1.prems"(2) att by linarith
    have sched: "Suc att \<le> 4 \<longrightarrow> min (backoff * 2) maxFlushBackoff = flush_schedule ! (Suc att - 1)"
      "ws @ [backoff] = take (Suc att - 1) flush_schedule"
      using cases "1.prems"(4,5) by (auto simp: flush_schedule_def maxFlushBackoff_def)
    have "Suc att \<le> 5" "1 \<le> Suc att" using att by simp_all
    note ih = "1.IH" [OF x [symmetric] _ _ _ _ step this(2,1) sched]
    have "fst (se_export E n a) \<noteq> None \<and> \<not> isMessageTooLarge (fst (se_export E n a)) \<and> \<not> se_done E n a"
      if "att \<le> a" "a < attempts" for a
      using ih False x that by (cases "a = att") auto
    then show ?thesis using ih False att by auto
  qed
qed

text \<open>
  C38. The retry loop of a flush: at most five attempts, with the back-offs 250 ms, 500 ms, 1 s
  and 2 s between them; every attempt but the last failed with a retryable error; the request
  counts as delivered exactly when the last attempt succeeded, and a request that is too large
  is never retried.
\<close>

theorem flush_loop_bounded:
  assumes "flush_loop E n 1 baseFlushBackoff [] = (v, attempts, waits)"
  shows "1 \<le> attempts \<and> attempts \<le> 5 \<and> waits = take (attempts - 1) flush_schedule \<and>
    (\<forall>a. 1 \<le> a \<and> a < attempts \<longrightarrow>
       fst (se_export E n a) \<noteq> None \<and> \<not> isMessageTooLarge (fst (se_export E n a)) \<and> \<not> se_done E n a) \<and>
    (\<forall>r. v = Delivered r \<longleftrightarrow> se_export E n attempts = (None, r))"
  using flush_loop_inv [OF assms] by (simp add: flush_schedule_def baseFlushBackoff_def)

text \<open>An endpoint that fails twice and then accepts.\<close>

definition flaky_env :: "builder send_env" where
  "flaky_env = \<lparr>se_marshal = (\<lambda>_. Some 100),
     se_export = (\<lambda>_ a. if a < 3 then (Some OtherErr, 0) else (None, 0)),
     se_done = (\<lambda>_ _. False), se_wait_done = (\<lambda>_ _. False)\<rparr>"

theorem flush_loop_bounded_witness:
  "flush_loop flaky_env 0 1 baseFlushBackoff [] =
     (Delivered 0, 3, [250 * ns_per_ms, 500 * ns_per_ms]) \<and>
   [250 * ns_per_ms, 500 * ns_per_ms] = take (3 - 1) flush_schedule"
proof -
  have run: "flush_loop flaky_env 0 1 baseFlushBackoff [] =
      (Delivered 0, 3, [250 * ns_per_ms, 500 * ns_per_ms])"
    by (simp add: flush_loop.simps flaky_env_def isMessageTooLarge_def maxFlushAttempts_def
        baseFlushBackoff_def maxFlushBackoff_def)
  show ?thesis using flush_loop_bounded [OF run] run by blast
qed

section \<open>Conservation of points\<close>

definition worker_points :: "worker \<Rightarrow> dataPoint multiset" where
  "worker_points w = flushed_items builder_points (wk_sent w) +
     flushed_items builder_points (wk_lost w) + builder_points (wk_builder w)"

definition stats_ok :: "worker \<Rightarrow> bool" where
  "stats_ok w \<longleftrightarrow> st_requests (wk_stats w) = of_nat (length (wk_sent w)) \<and>
     st_points (wk_stats w) = of_nat (sum_list (map builder_len (wk_sent w)))"

definition worker_ok :: "worker \<Rightarrow> bool" where
  "worker_ok w \<longleftrightarrow> builder_ok (wk_builder w) \<and> stats_ok w"

lemma worker_flush_ok:
  assumes "worker_ok w"
  shows "worker_ok (worker_flush E w) \<and> worker_points (worker_flush E w) = worker_points w \<and>
    builder_len (wk_builder (worker_flush E w)) = 0 \<and>
    wk_allowance (worker_flush E w) = wk_allowance w \<and> wk_waits (worker_flush E w) = wk_waits w"
proof (cases "builder_len (wk_builder w) = 0")
  case True
  then show ?thesis using assms by (simp add: worker_flush_def Let_def)
next
  case False
  have b: "builder_ok (wk_builder w)" using assms by (simp add: worker_ok_def)
  note r = builder_reset_ok [OF b]
  have l: "builder_len (builder_reset (wk_builder w)) = 0" by (simp add: builder_len_def builder_reset_def)
  show ?thesis
  proof (cases "se_marshal E (wk_builder w)")
    case None
    then show ?thesis
      using False assms r l
      by (simp add: worker_flush_def worker_ok_def stats_ok_def worker_points_def flushed_items_def
          Let_def ac_simps)
  next
    case (Some sz)
    obtain v attempts waits where f: "flush_loop E (wk_flushes w) 1 baseFlushBackoff [] = (v, attempts, waits)"
      by (rule prod_cases3)
    then show ?thesis
      using False Some assms r l
      by (cases v) (simp_all add: worker_flush_def worker_ok_def stats_ok_def worker_points_def
          flushed_items_def Let_def ac_simps)
  qed
qed

lemma checkpoint_ok:
  assumes "worker_ok w" and "checkpoint W w = (s, w')"
  shows "worker_ok w' \<and> worker_points w' = worker_points w \<and>
    (s = None \<longrightarrow> wk_allowance w' = wo_chunk W \<and> wk_waits w' = Suc (wk_waits w)) \<and>
    (s \<noteq> None \<longrightarrow> wk_allowance w' = wk_allowance w \<and> wk_waits w' = wk_waits w)"
proof -
  let ?w = "w\<lparr>wk_checks := Suc (wk_checks w)\<rparr>"
  have ok: "worker_ok ?w" "worker_points ?w = worker_points w"
    using assms(1) by (simp_all add: worker_ok_def stats_ok_def worker_points_def)
  note fl = worker_flush_ok [OF ok(1), of "wo_send W"]
  have upd: "worker_ok (x\<lparr>wk_allowance := a, wk_waits := b\<rparr>) = worker_ok x"
    "worker_points (x\<lparr>wk_allowance := a, wk_waits := b\<rparr>) = worker_points x" for x a b
    by (simp_all add: worker_ok_def stats_ok_def worker_points_def)
  show ?thesis
    using assms(2) ok fl by (auto simp: checkpoint_def Let_def upd split: if_splits)
qed

lemma worker_point_ok:
  assumes "worker_ok w"
  shows "worker_ok (worker_point F p W limit row w) \<and>
    worker_points (worker_point F p W limit row w) = worker_points w + point_row F p row \<and>
    wk_allowance (worker_point F p W limit row w) = wk_allowance w - 1 \<and>
    wk_waits (worker_point F p W limit row w) = wk_waits w"
proof -
  let ?w = "w\<lparr>wk_allowance := wk_allowance w - 1, wk_builder := addPoint F p row (wk_builder w)\<rparr>"
  have b: "builder_ok (wk_builder w)" using assms by (simp add: worker_ok_def)
  have ok: "worker_ok ?w" "worker_points ?w = worker_points w + point_row F p row"
    using addPoint_ok [OF b, of F p row] assms
    by (simp_all add: worker_ok_def stats_ok_def worker_points_def ac_simps)
  show ?thesis
    using ok worker_flush_ok [OF ok(1), of "wo_send W"] by (simp add: worker_point_def Let_def)
qed

text \<open>
  \<open>granted\<close>: the rows processed so far and the allowance left are what the limiter granted.
\<close>

lemma worker_loop_ok:
  assumes "worker_ok w" and "worker_loop F p W limit rows w = (s, w', rest)"
    and "0 < wo_chunk W" and "0 \<le> wk_allowance w"
  shows "worker_ok w' \<and> (\<exists>done. rows = done @ rest \<and>
      worker_points w' = worker_points w + sum_list (map (point_row F p) done) \<and>
      int (length done) + wk_allowance w' =
        wk_allowance w + wo_chunk W * (int (wk_waits w') - int (wk_waits w))) \<and>
    0 \<le> wk_allowance w' \<and> (s = Finished \<longrightarrow> rest = [])"
  using assms(1,2,4)
proof (induction rows arbitrary: w)
  case Nil
  then show ?case by auto
next
  case (Cons row rows)
  obtain s1 w1 where c: "(if wk_allowance w = 0 then checkpoint W w else (None, w)) = (s1, w1)"
    by (rule prod.exhaust)
  have w1: "worker_ok w1" "worker_points w1 = worker_points w"
    using checkpoint_ok [OF Cons.prems(1)] c Cons.prems(1) by (auto split: if_splits)
  show ?case
  proof (cases s1)
    case (Some stop)
    have r: "s = stop" "w' = w1" "rest = row # rows"
      using Cons.prems(2) c Some by simp_all
    have "wk_allowance w1 = wk_allowance w" "wk_waits w1 = wk_waits w"
      using checkpoint_ok [OF Cons.prems(1)] c Some by (auto split: if_splits)
    moreover have "stop \<noteq> Finished"
      using c Some by (auto simp: checkpoint_def Let_def split: if_splits)
    ultimately show ?thesis using w1 Cons.prems(3) r by auto
  next
    case None
    let ?w2 = "worker_point F p W limit row w1"
    have run: "worker_loop F p W limit rows ?w2 = (s, w', rest)"
      using Cons.prems(2) c None by simp
    note pt = worker_point_ok [OF w1(1), of F p W limit row]
    have allow: "wk_allowance w1 = (if wk_allowance w = 0 then wo_chunk W else wk_allowance w)"
      "wk_waits w1 = (if wk_allowance w = 0 then Suc (wk_waits w) else wk_waits w)"
      using checkpoint_ok [OF Cons.prems(1)] c None by (auto split: if_splits)
    then have pos: "0 \<le> wk_allowance ?w2" using pt assms(3) Cons.prems(3) by auto
    from Cons.IH [OF _ run pos] pt obtain dn where dn: "rows = dn @ rest"
      "worker_points w' = worker_points ?w2 + sum_list (map (point_row F p) dn)"
      "int (length dn) + wk_allowance w' =
        wk_allowance ?w2 + wo_chunk W * (int (wk_waits w') - int (wk_waits ?w2))"
      "worker_ok w'" "0 \<le> wk_allowance w'" "s = Finished \<longrightarrow> rest = []" by blast
    show ?thesis
      using dn pt w1 allow
      by (intro conjI exI [of _ "row # dn"]) (auto simp: algebra_simps split: if_splits)
  qed
qed

lemma worker_start_ok:
  assumes "pool_inv rp"
  shows "worker_ok (worker_start rp)" and "worker_points (worker_start rp) = {#}"
  using newBuilder_ok [OF assms]
  by (simp_all add: worker_ok_def worker_start_def stats_ok_def worker_points_def flushed_items_def
      newBuilder_def builder_points_def)

lemma size_flushed:
  "\<forall>b \<in> set bs. builder_ok b \<Longrightarrow> size (flushed_items builder_points bs) = sum_list (map builder_len bs)"
  by (induction bs) (simp_all add: flushed_items_def builder_len_points)


definition calm_world :: world where
  "calm_world = \<lparr>wo_send = flaky_env, wo_done = (\<lambda>_. False), wo_stale = (\<lambda>_. False),
     wo_limited = True, wo_grant = (\<lambda>_. True), wo_chunk = 2\<rparr>"


section \<open>Settings: lemmas\<close>

text \<open>
  The limiter settings fit each other: the chunk a worker waits for is positive, at most 256
  and never above the burst of the limiter, so that \<open>WaitN\<close> (which rejects a request larger
  than the burst) always serves it; the burst covers two chunks of every worker.
\<close>

theorem limiter_settings_fit:
  assumes "1 \<le> threads"
  shows "1 \<le> fst (limiter_settings pps threads) \<and> fst (limiter_settings pps threads) \<le> 256 \<and>
    2 * threads * fst (limiter_settings pps threads) \<le> snd (limiter_settings pps threads) \<and>
    fst (limiter_settings pps threads) \<le> snd (limiter_settings pps threads)"
proof -
  define c where "c = max 1 (min 256 (pps div (threads * 10)))"
  have c: "1 \<le> c" "c \<le> 256" by (auto simp: c_def)
  have "c * 1 \<le> c * threads" using assms c by (intro mult_left_mono) auto
  then have le: "c \<le> c * threads * 2" using c by linarith
  have eq: "limiter_settings pps threads = (c, max (c * threads * 2) (pps div 10))"
    by (simp only: limiter_settings_def Let_def c_def)
  have com: "2 * threads * c = c * threads * 2" by (simp only: ac_simps)
  show ?thesis unfolding eq fst_conv snd_conv com using c le by (intro conjI) linarith+
qed

theorem limiter_settings_fit_witness:
  "2 * 4 * fst (limiter_settings 100000 4) \<le> snd (limiter_settings 100000 4)"
  using limiter_settings_fit [of 4 100000] by simp

text \<open>
  The \<open>insecure\<close> flag overrides the scheme of a gRPC URL: with the flag set, an
  \<open>https://\<close> URL is dialled in plaintext, although the documentation of the flag says that an
  explicit scheme takes precedence over it.
\<close>

theorem insecure_overrides_https:
  "parseTarget (''https://'' @ host) = (host, False) \<and>
   (mg_URL cfg = ''https://'' @ host \<and> mg_Insecure cfg \<longrightarrow> grpc_plaintext cfg)"
  by (simp add: parseTarget_def hasPrefix_def trimPrefix_def grpc_plaintext_def)

end
