(* ===== verification/BlockSchema.thy ===== *)
theory BlockSchema
  imports Prelude
begin

text \<open>
  The column sets of the blocks: names, columns and column types of the disk blocks
  (\<open>internal/block/logs.go\<close>, \<open>traces.go\<close>, \<open>profiles.go\<close>) and of the generated blocks
  (\<open>internal/generate/columns_*.go\<close>). A column is the struct field it points to. The insert
  statement names the columns of its input and ships them by position, so what matters is the
  list of (name, type) pairs.
\<close>

datatype col_type =
    CDateTime64 | CDateTime | CString | CUInt8 | CUInt64 | CInt64 | CLowCard | CMap
  | CArrDateTime64 | CArrLowCard | CArrMap | CArrString | CArrUInt64 | CArrInt32 | CArrInt64

datatype field =
    F_timestamp | F_traceID | F_spanID | F_traceFlags | F_severityText | F_severityNumber
  | F_serviceName | F_body | F_resourceSchemaUrl | F_resourceAttributes | F_scopeSchemaUrl | F_scopeName
  | F_scopeVersion | F_scopeAttributes | F_logAttributes | F_timestampTime | F_parentSpanID | F_traceState
  | F_spanName | F_spanKind | F_spanAttributes | F_duration | F_statusCode | F_statusMessage
  | F_eventsTimestamps | F_eventsNames | F_eventsAttributes | F_linksTraceIDs | F_linksSpanIDs | F_linksTraceStates
  | F_linksAttributes | F_profileID | F_sampleType | F_sampleUnit | F_profileAttributes | F_sampleAttributes
  | F_stackHash | F_addresses | F_functionNames | F_fileNames | F_lineNumbers | F_mappingFileNames
  | F_values | F_timestampsUnixNano | F_durationNano | F_period | F_periodType | F_periodUnit

section \<open>The lists of the code\<close>

definition logs_insert_names :: "string list" where
  "logs_insert_names =
     [''Timestamp'', ''TraceId'', ''SpanId'', ''TraceFlags'', ''SeverityText'', ''SeverityNumber'',
      ''ServiceName'', ''Body'', ''ResourceSchemaUrl'', ''ResourceAttributes'', ''ScopeSchemaUrl'',
      ''ScopeName'', ''ScopeVersion'', ''ScopeAttributes'', ''LogAttributes'']"

definition logs_insert_cols :: "field list" where
  "logs_insert_cols =
     [F_timestamp, F_traceID, F_spanID, F_traceFlags, F_severityText, F_severityNumber,
      F_serviceName, F_body, F_resourceSchemaUrl, F_resourceAttributes, F_scopeSchemaUrl,
      F_scopeName, F_scopeVersion, F_scopeAttributes, F_logAttributes]"

definition logs_decode_names :: "string list" where
  "logs_decode_names =
     [''Timestamp'', ''TimestampTime'', ''TraceId'', ''SpanId'', ''TraceFlags'', ''SeverityText'',
      ''SeverityNumber'', ''ServiceName'', ''Body'', ''ResourceSchemaUrl'', ''ResourceAttributes'',
      ''ScopeSchemaUrl'', ''ScopeName'', ''ScopeVersion'', ''ScopeAttributes'', ''LogAttributes'']"

definition logs_decode_cols :: "field list" where
  "logs_decode_cols =
     [F_timestamp, F_timestampTime, F_traceID, F_spanID, F_traceFlags, F_severityText,
      F_severityNumber, F_serviceName, F_body, F_resourceSchemaUrl, F_resourceAttributes,
      F_scopeSchemaUrl, F_scopeName, F_scopeVersion, F_scopeAttributes, F_logAttributes]"

definition logs_new :: "(field \<times> col_type) list" where
  "logs_new =
     [(F_timestamp, CDateTime64), (F_timestampTime, CDateTime), (F_traceID, CString),
      (F_spanID, CString), (F_traceFlags, CUInt8), (F_severityText, CLowCard),
      (F_severityNumber, CUInt8), (F_serviceName, CLowCard), (F_body, CString),
      (F_resourceSchemaUrl, CLowCard), (F_resourceAttributes, CMap), (F_scopeSchemaUrl, CLowCard),
      (F_scopeName, CString), (F_scopeVersion, CLowCard), (F_scopeAttributes, CMap),
      (F_logAttributes, CMap)]"

definition traces_new :: "(field \<times> col_type) list" where
  "traces_new =
     [(F_timestamp, CDateTime64), (F_traceID, CString), (F_spanID, CString),
      (F_parentSpanID, CString), (F_traceState, CString), (F_spanName, CLowCard),
      (F_spanKind, CLowCard), (F_serviceName, CLowCard), (F_resourceAttributes, CMap),
      (F_scopeName, CString), (F_scopeVersion, CString), (F_spanAttributes, CMap),
      (F_duration, CUInt64), (F_statusCode, CLowCard), (F_statusMessage, CString),
      (F_eventsTimestamps, CArrDateTime64), (F_eventsNames, CArrLowCard),
      (F_eventsAttributes, CArrMap), (F_linksTraceIDs, CArrString), (F_linksSpanIDs, CArrString),
      (F_linksTraceStates, CArrString), (F_linksAttributes, CArrMap)]"

definition traces_names :: "string list" where
  "traces_names =
     [''Timestamp'', ''TraceId'', ''SpanId'', ''ParentSpanId'', ''TraceState'', ''SpanName'',
      ''SpanKind'', ''ServiceName'', ''ResourceAttributes'', ''ScopeName'', ''ScopeVersion'',
      ''SpanAttributes'', ''Duration'', ''StatusCode'', ''StatusMessage'', ''Events.Timestamp'',
      ''Events.Name'', ''Events.Attributes'', ''Links.TraceId'', ''Links.SpanId'',
      ''Links.TraceState'', ''Links.Attributes'']"

definition traces_cols :: "field list" where
  "traces_cols =
     [F_timestamp, F_traceID, F_spanID, F_parentSpanID, F_traceState, F_spanName, F_spanKind,
      F_serviceName, F_resourceAttributes, F_scopeName, F_scopeVersion, F_spanAttributes,
      F_duration, F_statusCode, F_statusMessage, F_eventsTimestamps, F_eventsNames,
      F_eventsAttributes, F_linksTraceIDs, F_linksSpanIDs, F_linksTraceStates, F_linksAttributes]"

definition profiles_new :: "(field \<times> col_type) list" where
  "profiles_new =
     [(F_timestamp, CDateTime64), (F_profileID, CString), (F_sampleType, CLowCard),
      (F_sampleUnit, CLowCard), (F_serviceName, CLowCard), (F_resourceAttributes, CMap),
      (F_scopeName, CString), (F_scopeVersion, CString), (F_profileAttributes, CMap),
      (F_sampleAttributes, CMap), (F_stackHash, CUInt64), (F_addresses, CArrUInt64),
      (F_functionNames, CArrLowCard), (F_fileNames, CArrLowCard), (F_lineNumbers, CArrInt32),
      (F_mappingFileNames, CArrLowCard), (F_values, CArrInt64), (F_timestampsUnixNano, CArrUInt64),
      (F_durationNano, CUInt64), (F_period, CInt64), (F_periodType, CLowCard),
      (F_periodUnit, CLowCard), (F_traceID, CString), (F_spanID, CString)]"

definition profiles_names :: "string list" where
  "profiles_names =
     [''Timestamp'', ''ProfileId'', ''SampleType'', ''SampleUnit'', ''ServiceName'',
      ''ResourceAttributes'', ''ScopeName'', ''ScopeVersion'', ''ProfileAttributes'',
      ''SampleAttributes'', ''StackHash'', ''Addresses'', ''FunctionNames'', ''FileNames'',
      ''LineNumbers'', ''MappingFileNames'', ''Values'', ''TimestampsUnixNano'', ''DurationNano'',
      ''Period'', ''PeriodType'', ''PeriodUnit'', ''TraceId'', ''SpanId'']"

definition profiles_cols :: "field list" where
  "profiles_cols =
     [F_timestamp, F_profileID, F_sampleType, F_sampleUnit, F_serviceName, F_resourceAttributes,
      F_scopeName, F_scopeVersion, F_profileAttributes, F_sampleAttributes, F_stackHash,
      F_addresses, F_functionNames, F_fileNames, F_lineNumbers, F_mappingFileNames, F_values,
      F_timestampsUnixNano, F_durationNano, F_period, F_periodType, F_periodUnit, F_traceID,
      F_spanID]"

definition gen_logs_new :: "(field \<times> col_type) list" where
  "gen_logs_new =
     [(F_timestamp, CDateTime64), (F_traceID, CString), (F_spanID, CString), (F_traceFlags, CUInt8),
      (F_severityText, CLowCard), (F_severityNumber, CUInt8), (F_serviceName, CLowCard),
      (F_body, CString), (F_resourceSchemaUrl, CLowCard), (F_resourceAttributes, CMap),
      (F_scopeSchemaUrl, CLowCard), (F_scopeName, CString), (F_scopeVersion, CLowCard),
      (F_scopeAttributes, CMap), (F_logAttributes, CMap)]"

definition gen_logs_names :: "string list" where
  "gen_logs_names =
     [''Timestamp'', ''TraceId'', ''SpanId'', ''TraceFlags'', ''SeverityText'', ''SeverityNumber'',
      ''ServiceName'', ''Body'', ''ResourceSchemaUrl'', ''ResourceAttributes'', ''ScopeSchemaUrl'',
      ''ScopeName'', ''ScopeVersion'', ''ScopeAttributes'', ''LogAttributes'']"

definition gen_logs_cols :: "field list" where
  "gen_logs_cols =
     [F_timestamp, F_traceID, F_spanID, F_traceFlags, F_severityText, F_severityNumber,
      F_serviceName, F_body, F_resourceSchemaUrl, F_resourceAttributes, F_scopeSchemaUrl,
      F_scopeName, F_scopeVersion, F_scopeAttributes, F_logAttributes]"

definition gen_traces_new :: "(field \<times> col_type) list" where
  "gen_traces_new =
     [(F_timestamp, CDateTime64), (F_traceID, CString), (F_spanID, CString),
      (F_parentSpanID, CString), (F_traceState, CString), (F_spanName, CLowCard),
      (F_spanKind, CLowCard), (F_serviceName, CLowCard), (F_resourceAttributes, CMap),
      (F_scopeName, CString), (F_scopeVersion, CString), (F_spanAttributes, CMap),
      (F_duration, CUInt64), (F_statusCode, CLowCard), (F_statusMessage, CString),
      (F_eventsTimestamps, CArrDateTime64), (F_eventsNames, CArrLowCard),
      (F_eventsAttributes, CArrMap), (F_linksTraceIDs, CArrString), (F_linksSpanIDs, CArrString),
      (F_linksTraceStates, CArrString), (F_linksAttributes, CArrMap)]"

definition gen_traces_names :: "string list" where
  "gen_traces_names =
     [''Timestamp'', ''TraceId'', ''SpanId'', ''ParentSpanId'', ''TraceState'', ''SpanName'',
      ''SpanKind'', ''ServiceName'', ''ResourceAttributes'', ''ScopeName'', ''ScopeVersion'',
      ''SpanAttributes'', ''Duration'', ''StatusCode'', ''StatusMessage'', ''Events.Timestamp'',
      ''Events.Name'', ''Events.Attributes'', ''Links.TraceId'', ''Links.SpanId'',
      ''Links.TraceState'', ''Links.Attributes'']"

definition gen_traces_cols :: "field list" where
  "gen_traces_cols =
     [F_timestamp, F_traceID, F_spanID, F_parentSpanID, F_traceState, F_spanName, F_spanKind,
      F_serviceName, F_resourceAttributes, F_scopeName, F_scopeVersion, F_spanAttributes,
      F_duration, F_statusCode, F_statusMessage, F_eventsTimestamps, F_eventsNames,
      F_eventsAttributes, F_linksTraceIDs, F_linksSpanIDs, F_linksTraceStates, F_linksAttributes]"

definition gen_profiles_new :: "(field \<times> col_type) list" where
  "gen_profiles_new =
     [(F_timestamp, CDateTime64), (F_profileID, CString), (F_sampleType, CLowCard),
      (F_sampleUnit, CLowCard), (F_serviceName, CLowCard), (F_resourceAttributes, CMap),
      (F_scopeName, CString), (F_scopeVersion, CString), (F_profileAttributes, CMap),
      (F_sampleAttributes, CMap), (F_stackHash, CUInt64), (F_addresses, CArrUInt64),
      (F_functionNames, CArrLowCard), (F_fileNames, CArrLowCard), (F_lineNumbers, CArrInt32),
      (F_mappingFileNames, CArrLowCard), (F_values, CArrInt64), (F_timestampsUnixNano, CArrUInt64),
      (F_durationNano, CUInt64), (F_period, CInt64), (F_periodType, CLowCard),
      (F_periodUnit, CLowCard), (F_traceID, CString), (F_spanID, CString)]"

definition gen_profiles_names :: "string list" where
  "gen_profiles_names =
     [''Timestamp'', ''ProfileId'', ''SampleType'', ''SampleUnit'', ''ServiceName'',
      ''ResourceAttributes'', ''ScopeName'', ''ScopeVersion'', ''ProfileAttributes'',
      ''SampleAttributes'', ''StackHash'', ''Addresses'', ''FunctionNames'', ''FileNames'',
      ''LineNumbers'', ''MappingFileNames'', ''Values'', ''TimestampsUnixNano'', ''DurationNano'',
      ''Period'', ''PeriodType'', ''PeriodUnit'', ''TraceId'', ''SpanId'']"

definition gen_profiles_cols :: "field list" where
  "gen_profiles_cols =
     [F_timestamp, F_profileID, F_sampleType, F_sampleUnit, F_serviceName, F_resourceAttributes,
      F_scopeName, F_scopeVersion, F_profileAttributes, F_sampleAttributes, F_stackHash,
      F_addresses, F_functionNames, F_fileNames, F_lineNumbers, F_mappingFileNames, F_values,
      F_timestampsUnixNano, F_durationNano, F_period, F_periodType, F_periodUnit, F_traceID,
      F_spanID]"

section \<open>The pairing of names and columns\<close>

text \<open>The loop that fills \<open>cachedResults\<close> and \<open>cachedInput\<close>: a column list that is too short panics.\<close>

definition pair_columns :: "string list \<Rightarrow> field list \<Rightarrow> (string \<times> field) list option" where
  "pair_columns names cols = (if length names \<le> length cols then Some (zip names cols) else None)"

definition typed :: "(field \<times> col_type) list \<Rightarrow> (string \<times> field) list option \<Rightarrow> (string \<times> col_type option) list option" where
  "typed new pairs = map_option (map (\<lambda>(n, f). (n, map_of new f))) pairs"

definition logs_Results :: "bool \<Rightarrow> (string \<times> field) list option" where
  "logs_Results hasTimestampTime =
     (if hasTimestampTime then pair_columns logs_decode_names logs_decode_cols
      else pair_columns logs_insert_names logs_insert_cols)"

definition logs_Input :: "(string \<times> field) list option" where
  "logs_Input = pair_columns logs_insert_names logs_insert_cols"

definition traces_Input :: "(string \<times> field) list option" where
  "traces_Input = pair_columns traces_names traces_cols"

definition profiles_Input :: "(string \<times> field) list option" where
  "profiles_Input = pair_columns profiles_names profiles_cols"

definition gen_logs_Input :: "(string \<times> field) list option" where
  "gen_logs_Input = pair_columns gen_logs_names gen_logs_cols"

definition gen_traces_Input :: "(string \<times> field) list option" where
  "gen_traces_Input = pair_columns gen_traces_names gen_traces_cols"

definition gen_profiles_Input :: "(string \<times> field) list option" where
  "gen_profiles_Input = pair_columns gen_profiles_names gen_profiles_cols"

lemmas logs_schema = logs_insert_names_def logs_insert_cols_def logs_decode_names_def logs_decode_cols_def logs_new_def
  gen_logs_names_def gen_logs_cols_def gen_logs_new_def

lemmas traces_schema = traces_names_def traces_cols_def traces_new_def gen_traces_names_def gen_traces_cols_def
  gen_traces_new_def

lemmas profiles_schema = profiles_names_def profiles_cols_def profiles_new_def gen_profiles_names_def
  gen_profiles_cols_def gen_profiles_new_def

lemma logs_agree: "typed gen_logs_new gen_logs_Input = typed logs_new logs_Input"
  by (simp add: typed_def gen_logs_Input_def logs_Input_def pair_columns_def logs_schema)

lemma traces_agree: "typed gen_traces_new gen_traces_Input = typed traces_new traces_Input"
  by (simp add: typed_def gen_traces_Input_def traces_Input_def pair_columns_def traces_schema)

lemma profiles_agree: "typed gen_profiles_new gen_profiles_Input = typed profiles_new profiles_Input"
  by (simp add: typed_def gen_profiles_Input_def profiles_Input_def pair_columns_def profiles_schema)

text \<open>
  Generated and replayed blocks of the same data type present the same columns, with the same
  names and types in the same positions, so they insert into the same table; and a logs block
  read from disk with \<open>TimestampTime\<close> inserts exactly the columns it decodes, less that one.
\<close>

theorem schemas_agree:
  "typed gen_logs_new gen_logs_Input = typed logs_new logs_Input \<and>
   typed gen_traces_new gen_traces_Input = typed traces_new traces_Input \<and>
   typed gen_profiles_new gen_profiles_Input = typed profiles_new profiles_Input \<and>
   map_option (filter (\<lambda>(n, f). f \<noteq> F_timestampTime)) (logs_Results True) = logs_Input \<and>
   logs_Results False = logs_Input"
  using logs_agree traces_agree profiles_agree
  by (simp add: logs_Results_def logs_Input_def pair_columns_def logs_schema)

end
