(* ===== verification/Window.thy ===== *)
theory Window
  imports Prelude
begin

text \<open>
  The sliding window of the disk reader (\<open>internal/disk/speedreader.go\<close>): a ring of
  \<open>windowCapacity\<close> entries with head, tail and count, and the running total of bytes. Its
  abstraction is the list of live entries, oldest first; the ring refines the list.
\<close>

type_synonym windowEntry = "int \<times> int"

record slidingWindow =
  sw_entries :: "windowEntry list"
  sw_head :: nat
  sw_tail :: nat
  sw_count :: nat
  sw_maxAge :: int
  sw_totalBytes :: int

definition windowCapacity :: nat where "windowCapacity = 1000"

text \<open>The capacity is an argument so that small windows can be evaluated; the code's is \<open>windowCapacity\<close>.\<close>

definition new_window :: "nat \<Rightarrow> int \<Rightarrow> slidingWindow" where
  "new_window cap duration =
     \<lparr>sw_entries = replicate cap (0, 0), sw_head = 0, sw_tail = 0, sw_count = 0, sw_maxAge = duration,
      sw_totalBytes = 0\<rparr>"

definition NewSlidingWindow :: "int \<Rightarrow> slidingWindow" where
  "NewSlidingWindow duration = new_window windowCapacity duration"

definition drop_head :: "slidingWindow \<Rightarrow> slidingWindow" where
  "drop_head w =
     w\<lparr>sw_totalBytes := sw_totalBytes w - snd (sw_entries w ! sw_head w),
       sw_head := (sw_head w + 1) mod length (sw_entries w), sw_count := sw_count w - 1\<rparr>"

function clean_loop :: "int \<Rightarrow> slidingWindow \<Rightarrow> slidingWindow" where
  "clean_loop cutoff w =
     (if 0 < sw_count w \<and> fst (sw_entries w ! sw_head w) < cutoff then clean_loop cutoff (drop_head w) else w)"
  by pat_completeness auto
termination by (relation "measure (\<lambda>(c, w). sw_count w)") (auto simp: drop_head_def)

declare clean_loop.simps [simp del]

definition cleanOldEntries :: "int \<Rightarrow> slidingWindow \<Rightarrow> slidingWindow" where
  "cleanOldEntries now w = clean_loop (now - sw_maxAge w) w"

definition window_push :: "int \<Rightarrow> int \<Rightarrow> slidingWindow \<Rightarrow> slidingWindow" where
  "window_push bytes timestamp w =
     w\<lparr>sw_entries := (sw_entries w)[sw_tail w := (timestamp, bytes)],
       sw_tail := (sw_tail w + 1) mod length (sw_entries w), sw_count := sw_count w + 1,
       sw_totalBytes := sw_totalBytes w + bytes\<rparr>"

definition window_Add :: "int \<Rightarrow> int \<Rightarrow> slidingWindow \<Rightarrow> slidingWindow" where
  "window_Add bytes timestamp w =
     (let w = cleanOldEntries timestamp w;
          w = (if sw_count w = length (sw_entries w) then drop_head w else w)
      in window_push bytes timestamp w)"

section \<open>The list it refines\<close>

definition live :: "slidingWindow \<Rightarrow> windowEntry list" where
  "live w = map (\<lambda>i. sw_entries w ! ((sw_head w + i) mod length (sw_entries w))) [0..<sw_count w]"

definition window_ok :: "slidingWindow \<Rightarrow> bool" where
  "window_ok w \<longleftrightarrow>
     0 < length (sw_entries w) \<and> sw_head w < length (sw_entries w) \<and> sw_count w \<le> length (sw_entries w) \<and>
     sw_tail w = (sw_head w + sw_count w) mod length (sw_entries w) \<and>
     sw_totalBytes w = sum_list (map snd (live w))"

definition spec_clean :: "int \<Rightarrow> windowEntry list \<Rightarrow> windowEntry list" where
  "spec_clean cutoff es = dropWhile (\<lambda>e. fst e < cutoff) es"

definition spec_add :: "nat \<Rightarrow> int \<Rightarrow> int \<Rightarrow> int \<Rightarrow> windowEntry list \<Rightarrow> windowEntry list" where
  "spec_add cap maxAge bytes timestamp es =
     (let es = spec_clean (timestamp - maxAge) es;
          es = (if length es = cap then tl es else es)
      in es @ [(timestamp, bytes)])"

lemma live_length [simp]: "length (live w) = sw_count w"
  by (simp add: live_def)

lemma live_hd:
  assumes "window_ok w" "0 < sw_count w"
  shows "live w = sw_entries w ! sw_head w # live (drop_head w)"
proof -
  let ?n = "length (sw_entries w)"
  have h: "sw_head w mod ?n = sw_head w" using assms(1) by (simp add: window_ok_def)
  obtain k where k: "sw_count w = Suc k" using assms(2) by (cases "sw_count w") auto
  have m: "((sw_head w + 1) mod ?n + i) mod ?n = (sw_head w + Suc i) mod ?n" for i
    by (simp add: mod_simps)
  have "live (drop_head w) = map (\<lambda>i. sw_entries w ! ((sw_head w + Suc i) mod ?n)) [0..<k]"
    using k m by (simp add: live_def drop_head_def)
  moreover have "[0..<Suc k] = 0 # map Suc [0..<k]" by (simp add: upt_conv_Cons map_Suc_upt)
  ultimately show ?thesis by (simp add: live_def k h comp_def del: upt_Suc)
qed

lemma drop_head_ok:
  assumes "window_ok w" "0 < sw_count w"
  shows "window_ok (drop_head w) \<and> live (drop_head w) = tl (live w) \<and>
    length (sw_entries (drop_head w)) = length (sw_entries w) \<and> sw_maxAge (drop_head w) = sw_maxAge w \<and>
    sw_count (drop_head w) = sw_count w - 1"
proof -
  let ?n = "length (sw_entries w)"
  have l: "live w = sw_entries w ! sw_head w # live (drop_head w)" by (rule live_hd [OF assms])
  have "sw_tail w = ((sw_head w + 1) mod ?n + (sw_count w - 1)) mod ?n"
  proof -
    obtain k where k: "sw_count w = Suc k" using assms(2) by (cases "sw_count w") auto
    have "((sw_head w + 1) mod ?n + k) mod ?n = (sw_head w + Suc k) mod ?n" by (simp add: mod_simps)
    then show ?thesis using assms(1) k by (simp add: window_ok_def)
  qed
  moreover have "sw_totalBytes (drop_head w) = sum_list (map snd (live (drop_head w)))"
    using assms(1) l by (simp add: window_ok_def drop_head_def)
  ultimately show ?thesis using assms l by (auto simp: window_ok_def drop_head_def)
qed

lemma clean_loop_ok:
  "window_ok w \<Longrightarrow>
   window_ok (clean_loop c w) \<and> live (clean_loop c w) = spec_clean c (live w) \<and>
   length (sw_entries (clean_loop c w)) = length (sw_entries w) \<and> sw_maxAge (clean_loop c w) = sw_maxAge w"
proof (induction c w rule: clean_loop.induct)
  case (1 c w)
  show ?case
  proof (cases "0 < sw_count w")
    case False
    then have "live w = []" by (simp add: live_def)
    then show ?thesis using False "1.prems" by (simp add: clean_loop.simps [of c w] spec_clean_def)
  next
    case True
    note l = live_hd [OF "1.prems" True] and d = drop_head_ok [OF "1.prems" True]
    show ?thesis
    proof (cases "fst (sw_entries w ! sw_head w) < c")
      case True
      have e: "clean_loop c w = clean_loop c (drop_head w)"
        using True \<open>0 < sw_count w\<close> by (subst clean_loop.simps) simp
      have "spec_clean c (live w) = spec_clean c (live (drop_head w))"
        using True by (subst l) (simp add: spec_clean_def)
      then show ?thesis using "1.IH" [OF conjI [OF \<open>0 < sw_count w\<close> True]] d unfolding e by simp
    next
      case False
      then have "clean_loop c w = w" by (subst clean_loop.simps) simp
      moreover have "spec_clean c (live w) = live w" using False unfolding spec_clean_def l by simp
      ultimately show ?thesis using "1.prems" by simp
    qed
  qed
qed

lemma push_ok:
  assumes "window_ok w" "sw_count w < length (sw_entries w)"
  shows "window_ok (window_push b t w) \<and> live (window_push b t w) = live w @ [(t, b)]"
proof -
  let ?n = "length (sw_entries w)"
  have n: "0 < ?n" "sw_head w < ?n" "sw_tail w = (sw_head w + sw_count w) mod ?n" using assms(1) by (simp_all add: window_ok_def)
  have ne: "(sw_head w + i) mod ?n \<noteq> sw_tail w" if "i < sw_count w" for i
  proof
    assume "(sw_head w + i) mod ?n = sw_tail w"
    then have "(sw_head w + sw_count w) mod ?n = (sw_head w + i) mod ?n" using n by simp
    then have "?n dvd (sw_head w + sw_count w) - (sw_head w + i)" using that by (simp add: mod_eq_dvd_iff_nat)
    then have "?n dvd sw_count w - i" by simp
    then show False using that assms(2) by (meson diff_less_mono2 dvd_imp_le less_imp_diff_less not_le zero_less_diff le_less_trans diff_le_self)
  qed
  have l: "live (window_push b t w) = live w @ [(t, b)]"
  proof -
    have "live (window_push b t w) = map (\<lambda>i. (sw_entries w)[sw_tail w := (t, b)] ! ((sw_head w + i) mod ?n)) [0..<sw_count w] @
        [(sw_entries w)[sw_tail w := (t, b)] ! sw_tail w]"
      using n by (simp add: live_def window_push_def)
    moreover have "map (\<lambda>i. (sw_entries w)[sw_tail w := (t, b)] ! ((sw_head w + i) mod ?n)) [0..<sw_count w] = live w"
      unfolding live_def by (rule map_cong [OF refl]) (metis ne atLeastLessThan_iff nth_list_update_neq set_upt)
    moreover have "sw_tail w < ?n" using n by simp
    ultimately show ?thesis by simp
  qed
  moreover have "(sw_tail w + 1) mod ?n = (sw_head w + (sw_count w + 1)) mod ?n"
    using n by (simp add: mod_simps)
  ultimately show ?thesis using assms n by (auto simp: window_ok_def window_push_def)
qed

lemma window_Add_ok:
  assumes "window_ok w"
  shows "window_ok (window_Add b t w) \<and>
    live (window_Add b t w) = spec_add (length (sw_entries w)) (sw_maxAge w) b t (live w) \<and>
    length (sw_entries (window_Add b t w)) = length (sw_entries w) \<and> sw_maxAge (window_Add b t w) = sw_maxAge w"
proof -
  define v where "v = cleanOldEntries t w"
  have v: "window_ok v" "live v = spec_clean (t - sw_maxAge w) (live w)"
    "length (sw_entries v) = length (sw_entries w)" "sw_maxAge v = sw_maxAge w"
    using clean_loop_ok [OF assms, of "t - sw_maxAge w"] by (simp_all add: v_def cleanOldEntries_def)
  define u where "u = (if sw_count v = length (sw_entries v) then drop_head v else v)"
  have p: "0 < sw_count v" if "sw_count v = length (sw_entries v)" using that v(1) by (simp add: window_ok_def)
  have u: "window_ok u" "length (sw_entries u) = length (sw_entries w)" "sw_maxAge u = sw_maxAge w"
    "sw_count u < length (sw_entries u)"
    "live u = (if length (live v) = length (sw_entries w) then tl (live v) else live v)"
  proof -
    have c: "sw_count v = length (live v)" by simp
    show "window_ok u" "length (sw_entries u) = length (sw_entries w)" "sw_maxAge u = sw_maxAge w"
      using v drop_head_ok [OF v(1)] p by (simp_all add: u_def)
    have "sw_count v \<le> length (sw_entries v)" using v(1) by (simp add: window_ok_def)
    then show "sw_count u < length (sw_entries u)" using drop_head_ok [OF v(1)] p by (auto simp: u_def)
    show "live u = (if length (live v) = length (sw_entries w) then tl (live v) else live v)"
      using drop_head_ok [OF v(1)] p v(3) by (simp add: u_def)
  qed
  have a: "window_Add b t w = window_push b t u" by (simp add: window_Add_def Let_def v_def [symmetric] u_def)
  have "length (sw_entries (window_push b t u)) = length (sw_entries u)" "sw_maxAge (window_push b t u) = sw_maxAge u"
    by (simp_all add: window_push_def)
  then show ?thesis using push_ok [OF u(1,4), of b t] u v(2) by (simp add: a spec_add_def Let_def)
qed

lemma new_window_ok: "0 < cap \<Longrightarrow> window_ok (new_window cap d) \<and> live (new_window cap d) = []"
  by (simp add: window_ok_def new_window_def live_def)

definition window_adds :: "(int \<times> int) list \<Rightarrow> slidingWindow \<Rightarrow> slidingWindow" where
  "window_adds ops w = fold (\<lambda>(b, t) w. window_Add b t w) ops w"

definition spec_adds :: "nat \<Rightarrow> int \<Rightarrow> (int \<times> int) list \<Rightarrow> windowEntry list \<Rightarrow> windowEntry list" where
  "spec_adds cap maxAge ops es = fold (\<lambda>(b, t) es. spec_add cap maxAge b t es) ops es"

text \<open>
  C30. The ring refines a bounded list: after any sequence of \<open>Add\<close>s on a new window the live entries
  of the ring are those of the list that drops what is older than the maximal age, then the oldest
  one when it is full, and appends; the running total is the sum of the live entries, and head,
  tail and count stay consistent.
\<close>

theorem window_refines:
  assumes "0 < cap"
  shows "window_ok (window_adds ops (new_window cap maxAge)) \<and>
    live (window_adds ops (new_window cap maxAge)) = spec_adds cap maxAge ops [] \<and>
    sw_totalBytes (window_adds ops (new_window cap maxAge)) = sum_list (map snd (spec_adds cap maxAge ops []))"
proof -
  have "window_ok (window_adds ops w) \<and> live (window_adds ops w) = spec_adds (length (sw_entries w)) (sw_maxAge w) ops (live w)"
    if "window_ok w" for w
    using that
  proof (induction ops arbitrary: w)
    case Nil
    then show ?case by (simp add: window_adds_def spec_adds_def)
  next
    case (Cons op ops)
    obtain b t where op: "op = (b, t)" by fastforce
    show ?case using Cons.IH [of "window_Add b t w"] window_Add_ok [OF Cons.prems, of b t]
      by (simp add: window_adds_def spec_adds_def op)
  qed
  from this [of "new_window cap maxAge"] new_window_ok [OF assms, of maxAge]
  have "window_ok (window_adds ops (new_window cap maxAge))"
    "live (window_adds ops (new_window cap maxAge)) = spec_adds cap maxAge ops []"
    by (simp_all add: new_window_def)
  then show ?thesis by (simp add: window_ok_def)
qed

theorem window_refines_witness:
  "live (window_adds [(5, 10), (7, 20), (9, 30), (1, 40)] (new_window 2 25)) = [(30, 9), (40, 1)]"
  using window_refines [of 2 "[(5, 10), (7, 20), (9, 30), (1, 40)]" 25]
  by (simp add: spec_adds_def spec_add_def spec_clean_def Let_def)

end
