(* ===== verification/Replay.thy ===== *)
theory Replay
  imports Prelude
begin

text \<open>
  The replay clock (\<open>internal/block/timeshift.go\<close>) and the date shifts of
  \<open>internal/block/columns.go\<close>. A \<open>time.Time\<close> is the number of nanoseconds since the Unix epoch;
  the zero time is the first of January of year 1. \<open>Sub\<close> saturates at the range of a
  \<open>Duration\<close>, products of durations wrap.
\<close>

section \<open>Times\<close>

definition zeroTime :: int where "zeroTime = - 62135596800 * 1000000000"

definition time_Sub :: "int \<Rightarrow> int \<Rightarrow> int" where
  "time_Sub t u = max (- 9223372036854775808) (min 9223372036854775807 (t - u))"

lemma time_Sub_id [simp]: "in_i64 (t - u) \<Longrightarrow> time_Sub t u = t - u"
  by (simp add: time_Sub_def in_i64_def)

text \<open>
  Calendar shifts in a zone with the constant offset \<open>off\<close>: the date (the minute) of now with the
  time of day (the second) of the original.
\<close>

definition day_ns :: int where "day_ns = 86400 * 1000000000"
definition minute_ns :: int where "minute_ns = 60 * 1000000000"

definition ShiftDateToToday :: "int \<Rightarrow> int \<Rightarrow> int \<Rightarrow> int" where
  "ShiftDateToToday off now old = (now + off) div day_ns * day_ns + (old + off) mod day_ns - off"

definition ShiftTimestampMinute :: "int \<Rightarrow> int \<Rightarrow> int \<Rightarrow> int" where
  "ShiftTimestampMinute off now old = (now + off) div minute_ns * minute_ns + (old + off) mod minute_ns - off"

section \<open>The keeper\<close>

record keeper =
  rk_programStart :: int
  rk_datasetStart :: int
  rk_datasetEnd :: int
  rk_ready :: bool
  rk_reports :: "int list"

definition NewReplayTimeKeeper :: "int \<Rightarrow> keeper" where
  "NewReplayTimeKeeper now =
     \<lparr>rk_programStart = now, rk_datasetStart = zeroTime, rk_datasetEnd = zeroTime, rk_ready = False,
      rk_reports = []\<rparr>"

text \<open>Closing a closed channel panics: \<open>None\<close>.\<close>

definition ReportEarliestTimestamp :: "int \<Rightarrow> keeper \<Rightarrow> keeper option" where
  "ReportEarliestTimestamp t k =
     (if rk_datasetStart k \<noteq> zeroTime then Some k
      else if rk_ready k then None
      else Some (k\<lparr>rk_datasetStart := t, rk_ready := True\<rparr>))"

definition ReportLatestTimestamp :: "int \<Rightarrow> keeper \<Rightarrow> keeper" where
  "ReportLatestTimestamp t k =
     (if length (rk_reports k) < 100 then k\<lparr>rk_reports := rk_reports k @ [t]\<rparr> else k)"

text \<open>One turn of \<open>Run\<close>.\<close>

definition keeper_take :: "keeper \<Rightarrow> keeper" where
  "keeper_take k =
     (case rk_reports k of [] \<Rightarrow> k
      | t # ts \<Rightarrow> k\<lparr>rk_reports := ts, rk_datasetEnd := (if rk_datasetEnd k < t then t else rk_datasetEnd k)\<rparr>)"

record snapshot =
  sn_programStart :: int
  sn_datasetStart :: int
  sn_loopOffset :: int

text \<open>\<open>Snapshot\<close> waits until the start is known: \<open>None\<close> before that.\<close>

definition Snapshot :: "int \<Rightarrow> keeper \<Rightarrow> snapshot option" where
  "Snapshot loopIndex k =
     (if rk_ready k
      then Some \<lparr>sn_programStart = rk_programStart k, sn_datasetStart = rk_datasetStart k,
                 sn_loopOffset = i64 (loopIndex * time_Sub (rk_datasetEnd k) (rk_datasetStart k))\<rparr>
      else None)"

definition ShiftTimestamp :: "snapshot \<Rightarrow> int \<Rightarrow> int" where
  "ShiftTimestamp s original =
     (let offset = time_Sub original (sn_datasetStart s) in sn_programStart s + sn_loopOffset s + offset)"

section \<open>Runs of the keeper\<close>

datatype keeper_event = Earliest int | Latest int | Take

fun keeper_step :: "keeper_event \<Rightarrow> keeper \<Rightarrow> keeper option" where
  "keeper_step (Earliest t) k = ReportEarliestTimestamp t k"
| "keeper_step (Latest t) k = Some (ReportLatestTimestamp t k)"
| "keeper_step Take k = Some (keeper_take k)"

fun keeper_run :: "keeper_event list \<Rightarrow> keeper \<Rightarrow> keeper option" where
  "keeper_run [] k = Some k"
| "keeper_run (e # es) k = (case keeper_step e k of None \<Rightarrow> None | Some k \<Rightarrow> keeper_run es k)"

definition earliest :: "keeper_event list \<Rightarrow> int list" where
  "earliest es = concat (map (\<lambda>e. case e of Earliest t \<Rightarrow> [t] | _ \<Rightarrow> []) es)"

definition latest :: "keeper_event list \<Rightarrow> int list" where
  "latest es = concat (map (\<lambda>e. case e of Latest t \<Rightarrow> [t] | _ \<Rightarrow> []) es)"

definition keeper_inv :: "int list \<Rightarrow> int list \<Rightarrow> keeper \<Rightarrow> bool" where
  "keeper_inv firsts lasts k \<longleftrightarrow>
     rk_ready k = (firsts \<noteq> []) \<and>
     rk_datasetStart k = (if firsts = [] then zeroTime else hd firsts) \<and>
     length (rk_reports k) \<le> 100 \<and> set (rk_reports k) \<subseteq> set lasts \<and>
     rk_datasetEnd k \<in> insert zeroTime (set lasts) \<and>
     (\<forall>t \<in> set lasts. length lasts \<le> 100 \<longrightarrow> t \<le> rk_datasetEnd k \<or> t \<in> set (rk_reports k)) \<and>
     length (rk_reports k) \<le> length lasts"

lemma keeper_step_inv:
  assumes "keeper_inv firsts lasts k" and "keeper_step e k = Some k'"
    and "\<forall>t \<in> set firsts. t \<noteq> zeroTime"
  shows "keeper_inv (firsts @ earliest [e]) (lasts @ latest [e]) k' \<and> rk_programStart k' = rk_programStart k"
proof (cases e)
  case (Earliest t)
  then show ?thesis
    using assms
    by (cases firsts)
      (auto simp: keeper_inv_def ReportEarliestTimestamp_def earliest_def latest_def split: if_splits)
next
  case (Latest t)
  then show ?thesis
    using assms(1,2) unfolding keeper_inv_def
    by (auto simp: ReportLatestTimestamp_def earliest_def latest_def split: if_splits)
next
  case Take
  show ?thesis
  proof (cases "rk_reports k")
    case Nil
    then show ?thesis using assms Take by (simp add: keeper_take_def earliest_def latest_def)
  next
    case (Cons t ts)
    then have "k' = k\<lparr>rk_reports := ts, rk_datasetEnd := max (rk_datasetEnd k) t\<rparr>"
      using assms(2) Take by (auto simp: keeper_take_def max_def)
    moreover have "\<forall>x \<in> set lasts. length lasts \<le> 100 \<longrightarrow> x \<le> max (rk_datasetEnd k) t \<or> x \<in> set ts"
      using assms(1) Cons unfolding keeper_inv_def by (auto simp: max_def)
    moreover have "max (rk_datasetEnd k) t \<in> insert zeroTime (set lasts)"
      using assms(1) Cons unfolding keeper_inv_def by (auto simp: max_def)
    ultimately show ?thesis using assms(1) Cons Take unfolding keeper_inv_def
      by (simp add: earliest_def latest_def)
  qed
qed

lemma keeper_run_inv:
  "keeper_run es k = Some k' \<Longrightarrow> keeper_inv firsts lasts k \<Longrightarrow>
   \<forall>t \<in> set (firsts @ earliest es). t \<noteq> zeroTime \<Longrightarrow>
   keeper_inv (firsts @ earliest es) (lasts @ latest es) k' \<and> rk_programStart k' = rk_programStart k"
proof (induction es arbitrary: k firsts lasts)
  case Nil
  then show ?case by (simp add: earliest_def latest_def)
next
  case (Cons e es)
  obtain k1 where k1: "keeper_step e k = Some k1" "keeper_run es k1 = Some k'"
    using Cons.prems(1) by (auto split: option.splits)
  have app: "earliest (e # es) = earliest [e] @ earliest es" "latest (e # es) = latest [e] @ latest es"
    by (simp_all add: earliest_def latest_def)
  have "\<forall>t \<in> set firsts. t \<noteq> zeroTime" using Cons.prems(3) by simp
  from keeper_step_inv [OF Cons.prems(2) k1(1) this]
  have i: "keeper_inv (firsts @ earliest [e]) (lasts @ latest [e]) k1" "rk_programStart k1 = rk_programStart k"
    by auto
  have "\<forall>t \<in> set ((firsts @ earliest [e]) @ earliest es). t \<noteq> zeroTime" using Cons.prems(3) app by simp
  from Cons.IH [OF k1(2) i(1) this] i(2) show ?case by (simp add: app)
qed

lemma keeper_no_panic:
  "keeper_inv firsts lasts k \<Longrightarrow> \<forall>t \<in> set (firsts @ earliest es). t \<noteq> zeroTime \<Longrightarrow> \<exists>k'. keeper_run es k = Some k'"
proof (induction es arbitrary: k firsts lasts)
  case (Cons e es)
  have app: "earliest (e # es) = earliest [e] @ earliest es" by (simp add: earliest_def)
  have nz: "\<forall>t \<in> set firsts. t \<noteq> zeroTime" using Cons.prems(2) by simp
  have "\<exists>k1. keeper_step e k = Some k1"
  proof (cases e)
    case (Earliest t)
    then show ?thesis using Cons.prems(1) nz
      by (cases firsts) (auto simp: ReportEarliestTimestamp_def keeper_inv_def)
  qed auto
  then obtain k1 where k1: "keeper_step e k = Some k1" by blast
  have "\<forall>t \<in> set ((firsts @ earliest [e]) @ earliest es). t \<noteq> zeroTime" using Cons.prems(2) app by simp
  with Cons.IH keeper_step_inv [OF Cons.prems(1) k1 nz] k1 show ?case by fastforce
qed simp

text \<open>
  The replay clock: whatever the order of the reports, with real timestamps the keeper never
  panics; its start is the first earliest timestamp reported and never changes, it is ready
  exactly when one has been reported, its end is one of the reported latest timestamps, and once
  the queue is drained (and never overflowed) no reported timestamp is after it.
\<close>

theorem keeper_tracks:
  assumes "\<forall>t \<in> set (earliest es). t \<noteq> zeroTime"
  shows "\<exists>k. keeper_run es (NewReplayTimeKeeper now) = Some k \<and> rk_programStart k = now \<and>
    rk_ready k = (earliest es \<noteq> []) \<and>
    rk_datasetStart k = (if earliest es = [] then zeroTime else hd (earliest es)) \<and>
    rk_datasetEnd k \<in> insert zeroTime (set (latest es)) \<and>
    (rk_reports k = [] \<longrightarrow> length (latest es) \<le> 100 \<longrightarrow> (\<forall>t \<in> set (latest es). t \<le> rk_datasetEnd k))"
proof -
  have i: "keeper_inv [] [] (NewReplayTimeKeeper now)"
    by (simp add: keeper_inv_def NewReplayTimeKeeper_def)
  obtain k where k: "keeper_run es (NewReplayTimeKeeper now) = Some k"
    using keeper_no_panic [OF i, of es] assms by auto
  have "keeper_inv (earliest es) (latest es) k \<and> rk_programStart k = now"
    using keeper_run_inv [OF k i] assms by (simp add: NewReplayTimeKeeper_def)
  with k show ?thesis by (auto simp: keeper_inv_def)
qed

theorem keeper_tracks_witness:
  "\<exists>k. keeper_run [Earliest 100, Latest 180, Earliest 90, Latest 150, Take, Take] (NewReplayTimeKeeper 7) = Some k \<and>
    rk_datasetStart k = 100 \<and> rk_ready k"
  using keeper_tracks [of "[Earliest 100, Latest 180, Earliest 90, Latest 150, Take, Take]" 7]
  by (auto simp: earliest_def zeroTime_def)


definition sample_keeper :: keeper where
  "sample_keeper = \<lparr>rk_programStart = 5000, rk_datasetStart = 100, rk_datasetEnd = 160, rk_ready = True, rk_reports = []\<rparr>"


text \<open>
  The date shift puts a timestamp on the date of now and keeps its time of day; the minute
  shift puts it in the minute of now and keeps its second.
\<close>

theorem ShiftDate_fields:
  "(ShiftDateToToday off now old + off) div day_ns = (now + off) div day_ns \<and>
   (ShiftDateToToday off now old + off) mod day_ns = (old + off) mod day_ns \<and>
   (ShiftTimestampMinute off now old + off) div minute_ns = (now + off) div minute_ns \<and>
   (ShiftTimestampMinute off now old + off) mod minute_ns = (old + off) mod minute_ns"
  by (simp add: ShiftDateToToday_def ShiftTimestampMinute_def day_ns_def minute_ns_def
      div_add1_eq [of _ "_ mod _"] div_mult_self3)

end
