(* ===== verification/Speed.thy ===== *)
theory Speed
  imports Window Replay Floats
begin

text \<open>
  The rate-limited reader of the disk workers (\<open>internal/disk/speedreader.go\<close>): token bucket,
  sliding-window rate, and the feedback loop that adjusts the limit. Every \<open>time.Now()\<close> reads the
  next value of a clock, a function of the number of readings; sleeping only lets it advance. The
  reader below is a parameter: what the call returns for a buffer of a given length.
\<close>

section \<open>Durations as floats\<close>


definition seconds :: "go_float \<Rightarrow> int \<Rightarrow> rat" where
  "seconds F d =
     fadd F (of_i64 F (go_quot d 1000000000)) (fdiv F (of_i64 F (go_rem d 1000000000)) 1000000000)"

definition go_trunc :: "rat \<Rightarrow> int" where
  "go_trunc x = (if 0 \<le> x then \<lfloor>x\<rfloor> else - \<lfloor>- x\<rfloor>)"

section \<open>The reader\<close>

record slr =
  sl_target :: rat
  sl_limit :: rat
  sl_window :: slidingWindow
  sl_windowSize :: int
  sl_learn :: rat
  sl_momentum :: rat
  sl_gradient :: rat
  sl_burstCap :: rat
  sl_burst :: rat
  sl_lastFill :: int
  sl_smoothing :: rat
  sl_minChunk :: int
  sl_lastRead :: int
  sl_counted :: u64
  sl_clock :: nat

definition tick :: "(nat \<Rightarrow> int) \<Rightarrow> slr \<Rightarrow> int \<times> slr" where
  "tick clk s = (clk (sl_clock s), s\<lparr>sl_clock := Suc (sl_clock s)\<rparr>)"

definition slr_Reset :: "go_float \<Rightarrow> (nat \<Rightarrow> int) \<Rightarrow> u64 \<Rightarrow> slr \<Rightarrow> slr" where
  "slr_Reset F clk bytesPerSec s =
     (case tick clk s of (now, s) \<Rightarrow>
        s\<lparr>sl_target := of_u64 F bytesPerSec, sl_limit := fmul F (of_u64 F bytesPerSec) 1,
          sl_window := NewSlidingWindow (sl_windowSize s), sl_learn := fconst F (1 / 10),
          sl_momentum := fconst F (9 / 10), sl_gradient := 0,
          sl_burstCap := fmul F (of_u64 F bytesPerSec) (fconst F (1 / 100)),
          sl_burst := fmul F (of_u64 F bytesPerSec) (fconst F (1 / 100)), sl_lastFill := now\<rparr>)"

definition NewSpeedLimitedReader :: "go_float \<Rightarrow> (nat \<Rightarrow> int) \<Rightarrow> u64 \<Rightarrow> slr" where
  "NewSpeedLimitedReader F clk bytesPerSecond =
     \<lparr>sl_target = of_u64 F bytesPerSecond, sl_limit = fmul F (of_u64 F bytesPerSecond) 1,
      sl_window = NewSlidingWindow 1000000000, sl_windowSize = 1000000000, sl_learn = fconst F (1 / 10),
      sl_momentum = fconst F (9 / 10), sl_gradient = 0,
      sl_burstCap = fmul F (of_u64 F bytesPerSecond) (fconst F (1 / 100)),
      sl_burst = fmul F (of_u64 F bytesPerSecond) (fconst F (1 / 100)), sl_lastFill = clk 0,
      sl_smoothing = fconst F (95 / 100), sl_minChunk = 32768, sl_lastRead = clk 1, sl_counted = 0, sl_clock = 2\<rparr>"

definition GetRate :: "go_float \<Rightarrow> int \<Rightarrow> slidingWindow \<Rightarrow> rat \<times> slidingWindow" where
  "GetRate F now w =
     (let w = cleanOldEntries now w in
      if sw_count w = 0 then (0, w)
      else let timeSpan = seconds F (time_Sub now (fst (sw_entries w ! sw_head w)))
           in (if timeSpan \<le> 0 then 0 else fdiv F (of_i64 F (sw_totalBytes w)) timeSpan, w))"

definition slr_rate :: "go_float \<Rightarrow> (nat \<Rightarrow> int) \<Rightarrow> slr \<Rightarrow> rat \<times> slr" where
  "slr_rate F clk s =
     (case tick clk s of (now, s) \<Rightarrow>
        case GetRate F now (sl_window s) of (r, w) \<Rightarrow> (r, s\<lparr>sl_window := w\<rparr>))"

definition slr_refill :: "go_float \<Rightarrow> int \<Rightarrow> slr \<Rightarrow> slr" where
  "slr_refill F now s =
     (let elapsed = seconds F (time_Sub now (sl_lastFill s)) in
      if 0 < elapsed
      then s\<lparr>sl_burst := min (fadd F (sl_burst s) (fmul F (sl_limit s) elapsed)) (sl_burstCap s),
             sl_lastFill := now\<rparr>
      else s)"

text \<open>The allowance at a given rate, and the tokens left.\<close>

definition slr_allow :: "go_float \<Rightarrow> int \<Rightarrow> rat \<Rightarrow> rat \<Rightarrow> rat \<Rightarrow> int \<times> rat" where
  "slr_allow F requested rate limit burst =
     (if rate < limit
      then let headroom = fsub F limit rate;
               allowed = go_trunc (min (of_i64 F requested) (fadd F headroom burst))
           in (allowed,
               if headroom < of_i64 F allowed then fsub F burst (fsub F (of_i64 F allowed) headroom) else burst)
      else if 0 < burst
      then let allowed = go_trunc (min (of_i64 F requested) burst)
           in (allowed, fsub F burst (of_i64 F allowed))
      else (0, burst))"

definition calculateAllowedBytes :: "go_float \<Rightarrow> (nat \<Rightarrow> int) \<Rightarrow> int \<Rightarrow> int \<Rightarrow> slr \<Rightarrow> int \<times> slr" where
  "calculateAllowedBytes F clk requested now s =
     (case slr_rate F clk (slr_refill F now s) of (rate, s) \<Rightarrow>
        case slr_allow F requested rate (sl_limit s) (sl_burst s) of (allowed, burst) \<Rightarrow>
          (allowed, s\<lparr>sl_burst := burst\<rparr>))"

definition calculateWaitTime :: "go_float \<Rightarrow> (nat \<Rightarrow> int) \<Rightarrow> int \<Rightarrow> slr \<Rightarrow> int \<times> slr" where
  "calculateWaitTime F clk bytesNeeded s =
     (case slr_rate F clk s of (rate, s) \<Rightarrow>
        (if sl_limit s \<le> rate
         then go_trunc (fmul F (fdiv F (of_i64 F bytesNeeded) (sl_limit s)) 1000000000) else 0, s))"

definition allow_now :: "go_float \<Rightarrow> (nat \<Rightarrow> int) \<Rightarrow> int \<Rightarrow> slr \<Rightarrow> int \<times> slr" where
  "allow_now F clk requested s =
     (case tick clk s of (now, s) \<Rightarrow> calculateAllowedBytes F clk requested now s)"

definition read_first :: "go_float \<Rightarrow> (nat \<Rightarrow> int) \<Rightarrow> int \<Rightarrow> slr \<Rightarrow> int \<times> slr" where
  "read_first F clk len s =
     (case allow_now F clk len s of (allowed, s) \<Rightarrow>
        if allowed \<le> 0
        then (case calculateWaitTime F clk len s of (waitTime, s) \<Rightarrow>
                if 0 < waitTime then allow_now F clk len s else (allowed, s))
        else (allowed, s))"

definition read_size :: "go_float \<Rightarrow> (nat \<Rightarrow> int) \<Rightarrow> int \<Rightarrow> slr \<Rightarrow> int \<times> slr" where
  "read_size F clk len s =
     (case read_first F clk len s of (allowed, s) \<Rightarrow>
        let readSize = min len allowed in
        if readSize < sl_minChunk s \<and> sl_minChunk s \<le> len
        then (case calculateWaitTime F clk (sl_minChunk s) s of (_, s) \<Rightarrow>
                case allow_now F clk len s of (allowed, s) \<Rightarrow> (min len allowed, s))
        else (readSize, s))"

text \<open>A slice bound outside \<open>[0, len]\<close> panics: \<open>None\<close>.\<close>

definition slr_Read ::
  "go_float \<Rightarrow> (nat \<Rightarrow> int) \<Rightarrow> (int \<Rightarrow> int \<times> bool) \<Rightarrow> int \<Rightarrow> slr \<Rightarrow> (int \<times> bool \<times> slr) option" where
  "slr_Read F clk rd len s =
     (case read_size F clk len s of (readSize, s) \<Rightarrow>
        if readSize < 0 \<or> len < readSize then None
        else case rd readSize of (n, err) \<Rightarrow>
          if 0 < n
          then (case tick clk s of (t1, s) \<Rightarrow>
                  let s = s\<lparr>sl_window := window_Add n t1 (sl_window s), sl_counted := sl_counted s + word_of_int n\<rparr>
                  in case tick clk s of (t2, s) \<Rightarrow> Some (n, err, s\<lparr>sl_lastRead := t2\<rparr>))
          else Some (n, err, s))"

definition optimizeLimit :: "go_float \<Rightarrow> (nat \<Rightarrow> int) \<Rightarrow> slr \<Rightarrow> slr" where
  "optimizeLimit F clk s =
     (case slr_rate F clk s of (rate, s) \<Rightarrow>
        let gradient0 = fdiv F (fsub F (sl_target s) rate) (sl_target s);
            gradient = fadd F (fmul F (sl_momentum s) (sl_gradient s))
              (fmul F (fsub F 1 (sl_momentum s)) gradient0);
            adjustment = fmul F (fmul F (sl_learn s) gradient) (sl_limit s);
            limit = fadd F (fmul F (sl_smoothing s) (sl_limit s))
              (fmul F (fsub F 1 (sl_smoothing s)) (fadd F (sl_limit s) adjustment))
        in s\<lparr>sl_gradient := gradient,
             sl_limit := max (fmul F (sl_target s) (fconst F (8 / 10)))
               (min (fmul F (sl_target s) (fconst F (12 / 10))) limit)\<rparr>)"

section \<open>The invariant\<close>

text \<open>
  Rates up to 8 GB per second. Beyond \<open>float_ok\<close> the lemmas use that rounding a rounded value
  changes nothing.
\<close>

definition rnd_idem :: "go_float \<Rightarrow> bool" where
  "rnd_idem F \<longleftrightarrow> (\<forall>x. fl_rnd F (fl_rnd F x) = fl_rnd F x)"

definition slr_ok :: "go_float \<Rightarrow> slr \<Rightarrow> bool" where
  "slr_ok F s \<longleftrightarrow>
     window_ok (sl_window s) \<and> (\<forall>e \<in> set (live (sl_window s)). 0 \<le> snd e) \<and>
     0 \<le> sl_target s \<and> sl_target s \<le> 8000000000 \<and>
     0 \<le> sl_limit s \<and> sl_limit s \<le> 10000000000 \<and>
     fl_rnd F (sl_burstCap s) = sl_burstCap s \<and> 0 \<le> sl_burstCap s \<and> sl_burstCap s \<le> 10000000000 \<and>
     fl_rnd F (- 1 / 4) \<le> sl_burst s \<and> sl_burst s \<le> sl_burstCap s"

lemma rnd_err:
  assumes "float_ok F" "\<bar>x\<bar> \<le> 1000000000000000"
  shows "\<bar>fl_rnd F x - x\<bar> \<le> \<bar>x\<bar> * rel_err + abs_err"
proof -
  have "(1000000000000000 :: rat) \<le> 2 ^ 60" by simp
  also have "(2 ^ 60 :: rat) \<le> 2 ^ 1000" by (rule power_increasing) simp_all
  finally have "\<bar>x\<bar> \<le> 2 ^ 1000" using assms(2) by linarith
  then have "\<bar>fl_rnd F x - x\<bar> \<le> \<bar>x\<bar> / 2 ^ 53 + 1 / 2 ^ 1000"
    using assms(1) unfolding float_ok_def by blast
  moreover have "\<bar>x\<bar> / 2 ^ 53 \<le> \<bar>x\<bar> * rel_err" by (simp add: field_simps)
  moreover have "(1 / 2 ^ 1000 :: rat) \<le> 1 / 2 ^ 70"
    by (intro divide_left_mono power_increasing) simp_all
  moreover have "(1 / 2 ^ 70 :: rat) \<le> abs_err" by simp
  ultimately show ?thesis by linarith
qed

lemma rnd_close:
  assumes "float_ok F" "\<bar>x\<bar> \<le> 20000000001"
  shows "fl_rnd F x \<le> x + 21 / 1000" and "x - 21 / 1000 \<le> fl_rnd F x"
proof -
  have "\<bar>x\<bar> * rel_err + abs_err \<le> 21 / 1000" using assms(2) by simp
  moreover have "\<bar>fl_rnd F x - x\<bar> \<le> \<bar>x\<bar> * rel_err + abs_err" using rnd_err [OF assms(1)] assms(2) by simp
  ultimately have "\<bar>fl_rnd F x - x\<bar> \<le> 21 / 1000" by linarith
  then show "fl_rnd F x \<le> x + 21 / 1000" "x - 21 / 1000 \<le> fl_rnd F x" by linarith+
qed

lemma quarter: "float_ok F \<Longrightarrow> - 28 / 100 \<le> fl_rnd F (- 1 / 4)"
  using rnd_close(2) [of F "- 1 / 4"] by simp

lemma trunc_nonneg: "- 1 < x \<Longrightarrow> 0 \<le> go_trunc x"
  by (auto simp: go_trunc_def)

lemma trunc_le: "0 \<le> x \<Longrightarrow> of_int (go_trunc x) \<le> x"
  by (simp add: go_trunc_def)

lemma trunc_neg: "x < 0 \<Longrightarrow> go_trunc x \<le> 0"
  by (simp add: go_trunc_def)

lemma trunc_le_int: "x \<le> of_int n \<Longrightarrow> 0 \<le> n \<Longrightarrow> go_trunc x \<le> n"
  by (auto simp: go_trunc_def) linarith+

lemma allow_bounds:
  assumes F: "float_ok F" and I: "rnd_idem F"
    and req: "0 \<le> requested" "requested \<le> 9007199254740992"
    and lim: "0 \<le> rate" "limit \<le> 10000000000"
    and b: "fl_rnd F (- 1 / 4) \<le> burst" "burst \<le> cap" "cap \<le> 10000000000" "fl_rnd F cap = cap"
    and a: "slr_allow F requested rate limit burst = (allowed, burst')"
  shows "0 \<le> allowed \<and> allowed \<le> requested \<and> fl_rnd F (- 1 / 4) \<le> burst' \<and> burst' \<le> cap"
proof -
  have r: "of_i64 F requested = of_int requested" using rnd_int [OF F, of requested] req by (simp add: of_i64_def)
  have b4: "- 28 / 100 \<le> burst" using quarter [OF F] b(1) by linarith
  show ?thesis
  proof (cases "rate < limit")
    case True
    define h where "h = fsub F limit rate"
    have "limit - rate \<le> 10000000000" "0 \<le> limit - rate" using lim True by linarith+
    then have h: "0 \<le> h" "h \<le> 10000000000"
      using rnd_nonneg [OF F, of "limit - rate"] rnd_mono [OF F, of "limit - rate" "of_int 10000000000"]
        rnd_int [OF F, of 10000000000] by (simp_all add: h_def fsub_def)
    define x where "x = fadd F h burst"
    have hb: "\<bar>h + burst\<bar> \<le> 20000000001" using h b4 b(2,3) by (simp add: abs_le_iff)
    then have x: "x \<le> h + burst + 21 / 1000" "h + burst - 21 / 1000 \<le> x"
      using rnd_close [OF F hb] unfolding x_def fadd_def by simp_all
    have e: "slr_allow F requested rate limit burst =
        (go_trunc (min (of_i64 F requested) x),
         if h < of_i64 F (go_trunc (min (of_i64 F requested) x))
         then fsub F burst (fsub F (of_i64 F (go_trunc (min (of_i64 F requested) x))) h) else burst)"
      unfolding slr_allow_def h_def x_def Let_def using True by simp
    have al: "allowed = go_trunc (min (of_int requested) x)"
      using a e r by simp
    have bu: "burst' = (if h < of_i64 F allowed then fsub F burst (fsub F (of_i64 F allowed) h) else burst)"
      using a [unfolded e prod.inject r] al [symmetric] by metis
    have gt: "- 1 < min (of_int requested) x" using x(2) h(1) b4 req by auto
    have nn: "0 \<le> allowed" using trunc_nonneg [OF gt] al by simp
    have le: "allowed \<le> requested" unfolding al using req by (intro trunc_le_int) auto
    have fa: "of_i64 F allowed = of_int allowed"
      using rnd_int [OF F, of allowed] nn le req by (simp add: of_i64_def)
    show ?thesis
    proof (cases "h < of_int allowed")
      case False
      then have "burst' = burst" using bu fa by simp
      then show ?thesis using nn le b by simp
    next
      case hd: True
      then have pos: "0 < allowed" using h(1) by linarith
      have "0 \<le> min (of_int requested) x"
        using trunc_neg [of "min (of_int requested) x"] pos al by linarith
      then have ax: "of_int allowed \<le> x" using trunc_le [of "min (of_int requested) x"] al by simp
      define y where "y = fsub F (of_int allowed) h"
      have d: "0 < of_int allowed - h" "of_int allowed - h \<le> burst + 21 / 1000" using hd ax x(1) by linarith+
      then have ad: "\<bar>of_int allowed - h\<bar> \<le> 10000000001" using b(2,3) by (simp add: abs_le_iff)
      then have y: "y \<le> burst + 5 / 100"
        using rnd_close(1) [OF F, of "of_int allowed - h"] d unfolding y_def fsub_def by simp
      have y0: "0 \<le> y" using rnd_nonneg [OF F, of "of_int allowed - h"] d(1) by (simp add: y_def fsub_def)
      have b': "burst' = fl_rnd F (burst - y)"
        using bu fa hd by (simp add: y_def fsub_def)
      have "fl_rnd F (- 1 / 4) \<le> burst'" unfolding b' using y by (intro rnd_mono [OF F]) simp
      moreover have "burst' \<le> cap"
        using rnd_mono [OF F, of "burst - y" cap] y0 b(2,4) by (simp add: b')
      ultimately show ?thesis using nn le by simp
    qed
  next
    case rl: False
    show ?thesis
    proof (cases "0 < burst")
      case False
      then show ?thesis using a rl req b by (simp add: slr_allow_def)
    next
      case True
      have al: "allowed = go_trunc (min (of_int requested) burst)"
        using a rl True r by (simp add: slr_allow_def Let_def)
      have nn: "0 \<le> allowed" unfolding al using True req by (intro trunc_nonneg) auto
      have le: "allowed \<le> requested" unfolding al using req by (intro trunc_le_int) auto
      have ab: "of_int allowed \<le> burst" using trunc_le [of "min (of_int requested) burst"] al True req by simp
      have fa: "of_i64 F allowed = of_int allowed"
        using rnd_int [OF F, of allowed] nn le req by (simp add: of_i64_def)
      have b': "burst' = fl_rnd F (burst - of_int allowed)"
        using a rl True r fa al by (simp add: slr_allow_def Let_def fsub_def)
      have "fl_rnd F (- 1 / 4) \<le> burst'" unfolding b' using ab by (intro rnd_mono [OF F]) simp
      moreover have "burst' \<le> cap"
        using rnd_mono [OF F, of "burst - of_int allowed" cap] nn b(2,4) by (simp add: b')
      ultimately show ?thesis using nn le by simp
    qed
  qed
qed

section \<open>Preservation\<close>

definition same_cfg :: "slr \<Rightarrow> slr \<Rightarrow> bool" where
  "same_cfg s t \<longleftrightarrow> sl_counted t = sl_counted s \<and> sl_minChunk t = sl_minChunk s \<and> sl_target t = sl_target s"

lemma GetRate_ok:
  assumes "float_ok F" "window_ok w" "\<forall>e \<in> set (live w). 0 \<le> snd e" "GetRate F now w = (r, w')"
  shows "0 \<le> r \<and> window_ok w' \<and> (\<forall>e \<in> set (live w'). 0 \<le> snd e)"
proof -
  define v where "v = cleanOldEntries now w"
  have v: "window_ok v" "live v = spec_clean (now - sw_maxAge w) (live w)"
    using clean_loop_ok [OF assms(2), of "now - sw_maxAge w"] by (simp_all add: v_def cleanOldEntries_def)
  have nn: "\<forall>e \<in> set (live v). 0 \<le> snd e"
    using assms(3) v(2) unfolding spec_clean_def by (metis set_dropWhileD)
  have "0 \<le> sw_totalBytes v"
    using v(1) nn unfolding window_ok_def by (auto intro!: sum_list_nonneg)
  then have tot: "0 \<le> of_i64 F (sw_totalBytes v)" by (simp add: of_i64_def rnd_nonneg [OF assms(1)])
  have "w' = v" using assms(4) by (auto simp: GetRate_def Let_def v_def split: if_splits)
  moreover have "0 \<le> r"
    using assms(4) tot by (auto simp: GetRate_def Let_def v_def [symmetric] fdiv_def split: if_splits intro!: rnd_nonneg [OF assms(1)])
  ultimately show ?thesis using v(1) nn by simp
qed

lemma slr_rate_ok:
  assumes "float_ok F" "slr_ok F s" "slr_rate F clk s = (r, t)"
  shows "0 \<le> r \<and> slr_ok F t \<and> same_cfg s t \<and> sl_limit t = sl_limit s \<and> sl_burst t = sl_burst s \<and>
    sl_burstCap t = sl_burstCap s"
proof -
  obtain w where w: "GetRate F (clk (sl_clock s)) (sl_window s) = (r, w)" and t:
    "t = s\<lparr>sl_clock := Suc (sl_clock s), sl_window := w\<rparr>"
    using assms(3) by (auto simp: slr_rate_def tick_def split: prod.splits)
  have "window_ok (sl_window s)" "\<forall>e \<in> set (live (sl_window s)). 0 \<le> snd e"
    using assms(2) by (simp_all add: slr_ok_def)
  from GetRate_ok [OF assms(1) this w] assms(2) show ?thesis by (simp add: t slr_ok_def same_cfg_def)
qed

lemma slr_refill_ok:
  assumes F: "float_ok F" "rnd_idem F" and s: "slr_ok F s"
  shows "slr_ok F (slr_refill F now s) \<and> same_cfg s (slr_refill F now s)"
proof -
  define e where "e = seconds F (time_Sub now (sl_lastFill s))"
  have b: "fl_rnd F (- 1 / 4) \<le> sl_burst s" "0 \<le> sl_limit s" "0 \<le> sl_burstCap s" using s by (simp_all add: slr_ok_def)
  have q: "fl_rnd F (- 1 / 4) \<le> 0" using rnd_mono [OF F(1), of "- 1 / 4" 0] rnd_zero [OF F(1)] by simp
  have "fl_rnd F (- 1 / 4) \<le> min (fadd F (sl_burst s) (fmul F (sl_limit s) e)) (sl_burstCap s)" if "0 < e"
  proof -
    have "0 \<le> fmul F (sl_limit s) e" using b(2) that by (simp add: fmul_def rnd_nonneg [OF F(1)])
    then have "fl_rnd F (fl_rnd F (- 1 / 4)) \<le> fadd F (sl_burst s) (fmul F (sl_limit s) e)"
      unfolding fadd_def using b(1) by (intro rnd_mono [OF F(1)]) simp
    then show ?thesis using F(2) q b(3) by (simp add: rnd_idem_def)
  qed
  then show ?thesis
    using s by (auto simp: slr_refill_def Let_def e_def [symmetric] slr_ok_def same_cfg_def)
qed

lemma calculateAllowed_ok:
  assumes F: "float_ok F" "rnd_idem F" and s: "slr_ok F s"
    and req: "0 \<le> requested" "requested \<le> 9007199254740992"
    and c: "calculateAllowedBytes F clk requested now s = (allowed, t)"
  shows "0 \<le> allowed \<and> allowed \<le> requested \<and> slr_ok F t \<and> same_cfg s t"
proof -
  note r = slr_refill_ok [OF F s, of now]
  obtain rate u where u: "slr_rate F clk (slr_refill F now s) = (rate, u)" by fastforce
  note k = slr_rate_ok [OF F(1) conjunct1 [OF r] u]
  obtain burst where a: "slr_allow F requested rate (sl_limit u) (sl_burst u) = (allowed, burst)"
    and t: "t = u\<lparr>sl_burst := burst\<rparr>"
    using c u by (auto simp: calculateAllowedBytes_def split: prod.splits)
  have ok: "slr_ok F u" "0 \<le> rate" using k by simp_all
  have "0 \<le> allowed \<and> allowed \<le> requested \<and> fl_rnd F (- 1 / 4) \<le> burst \<and> burst \<le> sl_burstCap u"
    by (rule allow_bounds [OF F req ok(2) _ _ _ _ _ a]) (use ok(1) in \<open>simp_all add: slr_ok_def\<close>)
  then show ?thesis using ok(1) k r by (simp add: t slr_ok_def same_cfg_def)
qed

lemma tick_ok: "tick clk s = (now, t) \<Longrightarrow> slr_ok F s \<Longrightarrow> slr_ok F t \<and> same_cfg s t"
  by (auto simp: tick_def slr_ok_def same_cfg_def)

lemma same_cfg_trans: "same_cfg s t \<Longrightarrow> same_cfg t u \<Longrightarrow> same_cfg s u"
  by (simp add: same_cfg_def)

lemma same_cfg_refl [simp]: "same_cfg s s"
  by (simp add: same_cfg_def)

lemma allow_now_ok:
  assumes "float_ok F" "rnd_idem F" "slr_ok F s" "0 \<le> requested" "requested \<le> 9007199254740992"
    and "allow_now F clk requested s = (allowed, t)"
  shows "0 \<le> allowed \<and> allowed \<le> requested \<and> slr_ok F t \<and> same_cfg s t"
proof -
  obtain now u where u: "tick clk s = (now, u)" by fastforce
  note k = tick_ok [OF u assms(3)]
  have "calculateAllowedBytes F clk requested now u = (allowed, t)"
    using assms(6) u by (simp add: allow_now_def)
  from calculateAllowed_ok [OF assms(1,2) conjunct1 [OF k] assms(4,5) this] k same_cfg_trans
  show ?thesis by blast
qed

lemma wait_ok:
  assumes "float_ok F" "slr_ok F s" "calculateWaitTime F clk n s = (wt, t)"
  shows "slr_ok F t \<and> same_cfg s t"
proof -
  obtain r where "slr_rate F clk s = (r, t)" using assms(3) by (auto simp: calculateWaitTime_def split: prod.splits)
  from slr_rate_ok [OF assms(1,2) this] show ?thesis by simp
qed

lemma read_first_ok:
  assumes "float_ok F" "rnd_idem F" "slr_ok F s" "0 \<le> len" "len \<le> 9007199254740992"
    and "read_first F clk len s = (allowed, t)"
  shows "0 \<le> allowed \<and> allowed \<le> len \<and> slr_ok F t \<and> same_cfg s t"
proof -
  obtain a1 s1 where 1: "allow_now F clk len s = (a1, s1)" by fastforce
  note k1 = allow_now_ok [OF assms(1-5) 1]
  obtain wt s2 where 2: "calculateWaitTime F clk len s1 = (wt, s2)" by fastforce
  note k2 = wait_ok [OF assms(1) _ 2]
  show ?thesis
  proof (cases "a1 \<le> 0 \<and> 0 < wt")
    case True
    then have "allow_now F clk len s2 = (allowed, t)" using assms(6) 1 2 by (simp add: read_first_def)
    from allow_now_ok [OF assms(1,2) _ assms(4,5) this] k1 k2 same_cfg_trans show ?thesis by blast
  next
    case False
    then have "allowed = a1" "t = s1 \<or> t = s2"
      using assms(6) 1 2 by (auto simp: read_first_def split: if_splits)
    then show ?thesis using k1 k2 same_cfg_trans by blast
  qed
qed

lemma read_size_ok:
  assumes "float_ok F" "rnd_idem F" "slr_ok F s" "0 \<le> len" "len \<le> 9007199254740992"
    and "read_size F clk len s = (n, t)"
  shows "0 \<le> n \<and> n \<le> len \<and> slr_ok F t \<and> same_cfg s t"
proof -
  obtain a1 s1 where 1: "read_first F clk len s = (a1, s1)" by fastforce
  note k1 = read_first_ok [OF assms(1-5) 1]
  obtain wt s2 where 2: "calculateWaitTime F clk (sl_minChunk s1) s1 = (wt, s2)" by fastforce
  note k2 = wait_ok [OF assms(1) _ 2]
  obtain a3 s3 where 3: "allow_now F clk len s2 = (a3, s3)" by fastforce
  show ?thesis
  proof (cases "min len a1 < sl_minChunk s1 \<and> sl_minChunk s1 \<le> len")
    case True
    then have "n = min len a3" "t = s3" using assms(6) 1 2 3 by (simp_all add: read_size_def Let_def)
    moreover have "0 \<le> a3 \<and> a3 \<le> len \<and> slr_ok F s3 \<and> same_cfg s2 s3"
      using allow_now_ok [OF assms(1,2) _ assms(4,5) 3] k1 k2 by blast
    ultimately show ?thesis using k1 k2 assms(4) same_cfg_trans by fastforce
  next
    case False
    then have "n = min len a1" "t = s1" using assms(6) 1 by (auto simp: read_size_def Let_def)
    then show ?thesis using k1 assms(4) by auto
  qed
qed

lemma window_Add_nonneg:
  assumes "window_ok w" "\<forall>e \<in> set (live w). 0 \<le> snd e" "0 \<le> b"
  shows "window_ok (window_Add b t w) \<and> (\<forall>e \<in> set (live (window_Add b t w)). 0 \<le> snd e)"
proof -
  have sub: "set (spec_add cap age b t es) \<subseteq> insert (t, b) (set es)" for cap age es
  proof -
    have dw: "set (dropWhile P xs) \<subseteq> set xs" for P and xs :: "windowEntry list" by (auto dest: set_dropWhileD)
    have tl: "set (tl xs) \<subseteq> set xs" for xs :: "windowEntry list" by (cases xs) auto
    let ?ys = "dropWhile (\<lambda>e. fst e < t - age) es"
    have "set (if length ?ys = cap then tl ?ys else ?ys) \<subseteq> set es" using dw tl [of ?ys] by (auto split: if_splits)
    then show ?thesis unfolding spec_add_def spec_clean_def Let_def by auto
  qed
  show ?thesis using window_Add_ok [OF assms(1), of b t] sub assms(2,3) by fastforce
qed

text \<open>
  C31. A rate-limited read is safe and exact: for targets up to 8 GB/s, under IEEE rounding and
  whatever the clock shows, \<open>Read\<close> never slices its buffer out of range, returns and counts
  exactly the bytes the underlying reader delivered, no more than were asked for, and keeps the
  limiter's state well formed: the window's total is the sum of its entries, and the token
  bucket stays between minus a quarter of a byte and its capacity.
\<close>

theorem slr_Read_ok:
  assumes "float_ok F" "rnd_idem F" "slr_ok F s" "0 \<le> len" "len \<le> 9007199254740992"
    and "\<forall>k. 0 \<le> k \<longrightarrow> 0 \<le> fst (rd k) \<and> fst (rd k) \<le> k"
  shows "\<exists>n err t. slr_Read F clk rd len s = Some (n, err, t) \<and> 0 \<le> n \<and> n \<le> len \<and> slr_ok F t \<and>
    sl_counted t = sl_counted s + word_of_int n"
proof -
  obtain k s1 where r: "read_size F clk len s = (k, s1)" by fastforce
  note ok = read_size_ok [OF assms(1-5) r]
  obtain n err where n: "rd k = (n, err)" by fastforce
  have nk: "0 \<le> n" "n \<le> k" using assms(6) ok n by (metis fst_conv)+
  show ?thesis
  proof (cases "0 < n")
    case False
    then have "slr_Read F clk rd len s = Some (n, err, s1)" using r ok n by (simp add: slr_Read_def)
    then show ?thesis using ok nk False by (auto simp: same_cfg_def)
  next
    case True
    define t where "t = s1\<lparr>sl_clock := Suc (Suc (sl_clock s1)),
      sl_window := window_Add n (clk (sl_clock s1)) (sl_window s1),
      sl_counted := sl_counted s1 + word_of_int n, sl_lastRead := clk (Suc (sl_clock s1))\<rparr>"
    have e: "slr_Read F clk rd len s = Some (n, err, t)"
      using r ok n True by (simp add: slr_Read_def tick_def t_def Let_def)
    have "window_ok (sl_window s1)" "\<forall>e \<in> set (live (sl_window s1)). 0 \<le> snd e"
      using ok by (simp_all add: slr_ok_def)
    from window_Add_nonneg [OF this, of n "clk (sl_clock s1)"] nk ok have "slr_ok F t"
      by (simp add: t_def slr_ok_def)
    moreover have "sl_counted t = sl_counted s + word_of_int n" using ok by (simp add: t_def same_cfg_def)
    ultimately show ?thesis using e nk ok by auto
  qed
qed

text \<open>
  The feedback loop is bounded: whatever rate is measured, the limit after \<open>optimizeLimit\<close>
  lies between 80 and 120 percent of the target (as rounded), and the state stays well formed.
\<close>

theorem optimizeLimit_bounded:
  assumes "float_ok F" "rnd_idem F" "slr_ok F s"
  shows "fmul F (sl_target s) (fconst F (8 / 10)) \<le> sl_limit (optimizeLimit F clk s) \<and>
    sl_limit (optimizeLimit F clk s) \<le> fmul F (sl_target s) (fconst F (12 / 10)) \<and>
    slr_ok F (optimizeLimit F clk s)"
proof -
  obtain r t where rt: "slr_rate F clk s = (r, t)" by fastforce
  note k = slr_rate_ok [OF assms(1,3) rt]
  have tg: "sl_target t = sl_target s" "0 \<le> sl_target s" "sl_target s \<le> 8000000000"
    using k assms(3) by (simp_all add: same_cfg_def slr_ok_def)
  have c: "fconst F (8 / 10) \<le> fconst F (12 / 10)" "0 \<le> fconst F (8 / 10)" "fconst F (12 / 10) \<le> 5 / 4"
    using rnd_mono [OF assms(1), of "8 / 10" "12 / 10"] rnd_nonneg [OF assms(1), of "8 / 10"]
      rnd_close(1) [OF assms(1), of "12 / 10"] by (simp_all add: fconst_def)
  have lo: "0 \<le> fmul F (sl_target s) (fconst F (8 / 10))"
    unfolding fmul_def using tg(2) c(2) by (intro rnd_nonneg [OF assms(1)]) simp
  have le: "fmul F (sl_target s) (fconst F (8 / 10)) \<le> fmul F (sl_target s) (fconst F (12 / 10))"
    unfolding fmul_def using tg(2) c(1) by (intro rnd_mono [OF assms(1)] mult_left_mono) simp_all
  have "sl_target s * fconst F (12 / 10) \<le> 8000000000 * (5 / 4)"
    using tg(2,3) c by (intro mult_mono) auto
  then have hi: "fmul F (sl_target s) (fconst F (12 / 10)) \<le> 10000000000"
    using rnd_mono [OF assms(1), of "sl_target s * fconst F (12 / 10)" "of_int 10000000000"]
      rnd_int [OF assms(1), of 10000000000] by (simp add: fmul_def)
  have l: "\<exists>x. sl_limit (optimizeLimit F clk s) =
      max (fmul F (sl_target s) (fconst F (8 / 10))) (min (fmul F (sl_target s) (fconst F (12 / 10))) x)"
    using rt tg(1) by (auto simp: optimizeLimit_def Let_def)
  then have b: "fmul F (sl_target s) (fconst F (8 / 10)) \<le> sl_limit (optimizeLimit F clk s)"
    "sl_limit (optimizeLimit F clk s) \<le> fmul F (sl_target s) (fconst F (12 / 10))"
    using le by auto
  have "slr_ok F (optimizeLimit F clk s) \<longleftrightarrow> slr_ok F t \<and> 0 \<le> sl_limit (optimizeLimit F clk s) \<and>
      sl_limit (optimizeLimit F clk s) \<le> 10000000000 \<or> \<not> slr_ok F t \<and> slr_ok F (optimizeLimit F clk s)"
    using rt by (auto simp: optimizeLimit_def Let_def slr_ok_def)
  then show ?thesis using b k lo hi by linarith
qed

section \<open>Instances\<close>

definition small_slr :: slr where
  "small_slr =
     \<lparr>sl_target = 1000, sl_limit = 1000, sl_window = new_window 4 1000000000, sl_windowSize = 1000000000,
      sl_learn = 1 / 10, sl_momentum = 9 / 10, sl_gradient = 0, sl_burstCap = 10, sl_burst = 10, sl_lastFill = 0,
      sl_smoothing = 95 / 100, sl_minChunk = 16, sl_lastRead = 0, sl_counted = 0, sl_clock = 0\<rparr>"

lemma small_slr_ok: "slr_ok exact_float small_slr"
  using new_window_ok [of 4 1000000000] by (simp add: slr_ok_def small_slr_def exact_float_def)

lemma exact_idem: "rnd_idem exact_float"
  by (simp add: rnd_idem_def exact_float_def)

theorem slr_Read_ok_witness:
  "\<exists>n err t. slr_Read exact_float (\<lambda>i. int i * 1000000) (\<lambda>k. (min k 100, False)) 512 small_slr = Some (n, err, t) \<and>
    0 \<le> n \<and> n \<le> 512"
  using slr_Read_ok [OF exact_float_ok exact_idem small_slr_ok, of 512 "\<lambda>k. (min k 100, False)" "\<lambda>i. int i * 1000000"]
  by auto

theorem optimizeLimit_bounded_witness:
  "800 \<le> sl_limit (optimizeLimit exact_float (\<lambda>i. int i) small_slr) \<and>
    sl_limit (optimizeLimit exact_float (\<lambda>i. int i) small_slr) \<le> 1200"
  using optimizeLimit_bounded [OF exact_float_ok exact_idem small_slr_ok, of "\<lambda>i. int i"]
  by (simp add: fmul_def fconst_def exact_float_def small_slr_def)

end
