(* ===== verification/Columns.thy ===== *)
theory Columns
  imports Prelude
begin

text \<open>
  String columns and the mutation of replayed identifiers (\<open>internal/block/columns.go\<close>). A
  \<open>proto.ColStr\<close> is a buffer of bytes and the positions of its rows in it; \<open>shiftColStrLastByte\<close>
  rewrites the buffer in place. The abstraction of a column is the list of its rows, and the
  in-place loop refines a function on rows.
\<close>

section \<open>Columns\<close>

record colStr =
  cs_buf :: string
  cs_pos :: "(nat \<times> nat) list"

definition cs_row :: "string \<Rightarrow> nat \<times> nat \<Rightarrow> string" where
  "cs_row buf p = take (snd p - fst p) (drop (fst p) buf)"

definition cs_rows :: "colStr \<Rightarrow> string list" where
  "cs_rows c = map (cs_row (cs_buf c)) (cs_pos c)"

text \<open>Rows lie in the buffer one after the other, as the decoder and \<open>Append\<close> lay them out.\<close>

fun pos_ok :: "(nat \<times> nat) list \<Rightarrow> nat \<Rightarrow> nat \<Rightarrow> bool" where
  "pos_ok [] lo n \<longleftrightarrow> lo \<le> n"
| "pos_ok ((s, e) # ps) lo n \<longleftrightarrow> lo \<le> s \<and> s \<le> e \<and> pos_ok ps e n"

definition cs_ok :: "colStr \<Rightarrow> bool" where
  "cs_ok c \<longleftrightarrow> pos_ok (cs_pos c) 0 (length (cs_buf c))"

section \<open>The mutation\<close>

definition hex_digit :: "nat \<Rightarrow> char" where
  "hex_digit v = (if v < 10 then char_of (48 + v) else char_of (97 + v - 10))"

definition shiftHexByte :: "char \<Rightarrow> nat \<Rightarrow> char" where
  "shiftHexByte c n =
     (let b = of_char c :: nat in
      if 48 \<le> b \<and> b \<le> 57 then hex_digit ((b - 48 + n) mod 16)
      else if 97 \<le> b \<and> b \<le> 102 then hex_digit ((b - 97 + 10 + n) mod 16)
      else char_of (b + n))"

definition idShiftBytes :: nat where "idShiftBytes = 3"

text \<open>The loop over \<open>j\<close>: \<open>p\<close> is \<open>End - j + 1\<close>.\<close>

fun shift_tail :: "string \<Rightarrow> nat \<Rightarrow> nat \<Rightarrow> nat \<Rightarrow> string" where
  "shift_tail buf p 0 rem = buf"
| "shift_tail buf p (Suc m) rem =
     shift_tail (buf[p - 1 := shiftHexByte (buf ! (p - 1)) (rem mod 16)]) (p - 1) m (rem div 16)"

definition shift_pos :: "nat \<Rightarrow> nat \<times> nat \<Rightarrow> string \<Rightarrow> string" where
  "shift_pos loopIndex p buf =
     (let len = snd p - fst p in
      if len = 0 then buf else shift_tail buf (snd p) (min idShiftBytes len) loopIndex)"

definition shiftColStrLastByte :: "nat \<Rightarrow> colStr \<Rightarrow> colStr" where
  "shiftColStrLastByte loopIndex col =
     col\<lparr>cs_buf := fold (shift_pos loopIndex) (cs_pos col) (cs_buf col)\<rparr>"

section \<open>The row function it refines\<close>

fun shift_rev :: "nat \<Rightarrow> nat \<Rightarrow> string \<Rightarrow> string" where
  "shift_rev 0 rem s = s"
| "shift_rev (Suc m) rem [] = []"
| "shift_rev (Suc m) rem (c # s) = shiftHexByte c (rem mod 16) # shift_rev m (rem div 16) s"

definition shift_row :: "nat \<Rightarrow> string \<Rightarrow> string" where
  "shift_row k s = rev (shift_rev idShiftBytes k (rev s))"

lemma shift_rev_length [simp]: "length (shift_rev m k s) = length s"
  by (induction m k s rule: shift_rev.induct) auto

lemma shift_row_length [simp]: "length (shift_row k s) = length s"
  by (simp add: shift_row_def)

lemma shift_rev_min: "length s \<le> m \<Longrightarrow> shift_rev m k s = shift_rev (length s) k s"
proof (induction m k s rule: shift_rev.induct)
  case (3 m rem c s)
  then show ?case by simp
qed auto

lemma shift_rev_prefix: "m \<le> length s \<Longrightarrow> shift_rev m k (s @ t) = shift_rev m k s @ t"
  by (induction m k s rule: shift_rev.induct) auto

text \<open>The in-place loop on a buffer \<open>a @ s @ b\<close>, with \<open>s\<close> ending where it starts.\<close>

lemma shift_tail_row:
  "m \<le> length s \<Longrightarrow>
   shift_tail (a @ rev s @ b) (length a + length s) m k = a @ rev (shift_rev m k s) @ b"
proof (induction m k s arbitrary: b rule: shift_rev.induct)
  case (1 rem s)
  then show ?case by simp
next
  case (2 m rem)
  then show ?case by simp
next
  case (3 m rem c s)
  have n: "(a @ rev (c # s) @ b) ! (length a + length (c # s) - 1) = c"
    by (simp add: nth_append)
  have u: "(a @ rev (c # s) @ b)[length a + length (c # s) - 1 := x] = a @ rev s @ (x # b)" for x
    by (simp add: list_update_append)
  have "shift_tail (a @ rev (c # s) @ b) (length a + length (c # s)) (Suc m) rem =
      shift_tail (a @ rev s @ (shiftHexByte c (rem mod 16) # b)) (length a + length s) m (rem div 16)"
    by (simp only: shift_tail.simps n u) simp
  then show ?case using "3.IH" [of "shiftHexByte c (rem mod 16) # b"] "3.prems" by simp
qed

lemma shift_pos_row:
  assumes "s \<le> e" and "e \<le> length buf"
  shows "shift_pos k (s, e) buf = take s buf @ shift_row k (cs_row buf (s, e)) @ drop e buf"
proof -
  define r where "r = cs_row buf (s, e)"
  have len: "length r = e - s" using assms by (simp add: r_def cs_row_def)
  have buf: "buf = take s buf @ rev (rev r) @ drop e buf"
    using assms by (simp add: r_def cs_row_def) (metis append_take_drop_id drop_drop le_add_diff_inverse2)
  show ?thesis
  proof (cases "e - s = 0")
    case True
    then have "r = []" using len by simp
    then have "shift_row k r = []" by (metis length_0_conv shift_row_length)
    moreover have "buf = take s buf @ drop e buf" using buf \<open>r = []\<close> by simp
    ultimately show ?thesis using True by (simp add: shift_pos_def r_def [symmetric])
  next
    case False
    have l: "length (take s buf) + length (rev r) = e" using assms len by simp
    have m: "min idShiftBytes (e - s) \<le> length (rev r)" using len by simp
    have "shift_tail buf e (min idShiftBytes (e - s)) k =
        take s buf @ rev (shift_rev (min idShiftBytes (e - s)) k (rev r)) @ drop e buf"
      using shift_tail_row [OF m, of "take s buf" "drop e buf" k] l buf by simp
    moreover have "shift_rev (min idShiftBytes (e - s)) k (rev r) = shift_rev idShiftBytes k (rev r)"
      using shift_rev_min [of "rev r" idShiftBytes k] len by (cases "idShiftBytes \<le> e - s") simp_all
    ultimately show ?thesis using False by (simp add: shift_pos_def shift_row_def r_def [symmetric] Let_def)
  qed
qed

lemma cs_row_cong:
  assumes "take n buf = take n buf'" "e \<le> n"
  shows "cs_row buf (s, e) = cs_row buf' (s, e)"
proof -
  have "take (e - s) (drop s buf) = drop s (take e buf)" for buf :: string by (simp add: drop_take)
  moreover have "take e buf = take e buf'" using assms by (metis min.absorb1 take_take)
  ultimately show ?thesis by (simp add: cs_row_def)
qed

lemma pos_ok_mono: "pos_ok ps lo n \<Longrightarrow> lo' \<le> lo \<Longrightarrow> pos_ok ps lo' n"
  by (cases ps) auto

lemma pos_ok_le: "pos_ok ps lo n \<Longrightarrow> lo \<le> n"
  by (induction ps arbitrary: lo) fastforce+

lemma cs_row_drop: "lo \<le> s \<Longrightarrow> drop lo buf = drop lo buf' \<Longrightarrow> cs_row buf (s, e) = cs_row buf' (s, e)"
  unfolding cs_row_def fst_conv snd_conv
  by (metis drop_drop le_add_diff_inverse2)

lemma rows_drop:
  "pos_ok ps lo n \<Longrightarrow> drop lo buf = drop lo buf' \<Longrightarrow> map (cs_row buf) ps = map (cs_row buf') ps"
proof (induction ps arbitrary: lo)
  case (Cons p ps)
  obtain s e where p: "p = (s, e)" by fastforce
  have "drop e buf = drop e buf'"
    using Cons.prems p by (metis drop_drop le_add_diff_inverse2 le_trans pos_ok.simps(2))
  then show ?case using Cons p cs_row_drop [of lo s buf buf' e] by auto
qed simp

lemma shift_fold:
  "pos_ok ps lo (length buf) \<Longrightarrow>
   length (fold (shift_pos k) ps buf) = length buf \<and>
   take lo (fold (shift_pos k) ps buf) = take lo buf \<and>
   map (cs_row (fold (shift_pos k) ps buf)) ps = map (shift_row k) (map (cs_row buf) ps)"
proof (induction ps arbitrary: lo buf)
  case Nil
  then show ?case by simp
next
  case (Cons p ps)
  obtain s e where p: "p = (s, e)" by fastforce
  have o: "lo \<le> s" "s \<le> e" "pos_ok ps e (length buf)" using Cons.prems p by auto
  have le: "e \<le> length buf" using pos_ok_le [OF o(3)] .
  define buf1 where "buf1 = shift_pos k p buf"
  have b1: "buf1 = take s buf @ shift_row k (cs_row buf (s, e)) @ drop e buf"
    using shift_pos_row [OF o(2) le] by (simp add: buf1_def p)
  have row: "length (cs_row buf (s, e)) = e - s" using o(2) le by (simp add: cs_row_def)
  have l1: "length buf1 = length buf" using o(2) le row by (simp add: b1)
  have d1: "drop e buf1 = drop e buf" using o(2) le row by (simp add: b1)
  have t1: "take lo buf1 = take lo buf" using o(1,2) le by (simp add: b1)
  have r1: "cs_row buf1 (s, e) = shift_row k (cs_row buf (s, e))"
    using o(2) le row by (simp add: b1 cs_row_def)
  have ih: "length (fold (shift_pos k) ps buf1) = length buf1"
    "take e (fold (shift_pos k) ps buf1) = take e buf1"
    "map (cs_row (fold (shift_pos k) ps buf1)) ps = map (shift_row k) (map (cs_row buf1) ps)"
    using Cons.IH [of e buf1] o(3) l1 by auto
  have f: "fold (shift_pos k) (p # ps) buf = fold (shift_pos k) ps buf1" by (simp add: buf1_def)
  have "cs_row (fold (shift_pos k) ps buf1) p = shift_row k (cs_row buf p)"
    using cs_row_cong [OF ih(2) order_refl, of s] r1 p by simp
  moreover have "map (cs_row buf1) ps = map (cs_row buf) ps" using rows_drop [OF o(3) d1] .
  moreover have "take lo (fold (shift_pos k) ps buf1) = take lo buf"
    using ih(2) t1 o(1,2) by (metis le_trans min.absorb1 take_take)
  ultimately show ?case unfolding f using ih l1 by simp
qed

section \<open>Properties of the mutation\<close>

definition is_hex :: "char \<Rightarrow> bool" where
  "is_hex c \<longleftrightarrow> (let b = of_char c :: nat in 48 \<le> b \<and> b \<le> 57 \<or> 97 \<le> b \<and> b \<le> 102)"

definition hex_val :: "char \<Rightarrow> nat" where
  "hex_val c = (let b = of_char c in if b \<le> 57 then b - 48 else b - 97 + 10)"

lemma hex_digit_code: "v < 16 \<Longrightarrow> of_char (hex_digit v) = (if v < 10 then 48 + v else 87 + v :: nat)"
  by (auto simp: hex_digit_def take_bit_eq_mod)

lemma hex_val_digit: "v < 16 \<Longrightarrow> hex_val (hex_digit v) = v"
  by (auto simp: hex_val_def Let_def hex_digit_code)

lemma is_hex_digit: "v < 16 \<Longrightarrow> is_hex (hex_digit v)"
  by (auto simp: is_hex_def Let_def hex_digit_code)

lemma hex_val_lt: "is_hex c \<Longrightarrow> hex_val c < 16"
  by (auto simp: is_hex_def hex_val_def Let_def)

lemma hex_code_inj:
  fixes x y :: nat
  assumes "48 \<le> x \<and> x \<le> 57 \<or> 97 \<le> x \<and> x \<le> 102" and "48 \<le> y \<and> y \<le> 57 \<or> 97 \<le> y \<and> y \<le> 102"
    and "(if x \<le> 57 then x - 48 else x - 97 + 10) = (if y \<le> 57 then y - 48 else y - 97 + 10)"
  shows "x = y"
  using assms by (simp split: if_splits) linarith+

lemma hex_val_inj: "is_hex c \<Longrightarrow> is_hex d \<Longrightarrow> hex_val c = hex_val d \<Longrightarrow> c = d"
  using hex_code_inj [of "of_char c" "of_char d"] unfolding is_hex_def hex_val_def Let_def by simp

lemma shiftHexByte_hex: "is_hex c \<Longrightarrow> shiftHexByte c n = hex_digit ((hex_val c + n) mod 16)"
  by (auto simp: is_hex_def hex_val_def shiftHexByte_def Let_def)

lemma mod_add_cancel16:
  fixes a b n :: nat
  assumes "(a + n) mod 16 = (b + n) mod 16" and "a < 16" and "b < 16"
  shows "a = b"
proof -
  have *: "x = y" if "x \<le> y" "(y + n) mod 16 = (x + n) mod 16" "y < 16" for x y :: nat
  proof -
    have "16 dvd (y + n) - (x + n)" using that by (simp add: mod_eq_dvd_iff_nat)
    then have "16 dvd y - x" by simp
    then show ?thesis using that by (metis add.right_neutral dvd_imp_le le_add_diff_inverse less_imp_diff_less not_le neq0_conv)
  qed
  show ?thesis using assms * [of a b] * [of b a] by (cases "a \<le> b") auto
qed

lemma shiftHexByte_is_hex: "is_hex c \<Longrightarrow> is_hex (shiftHexByte c n)"
  by (simp add: shiftHexByte_hex is_hex_digit)

lemma shiftHexByte_inj:
  assumes "is_hex c" "is_hex d" "shiftHexByte c n = shiftHexByte d n"
  shows "c = d"
proof -
  have "(hex_val c + n) mod 16 = (hex_val d + n) mod 16"
    using arg_cong [OF assms(3), of hex_val] assms(1,2) by (simp add: shiftHexByte_hex hex_val_digit)
  then show ?thesis using assms hex_val_lt mod_add_cancel16 hex_val_inj by blast
qed

lemma shiftHexByte_inj_n:
  assumes "is_hex c" "shiftHexByte c n = shiftHexByte c m" "n < 16" "m < 16"
  shows "n = m"
proof -
  have "(n + hex_val c) mod 16 = (m + hex_val c) mod 16"
    using arg_cong [OF assms(2), of hex_val] assms(1) by (simp add: shiftHexByte_hex hex_val_digit add.commute)
  then show ?thesis using assms(3,4) mod_add_cancel16 by blast
qed

lemma shift_rev_hex: "\<forall>c \<in> set s. is_hex c \<Longrightarrow> \<forall>c \<in> set (shift_rev m k s). is_hex c"
  by (induction m k s rule: shift_rev.induct) (auto simp: shiftHexByte_is_hex)

lemma shift_rev_inj:
  "\<forall>c \<in> set s. is_hex c \<Longrightarrow> \<forall>c \<in> set t. is_hex c \<Longrightarrow> shift_rev m k s = shift_rev m k t \<Longrightarrow> s = t"
proof (induction m k s arbitrary: t rule: shift_rev.induct)
  case (2 m rem)
  then show ?case by (cases t) auto
next
  case (3 m rem c s)
  then show ?case by (cases t) (auto dest: shiftHexByte_inj)
qed simp

lemma shift_rev_loops:
  "\<forall>c \<in> set s. is_hex c \<Longrightarrow> m \<le> length s \<Longrightarrow>
   shift_rev m i s = shift_rev m j s \<longleftrightarrow> i mod 16 ^ m = j mod 16 ^ m"
proof (induction m i s arbitrary: j rule: shift_rev.induct)
  case (1 rem s)
  then show ?case by simp
next
  case (2 m rem)
  then show ?case by simp
next
  case (3 m i c s)
  have split: "x mod 16 ^ Suc m = x mod 16 + 16 * (x div 16 mod 16 ^ m)" for x :: nat
    by (simp add: mod_mult2_eq)
  have d: "x mod 16 ^ Suc m mod 16 = x mod 16" "x mod 16 ^ Suc m div 16 = x div 16 mod 16 ^ m" for x :: nat
    unfolding split by simp_all
  have e: "i mod 16 ^ Suc m = j mod 16 ^ Suc m \<longleftrightarrow>
      i mod 16 = j mod 16 \<and> i div 16 mod 16 ^ m = j div 16 mod 16 ^ m"
    using d split by metis
  have b: "shiftHexByte c (i mod 16) = shiftHexByte c (j mod 16) \<longleftrightarrow> i mod 16 = j mod 16"
    using shiftHexByte_inj_n [of c "i mod 16" "j mod 16"] "3.prems"(1) by auto
  show ?case using "3.IH" [of "j div 16"] "3.prems" by (simp only: shift_rev.simps list.inject b e) simp
qed

text \<open>
  In-place mutation refines the row function: on a well-formed column \<open>shiftColStrLastByte\<close>
  rewrites the last three bytes of every row (all bytes of a shorter one) and touches nothing
  else; the rows keep their lengths, and their positions, the well-formedness and the size of
  the buffer stay as they were.
\<close>

theorem shiftColStr_refines:
  assumes "cs_ok col"
  shows "cs_rows (shiftColStrLastByte k col) = map (shift_row k) (cs_rows col) \<and>
    cs_ok (shiftColStrLastByte k col)"
proof -
  have o: "pos_ok (cs_pos col) 0 (length (cs_buf col))" using assms by (simp add: cs_ok_def)
  show ?thesis using shift_fold [OF o, of k] o by (simp add: cs_rows_def shiftColStrLastByte_def cs_ok_def)
qed

text \<open>
  Identifiers of replayed data: on hexadecimal identifiers the mutation of one loop is
  injective, so that a span's parent is its parent in every loop, keeps identifiers hexadecimal
  and, for identifiers of three digits or more, two loops give the same identifier exactly
  when their indices agree modulo 4096.
\<close>

theorem shift_row_ids:
  assumes "\<forall>c \<in> set a. is_hex c" and "\<forall>c \<in> set b. is_hex c"
  shows "(shift_row k a = shift_row k b \<longleftrightarrow> a = b) \<and> (\<forall>c \<in> set (shift_row k a). is_hex c) \<and>
    (3 \<le> length a \<longrightarrow> (shift_row i a = shift_row j a \<longleftrightarrow> i mod 4096 = j mod 4096))"
proof (intro conjI impI)
  show "shift_row k a = shift_row k b \<longleftrightarrow> a = b"
    using shift_rev_inj [of "rev a" "rev b" idShiftBytes k] assms by (auto simp: shift_row_def)
  show "\<forall>c \<in> set (shift_row k a). is_hex c"
    using shift_rev_hex [of "rev a"] assms(1) by (simp add: shift_row_def)
  assume "3 \<le> length a"
  then show "shift_row i a = shift_row j a \<longleftrightarrow> i mod 4096 = j mod 4096"
    using shift_rev_loops [of "rev a" idShiftBytes i j] assms(1) by (simp add: shift_row_def idShiftBytes_def)
qed

theorem shiftColStr_refines_witness:
  "cs_rows (shiftColStrLastByte 1 \<lparr>cs_buf = ''9fz0ab'', cs_pos = [(0, 2), (3, 6)]\<rparr>) = [''9'' @ [char_of (48::nat)], ''0ac'']"
proof -
  have "shift_row 1 ''9f'' = ''9'' @ [char_of (48::nat)] \<and> shift_row 1 ''0ab'' = ''0ac''" by code_simp
  moreover have "cs_rows \<lparr>cs_buf = ''9fz0ab'', cs_pos = [(0, 2), (3, 6)]\<rparr> = [''9f'', ''0ab'']"
    by (simp add: cs_rows_def cs_row_def)
  ultimately show ?thesis
    using shiftColStr_refines [of "\<lparr>cs_buf = ''9fz0ab'', cs_pos = [(0, 2), (3, 6)]\<rparr>" 1]
    by (simp add: cs_ok_def)
qed

theorem shift_row_ids_witness:
  "shift_row 5 ''00ff'' \<noteq> shift_row 5 ''10ff'' \<and> shift_row 2 ''00ff'' \<noteq> shift_row 7 ''00ff'' \<and>
    shift_row 2 ''00ff'' = shift_row 4098 ''00ff''"
proof -
  have h: "\<forall>c \<in> set ''00ff''. is_hex c" "\<forall>c \<in> set ''10ff''. is_hex c" by code_simp+
  show ?thesis
    using shift_row_ids [OF h, of 5 0 0] shift_row_ids [OF h, of 0 2 7] shift_row_ids [OF h, of 0 2 4098] by simp
qed

end
