(* ===== verification/OtelRow.thy ===== *)
theory OtelRow
  imports Columns Replay
begin

text \<open>
  The neutral row view of a block (\<open>internal/block/otelrow.go\<close>, \<open>otelrow_disk.go\<close>) and the disk
  column sets for logs and traces (\<open>logs.go\<close>, \<open>traces.go\<close>, the low-cardinality wrapper of
  \<open>helpers.go\<close>): reading a row out of the columns, and the in-place updates of timestamps and
  identifiers. The conversions between a stored \<open>DateTime64\<close> or \<open>DateTime\<close> and a time are
  those of ch-go, a parameter.

  \<open>logs_repr c rows\<close> and \<open>traces_repr c rows\<close> say which rows a column set stores; the readers
  and the updates are proved against them.
\<close>

section \<open>Columns\<close>

datatype keyType = KeyUInt8 | KeyUInt16 | KeyUInt32 | KeyUInt64 | KeyOther

record lowCard =
  lc_key :: keyType
  lc_keys8 :: "nat list"
  lc_keys16 :: "nat list"
  lc_keys32 :: "nat list"
  lc_keys64 :: "nat list"
  lc_index :: "colStr option"

definition lc_keys :: "lowCard \<Rightarrow> nat list" where
  "lc_keys c =
     (case lc_key c of KeyUInt8 \<Rightarrow> lc_keys8 c | KeyUInt16 \<Rightarrow> lc_keys16 c | KeyUInt32 \<Rightarrow> lc_keys32 c
      | KeyUInt64 \<Rightarrow> lc_keys64 c | KeyOther \<Rightarrow> [])"

definition cs_get :: "colStr \<Rightarrow> nat \<Rightarrow> string" where
  "cs_get c i = cs_row (cs_buf c) (cs_pos c ! i)"

definition index_row :: "colStr option \<Rightarrow> nat \<Rightarrow> string" where
  "index_row s idx =
     (case s of Some c \<Rightarrow> if idx < length (cs_pos c) then cs_get c idx else '''' | None \<Rightarrow> '''')"

definition RowString :: "lowCard \<Rightarrow> nat \<Rightarrow> string" where
  "RowString c i =
     (case lc_key c of
        KeyUInt8 \<Rightarrow> if length (lc_keys8 c) \<le> i then '''' else index_row (lc_index c) (lc_keys8 c ! i)
      | KeyUInt16 \<Rightarrow> if length (lc_keys16 c) \<le> i then '''' else index_row (lc_index c) (lc_keys16 c ! i)
      | KeyUInt32 \<Rightarrow> if length (lc_keys32 c) \<le> i then '''' else index_row (lc_index c) (lc_keys32 c ! i)
      | KeyUInt64 \<Rightarrow> if length (lc_keys64 c) \<le> i then '''' else index_row (lc_index c) (lc_keys64 c ! i)
      | KeyOther \<Rightarrow> '''')"

text \<open>A string-valued column: the plain one, the wrapper, the standard one (its values), another type.\<close>

datatype column = StrCol colStr | LowCardCol lowCard | LCStdCol "string list" | OtherCol

definition ColStrRow :: "column option \<Rightarrow> int \<Rightarrow> string" where
  "ColStrRow col i =
     (if i < 0 then ''''
      else case col of
          Some (StrCol c) \<Rightarrow> if nat i < length (cs_pos c) then cs_get c (nat i) else ''''
        | Some (LowCardCol c) \<Rightarrow> if nat i < length (lc_keys c) then RowString c (nat i) else ''''
        | Some (LCStdCol vs) \<Rightarrow> if nat i < length vs then vs ! nat i else ''''
        | _ \<Rightarrow> '''')"

record colMap =
  cm_offsets :: "nat list"
  cm_keys :: column
  cm_vals :: column

definition MapRowKV :: "(string \<times> string) list \<Rightarrow> colMap option \<Rightarrow> int \<Rightarrow> (string \<times> string) list" where
  "MapRowKV dst col i =
     (case col of
        None \<Rightarrow> dst
      | Some m \<Rightarrow>
          if i < 0 \<or> int (length (cm_offsets m)) \<le> i then dst
          else let stop = cm_offsets m ! nat i;
                   start = (if 0 < i then cm_offsets m ! nat (i - 1) else 0)
               in dst @ map (\<lambda>idx. (ColStrRow (Some (cm_keys m)) (int idx), ColStrRow (Some (cm_vals m)) (int idx)))
                    [start..<stop])"

definition arrayRange :: "nat list \<Rightarrow> int \<Rightarrow> nat \<times> nat" where
  "arrayRange offsets i =
     (if i < 0 \<or> int (length offsets) \<le> i then (0, 0)
      else (if 0 < i then offsets ! nat (i - 1) else 0, offsets ! nat i))"

record 'd colArr =
  ca_offsets :: "nat list"
  ca_data :: 'd

section \<open>Rows\<close>

record log_row =
  lr_Timestamp :: int
  lr_TraceID :: string
  lr_SpanID :: string
  lr_TraceFlags :: nat
  lr_SeverityText :: string
  lr_SeverityNumber :: nat
  lr_ServiceName :: string
  lr_Body :: string
  lr_ResourceSchemaURL :: string
  lr_ResourceAttrs :: "(string \<times> string) list"
  lr_ScopeSchemaURL :: string
  lr_ScopeName :: string
  lr_ScopeVersion :: string
  lr_ScopeAttrs :: "(string \<times> string) list"
  lr_LogAttrs :: "(string \<times> string) list"

record trace_event =
  te_Timestamp :: int
  te_Name :: string
  te_Attrs :: "(string \<times> string) list"

record trace_link =
  tl_TraceID :: string
  tl_SpanID :: string
  tl_TraceState :: string
  tl_Attrs :: "(string \<times> string) list"

record trace_row =
  tr_Timestamp :: int
  tr_TraceID :: string
  tr_SpanID :: string
  tr_ParentSpanID :: string
  tr_TraceState :: string
  tr_SpanName :: string
  tr_SpanKind :: string
  tr_ServiceName :: string
  tr_ResourceAttrs :: "(string \<times> string) list"
  tr_ScopeName :: string
  tr_ScopeVersion :: string
  tr_SpanAttrs :: "(string \<times> string) list"
  tr_Duration :: u64
  tr_StatusCode :: string
  tr_StatusMessage :: string
  tr_Events :: "trace_event list"
  tr_Links :: "trace_link list"

section \<open>The column sets\<close>

text \<open>ch-go's conversions: stored value to time, time to \<open>DateTime64\<close> and to \<open>DateTime\<close>.\<close>

record time_codec =
  tc_time :: "int \<Rightarrow> int"
  tc_dt64 :: "int \<Rightarrow> int"
  tc_dt :: "int \<Rightarrow> nat"

record logs_cols =
  lg_timestamp :: "int list"
  lg_timestampTime :: "nat list"
  lg_traceID :: colStr
  lg_spanID :: colStr
  lg_traceFlags :: "nat list"
  lg_severityText :: lowCard
  lg_severityNumber :: "nat list"
  lg_serviceName :: lowCard
  lg_body :: colStr
  lg_resourceSchemaUrl :: lowCard
  lg_resourceAttributes :: colMap
  lg_scopeSchemaUrl :: lowCard
  lg_scopeName :: colStr
  lg_scopeVersion :: lowCard
  lg_scopeAttributes :: colMap
  lg_logAttributes :: colMap
  lg_hasTimestampTime :: bool

record traces_cols =
  tc_timestamp :: "int list"
  tc_traceID :: colStr
  tc_spanID :: colStr
  tc_parentSpanID :: colStr
  tc_traceState :: colStr
  tc_spanName :: lowCard
  tc_spanKind :: lowCard
  tc_serviceName :: lowCard
  tc_resourceAttributes :: colMap
  tc_scopeName :: colStr
  tc_scopeVersion :: colStr
  tc_spanAttributes :: colMap
  tc_duration :: "u64 list"
  tc_statusCode :: lowCard
  tc_statusMessage :: colStr
  tc_eventsTimestamps :: "int list option colArr"
  tc_eventsNames :: "column option colArr"
  tc_eventsAttributes :: "colMap option colArr"
  tc_linksTraceIDs :: "column option colArr"
  tc_linksSpanIDs :: "column option colArr"
  tc_linksTraceStates :: "column option colArr"
  tc_linksAttributes :: "colMap option colArr"

section \<open>Reading a row\<close>

definition read_event ::
  "time_codec \<Rightarrow> int list option \<Rightarrow> column option \<Rightarrow> colMap option \<Rightarrow> nat \<Rightarrow> nat \<Rightarrow> nat \<Rightarrow> nat \<Rightarrow> trace_event" where
  "read_event T raw nameCol attrCol tStart nStart aStart j =
     \<lparr>te_Timestamp = (case raw of
          Some d \<Rightarrow> if tStart + j < length d then tc_time T (d ! (tStart + j)) else zeroTime
        | None \<Rightarrow> zeroTime),
      te_Name = ColStrRow nameCol (int (nStart + j)),
      te_Attrs = MapRowKV [] attrCol (int (aStart + j))\<rparr>"

definition ReadEvents ::
  "time_codec \<Rightarrow> trace_event list \<Rightarrow> int list option colArr \<Rightarrow> column option colArr \<Rightarrow> colMap option colArr \<Rightarrow>
   int \<Rightarrow> trace_event list" where
  "ReadEvents T dst timestamps names attrs i =
     (case arrayRange (ca_offsets timestamps) i of (tStart, tEnd) \<Rightarrow>
        let nStart = fst (arrayRange (ca_offsets names) i);
            aStart = fst (arrayRange (ca_offsets attrs) i)
        in dst @ map (read_event T (ca_data timestamps) (ca_data names) (ca_data attrs) tStart nStart aStart)
             [0..<tEnd - tStart])"

definition ReadLinks ::
  "trace_link list \<Rightarrow> column option colArr \<Rightarrow> column option colArr \<Rightarrow> column option colArr \<Rightarrow>
   colMap option colArr \<Rightarrow> int \<Rightarrow> trace_link list" where
  "ReadLinks dst traceIDs spanIDs traceStates attrs i =
     (case arrayRange (ca_offsets traceIDs) i of (tStart, tEnd) \<Rightarrow>
        let sStart = fst (arrayRange (ca_offsets spanIDs) i);
            stStart = fst (arrayRange (ca_offsets traceStates) i);
            aStart = fst (arrayRange (ca_offsets attrs) i)
        in dst @ map (\<lambda>j. \<lparr>tl_TraceID = ColStrRow (ca_data traceIDs) (int (tStart + j)),
                          tl_SpanID = ColStrRow (ca_data spanIDs) (int (sStart + j)),
                          tl_TraceState = ColStrRow (ca_data traceStates) (int (stStart + j)),
                          tl_Attrs = MapRowKV [] (ca_data attrs) (int (aStart + j))\<rparr>)
             [0..<tEnd - tStart])"

definition logs_Rows :: "logs_cols \<Rightarrow> nat" where "logs_Rows c = length (lg_timestamp c)"

definition traces_Rows :: "traces_cols \<Rightarrow> nat" where "traces_Rows c = length (tc_timestamp c)"

text \<open>An index past the end of a directly indexed column panics: \<open>None\<close>.\<close>

definition ReadLogRow :: "time_codec \<Rightarrow> logs_cols \<Rightarrow> nat \<Rightarrow> log_row option" where
  "ReadLogRow T c i =
     (if i < length (lg_timestamp c) \<and> i < length (cs_pos (lg_traceID c)) \<and> i < length (cs_pos (lg_spanID c)) \<and>
         i < length (lg_traceFlags c) \<and> i < length (lg_severityNumber c) \<and> i < length (cs_pos (lg_body c)) \<and>
         i < length (cs_pos (lg_scopeName c))
      then Some
        \<lparr>lr_Timestamp = tc_time T (lg_timestamp c ! i),
         lr_TraceID = cs_get (lg_traceID c) i,
         lr_SpanID = cs_get (lg_spanID c) i,
         lr_TraceFlags = lg_traceFlags c ! i,
         lr_SeverityText = RowString (lg_severityText c) i,
         lr_SeverityNumber = lg_severityNumber c ! i,
         lr_ServiceName = RowString (lg_serviceName c) i,
         lr_Body = cs_get (lg_body c) i,
         lr_ResourceSchemaURL = RowString (lg_resourceSchemaUrl c) i,
         lr_ResourceAttrs = MapRowKV [] (Some (lg_resourceAttributes c)) (int i),
         lr_ScopeSchemaURL = RowString (lg_scopeSchemaUrl c) i,
         lr_ScopeName = cs_get (lg_scopeName c) i,
         lr_ScopeVersion = RowString (lg_scopeVersion c) i,
         lr_ScopeAttrs = MapRowKV [] (Some (lg_scopeAttributes c)) (int i),
         lr_LogAttrs = MapRowKV [] (Some (lg_logAttributes c)) (int i)\<rparr>
      else None)"

definition ReadTraceRow :: "time_codec \<Rightarrow> traces_cols \<Rightarrow> nat \<Rightarrow> trace_row option" where
  "ReadTraceRow T c i =
     (if i < length (tc_timestamp c) \<and> i < length (cs_pos (tc_traceID c)) \<and> i < length (cs_pos (tc_spanID c)) \<and>
         i < length (cs_pos (tc_parentSpanID c)) \<and> i < length (cs_pos (tc_traceState c)) \<and>
         i < length (cs_pos (tc_scopeName c)) \<and> i < length (cs_pos (tc_scopeVersion c)) \<and>
         i < length (tc_duration c) \<and> i < length (cs_pos (tc_statusMessage c))
      then Some
        \<lparr>tr_Timestamp = tc_time T (tc_timestamp c ! i),
         tr_TraceID = cs_get (tc_traceID c) i,
         tr_SpanID = cs_get (tc_spanID c) i,
         tr_ParentSpanID = cs_get (tc_parentSpanID c) i,
         tr_TraceState = cs_get (tc_traceState c) i,
         tr_SpanName = RowString (tc_spanName c) i,
         tr_SpanKind = RowString (tc_spanKind c) i,
         tr_ServiceName = RowString (tc_serviceName c) i,
         tr_ResourceAttrs = MapRowKV [] (Some (tc_resourceAttributes c)) (int i),
         tr_ScopeName = cs_get (tc_scopeName c) i,
         tr_ScopeVersion = cs_get (tc_scopeVersion c) i,
         tr_SpanAttrs = MapRowKV [] (Some (tc_spanAttributes c)) (int i),
         tr_Duration = tc_duration c ! i,
         tr_StatusCode = RowString (tc_statusCode c) i,
         tr_StatusMessage = cs_get (tc_statusMessage c) i,
         tr_Events = ReadEvents T [] (tc_eventsTimestamps c) (tc_eventsNames c) (tc_eventsAttributes c) (int i),
         tr_Links = ReadLinks [] (tc_linksTraceIDs c) (tc_linksSpanIDs c) (tc_linksTraceStates c)
           (tc_linksAttributes c) (int i)\<rparr>
      else None)"

section \<open>Updates in place\<close>

text \<open>
  The loops that rewrite the timestamps: \<open>f i\<close> is applied to the time of row \<open>i\<close>. With a
  \<open>TimestampTime\<close> column that is too short the code panics.
\<close>

definition log_times :: "time_codec \<Rightarrow> (nat \<Rightarrow> int \<Rightarrow> int) \<Rightarrow> logs_cols \<Rightarrow> logs_cols option" where
  "log_times T f c =
     (let n = length (lg_timestamp c);
          shifted = map (\<lambda>i. f i (tc_time T (lg_timestamp c ! i))) [0..<n]
      in if lg_hasTimestampTime c
         then if length (lg_timestampTime c) < n then None
              else Some (c\<lparr>lg_timestamp := map (tc_dt64 T) shifted,
                           lg_timestampTime := map (tc_dt T) shifted @ drop n (lg_timestampTime c)\<rparr>)
         else Some (c\<lparr>lg_timestamp := map (tc_dt64 T) shifted\<rparr>))"

definition logs_UpdateDate :: "time_codec \<Rightarrow> int \<Rightarrow> (nat \<Rightarrow> int) \<Rightarrow> logs_cols \<Rightarrow> logs_cols option" where
  "logs_UpdateDate T off now c = log_times T (\<lambda>i. ShiftDateToToday off (now i)) c"

definition logs_UpdateTimestampMinute :: "time_codec \<Rightarrow> int \<Rightarrow> (nat \<Rightarrow> int) \<Rightarrow> logs_cols \<Rightarrow> logs_cols option" where
  "logs_UpdateTimestampMinute T off now c = log_times T (\<lambda>i. ShiftTimestampMinute off (now i)) c"

definition logs_ShiftTimestamp :: "time_codec \<Rightarrow> snapshot \<Rightarrow> logs_cols \<Rightarrow> logs_cols option" where
  "logs_ShiftTimestamp T s c = log_times T (\<lambda>i. ShiftTimestamp s) c"

definition logs_UpdateTimestampNow :: "time_codec \<Rightarrow> (nat \<Rightarrow> int) \<Rightarrow> logs_cols \<Rightarrow> logs_cols option" where
  "logs_UpdateTimestampNow T now c = log_times T (\<lambda>i _. now i) c"

definition trace_times :: "time_codec \<Rightarrow> (nat \<Rightarrow> int \<Rightarrow> int) \<Rightarrow> traces_cols \<Rightarrow> traces_cols" where
  "trace_times T f c =
     c\<lparr>tc_timestamp := map (\<lambda>i. tc_dt64 T (f i (tc_time T (tc_timestamp c ! i)))) [0..<length (tc_timestamp c)]\<rparr>"

definition traces_UpdateDate :: "time_codec \<Rightarrow> int \<Rightarrow> (nat \<Rightarrow> int) \<Rightarrow> traces_cols \<Rightarrow> traces_cols" where
  "traces_UpdateDate T off now c = trace_times T (\<lambda>i. ShiftDateToToday off (now i)) c"

definition traces_UpdateTimestampMinute :: "time_codec \<Rightarrow> int \<Rightarrow> (nat \<Rightarrow> int) \<Rightarrow> traces_cols \<Rightarrow> traces_cols" where
  "traces_UpdateTimestampMinute T off now c = trace_times T (\<lambda>i. ShiftTimestampMinute off (now i)) c"

definition traces_ShiftTimestamp :: "time_codec \<Rightarrow> snapshot \<Rightarrow> traces_cols \<Rightarrow> traces_cols" where
  "traces_ShiftTimestamp T s c = trace_times T (\<lambda>i. ShiftTimestamp s) c"

definition traces_UpdateTimestampNow :: "time_codec \<Rightarrow> (nat \<Rightarrow> int) \<Rightarrow> traces_cols \<Rightarrow> traces_cols" where
  "traces_UpdateTimestampNow T now c = trace_times T (\<lambda>i _. now i) c"

definition logs_FirstTimestamp :: "time_codec \<Rightarrow> logs_cols \<Rightarrow> int" where
  "logs_FirstTimestamp T c = (if 0 < length (lg_timestamp c) then tc_time T (lg_timestamp c ! 0) else zeroTime)"

definition logs_LastTimestamp :: "time_codec \<Rightarrow> logs_cols \<Rightarrow> int" where
  "logs_LastTimestamp T c =
     (if 0 < length (lg_timestamp c) then tc_time T (lg_timestamp c ! (length (lg_timestamp c) - 1)) else zeroTime)"

definition traces_FirstTimestamp :: "time_codec \<Rightarrow> traces_cols \<Rightarrow> int" where
  "traces_FirstTimestamp T c = (if 0 < length (tc_timestamp c) then tc_time T (tc_timestamp c ! 0) else zeroTime)"

definition traces_LastTimestamp :: "time_codec \<Rightarrow> traces_cols \<Rightarrow> int" where
  "traces_LastTimestamp T c =
     (if 0 < length (tc_timestamp c) then tc_time T (tc_timestamp c ! (length (tc_timestamp c) - 1)) else zeroTime)"

definition logs_MutateIDs :: "nat \<Rightarrow> logs_cols \<Rightarrow> logs_cols" where
  "logs_MutateIDs loopIndex c =
     (if loopIndex = 0 then c
      else c\<lparr>lg_traceID := shiftColStrLastByte loopIndex (lg_traceID c),
             lg_spanID := shiftColStrLastByte loopIndex (lg_spanID c)\<rparr>)"

definition traces_MutateIDs :: "nat \<Rightarrow> traces_cols \<Rightarrow> traces_cols" where
  "traces_MutateIDs loopIndex c =
     (if loopIndex = 0 then c
      else c\<lparr>tc_traceID := shiftColStrLastByte loopIndex (tc_traceID c),
             tc_spanID := shiftColStrLastByte loopIndex (tc_spanID c),
             tc_parentSpanID := shiftColStrLastByte loopIndex (tc_parentSpanID c)\<rparr>)"

section \<open>What a column stores\<close>

fun sums :: "nat \<Rightarrow> nat list \<Rightarrow> nat list" where
  "sums a [] = []"
| "sums a (l # ls) = (a + l) # sums (a + l) ls"

definition str_repr :: "colStr \<Rightarrow> string list \<Rightarrow> bool" where
  "str_repr c xs \<longleftrightarrow> cs_ok c \<and> cs_rows c = xs"

definition lc_repr :: "lowCard \<Rightarrow> string list \<Rightarrow> bool" where
  "lc_repr c xs \<longleftrightarrow> lc_key c \<noteq> KeyOther \<and>
     (case lc_index c of
        None \<Rightarrow> False
      | Some d \<Rightarrow> (\<forall>k \<in> set (lc_keys c). k < length (cs_pos d)) \<and> map (cs_get d) (lc_keys c) = xs)"

fun col_repr :: "column option \<Rightarrow> string list \<Rightarrow> bool" where
  "col_repr (Some (StrCol c)) xs \<longleftrightarrow> cs_rows c = xs"
| "col_repr (Some (LowCardCol c)) xs \<longleftrightarrow> lc_repr c xs"
| "col_repr (Some (LCStdCol vs)) xs \<longleftrightarrow> vs = xs"
| "col_repr (Some OtherCol) xs \<longleftrightarrow> False"
| "col_repr None xs \<longleftrightarrow> False"

definition map_repr :: "colMap \<Rightarrow> (string \<times> string) list list \<Rightarrow> bool" where
  "map_repr m kvs \<longleftrightarrow>
     cm_offsets m = sums 0 (map length kvs) \<and>
     col_repr (Some (cm_keys m)) (map fst (concat kvs)) \<and> col_repr (Some (cm_vals m)) (map snd (concat kvs))"

definition events_repr ::
  "time_codec \<Rightarrow> int list option colArr \<Rightarrow> column option colArr \<Rightarrow> colMap option colArr \<Rightarrow> trace_event list list \<Rightarrow> bool" where
  "events_repr T ts names attrs evs \<longleftrightarrow>
     ca_offsets ts = sums 0 (map length evs) \<and> ca_offsets names = sums 0 (map length evs) \<and>
     ca_offsets attrs = sums 0 (map length evs) \<and>
     (case ca_data ts of None \<Rightarrow> False | Some d \<Rightarrow> map (tc_time T) d = map te_Timestamp (concat evs)) \<and>
     col_repr (ca_data names) (map te_Name (concat evs)) \<and>
     (case ca_data attrs of None \<Rightarrow> False | Some m \<Rightarrow> map_repr m (map te_Attrs (concat evs)))"

definition links_repr ::
  "column option colArr \<Rightarrow> column option colArr \<Rightarrow> column option colArr \<Rightarrow> colMap option colArr \<Rightarrow>
   trace_link list list \<Rightarrow> bool" where
  "links_repr tids sids sts attrs ls \<longleftrightarrow>
     ca_offsets tids = sums 0 (map length ls) \<and> ca_offsets sids = sums 0 (map length ls) \<and>
     ca_offsets sts = sums 0 (map length ls) \<and> ca_offsets attrs = sums 0 (map length ls) \<and>
     col_repr (ca_data tids) (map tl_TraceID (concat ls)) \<and> col_repr (ca_data sids) (map tl_SpanID (concat ls)) \<and>
     col_repr (ca_data sts) (map tl_TraceState (concat ls)) \<and>
     (case ca_data attrs of None \<Rightarrow> False | Some m \<Rightarrow> map_repr m (map tl_Attrs (concat ls)))"

definition logs_repr :: "time_codec \<Rightarrow> logs_cols \<Rightarrow> log_row list \<Rightarrow> bool" where
  "logs_repr T c rows \<longleftrightarrow>
     map (tc_time T) (lg_timestamp c) = map lr_Timestamp rows \<and>
     (lg_hasTimestampTime c \<longrightarrow> length (lg_timestampTime c) = length rows) \<and>
     str_repr (lg_traceID c) (map lr_TraceID rows) \<and> str_repr (lg_spanID c) (map lr_SpanID rows) \<and>
     lg_traceFlags c = map lr_TraceFlags rows \<and> lc_repr (lg_severityText c) (map lr_SeverityText rows) \<and>
     lg_severityNumber c = map lr_SeverityNumber rows \<and> lc_repr (lg_serviceName c) (map lr_ServiceName rows) \<and>
     str_repr (lg_body c) (map lr_Body rows) \<and>
     lc_repr (lg_resourceSchemaUrl c) (map lr_ResourceSchemaURL rows) \<and>
     map_repr (lg_resourceAttributes c) (map lr_ResourceAttrs rows) \<and>
     lc_repr (lg_scopeSchemaUrl c) (map lr_ScopeSchemaURL rows) \<and>
     str_repr (lg_scopeName c) (map lr_ScopeName rows) \<and> lc_repr (lg_scopeVersion c) (map lr_ScopeVersion rows) \<and>
     map_repr (lg_scopeAttributes c) (map lr_ScopeAttrs rows) \<and> map_repr (lg_logAttributes c) (map lr_LogAttrs rows)"

definition traces_repr :: "time_codec \<Rightarrow> traces_cols \<Rightarrow> trace_row list \<Rightarrow> bool" where
  "traces_repr T c rows \<longleftrightarrow>
     map (tc_time T) (tc_timestamp c) = map tr_Timestamp rows \<and>
     str_repr (tc_traceID c) (map tr_TraceID rows) \<and> str_repr (tc_spanID c) (map tr_SpanID rows) \<and>
     str_repr (tc_parentSpanID c) (map tr_ParentSpanID rows) \<and> str_repr (tc_traceState c) (map tr_TraceState rows) \<and>
     lc_repr (tc_spanName c) (map tr_SpanName rows) \<and> lc_repr (tc_spanKind c) (map tr_SpanKind rows) \<and>
     lc_repr (tc_serviceName c) (map tr_ServiceName rows) \<and>
     map_repr (tc_resourceAttributes c) (map tr_ResourceAttrs rows) \<and>
     str_repr (tc_scopeName c) (map tr_ScopeName rows) \<and> str_repr (tc_scopeVersion c) (map tr_ScopeVersion rows) \<and>
     map_repr (tc_spanAttributes c) (map tr_SpanAttrs rows) \<and> tc_duration c = map tr_Duration rows \<and>
     lc_repr (tc_statusCode c) (map tr_StatusCode rows) \<and> str_repr (tc_statusMessage c) (map tr_StatusMessage rows) \<and>
     events_repr T (tc_eventsTimestamps c) (tc_eventsNames c) (tc_eventsAttributes c) (map tr_Events rows) \<and>
     links_repr (tc_linksTraceIDs c) (tc_linksSpanIDs c) (tc_linksTraceStates c) (tc_linksAttributes c)
       (map tr_Links rows)"

section \<open>Readers: lemmas\<close>

lemma sums_length [simp]: "length (sums a ls) = length ls"
  by (induction ls arbitrary: a) auto

lemma sums_nth: "i < length ls \<Longrightarrow> sums a ls ! i = a + sum_list (take (Suc i) ls)"
proof (induction ls arbitrary: a i)
  case (Cons l ls)
  then show ?case by (cases i) auto
qed simp

lemma sums_prev: "i < length ls \<Longrightarrow> (if 0 < i then sums 0 ls ! (i - 1) else 0) = sum_list (take i ls)"
  by (cases i) (simp_all add: sums_nth)

lemma arrayRange_sums:
  assumes "i < length ls"
  shows "arrayRange (sums 0 ls) (int i) = (sum_list (take i ls), sum_list (take i ls) + ls ! i)"
proof -
  have "nat (int i - 1) = i - 1" by simp
  moreover have "sums 0 ls ! i = sum_list (take i ls) + ls ! i"
    using assms by (simp add: sums_nth take_Suc_conv_app_nth)
  moreover have "0 < i \<longrightarrow> sums 0 ls ! (i - 1) = sum_list (take i ls)" "i = 0 \<longrightarrow> sum_list (take i ls) = 0"
    using sums_prev [OF assms] by (auto split: if_splits)
  ultimately show ?thesis using assms by (auto simp: arrayRange_def)
qed

lemma concat_slice:
  "i < length xss \<Longrightarrow> j < length (xss ! i) \<Longrightarrow>
   sum_list (take i (map length xss)) + j < length (concat xss) \<and>
   concat xss ! (sum_list (take i (map length xss)) + j) = xss ! i ! j"
proof (induction xss arbitrary: i)
  case (Cons x xss)
  then show ?case by (cases i) (auto simp: nth_append add.assoc)
qed simp

lemma cs_get_row: "i < length (cs_pos c) \<Longrightarrow> cs_get c i = cs_rows c ! i"
  by (simp add: cs_get_def cs_rows_def)

lemma cs_rows_length [simp]: "length (cs_rows c) = length (cs_pos c)"
  by (simp add: cs_rows_def)

lemma str_repr_get: "str_repr c xs \<Longrightarrow> i < length xs \<Longrightarrow> i < length (cs_pos c) \<and> cs_get c i = xs ! i"
  by (auto simp: str_repr_def cs_get_row)

lemma lc_repr_get:
  assumes "lc_repr c xs" "i < length xs"
  shows "i < length (lc_keys c) \<and> RowString c i = xs ! i"
proof -
  obtain d where d: "lc_index c = Some d" "\<forall>k \<in> set (lc_keys c). k < length (cs_pos d)"
    "map (cs_get d) (lc_keys c) = xs" "lc_key c \<noteq> KeyOther"
    using assms(1) by (auto simp: lc_repr_def split: option.splits)
  have i: "i < length (lc_keys c)" using assms(2) d(3) by auto
  then have "index_row (lc_index c) (lc_keys c ! i) = xs ! i" using d by (auto simp: index_row_def)
  then show ?thesis using i d(4) by (cases "lc_key c") (auto simp: RowString_def lc_keys_def)
qed

lemma col_repr_get: "col_repr col xs \<Longrightarrow> i < length xs \<Longrightarrow> ColStrRow col (int i) = xs ! i"
proof (induction col xs rule: col_repr.induct)
  case (1 c xs)
  then show ?case by (auto simp: ColStrRow_def cs_get_row)
next
  case (2 c xs)
  then show ?case using lc_repr_get [of c xs i] by (auto simp: ColStrRow_def)
qed (auto simp: ColStrRow_def)

lemma map_repr_get:
  assumes "map_repr m kvs" "i < length kvs"
  shows "MapRowKV dst (Some m) (int i) = dst @ kvs ! i"
proof -
  let ?s = "sum_list (take i (map length kvs))"
  have off: "cm_offsets m = sums 0 (map length kvs)" using assms(1) by (simp add: map_repr_def)
  have "arrayRange (cm_offsets m) (int i) = (?s, ?s + length (kvs ! i))"
    using arrayRange_sums [of i "map length kvs"] assms(2) off by simp
  then have r: "MapRowKV dst (Some m) (int i) =
      dst @ map (\<lambda>idx. (ColStrRow (Some (cm_keys m)) (int idx), ColStrRow (Some (cm_vals m)) (int idx)))
        [?s..<?s + length (kvs ! i)]"
    using assms(2) off by (auto simp: MapRowKV_def arrayRange_def Let_def split: if_splits)
  have "map (\<lambda>idx. (ColStrRow (Some (cm_keys m)) (int idx), ColStrRow (Some (cm_vals m)) (int idx)))
        [?s..<?s + length (kvs ! i)] = kvs ! i"
  proof (rule nth_equalityI)
    fix j
    assume "j < length (map (\<lambda>idx. (ColStrRow (Some (cm_keys m)) (int idx),
      ColStrRow (Some (cm_vals m)) (int idx))) [?s..<?s + length (kvs ! i)])"
    then have j: "j < length (kvs ! i)" by simp
    have c: "?s + j < length (concat kvs)" "concat kvs ! (?s + j) = kvs ! i ! j"
      using concat_slice [OF assms(2) j] by auto
    have "ColStrRow (Some (cm_keys m)) (int (?s + j)) = fst (kvs ! i ! j)"
      "ColStrRow (Some (cm_vals m)) (int (?s + j)) = snd (kvs ! i ! j)"
      using assms(1) c col_repr_get [of "Some (cm_keys m)" "map fst (concat kvs)" "?s + j"]
        col_repr_get [of "Some (cm_vals m)" "map snd (concat kvs)" "?s + j"]
      unfolding map_repr_def by (simp_all only: length_map nth_map)
    then show "map (\<lambda>idx. (ColStrRow (Some (cm_keys m)) (int idx), ColStrRow (Some (cm_vals m)) (int idx)))
        [?s..<?s + length (kvs ! i)] ! j = kvs ! i ! j"
      using j by simp
  qed simp
  then show ?thesis using r by simp
qed

lemma read_event_repr:
  assumes "events_repr T ts names attrs evs" "i < length evs" "j < length (evs ! i)"
  shows "read_event T (ca_data ts) (ca_data names) (ca_data attrs) s s s j = evs ! i ! j \<or>
    s \<noteq> sum_list (take i (map length evs))"
proof (cases "s = sum_list (take i (map length evs))")
  case True
  note c = concat_slice [OF assms(2,3)]
  obtain d m where dm: "ca_data ts = Some d" "map (tc_time T) d = map te_Timestamp (concat evs)"
    "ca_data attrs = Some m" "map_repr m (map te_Attrs (concat evs))"
    "col_repr (ca_data names) (map te_Name (concat evs))"
    using assms(1) by (auto simp: events_repr_def split: option.splits)
  have n: "s + j < length (concat evs)" "concat evs ! (s + j) = evs ! i ! j" using c True by auto
  have "length d = length (concat evs)" using dm(2) by (metis length_map)
  then have "s + j < length d" "tc_time T (d ! (s + j)) = te_Timestamp (evs ! i ! j)"
    using n nth_map [of "s + j" d "tc_time T"] dm(2) by simp_all
  moreover have "ColStrRow (ca_data names) (int (s + j)) = te_Name (evs ! i ! j)"
    using col_repr_get [OF dm(5), of "s + j"] n by (simp del: of_nat_add)
  moreover have "MapRowKV [] (Some m) (int (s + j)) = te_Attrs (evs ! i ! j)"
    using map_repr_get [OF dm(4), of "s + j" "[]"] n by (simp del: of_nat_add)
  ultimately show ?thesis using dm by (simp add: read_event_def del: of_nat_add)
qed simp

lemma ReadEvents_repr:
  assumes "events_repr T ts names attrs evs" "i < length evs"
  shows "ReadEvents T dst ts names attrs (int i) = dst @ evs ! i"
proof -
  let ?s = "sum_list (take i (map length evs))"
  have off: "ca_offsets ts = sums 0 (map length evs)" "ca_offsets names = sums 0 (map length evs)"
    "ca_offsets attrs = sums 0 (map length evs)"
    using assms(1) by (simp_all add: events_repr_def)
  have r: "arrayRange (sums 0 (map length evs)) (int i) = (?s, ?s + length (evs ! i))"
    using arrayRange_sums [of i "map length evs"] assms(2) by simp
  have "map (read_event T (ca_data ts) (ca_data names) (ca_data attrs) ?s ?s ?s) [0..<length (evs ! i)] = evs ! i"
    using read_event_repr [OF assms, of _ ?s] by (intro nth_equalityI) auto
  then show ?thesis by (simp add: ReadEvents_def off r Let_def)
qed

lemma ReadLinks_repr:
  assumes "links_repr tids sids sts attrs ls" "i < length ls"
  shows "ReadLinks dst tids sids sts attrs (int i) = dst @ ls ! i"
proof -
  let ?s = "sum_list (take i (map length ls))"
  have off: "ca_offsets tids = sums 0 (map length ls)" "ca_offsets sids = sums 0 (map length ls)"
    "ca_offsets sts = sums 0 (map length ls)" "ca_offsets attrs = sums 0 (map length ls)"
    using assms(1) by (simp_all add: links_repr_def)
  obtain m where m: "ca_data attrs = Some m" "map_repr m (map tl_Attrs (concat ls))"
    using assms(1) by (auto simp: links_repr_def split: option.splits)
  have cols: "col_repr (ca_data tids) (map tl_TraceID (concat ls))"
    "col_repr (ca_data sids) (map tl_SpanID (concat ls))" "col_repr (ca_data sts) (map tl_TraceState (concat ls))"
    using assms(1) by (auto simp: links_repr_def)
  have r: "arrayRange (sums 0 (map length ls)) (int i) = (?s, ?s + length (ls ! i))"
    using arrayRange_sums [of i "map length ls"] assms(2) by simp
  have "\<lparr>tl_TraceID = ColStrRow (ca_data tids) (int (?s + j)), tl_SpanID = ColStrRow (ca_data sids) (int (?s + j)),
      tl_TraceState = ColStrRow (ca_data sts) (int (?s + j)), tl_Attrs = MapRowKV [] (ca_data attrs) (int (?s + j))\<rparr> =
      ls ! i ! j" if j: "j < length (ls ! i)" for j
  proof -
    have n: "?s + j < length (concat ls)" "concat ls ! (?s + j) = ls ! i ! j"
      using concat_slice [OF assms(2) j] by auto
    show ?thesis
      using col_repr_get [OF cols(1), of "?s + j"] col_repr_get [OF cols(2), of "?s + j"]
        col_repr_get [OF cols(3), of "?s + j"] map_repr_get [OF m(2), of "?s + j" "[]"] n m(1)
      by (simp del: of_nat_add)
  qed
  then have "map (\<lambda>j. \<lparr>tl_TraceID = ColStrRow (ca_data tids) (int (?s + j)),
      tl_SpanID = ColStrRow (ca_data sids) (int (?s + j)), tl_TraceState = ColStrRow (ca_data sts) (int (?s + j)),
      tl_Attrs = MapRowKV [] (ca_data attrs) (int (?s + j))\<rparr>) [0..<length (ls ! i)] = ls ! i"
    by (intro nth_equalityI) simp_all
  then show ?thesis by (simp add: ReadLinks_def off r Let_def del: of_nat_add)
qed

lemma map_nth_eq: "map f xs = map g ys \<Longrightarrow> i < length ys \<Longrightarrow> i < length xs \<and> f (xs ! i) = g (ys ! i)"
  by (metis length_map nth_map)

lemma ReadLogRow_ok:
  assumes "logs_repr T c rows" and "i < length rows"
  shows "logs_Rows c = length rows \<and> ReadLogRow T c i = Some (rows ! i)"
proof -
  note r = assms(1) [unfolded logs_repr_def]
  have ts: "i < length (lg_timestamp c)" "tc_time T (lg_timestamp c ! i) = lr_Timestamp (rows ! i)"
    using map_nth_eq [of "tc_time T" "lg_timestamp c" lr_Timestamp rows i] r assms(2) by auto
  have n: "length (lg_timestamp c) = length rows" using r by (metis length_map)
  have s: "i < length (cs_pos (lg_traceID c)) \<and> cs_get (lg_traceID c) i = lr_TraceID (rows ! i)"
    "i < length (cs_pos (lg_spanID c)) \<and> cs_get (lg_spanID c) i = lr_SpanID (rows ! i)"
    "i < length (cs_pos (lg_body c)) \<and> cs_get (lg_body c) i = lr_Body (rows ! i)"
    "i < length (cs_pos (lg_scopeName c)) \<and> cs_get (lg_scopeName c) i = lr_ScopeName (rows ! i)"
    using r assms(2) str_repr_get [of _ _ i] by fastforce+
  have l: "RowString (lg_severityText c) i = lr_SeverityText (rows ! i)"
    "RowString (lg_serviceName c) i = lr_ServiceName (rows ! i)"
    "RowString (lg_resourceSchemaUrl c) i = lr_ResourceSchemaURL (rows ! i)"
    "RowString (lg_scopeSchemaUrl c) i = lr_ScopeSchemaURL (rows ! i)"
    "RowString (lg_scopeVersion c) i = lr_ScopeVersion (rows ! i)"
    using r assms(2) lc_repr_get [of _ _ i] by fastforce+
  have m: "MapRowKV [] (Some (lg_resourceAttributes c)) (int i) = lr_ResourceAttrs (rows ! i)"
    "MapRowKV [] (Some (lg_scopeAttributes c)) (int i) = lr_ScopeAttrs (rows ! i)"
    "MapRowKV [] (Some (lg_logAttributes c)) (int i) = lr_LogAttrs (rows ! i)"
    using r assms(2) map_repr_get [of _ _ i "[]"] by fastforce+
  have f: "i < length (lg_traceFlags c)" "lg_traceFlags c ! i = lr_TraceFlags (rows ! i)"
    "i < length (lg_severityNumber c)" "lg_severityNumber c ! i = lr_SeverityNumber (rows ! i)"
    using r assms(2) by simp_all
  show ?thesis using ts n s l m f by (simp add: ReadLogRow_def logs_Rows_def)
qed

text \<open>
  Reading a block gives back its rows: if the columns of a logs block store the given rows,
  every row index is readable without a panic and yields exactly that row, attributes of the
  right row in their stored order included.
\<close>

theorem ReadLogRow_rows:
  assumes "logs_repr T c rows" and "i < length rows"
  shows "logs_Rows c = length rows \<and> ReadLogRow T c i = Some (rows ! i)"
  by (rule ReadLogRow_ok [OF assms])

lemma ReadTraceRow_ok:
  assumes "traces_repr T c rows" and "i < length rows"
  shows "traces_Rows c = length rows \<and> ReadTraceRow T c i = Some (rows ! i)"
proof -
  note r = assms(1) [unfolded traces_repr_def]
  have ts: "i < length (tc_timestamp c)" "tc_time T (tc_timestamp c ! i) = tr_Timestamp (rows ! i)"
    using map_nth_eq [of "tc_time T" "tc_timestamp c" tr_Timestamp rows i] r assms(2) by auto
  have n: "length (tc_timestamp c) = length rows" using r by (metis length_map)
  have s: "i < length (cs_pos (tc_traceID c)) \<and> cs_get (tc_traceID c) i = tr_TraceID (rows ! i)"
    "i < length (cs_pos (tc_spanID c)) \<and> cs_get (tc_spanID c) i = tr_SpanID (rows ! i)"
    "i < length (cs_pos (tc_parentSpanID c)) \<and> cs_get (tc_parentSpanID c) i = tr_ParentSpanID (rows ! i)"
    "i < length (cs_pos (tc_traceState c)) \<and> cs_get (tc_traceState c) i = tr_TraceState (rows ! i)"
    "i < length (cs_pos (tc_scopeName c)) \<and> cs_get (tc_scopeName c) i = tr_ScopeName (rows ! i)"
    "i < length (cs_pos (tc_scopeVersion c)) \<and> cs_get (tc_scopeVersion c) i = tr_ScopeVersion (rows ! i)"
    "i < length (cs_pos (tc_statusMessage c)) \<and> cs_get (tc_statusMessage c) i = tr_StatusMessage (rows ! i)"
    using r assms(2) str_repr_get [of _ _ i] by fastforce+
  have l: "RowString (tc_spanName c) i = tr_SpanName (rows ! i)"
    "RowString (tc_spanKind c) i = tr_SpanKind (rows ! i)"
    "RowString (tc_serviceName c) i = tr_ServiceName (rows ! i)"
    "RowString (tc_statusCode c) i = tr_StatusCode (rows ! i)"
    using r assms(2) lc_repr_get [of _ _ i] by fastforce+
  have m: "MapRowKV [] (Some (tc_resourceAttributes c)) (int i) = tr_ResourceAttrs (rows ! i)"
    "MapRowKV [] (Some (tc_spanAttributes c)) (int i) = tr_SpanAttrs (rows ! i)"
    using r assms(2) map_repr_get [of _ _ i "[]"] by fastforce+
  have f: "i < length (tc_duration c)" "tc_duration c ! i = tr_Duration (rows ! i)"
    using r assms(2) by simp_all
  have e: "ReadEvents T [] (tc_eventsTimestamps c) (tc_eventsNames c) (tc_eventsAttributes c) (int i) =
      tr_Events (rows ! i)"
    using r assms(2) ReadEvents_repr [of T _ _ _ "map tr_Events rows" i "[]"] by simp
  have k: "ReadLinks [] (tc_linksTraceIDs c) (tc_linksSpanIDs c) (tc_linksTraceStates c) (tc_linksAttributes c) (int i) =
      tr_Links (rows ! i)"
    using r assms(2) ReadLinks_repr [of _ _ _ _ "map tr_Links rows" i "[]"] by simp
  show ?thesis using ts n s l m f e k by (simp add: ReadTraceRow_def traces_Rows_def)
qed

text \<open>
  C25. The same for a traces block: every row is readable and comes back exactly, with the events
  and links that belong to it.
\<close>

theorem ReadTraceRow_rows:
  assumes "traces_repr T c rows" and "i < length rows"
  shows "traces_Rows c = length rows \<and> ReadTraceRow T c i = Some (rows ! i)"
  by (rule ReadTraceRow_ok [OF assms])

section \<open>Updates: what they do to the rows\<close>

definition mutate_log :: "nat \<Rightarrow> log_row \<Rightarrow> log_row" where
  "mutate_log k r = r\<lparr>lr_TraceID := shift_row k (lr_TraceID r), lr_SpanID := shift_row k (lr_SpanID r)\<rparr>"

definition mutate_trace :: "nat \<Rightarrow> trace_row \<Rightarrow> trace_row" where
  "mutate_trace k r =
     r\<lparr>tr_TraceID := shift_row k (tr_TraceID r), tr_SpanID := shift_row k (tr_SpanID r),
       tr_ParentSpanID := shift_row k (tr_ParentSpanID r)\<rparr>"

lemma shiftHexByte_0: "shiftHexByte c 0 = c"
proof -
  have "char_of (of_char c :: nat) = c" by simp
  then show ?thesis by (auto simp: shiftHexByte_def hex_digit_def Let_def)
qed

lemma shift_rev_0: "shift_rev m 0 s = s"
  by (induction m "0::nat" s rule: shift_rev.induct) (simp_all add: shiftHexByte_0)

lemma shift_row_0 [simp]: "shift_row 0 s = s"
  by (simp add: shift_row_def shift_rev_0)

lemma shift_str_repr: "str_repr c xs \<Longrightarrow> str_repr (shiftColStrLastByte k c) (map (shift_row k) xs)"
proof -
  assume r: "str_repr c xs"
  then have "pos_ok (cs_pos c) 0 (length (cs_buf c))" by (simp add: str_repr_def cs_ok_def)
  from shift_fold [OF this, of k] r show ?thesis
    by (auto simp: str_repr_def cs_rows_def shiftColStrLastByte_def cs_ok_def)
qed

lemma logs_MutateIDs_repr:
  "logs_repr T c rows \<Longrightarrow> logs_repr T (logs_MutateIDs k c) (map (mutate_log k) rows)"
  using shift_str_repr [of "lg_traceID c" "map lr_TraceID rows" k]
    shift_str_repr [of "lg_spanID c" "map lr_SpanID rows" k]
  by (cases "k = 0") (simp_all add: logs_repr_def logs_MutateIDs_def mutate_log_def comp_def)

lemma traces_MutateIDs_repr:
  "traces_repr T c rows \<Longrightarrow> traces_repr T (traces_MutateIDs k c) (map (mutate_trace k) rows)"
  using shift_str_repr [of "tc_traceID c" "map tr_TraceID rows" k]
    shift_str_repr [of "tc_spanID c" "map tr_SpanID rows" k]
    shift_str_repr [of "tc_parentSpanID c" "map tr_ParentSpanID rows" k]
  by (cases "k = 0") (simp_all add: traces_repr_def traces_MutateIDs_def mutate_trace_def comp_def)

definition retime_log :: "time_codec \<Rightarrow> (nat \<Rightarrow> int \<Rightarrow> int) \<Rightarrow> nat \<Rightarrow> log_row \<Rightarrow> log_row" where
  "retime_log T f i r = r\<lparr>lr_Timestamp := tc_time T (tc_dt64 T (f i (lr_Timestamp r)))\<rparr>"

definition retime_trace :: "time_codec \<Rightarrow> (nat \<Rightarrow> int \<Rightarrow> int) \<Rightarrow> nat \<Rightarrow> trace_row \<Rightarrow> trace_row" where
  "retime_trace T f i r = r\<lparr>tr_Timestamp := tc_time T (tc_dt64 T (f i (tr_Timestamp r)))\<rparr>"

definition mapi :: "(nat \<Rightarrow> 'a \<Rightarrow> 'b) \<Rightarrow> 'a list \<Rightarrow> 'b list" where
  "mapi f xs = map (\<lambda>i. f i (xs ! i)) [0..<length xs]"

lemma mapi_map: "map g (mapi f xs) = mapi (\<lambda>i x. g (f i x)) xs"
  by (simp add: mapi_def)

lemma mapi_keep: "(\<And>i r. g (f i r) = g r) \<Longrightarrow> map g (mapi f xs) = map g xs"
  by (intro nth_equalityI) (simp_all add: mapi_def)

lemma mapi_length [simp]: "length (mapi f xs) = length xs"
  by (simp add: mapi_def)

lemma mapi_cong: "map h xs = map g ys \<Longrightarrow> mapi (\<lambda>i x. f i (h x)) xs = mapi (\<lambda>i y. f i (g y)) ys"
proof (rule nth_equalityI)
  assume e: "map h xs = map g ys"
  then have n: "length xs = length ys" by (metis length_map)
  then show "length (mapi (\<lambda>i x. f i (h x)) xs) = length (mapi (\<lambda>i y. f i (g y)) ys)" by simp
  fix i assume "i < length (mapi (\<lambda>i x. f i (h x)) xs)"
  then show "mapi (\<lambda>i x. f i (h x)) xs ! i = mapi (\<lambda>i y. f i (g y)) ys ! i"
    using map_nth_eq [OF e, of i] n by (simp add: mapi_def)
qed

lemma log_times_repr:
  assumes "logs_repr T c rows"
  shows "\<exists>c'. log_times T f c = Some c' \<and> logs_repr T c' (mapi (retime_log T f) rows)"
proof -
  have ts: "map (tc_time T) (lg_timestamp c) = map lr_Timestamp rows" using assms by (simp add: logs_repr_def)
  then have n: "length (lg_timestamp c) = length rows" by (metis length_map)
  let ?new = "mapi (\<lambda>i x. f i (tc_time T x)) (lg_timestamp c)"
  let ?c = "c\<lparr>lg_timestamp := map (tc_dt64 T) ?new\<rparr>"
  let ?d = "?c\<lparr>lg_timestampTime := map (tc_dt T) ?new @ drop (length rows) (lg_timestampTime c)\<rparr>"
  have e: "log_times T f c = Some (if lg_hasTimestampTime c then ?d else ?c)"
    using assms n by (auto simp: log_times_def logs_repr_def mapi_def Let_def)
  have new: "map (tc_time T) (map (tc_dt64 T) ?new) = map lr_Timestamp (mapi (retime_log T f) rows)"
    using mapi_cong [OF ts, of "\<lambda>i x. tc_time T (tc_dt64 T (f i x))"]
    by (simp add: mapi_map retime_log_def comp_def)
  have "logs_repr T (if lg_hasTimestampTime c then ?d else ?c) (mapi (retime_log T f) rows)"
    using assms new n unfolding logs_repr_def
    by (simp add: mapi_keep retime_log_def)
  with e show ?thesis by blast
qed

lemma trace_times_repr:
  assumes "traces_repr T c rows"
  shows "traces_repr T (trace_times T f c) (mapi (retime_trace T f) rows)"
proof -
  have ts: "map (tc_time T) (tc_timestamp c) = map tr_Timestamp rows" using assms by (simp add: traces_repr_def)
  have new: "map (tc_time T) (tc_timestamp (trace_times T f c)) = map tr_Timestamp (mapi (retime_trace T f) rows)"
    using mapi_cong [OF ts, of "\<lambda>i x. tc_time T (tc_dt64 T (f i x))"]
    by (simp add: trace_times_def mapi_def retime_trace_def comp_def)
  show ?thesis
    using assms new unfolding traces_repr_def
    by (simp add: mapi_keep retime_trace_def trace_times_def)
qed

text \<open>
  Replaying a logs block: shifting its timestamps and then mutating its identifiers never
  panics on a well-formed block, and changes exactly the timestamp of every row, to the shifted
  time as the column can store it, and the two identifiers; every other field of every row is
  as it was on disk.
\<close>

theorem logs_replay_refines:
  assumes "logs_repr T c rows"
  shows "\<exists>c'. logs_ShiftTimestamp T s c = Some c' \<and>
    logs_repr T (logs_MutateIDs k c') (map (mutate_log k) (mapi (retime_log T (\<lambda>i. ShiftTimestamp s)) rows))"
  using log_times_repr [OF assms, of "\<lambda>i. ShiftTimestamp s"] logs_MutateIDs_repr
  unfolding logs_ShiftTimestamp_def by blast

text \<open>
  C26. Replaying a traces block: the rows are retimed and their identifiers mutated, nothing else,
  and the parent relation between the spans of the block survives: with hexadecimal identifiers
  a span names another as its parent after the mutation exactly when it did before.
\<close>

theorem traces_replay_refines:
  assumes "traces_repr T c rows"
    and "\<forall>r \<in> set rows. (\<forall>h \<in> set (tr_SpanID r). is_hex h) \<and> (\<forall>h \<in> set (tr_ParentSpanID r). is_hex h)"
  shows "traces_repr T (traces_MutateIDs k (traces_ShiftTimestamp T s c))
      (map (mutate_trace k) (mapi (retime_trace T (\<lambda>i. ShiftTimestamp s)) rows)) \<and>
    (\<forall>r \<in> set rows. \<forall>q \<in> set rows.
      tr_ParentSpanID (mutate_trace k r) = tr_SpanID (mutate_trace k q) \<longleftrightarrow> tr_ParentSpanID r = tr_SpanID q)"
proof (intro conjI ballI)
  show "traces_repr T (traces_MutateIDs k (traces_ShiftTimestamp T s c))
      (map (mutate_trace k) (mapi (retime_trace T (\<lambda>i. ShiftTimestamp s)) rows))"
    unfolding traces_ShiftTimestamp_def by (intro traces_MutateIDs_repr trace_times_repr assms(1))
  fix r q assume m: "r \<in> set rows" "q \<in> set rows"
  have h: "\<forall>h \<in> set (rev (tr_ParentSpanID r)). is_hex h" "\<forall>h \<in> set (rev (tr_SpanID q)). is_hex h"
    using assms(2) m by auto
  show "tr_ParentSpanID (mutate_trace k r) = tr_SpanID (mutate_trace k q) \<longleftrightarrow> tr_ParentSpanID r = tr_SpanID q"
    using shift_rev_inj [OF h, of idShiftBytes k] by (auto simp: mutate_trace_def shift_row_def)
qed

section \<open>A stored block\<close>

definition unit_codec :: time_codec where
  "unit_codec = \<lparr>tc_time = (\<lambda>x. x), tc_dt64 = (\<lambda>x. x), tc_dt = (\<lambda>x. nat (x div 1000000000))\<rparr>"

definition two_rows :: "string \<Rightarrow> string \<Rightarrow> colStr" where
  "two_rows a b = \<lparr>cs_buf = a @ b, cs_pos = [(0, length a), (length a, length a + length b)]\<rparr>"

definition dict8 :: "nat list \<Rightarrow> string list \<Rightarrow> lowCard" where
  "dict8 keys vals =
     \<lparr>lc_key = KeyUInt8, lc_keys8 = keys, lc_keys16 = [], lc_keys32 = [], lc_keys64 = [],
      lc_index = Some \<lparr>cs_buf = concat vals,
        cs_pos = zip (0 # sums 0 (map length vals)) (sums 0 (map length vals))\<rparr>\<rparr>"

definition no_map :: "nat \<Rightarrow> colMap" where
  "no_map n = \<lparr>cm_offsets = replicate n 0, cm_keys = LCStdCol [], cm_vals = LCStdCol []\<rparr>"

definition sample_log :: "string \<Rightarrow> string \<Rightarrow> log_row" where
  "sample_log trace body =
     \<lparr>lr_Timestamp = 100, lr_TraceID = trace, lr_SpanID = ''0a0b'', lr_TraceFlags = 1, lr_SeverityText = ''INFO'',
      lr_SeverityNumber = 9, lr_ServiceName = ''api'', lr_Body = body, lr_ResourceSchemaURL = ''api'',
      lr_ResourceAttrs = [(''k'', body)], lr_ScopeSchemaURL = ''api'', lr_ScopeName = ''lib'',
      lr_ScopeVersion = ''INFO'', lr_ScopeAttrs = [], lr_LogAttrs = []\<rparr>"

definition sample_logs :: logs_cols where
  "sample_logs =
     \<lparr>lg_timestamp = [100, 100], lg_timestampTime = [0, 0], lg_traceID = two_rows ''00ff'' ''10ff'',
      lg_spanID = two_rows ''0a0b'' ''0a0b'', lg_traceFlags = [1, 1], lg_severityText = dict8 [1, 1] [''api'', ''INFO''],
      lg_severityNumber = [9, 9], lg_serviceName = dict8 [0, 0] [''api'', ''INFO''], lg_body = two_rows ''x'' ''yy'',
      lg_resourceSchemaUrl = dict8 [0, 0] [''api''],
      lg_resourceAttributes = \<lparr>cm_offsets = [1, 2], cm_keys = LCStdCol [''k'', ''k''], cm_vals = StrCol (two_rows ''x'' ''yy'')\<rparr>,
      lg_scopeSchemaUrl = dict8 [0, 0] [''api''], lg_scopeName = two_rows ''lib'' ''lib'',
      lg_scopeVersion = dict8 [1, 1] [''api'', ''INFO''], lg_scopeAttributes = no_map 2, lg_logAttributes = no_map 2,
      lg_hasTimestampTime = True\<rparr>"

lemma sample_logs_repr: "logs_repr unit_codec sample_logs [sample_log ''00ff'' ''x'', sample_log ''10ff'' ''yy'']"
  by (simp add: logs_repr_def sample_logs_def sample_log_def unit_codec_def str_repr_def lc_repr_def map_repr_def
      cs_ok_def cs_rows_def cs_row_def two_rows_def dict8_def lc_keys_def cs_get_def no_map_def numeral_2_eq_2)

theorem ReadLogRow_rows_witness:
  "ReadLogRow unit_codec sample_logs 1 = Some (sample_log ''10ff'' ''yy'')"
  using ReadLogRow_rows [OF sample_logs_repr, of 1] by simp

theorem logs_replay_refines_witness:
  "\<exists>c'. logs_ShiftTimestamp unit_codec \<lparr>sn_programStart = 1000, sn_datasetStart = 40, sn_loopOffset = 300\<rparr> sample_logs = Some c'"
  using logs_replay_refines [OF sample_logs_repr, of "\<lparr>sn_programStart = 1000, sn_datasetStart = 40, sn_loopOffset = 300\<rparr>" 0]
  by blast

definition sample_span :: "string \<Rightarrow> string \<Rightarrow> trace_row" where
  "sample_span self parent =
     \<lparr>tr_Timestamp = 7, tr_TraceID = ''00ff'', tr_SpanID = self, tr_ParentSpanID = parent, tr_TraceState = '''',
      tr_SpanName = ''api'', tr_SpanKind = ''api'', tr_ServiceName = ''api'', tr_ResourceAttrs = [], tr_ScopeName = ''lib'',
      tr_ScopeVersion = ''1'', tr_SpanAttrs = [], tr_Duration = 5, tr_StatusCode = ''api'', tr_StatusMessage = '''',
      tr_Events = [\<lparr>te_Timestamp = 8, te_Name = self, te_Attrs = []\<rparr>], tr_Links = []\<rparr>"

definition sample_traces :: traces_cols where
  "sample_traces =
     \<lparr>tc_timestamp = [7, 7], tc_traceID = two_rows ''00ff'' ''00ff'', tc_spanID = two_rows ''0001'' ''0002'',
      tc_parentSpanID = two_rows '''' ''0001'', tc_traceState = two_rows '''' '''', tc_spanName = dict8 [0, 0] [''api''],
      tc_spanKind = dict8 [0, 0] [''api''], tc_serviceName = dict8 [0, 0] [''api''], tc_resourceAttributes = no_map 2,
      tc_scopeName = two_rows ''lib'' ''lib'', tc_scopeVersion = two_rows ''1'' ''1'', tc_spanAttributes = no_map 2,
      tc_duration = [5, 5], tc_statusCode = dict8 [0, 0] [''api''], tc_statusMessage = two_rows '''' '''',
      tc_eventsTimestamps = \<lparr>ca_offsets = [1, 2], ca_data = Some [8, 8]\<rparr>,
      tc_eventsNames = \<lparr>ca_offsets = [1, 2], ca_data = Some (LCStdCol [''0001'', ''0002''])\<rparr>,
      tc_eventsAttributes = \<lparr>ca_offsets = [1, 2], ca_data = Some (no_map 2)\<rparr>,
      tc_linksTraceIDs = \<lparr>ca_offsets = [0, 0], ca_data = Some (LCStdCol [])\<rparr>,
      tc_linksSpanIDs = \<lparr>ca_offsets = [0, 0], ca_data = Some (LCStdCol [])\<rparr>,
      tc_linksTraceStates = \<lparr>ca_offsets = [0, 0], ca_data = Some (LCStdCol [])\<rparr>,
      tc_linksAttributes = \<lparr>ca_offsets = [0, 0], ca_data = Some (no_map 0)\<rparr>\<rparr>"

lemma sample_traces_repr: "traces_repr unit_codec sample_traces [sample_span ''0001'' '''', sample_span ''0002'' ''0001'']"
  by (simp add: traces_repr_def sample_traces_def sample_span_def unit_codec_def str_repr_def lc_repr_def map_repr_def
      cs_ok_def cs_rows_def cs_row_def two_rows_def dict8_def lc_keys_def cs_get_def no_map_def events_repr_def
      links_repr_def numeral_2_eq_2)

theorem ReadTraceRow_rows_witness:
  "ReadTraceRow unit_codec sample_traces 1 = Some (sample_span ''0002'' ''0001'')"
  using ReadTraceRow_rows [OF sample_traces_repr, of 1] by simp

theorem traces_replay_refines_witness:
  "tr_ParentSpanID (mutate_trace 3 (sample_span ''0002'' ''0001'')) = tr_SpanID (mutate_trace 3 (sample_span ''0001'' ''''))"
proof -
  have "\<forall>r \<in> set [sample_span ''0001'' '''', sample_span ''0002'' ''0001''].
      (\<forall>h \<in> set (tr_SpanID r). is_hex h) \<and> (\<forall>h \<in> set (tr_ParentSpanID r). is_hex h)"
    by (simp add: sample_span_def is_hex_def)
  from traces_replay_refines [OF sample_traces_repr this, of 3] show ?thesis by (simp add: sample_span_def)
qed

end
