(* ===== verification/BlockPool.thy ===== *)
theory BlockPool
  imports Prelude
begin

text \<open>
  The block pools (\<open>internal/block/pool.go\<close>, \<open>internal/block/block.go\<close>) and what their clients
  rely on. A block is a pointer, a number here; \<open>blockCreateFunc\<close> hands out the next unused one.
  A channel is the list of its elements, oldest first; a call that would wait on it forever
  in the state it is made in is \<open>None\<close>.

  The locale \<open>pool\<close> is the interface \<open>block.Pool\<close>: its laws say that an acquired block is held by
  nobody else and that a held block can always be released. The pipeline of a source, the queue
  and a sink is its client.
\<close>

section \<open>The recycling pool\<close>

record blockPool =
  bp_chan :: "nat list"
  bp_cap :: nat
  bp_retireAfter :: int
  bp_totalRetired :: int
  bp_uses :: "nat \<Rightarrow> int option"
  bp_next :: nat

definition NewBlockPool :: "nat \<Rightarrow> int \<Rightarrow> blockPool" where
  "NewBlockPool poolSize retireAfter =
     \<lparr>bp_chan = [0..<poolSize], bp_cap = poolSize, bp_retireAfter = retireAfter, bp_totalRetired = 0,
      bp_uses = (\<lambda>b. if b < poolSize then Some 0 else None), bp_next = poolSize\<rparr>"

definition bp_Stats :: "blockPool \<Rightarrow> nat \<times> nat" where
  "bp_Stats p = (length (bp_chan p), bp_cap p)"

definition bp_Acquire :: "blockPool \<Rightarrow> (nat \<times> blockPool) option" where
  "bp_Acquire p =
     (case bp_chan p of [] \<Rightarrow> None | b # rest \<Rightarrow> Some (b, p\<lparr>bp_chan := rest\<rparr>))"

text \<open>
  The first part of \<open>Release\<close>: count the use, and replace a block that has reached the limit. A
  missing key of a Go map reads as 0.
\<close>

definition bp_retire :: "nat \<Rightarrow> blockPool \<Rightarrow> nat \<times> blockPool" where
  "bp_retire b p =
     (if 0 < bp_retireAfter p
      then let u = (case bp_uses p b of None \<Rightarrow> 0 | Some n \<Rightarrow> n) + 1;
               p = p\<lparr>bp_uses := (bp_uses p)(b \<mapsto> u)\<rparr>
           in if bp_retireAfter p \<le> u
              then let fresh = bp_next p in
                (fresh, p\<lparr>bp_uses := ((bp_uses p)(b := None))(fresh \<mapsto> 0),
                          bp_totalRetired := bp_totalRetired p + 1, bp_next := Suc fresh\<rparr>)
              else (b, p)
      else (b, p))"

definition bp_Release :: "nat \<Rightarrow> blockPool \<Rightarrow> blockPool option" where
  "bp_Release b p =
     (case bp_retire b p of (b', p') \<Rightarrow>
        if length (bp_chan p') < bp_cap p' then Some (p'\<lparr>bp_chan := bp_chan p' @ [b']\<rparr>) else None)"

definition bp_Destroy :: "blockPool \<Rightarrow> blockPool option" where
  "bp_Destroy p =
     (if bp_cap p \<le> length (bp_chan p) then Some (p\<lparr>bp_chan := drop (bp_cap p) (bp_chan p)\<rparr>) else None)"

section \<open>The allocating pool\<close>

record garbagePool =
  gp_count :: int
  gp_next :: nat

definition NewGarbageBlockPool :: garbagePool where
  "NewGarbageBlockPool = \<lparr>gp_count = 0, gp_next = 0\<rparr>"

definition gp_Stats :: "garbagePool \<Rightarrow> int \<times> int" where
  "gp_Stats p = (gp_count p, 0)"

definition gp_Acquire :: "garbagePool \<Rightarrow> (nat \<times> garbagePool) option" where
  "gp_Acquire p = Some (gp_next p, p\<lparr>gp_count := i64 (gp_count p + 1), gp_next := Suc (gp_next p)\<rparr>)"

definition gp_Release :: "nat \<Rightarrow> garbagePool \<Rightarrow> garbagePool option" where
  "gp_Release b p = Some (p\<lparr>gp_count := i64 (gp_count p - 1)\<rparr>)"

section \<open>The pipeline: a client of a pool\<close>

text \<open>
  Workers (numbered) hold blocks; the source sends them into the bounded queue, the sink receives
  them; a block can also be dropped on the floor (\<open>pi_lost\<close>), as the select statements of the
  workers do on cancellation.
\<close>

record 's pipe =
  pi_pool :: 's
  pi_held :: "(nat \<times> nat) list"
  pi_queue :: "nat list"
  pi_lost :: "nat list"

inductive pipe_step ::
  "('s \<Rightarrow> (nat \<times> 's) option) \<Rightarrow> (nat \<Rightarrow> 's \<Rightarrow> 's option) \<Rightarrow> nat \<Rightarrow> 's pipe \<Rightarrow> 's pipe \<Rightarrow> bool"
  for acquire release cap
where
  pipe_acquire: "acquire (pi_pool c) = Some (b, s) \<Longrightarrow>
    pipe_step acquire release cap c (c\<lparr>pi_pool := s, pi_held := (w, b) # pi_held c\<rparr>)"
| pipe_release: "(w, b) \<in> set (pi_held c) \<Longrightarrow> release b (pi_pool c) = Some s \<Longrightarrow>
    pipe_step acquire release cap c (c\<lparr>pi_pool := s, pi_held := remove1 (w, b) (pi_held c)\<rparr>)"
| pipe_send: "(w, b) \<in> set (pi_held c) \<Longrightarrow> length (pi_queue c) < cap \<Longrightarrow>
    pipe_step acquire release cap c
      (c\<lparr>pi_held := remove1 (w, b) (pi_held c), pi_queue := pi_queue c @ [b]\<rparr>)"
| pipe_receive: "pi_queue c = b # q \<Longrightarrow>
    pipe_step acquire release cap c (c\<lparr>pi_held := (w, b) # pi_held c, pi_queue := q\<rparr>)"
| pipe_lose: "(w, b) \<in> set (pi_held c) \<Longrightarrow>
    pipe_step acquire release cap c
      (c\<lparr>pi_held := remove1 (w, b) (pi_held c), pi_lost := b # pi_lost c\<rparr>)"

inductive_cases pipe_stepE: "pipe_step acquire release cap c c'"

definition out_blocks :: "'s pipe \<Rightarrow> nat list" where
  "out_blocks c = map snd (pi_held c) @ pi_queue c @ pi_lost c"

lemma held_remove:
  "(w, b) \<in> set H \<Longrightarrow> mset (map snd H) = add_mset b (mset (map snd (remove1 (w, b) H)))"
  by (induction H) auto

lemma out_remove:
  assumes "(w, b) \<in> set (pi_held c)"
  shows "mset (out_blocks c) = add_mset b (mset (map snd (remove1 (w, b) (pi_held c)) @ pi_queue c @ pi_lost c))"
  using held_remove [OF assms] by (simp add: out_blocks_def)

locale pool =
  fixes acquire :: "'s \<Rightarrow> (nat \<times> 's) option"
    and release :: "nat \<Rightarrow> 's \<Rightarrow> 's option"
    and inv :: "nat multiset \<Rightarrow> 's \<Rightarrow> bool"
  assumes acquire_inv: "inv out s \<Longrightarrow> acquire s = Some (b, s') \<Longrightarrow> inv (add_mset b out) s'"
    and release_inv: "inv (add_mset b out) s \<Longrightarrow> \<exists>s'. release b s = Some s' \<and> inv out s'"
    and inv_once: "inv out s \<Longrightarrow> count out b \<le> 1"
begin

lemma step_inv:
  assumes "pipe_step acquire release cap c c'" and i: "inv (mset (out_blocks c)) (pi_pool c)"
  shows "inv (mset (out_blocks c')) (pi_pool c')"
  using assms(1)
proof (cases rule: pipe_step.cases)
  case pipe_acquire
  then show ?thesis using acquire_inv [OF i] by (simp add: out_blocks_def)
next
  case (pipe_release w b s)
  from release_inv [OF i [unfolded out_remove [OF pipe_release(2)]]] pipe_release(3)
  show ?thesis using pipe_release(1) by (simp add: out_blocks_def)
next
  case (pipe_send w b)
  then have "mset (out_blocks c') = mset (out_blocks c)"
    using out_remove [OF pipe_send(2)] by (simp add: out_blocks_def)
  then show ?thesis using pipe_send(1) i by simp
next
  case pipe_receive
  then have "mset (out_blocks c') = mset (out_blocks c)" by (simp add: out_blocks_def)
  then show ?thesis using pipe_receive(1) i by simp
next
  case (pipe_lose w b)
  then have "mset (out_blocks c') = mset (out_blocks c)"
    using out_remove [OF pipe_lose(2)] by (simp add: out_blocks_def)
  then show ?thesis using pipe_lose(1) i by simp
qed

lemma run_inv:
  assumes "(pipe_step acquire release cap)\<^sup>*\<^sup>* c c'" and "inv (mset (out_blocks c)) (pi_pool c)"
  shows "inv (mset (out_blocks c')) (pi_pool c')"
  using assms by (induction rule: rtranclp_induct) (blast intro: step_inv)+

text \<open>No block has two owners, and whoever holds one can give it back.\<close>

lemma run_exclusive:
  assumes "(pipe_step acquire release cap)\<^sup>*\<^sup>* c c'" and "inv (mset (out_blocks c)) (pi_pool c)"
  shows "distinct (out_blocks c') \<and> (\<forall>(w, b) \<in> set (pi_held c'). release b (pi_pool c') \<noteq> None)"
proof
  have i: "inv (mset (out_blocks c')) (pi_pool c')" by (rule run_inv [OF assms])
  show "distinct (out_blocks c')"
    using inv_once [OF i] unfolding distinct_count_atmost_1
    by (auto simp: count_eq_zero_iff le_Suc_eq)
  have r: "release b (pi_pool c') \<noteq> None" if "(w, b) \<in> set (pi_held c')" for w b
    using release_inv [OF i [unfolded out_remove [OF that]]] by auto
  then show "\<forall>(w, b) \<in> set (pi_held c'). release b (pi_pool c') \<noteq> None" by blast
qed

end

section \<open>The invariants of the two pools\<close>

definition once :: "nat multiset \<Rightarrow> nat \<Rightarrow> bool" where
  "once M n \<longleftrightarrow> (\<forall>b. count M b \<le> (if b < n then 1 else 0))"

lemma once_le: "once M n \<Longrightarrow> count M b \<le> 1"
  unfolding once_def by (metis le_zero_eq nat_le_linear)

lemma once_tail: "once (add_mset b M) n \<Longrightarrow> once M n"
  unfolding once_def count_add_mset by (metis Suc_leD)

lemma once_left: "once (M + N) n \<Longrightarrow> once M n"
  unfolding once_def by (metis count_union le_add1 order_trans)

lemma once_fresh: "once M n \<Longrightarrow> once (add_mset n M) (Suc n)"
  unfolding once_def
proof (rule allI)
  fix b assume a: "\<forall>b. count M b \<le> (if b < n then 1 else 0)"
  show "count (add_mset n M) b \<le> (if b < Suc n then 1 else 0)"
    using a [rule_format, of b] a [rule_format, of n] by (cases "b < n") (auto simp: less_Suc_eq)
qed

lemma once_upt: "once (mset [0..<n]) n"
  by (induction n) (simp_all add: once_fresh, simp add: once_def)

definition bp_inv :: "nat multiset \<Rightarrow> blockPool \<Rightarrow> bool" where
  "bp_inv out p \<longleftrightarrow>
     size out + length (bp_chan p) = bp_cap p \<and> once (out + mset (bp_chan p)) (bp_next p)"

definition gp_inv :: "nat multiset \<Rightarrow> garbagePool \<Rightarrow> bool" where
  "gp_inv out p \<longleftrightarrow> once out (gp_next p)"

lemma bp_retire_cases:
  "bp_retire b p = (b', p') \<Longrightarrow>
   bp_chan p' = bp_chan p \<and> bp_cap p' = bp_cap p \<and>
   (b' = b \<and> bp_next p' = bp_next p \<or> b' = bp_next p \<and> bp_next p' = Suc (bp_next p))"
  by (auto simp: bp_retire_def Let_def split: if_splits)

lemma bp_release_inv:
  assumes "bp_inv (add_mset b out) p"
  shows "\<exists>p'. bp_Release b p = Some p' \<and> bp_inv out p'"
proof -
  obtain b' p' where r: "bp_retire b p = (b', p')" by fastforce
  note c = bp_retire_cases [OF r]
  have s: "Suc (size out) + length (bp_chan p) = bp_cap p" using assms by (simp add: bp_inv_def)
  have o1: "once (add_mset b (out + mset (bp_chan p))) (bp_next p)" using assms by (simp add: bp_inv_def)
  have "once (add_mset b' (out + mset (bp_chan p))) (bp_next p')"
    using c o1 once_fresh [OF once_tail [OF o1]] by auto
  then have "bp_inv out (p'\<lparr>bp_chan := bp_chan p' @ [b']\<rparr>)" using s c by (simp add: bp_inv_def)
  then show ?thesis using r s c by (simp add: bp_Release_def)
qed

interpretation block_pool: pool bp_Acquire bp_Release bp_inv
proof unfold_locales
  fix out p b p'
  assume "bp_inv out p" "bp_Acquire p = Some (b, p')"
  then show "bp_inv (add_mset b out) p'"
    by (auto simp: bp_Acquire_def bp_inv_def split: list.splits)
next
  fix b out p
  assume "bp_inv (add_mset b out) p"
  then show "\<exists>p'. bp_Release b p = Some p' \<and> bp_inv out p'" by (rule bp_release_inv)
next
  fix out p b
  assume "bp_inv out p"
  then show "count out b \<le> 1" unfolding bp_inv_def by (blast intro: once_le once_left)
qed

interpretation garbage_pool: pool gp_Acquire gp_Release gp_inv
proof unfold_locales
  fix out p b p'
  assume "gp_inv out p" "gp_Acquire p = Some (b, p')"
  then show "gp_inv (add_mset b out) p'"
    by (auto simp: gp_Acquire_def gp_inv_def intro: once_fresh)
next
  fix b out p
  assume "gp_inv (add_mset b out) p"
  then have "once out (gp_next p)" unfolding gp_inv_def by (rule once_tail)
  then show "\<exists>p'. gp_Release b p = Some p' \<and> gp_inv out p'"
    by (simp add: gp_Release_def gp_inv_def)
next
  fix out p b
  assume "gp_inv out p"
  then show "count out b \<le> 1" unfolding gp_inv_def by (rule once_le)
qed

lemma bp_inv_new: "bp_inv {#} (NewBlockPool n r)"
  using once_upt [of n] by (simp add: bp_inv_def NewBlockPool_def)

text \<open>The pipeline of a new pool.\<close>

definition pipe_start :: "nat \<Rightarrow> int \<Rightarrow> blockPool pipe" where
  "pipe_start n r = \<lparr>pi_pool = NewBlockPool n r, pi_held = [], pi_queue = [], pi_lost = []\<rparr>"

lemma reach_inv:
  assumes "(pipe_step bp_Acquire bp_Release cap)\<^sup>*\<^sup>* (pipe_start n r) c"
  shows "bp_inv (mset (out_blocks c)) (pi_pool c)"
  using block_pool.run_inv [OF assms] bp_inv_new [of n r] by (simp add: pipe_start_def out_blocks_def)

text \<open>A source that acquires a block and sends it.\<close>

lemma acquire_send:
  assumes "acquire p = Some (b, p')" and "length q < cap"
  shows "(pipe_step acquire release cap)\<^sup>*\<^sup>* \<lparr>pi_pool = p, pi_held = [], pi_queue = q, pi_lost = L\<rparr>
    \<lparr>pi_pool = p', pi_held = [], pi_queue = q @ [b], pi_lost = L\<rparr>"
proof -
  let ?c = "\<lparr>pi_pool = p, pi_held = [], pi_queue = q, pi_lost = L\<rparr>"
  let ?d = "\<lparr>pi_pool = p', pi_held = [(0, b)], pi_queue = q, pi_lost = L\<rparr>"
  have "pipe_step acquire release cap ?c ?d" using pipe_acquire [of acquire ?c b p' release cap 0] assms(1) by simp
  moreover have "pipe_step acquire release cap ?d \<lparr>pi_pool = p', pi_held = [], pi_queue = q @ [b], pi_lost = L\<rparr>"
    using pipe_send [of 0 b ?d cap acquire release] assms(2) by simp
  ultimately show ?thesis by (meson converse_rtranclp_into_rtranclp rtranclp.rtrancl_refl)
qed

lemma reach_sent:
  "k \<le> n \<Longrightarrow> k \<le> cap \<Longrightarrow>
   (pipe_step bp_Acquire bp_Release cap)\<^sup>*\<^sup>* (pipe_start n r)
     \<lparr>pi_pool = (NewBlockPool n r)\<lparr>bp_chan := [k..<n]\<rparr>, pi_held = [], pi_queue = [0..<k], pi_lost = []\<rparr>"
proof (induction k)
  case 0
  then show ?case by (simp add: pipe_start_def NewBlockPool_def)
next
  case (Suc k)
  have "bp_Acquire ((NewBlockPool n r)\<lparr>bp_chan := [k..<n]\<rparr>) = Some (k, (NewBlockPool n r)\<lparr>bp_chan := [Suc k..<n]\<rparr>)"
    using Suc.prems by (simp add: bp_Acquire_def upt_conv_Cons)
  from acquire_send [of bp_Acquire, OF this, of "[0..<k]" cap bp_Release "[]"] Suc show ?case by simp
qed

section \<open>Use counts\<close>

text \<open>
  The sum of the counts of the tracked blocks and the retirements account for every release.
\<close>

definition bp_live :: "blockPool \<Rightarrow> int" where
  "bp_live p = (\<Sum>b < bp_next p. case bp_uses p b of None \<Rightarrow> 0 | Some n \<Rightarrow> n)"

definition uses_inv :: "blockPool \<Rightarrow> bool" where
  "uses_inv p \<longleftrightarrow> (\<forall>b n. bp_uses p b = Some n \<longrightarrow> b < bp_next p \<and> 0 \<le> n \<and> n < bp_retireAfter p)"

lemma live_upd:
  fixes b n :: nat
  assumes "b < n"
  shows "(\<Sum>x < n. case (m(b := v)) x of None \<Rightarrow> 0 | Some (k::int) \<Rightarrow> k) =
    (\<Sum>x < n. case m x of None \<Rightarrow> 0 | Some k \<Rightarrow> k) - (case m b of None \<Rightarrow> 0 | Some k \<Rightarrow> k) +
    (case v of None \<Rightarrow> 0 | Some k \<Rightarrow> k)"
proof -
  have "(\<Sum>x < n. f x) = f b + (\<Sum>x \<in> {..<n} - {b}. f x)" for f :: "nat \<Rightarrow> int"
    using assms by (simp add: sum.remove)
  from this [of "\<lambda>x. case (m(b := v)) x of None \<Rightarrow> 0 | Some k \<Rightarrow> k"]
    this [of "\<lambda>x. case m x of None \<Rightarrow> 0 | Some k \<Rightarrow> k"]
  show ?thesis by simp
qed

lemma retire_counts:
  assumes "bp_retire b p = (b', p')" and "b < bp_next p" and "0 < bp_retireAfter p" and "uses_inv p"
  shows "uses_inv p' \<and> bp_retireAfter p' = bp_retireAfter p \<and>
    bp_live p' + bp_retireAfter p' * bp_totalRetired p' = bp_live p + bp_retireAfter p * bp_totalRetired p + 1"
proof -
  define u where "u = (case bp_uses p b of None \<Rightarrow> 0 | Some n \<Rightarrow> n)"
  have u0: "0 \<le> u" "u < bp_retireAfter p"
    using assms(3,4) by (auto simp: u_def uses_inv_def split: option.splits)
  have fresh: "bp_uses p (bp_next p) = None" using assms(4) by (cases "bp_uses p (bp_next p)") (auto simp: uses_inv_def)
  show ?thesis
  proof (cases "bp_retireAfter p \<le> u + 1")
    case True
    then have e: "u + 1 = bp_retireAfter p" using u0 by linarith
    have p': "p' = p\<lparr>bp_uses := ((bp_uses p)(b := None))(bp_next p \<mapsto> 0),
        bp_totalRetired := bp_totalRetired p + 1, bp_next := Suc (bp_next p)\<rparr>"
      using assms(1,3) True by (auto simp: bp_retire_def Let_def u_def [symmetric])
    have "bp_live p' = bp_live p - u"
      using live_upd [OF assms(2), of "bp_uses p" None] assms(2)
      by (simp add: p' bp_live_def u_def [symmetric] lessThan_Suc sum.insert_if cong: sum.cong_simp)
    moreover have "uses_inv p'" using assms(3,4) by (auto simp: p' uses_inv_def less_Suc_eq split: if_splits)
    ultimately show ?thesis using e by (simp add: p' algebra_simps)
  next
    case False
    have p': "p' = p\<lparr>bp_uses := (bp_uses p)(b \<mapsto> u + 1)\<rparr>"
      using assms(1,3) False by (auto simp add: bp_retire_def Let_def u_def [symmetric])
    have "bp_live p' = bp_live p + 1"
      using live_upd [OF assms(2), of "bp_uses p" "Some (u + 1)"]
      by (simp add: p' bp_live_def u_def [symmetric])
    moreover have "uses_inv p'" using assms(2,4) u0 False by (auto simp: p' uses_inv_def split: if_splits)
    ultimately show ?thesis by (simp add: p' algebra_simps)
  qed
qed

section \<open>What the pools guarantee\<close>

datatype pool_call = CallAcquire | CallRelease nat

text \<open>A sequence of calls; \<open>None\<close> when one of them blocks.\<close>

fun bp_calls :: "pool_call list \<Rightarrow> blockPool \<Rightarrow> blockPool option" where
  "bp_calls [] p = Some p"
| "bp_calls (CallAcquire # cs) p = (case bp_Acquire p of None \<Rightarrow> None | Some (_, p) \<Rightarrow> bp_calls cs p)"
| "bp_calls (CallRelease b # cs) p = (case bp_Release b p of None \<Rightarrow> None | Some p \<Rightarrow> bp_calls cs p)"

definition releases :: "pool_call list \<Rightarrow> nat" where
  "releases cs = length (filter (\<lambda>c. case c of CallRelease _ \<Rightarrow> True | _ \<Rightarrow> False) cs)"

text \<open>Clients only release blocks the program has allocated.\<close>

fun known :: "pool_call list \<Rightarrow> blockPool \<Rightarrow> bool" where
  "known [] p \<longleftrightarrow> True"
| "known (CallAcquire # cs) p \<longleftrightarrow> (case bp_Acquire p of None \<Rightarrow> True | Some (_, p) \<Rightarrow> known cs p)"
| "known (CallRelease b # cs) p \<longleftrightarrow>
     b < bp_next p \<and> (case bp_Release b p of None \<Rightarrow> True | Some p \<Rightarrow> known cs p)"

lemma calls_counts:
  assumes "bp_calls cs p = Some p'" and "known cs p" and "uses_inv p" and "0 < bp_retireAfter p"
  shows "uses_inv p' \<and> bp_retireAfter p' = bp_retireAfter p \<and>
    bp_live p' + bp_retireAfter p * bp_totalRetired p' =
    bp_live p + bp_retireAfter p * bp_totalRetired p + int (releases cs)"
  using assms
proof (induction cs p rule: bp_calls.induct)
  case (1 p)
  then show ?case by (simp add: releases_def)
next
  case (2 cs p)
  obtain b q where a: "bp_Acquire p = Some (b, q)" using "2.prems"(1) by (auto split: option.splits)
  then have q: "uses_inv q = uses_inv p" "bp_live q = bp_live p" "bp_retireAfter q = bp_retireAfter p"
    "bp_totalRetired q = bp_totalRetired p"
    by (auto simp: bp_Acquire_def uses_inv_def bp_live_def split: list.splits)
  show ?case using "2.IH" [OF a refl] "2.prems" a by (simp add: q releases_def)
next
  case (3 b cs p)
  obtain b' r where r: "bp_retire b p = (b', r)" by fastforce
  obtain q where a: "bp_Release b p = Some q" using "3.prems"(1) by (auto split: option.splits)
  then have q: "uses_inv q = uses_inv r" "bp_live q = bp_live r" "bp_retireAfter q = bp_retireAfter r"
    "bp_totalRetired q = bp_totalRetired r"
    using r by (auto simp: bp_Release_def uses_inv_def bp_live_def split: if_splits)
  have k: "b < bp_next p" "known cs q" using "3.prems"(2) a by simp_all
  note c = retire_counts [OF r k(1) "3.prems"(4,3)]
  have "bp_calls cs q = Some p'" using "3.prems"(1) a by simp
  from "3.IH" [OF a this k(2)] c "3.prems"(4)
  have "uses_inv p'" "bp_retireAfter p' = bp_retireAfter p"
    "bp_live p' + bp_retireAfter p * bp_totalRetired p' =
      bp_live r + bp_retireAfter p * bp_totalRetired r + int (releases cs)"
    "bp_live r + bp_retireAfter p * bp_totalRetired r =
      bp_live p + bp_retireAfter p * bp_totalRetired p + 1"
    by (auto simp: q)
  moreover have "releases (CallRelease b # cs) = Suc (releases cs)" by (simp add: releases_def)
  ultimately show ?case by simp
qed

lemma bp_new_counts: "uses_inv (NewBlockPool n r) \<longleftrightarrow> 0 < r \<or> n = 0" "bp_live (NewBlockPool n r) = 0"
  by (auto simp: NewBlockPool_def uses_inv_def bp_live_def)

lemma pool_run_inv:
  assumes "(pipe_step bp_Acquire bp_Release cap)\<^sup>*\<^sup>*
    \<lparr>pi_pool = NewBlockPool n r, pi_held = [], pi_queue = [], pi_lost = []\<rparr> c"
  shows "bp_inv (mset (out_blocks c)) (pi_pool c)"
  using block_pool.run_inv [OF assms] bp_inv_new [of n r] by (simp add: out_blocks_def)

lemma calls_keep_cap: "(pipe_step bp_Acquire bp_Release cap)\<^sup>*\<^sup>* c c' \<Longrightarrow> bp_cap (pi_pool c') = bp_cap (pi_pool c)"
proof (induction rule: rtranclp_induct)
  case base
  then show ?case ..
next
  case (step x y)
  from step.hyps(2) have "bp_cap (pi_pool y) = bp_cap (pi_pool x)"
  proof (cases rule: pipe_step.cases)
    case (pipe_release w b s)
    obtain b' q where r: "bp_retire b (pi_pool x) = (b', q)" by fastforce
    show ?thesis using pipe_release bp_retire_cases [OF r] r by (auto simp: bp_Release_def split: if_splits)
  qed (auto simp: bp_Acquire_def split: list.splits)
  with step.IH show ?case by simp
qed

text \<open>
  C12. Block conservation: from a new pool of n blocks, however the workers acquire, pass on,
  receive and release blocks, no block is in two places at once, the blocks in the pool, held,
  queued and lost are always exactly n (retired blocks are replaced one for one), and a worker
  that holds a block can always release it: the send into the pool's channel never blocks.
\<close>

theorem blockPool_conserved:
  assumes "(pipe_step bp_Acquire bp_Release cap)\<^sup>*\<^sup>*
    \<lparr>pi_pool = NewBlockPool n r, pi_held = [], pi_queue = [], pi_lost = []\<rparr> c"
  shows "distinct (bp_chan (pi_pool c) @ out_blocks c) \<and>
    length (bp_chan (pi_pool c)) + length (pi_held c) + length (pi_queue c) + length (pi_lost c) = n \<and>
    (\<forall>(w, b) \<in> set (pi_held c). bp_Release b (pi_pool c) \<noteq> None)"
proof (intro conjI)
  have i: "bp_inv (mset (out_blocks c)) (pi_pool c)" by (rule pool_run_inv [OF assms])
  have o: "once (mset (bp_chan (pi_pool c) @ out_blocks c)) (bp_next (pi_pool c))"
    using i by (simp add: bp_inv_def add.commute)
  show "distinct (bp_chan (pi_pool c) @ out_blocks c)"
    using once_le [OF o] unfolding distinct_count_atmost_1 by (auto simp: count_eq_zero_iff le_Suc_eq)
  have "bp_cap (pi_pool c) = n" using calls_keep_cap [OF assms] by (simp add: NewBlockPool_def)
  then show "length (bp_chan (pi_pool c)) + length (pi_held c) + length (pi_queue c) + length (pi_lost c) = n"
    using i by (simp add: bp_inv_def out_blocks_def)
  show "\<forall>(w, b) \<in> set (pi_held c). bp_Release b (pi_pool c) \<noteq> None"
    using block_pool.run_exclusive [OF assms] bp_inv_new [of n r] by (simp add: out_blocks_def)
qed

text \<open>
  Retirement: with retirement on, after any sequence of calls the releases are accounted for
  exactly, the uses counted on the tracked blocks plus \<open>retireAfter\<close> for every retired block, and
  no tracked block has been released \<open>retireAfter\<close> times.
\<close>

theorem blockPool_retirement:
  assumes "0 < r" and "bp_calls cs (NewBlockPool n r) = Some p" and "known cs (NewBlockPool n r)"
  shows "bp_live p + r * bp_totalRetired p = int (releases cs) \<and>
    (\<forall>b u. bp_uses p b = Some u \<longrightarrow> 0 \<le> u \<and> u < r)"
proof -
  have n: "bp_retireAfter (NewBlockPool n r) = r" "bp_totalRetired (NewBlockPool n r) = 0"
    by (simp_all add: NewBlockPool_def)
  have "uses_inv p \<and> bp_retireAfter p = r \<and> bp_live p + r * bp_totalRetired p = int (releases cs)"
    using calls_counts [OF assms(2,3)] assms(1) by (simp add: bp_new_counts n)
  then show ?thesis by (auto simp: uses_inv_def)
qed

text \<open>
  The allocating pool gives the same guarantee to its clients: exclusive ownership, and a
  release that never blocks.
\<close>

theorem garbagePool_exclusive:
  assumes "(pipe_step gp_Acquire gp_Release cap)\<^sup>*\<^sup>*
    \<lparr>pi_pool = NewGarbageBlockPool, pi_held = [], pi_queue = [], pi_lost = []\<rparr> c"
  shows "distinct (out_blocks c) \<and> (\<forall>(w, b) \<in> set (pi_held c). gp_Release b (pi_pool c) \<noteq> None)"
  using garbage_pool.run_exclusive [OF assms]
  by (simp add: gp_inv_def once_def NewGarbageBlockPool_def out_blocks_def)

text \<open>Instances.\<close>

definition sample_pipe :: "blockPool pipe" where
  "sample_pipe = \<lparr>pi_pool = NewBlockPool 2 3, pi_held = [], pi_queue = [], pi_lost = []\<rparr>"

theorem blockPool_conserved_witness:
  "\<exists>c. (pipe_step bp_Acquire bp_Release 4)\<^sup>*\<^sup>* sample_pipe c \<and> length (pi_held c) = 1 \<and>
    length (bp_chan (pi_pool c)) + length (pi_held c) + length (pi_queue c) + length (pi_lost c) = 2"
proof -
  have a: "bp_Acquire (NewBlockPool 2 3) = Some (0, (NewBlockPool 2 3)\<lparr>bp_chan := [1]\<rparr>)"
    by (simp add: bp_Acquire_def NewBlockPool_def upt_rec)
  let ?c = "sample_pipe\<lparr>pi_pool := (NewBlockPool 2 3)\<lparr>bp_chan := [1]\<rparr>, pi_held := [(7, 0)]\<rparr>"
  have s: "pipe_step bp_Acquire bp_Release 4 sample_pipe ?c"
    using pipe_acquire [of bp_Acquire sample_pipe 0 _ bp_Release 4 7] a by (simp add: sample_pipe_def)
  then have "(pipe_step bp_Acquire bp_Release 4)\<^sup>*\<^sup>* sample_pipe ?c" by blast
  then show ?thesis using blockPool_conserved [of 4 2 3 ?c] by (auto simp: sample_pipe_def intro!: exI [of _ ?c])
qed

theorem blockPool_retirement_witness:
  "\<exists>p. bp_calls [CallAcquire, CallRelease 0, CallAcquire, CallRelease 1, CallAcquire, CallRelease 0]
      (NewBlockPool 2 2) = Some p \<and> bp_totalRetired p = 1 \<and> bp_live p + 2 * 1 = 3"
proof -
  let ?cs = "[CallAcquire, CallRelease 0, CallAcquire, CallRelease 1, CallAcquire, CallRelease 0]"
  obtain p where p: "bp_calls ?cs (NewBlockPool 2 2) = Some p" and t: "bp_totalRetired p = 1"
    by (simp add: bp_Acquire_def bp_Release_def bp_retire_def Let_def NewBlockPool_def upt_rec)
  have "known ?cs (NewBlockPool 2 2)"
    by (simp add: bp_Acquire_def bp_Release_def bp_retire_def Let_def NewBlockPool_def upt_rec)
  from blockPool_retirement [OF _ p this] p t show ?thesis by (simp add: releases_def)
qed

theorem garbagePool_exclusive_witness:
  "distinct (out_blocks \<lparr>pi_pool = \<lparr>gp_count = 1, gp_next = 1\<rparr>, pi_held = [(1, 0)], pi_queue = [], pi_lost = []\<rparr>)"
proof -
  let ?start = "\<lparr>pi_pool = NewGarbageBlockPool, pi_held = [], pi_queue = [], pi_lost = []\<rparr>"
  let ?c = "\<lparr>pi_pool = \<lparr>gp_count = 1, gp_next = 1\<rparr>, pi_held = [(1, 0)], pi_queue = [], pi_lost = []\<rparr>"
  have "gp_Acquire (pi_pool ?start) = Some (0, \<lparr>gp_count = 1, gp_next = 1\<rparr>)"
    by (simp add: gp_Acquire_def NewGarbageBlockPool_def in_i64_def)
  from pipe_acquire [of gp_Acquire ?start 0 _ gp_Release 4 1, OF this] have "pipe_step gp_Acquire gp_Release 4 ?start ?c"
    by simp
  then have "(pipe_step gp_Acquire gp_Release 4)\<^sup>*\<^sup>* ?start ?c" by blast
  from garbagePool_exclusive [OF this] show ?thesis by simp
qed

end
