(* ===== verification/Disk.thy ===== *)
theory Disk
  imports GoStrings OtelRow BlockPool "HOL-Library.List_Lexorder" "HOL-Library.Char_ord"
begin

text \<open>
  The disk source (\<open>internal/disk\<close>): configuration, the list of data files, the order in which
  the scheduler hands them out, the division of the speed limit, and the worker that decodes
  blocks, shifts and mutates them, and passes them on. What decoding delivers is a parameter; a
  call that waits for ever is \<open>Blocked\<close>, one that panics \<open>Panicked\<close>.
\<close>

datatype 'a outcome = Returned 'a | Blocked | Panicked

section \<open>Configuration\<close>

record disk_config =
  dk_Enabled :: bool
  dk_Threads :: int
  dk_LogsPath :: string
  dk_TracesPath :: string
  dk_ProfilesPath :: string
  dk_ReuseBlocks :: bool
  dk_BlockRetirementUses :: int
  dk_Loop :: bool
  dk_MiBytesPerSecondLimit :: u64
  dk_ShiftTimestamp :: string
  dk_HasTimestampTime :: bool

definition ShiftTimestampNone :: string where "ShiftTimestampNone = ''none''"
definition ShiftTimestampDate :: string where "ShiftTimestampDate = ''date''"
definition ShiftTimestampAll :: string where "ShiftTimestampAll = ''all''"
definition ShiftTimestampNow :: string where "ShiftTimestampNow = ''now''"
definition ShiftTimestampMin :: string where "ShiftTimestampMin = ''minute''"

lemmas shift_modes = ShiftTimestampNone_def ShiftTimestampDate_def ShiftTimestampAll_def ShiftTimestampNow_def
  ShiftTimestampMin_def

datatype disk_err = ErrThreads | ErrLimit | ErrShift

definition disk_Validate :: "disk_config \<Rightarrow> disk_err option \<times> disk_config" where
  "disk_Validate c =
     (if \<not> dk_Enabled c then (None, c)
      else if dk_Threads c < 1 then (Some ErrThreads, c)
      else if dk_MiBytesPerSecondLimit c < 1 then (Some ErrLimit, c)
      else if dk_ShiftTimestamp c = '''' then (None, c\<lparr>dk_ShiftTimestamp := ShiftTimestampNone\<rparr>)
      else if dk_ShiftTimestamp c \<noteq> ShiftTimestampNone \<and> dk_ShiftTimestamp c \<noteq> ShiftTimestampDate \<and>
              dk_ShiftTimestamp c \<noteq> ShiftTimestampAll \<and> dk_ShiftTimestamp c \<noteq> ShiftTimestampNow \<and>
              dk_ShiftTimestamp c \<noteq> ShiftTimestampMin
      then (Some ErrShift, c)
      else (None, c))"

section \<open>Data files\<close>

record dataFile =
  df_Index :: nat
  df_Path :: string
  df_Compressed :: bool
  df_LoopIndex :: nat

text \<open>What \<open>filepath.Walk\<close> visits: path, is it a directory, did visiting it fail.\<close>

definition compressed_name :: "string \<Rightarrow> bool" where
  "compressed_name p = hasSuffix p ''.native.zst''"

definition native_name :: "string \<Rightarrow> bool" where
  "native_name p = hasSuffix p ''.native''"

fun walk_files :: "(string \<times> bool \<times> bool) list \<Rightarrow> dataFile list \<Rightarrow> dataFile list option" where
  "walk_files [] files = Some files"
| "walk_files ((path, isDir, err) # ws) files =
     (if err then None
      else if isDir then walk_files ws files
      else if compressed_name path
      then walk_files ws (files @ [\<lparr>df_Index = 0, df_Path = path, df_Compressed = True, df_LoopIndex = 0\<rparr>])
      else if native_name path
      then walk_files ws (files @ [\<lparr>df_Index = 0, df_Path = path, df_Compressed = False, df_LoopIndex = 0\<rparr>])
      else walk_files ws files)"

definition number_files :: "dataFile list \<Rightarrow> dataFile list" where
  "number_files files = map (\<lambda>i. (files ! i)\<lparr>df_Index := i\<rparr>) [0..<length files]"

definition getDataFiles :: "(string \<times> bool \<times> bool) list \<Rightarrow> dataFile list option" where
  "getDataFiles ws = map_option (\<lambda>files. number_files (sort_key df_Path files)) (walk_files ws [])"

section \<open>The order of the files\<close>

text \<open>The sends of \<open>generateFiles\<close>: state (loop, position), the next file and the next state.\<close>

definition next_file :: "dataFile list \<Rightarrow> bool \<Rightarrow> nat \<times> nat \<Rightarrow> (dataFile \<times> nat \<times> nat) option" where
  "next_file files loop s =
     (case s of (i, j) \<Rightarrow>
        if j < length files then Some ((files ! j)\<lparr>df_LoopIndex := i\<rparr>, i, Suc j)
        else if \<not> loop \<or> files = [] then None
        else Some ((files ! 0)\<lparr>df_LoopIndex := Suc i\<rparr>, Suc i, 1))"

fun sent_files :: "dataFile list \<Rightarrow> bool \<Rightarrow> nat \<Rightarrow> nat \<times> nat \<Rightarrow> dataFile list" where
  "sent_files files loop 0 s = []"
| "sent_files files loop (Suc n) s =
     (case next_file files loop s of None \<Rightarrow> [] | Some (f, s') \<Rightarrow> f # sent_files files loop n s')"

section \<open>The speed limit\<close>

text \<open>The workers map: the speed limit of each registered worker.\<close>

type_synonym workers = "(nat \<times> u64) list"

definition total_limit :: "disk_config \<Rightarrow> u64" where
  "total_limit c = dk_MiBytesPerSecondLimit c * 1024 * 1024"

definition rebalanceSpeed :: "disk_config \<Rightarrow> workers \<Rightarrow> workers" where
  "rebalanceSpeed c ws =
     (if length ws = 0 then ws
      else map (\<lambda>(i, _). (i, total_limit c div of_nat (length ws))) ws)"

definition getNewWorkerSpeed :: "disk_config \<Rightarrow> workers \<Rightarrow> u64" where
  "getNewWorkerSpeed c ws = total_limit c div of_nat (length ws + 1)"

definition disk_register :: "nat \<Rightarrow> u64 \<Rightarrow> workers \<Rightarrow> workers" where
  "disk_register ident w ws = (ident, w) # filter (\<lambda>(i, _). i \<noteq> ident) ws"

definition disk_unregister :: "nat \<Rightarrow> workers \<Rightarrow> workers" where
  "disk_unregister ident ws = filter (\<lambda>(i, _). i \<noteq> ident) ws"

text \<open>The start and the end of a file in \<open>runWorker\<close>.\<close>

definition file_start :: "disk_config \<Rightarrow> nat \<Rightarrow> workers \<Rightarrow> workers" where
  "file_start c ident ws = rebalanceSpeed c (disk_register ident (getNewWorkerSpeed c ws) ws)"

definition file_end :: "disk_config \<Rightarrow> nat \<Rightarrow> workers \<Rightarrow> workers" where
  "file_end c ident ws = rebalanceSpeed c (disk_unregister ident ws)"

section \<open>The worker\<close>

text \<open>
  The operations of a \<open>SharedColumns\<close> on the contents of a block; a timestamp update that panics is
  \<open>None\<close>.
\<close>

record 'c block_ops =
  bo_first :: "'c \<Rightarrow> int"
  bo_last :: "'c \<Rightarrow> int"
  bo_rows :: "'c \<Rightarrow> nat"
  bo_date :: "'c \<Rightarrow> 'c option"
  bo_shift :: "snapshot \<Rightarrow> 'c \<Rightarrow> 'c option"
  bo_now :: "'c \<Rightarrow> 'c option"
  bo_minute :: "'c \<Rightarrow> 'c option"
  bo_mutate :: "nat \<Rightarrow> 'c \<Rightarrow> 'c"

datatype 'c decoded = DecEOF | DecErr | DecBlock 'c

record ('p, 'c) disk_state =
  ds_pool :: 'p
  ds_data :: "nat \<Rightarrow> 'c"
  ds_queue :: "nat list"
  ds_lost :: "nat list"
  ds_keeper :: keeper
  ds_timestampSet :: bool
  ds_rows :: nat

datatype dec_result = GotEOF | GotErr | GotBlock

definition report_times :: "'c block_ops \<Rightarrow> nat \<Rightarrow> nat \<Rightarrow> 'c \<Rightarrow> ('p, 'c) disk_state \<Rightarrow> ('p, 'c) disk_state outcome" where
  "report_times B index loopIndex c s =
     (if loopIndex = 0
      then (case (if index = 0 \<and> \<not> ds_timestampSet s
                  then map_option (\<lambda>k. (k, True)) (ReportEarliestTimestamp (bo_first B c) (ds_keeper s))
                  else Some (ds_keeper s, ds_timestampSet s)) of
              None \<Rightarrow> Panicked
            | Some (k, tset) \<Rightarrow>
                Returned (s\<lparr>ds_keeper := ReportLatestTimestamp (bo_last B c) k, ds_timestampSet := tset\<rparr>))
      else Returned s)"

definition shift_contents :: "'c block_ops \<Rightarrow> string \<Rightarrow> nat \<Rightarrow> keeper \<Rightarrow> 'c \<Rightarrow> 'c outcome" where
  "shift_contents B mode loopIndex k c =
     (if mode = ShiftTimestampDate then (case bo_date B c of None \<Rightarrow> Panicked | Some c \<Rightarrow> Returned c)
      else if mode = ShiftTimestampAll
      then (case Snapshot (int loopIndex) k of
              None \<Rightarrow> Blocked
            | Some sn \<Rightarrow> (case bo_shift B sn c of None \<Rightarrow> Panicked | Some c \<Rightarrow> Returned c))
      else if mode = ShiftTimestampNow then (case bo_now B c of None \<Rightarrow> Panicked | Some c \<Rightarrow> Returned c)
      else if mode = ShiftTimestampMin then (case bo_minute B c of None \<Rightarrow> Panicked | Some c \<Rightarrow> Returned c)
      else Returned c)"

definition release_block ::
  "(nat \<Rightarrow> 'p \<Rightarrow> 'p option) \<Rightarrow> nat \<Rightarrow> dec_result \<Rightarrow> ('p, 'c) disk_state \<Rightarrow> (dec_result \<times> ('p, 'c) disk_state) outcome" where
  "release_block release b r s =
     (case release b (ds_pool s) of None \<Rightarrow> Blocked | Some p \<Rightarrow> Returned (r, s\<lparr>ds_pool := p\<rparr>))"

text \<open>
  After decoding: the final select takes the cancellation branch when \<open>cancel\<close>, otherwise it
  waits for room in the queue of capacity \<open>cap\<close>.
\<close>

definition pass_on ::
  "(nat \<Rightarrow> 'p \<Rightarrow> 'p option) \<Rightarrow> bool \<Rightarrow> bool \<Rightarrow> nat \<Rightarrow> nat \<Rightarrow> ('p, 'c) disk_state \<Rightarrow> (dec_result \<times> ('p, 'c) disk_state) outcome" where
  "pass_on release passthrough cancel cap b s =
     (if passthrough then release_block release b GotBlock s
      else if cancel then Returned (GotBlock, s\<lparr>ds_lost := b # ds_lost s\<rparr>)
      else if length (ds_queue s) < cap then Returned (GotBlock, s\<lparr>ds_queue := ds_queue s @ [b]\<rparr>)
      else Blocked)"

definition decoded_block ::
  "(nat \<Rightarrow> 'p \<Rightarrow> 'p option) \<Rightarrow> 'c block_ops \<Rightarrow> string \<Rightarrow> dataFile \<Rightarrow> bool \<Rightarrow> bool \<Rightarrow> nat \<Rightarrow> nat \<Rightarrow> 'c \<Rightarrow> ('p, 'c) disk_state \<Rightarrow>
   (dec_result \<times> ('p, 'c) disk_state) outcome" where
  "decoded_block release B mode f passthrough cancel cap b c s =
     (case report_times B (df_Index f) (df_LoopIndex f) c s of
        Blocked \<Rightarrow> Blocked
      | Panicked \<Rightarrow> Panicked
      | Returned s \<Rightarrow>
          (case shift_contents B mode (df_LoopIndex f) (ds_keeper s) c of
             Blocked \<Rightarrow> Blocked
           | Panicked \<Rightarrow> Panicked
           | Returned c \<Rightarrow>
               let c = bo_mutate B (df_LoopIndex f) c
               in pass_on release passthrough cancel cap b
                    (s\<lparr>ds_data := (ds_data s)(b := c), ds_rows := ds_rows s + bo_rows B c\<rparr>)))"

definition decodeBlock ::
  "('p \<Rightarrow> (nat \<times> 'p) option) \<Rightarrow> (nat \<Rightarrow> 'p \<Rightarrow> 'p option) \<Rightarrow>
   'c block_ops \<Rightarrow> string \<Rightarrow> dataFile \<Rightarrow> bool \<Rightarrow> bool \<Rightarrow> nat \<Rightarrow> 'c decoded \<Rightarrow> ('p, 'c) disk_state \<Rightarrow>
   (dec_result \<times> ('p, 'c) disk_state) outcome" where
  "decodeBlock acquire release B mode f passthrough cancel cap d s =
     (case acquire (ds_pool s) of
        None \<Rightarrow> Blocked
      | Some (b, p) \<Rightarrow>
          let s = s\<lparr>ds_pool := p\<rparr>
          in case d of
               DecEOF \<Rightarrow> release_block release b GotEOF s
             | DecErr \<Rightarrow> release_block release b GotErr s
             | DecBlock c \<Rightarrow> decoded_block release B mode f passthrough cancel cap b c s)"

text \<open>\<open>Run\<close> on what the decoder delivers: each element is (context done before, cancel, decoded).\<close>

datatype run_end = RunStopped | RunFinished | RunReadFailed | RunGoesOn

fun disk_run ::
  "('p \<Rightarrow> (nat \<times> 'p) option) \<Rightarrow> (nat \<Rightarrow> 'p \<Rightarrow> 'p option) \<Rightarrow>
   'c block_ops \<Rightarrow> string \<Rightarrow> dataFile \<Rightarrow> bool \<Rightarrow> nat \<Rightarrow> (bool \<times> bool \<times> 'c decoded) list \<Rightarrow> ('p, 'c) disk_state \<Rightarrow>
   (run_end \<times> ('p, 'c) disk_state) outcome" where
  "disk_run acquire release B mode f passthrough cap [] s = Returned (RunGoesOn, s)"
| "disk_run acquire release B mode f passthrough cap ((stop, cancel, d) # ds) s =
     (if stop then Returned (RunStopped, s)
      else case decodeBlock acquire release B mode f passthrough cancel cap d s of
             Blocked \<Rightarrow> Blocked
           | Panicked \<Rightarrow> Panicked
           | Returned (GotEOF, s) \<Rightarrow> Returned (RunFinished, s)
           | Returned (GotErr, s) \<Rightarrow> Returned (RunReadFailed, s)
           | Returned (GotBlock, s) \<Rightarrow> disk_run acquire release B mode f passthrough cap ds s)"


section \<open>Files: properties\<close>

definition file_at :: "dataFile list \<Rightarrow> nat \<Rightarrow> dataFile" where
  "file_at files k = (files ! (k mod length files))\<lparr>df_LoopIndex := k div length files\<rparr>"

lemma sent_loop:
  "files \<noteq> [] \<Longrightarrow> j \<le> length files \<Longrightarrow>
   sent_files files True n (i, j) = map (file_at files) [i * length files + j ..< i * length files + j + n]"
proof (induction n arbitrary: i j)
  case 0
  then show ?case by simp
next
  case (Suc n)
  let ?L = "length files"
  have up: "map (file_at files) [m ..< m + Suc n] = file_at files m # map (file_at files) [Suc m ..< Suc m + n]" for m
    by (simp add: upt_conv_Cons del: upt_Suc)
  show ?case
  proof (cases "j < ?L")
    case True
    have "(i * ?L + j) div ?L = i + j div ?L"
      using div_mult_self1 [of ?L j i] Suc.prems(1) by (simp add: add.commute)
    with True have f: "file_at files (i * ?L + j) = (files ! j)\<lparr>df_LoopIndex := i\<rparr>" by (simp add: file_at_def)
    have "sent_files files True (Suc n) (i, j) = (files ! j)\<lparr>df_LoopIndex := i\<rparr> # sent_files files True n (i, Suc j)"
      using True by (simp add: next_file_def)
    moreover have "sent_files files True n (i, Suc j) = map (file_at files) [Suc (i * ?L + j) ..< Suc (i * ?L + j) + n]"
      using Suc.IH [of "Suc j" i] Suc.prems True by (simp only: add_Suc_right) simp
    ultimately show ?thesis by (simp only: up f)
  next
    case False
    then have j: "j = ?L" using Suc.prems by simp
    have f: "file_at files (i * ?L + ?L) = (files ! 0)\<lparr>df_LoopIndex := Suc i\<rparr>"
      using Suc.prems(1) by (simp add: file_at_def)
    have "sent_files files True (Suc n) (i, j) = (files ! 0)\<lparr>df_LoopIndex := Suc i\<rparr> # sent_files files True n (Suc i, 1)"
      using j Suc.prems(1) by (simp add: next_file_def)
    moreover have "1 \<le> ?L" using Suc.prems(1) by (cases files) auto
    moreover have "Suc i * ?L + 1 = Suc (i * ?L + ?L)" by simp
    ultimately show ?thesis using Suc.IH [of 1 "Suc i"] Suc.prems(1) by (simp only: up f j not_False_eq_True simp_thms)
  qed
qed

lemma sent_once:
  "sent_files files False n (0, j) = map (\<lambda>f. f\<lparr>df_LoopIndex := 0\<rparr>) (take n (drop j files))"
proof (induction n arbitrary: j)
  case (Suc n)
  show ?case
  proof (cases "j < length files")
    case True
    then have "drop j files = files ! j # drop (Suc j) files" by (simp add: Cons_nth_drop_Suc)
    with True Suc show ?thesis by (simp add: next_file_def)
  qed (simp add: next_file_def)
qed simp

definition data_entry :: "string \<times> bool \<times> bool \<Rightarrow> bool" where
  "data_entry w \<longleftrightarrow> \<not> fst (snd w) \<and> (compressed_name (fst w) \<or> native_name (fst w))"

definition entry_file :: "string \<times> bool \<times> bool \<Rightarrow> dataFile" where
  "entry_file w = \<lparr>df_Index = 0, df_Path = fst w, df_Compressed = compressed_name (fst w), df_LoopIndex = 0\<rparr>"

lemma walk_map:
  "walk_files ws files =
     (if \<exists>w \<in> set ws. snd (snd w) then None else Some (files @ map entry_file (filter data_entry ws)))"
proof (induction ws files rule: walk_files.induct)
  case (2 path isDir err ws files)
  then show ?case
    by (cases "err"; cases isDir; cases "compressed_name path"; cases "native_name path")
      (simp_all add: data_entry_def entry_file_def)
qed simp

lemma walk_ok: "\<not> (\<exists>w \<in> set ws. snd (snd w)) \<Longrightarrow> walk_files ws files = Some (files @ map entry_file (filter data_entry ws))"
  by (simp only: walk_map if_False)

lemma number_path: "map df_Path (number_files fs) = map df_Path fs"
  unfolding number_files_def by (rule nth_equalityI) simp_all

lemma number_index: "map df_Index (number_files fs) = [0..<length fs]"
  unfolding number_files_def by (simp add: comp_def)

text \<open>
  The data files: the listing fails exactly when visiting some entry fails; otherwise the files
  are the entries that are not directories and end in one of the two suffixes, each once and
  marked compressed by the suffix, in the order of their paths and numbered from 0; looping, the
  k-th file handed to a worker is file \<open>k mod n\<close> marked with loop \<open>k div n\<close>, without looping each
  is handed out exactly once, in order, with loop 0.
\<close>

theorem getDataFiles_order:
  assumes "getDataFiles ws = Some files"
  shows "(\<forall>w \<in> set ws. \<not> snd (snd w)) \<and> sorted (map df_Path files) \<and>
    map df_Index files = [0..<length files] \<and>
    mset (map (\<lambda>f. (df_Path f, df_Compressed f)) files) =
      mset (map (\<lambda>w. (fst w, compressed_name (fst w))) (filter data_entry ws)) \<and>
    (files \<noteq> [] \<longrightarrow> sent_files files True n (0, 0) = map (file_at files) [0..<n]) \<and>
    sent_files files False n (0, 0) = take n files"
proof -
  let ?fs = "map entry_file (filter data_entry ws)"
  let ?key = "\<lambda>f. (df_Path f, df_Compressed f)"
  have ok: "\<forall>w \<in> set ws. \<not> snd (snd w)" and f: "files = number_files (sort_key df_Path ?fs)"
    using assms by (auto simp: getDataFiles_def walk_map split: if_splits)
  have pc: "map ?key files = map ?key (sort_key df_Path ?fs)"
    unfolding f number_files_def by (rule nth_equalityI) simp_all
  have "mset (map ?key files) = mset (map ?key ?fs)"
    unfolding pc by (simp del: map_map)
  then have ms: "mset (map ?key files) = mset (map (\<lambda>w. (fst w, compressed_name (fst w))) (filter data_entry ws))"
    by (simp add: comp_def entry_file_def)
  have z: "\<forall>g \<in> set (sort_key df_Path ?fs). df_LoopIndex g = 0" by (simp add: entry_file_def)
  then have l0: "\<forall>g \<in> set files. df_LoopIndex g = 0"
    unfolding f number_files_def all_set_conv_all_nth by simp
  have "map (\<lambda>f. f\<lparr>df_LoopIndex := 0\<rparr>) xs = xs" if "set xs \<subseteq> set files" for xs :: "dataFile list"
    using l0 that by (intro map_idI) auto
  then have once: "sent_files files False n (0, 0) = take n files"
    unfolding sent_once by (simp add: set_take_subset)
  have p: "map df_Path files = map df_Path (sort_key df_Path ?fs)" "map df_Index files = [0..<length files]"
    unfolding f number_path number_index by (simp_all add: number_files_def)
  have "sorted (map df_Path files)" unfolding p(1) by (rule sorted_sort_key)
  with ok ms once p(2) sent_loop [of files 0 n 0] show ?thesis by simp
qed

theorem getDataFiles_order_witness:
  "\<exists>files. getDataFiles [(''d'', True, False), (''d/b.native'', False, False), (''d/a.native.zst'', False, False),
      (''d/readme'', False, False)] = Some files \<and> map df_Index files = [0..<length files]"
proof -
  let ?ws = "[(''d'', True, False), (''d/b.native'', False, False), (''d/a.native.zst'', False, False),
      (''d/readme'', False, False)]"
  have "\<not> (\<exists>w \<in> set ?ws. snd (snd w))" by simp
  from walk_ok [OF this] obtain files where f: "getDataFiles ?ws = Some files"
    unfolding getDataFiles_def by (metis option.simps(9))
  from getDataFiles_order [OF f] f show ?thesis by blast
qed

section \<open>The speed limit: properties\<close>

lemma rebalance_each:
  "ws \<noteq> [] \<Longrightarrow> (i, w) \<in> set (rebalanceSpeed c ws) \<Longrightarrow> w = total_limit c div of_nat (length ws)"
  by (auto simp: rebalanceSpeed_def)

lemma sum_map_const: "(\<Sum>x \<leftarrow> xs. (k::nat)) = length xs * k"
  by (induction xs) auto

lemma rebalance_sum:
  assumes "length ws < 18446744073709551616" and "ws \<noteq> []"
  shows "(\<Sum>(i, w) \<leftarrow> rebalanceSpeed c ws. unat w) \<le> unat (total_limit c) \<and>
    unat (total_limit c) < (\<Sum>(i, w) \<leftarrow> rebalanceSpeed c ws. unat w) + length ws"
proof -
  let ?n = "length ws" and ?t = "unat (total_limit c)"
  have "unat (total_limit c div of_nat ?n) = ?t div ?n"
    using assms(1) by (simp add: unat_div unat_of_nat64)
  then have "(\<Sum>(i, w) \<leftarrow> rebalanceSpeed c ws. unat w) = ?n * (?t div ?n)"
    using assms(2) by (simp add: rebalanceSpeed_def comp_def case_prod_unfold sum_map_const)
  moreover have "?n * (?t div ?n) + ?t mod ?n = ?t" by simp
  moreover have "?t mod ?n < ?n" using assms(2) by simp
  ultimately show ?thesis by linarith
qed

text \<open>Which workers are registered: those that run a file, each once.\<close>

lemma file_start_dom: "map fst (file_start c ident ws) = ident # filter (\<lambda>i. i \<noteq> ident) (map fst ws)"
  by (simp add: file_start_def rebalanceSpeed_def disk_register_def comp_def case_prod_unfold filter_map)

lemma file_end_dom: "map fst (file_end c ident ws) = filter (\<lambda>i. i \<noteq> ident) (map fst ws)"
  by (simp add: file_end_def rebalanceSpeed_def disk_unregister_def comp_def case_prod_unfold filter_map)


text \<open>Any interleaving of the workers' starts and ends of files.\<close>

datatype speed_event = FileStart nat | FileEnd nat

fun speed_run :: "disk_config \<Rightarrow> speed_event list \<Rightarrow> workers \<Rightarrow> workers" where
  "speed_run c [] ws = ws"
| "speed_run c (FileStart i # es) ws = speed_run c es (file_start c i ws)"
| "speed_run c (FileEnd i # es) ws = speed_run c es (file_end c i ws)"

definition speed_inv :: "disk_config \<Rightarrow> workers \<Rightarrow> bool" where
  "speed_inv c ws \<longleftrightarrow> distinct (map fst ws) \<and> rebalanceSpeed c ws = ws"

lemma rebalance_idem: "rebalanceSpeed c (rebalanceSpeed c ws) = rebalanceSpeed c ws"
  by (simp add: rebalanceSpeed_def comp_def case_prod_unfold)

lemma speed_run_inv: "speed_inv c ws \<Longrightarrow> speed_inv c (speed_run c es ws)"
proof (induction c es ws rule: speed_run.induct)
  case (2 c i es ws)
  have "speed_inv c (file_start c i ws)" using "2.prems"
    unfolding speed_inv_def file_start_dom by (simp add: file_start_def rebalance_idem)
  with "2.IH" show ?case by simp
next
  case (3 c i es ws)
  have "speed_inv c (file_end c i ws)" using "3.prems"
    unfolding speed_inv_def file_end_dom by (simp add: file_end_def rebalance_idem)
  with "3.IH" show ?case by simp
qed simp

text \<open>
  The division of the speed limit: after any interleaving of file starts and ends every running
  worker is registered once, all have the same share, the shares together never exceed the
  configured limit and lose less than one byte per worker to the division.
\<close>

theorem worker_limits:
  assumes "length (speed_run c es []) < 18446744073709551616" and "speed_run c es [] \<noteq> []"
  shows "distinct (map fst (speed_run c es [])) \<and>
    (\<forall>(i, w) \<in> set (speed_run c es []). w = total_limit c div of_nat (length (speed_run c es []))) \<and>
    (\<Sum>(i, w) \<leftarrow> speed_run c es []. unat w) \<le> unat (total_limit c) \<and>
    unat (total_limit c) < (\<Sum>(i, w) \<leftarrow> speed_run c es []. unat w) + length (speed_run c es [])"
proof -
  have "speed_inv c (speed_run c es [])"
    by (rule speed_run_inv) (simp add: speed_inv_def rebalanceSpeed_def)
  then have i: "distinct (map fst (speed_run c es []))" "rebalanceSpeed c (speed_run c es []) = speed_run c es []"
    by (simp_all add: speed_inv_def)
  show ?thesis
    using i(1) rebalance_sum [OF assms, of c] rebalance_each [OF assms(2), of _ _ c] unfolding i(2) by blast
qed

definition sample_disk :: disk_config where
  "sample_disk = \<lparr>dk_Enabled = True, dk_Threads = 3, dk_LogsPath = [], dk_TracesPath = [], dk_ProfilesPath = [],
     dk_ReuseBlocks = True, dk_BlockRetirementUses = 0, dk_Loop = True, dk_MiBytesPerSecondLimit = 5,
     dk_ShiftTimestamp = [], dk_HasTimestampTime = False\<rparr>"

theorem worker_limits_witness:
  "(\<Sum>(i, w) \<leftarrow> speed_run sample_disk [FileStart 0, FileStart 1, FileEnd 0, FileStart 2] []. unat w) \<le>
     unat (total_limit sample_disk)"
  using worker_limits [of sample_disk "[FileStart 0, FileStart 1, FileEnd 0, FileStart 2]"]
  by (simp add: file_start_def file_end_def rebalanceSpeed_def disk_register_def disk_unregister_def)

section \<open>The worker: properties\<close>

definition disk_pipe :: "(nat \<times> nat) list \<Rightarrow> ('p, 'c) disk_state \<Rightarrow> 'p pipe" where
  "disk_pipe H s = \<lparr>pi_pool = ds_pool s, pi_held = H, pi_queue = ds_queue s, pi_lost = ds_lost s\<rparr>"

lemmas disk_pipe_simps [simp] =
  disk_pipe_def [THEN arg_cong, of pi_pool, simplified] disk_pipe_def [THEN arg_cong, of pi_held, simplified]
  disk_pipe_def [THEN arg_cong, of pi_queue, simplified] disk_pipe_def [THEN arg_cong, of pi_lost, simplified]

text \<open>What the tail of \<open>decodeBlock\<close> can do with the block it holds.\<close>

lemma report_frame:
  "report_times B ix li c s = Returned s' \<Longrightarrow>
   ds_pool s' = ds_pool s \<and> ds_data s' = ds_data s \<and> ds_queue s' = ds_queue s \<and> ds_lost s' = ds_lost s \<and>
   ds_rows s' = ds_rows s"
  by (auto simp: report_times_def split: if_splits option.splits)

lemma release_block_cases:
  "release_block release b r s = Returned (r', s') \<Longrightarrow>
   \<exists>p. release b (ds_pool s) = Some p \<and> r' = r \<and> s' = s\<lparr>ds_pool := p\<rparr>"
  by (auto simp: release_block_def split: option.splits)

lemma pass_on_cases:
  assumes "pass_on release passthrough cancel cap b s = Returned (r, s')"
  shows "r = GotBlock \<and>
    (passthrough \<and> (\<exists>p. release b (ds_pool s) = Some p \<and> s' = s\<lparr>ds_pool := p\<rparr>) \<or>
     \<not> passthrough \<and> cancel \<and> s' = s\<lparr>ds_lost := b # ds_lost s\<rparr> \<or>
     \<not> passthrough \<and> \<not> cancel \<and> length (ds_queue s) < cap \<and> s' = s\<lparr>ds_queue := ds_queue s @ [b]\<rparr>)"
  using assms by (auto simp: pass_on_def dest: release_block_cases split: if_splits)

lemma decoded_block_cases:
  assumes "decoded_block release B mode f passthrough cancel cap b c s = Returned (r, s')"
  obtains s1 c1 where "report_times B (df_Index f) (df_LoopIndex f) c s = Returned s1"
    and "shift_contents B mode (df_LoopIndex f) (ds_keeper s1) c = Returned c1"
    and "pass_on release passthrough cancel cap b
      (s1\<lparr>ds_data := (ds_data s1)(b := bo_mutate B (df_LoopIndex f) c1),
          ds_rows := ds_rows s1 + bo_rows B (bo_mutate B (df_LoopIndex f) c1)\<rparr>) = Returned (r, s')"
  using assms by (auto simp: decoded_block_def Let_def split: outcome.splits)


lemma pipe_drop:
  "release b (ds_pool s) = Some p \<Longrightarrow>
     pipe_step acquire release cap (disk_pipe ((w, b) # H) s) (disk_pipe H (s\<lparr>ds_pool := p\<rparr>))"
  "pipe_step acquire release cap (disk_pipe ((w, b) # H) s) (disk_pipe H (s\<lparr>ds_lost := b # ds_lost s\<rparr>))"
  "length (ds_queue s) < cap \<Longrightarrow>
     pipe_step acquire release cap (disk_pipe ((w, b) # H) s) (disk_pipe H (s\<lparr>ds_queue := ds_queue s @ [b]\<rparr>))"
  using pipe_release [of w b "disk_pipe ((w, b) # H) s" release p acquire cap]
    pipe_lose [of w b "disk_pipe ((w, b) # H) s" acquire release cap]
    pipe_send [of w b "disk_pipe ((w, b) # H) s" cap acquire release]
  by (simp_all add: disk_pipe_def)

lemma pipe_take:
  "acquire (ds_pool s) = Some (b, p) \<Longrightarrow>
   pipe_step acquire release cap (disk_pipe H s) (disk_pipe ((w, b) # H) (s\<lparr>ds_pool := p\<rparr>))"
  using pipe_acquire [of acquire "disk_pipe H s" b p release cap w] by (simp add: disk_pipe_def)

lemma disk_pipe_cong:
  "ds_pool s = ds_pool t \<Longrightarrow> ds_queue s = ds_queue t \<Longrightarrow> ds_lost s = ds_lost t \<Longrightarrow> disk_pipe H s = disk_pipe H t"
  by (simp add: disk_pipe_def)

lemma release_block_steps:
  assumes "release_block release b r s = Returned (r', s')"
  shows "pipe_step acquire release cap (disk_pipe ((w, b) # H) s) (disk_pipe H s')"
  using release_block_cases [OF assms] by (auto intro: pipe_drop)

lemma decoded_block_steps:
  assumes "decoded_block release B mode f passthrough cancel cap b c s = Returned (r, s')"
  shows "pipe_step acquire release cap (disk_pipe ((w, b) # H) s) (disk_pipe H s')"
proof -
  obtain s1 c1 where r: "report_times B (df_Index f) (df_LoopIndex f) c s = Returned s1"
    and p: "pass_on release passthrough cancel cap b
      (s1\<lparr>ds_data := (ds_data s1)(b := bo_mutate B (df_LoopIndex f) c1),
          ds_rows := ds_rows s1 + bo_rows B (bo_mutate B (df_LoopIndex f) c1)\<rparr>) = Returned (r, s')"
    by (rule decoded_block_cases [OF assms])
  let ?t = "s1\<lparr>ds_data := (ds_data s1)(b := bo_mutate B (df_LoopIndex f) c1),
          ds_rows := ds_rows s1 + bo_rows B (bo_mutate B (df_LoopIndex f) c1)\<rparr>"
  from report_frame [OF r] have e: "disk_pipe ((w, b) # H) s = disk_pipe ((w, b) # H) ?t"
    by (intro disk_pipe_cong) simp_all
  from pass_on_cases [OF p] show ?thesis
    unfolding e by (elim conjE disjE exE) (simp_all only: pipe_drop)
qed

text \<open>One \<open>decodeBlock\<close> takes a block from the pool and passes exactly that block on, loses it or releases it.\<close>

lemma decodeBlock_steps:
  assumes "decodeBlock acquire release B mode f passthrough cancel cap d s = Returned (r, s')"
  shows "(pipe_step acquire release cap)\<^sup>*\<^sup>* (disk_pipe H s) (disk_pipe H s')"
proof -
  obtain b p where a: "acquire (ds_pool s) = Some (b, p)"
    using assms by (auto simp: decodeBlock_def split: option.splits)
  define s0 where "s0 = s\<lparr>ds_pool := p\<rparr>"
  have "pipe_step acquire release cap (disk_pipe H s) (disk_pipe ((0, b) # H) s0)"
    unfolding s0_def by (rule pipe_take) (rule a)
  moreover have "pipe_step acquire release cap (disk_pipe ((0, b) # H) s0) (disk_pipe H s')"
  proof (cases d)
    case DecEOF
    then have "release_block release b GotEOF s0 = Returned (r, s')"
      using assms a by (simp add: decodeBlock_def s0_def)
    then show ?thesis by (rule release_block_steps)
  next
    case DecErr
    then have "release_block release b GotErr s0 = Returned (r, s')"
      using assms a by (simp add: decodeBlock_def s0_def)
    then show ?thesis by (rule release_block_steps)
  next
    case (DecBlock c)
    then have "decoded_block release B mode f passthrough cancel cap b c s0 = Returned (r, s')"
      using assms a by (simp add: decodeBlock_def s0_def)
    then show ?thesis by (rule decoded_block_steps)
  qed
  ultimately show ?thesis by (meson converse_rtranclp_into_rtranclp rtranclp.rtrancl_refl)
qed


lemma shift_keeper_free:
  "mode \<noteq> ShiftTimestampAll \<Longrightarrow> shift_contents B mode li k c = shift_contents B mode li k' c"
  by (simp add: shift_contents_def)

definition disk_inv ::
  "(nat multiset \<Rightarrow> 'p \<Rightarrow> bool) \<Rightarrow> (nat \<times> nat) list \<Rightarrow> ('p, 'c) disk_state \<Rightarrow> bool" where
  "disk_inv I H s \<longleftrightarrow> I (mset (out_blocks (disk_pipe H s))) (ds_pool s)"

text \<open>What the caller sees of one \<open>decodeBlock\<close>; \<open>outs\<close> are the blocks that have an owner before it.\<close>

definition decode_effect ::
  "'c block_ops \<Rightarrow> string \<Rightarrow> dataFile \<Rightarrow> bool \<Rightarrow> bool \<Rightarrow> 'c decoded \<Rightarrow> nat list \<Rightarrow> dec_result \<Rightarrow>
   ('p, 'c) disk_state \<Rightarrow> ('p, 'c) disk_state \<Rightarrow> bool" where
  "decode_effect B mode f passthrough cancel d outs r s s' \<longleftrightarrow>
     (\<forall>x \<in> set outs. ds_data s' x = ds_data s x) \<and>
     (r \<noteq> GotBlock \<longrightarrow> ds_queue s' = ds_queue s \<and> ds_lost s' = ds_lost s \<and> ds_rows s' = ds_rows s) \<and>
     (r = GotBlock \<longrightarrow>
        (\<exists>b c k c1. b \<notin> set outs \<and> d = DecBlock c \<and> shift_contents B mode (df_LoopIndex f) k c = Returned c1 \<and>
          ds_data s' b = bo_mutate B (df_LoopIndex f) c1 \<and>
          ds_rows s' = ds_rows s + bo_rows B (bo_mutate B (df_LoopIndex f) c1) \<and>
          ds_queue s' = ds_queue s @ (if passthrough \<or> cancel then [] else [b]) \<and>
          ds_lost s' = (if \<not> passthrough \<and> cancel then [b] else []) @ ds_lost s))"

lemma decoded_block_effect:
  assumes "decoded_block release B mode f passthrough cancel cap b c s = Returned (r, s')" and "b \<notin> set outs"
  shows "decode_effect B mode f passthrough cancel (DecBlock c) outs r s s'"
proof -
  obtain s1 c1 where t: "report_times B (df_Index f) (df_LoopIndex f) c s = Returned s1"
    and k: "shift_contents B mode (df_LoopIndex f) (ds_keeper s1) c = Returned c1"
    and p: "pass_on release passthrough cancel cap b
      (s1\<lparr>ds_data := (ds_data s1)(b := bo_mutate B (df_LoopIndex f) c1),
          ds_rows := ds_rows s1 + bo_rows B (bo_mutate B (df_LoopIndex f) c1)\<rparr>) = Returned (r, s')"
    by (rule decoded_block_cases [OF assms(1)])
  note q = pass_on_cases [OF p]
  have d: "ds_data s' = (ds_data s)(b := bo_mutate B (df_LoopIndex f) c1)" "r = GotBlock"
    "ds_rows s' = ds_rows s + bo_rows B (bo_mutate B (df_LoopIndex f) c1)"
    "ds_queue s' = ds_queue s @ (if passthrough \<or> cancel then [] else [b])"
    "ds_lost s' = (if \<not> passthrough \<and> cancel then [b] else []) @ ds_lost s"
    using q report_frame [OF t] by auto
  have "\<forall>x \<in> set outs. ds_data s' x = ds_data s x" using d(1) assms(2) by auto
  moreover have "ds_data s' b = bo_mutate B (df_LoopIndex f) c1" using d(1) by simp
  ultimately show ?thesis using d(2-) k assms(2) unfolding decode_effect_def by blast
qed

context pool
begin

lemma acquired_fresh:
  assumes "inv (mset outs) s" and "acquire s = Some (b, s')"
  shows "b \<notin> set outs"
proof -
  have "count (add_mset b (mset outs)) b \<le> 1" by (rule inv_once [OF acquire_inv [OF assms]])
  then show ?thesis by (simp add: count_eq_zero_iff)
qed

lemma decode_ok:
  assumes i: "disk_inv inv H s"
    and d: "decodeBlock acquire release B mode f passthrough cancel cap d s = Returned (r, s')"
  shows "disk_inv inv H s' \<and> decode_effect B mode f passthrough cancel d (out_blocks (disk_pipe H s)) r s s'"
proof
  show "disk_inv inv H s'"
    using run_inv [OF decodeBlock_steps [OF d, of H]] i by (simp add: disk_inv_def)
  obtain b p where a: "acquire (ds_pool s) = Some (b, p)"
    using d by (auto simp: decodeBlock_def split: option.splits)
  have b: "b \<notin> set (out_blocks (disk_pipe H s))" by (rule acquired_fresh [OF i [unfolded disk_inv_def] a])
  show "decode_effect B mode f passthrough cancel d (out_blocks (disk_pipe H s)) r s s'"
  proof (cases d)
    case DecEOF
    then show ?thesis using d a by (auto simp: decodeBlock_def decode_effect_def dest!: release_block_cases)
  next
    case DecErr
    then show ?thesis using d a by (auto simp: decodeBlock_def decode_effect_def dest!: release_block_cases)
  next
    case (DecBlock c)
    then have "decoded_block release B mode f passthrough cancel cap b c (s\<lparr>ds_pool := p\<rparr>) = Returned (r, s')"
      using d a by (simp add: decodeBlock_def)
    from decoded_block_effect [OF this b] show ?thesis by (simp add: decode_effect_def DecBlock)
  qed
qed

end


text \<open>Known before or after the report of the block: then \<open>Snapshot\<close> does not wait.\<close>

definition start_known :: "dataFile \<Rightarrow> ('p, 'c) disk_state \<Rightarrow> bool" where
  "start_known f s \<longleftrightarrow>
     rk_ready (ds_keeper s) \<or> df_LoopIndex f = 0 \<and> df_Index f = 0 \<and> \<not> ds_timestampSet s"

definition keeper_ok :: "keeper \<Rightarrow> bool" where
  "keeper_ok k \<longleftrightarrow> (rk_datasetStart k \<noteq> zeroTime \<longrightarrow> rk_ready k)"

lemma earliest_ready:
  "ReportEarliestTimestamp t k = Some k' \<Longrightarrow> keeper_ok k \<Longrightarrow> rk_ready k' \<and> keeper_ok k'"
  by (auto simp: ReportEarliestTimestamp_def keeper_ok_def split: if_splits)

lemma latest_ready [simp]:
  "rk_ready (ReportLatestTimestamp t k) = rk_ready k"
  "rk_datasetStart (ReportLatestTimestamp t k) = rk_datasetStart k"
  by (simp_all add: ReportLatestTimestamp_def)

lemma latest_ok [simp]: "keeper_ok (ReportLatestTimestamp t k) = keeper_ok k"
  by (simp add: keeper_ok_def)

lemma report_ready:
  assumes "report_times B (df_Index f) (df_LoopIndex f) c s = Returned s'" and "keeper_ok (ds_keeper s)"
  shows "rk_ready (ds_keeper s') = start_known f s \<and> keeper_ok (ds_keeper s')"
  using assms by (auto simp: report_times_def start_known_def dest: earliest_ready split: if_splits option.splits)

lemma report_blocked [simp]: "report_times B ix li c s \<noteq> Blocked"
  by (simp add: report_times_def split: option.splits)

lemma shift_blocked:
  "shift_contents B mode li k c = Blocked \<longleftrightarrow> mode = ShiftTimestampAll \<and> \<not> rk_ready k"
  by (auto simp: shift_contents_def Snapshot_def shift_modes split: option.splits)

lemma decoded_block_blocked:
  assumes "decoded_block release B mode f passthrough cancel cap b c s = Blocked" and "keeper_ok (ds_keeper s)"
  shows "mode = ShiftTimestampAll \<and> \<not> start_known f s \<or>
    passthrough \<and> release b (ds_pool s) = None \<or> \<not> passthrough \<and> \<not> cancel \<and> cap \<le> length (ds_queue s)"
proof (cases "report_times B (df_Index f) (df_LoopIndex f) c s")
  case (Returned s1)
  note f = report_frame [OF Returned] and r = report_ready [OF Returned assms(2)]
  show ?thesis
    using assms(1) Returned f r
    by (auto simp: decoded_block_def shift_blocked pass_on_def release_block_def Let_def
        split: outcome.splits if_splits option.splits)
qed (use assms(1) in \<open>simp_all add: decoded_block_def\<close>)

context pool
begin

lemma decode_blocked:
  assumes i: "disk_inv inv H s" and k: "keeper_ok (ds_keeper s)"
    and d: "decodeBlock acquire release B mode f passthrough cancel cap d s = Blocked"
  shows "acquire (ds_pool s) = None \<or> mode = ShiftTimestampAll \<and> \<not> start_known f s \<or>
    \<not> passthrough \<and> \<not> cancel \<and> cap \<le> length (ds_queue s)"
proof (cases "acquire (ds_pool s)")
  case (Some bp)
  obtain b p where bp: "bp = (b, p)" by fastforce
  have "inv (add_mset b (mset (out_blocks (disk_pipe H s)))) p"
    using acquire_inv i Some bp unfolding disk_inv_def by blast
  then have r: "release b p \<noteq> None" using release_inv by fastforce
  then have "\<exists>c. d = DecBlock c \<and> decoded_block release B mode f passthrough cancel cap b c (s\<lparr>ds_pool := p\<rparr>) = Blocked"
    using d Some bp by (cases d) (auto simp: decodeBlock_def release_block_def split: option.splits)
  then obtain c where c: "decoded_block release B mode f passthrough cancel cap b c (s\<lparr>ds_pool := p\<rparr>) = Blocked" by blast
  from decoded_block_blocked [OF c] k r show ?thesis by (simp add: start_known_def)
qed simp

end

lemma reach_disk_inv:
  assumes "(pipe_step bp_Acquire bp_Release cap)\<^sup>*\<^sup>* (pipe_start n r) (disk_pipe H s)"
  shows "disk_inv bp_inv H s"
  using reach_inv [OF assms] by (simp add: disk_inv_def)


text \<open>
  C6. Decoding in any reachable state of the pipeline of a recycling pool: one call leaves a
  reachable state in which no block has two owners; it never writes a block that another worker
  holds, that is queued or lost; a block it queues carries the decoded contents, shifted and then
  mutated, and goes to the end of the queue; an error or the end of the file leaves the queue as
  it was. If it waits for ever, the pool is empty, the queue is full, or mode "all" waits for a
  start that is not known.
\<close>

theorem decodeBlock_safe:
  assumes "(pipe_step bp_Acquire bp_Release cap)\<^sup>*\<^sup>* (pipe_start n ret) (disk_pipe H s)"
    and "keeper_ok (ds_keeper s)"
  shows "(case decodeBlock bp_Acquire bp_Release B mode f passthrough cancel cap d s of
      Returned (r, s') \<Rightarrow>
        (pipe_step bp_Acquire bp_Release cap)\<^sup>*\<^sup>* (pipe_start n ret) (disk_pipe H s') \<and>
        distinct (out_blocks (disk_pipe H s')) \<and>
        decode_effect B mode f passthrough cancel d (out_blocks (disk_pipe H s)) r s s'
    | Blocked \<Rightarrow> bp_chan (ds_pool s) = [] \<or> mode = ShiftTimestampAll \<and> \<not> start_known f s \<or>
        \<not> passthrough \<and> \<not> cancel \<and> cap \<le> length (ds_queue s)
    | Panicked \<Rightarrow> True)"
proof (cases "decodeBlock bp_Acquire bp_Release B mode f passthrough cancel cap d s")
  case (Returned rs)
  obtain r s' where rs: "rs = (r, s')" by fastforce
  note d = Returned [unfolded rs]
  have reach: "(pipe_step bp_Acquire bp_Release cap)\<^sup>*\<^sup>* (pipe_start n ret) (disk_pipe H s')"
    using assms(1) decodeBlock_steps [OF d, of H] by (rule rtranclp_trans)
  have "distinct (out_blocks (disk_pipe H s'))"
    using block_pool.run_exclusive [OF reach] bp_inv_new [of n ret] by (simp add: pipe_start_def out_blocks_def)
  then show ?thesis
    using reach block_pool.decode_ok [OF reach_disk_inv [OF assms(1)] d] Returned rs by simp
next
  case Blocked
  then show ?thesis
    using block_pool.decode_blocked [OF reach_disk_inv [OF assms(1)] assms(2) Blocked]
    by (auto simp: bp_Acquire_def split: list.splits)
qed simp

text \<open>Block operations on the log columns, as a concrete instance.\<close>

definition logs_ops :: "time_codec \<Rightarrow> int \<Rightarrow> (nat \<Rightarrow> int) \<Rightarrow> logs_cols block_ops" where
  "logs_ops T off now =
     \<lparr>bo_first = logs_FirstTimestamp T, bo_last = logs_LastTimestamp T, bo_rows = logs_Rows,
      bo_date = logs_UpdateDate T off now, bo_shift = logs_ShiftTimestamp T,
      bo_now = logs_UpdateTimestampNow T now, bo_minute = logs_UpdateTimestampMinute T off now,
      bo_mutate = logs_MutateIDs\<rparr>"

definition fresh_state :: "nat \<Rightarrow> 'c \<Rightarrow> (blockPool, 'c) disk_state" where
  "fresh_state n c =
     \<lparr>ds_pool = NewBlockPool n 3, ds_data = (\<lambda>_. c), ds_queue = [], ds_lost = [], ds_keeper = NewReplayTimeKeeper 7,
      ds_timestampSet = False, ds_rows = 0\<rparr>"

definition first_file :: dataFile where
  "first_file = \<lparr>df_Index = 0, df_Path = [], df_Compressed = False, df_LoopIndex = 0\<rparr>"

lemma fresh_reach: "(pipe_step bp_Acquire bp_Release cap)\<^sup>*\<^sup>* (pipe_start n 3) (disk_pipe [] (fresh_state n c))"
  by (simp add: pipe_start_def disk_pipe_def fresh_state_def)

lemma fresh_keeper: "keeper_ok (ds_keeper (fresh_state n c))"
  by (simp add: keeper_ok_def fresh_state_def NewReplayTimeKeeper_def)

theorem decodeBlock_safe_witness:
  "\<exists>r s'. decodeBlock bp_Acquire bp_Release (logs_ops unit_codec 0 int) ShiftTimestampNone first_file False False 1
      (DecBlock sample_logs) (fresh_state 2 sample_logs) = Returned (r, s') \<and>
    distinct (out_blocks (disk_pipe [] s'))"
proof -
  let ?d = "decodeBlock bp_Acquire bp_Release (logs_ops unit_codec 0 int) ShiftTimestampNone first_file False False 1
      (DecBlock sample_logs) (fresh_state 2 sample_logs)"
  have "\<exists>r s'. ?d = Returned (r, s')"
    by (simp add: decodeBlock_def decoded_block_def report_times_def shift_contents_def shift_modes pass_on_def
        fresh_state_def first_file_def bp_Acquire_def NewBlockPool_def upt_rec ReportEarliestTimestamp_def
        NewReplayTimeKeeper_def Let_def)
  then obtain r s' where d: "?d = Returned (r, s')" by blast
  with decodeBlock_safe [OF fresh_reach [where n = 2 and c = sample_logs] fresh_keeper, where cap = 1 and
      B = "logs_ops unit_codec 0 int" and mode = ShiftTimestampNone and f = first_file and passthrough = False and
      cancel = False and d = "DecBlock sample_logs"]
  show ?thesis by simp
qed





text \<open>A file read without cancellation.\<close>

definition whole_file :: "'c list \<Rightarrow> (bool \<times> bool \<times> 'c decoded) list" where
  "whole_file cs = map (\<lambda>c. (False, False, DecBlock c)) cs @ [(False, False, DecEOF)]"

lemma Returned_iff: "(\<exists>x. y = Returned x) \<longleftrightarrow> y \<noteq> Blocked \<and> y \<noteq> Panicked"
  by (cases y) auto

definition real_start :: "'c block_ops \<Rightarrow> dataFile \<Rightarrow> 'c list \<Rightarrow> bool" where
  "real_start B f cs \<longleftrightarrow> df_Index f = 0 \<and> df_LoopIndex f = 0 \<longrightarrow> (\<forall>c \<in> set cs. bo_first B c \<noteq> zeroTime)"

definition keeper_real :: "keeper \<Rightarrow> bool" where
  "keeper_real k \<longleftrightarrow> (rk_datasetStart k \<noteq> zeroTime) = rk_ready k"

lemma earliest_real:
  "keeper_real k \<Longrightarrow> t \<noteq> zeroTime \<Longrightarrow> \<exists>k'. ReportEarliestTimestamp t k = Some k' \<and> keeper_real k'"
  by (auto simp: keeper_real_def ReportEarliestTimestamp_def)

lemma latest_real [simp]: "keeper_real (ReportLatestTimestamp t k) = keeper_real k"
  by (simp add: keeper_real_def)

lemma report_real:
  assumes "keeper_real (ds_keeper s)" and "df_Index f = 0 \<and> df_LoopIndex f = 0 \<longrightarrow> bo_first B c \<noteq> zeroTime"
  shows "\<exists>s'. report_times B (df_Index f) (df_LoopIndex f) c s = Returned s' \<and> keeper_real (ds_keeper s')"
  using assms earliest_real [OF assms(1), of "bo_first B c"] by (auto simp: report_times_def)

lemma deliver_one:
  assumes "bp_chan (ds_pool s) = b # rest" and "length (ds_queue s) < cap" and "keeper_real (ds_keeper s)"
    and "df_Index f = 0 \<and> df_LoopIndex f = 0 \<longrightarrow> bo_first B c \<noteq> zeroTime"
    and "\<And>k. shift_contents B mode (df_LoopIndex f) k c = Returned c1"
  shows "\<exists>s'. decodeBlock bp_Acquire bp_Release B mode f False False cap (DecBlock c) s = Returned (GotBlock, s') \<and>
    keeper_real (ds_keeper s') \<and> bp_chan (ds_pool s') = rest \<and> ds_queue s' = ds_queue s @ [b] \<and>
    ds_data s' = (ds_data s)(b := bo_mutate B (df_LoopIndex f) c1) \<and>
    ds_rows s' = ds_rows s + bo_rows B (bo_mutate B (df_LoopIndex f) c1)"
proof -
  let ?s = "s\<lparr>ds_pool := (ds_pool s)\<lparr>bp_chan := rest\<rparr>\<rparr>"
  obtain s1 where r: "report_times B (df_Index f) (df_LoopIndex f) c ?s = Returned s1" "keeper_real (ds_keeper s1)"
    using report_real [of ?s f B c] assms(3,4) by auto
  from report_frame [OF r(1)] show ?thesis
    using assms(1,2) r by (simp add: decodeBlock_def bp_Acquire_def decoded_block_def assms(5) pass_on_def Let_def)
qed


lemma deliver_all:
  assumes "disk_inv bp_inv H s" and "length cs < length (bp_chan (ds_pool s))" and "length (ds_queue s) + length cs \<le> cap"
    and "keeper_real (ds_keeper s)" and "real_start B f cs"
    and "\<And>c k. c \<in> set cs \<Longrightarrow> shift_contents B mode (df_LoopIndex f) k c = Returned (sh c)"
  shows "\<exists>s'. disk_run bp_Acquire bp_Release B mode f False cap (whole_file cs) s = Returned (RunFinished, s') \<and>
    map (ds_data s') (ds_queue s') = map (ds_data s) (ds_queue s) @ map (\<lambda>c. bo_mutate B (df_LoopIndex f) (sh c)) cs \<and>
    ds_rows s' = ds_rows s + (\<Sum>c \<leftarrow> cs. bo_rows B (bo_mutate B (df_LoopIndex f) (sh c)))"
  using assms
proof (induction cs arbitrary: s)
  case Nil
  then obtain b rest where a: "bp_Acquire (ds_pool s) = Some (b, (ds_pool s)\<lparr>bp_chan := rest\<rparr>)"
    by (cases "bp_chan (ds_pool s)") (auto simp: bp_Acquire_def)
  have "bp_inv (add_mset b (mset (out_blocks (disk_pipe H s)))) ((ds_pool s)\<lparr>bp_chan := rest\<rparr>)"
    using block_pool.acquire_inv [OF Nil.prems(1) [unfolded disk_inv_def] a] .
  from bp_release_inv [OF this] a show ?case
    by (auto simp: whole_file_def decodeBlock_def release_block_def)
next
  case (Cons c cs)
  obtain b rest where ch: "bp_chan (ds_pool s) = b # rest"
    using Cons.prems(2) by (cases "bp_chan (ds_pool s)") auto
  from deliver_one [OF ch _ Cons.prems(4), of cap f B c mode "sh c"]
  obtain s1 where s1: "decodeBlock bp_Acquire bp_Release B mode f False False cap (DecBlock c) s = Returned (GotBlock, s1)"
      "keeper_real (ds_keeper s1)" "bp_chan (ds_pool s1) = rest" "ds_queue s1 = ds_queue s @ [b]"
      "ds_data s1 = (ds_data s)(b := bo_mutate B (df_LoopIndex f) (sh c))"
      "ds_rows s1 = ds_rows s + bo_rows B (bo_mutate B (df_LoopIndex f) (sh c))"
    using Cons.prems(3,5,6) by (auto simp: real_start_def)
  have i: "disk_inv bp_inv H s1" using block_pool.decode_ok [OF Cons.prems(1) s1(1)] by blast
  have "b \<notin> set (out_blocks (disk_pipe H s))"
    by (rule block_pool.acquired_fresh [OF Cons.prems(1) [unfolded disk_inv_def]]) (simp add: bp_Acquire_def ch)
  then have q: "map (ds_data s1) (ds_queue s1) = map (ds_data s) (ds_queue s) @ [bo_mutate B (df_LoopIndex f) (sh c)]"
    unfolding s1(4,5) by (auto simp: out_blocks_def)
  have "disk_run bp_Acquire bp_Release B mode f False cap (whole_file (c # cs)) s =
    disk_run bp_Acquire bp_Release B mode f False cap (whole_file cs) s1"
    using s1(1) by (simp add: whole_file_def)
  moreover have "\<exists>s'. disk_run bp_Acquire bp_Release B mode f False cap (whole_file cs) s1 = Returned (RunFinished, s') \<and>
    map (ds_data s') (ds_queue s') = map (ds_data s1) (ds_queue s1) @ map (\<lambda>c. bo_mutate B (df_LoopIndex f) (sh c)) cs \<and>
    ds_rows s' = ds_rows s1 + (\<Sum>c \<leftarrow> cs. bo_rows B (bo_mutate B (df_LoopIndex f) (sh c)))"
    using Cons.prems(2,3,5,6) ch s1(3,4) by (intro Cons.IH [OF i _ _ s1(2)]) (auto simp: real_start_def)
  ultimately show ?case using q s1(6) by (simp add: add.assoc)
qed

text \<open>
  C7. Reading a whole file in a mode other than "all", with enough blocks and room: the worker
  finishes, and the queue then holds what it held followed by the file's blocks in order, each
  shifted and mutated for the loop the file belongs to, none of them overwritten by a later one;
  the row counter has grown by their rows.
\<close>

theorem disk_run_delivers:
  assumes "(pipe_step bp_Acquire bp_Release cap)\<^sup>*\<^sup>* (pipe_start n ret) (disk_pipe H s)"
    and "length cs < length (bp_chan (ds_pool s))" and "length (ds_queue s) + length cs \<le> cap"
    and "keeper_real (ds_keeper s)" and "real_start B f cs" and "mode \<noteq> ShiftTimestampAll"
    and "\<forall>c \<in> set cs. shift_contents B mode (df_LoopIndex f) (ds_keeper s) c = Returned (sh c)"
  shows "\<exists>s'. disk_run bp_Acquire bp_Release B mode f False cap (whole_file cs) s = Returned (RunFinished, s') \<and>
    map (ds_data s') (ds_queue s') = map (ds_data s) (ds_queue s) @ map (\<lambda>c. bo_mutate B (df_LoopIndex f) (sh c)) cs \<and>
    ds_rows s' = ds_rows s + (\<Sum>c \<leftarrow> cs. bo_rows B (bo_mutate B (df_LoopIndex f) (sh c)))"
proof (rule deliver_all [OF reach_disk_inv [OF assms(1)] assms(2-5)])
  fix c k assume "c \<in> set cs"
  with assms(7) show "shift_contents B mode (df_LoopIndex f) k c = Returned (sh c)"
    using shift_keeper_free [OF assms(6), of B "df_LoopIndex f" k c "ds_keeper s"] by simp
qed

theorem disk_run_delivers_witness:
  "\<exists>s'. disk_run bp_Acquire bp_Release (logs_ops unit_codec 0 int) ShiftTimestampNone first_file False 2
      (whole_file [sample_logs, sample_logs]) (fresh_state 3 sample_logs) = Returned (RunFinished, s') \<and>
    map (ds_data s') (ds_queue s') = [logs_MutateIDs 0 sample_logs, logs_MutateIDs 0 sample_logs]"
proof -
  let ?B = "logs_ops unit_codec 0 int" and ?s = "fresh_state 3 sample_logs" and ?cs = "[sample_logs, sample_logs]"
  have "bo_first ?B sample_logs \<noteq> zeroTime"
    by (simp add: logs_ops_def logs_FirstTimestamp_def sample_logs_def unit_codec_def zeroTime_def)
  then have 1: "real_start ?B first_file ?cs" by (simp add: real_start_def)
  have 2: "keeper_real (ds_keeper ?s)" by (simp add: keeper_real_def fresh_state_def NewReplayTimeKeeper_def)
  have 3: "length ?cs < length (bp_chan (ds_pool ?s))" "length (ds_queue ?s) + length ?cs \<le> 2"
    "map (ds_data ?s) (ds_queue ?s) = []"
    by (simp_all add: fresh_state_def NewBlockPool_def)
  have 4: "\<forall>c \<in> set ?cs. shift_contents ?B ShiftTimestampNone (df_LoopIndex first_file) (ds_keeper ?s) c = Returned ((\<lambda>c. c) c)"
    by (simp add: shift_contents_def shift_modes)
  have 5: "ShiftTimestampNone \<noteq> ShiftTimestampAll" by (simp add: shift_modes)
  have "df_LoopIndex first_file = 0" "bo_mutate ?B = logs_MutateIDs" by (simp_all add: first_file_def logs_ops_def)
  with disk_run_delivers [OF fresh_reach 3(1,2) 2 1 5 4] 3(3) show ?thesis by auto
qed


section \<open>Configuration: properties\<close>

lemma disk_Validate_ok:
  assumes "disk_Validate c = (None, c')" and "dk_Enabled c"
  shows "1 \<le> dk_Threads c' \<and> dk_MiBytesPerSecondLimit c' \<noteq> 0 \<and>
    dk_ShiftTimestamp c' \<in> {ShiftTimestampNone, ShiftTimestampDate, ShiftTimestampAll, ShiftTimestampNow, ShiftTimestampMin} \<and>
    c' = c\<lparr>dk_ShiftTimestamp := dk_ShiftTimestamp c'\<rparr>"
  using assms unfolding disk_Validate_def by (auto split: if_splits simp: not_less)

text \<open>The mode "minute" is accepted, though the error message does not list it.\<close>

lemma disk_Validate_minute:
  "disk_Validate (sample_disk\<lparr>dk_ShiftTimestamp := ShiftTimestampMin\<rparr>) = (None, sample_disk\<lparr>dk_ShiftTimestamp := ShiftTimestampMin\<rparr>)"
  by (simp add: disk_Validate_def sample_disk_def shift_modes)

end
