(* ===== verification/Insert.thy ===== *)
theory Insert
  imports BlockPool Disk "HOL-Library.Sublist"
begin

text \<open>
  The insert sink (\<open>internal/insert\<close>): configuration, node balancing, the worker that streams
  blocks into one INSERT after another, and the scheduler that restarts it. The client library is
  the environment: it calls \<open>OnInput\<close> and sends what the placeholder block's input then refers to,
  until it gets \<open>io.EOF\<close> or the query fails. Columns are objects in a store; the \<open>Input\<close> of a
  block is an array of references into it.
\<close>

section \<open>Configuration\<close>

record clickhouse_config =
  ck_Address :: string
  ck_Secure :: bool
  ck_Compression :: string
  ck_User :: string
  ck_Password :: string
  ck_Database :: string
  ck_LogsTable :: string
  ck_TracesTable :: string
  ck_ProfilesTable :: string

record insert_config =
  ik_Enabled :: bool
  ik_Threads :: int
  ik_BatchSize :: int
  ik_WorkerRetirementBatches :: int
  ik_BalanceNodes :: bool
  ik_ClickHouse :: clickhouse_config

datatype insert_err = ErrAddress | ErrCompression | ErrDatabase | ErrInsThreads | ErrBatchSize | ErrRetirement

text \<open>\<open>comp_known\<close>: the compression names the client library accepts.\<close>

definition ck_Validate :: "(string \<Rightarrow> bool) \<Rightarrow> clickhouse_config \<Rightarrow> insert_err option" where
  "ck_Validate comp_known c =
     first_err [err_if (ck_Address c = '''') ErrAddress,
       err_if (ck_Compression c \<noteq> '''' \<and> \<not> comp_known (ck_Compression c)) ErrCompression,
       err_if (ck_Database c = '''') ErrDatabase]"

definition insert_Validate :: "(string \<Rightarrow> bool) \<Rightarrow> insert_config \<Rightarrow> insert_err option" where
  "insert_Validate comp_known c =
     (if \<not> ik_Enabled c then None
      else first_err [err_if (ik_Threads c < 1) ErrInsThreads, err_if (ik_BatchSize c < 1) ErrBatchSize,
        err_if (ik_WorkerRetirementBatches c < 0) ErrRetirement, ck_Validate comp_known (ik_ClickHouse c)])"

section \<open>Node balancing\<close>

record nodeBalancer =
  nb_nodeIPs :: "string list"
  nb_index :: nat

definition FetchNodes :: "string list \<Rightarrow> nodeBalancer \<Rightarrow> nodeBalancer" where
  "FetchNodes scanned b = b\<lparr>nb_nodeIPs := nb_nodeIPs b @ scanned\<rparr>"

text \<open>Indexing past the end panics: \<open>None\<close>.\<close>

definition IsNextNode :: "string \<Rightarrow> nodeBalancer \<Rightarrow> (bool \<times> nodeBalancer) option" where
  "IsNextNode ip b =
     (if length (nb_nodeIPs b) \<le> nb_index b then None
      else if ip \<noteq> nb_nodeIPs b ! nb_index b then Some (False, b)
      else let i = nb_index b + 1
           in Some (True, b\<lparr>nb_index := (if i = length (nb_nodeIPs b) then 0 else i)\<rparr>))"

text \<open>
  The dial loop of \<open>buildClient\<close>: what each attempt meets (dialling fails, the node query fails, the
  node found), at most 100 attempts; \<open>attempts\<close> are the ones left. The connection that is returned
  is open when the flag says so.
\<close>

datatype dial = DialFails | NodeFails | NodeIs string
datatype client = NoClient | Client bool

fun dial_loop :: "nat \<Rightarrow> bool \<Rightarrow> dial list \<Rightarrow> client \<Rightarrow> nodeBalancer \<Rightarrow> (client \<times> nodeBalancer) outcome" where
  "dial_loop 0 balance ds c b = Returned (c, b)"
| "dial_loop (Suc attempts) balance [] c b = Blocked"
| "dial_loop (Suc attempts) balance (DialFails # ds) c b = Returned (NoClient, b)"
| "dial_loop (Suc attempts) balance (d # ds) c b =
     (if \<not> balance then Returned (Client True, b)
      else case d of
        NodeIs ip \<Rightarrow>
          (case IsNextNode ip b of
             None \<Rightarrow> Panicked
           | Some (ok, b) \<Rightarrow>
               if ok then Returned (Client True, b) else dial_loop attempts balance ds (Client False) b)
      | _ \<Rightarrow> dial_loop attempts balance ds (Client False) b)"

definition ins_buildClient :: "bool \<Rightarrow> dial list \<Rightarrow> nodeBalancer \<Rightarrow> (client \<times> nodeBalancer) outcome" where
  "ins_buildClient balance ds b = dial_loop 100 balance ds NoClient b"

text \<open>\<open>getNode\<close> on the rows of the query (\<open>None\<close>: it failed).\<close>

definition getNode :: "string list option \<Rightarrow> string option" where
  "getNode rows =
     (case rows of None \<Rightarrow> None
      | Some xs \<Rightarrow> if xs = [] then None else if xs ! 0 = '''' then None else Some (xs ! 0))"

section \<open>One INSERT\<close>

record ins_worker =
  iw_batchSize :: int
  iw_retirement :: int
  iw_initial :: int
  iw_own :: "nat \<Rightarrow> nat list"
  iw_insertBlock :: nat

text \<open>\<open>own b\<close> are the columns of block \<open>b\<close>, which its \<open>Input\<close> refers to when it is created.\<close>

definition ins_newWorker :: "insert_config \<Rightarrow> (nat \<Rightarrow> nat list) \<Rightarrow> nat \<Rightarrow> int \<Rightarrow> ins_worker" where
  "ins_newWorker c own ph ident =
     \<lparr>iw_batchSize = ik_BatchSize c, iw_retirement = ik_WorkerRetirementBatches c,
      iw_initial = (if 0 < ik_WorkerRetirementBatches c \<and> 0 < ik_Threads c
                    then go_quot (i64 (ident * ik_WorkerRetirementBatches c)) (ik_Threads c) else 0),
      iw_own = own, iw_insertBlock = ph\<rparr>"

record ('p, 'v) ins_state =
  in_cols :: "nat \<Rightarrow> 'v list"
  in_input :: "nat \<Rightarrow> nat list"
  in_queue :: "nat list"
  in_closed :: bool
  in_pool :: 'p
  in_block :: "nat option"
  in_cur :: "nat option"
  in_rows :: int
  in_sent :: "'v list list list"

text \<open>\<open>swapInput(a, b)\<close> on the inputs of blocks \<open>a\<close> and \<open>b\<close>: element by element; a shorter \<open>b\<close> panics.\<close>

definition swapInput :: "nat \<Rightarrow> nat \<Rightarrow> (nat \<Rightarrow> nat list) \<Rightarrow> (nat \<Rightarrow> nat list) option" where
  "swapInput a b h =
     (if length (h b) < length (h a) then None
      else Some (h(a := take (length (h a)) (h b), b := h a @ drop (length (h a)) (h b))))"

definition reset_insertBlock :: "ins_worker \<Rightarrow> ('p, 'v) ins_state \<Rightarrow> ('p, 'v) ins_state" where
  "reset_insertBlock W s =
     s\<lparr>in_cols := (\<lambda>c. if c \<in> set (iw_own W (iw_insertBlock W)) then [] else in_cols s c)\<rparr>"

definition release_current :: "(nat \<Rightarrow> 'p \<Rightarrow> 'p option) \<Rightarrow> ('p, 'v) ins_state \<Rightarrow> ('p, 'v) ins_state outcome" where
  "release_current release s =
     (case in_block s of
        None \<Rightarrow> Panicked
      | Some b \<Rightarrow>
          (case release b (in_pool s) of
             None \<Rightarrow> Blocked
           | Some p \<Rightarrow> Returned (s\<lparr>in_pool := p, in_block := None, in_cur := None\<rparr>)))"

text \<open>Restoring the columns of the current block.\<close>

definition swap_back :: "ins_worker \<Rightarrow> ('p, 'v) ins_state \<Rightarrow> ('p, 'v) ins_state outcome" where
  "swap_back W s =
     (case in_cur s of
        None \<Rightarrow> Returned s
      | Some x \<Rightarrow>
          (case swapInput x (iw_insertBlock W) (in_input s) of
             None \<Rightarrow> Panicked
           | Some h \<Rightarrow> Returned (s\<lparr>in_input := h\<rparr>)))"


datatype wait = WaitDone | WaitRecv | WaitTimeout

text \<open>
  The second half of \<open>OnInput\<close>: the block to send. The select takes the branch \<open>w\<close> names; receiving
  from an empty open queue is not ready, so the timeout wins then. \<open>None\<close> is \<open>io.EOF\<close>.
\<close>

definition next_block :: "wait \<Rightarrow> ('p, 'v) ins_state \<Rightarrow> (nat \<times> ('p, 'v) ins_state) option" where
  "next_block w s =
     (case in_block s of
        Some b \<Rightarrow> Some (b, s)
      | None \<Rightarrow>
          (case w of
             WaitRecv \<Rightarrow>
               (case in_queue s of
                  [] \<Rightarrow> None
                | b # q \<Rightarrow> Some (b, s\<lparr>in_queue := q, in_block := Some b\<rparr>))
           | _ \<Rightarrow> None))"

definition load_block :: "ins_worker \<Rightarrow> nat \<Rightarrow> ('p, 'v) ins_state \<Rightarrow> ('p, 'v) ins_state outcome" where
  "load_block W b s =
     (let ph = iw_insertBlock W in
      case swapInput ph b (in_input s) of
        None \<Rightarrow> Panicked
      | Some h \<Rightarrow>
          if h ph = [] then Panicked
          else Returned (s\<lparr>in_cur := Some b, in_input := h,
                 in_rows := in_rows s + int (length (in_cols s (hd (h ph))))\<rparr>))"

text \<open>\<open>OnInput\<close>: the flag says \<open>io.EOF\<close>.\<close>

definition OnInput ::
  "(nat \<Rightarrow> 'p \<Rightarrow> 'p option) \<Rightarrow> ins_worker \<Rightarrow> wait \<Rightarrow> ('p, 'v) ins_state \<Rightarrow> (bool \<times> ('p, 'v) ins_state) outcome" where
  "OnInput release W w s =
     (let s = reset_insertBlock W s in
      case (if in_cur s = None then Returned s
            else case swap_back W s of Returned s \<Rightarrow> release_current release s | e \<Rightarrow> e) of
        Blocked \<Rightarrow> Blocked
      | Panicked \<Rightarrow> Panicked
      | Returned s \<Rightarrow>
          if iw_batchSize W < in_rows s then Returned (True, s)
          else case next_block w s of
                 None \<Rightarrow> Returned (True, s)
               | Some (b, s) \<Rightarrow>
                   (case load_block W b s of
                      Blocked \<Rightarrow> Blocked | Panicked \<Rightarrow> Panicked | Returned s \<Rightarrow> Returned (False, s)))"

text \<open>
  The client library: it calls \<open>OnInput\<close> and sends, or fails, cancelled or not. The result is the
  error, \<open>Some True\<close> for a cancellation.
\<close>

datatype client_event = CallInput wait | Fails bool

fun do_query ::
  "(nat \<Rightarrow> 'p \<Rightarrow> 'p option) \<Rightarrow> ins_worker \<Rightarrow> client_event list \<Rightarrow> ('p, 'v) ins_state \<Rightarrow>
   (bool option \<times> ('p, 'v) ins_state) outcome" where
  "do_query release W [] s = Returned (Some True, s)"
| "do_query release W (Fails cancelled # es) s = Returned (Some cancelled, s)"
| "do_query release W (CallInput w # es) s =
     (case OnInput release W w s of
        Blocked \<Rightarrow> Blocked
      | Panicked \<Rightarrow> Panicked
      | Returned (eof, s) \<Rightarrow>
          if eof then Returned (case es of Fails cancelled # _ \<Rightarrow> Some cancelled | _ \<Rightarrow> None, s)
          else do_query release W es
                 (s\<lparr>in_sent := in_sent s @ [map (in_cols s) (in_input s (iw_insertBlock W))]\<rparr>))"

text \<open>Releasing what the query left behind, with its columns restored.\<close>

definition leftover ::
  "(nat \<Rightarrow> 'p \<Rightarrow> 'p option) \<Rightarrow> ins_worker \<Rightarrow> ('p, 'v) ins_state \<Rightarrow> ('p, 'v) ins_state outcome" where
  "leftover release W s =
     (if in_block s = None then Returned s
      else case swap_back W (if in_cur s = None then s else reset_insertBlock W s) of
             Returned s \<Rightarrow> release_current release s
           | e \<Rightarrow> e)"

definition ins_batch ::
  "(nat \<Rightarrow> 'p \<Rightarrow> 'p option) \<Rightarrow> ins_worker \<Rightarrow> client_event list \<Rightarrow> ('p, 'v) ins_state \<Rightarrow>
   (bool option \<times> ('p, 'v) ins_state) outcome" where
  "ins_batch release W es s =
     (case do_query release W es s of
        Blocked \<Rightarrow> Blocked
      | Panicked \<Rightarrow> Panicked
      | Returned (err, s) \<Rightarrow>
          (case leftover release W s of
             Blocked \<Rightarrow> Blocked | Panicked \<Rightarrow> Panicked | Returned s \<Rightarrow> Returned (err, s)))"

section \<open>The worker\<close>

text \<open>
  The loop of \<open>Run\<close>: per turn, whether the context is done before it and what the client does;
  \<open>n\<close> is \<open>batchCount\<close>.
\<close>

datatype ins_end = EndCanceled | EndClosed | EndErr | EndRetired | EndOpen

definition take_first :: "('p, 'v) ins_state \<Rightarrow> ('p, 'v) ins_state option" where
  "take_first s =
     (case in_queue s of [] \<Rightarrow> None
      | b # q \<Rightarrow> Some (s\<lparr>in_queue := q, in_block := Some b, in_cur := None, in_rows := 0\<rparr>))"

fun ins_loop ::
  "(nat \<Rightarrow> 'p \<Rightarrow> 'p option) \<Rightarrow> ins_worker \<Rightarrow> (bool \<times> client_event list) list \<Rightarrow> int \<Rightarrow> ('p, 'v) ins_state \<Rightarrow>
   (ins_end \<times> ('p, 'v) ins_state) outcome" where
  "ins_loop release W [] n s = Returned (EndOpen, s)"
| "ins_loop release W ((stop, es) # ts) n s =
     (if stop then Returned (EndCanceled, s)
      else case take_first s of
        None \<Rightarrow> if in_closed s then Returned (EndClosed, s) else Blocked
      | Some s \<Rightarrow>
          (case ins_batch release W es s of
             Blocked \<Rightarrow> Blocked
           | Panicked \<Rightarrow> Panicked
           | Returned (err, s) \<Rightarrow>
               if err = Some False then Returned (EndErr, s)
               else let n = n + 1 in
                 if 0 < iw_retirement W \<and> iw_retirement W \<le> n - iw_initial W then Returned (EndRetired, s)
                 else ins_loop release W ts n s))"

definition ins_Run ::
  "(nat \<Rightarrow> 'p \<Rightarrow> 'p option) \<Rightarrow> ins_worker \<Rightarrow> (bool \<times> client_event list) list \<Rightarrow> ('p, 'v) ins_state \<Rightarrow>
   (ins_end \<times> ('p, 'v) ins_state) outcome" where
  "ins_Run release W ts s = ins_loop release W ts (iw_initial W) s"

section \<open>The scheduler\<close>

text \<open>
  The look at the queue before a worker starts: when it saw the queue empty, a block that has
  arrived since is received. The flag says that the queue is closed, the list is what was received.
\<close>

definition peek_queue :: "bool \<Rightarrow> bool \<Rightarrow> nat list \<Rightarrow> bool \<times> nat list \<times> nat list" where
  "peek_queue saw_empty closed q =
     (if saw_empty
      then (case q of [] \<Rightarrow> (closed, [], []) | b # q' \<Rightarrow> (False, [b], q'))
      else (False, [], q))"

definition baseBackoff :: int where "baseBackoff = 500 * 1000000"
definition maxBackoff :: int where "maxBackoff = 30 * 1000000000"

text \<open>What \<open>runWorker\<close> does after a worker ends: stop (\<open>None\<close>), or wait and go on with a backoff.\<close>

definition after_worker :: "ins_end \<Rightarrow> int \<Rightarrow> (int \<times> int) option" where
  "after_worker e backoff =
     (case e of
        EndErr \<Rightarrow> Some (backoff, min (backoff * 2) maxBackoff)
      | EndRetired \<Rightarrow> Some (0, baseBackoff)
      | _ \<Rightarrow> None)"

fun backoffs :: "ins_end list \<Rightarrow> int \<Rightarrow> int list" where
  "backoffs [] b = []"
| "backoffs (e # es) b = (case after_worker e b of None \<Rightarrow> [] | Some (w, b) \<Rightarrow> w # backoffs es b)"


section \<open>Every block comes home\<close>

text \<open>All blocks have the same number of columns, and no column belongs to two of them.\<close>

definition own_ok :: "ins_worker \<Rightarrow> bool" where
  "own_ok W \<longleftrightarrow>
     iw_own W (iw_insertBlock W) \<noteq> [] \<and>
     (\<forall>b. length (iw_own W b) = length (iw_own W (iw_insertBlock W)) \<and>
       (b \<noteq> iw_insertBlock W \<longrightarrow> set (iw_own W b) \<inter> set (iw_own W (iw_insertBlock W)) = {}))"

definition held :: "('p, 'v) ins_state \<Rightarrow> nat list" where
  "held s = (case in_block s of None \<Rightarrow> [] | Some b \<Rightarrow> [b])"

text \<open>Either all inputs refer to their own columns, or those of the insert block and one held block are swapped.\<close>

definition ins_home :: "ins_worker \<Rightarrow> ('p, 'v) ins_state \<Rightarrow> bool" where
  "ins_home W s \<longleftrightarrow>
     in_input s = (case in_cur s of None \<Rightarrow> iw_own W
       | Some x \<Rightarrow> (iw_own W)(iw_insertBlock W := iw_own W x, x := iw_own W (iw_insertBlock W))) \<and>
     (\<forall>x. in_cur s = Some x \<longrightarrow> in_block s = Some x)"

definition ins_inv ::
  "(nat multiset \<Rightarrow> 'p \<Rightarrow> bool) \<Rightarrow> ins_worker \<Rightarrow> nat list \<Rightarrow> ('p, 'v) ins_state \<Rightarrow> bool" where
  "ins_inv I W others s \<longleftrightarrow>
     own_ok W \<and> ins_home W s \<and> iw_insertBlock W \<notin> set (held s @ in_queue s) \<and>
     I (mset (others @ held s @ in_queue s)) (in_pool s)"

text \<open>The contents of a block, its rows, and the block that waits to be loaded.\<close>

definition contents :: "ins_worker \<Rightarrow> ('p, 'v) ins_state \<Rightarrow> nat \<Rightarrow> 'v list list" where
  "contents W s b = map (in_cols s) (iw_own W b)"

definition block_rows :: "'v list list \<Rightarrow> int" where
  "block_rows c = int (length (hd c))"

definition pending :: "('p, 'v) ins_state \<Rightarrow> nat list" where
  "pending s = (if in_cur s = None then held s else [])"

lemma reset_frame [simp]:
  "in_input (reset_insertBlock W s) = in_input s" "in_queue (reset_insertBlock W s) = in_queue s"
  "in_closed (reset_insertBlock W s) = in_closed s" "in_pool (reset_insertBlock W s) = in_pool s"
  "in_block (reset_insertBlock W s) = in_block s" "in_cur (reset_insertBlock W s) = in_cur s"
  "in_rows (reset_insertBlock W s) = in_rows s" "in_sent (reset_insertBlock W s) = in_sent s"
  "held (reset_insertBlock W s) = held s" "pending (reset_insertBlock W s) = pending s"
  by (simp_all add: reset_insertBlock_def held_def pending_def)

lemma reset_contents:
  "own_ok W \<Longrightarrow> b \<noteq> iw_insertBlock W \<Longrightarrow> contents W (reset_insertBlock W s) b = contents W s b"
  by (auto simp: contents_def reset_insertBlock_def own_ok_def)

lemma reset_inv [simp]: "ins_inv I W others (reset_insertBlock W s) = ins_inv I W others s"
  by (simp add: ins_inv_def ins_home_def)

lemma swap_full:
  "length (h a) = length (h b) \<Longrightarrow> swapInput a b h = Some (h(a := h b, b := h a))"
  by (simp add: swapInput_def)

lemma swap_back_home:
  assumes "own_ok W" "ins_home W s" "in_cur s = Some x" "x \<noteq> iw_insertBlock W"
  shows "swap_back W s = Returned (s\<lparr>in_input := iw_own W\<rparr>)"
proof -
  have l: "length (iw_own W x) = length (iw_own W (iw_insertBlock W))" using assms(1) by (simp add: own_ok_def)
  have i: "in_input s = (iw_own W)(iw_insertBlock W := iw_own W x, x := iw_own W (iw_insertBlock W))"
    using assms(2,3) by (simp add: ins_home_def)
  have "swapInput x (iw_insertBlock W) (in_input s) = Some (iw_own W)"
    using l assms(4) by (subst swap_full) (auto simp: i fun_eq_iff)
  then show ?thesis by (simp add: swap_back_def assms(3))
qed

context pool
begin

text \<open>Giving the current block back, its own columns restored.\<close>

lemma give_back:
  assumes "ins_inv inv W others s" and "in_block s = Some b"
  shows "\<exists>p. (case swap_back W s of Returned s \<Rightarrow> release_current release s | e \<Rightarrow> e) =
      Returned (s\<lparr>in_input := iw_own W, in_pool := p, in_block := None, in_cur := None\<rparr>) \<and>
    ins_inv inv W others (s\<lparr>in_input := iw_own W, in_pool := p, in_block := None, in_cur := None\<rparr>)"
proof -
  have i: "inv (add_mset b (mset (others @ in_queue s))) (in_pool s)"
    and ph: "b \<noteq> iw_insertBlock W" "iw_insertBlock W \<notin> set (in_queue s)" and h: "own_ok W" "ins_home W s"
    using assms by (auto simp: ins_inv_def held_def)
  obtain p where p: "release b (in_pool s) = Some p" "inv (mset (others @ in_queue s)) p"
    using release_inv [OF i] by blast
  have "swap_back W s = Returned (s\<lparr>in_input := iw_own W\<rparr>)"
  proof (cases "in_cur s")
    case None
    then have "in_input s = iw_own W" using h(2) by (simp add: ins_home_def)
    then show ?thesis by (simp add: swap_back_def None)
  next
    case (Some x)
    then have "x = b" using h(2) assms(2) by (simp add: ins_home_def)
    then show ?thesis using swap_back_home [OF h Some] ph by blast
  qed
  with p assms(2) h ph show ?thesis
    by (intro exI [of _ p]) (simp add: release_current_def ins_inv_def ins_home_def held_def)
qed

end


lemma load_block_home:
  assumes "own_ok W" "in_input s = iw_own W" "b \<noteq> iw_insertBlock W"
  shows "load_block W b s = Returned (s\<lparr>in_cur := Some b,
      in_input := (iw_own W)(iw_insertBlock W := iw_own W b, b := iw_own W (iw_insertBlock W)),
      in_rows := in_rows s + block_rows (contents W s b)\<rparr>)"
proof -
  have l: "length (iw_own W (iw_insertBlock W)) = length (iw_own W b)" "iw_own W (iw_insertBlock W) \<noteq> []"
    using assms(1) unfolding own_ok_def by metis+
  then have "iw_own W b \<noteq> []" by (metis length_0_conv)
  with l show ?thesis using assms(3)
    by (simp add: load_block_def assms(2) swap_full Let_def block_rows_def contents_def hd_map)
qed

definition input_effect :: "ins_worker \<Rightarrow> bool \<Rightarrow> ('p, 'v) ins_state \<Rightarrow> ('p, 'v) ins_state \<Rightarrow> bool" where
  "input_effect W eof s s' \<longleftrightarrow>
     (\<forall>b. b \<noteq> iw_insertBlock W \<longrightarrow> contents W s' b = contents W s b) \<and>
     in_closed s' = in_closed s \<and> in_sent s' = in_sent s \<and>
     (if eof then in_rows s' = in_rows s \<and> in_cur s' = None \<and> pending s @ in_queue s = pending s' @ in_queue s'
      else \<exists>b. in_cur s' = Some b \<and> in_rows s \<le> iw_batchSize W \<and>
        in_rows s' = in_rows s + block_rows (contents W s b) \<and> pending s @ in_queue s = b # in_queue s')"

definition ends :: "ins_worker \<Rightarrow> wait \<Rightarrow> ('p, 'v) ins_state \<Rightarrow> bool" where
  "ends W w s \<longleftrightarrow> iw_batchSize W < in_rows s \<or> pending s = [] \<and> (w \<noteq> WaitRecv \<or> in_queue s = [])"

lemma next_block_None:
  "in_cur s = None \<Longrightarrow> next_block w s = None \<longleftrightarrow> pending s = [] \<and> (w \<noteq> WaitRecv \<or> in_queue s = [])"
  by (auto simp: next_block_def pending_def held_def split: option.splits wait.splits list.splits)

lemma next_block_cases:
  assumes "next_block w s = Some (b, t)" and "in_cur s = None"
  shows "pending s @ in_queue s = b # in_queue t \<and> in_block t = Some b \<and>
    t = s\<lparr>in_queue := in_queue t, in_block := Some b\<rparr>"
  using assms by (auto simp: next_block_def pending_def held_def split: option.splits wait.splits list.splits)

text \<open>The second half, once no block is swapped in.\<close>

lemma OnInput_tail:
  assumes "ins_inv I W others s" and "in_cur s = None"
  shows "\<exists>eof s'. (if iw_batchSize W < in_rows s then Returned (True, s)
      else case next_block w s of None \<Rightarrow> Returned (True, s)
        | Some (b, s) \<Rightarrow> (case load_block W b s of
            Blocked \<Rightarrow> Blocked | Panicked \<Rightarrow> Panicked | Returned s \<Rightarrow> Returned (False, s))) = Returned (eof, s') \<and>
    ins_inv I W others s' \<and> input_effect W eof s s' \<and> eof = ends W w s"
proof (cases "iw_batchSize W < in_rows s \<or> next_block w s = None")
  case True
  then have "(if iw_batchSize W < in_rows s then Returned (True, s)
      else case next_block w s of None \<Rightarrow> Returned (True, s)
        | Some (b, s) \<Rightarrow> (case load_block W b s of
            Blocked \<Rightarrow> Blocked | Panicked \<Rightarrow> Panicked | Returned s \<Rightarrow> Returned (False, s))) = Returned (True, s)"
    by (elim disjE) simp_all
  moreover have "input_effect W True s s" using assms(2) by (simp add: input_effect_def)
  moreover have "True = ends W w s" using True next_block_None [OF assms(2)] by (simp add: ends_def)
  ultimately show ?thesis using assms(1) by blast
next
  case False
  then obtain b t where n: "next_block w s = Some (b, t)" and r: "in_rows s \<le> iw_batchSize W"
    by (metis linorder_not_less not_None_eq surj_pair)
  have h: "in_input s = iw_own W" "own_ok W" using assms by (auto simp: ins_inv_def ins_home_def)
  note c = next_block_cases [OF n assms(2)]
  have t: "pending s @ in_queue s = b # in_queue t" "in_block t = Some b" using c by blast+
  obtain q where q: "t = s\<lparr>in_queue := q, in_block := Some b\<rparr>" using c by blast
  have f: "in_cur t = None" "in_input t = in_input s" "in_cols t = in_cols s" "in_rows t = in_rows s"
    "in_pool t = in_pool s" "in_closed t = in_closed s" "in_sent t = in_sent s"
    using assms(2) by (simp_all add: q)
  have p: "pending s = held s" using assms(2) by (simp add: pending_def)
  have ht: "held t @ in_queue t = held s @ in_queue s" using t(1,2) p by (simp add: held_def)
  have "b \<in> set (held s @ in_queue s)" using t(1) p by (metis list.set_intros(1))
  then have b: "b \<noteq> iw_insertBlock W" using assms(1) unfolding ins_inv_def by metis
  have l: "load_block W b t = Returned (t\<lparr>in_cur := Some b,
      in_input := (iw_own W)(iw_insertBlock W := iw_own W b, b := iw_own W (iw_insertBlock W)),
      in_rows := in_rows s + block_rows (contents W s b)\<rparr>)" (is "_ = Returned ?u")
    using load_block_home [OF h(2) _ b, of t] h(1) f(2-4) by (simp add: contents_def)
  have u: "held ?u @ in_queue ?u = held s @ in_queue s" using ht t(2) by (simp add: held_def)
  have "ins_inv I W others ?u"
    unfolding ins_inv_def u append_assoc using assms(1) t(2) f(5) h(2)
    by (simp add: ins_inv_def ins_home_def)
  moreover have "input_effect W False s ?u" 
    using r t(1) f by (simp add: input_effect_def contents_def)
  moreover have "(if iw_batchSize W < in_rows s then Returned (True, s)
      else case next_block w s of None \<Rightarrow> Returned (True, s)
        | Some (b, s) \<Rightarrow> (case load_block W b s of
            Blocked \<Rightarrow> Blocked | Panicked \<Rightarrow> Panicked | Returned s \<Rightarrow> Returned (False, s))) = Returned (False, ?u)"
    using r by (simp only: n l option.case prod.case outcome.case if_False not_less [symmetric])
  moreover have "False = ends W w s" using False next_block_None [OF assms(2)] by (simp add: ends_def)
  ultimately show ?thesis by blast
qed

context pool
begin

lemma OnInput_ok:
  assumes "ins_inv inv W others s"
  shows "\<exists>eof s'. OnInput release W w s = Returned (eof, s') \<and> ins_inv inv W others s' \<and> input_effect W eof s s' \<and>
    eof = ends W w s"
proof -
  define r where "r = reset_insertBlock W s"
  have r: "ins_inv inv W others r" "\<And>b. b \<noteq> iw_insertBlock W \<Longrightarrow> contents W r b = contents W s b"
    using assms reset_contents [of W _ s] by (simp_all add: r_def) (simp add: ins_inv_def)
  have f: "in_queue r = in_queue s" "in_cur r = in_cur s" "in_rows r = in_rows s" "in_closed r = in_closed s"
    "in_sent r = in_sent s" "pending r = pending s" "held r = held s"
    by (simp_all add: r_def)
  have "\<exists>t. (if in_cur r = None then Returned r
      else case swap_back W r of Returned s \<Rightarrow> release_current release s | e \<Rightarrow> e) = Returned t \<and>
    ins_inv inv W others t \<and> in_cur t = None \<and> in_queue t = in_queue s \<and> pending t = pending s \<and> in_rows t = in_rows s \<and>
    in_closed t = in_closed s \<and> in_sent t = in_sent s \<and> in_cols t = in_cols r"
  proof (cases "in_cur r")
    case None
    then show ?thesis using r f by auto
  next
    case (Some x)
    then have "in_block r = Some x" using r(1) by (simp add: ins_inv_def ins_home_def)
    from give_back [OF r(1) this] Some f show ?thesis by (auto simp: pending_def held_def)
  qed
  then obtain t where t: "(if in_cur r = None then Returned r
      else case swap_back W r of Returned s \<Rightarrow> release_current release s | e \<Rightarrow> e) = Returned t"
    "ins_inv inv W others t" "in_cur t = None" "in_queue t = in_queue s" "pending t = pending s" "in_rows t = in_rows s"
    "in_closed t = in_closed s" "in_sent t = in_sent s" "in_cols t = in_cols r" by blast
  have "\<And>b. b \<noteq> iw_insertBlock W \<Longrightarrow> contents W t b = contents W s b"
    using r(2) t(9) by (simp add: contents_def)
  then have e: "input_effect W eof t s' \<Longrightarrow> ins_inv inv W others s' \<Longrightarrow> input_effect W eof s s'" for eof s'
    using t(2,3,4-8) unfolding input_effect_def ins_inv_def pending_def held_def
    by (auto split: if_splits option.splits)
  have "ends W w t = ends W w s" using t(4-6) by (simp add: ends_def)
  with OnInput_tail [OF t(2,3), of w] e show ?thesis
    unfolding OnInput_def Let_def r_def [symmetric] t(1) outcome.case by blast
qed

end


text \<open>After the leftovers are gone no block is held, and every input refers to its own columns.\<close>

definition at_rest :: "ins_worker \<Rightarrow> ('p, 'v) ins_state \<Rightarrow> bool" where
  "at_rest W s \<longleftrightarrow> in_block s = None \<and> in_cur s = None \<and> in_input s = iw_own W"

definition rows_of :: "ins_worker \<Rightarrow> ('p, 'v) ins_state \<Rightarrow> nat list \<Rightarrow> int" where
  "rows_of W s bs = (\<Sum>b \<leftarrow> bs. block_rows (contents W s b))"

text \<open>What a query did: it sent the blocks \<open>bs\<close>.\<close>

definition query_effect ::
  "ins_worker \<Rightarrow> nat list \<Rightarrow> ('p, 'v) ins_state \<Rightarrow> ('p, 'v) ins_state \<Rightarrow> bool" where
  "query_effect W bs s s' \<longleftrightarrow>
     (\<forall>b. b \<noteq> iw_insertBlock W \<longrightarrow> contents W s' b = contents W s b) \<and>
     in_closed s' = in_closed s \<and> in_sent s' = in_sent s @ map (contents W s) bs \<and>
     pending s @ in_queue s = bs @ pending s' @ in_queue s' \<and>
     in_rows s' = in_rows s + rows_of W s bs \<and>
     (bs \<noteq> [] \<longrightarrow> in_rows s + rows_of W s (butlast bs) \<le> iw_batchSize W)"

lemma query_effect_none: "input_effect W True s s' \<Longrightarrow> query_effect W [] s s'"
  by (simp add: input_effect_def query_effect_def rows_of_def)

lemma query_effect_refl: "query_effect W [] s s"
  by (simp add: query_effect_def rows_of_def)

lemma rows_of_cong:
  "(\<And>b. b \<in> set bs \<Longrightarrow> contents W t b = contents W s b) \<Longrightarrow> rows_of W t bs = rows_of W s bs"
  unfolding rows_of_def by (induction bs) simp_all

lemma query_effect_step:
  assumes i: "ins_inv I W others s" and e: "input_effect W False s s1" and i1: "ins_inv I W others s1"
    and q: "query_effect W bs (s1\<lparr>in_sent := in_sent s1 @ [map (in_cols s1) (in_input s1 (iw_insertBlock W))]\<rparr>) s'"
  shows "\<exists>b. query_effect W (b # bs) s s'"
proof -
  let ?t = "s1\<lparr>in_sent := in_sent s1 @ [map (in_cols s1) (in_input s1 (iw_insertBlock W))]\<rparr>"
  obtain b where b: "in_cur s1 = Some b" "in_rows s \<le> iw_batchSize W"
      "in_rows s1 = in_rows s + block_rows (contents W s b)" "pending s @ in_queue s = b # in_queue s1"
    and c: "\<And>x. x \<noteq> iw_insertBlock W \<Longrightarrow> contents W s1 x = contents W s x"
    and k: "in_closed s1 = in_closed s" "in_sent s1 = in_sent s"
    using e by (auto simp: input_effect_def)
  have "set (pending s @ in_queue s) \<subseteq> set (held s @ in_queue s)" by (auto simp: pending_def)
  then have nph: "x \<noteq> iw_insertBlock W" if "x \<in> set (b # in_queue s1)" for x
    using i that unfolding b(4) [symmetric] ins_inv_def by blast
  have "in_input s1 (iw_insertBlock W) = iw_own W b"
    using i1 b(1) nph [of b] by (simp add: ins_inv_def ins_home_def)
  then have sent: "map (in_cols s1) (in_input s1 (iw_insertBlock W)) = contents W s b"
    using c [of b] nph [of b] by (simp add: contents_def)
  have ct: "contents W ?t x = contents W s1 x" for x by (simp add: contents_def)
  have bs: "set bs \<subseteq> set (in_queue s1)" "in_queue s1 = bs @ pending s' @ in_queue s'"
    using q b(1) by (auto simp: query_effect_def pending_def)
  have cs: "contents W ?t x = contents W s x" if "x \<in> set bs" for x
    using that bs(1) c nph ct by (metis list.set_intros(2) subsetD)
  have m: "map (contents W ?t) bs = map (contents W s) bs" using cs by simp
  have r: "rows_of W ?t xs = rows_of W s xs" if "set xs \<subseteq> set bs" for xs
    using cs that by (intro rows_of_cong) blast
  have rb: "rows_of W s (b # xs) = block_rows (contents W s b) + rows_of W s xs" for xs
    by (simp add: rows_of_def)
  have "set (butlast bs) \<subseteq> set bs" by (auto dest: in_set_butlastD)
  note r2 = r [OF this] r [OF subset_refl]
  have q1: "contents W s' x = contents W ?t x" if "x \<noteq> iw_insertBlock W" for x
    using q that unfolding query_effect_def by blast
  have q2: "in_closed s' = in_closed ?t" "in_sent s' = in_sent ?t @ map (contents W ?t) bs"
    "in_rows s' = in_rows ?t + rows_of W ?t bs" "bs \<noteq> [] \<Longrightarrow> in_rows ?t + rows_of W ?t (butlast bs) \<le> iw_batchSize W"
    using q unfolding query_effect_def by blast+
  have "query_effect W (b # bs) s s'"
    unfolding query_effect_def
  proof (intro conjI allI impI)
    fix x assume "x \<noteq> iw_insertBlock W"
    with q1 c ct show "contents W s' x = contents W s x" by simp
  next
    show "in_closed s' = in_closed s" using q2(1) k by simp
    show "in_sent s' = in_sent s @ map (contents W s) (b # bs)"
      using q2(2) [unfolded m] k by (simp add: sent)
    show "pending s @ in_queue s = (b # bs) @ pending s' @ in_queue s'" using b(4) bs(2) by simp
    show "in_rows s' = in_rows s + rows_of W s (b # bs)" using q2(3) b(3) unfolding r2 rb by simp
    show "in_rows s + rows_of W s (butlast (b # bs)) \<le> iw_batchSize W"
    proof (cases "bs = []")
      case True
      then show ?thesis using b(2) by (simp add: rows_of_def)
    next
      case False
      then show ?thesis using q2(4) b(3) unfolding r2 by (simp add: rb)
    qed
  qed
  then show ?thesis by blast
qed

context pool
begin

lemma do_query_ok:
  assumes "ins_inv inv W others s"
  shows "\<exists>err s' bs. do_query release W es s = Returned (err, s') \<and> ins_inv inv W others s' \<and> query_effect W bs s s'"
  using assms
proof (induction es arbitrary: s)
  case Nil
  then show ?case using query_effect_refl [of W s] by auto
next
  case (Cons e es)
  show ?case
  proof (cases e)
    case (Fails cancelled)
    then show ?thesis using Cons.prems query_effect_refl [of W s] by auto
  next
    case (CallInput w)
    obtain eof s1 where s1: "OnInput release W w s = Returned (eof, s1)" "ins_inv inv W others s1"
        "input_effect W eof s s1"
      using OnInput_ok [OF Cons.prems, of w] by blast
    show ?thesis
    proof (cases eof)
      case True
      then show ?thesis using s1 CallInput query_effect_none by fastforce
    next
      case False
      let ?t = "s1\<lparr>in_sent := in_sent s1 @ [map (in_cols s1) (in_input s1 (iw_insertBlock W))]\<rparr>"
      have "ins_inv inv W others ?t" using s1(2) by (simp add: ins_inv_def ins_home_def held_def)
      from Cons.IH [OF this] obtain err s' bs where
        s': "do_query release W es ?t = Returned (err, s')" "ins_inv inv W others s'" "query_effect W bs ?t s'" by blast
      have "input_effect W False s s1" using s1(3) False by simp
      from query_effect_step [OF Cons.prems this s1(2) s'(3)] s'(1,2) s1(1) False CallInput
      show ?thesis by auto
    qed
  qed
qed

lemma leftover_ok:
  assumes "ins_inv inv W others s"
  shows "\<exists>s'. leftover release W s = Returned s' \<and> ins_inv inv W others s' \<and> at_rest W s' \<and>
    (\<forall>b. b \<noteq> iw_insertBlock W \<longrightarrow> contents W s' b = contents W s b) \<and>
    in_closed s' = in_closed s \<and> in_sent s' = in_sent s \<and> in_rows s' = in_rows s \<and> in_queue s' = in_queue s"
proof (cases "in_block s")
  case None
  then have "in_cur s = None" using assms by (auto simp: ins_inv_def ins_home_def)
  with None assms show ?thesis by (auto simp: leftover_def at_rest_def ins_inv_def ins_home_def)
next
  case (Some b)
  let ?r = "if in_cur s = None then s else reset_insertBlock W s"
  have r: "ins_inv inv W others ?r" "in_block ?r = Some b" using assms Some by auto
  have c: "\<And>x. x \<noteq> iw_insertBlock W \<Longrightarrow> contents W ?r x = contents W s x"
    using assms reset_contents [of W _ s] by (simp add: ins_inv_def)
  from give_back [OF r] obtain p where p: "(case swap_back W ?r of Returned s \<Rightarrow> release_current release s | e \<Rightarrow> e) =
      Returned (?r\<lparr>in_input := iw_own W, in_pool := p, in_block := None, in_cur := None\<rparr>)"
    "ins_inv inv W others (?r\<lparr>in_input := iw_own W, in_pool := p, in_block := None, in_cur := None\<rparr>)" by blast
  have "leftover release W s = Returned (?r\<lparr>in_input := iw_own W, in_pool := p, in_block := None, in_cur := None\<rparr>)"
    using p(1) Some by (simp add: leftover_def)
  with p(2) c show ?thesis by (intro exI conjI) (assumption | simp add: at_rest_def contents_def)+
qed

end


section \<open>Batches\<close>

text \<open>
  What one INSERT should take from the queue: blocks in order, until the rows taken exceed the
  batch size.
\<close>

fun batch_blocks :: "int \<Rightarrow> (nat \<Rightarrow> int) \<Rightarrow> int \<Rightarrow> nat list \<Rightarrow> nat list" where
  "batch_blocks limit rows acc [] = []"
| "batch_blocks limit rows acc (b # bs) = (if limit < acc then [] else b # batch_blocks limit rows (acc + rows b) bs)"

lemma batch_blocks_cong:
  "(\<And>b. b \<in> set bs \<Longrightarrow> f b = g b) \<Longrightarrow> batch_blocks l f acc bs = batch_blocks l g acc bs"
  by (induction bs arbitrary: acc) auto

lemma input_effect_eq:
  assumes "ins_inv I W others s" and "input_effect W False s s1" and "ins_inv I W others s1"
  shows "\<exists>b. pending s @ in_queue s = b # in_queue s1 \<and> pending s1 = [] \<and> in_rows s1 = in_rows s + block_rows (contents W s b) \<and>
    in_rows s \<le> iw_batchSize W \<and> (\<forall>x \<in> set (in_queue s1). contents W s1 x = contents W s x) \<and>
    map (in_cols s1) (in_input s1 (iw_insertBlock W)) = contents W s b \<and> in_sent s1 = in_sent s"
proof -
  obtain b where b: "in_cur s1 = Some b" "in_rows s \<le> iw_batchSize W"
      "in_rows s1 = in_rows s + block_rows (contents W s b)" "pending s @ in_queue s = b # in_queue s1"
    and c: "\<And>x. x \<noteq> iw_insertBlock W \<Longrightarrow> contents W s1 x = contents W s x" and k: "in_sent s1 = in_sent s"
    using assms(2) by (auto simp: input_effect_def)
  have "set (pending s @ in_queue s) \<subseteq> set (held s @ in_queue s)" by (auto simp: pending_def)
  then have nph: "x \<noteq> iw_insertBlock W" if "x \<in> set (b # in_queue s1)" for x
    using assms(1) that unfolding b(4) [symmetric] ins_inv_def by blast
  have "in_input s1 (iw_insertBlock W) = iw_own W b"
    using assms(3) b(1) nph [of b] by (simp add: ins_inv_def ins_home_def)
  then have "map (in_cols s1) (in_input s1 (iw_insertBlock W)) = contents W s b"
    using c [of b] nph [of b] by (simp add: contents_def)
  moreover have "\<forall>x \<in> set (in_queue s1). contents W s1 x = contents W s x" using c nph by simp
  ultimately show ?thesis using b k by (intro exI [of _ b]) (simp add: pending_def)
qed

context pool
begin

text \<open>A client that keeps asking while blocks are there: it ends with the size, or with the queue.\<close>

lemma do_query_exact:
  assumes "ins_inv inv W others s" and "length (pending s @ in_queue s) < k"
  shows "\<exists>s'. do_query release W (replicate k (CallInput WaitRecv)) s = Returned (None, s') \<and>
    in_sent s' = in_sent s @ map (contents W s)
      (batch_blocks (iw_batchSize W) (\<lambda>b. block_rows (contents W s b)) (in_rows s) (pending s @ in_queue s)) \<and>
    ins_inv inv W others s'"
  using assms
proof (induction k arbitrary: s)
  case 0
  then show ?case by simp
next
  case (Suc k)
  let ?B = "\<lambda>s. batch_blocks (iw_batchSize W) (\<lambda>b. block_rows (contents W s b)) (in_rows s) (pending s @ in_queue s)"
  obtain eof s1 where s1: "OnInput release W WaitRecv s = Returned (eof, s1)" "ins_inv inv W others s1"
      "input_effect W eof s s1" "eof = ends W WaitRecv s"
    using OnInput_ok [OF Suc.prems(1), of WaitRecv] by blast
  show ?case
  proof (cases eof)
    case True
    then have "?B s = []" using s1(4) by (cases "pending s @ in_queue s") (auto simp: ends_def)
    moreover have "in_sent s1 = in_sent s" using s1(3) True by (simp add: input_effect_def)
    moreover have "do_query release W (replicate (Suc k) (CallInput WaitRecv)) s = Returned (None, s1)"
      using s1(1) True by (cases k) simp_all
    ultimately show ?thesis using s1(2) by simp
  next
    case False
    let ?t = "s1\<lparr>in_sent := in_sent s1 @ [map (in_cols s1) (in_input s1 (iw_insertBlock W))]\<rparr>"
    have e: "input_effect W False s s1" using s1(3) False by simp
    obtain b where b: "pending s @ in_queue s = b # in_queue s1" "pending s1 = []"
        "in_rows s1 = in_rows s + block_rows (contents W s b)" "in_rows s \<le> iw_batchSize W"
        "\<forall>x \<in> set (in_queue s1). contents W s1 x = contents W s x"
        "map (in_cols s1) (in_input s1 (iw_insertBlock W)) = contents W s b" "in_sent s1 = in_sent s"
      using input_effect_eq [OF Suc.prems(1) e s1(2)] by blast
    have t: "pending ?t = []" "contents W ?t x = contents W s1 x" for x
      using b(2) by (auto simp: pending_def held_def contents_def split: if_splits)
    have "ins_inv inv W others ?t" using s1(2) by (simp add: ins_inv_def ins_home_def held_def)
    from Suc.IH [OF this] obtain s' where s': "do_query release W (replicate k (CallInput WaitRecv)) ?t = Returned (None, s')"
        "in_sent s' = in_sent ?t @ map (contents W ?t) (?B ?t)" "ins_inv inv W others s'"
      using Suc.prems(2) b(1) t(1) by auto
    have B: "?B s = b # ?B ?t"
      unfolding t b(1) using b(3,4,5) by (auto intro: batch_blocks_cong)
    have sub: "set (batch_blocks l f acc xs) \<subseteq> set xs" for l f acc and xs :: "nat list"
      by (induction xs arbitrary: acc) auto
    have "set (?B ?t) \<subseteq> set (pending ?t @ in_queue ?t)" by (rule sub)
    then have subQ: "set (?B ?t) \<subseteq> set (in_queue s1)" unfolding t(1) by simp
    have "map (contents W ?t) (?B ?t) = map (contents W s) (?B ?t)"
      using subQ b(5) by (intro map_cong refl) (auto simp: t(2))
    then have "in_sent s' = in_sent s @ map (contents W s) (?B s)"
      using s'(2) b(6,7) unfolding B by simp
    with s'(1,3) s1(1) False show ?thesis by auto
  qed
qed

lemma ins_batch_ok:
  assumes "ins_inv inv W others s"
  shows "\<exists>err s' bs lost. ins_batch release W es s = Returned (err, s') \<and> ins_inv inv W others s' \<and> at_rest W s' \<and>
    (\<forall>b. b \<noteq> iw_insertBlock W \<longrightarrow> contents W s' b = contents W s b) \<and> in_closed s' = in_closed s \<and>
    in_sent s' = in_sent s @ map (contents W s) bs \<and> pending s @ in_queue s = bs @ lost @ in_queue s'"
proof -
  obtain err s1 bs where q: "do_query release W es s = Returned (err, s1)" "ins_inv inv W others s1" "query_effect W bs s s1"
    using do_query_ok [OF assms, of es] by blast
  obtain s' where l: "leftover release W s1 = Returned s'" "ins_inv inv W others s'" "at_rest W s'"
      "\<And>b. b \<noteq> iw_insertBlock W \<Longrightarrow> contents W s' b = contents W s1 b"
      "in_closed s' = in_closed s1" "in_sent s' = in_sent s1" "in_queue s' = in_queue s1"
    using leftover_ok [OF q(2)] by blast
  have "ins_batch release W es s = Returned (err, s')" using q(1) l(1) by (simp add: ins_batch_def)
  moreover have "pending s @ in_queue s = bs @ pending s1 @ in_queue s'" using q(3) l(7) by (simp add: query_effect_def)
  moreover have "in_sent s' = in_sent s @ map (contents W s) bs" "in_closed s' = in_closed s"
    "\<forall>b. b \<noteq> iw_insertBlock W \<longrightarrow> contents W s' b = contents W s b"
    using q(3) l(4-6) by (simp_all add: query_effect_def)
  ultimately show ?thesis using l(2,3) by blast
qed

end


section \<open>Whole runs\<close>

text \<open>A run takes blocks from the front of the queue and sends some of them, in order.\<close>

definition run_effect :: "ins_worker \<Rightarrow> ('p, 'v) ins_state \<Rightarrow> ('p, 'v) ins_state \<Rightarrow> bool" where
  "run_effect W s s' \<longleftrightarrow>
     (\<exists>taken bs. in_queue s = taken @ in_queue s' \<and> subseq bs taken \<and>
        in_sent s' = in_sent s @ map (contents W s) bs)"

lemma take_first_inv:
  assumes "ins_inv I W others s" and "at_rest W s" and "take_first s = Some t"
  shows "ins_inv I W others t \<and> contents W t = contents W s \<and> pending t @ in_queue t = in_queue s \<and>
    in_sent t = in_sent s \<and> in_closed t = in_closed s \<and> in_rows t = 0"
  using assms
  by (auto simp: take_first_def ins_inv_def ins_home_def at_rest_def held_def pending_def contents_def fun_eq_iff
      split: list.splits)

context pool
begin

lemma ins_loop_ok:
  assumes "ins_inv inv W others s" and "at_rest W s"
  shows "case ins_loop release W ts n s of
      Panicked \<Rightarrow> False | Blocked \<Rightarrow> \<not> in_closed s
    | Returned (e, s') \<Rightarrow> ins_inv inv W others s' \<and> at_rest W s' \<and> run_effect W s s'"
  using assms
proof (induction ts arbitrary: n s)
  case Nil
  then show ?case by (auto simp: run_effect_def)
next
  case (Cons turn ts)
  obtain stop es where turn: "turn = (stop, es)" by fastforce
  have none: "run_effect W s s" by (auto simp: run_effect_def)
  show ?case
  proof (cases "stop \<or> take_first s = None")
    case True
    then show ?thesis using Cons.prems none turn by auto
  next
    case False
    then obtain t where t: "take_first s = Some t" "\<not> stop" by auto
    note f = take_first_inv [OF Cons.prems t(1)]
    obtain err u bs lost where u: "ins_batch release W es t = Returned (err, u)" "ins_inv inv W others u" "at_rest W u"
        "\<And>b. b \<noteq> iw_insertBlock W \<Longrightarrow> contents W u b = contents W t b" "in_closed u = in_closed t"
        "in_sent u = in_sent t @ map (contents W t) bs" "pending t @ in_queue t = bs @ lost @ in_queue u"
      using ins_batch_ok [OF conjunct1 [OF f], of es] by blast
    have q: "in_queue s = (bs @ lost) @ in_queue u" using f u(7) by simp
    have sub: "subseq bs (bs @ lost)" by (rule prefix_imp_subseq) simp
    then have one: "run_effect W s u"
      using f u(6) q unfolding run_effect_def by (rule_tac exI [of _ "bs @ lost"], rule_tac exI [of _ bs]) simp
    have trans: "run_effect W u s' \<Longrightarrow> run_effect W s s'" for s'
    proof -
      assume "run_effect W u s'"
      then obtain taken cs where r: "in_queue u = taken @ in_queue s'" "subseq cs taken"
          "in_sent s' = in_sent u @ map (contents W u) cs" by (auto simp: run_effect_def)
      have "iw_insertBlock W \<notin> set (in_queue u)" using u(2) by (simp add: ins_inv_def)
      moreover have "set cs \<subseteq> set taken" using list_emb_set [OF r(2)] by blast
      ultimately have "\<forall>x \<in> set cs. contents W u x = contents W s x"
        using r(1) u(4) f by (metis (no_types, lifting) Un_iff set_append subsetD)
      then have "in_sent s' = in_sent s @ map (contents W s) (bs @ cs)" using r(3) u(6) f by simp
      moreover have "subseq (bs @ cs) ((bs @ lost) @ taken)" using sub r(2)
        by (rule list_emb_append_mono)
      ultimately show "run_effect W s s'" using q r(1) unfolding run_effect_def by auto
    qed
    have cl: "in_closed u = in_closed s" using u(5) f by simp
    show ?thesis
    proof (cases "err = Some False \<or> 0 < iw_retirement W \<and> iw_retirement W \<le> n + 1 - iw_initial W")
      case True
      then show ?thesis using t u(1,2,3) one turn by (auto simp: Let_def)
    next
      case False
      then have "ins_loop release W (turn # ts) n s = ins_loop release W ts (n + 1) u"
        using t u(1) turn by (auto simp: Let_def)
      with Cons.IH [OF u(2,3), of "n + 1"] trans cl show ?thesis by (auto split: outcome.splits)
    qed
  qed
qed

end


definition capped :: "nat \<Rightarrow> nat multiset \<Rightarrow> blockPool \<Rightarrow> bool" where
  "capped C out p \<longleftrightarrow> bp_inv out p \<and> bp_cap p = C"

lemma release_cap: "bp_Release b p = Some p' \<Longrightarrow> bp_cap p' = bp_cap p"
  by (auto simp: bp_Release_def dest!: bp_retire_cases split: prod.splits if_splits)

interpretation capped_pool: pool bp_Acquire bp_Release "capped C" for C
proof unfold_locales
  fix out p b p'
  assume "capped C out p" "bp_Acquire p = Some (b, p')"
  then show "capped C (add_mset b out) p'" using block_pool.acquire_inv
    by (auto simp: capped_def bp_Acquire_def split: list.splits)
next
  fix b out p
  assume "capped C (add_mset b out) p"
  then show "\<exists>p'. bp_Release b p = Some p' \<and> capped C out p'"
    using block_pool.release_inv [of b out p] release_cap unfolding capped_def by metis
next
  fix out p b
  assume "capped C out p"
  then show "count out b \<le> 1" using block_pool.inv_once unfolding capped_def by blast
qed

text \<open>The insert side of the pipeline: its queue and pool, and whatever the other workers hold.\<close>

definition ins_pipe :: "(nat \<times> nat) list \<Rightarrow> nat list \<Rightarrow> ('p, 'v) ins_state \<Rightarrow> 'p pipe" where
  "ins_pipe H L s = \<lparr>pi_pool = in_pool s, pi_held = H, pi_queue = in_queue s, pi_lost = L\<rparr>"

lemma reach_ins_inv:
  assumes "(pipe_step bp_Acquire bp_Release cap)\<^sup>*\<^sup>* (pipe_start n r) (ins_pipe H L s)"
    and "at_rest W s" and "own_ok W" and "iw_insertBlock W \<notin> set (in_queue s)"
  shows "ins_inv (capped (bp_cap (in_pool s))) W (map snd H @ L) s"
proof -
  have "bp_inv (mset (out_blocks (ins_pipe H L s))) (in_pool s)"
    using reach_inv [OF assms(1)] by (simp add: ins_pipe_def)
  then show ?thesis using assms(2-)
    by (simp add: ins_inv_def ins_home_def at_rest_def held_def capped_def ins_pipe_def out_blocks_def ac_simps)
qed

text \<open>
  C4. The insert worker returns what it takes: from any reachable state of the pipeline, whatever the
  client library does (ends a query, fails, is cancelled in the middle), a run never panics and
  never waits to release a block; at its end every input refers to its own columns again, no block
  is held, every block taken from the queue is back in the pool, and what was sent are the contents
  of blocks taken, in their order, none twice.
\<close>

theorem insert_run_home:
  assumes "(pipe_step bp_Acquire bp_Release cap)\<^sup>*\<^sup>* (pipe_start n r) (ins_pipe H L s)"
    and "at_rest W s" and "own_ok W" and "iw_insertBlock W \<notin> set (in_queue s)"
  shows "case ins_Run bp_Release W ts s of
      Panicked \<Rightarrow> False | Blocked \<Rightarrow> \<not> in_closed s
    | Returned (e, s') \<Rightarrow> at_rest W s' \<and> run_effect W s s' \<and>
        length (bp_chan (in_pool s')) + length (in_queue s') = length (bp_chan (in_pool s)) + length (in_queue s)"
proof -
  note i = reach_ins_inv [OF assms]
  have free: "length (bp_chan (in_pool s')) + length (in_queue s') = length (bp_chan (in_pool s)) + length (in_queue s)"
    if "ins_inv (capped (bp_cap (in_pool s))) W (map snd H @ L) s'" "at_rest W s'" for s'
    using that i assms(2) by (simp add: ins_inv_def capped_def bp_inv_def at_rest_def held_def)
  show ?thesis
    using capped_pool.ins_loop_ok [OF i assms(2), of ts "iw_initial W"] free
    unfolding ins_Run_def by (auto split: outcome.splits)
qed

section \<open>Sample worker\<close>

definition sample_insert :: insert_config where
  "sample_insert = \<lparr>ik_Enabled = True, ik_Threads = 4, ik_BatchSize = 2, ik_WorkerRetirementBatches = 8,
     ik_BalanceNodes = False, ik_ClickHouse = \<lparr>ck_Address = ''h'', ck_Secure = False, ck_Compression = [], ck_User = [],
     ck_Password = [], ck_Database = ''d'', ck_LogsTable = [], ck_TracesTable = [], ck_ProfilesTable = []\<rparr>\<rparr>"

text \<open>Three blocks of two columns in the queue, the insert block is 9; cell i of column c is \<open>(c, i)\<close>.\<close>

definition sample_own :: "nat \<Rightarrow> nat list" where "sample_own b = [2 * b, 2 * b + 1]"

definition sample_iw :: ins_worker where "sample_iw = ins_newWorker sample_insert sample_own 9 3"

definition sample_ins :: "(blockPool, nat \<times> nat) ins_state" where
  "sample_ins =
     \<lparr>in_cols = (\<lambda>c. [(c, 0), (c, 1)]), in_input = sample_own, in_queue = [0, 1, 2], in_closed = True,
      in_pool = (NewBlockPool 3 5)\<lparr>bp_chan := []\<rparr>, in_block = None, in_cur = None, in_rows = 0, in_sent = []\<rparr>"

lemma sample_own_ok: "own_ok sample_iw"
  by (auto simp: own_ok_def sample_iw_def ins_newWorker_def sample_own_def)

lemma sample_rest: "at_rest sample_iw sample_ins" "iw_insertBlock sample_iw \<notin> set (in_queue sample_ins)"
  by (simp_all add: at_rest_def sample_iw_def sample_ins_def ins_newWorker_def)


lemma sample_reach:
  "(pipe_step bp_Acquire bp_Release 3)\<^sup>*\<^sup>* (pipe_start 3 5) (ins_pipe [] [] sample_ins)"
  using reach_sent [of 3 3 3 5] by (simp add: ins_pipe_def sample_ins_def upt_rec numeral_2_eq_2)

theorem insert_run_home_witness:
  "case ins_Run bp_Release sample_iw [(False, [CallInput WaitRecv, CallInput WaitRecv, Fails True]), (False, [Fails False])]
      sample_ins of
      Panicked \<Rightarrow> False | Blocked \<Rightarrow> False | Returned (e, s') \<Rightarrow> at_rest sample_iw s' \<and>
        length (bp_chan (in_pool s')) + length (in_queue s') = 3"
  using insert_run_home [OF sample_reach sample_rest(1) sample_own_ok sample_rest(2),
      of "[(False, [CallInput WaitRecv, CallInput WaitRecv, Fails True]), (False, [Fails False])]"]
  by (auto simp: sample_ins_def split: outcome.splits)

lemma batch_blocks_spec:
  "prefix (batch_blocks l f acc bs) bs \<and>
   (batch_blocks l f acc bs \<noteq> [] \<longrightarrow> acc + (\<Sum>b \<leftarrow> butlast (batch_blocks l f acc bs). f b) \<le> l) \<and>
   (batch_blocks l f acc bs = bs \<or> l < acc + (\<Sum>b \<leftarrow> batch_blocks l f acc bs. f b))"
proof (induction bs arbitrary: acc)
  case (Cons b bs)
  then show ?case using Cons.IH [of "acc + f b"] by (auto simp: add.assoc)
qed simp




section \<open>Retirement\<close>

lemma initial_parts:
  "load_block (W\<lparr>iw_initial := i\<rparr>) b s = load_block W b s"
  "swap_back (W\<lparr>iw_initial := i\<rparr>) s = swap_back W s"
  "reset_insertBlock (W\<lparr>iw_initial := i\<rparr>) s = reset_insertBlock W s"
  "iw_batchSize (W\<lparr>iw_initial := i\<rparr>) = iw_batchSize W"
  by (simp_all add: load_block_def swap_back_def reset_insertBlock_def split: option.split)

lemma initial_OnInput: "OnInput release (W\<lparr>iw_initial := i\<rparr>) w s = OnInput release W w s"
  unfolding OnInput_def initial_parts ..

lemma initial_leftover: "leftover release (W\<lparr>iw_initial := i\<rparr>) s = leftover release W s"
  unfolding leftover_def initial_parts ..

lemma initial_query: "do_query release (W\<lparr>iw_initial := i\<rparr>) es s = do_query release W es s"
  by (induction release W es s rule: do_query.induct) (simp_all add: initial_OnInput split: outcome.splits)

lemma initial_batch: "ins_batch release (W\<lparr>iw_initial := i\<rparr>) es s = ins_batch release W es s"
  unfolding ins_batch_def initial_query initial_leftover ..

lemma initial_loop:
  fixes s :: "('p, 'v) ins_state"
  shows "ins_loop release (W\<lparr>iw_initial := i\<rparr>) ts (i + n) s = ins_loop release (W\<lparr>iw_initial := 0\<rparr>) ts n s"
proof (induction ts arbitrary: n s)
  case (Cons turn ts)
  have e: "ins_loop release (W\<lparr>iw_initial := i\<rparr>) ts (i + n + 1) u = ins_loop release (W\<lparr>iw_initial := 0\<rparr>) ts (n + 1) u"
    for u :: "('p, 'v) ins_state"
    using Cons.IH [of "n + 1" u] by (simp only: add.assoc)
  obtain stop es where "turn = (stop, es)" by fastforce
  then show ?case
    by (auto simp: initial_batch e Let_def split: outcome.splits option.splits prod.splits)
qed simp

text \<open>
  Retirement is not staggered: the initial batch count that a worker gets from its number cancels
  out, so workers of all numbers retire after the same number of batches.
\<close>

theorem retirement_unstaggered:
  "ins_Run release (ins_newWorker c own ph i) ts s = ins_Run release (ins_newWorker c own ph j) ts s"
proof -
  have "ins_newWorker c own ph k = (ins_newWorker c own ph 0)\<lparr>iw_initial := iw_initial (ins_newWorker c own ph k)\<rparr>" for k
    by (simp add: ins_newWorker_def)
  then have "ins_Run release (ins_newWorker c own ph k) ts s =
      ins_loop release ((ins_newWorker c own ph 0)\<lparr>iw_initial := 0\<rparr>) ts 0 s" for k
    unfolding ins_Run_def using initial_loop [where W = "ins_newWorker c own ph 0" and i = "iw_initial (ins_newWorker c own ph k)" and n = 0]
    by simp
  then show ?thesis by metis
qed

section \<open>Balancing and restarting\<close>

text \<open>The nodes accepted in a sequence of candidates.\<close>

fun accepted :: "string list \<Rightarrow> nodeBalancer \<Rightarrow> string list option" where
  "accepted [] b = Some []"
| "accepted (ip # ips) b =
     (case IsNextNode ip b of None \<Rightarrow> None
      | Some (ok, b) \<Rightarrow> map_option (\<lambda>xs. if ok then ip # xs else xs) (accepted ips b))"

lemma accepted_rotation:
  assumes "nb_index b < length (nb_nodeIPs b)"
  shows "\<exists>xs. accepted ips b = Some xs \<and>
    (\<forall>k < length xs. xs ! k = nb_nodeIPs b ! ((nb_index b + k) mod length (nb_nodeIPs b)))"
  using assms
proof (induction ips arbitrary: b)
  case (Cons ip ips)
  let ?n = "length (nb_nodeIPs b)"
  show ?case
  proof (cases "ip = nb_nodeIPs b ! nb_index b")
    case False
    then have "IsNextNode ip b = Some (False, b)" using Cons.prems by (simp add: IsNextNode_def)
    then show ?thesis using Cons.IH [OF Cons.prems] by auto
  next
    case True
    let ?b = "b\<lparr>nb_index := Suc (nb_index b) mod ?n\<rparr>"
    have "Suc (nb_index b) mod ?n = (if nb_index b + 1 = ?n then 0 else nb_index b + 1)" using Cons.prems by auto
    then have s: "IsNextNode ip b = Some (True, ?b)" using True Cons.prems by (simp add: IsNextNode_def Let_def)
    have "0 < ?n" using Cons.prems by linarith
    then have "nb_index ?b < length (nb_nodeIPs ?b)" by simp
    from Cons.IH [OF this] obtain xs where xs: "accepted ips ?b = Some xs"
        "\<forall>k < length xs. xs ! k = nb_nodeIPs b ! ((Suc (nb_index b) mod ?n + k) mod ?n)" by auto
    have "(ip # xs) ! k = nb_nodeIPs b ! ((nb_index b + k) mod ?n)" if "k < length (ip # xs)" for k
      using that True xs(2) Cons.prems by (cases k) (auto simp: mod_simps)
    then show ?thesis using s xs(1) by auto
  qed
qed simp


text \<open>
  Node balancing: whatever nodes the load balancer offers, the connections that are accepted go to
  the known nodes in turn, starting with the next one; without known nodes the check panics.
\<close>

theorem node_rotation:
  assumes "nb_index b < length (nb_nodeIPs b)"
  shows "(\<exists>xs. accepted ips b = Some xs \<and>
      (\<forall>k < length xs. xs ! k = nb_nodeIPs b ! ((nb_index b + k) mod length (nb_nodeIPs b)))) \<and>
    IsNextNode ip (b\<lparr>nb_nodeIPs := []\<rparr>) = None"
  using accepted_rotation [OF assms] by (simp add: IsNextNode_def)

theorem node_rotation_witness:
  "\<exists>xs. accepted [''b'', ''a'', ''a'', ''b'', ''b''] \<lparr>nb_nodeIPs = [''a'', ''b''], nb_index = 0\<rparr> = Some xs \<and>
    (\<forall>k < length xs. xs ! k = [''a'', ''b''] ! (k mod 2))"
  using node_rotation [of "\<lparr>nb_nodeIPs = [''a'', ''b''], nb_index = 0\<rparr>" "[''b'', ''a'', ''a'', ''b'', ''b'']"]
  by (simp add: numeral_2_eq_2)

text \<open>
  When none of the hundred attempts reaches the next node, the client that \<open>buildClient\<close> returns
  has been closed.
\<close>

lemma dial_all_rejected:
  assumes "nb_index b < length (nb_nodeIPs b)" and "ip \<noteq> nb_nodeIPs b ! nb_index b"
  shows "dial_loop k True (replicate k (NodeIs ip)) c b = Returned (if k = 0 then c else Client False, b)"
  using assms by (induction k arbitrary: c) (auto simp: IsNextNode_def)

lemma buildClient_closed:
  assumes "nb_index b < length (nb_nodeIPs b)" and "ip \<noteq> nb_nodeIPs b ! nb_index b"
  shows "ins_buildClient True (replicate 100 (NodeIs ip)) b = Returned (Client False, b)"
  unfolding ins_buildClient_def dial_all_rejected [OF assms] by simp

text \<open>Without balancing the first connection is used; a failed dial ends the loop.\<close>

lemma buildClient_unbalanced:
  "d \<noteq> DialFails \<Longrightarrow> ins_buildClient False (d # ds) b = Returned (Client True, b)"
  "ins_buildClient balance (DialFails # ds) b = Returned (NoClient, b)"
  by (cases d; simp add: ins_buildClient_def numeral_eq_Suc)+

text \<open>The look at the queue loses a block that arrives between the two looks.\<close>

lemma peek_queue_loses: "peek_queue True closed (b # q) = (False, [b], q)"
  by (simp add: peek_queue_def)

lemma min_double: "0 \<le> (m::int) \<Longrightarrow> min (min b m * 2) m = min (b * 2) m"
  by (auto simp: min_def)

lemma backoffs_from:
  "backoffs (replicate n EndErr @ es) (min b maxBackoff) =
   map (\<lambda>k. min (b * 2 ^ k) maxBackoff) [0..<n] @ backoffs es (min (b * 2 ^ n) maxBackoff)"
proof (induction n arbitrary: b)
  case (Suc n)
  have "[0..<Suc n] = 0 # map Suc [0..<n]" by (simp add: map_Suc_upt upt_conv_Cons del: upt_Suc)
  moreover have "backoffs (replicate (Suc n) EndErr @ es) (min b maxBackoff) =
    min b maxBackoff # backoffs (replicate n EndErr @ es) (min (b * 2) maxBackoff)"
    by (simp add: after_worker_def min_double maxBackoff_def)
  ultimately show ?case using Suc.IH [of "b * 2"] by (simp add: mult.assoc comp_def del: upt_Suc)
qed simp

text \<open>
  Restarting: after n failures in a row the scheduler has waited 500 ms, 1 s, 2 s and so on, doubled
  each time but never more than 30 s; a retired worker is replaced at once and starts the series
  again; a worker that stops or is cancelled is not replaced.
\<close>

theorem backoff_series:
  "backoffs (replicate n EndErr @ EndRetired # replicate m EndErr @ [EndCanceled]) baseBackoff =
     map (\<lambda>k. min (baseBackoff * 2 ^ k) maxBackoff) [0..<n] @ 0 # map (\<lambda>k. min (baseBackoff * 2 ^ k) maxBackoff) [0..<m] \<and>
   after_worker EndClosed b = None"
proof -
  have b: "min baseBackoff maxBackoff = baseBackoff" by (simp add: baseBackoff_def maxBackoff_def)
  show ?thesis
    using backoffs_from [of n "EndRetired # replicate m EndErr @ [EndCanceled]" baseBackoff]
      backoffs_from [of m "[EndCanceled]" baseBackoff]
    by (simp add: b after_worker_def)
qed

section \<open>Configuration: properties\<close>

lemma insert_Validate_ok:
  "insert_Validate comp_known c = None \<longleftrightarrow>
     \<not> ik_Enabled c \<or>
     1 \<le> ik_Threads c \<and> 1 \<le> ik_BatchSize c \<and> 0 \<le> ik_WorkerRetirementBatches c \<and> ck_Address (ik_ClickHouse c) \<noteq> [] \<and>
     ck_Database (ik_ClickHouse c) \<noteq> [] \<and>
     (ck_Compression (ik_ClickHouse c) = [] \<or> comp_known (ck_Compression (ik_ClickHouse c)))"
  by (auto simp: insert_Validate_def ck_Validate_def)

end
