(* ===== verification/OtelConv.thy ===== *)
theory OtelConv
  imports OtelRow Hash Batch
begin

text \<open>
  The conversion of block rows to OTLP messages (\<open>internal/otel/convert.go\<close>,
  \<open>convert_logs.go\<close>, \<open>convert_traces.go\<close>): the identity hashes, the fields, and the two builders
  that group rows by resource and scope. A protobuf message is a record of the fields the code
  sets; an attribute is a pair, its value always being a string value. The builders' shared shape
  (a map from keys to groups, the groups in order, a count) is \<open>gbuilder\<close>, generic in the key and
  the group.
\<close>

section \<open>Hashes\<close>

definition fnvStr :: "u64 \<Rightarrow> string \<Rightarrow> u64" where
  "fnvStr h s = fold (\<lambda>c h. (h XOR of_nat (of_char c)) * fnv_prime64) s h"

definition fnvKVPair :: "string \<times> string \<Rightarrow> u64" where
  "fnvKVPair kv =
     (let h = fnvStr fnv_offset64 (fst kv);
          h = (h XOR 0x1f) * fnv_prime64;
          h = fnvStr h (snd kv)
      in (h XOR 0x1e) * fnv_prime64)"

definition mix64 :: "u64 \<Rightarrow> u64" where
  "mix64 x0 =
     (let x1 = x0 XOR drop_bit 30 x0;
          x2 = x1 * 0xbf58476d1ce4e5b9;
          x3 = x2 XOR drop_bit 27 x2;
          x4 = x3 * 0x94d049bb133111eb
      in x4 XOR drop_bit 31 x4)"

record kvSetHash =
  kh_xor :: u64
  kh_sum :: u64
  kh_n :: u32

definition hash_kv :: "string \<times> string \<Rightarrow> kvSetHash \<Rightarrow> kvSetHash" where
  "hash_kv kv out =
     (let h = fnvKVPair kv
      in \<lparr>kh_xor = kh_xor out XOR h, kh_sum = kh_sum out + mix64 h, kh_n = kh_n out + 1\<rparr>)"

definition hashKVSet :: "(string \<times> string) list \<Rightarrow> kvSetHash" where
  "hashKVSet kvs = fold hash_kv kvs \<lparr>kh_xor = 0, kh_sum = 0, kh_n = 0\<rparr>"

section \<open>Fields\<close>

definition attrsFromKV :: "(string \<times> string) list \<Rightarrow> (string \<times> string) list" where
  "attrsFromKV kvs = (if length kvs = 0 then [] else map (\<lambda>kv. (fst kv, snd kv)) kvs)"

definition service_name :: string where "service_name = ''service.name''"

definition buildResource :: "string \<Rightarrow> (string \<times> string) list \<Rightarrow> (string \<times> string) list" where
  "buildResource serviceName attrs =
     (let out = map (\<lambda>kv. (fst kv, snd kv)) attrs;
          hasService = (\<exists>kv \<in> set attrs. fst kv = service_name)
      in if \<not> hasService \<and> serviceName \<noteq> '''' then out @ [(service_name, serviceName)] else out)"

text \<open>\<open>hex.DecodeString\<close>: two digits per byte, an odd length or another character is an error.\<close>

definition hexDigit :: "char \<Rightarrow> nat option" where
  "hexDigit c =
     (let n = of_char c :: nat in
      if 48 \<le> n \<and> n \<le> 57 then Some (n - 48)
      else if 97 \<le> n \<and> n \<le> 102 then Some (n - 87)
      else if 65 \<le> n \<and> n \<le> 70 then Some (n - 55)
      else None)"

fun hex_DecodeString :: "string \<Rightarrow> u8 list option" where
  "hex_DecodeString [] = Some []"
| "hex_DecodeString [c] = None"
| "hex_DecodeString (c # d # s) =
     (case (hexDigit c, hexDigit d) of
        (Some a, Some b) \<Rightarrow> map_option (\<lambda>bs. of_nat (16 * a + b) # bs) (hex_DecodeString s)
      | _ \<Rightarrow> None)"

definition decodeID :: "string \<Rightarrow> u8 list" where
  "decodeID s =
     (if s = '''' then []
      else case hex_DecodeString s of
             None \<Rightarrow> map (\<lambda>c. of_nat (of_char c)) s
           | Some b \<Rightarrow> b)"

datatype spanKind = KIND_UNSPECIFIED | KIND_INTERNAL | KIND_SERVER | KIND_CLIENT | KIND_PRODUCER | KIND_CONSUMER

definition spanKind_names :: "(spanKind \<times> string list) list" where
  "spanKind_names =
     [(KIND_INTERNAL, [''SPAN_KIND_INTERNAL'', ''Internal'', ''internal'', ''INTERNAL'']),
      (KIND_SERVER, [''SPAN_KIND_SERVER'', ''Server'', ''server'', ''SERVER'']),
      (KIND_CLIENT, [''SPAN_KIND_CLIENT'', ''Client'', ''client'', ''CLIENT'']),
      (KIND_PRODUCER, [''SPAN_KIND_PRODUCER'', ''Producer'', ''producer'', ''PRODUCER'']),
      (KIND_CONSUMER, [''SPAN_KIND_CONSUMER'', ''Consumer'', ''consumer'', ''CONSUMER''])]"

fun switch_on :: "string \<Rightarrow> ('a \<times> string list) list \<Rightarrow> 'a \<Rightarrow> 'a" where
  "switch_on s [] d = d"
| "switch_on s ((v, names) # cs) d = (if s \<in> set names then v else switch_on s cs d)"

definition toSpanKind :: "string \<Rightarrow> spanKind" where
  "toSpanKind s = switch_on s spanKind_names KIND_UNSPECIFIED"

datatype statusCode = CODE_UNSET | CODE_OK | CODE_ERROR

definition statusCode_names :: "(statusCode \<times> string list) list" where
  "statusCode_names =
     [(CODE_OK, [''STATUS_CODE_OK'', ''Ok'', ''OK'', ''ok'']),
      (CODE_ERROR, [''STATUS_CODE_ERROR'', ''Error'', ''ERROR'', ''error''])]"

definition toStatusCode :: "string \<Rightarrow> statusCode" where
  "toStatusCode s = switch_on s statusCode_names CODE_UNSET"

definition nano :: "int \<Rightarrow> u64" where
  "nano t = (if t = zeroTime then 0 else word_of_int t)"

section \<open>Messages\<close>

record scope =
  sc_Name :: string
  sc_Version :: string
  sc_Attributes :: "(string \<times> string) list"

record log_record =
  lm_TimeUnixNano :: u64
  lm_ObservedTimeUnixNano :: u64
  lm_SeverityNumber :: nat
  lm_SeverityText :: string
  lm_Body :: string
  lm_Attributes :: "(string \<times> string) list"
  lm_Flags :: nat
  lm_TraceId :: "u8 list"
  lm_SpanId :: "u8 list"

record resource_logs =
  rl_Resource :: "(string \<times> string) list"
  rl_SchemaUrl :: string
  rl_Scope :: scope
  rl_ScopeSchemaUrl :: string
  rl_LogRecords :: "log_record list"

record span_event =
  ev_TimeUnixNano :: u64
  ev_Name :: string
  ev_Attributes :: "(string \<times> string) list"

record span_link =
  ln_TraceId :: "u8 list"
  ln_SpanId :: "u8 list"
  ln_TraceState :: string
  ln_Attributes :: "(string \<times> string) list"

record otlp_span =
  sp_TraceId :: "u8 list"
  sp_SpanId :: "u8 list"
  sp_TraceState :: string
  sp_ParentSpanId :: "u8 list"
  sp_Name :: string
  sp_Kind :: spanKind
  sp_StartTimeUnixNano :: u64
  sp_EndTimeUnixNano :: u64
  sp_Attributes :: "(string \<times> string) list"
  sp_Status :: "statusCode \<times> string"
  sp_Events :: "span_event list"
  sp_Links :: "span_link list"

record resource_spans =
  rs_Resource :: "(string \<times> string) list"
  rs_Scope :: scope
  rs_Spans :: "otlp_span list"


section \<open>The builders\<close>

record ('k, 'g) gbuilder =
  gb_groups :: "'k \<Rightarrow> nat option"
  gb_order :: "'g list"
  gb_count :: nat

definition gb_new :: "('k, 'g) gbuilder" where
  "gb_new = \<lparr>gb_groups = (\<lambda>_. None), gb_order = [], gb_count = 0\<rparr>"

definition gb_reset :: "('k, 'g) gbuilder \<Rightarrow> ('k, 'g) gbuilder" where
  "gb_reset b = b\<lparr>gb_groups := (\<lambda>_. None), gb_order := take 0 (gb_order b), gb_count := 0\<rparr>"

text \<open>
  Find or create the group of a key, then append to it; a group is the index of its place in the
  order, as the code shares the pointer.
\<close>

definition gb_group :: "'k \<Rightarrow> 'g \<Rightarrow> ('k, 'g) gbuilder \<Rightarrow> nat \<times> ('k, 'g) gbuilder" where
  "gb_group key new b =
     (case gb_groups b key of
        Some i \<Rightarrow> (i, b)
      | None \<Rightarrow> (length (gb_order b),
          b\<lparr>gb_groups := (gb_groups b)(key \<mapsto> length (gb_order b)), gb_order := gb_order b @ [new]\<rparr>))"

definition gb_add :: "'k \<Rightarrow> 'g \<Rightarrow> ('g \<Rightarrow> 'g) \<Rightarrow> ('k, 'g) gbuilder \<Rightarrow> ('k, 'g) gbuilder" where
  "gb_add key new push b =
     (case gb_group key new b of (i, b) \<Rightarrow>
        b\<lparr>gb_order := (gb_order b)[i := push (gb_order b ! i)], gb_count := gb_count b + 1\<rparr>)"

type_synonym logs_key = "u64 \<times> kvSetHash \<times> kvSetHash"
type_synonym logsBuilder = "(logs_key, resource_logs) gbuilder"

definition delim :: "u64 \<Rightarrow> u64 \<Rightarrow> u64" where
  "delim d h = (h XOR d) * fnv_prime64"

definition logs_scalar :: "log_row \<Rightarrow> u64" where
  "logs_scalar r =
     (let h = fnvStr fnv_offset64 (lr_ServiceName r);
          h = fnvStr (delim 1 h) (lr_ResourceSchemaURL r);
          h = fnvStr (delim 2 h) (lr_ScopeName r);
          h = fnvStr (delim 3 h) (lr_ScopeVersion r)
      in fnvStr (delim 4 h) (lr_ScopeSchemaURL r))"

definition logs_groupKey :: "log_row \<Rightarrow> logs_key" where
  "logs_groupKey r = (logs_scalar r, hashKVSet (lr_ResourceAttrs r), hashKVSet (lr_ScopeAttrs r))"

definition new_resourceLogs :: "log_row \<Rightarrow> resource_logs" where
  "new_resourceLogs r =
     \<lparr>rl_Resource = buildResource (lr_ServiceName r) (lr_ResourceAttrs r), rl_SchemaUrl = lr_ResourceSchemaURL r,
      rl_Scope = \<lparr>sc_Name = lr_ScopeName r, sc_Version = lr_ScopeVersion r, sc_Attributes = attrsFromKV (lr_ScopeAttrs r)\<rparr>,
      rl_ScopeSchemaUrl = lr_ScopeSchemaURL r, rl_LogRecords = []\<rparr>"

definition log_message :: "log_row \<Rightarrow> log_record" where
  "log_message r =
     (let ts = nano (lr_Timestamp r) in
      \<lparr>lm_TimeUnixNano = ts, lm_ObservedTimeUnixNano = ts, lm_SeverityNumber = lr_SeverityNumber r,
       lm_SeverityText = lr_SeverityText r, lm_Body = lr_Body r, lm_Attributes = attrsFromKV (lr_LogAttrs r),
       lm_Flags = lr_TraceFlags r, lm_TraceId = decodeID (lr_TraceID r), lm_SpanId = decodeID (lr_SpanID r)\<rparr>)"

definition push_log :: "log_row \<Rightarrow> resource_logs \<Rightarrow> resource_logs" where
  "push_log r g = g\<lparr>rl_LogRecords := rl_LogRecords g @ [log_message r]\<rparr>"

definition logs_add :: "log_row \<Rightarrow> logsBuilder \<Rightarrow> logsBuilder" where
  "logs_add r b = gb_add (logs_groupKey r) (new_resourceLogs r) (push_log r) b"

type_synonym traces_key = "u64 \<times> kvSetHash"
type_synonym tracesBuilder = "(traces_key, resource_spans) gbuilder"

definition traces_scalar :: "trace_row \<Rightarrow> u64" where
  "traces_scalar r =
     (let h = fnvStr fnv_offset64 (tr_ServiceName r);
          h = fnvStr (delim 1 h) (tr_ScopeName r)
      in fnvStr (delim 3 h) (tr_ScopeVersion r))"

definition traces_groupKey :: "trace_row \<Rightarrow> traces_key" where
  "traces_groupKey r = (traces_scalar r, hashKVSet (tr_ResourceAttrs r))"

definition new_resourceSpans :: "trace_row \<Rightarrow> resource_spans" where
  "new_resourceSpans r =
     \<lparr>rs_Resource = buildResource (tr_ServiceName r) (tr_ResourceAttrs r),
      rs_Scope = \<lparr>sc_Name = tr_ScopeName r, sc_Version = tr_ScopeVersion r, sc_Attributes = []\<rparr>, rs_Spans = []\<rparr>"

definition event_message :: "trace_event \<Rightarrow> span_event" where
  "event_message e =
     \<lparr>ev_TimeUnixNano = nano (te_Timestamp e), ev_Name = te_Name e, ev_Attributes = attrsFromKV (te_Attrs e)\<rparr>"

definition link_message :: "trace_link \<Rightarrow> span_link" where
  "link_message l =
     \<lparr>ln_TraceId = decodeID (tl_TraceID l), ln_SpanId = decodeID (tl_SpanID l), ln_TraceState = tl_TraceState l,
      ln_Attributes = attrsFromKV (tl_Attrs l)\<rparr>"

definition span_message :: "trace_row \<Rightarrow> otlp_span" where
  "span_message r =
     (let start = nano (tr_Timestamp r) in
      \<lparr>sp_TraceId = decodeID (tr_TraceID r), sp_SpanId = decodeID (tr_SpanID r), sp_TraceState = tr_TraceState r,
       sp_ParentSpanId = decodeID (tr_ParentSpanID r), sp_Name = tr_SpanName r, sp_Kind = toSpanKind (tr_SpanKind r),
       sp_StartTimeUnixNano = start, sp_EndTimeUnixNano = start + tr_Duration r,
       sp_Attributes = attrsFromKV (tr_SpanAttrs r),
       sp_Status = (toStatusCode (tr_StatusCode r), tr_StatusMessage r),
       sp_Events = (if 0 < length (tr_Events r) then map event_message (tr_Events r) else []),
       sp_Links = (if 0 < length (tr_Links r) then map link_message (tr_Links r) else [])\<rparr>)"

definition push_span :: "trace_row \<Rightarrow> resource_spans \<Rightarrow> resource_spans" where
  "push_span r g = g\<lparr>rs_Spans := rs_Spans g @ [span_message r]\<rparr>"

definition traces_add :: "trace_row \<Rightarrow> tracesBuilder \<Rightarrow> tracesBuilder" where
  "traces_add r b = gb_add (traces_groupKey r) (new_resourceSpans r) (push_span r) b"

section \<open>Grouping\<close>

text \<open>The reference: the distinct keys in the order of their first row, each with its rows.\<close>

definition firsts :: "'a list \<Rightarrow> 'a list" where
  "firsts xs = rev (remdups (rev xs))"

lemma firsts_simps [simp]:
  "firsts [] = []" "firsts (xs @ [x]) = (if x \<in> set xs then firsts xs else firsts xs @ [x])"
  "set (firsts xs) = set xs" "distinct (firsts xs)"
  by (simp_all add: firsts_def)

definition group_of :: "('r \<Rightarrow> 'k) \<Rightarrow> ('r \<Rightarrow> 'g) \<Rightarrow> ('r \<Rightarrow> 'g \<Rightarrow> 'g) \<Rightarrow> 'r list \<Rightarrow> 'k \<Rightarrow> 'g" where
  "group_of key new push rs k =
     (let mine = filter (\<lambda>r. key r = k) rs in fold push mine (new (hd mine)))"

definition group_spec :: "('r \<Rightarrow> 'k) \<Rightarrow> ('r \<Rightarrow> 'g) \<Rightarrow> ('r \<Rightarrow> 'g \<Rightarrow> 'g) \<Rightarrow> 'r list \<Rightarrow> 'g list" where
  "group_spec key new push rs = map (group_of key new push rs) (firsts (map key rs))"

lemma gb_fold:
  fixes key :: "'r \<Rightarrow> 'k" and new :: "'r \<Rightarrow> 'g" and push :: "'r \<Rightarrow> 'g \<Rightarrow> 'g"
  defines "run \<equiv> \<lambda>rs. fold (\<lambda>r. gb_add (key r) (new r) (push r)) rs gb_new"
  shows "gb_order (run rs) = group_spec key new push rs \<and> gb_count (run rs) = length rs \<and>
    (\<forall>k i. gb_groups (run rs) k = Some i \<longleftrightarrow>
       i < length (firsts (map key rs)) \<and> firsts (map key rs) ! i = k)"
proof (induction rs rule: rev_induct)
  case Nil
  then show ?case by (simp add: run_def gb_new_def group_spec_def)
next
  case (snoc r rs)
  let ?ks = "firsts (map key rs)" and ?b = "run rs" and ?g = "group_of key new push"
  have step: "run (rs @ [r]) = gb_add (key r) (new r) (push r) ?b" by (simp add: run_def)
  have o: "gb_order ?b = map (?g rs) ?ks" and c: "gb_count ?b = length rs"
    and m: "\<And>k i. gb_groups ?b k = Some i \<longleftrightarrow> i < length ?ks \<and> ?ks ! i = k"
    using snoc unfolding group_spec_def by blast+
  have other: "?g (rs @ [r]) k = ?g rs k" if "k \<noteq> key r" for k
    using that by (simp add: group_of_def)
  show ?case
  proof (cases "key r \<in> set (map key rs)")
    case False
    then have n: "key r \<notin> set ?ks" by simp
    then have none: "gb_groups ?b (key r) = None"
      using m [of "key r"] by (metis not_None_eq nth_mem)
    have "filter (\<lambda>x. key x = key r) rs = []" using False by (metis (mono_tags, lifting) filter_False imageI list.set_map)
    then have mine: "?g (rs @ [r]) (key r) = push r (new r)" by (simp add: group_of_def)
    have "map (?g (rs @ [r])) ?ks = map (?g rs) ?ks" using n other by (intro map_cong refl) metis
    then have "gb_order (run (rs @ [r])) = group_spec key new push (rs @ [r])"
      using False none by (simp add: step gb_add_def gb_group_def o group_spec_def mine list_update_append nth_append)
    moreover have "gb_groups (run (rs @ [r])) = (gb_groups ?b)(key r \<mapsto> length ?ks)"
      using none by (simp add: step gb_add_def gb_group_def o)
    moreover have "?ks ! i \<noteq> key r" if "i < length ?ks" for i using n that nth_mem by metis
    ultimately show ?thesis using False none m c
      by (auto simp: step gb_add_def gb_group_def nth_append less_Suc_eq) 
  next
    case True
    then obtain i where i: "i < length ?ks" "?ks ! i = key r" by (metis firsts_simps(3) in_set_conv_nth)
    then have s: "gb_groups ?b (key r) = Some i" using m by simp
    let ?f = "filter (\<lambda>x. key x = key r) rs"
    have "?f \<noteq> []" using True by (auto simp: filter_empty_conv)
    then have mine: "?g (rs @ [r]) (key r) = push r (?g rs (key r))" by (simp add: group_of_def Let_def)
    have "(map (?g rs) ?ks)[i := push r (map (?g rs) ?ks ! i)] = map (?g (rs @ [r])) ?ks"
    proof (rule nth_equalityI)
      fix j assume "j < length ((map (?g rs) ?ks)[i := push r (map (?g rs) ?ks ! i)])"
      then have j: "j < length ?ks" by simp
      have "?ks ! j = key r \<longleftrightarrow> j = i" using i j nth_eq_iff_index_eq [of ?ks j i] by simp
      then show "(map (?g rs) ?ks)[i := push r (map (?g rs) ?ks ! i)] ! j = map (?g (rs @ [r])) ?ks ! j"
        using i j mine other by (cases "j = i") simp_all
    qed simp
    moreover have "run (rs @ [r]) = ?b\<lparr>gb_order := (gb_order ?b)[i := push r (gb_order ?b ! i)], gb_count := gb_count ?b + 1\<rparr>"
      using s by (simp add: step gb_add_def gb_group_def)
    ultimately show ?thesis using True m c by (simp add: o group_spec_def)
  qed
qed


section \<open>Identity\<close>

lemma hash_kv_comm: "hash_kv a (hash_kv b k) = hash_kv b (hash_kv a k)"
  by (simp add: hash_kv_def Let_def ac_simps)

lemma hash_perm:
  assumes "mset kvs = mset kvs'"
  shows "hashKVSet kvs = hashKVSet kvs'"
  unfolding hashKVSet_def
  using fold_multiset_equiv [of kvs hash_kv kvs'] assms by (simp add: fun_eq_iff comp_def hash_kv_comm)

text \<open>
  Rows of one resource and scope end in one group: the keys of two rows agree when the rows agree
  in the service, the schema and scope names and versions, and carry the same attributes in any
  order.
\<close>

theorem group_keys_unordered:
  assumes "mset (lr_ResourceAttrs r) = mset (lr_ResourceAttrs r')" and "mset (lr_ScopeAttrs r) = mset (lr_ScopeAttrs r')"
    and "lr_ServiceName r = lr_ServiceName r'" and "lr_ResourceSchemaURL r = lr_ResourceSchemaURL r'"
    and "lr_ScopeName r = lr_ScopeName r'" and "lr_ScopeVersion r = lr_ScopeVersion r'"
    and "lr_ScopeSchemaURL r = lr_ScopeSchemaURL r'"
    and "mset (tr_ResourceAttrs t) = mset (tr_ResourceAttrs t')" and "tr_ServiceName t = tr_ServiceName t'"
    and "tr_ScopeName t = tr_ScopeName t'" and "tr_ScopeVersion t = tr_ScopeVersion t'"
  shows "logs_groupKey r = logs_groupKey r' \<and> traces_groupKey t = traces_groupKey t'"
  using hash_perm [OF assms(1)] hash_perm [OF assms(2)] hash_perm [OF assms(8)]
  by (simp add: logs_groupKey_def traces_groupKey_def logs_scalar_def traces_scalar_def assms(3-7,9-11))

theorem group_keys_unordered_witness:
  "traces_groupKey ((sample_span ''01'' ''02'')\<lparr>tr_ResourceAttrs := [(''a'', ''1''), (''b'', ''2'')]\<rparr>) =
     traces_groupKey ((sample_span ''03'' ''04'')\<lparr>tr_ResourceAttrs := [(''b'', ''2''), (''a'', ''1'')]\<rparr>)"
  using group_keys_unordered [OF refl refl refl refl refl refl refl,
      of "(sample_span ''01'' ''02'')\<lparr>tr_ResourceAttrs := [(''a'', ''1''), (''b'', ''2'')]\<rparr>"
        "(sample_span ''03'' ''04'')\<lparr>tr_ResourceAttrs := [(''b'', ''2''), (''a'', ''1'')]\<rparr>"]
  by (simp add: sample_span_def)

lemma hash_count: "kh_n (fold hash_kv kvs k) = kh_n k + of_nat (length kvs)"
  by (induction kvs arbitrary: k) (simp_all add: hash_kv_def Let_def)

lemma hash_size:
  assumes "hashKVSet a = hashKVSet b" and "length a < 4294967296" and "length b < 4294967296"
  shows "length a = length b"
proof -
  have "(of_nat (length a) :: u32) = of_nat (length b)"
    using arg_cong [OF assms(1), of kh_n] by (simp add: hashKVSet_def hash_count)
  then have "unat (of_nat (length a) :: u32) = unat (of_nat (length b) :: u32)" by simp
  then show ?thesis using assms(2,3) by (simp add: unat_of_nat)
qed

section \<open>Requests\<close>

lemma fold_push_log:
  "fold push_log rs g = g\<lparr>rl_LogRecords := rl_LogRecords g @ map log_message rs\<rparr>"
  by (induction rs arbitrary: g) (simp_all add: push_log_def)

lemma fold_push_span:
  "fold push_span rs g = g\<lparr>rs_Spans := rs_Spans g @ map span_message rs\<rparr>"
  by (induction rs arbitrary: g) (simp_all add: push_span_def)

definition logs_request :: "log_row list \<Rightarrow> resource_logs list" where
  "logs_request rows =
     map (\<lambda>k. let mine = filter (\<lambda>r. logs_groupKey r = k) rows
              in (new_resourceLogs (hd mine))\<lparr>rl_LogRecords := map log_message mine\<rparr>)
       (firsts (map logs_groupKey rows))"

definition traces_request :: "trace_row list \<Rightarrow> resource_spans list" where
  "traces_request rows =
     map (\<lambda>k. let mine = filter (\<lambda>r. traces_groupKey r = k) rows
              in (new_resourceSpans (hd mine))\<lparr>rs_Spans := map span_message mine\<rparr>)
       (firsts (map traces_groupKey rows))"

text \<open>
  C21. The builders against their reference: after any rows, the request has one group per distinct
  key, in the order the keys first came; a group has the resource and the scope of its first row
  and the messages of exactly the rows with its key, in their order; the count is the number of
  rows.
\<close>

theorem requests_exact:
  "gb_order (fold logs_add rows gb_new) = logs_request rows \<and> gb_count (fold logs_add rows gb_new) = length rows \<and>
   gb_order (fold traces_add spans gb_new) = traces_request spans \<and> gb_count (fold traces_add spans gb_new) = length spans"
proof -
  have l: "logs_add = (\<lambda>r. gb_add (logs_groupKey r) (new_resourceLogs r) (push_log r))"
    and t: "traces_add = (\<lambda>r. gb_add (traces_groupKey r) (new_resourceSpans r) (push_span r))"
    by (simp_all add: fun_eq_iff logs_add_def traces_add_def)
  have gl: "group_spec logs_groupKey new_resourceLogs push_log rows = logs_request rows"
    by (simp add: group_spec_def group_of_def logs_request_def fold_push_log Let_def new_resourceLogs_def)
  have gt: "group_spec traces_groupKey new_resourceSpans push_span spans = traces_request spans"
    by (simp add: group_spec_def group_of_def traces_request_def fold_push_span Let_def new_resourceSpans_def)
  show ?thesis
    using gb_fold [of logs_groupKey new_resourceLogs push_log rows]
      gb_fold [of traces_groupKey new_resourceSpans push_span spans]
    unfolding l t gl gt by blast
qed

section \<open>Identifiers\<close>

text \<open>Lowercase hexadecimal, two digits per byte.\<close>

definition hex_encode :: "u8 list \<Rightarrow> string" where
  "hex_encode bs = concat (map (\<lambda>b. [hexChars ! (unat b div 16), hexChars ! (unat b mod 16)]) bs)"

lemma hexDigit_digit: "n < 16 \<Longrightarrow> hexDigit (hexChars ! n) = Some n"
  unfolding hexChars_def hexDigit_def by (auto simp: less_Suc_eq numeral_eq_Suc)


lemma hex_decode_encode: "hex_DecodeString (hex_encode bs) = Some bs"
proof (induction bs)
  case Nil
  then show ?case by (simp add: hex_encode_def)
next
  case (Cons b bs)
  have lt: "unat b < 256" using unsigned_less [of b] by simp
  have "hexDigit (hexChars ! (unat b div 16)) = Some (unat b div 16)"
    using lt by (intro hexDigit_digit) simp
  moreover have "hexDigit (hexChars ! (unat b mod 16)) = Some (unat b mod 16)" by (intro hexDigit_digit) simp
  moreover have "(of_nat (16 * (unat b div 16) + unat b mod 16) :: u8) = b" by (simp add: mult_div_mod_eq of_nat_unat)
  ultimately show ?case using Cons by (simp add: hex_encode_def del: of_nat_add of_nat_mult)
qed

lemma hex_encode_Nil [simp]: "hex_encode bs = [] \<longleftrightarrow> bs = []"
  by (cases bs) (simp_all add: hex_encode_def)

lemma hex_decode_None: "hex_DecodeString s = None \<longleftrightarrow> odd (length s) \<or> (\<exists>c \<in> set s. hexDigit c = None)"
  by (induction s rule: hex_DecodeString.induct) (auto split: option.splits)

lemma hex_decode_length: "hex_DecodeString s = Some b \<Longrightarrow> 2 * length b = length s"
  by (induction s arbitrary: b rule: hex_DecodeString.induct) (auto split: option.splits)

text \<open>
  C39. Identifiers: the bytes of an identifier come back from its hexadecimal text; a text that is not
  hexadecimal, or has an odd length, is passed on as its own bytes, so its length says which of
  the two happened, and nothing is dropped.
\<close>

theorem decodeID_roundtrip:
  "decodeID (hex_encode bs) = bs \<and>
   (if length s mod 2 = 1 \<or> list_ex (\<lambda>c. hexDigit c = None) s
    then decodeID s = map (\<lambda>c. of_nat (of_char c)) s
    else 2 * length (decodeID s) = length s)"
proof -
  have "decodeID (hex_encode bs) = bs" by (simp add: decodeID_def hex_decode_encode)
  moreover have "decodeID s = map (\<lambda>c. of_nat (of_char c)) s"
    if "odd (length s) \<or> list_ex (\<lambda>c. hexDigit c = None) s"
    using that hex_decode_None [of s] by (auto simp: decodeID_def list_ex_iff)
  moreover have "2 * length (decodeID s) = length s"
    if "\<not> (odd (length s) \<or> list_ex (\<lambda>c. hexDigit c = None) s)"
    using that hex_decode_None [of s] hex_decode_length [of s] by (auto simp: decodeID_def list_ex_iff)
  ultimately show ?thesis by (simp add: odd_iff_mod_2_eq_one)
qed

section \<open>The builders as batches\<close>

definition gb_inv :: "('g \<Rightarrow> 'm list) \<Rightarrow> ('k, 'g) gbuilder \<Rightarrow> bool" where
  "gb_inv msgs b \<longleftrightarrow>
     (\<forall>k i. gb_groups b k = Some i \<longrightarrow> i < length (gb_order b)) \<and>
     gb_count b = sum_list (map (\<lambda>g. length (msgs g)) (gb_order b))"

definition gb_items :: "('g \<Rightarrow> 'm list) \<Rightarrow> ('k, 'g) gbuilder \<Rightarrow> 'm multiset" where
  "gb_items msgs b = mset (concat (map msgs (gb_order b)))"

lemma items_update:
  assumes "i < length gs"
  shows "mset (concat (map f (gs[i := g]))) + mset (f (gs ! i)) = mset (concat (map f gs)) + mset (f g)"
  using assms
proof (induction gs arbitrary: i)
  case (Cons x gs)
  then show ?case by (cases i) (auto simp: ac_simps)
qed simp

lemma length_concat_sum: "length (concat xss) = sum_list (map length xss)"
  by (induction xss) simp_all

lemma gb_group_ok:
  assumes "gb_inv msgs b" and "msgs new = []" and "gb_group key new b = (i, b')"
  shows "gb_inv msgs b' \<and> gb_items msgs b' = gb_items msgs b \<and> i < length (gb_order b') \<and> gb_count b' = gb_count b"
  using assms by (auto simp: gb_group_def gb_inv_def gb_items_def less_SucI split: option.splits if_splits)

lemma gb_add_ok:
  assumes i: "gb_inv msgs b" and n: "msgs new = []" and p: "\<And>g. msgs (push g) = msgs g @ [m]"
  shows "gb_inv msgs (gb_add key new push b) \<and> gb_items msgs (gb_add key new push b) = gb_items msgs b + {#m#}"
proof -
  obtain j b' where g: "gb_group key new b = (j, b')" by fastforce
  note f = gb_group_ok [OF i n g]
  have a: "gb_add key new push b = b'\<lparr>gb_order := (gb_order b')[j := push (gb_order b' ! j)], gb_count := gb_count b' + 1\<rparr>"
    by (simp add: gb_add_def g)
  have u: "mset (concat (map msgs ((gb_order b')[j := push (gb_order b' ! j)]))) = mset (concat (map msgs (gb_order b'))) + {#m#}"
    using items_update [of j "gb_order b'" msgs "push (gb_order b' ! j)"] f by (simp add: p)
  then have "size (mset (concat (map msgs ((gb_order b')[j := push (gb_order b' ! j)])))) =
    size (mset (concat (map msgs (gb_order b')))) + 1" by simp
  then have "sum_list (map (\<lambda>g. length (msgs g)) ((gb_order b')[j := push (gb_order b' ! j)])) =
    sum_list (map (\<lambda>g. length (msgs g)) (gb_order b')) + 1"
    by (simp add: length_concat_sum comp_def)
  then show ?thesis using f u by (simp add: a gb_inv_def gb_items_def)
qed

lemma gb_len_items: "gb_inv msgs b \<Longrightarrow> gb_count b = size (gb_items msgs b)"
  by (simp add: gb_inv_def gb_items_def length_concat_sum comp_def)

lemma gb_reset_ok: "gb_inv msgs (gb_reset b)" "gb_items msgs (gb_reset b) = {#}"
  by (simp_all add: gb_inv_def gb_items_def gb_reset_def)

interpretation logs_batch: batch "gb_inv rl_LogRecords" gb_reset logs_add gb_count "gb_items rl_LogRecords"
  "\<lambda>r b. {#log_message r#}"
  by unfold_locales
    (simp_all add: logs_add_def gb_add_ok new_resourceLogs_def push_log_def gb_reset_ok gb_len_items)

interpretation traces_batch: batch "gb_inv rs_Spans" gb_reset traces_add gb_count "gb_items rs_Spans"
  "\<lambda>r b. {#span_message r#}"
  by unfold_locales
    (simp_all add: traces_add_def gb_add_ok new_resourceSpans_def push_span_def gb_reset_ok gb_len_items)

end
