(* ===== verification/Otel.thy ===== *)
theory Otel
  imports OtelConv BlockPool GoStrings
begin

text \<open>
  The OTLP exporter sink (\<open>internal/otel\<close>): configuration, export targets, reading a block into
  a batch, and the worker that turns blocks into export requests. The world (results of exports,
  cancellation, which branch a select takes) is an argument.
\<close>

section \<open>Configuration and targets\<close>

record otel_config =
  oc_Enabled :: bool
  oc_Protocol :: string
  oc_URL :: string
  oc_Insecure :: bool
  oc_Threads :: int
  oc_BatchSize :: int
  oc_FlushInterval :: int
  oc_Timeout :: int
  oc_Compression :: string
  oc_Headers :: "(string \<times> string) list"

definition protocolGRPC :: string where "protocolGRPC = ''grpc''"
definition protocolHTTP :: string where "protocolHTTP = ''http''"

definition otel_protocol :: "otel_config \<Rightarrow> string" where
  "otel_protocol c = (if oc_Protocol c = '''' then protocolGRPC else oc_Protocol c)"

definition otel_withDefaults :: "otel_config \<Rightarrow> otel_config" where
  "otel_withDefaults c =
     (let c = (if oc_FlushInterval c \<le> 0 then c\<lparr>oc_FlushInterval := ns_per_s\<rparr> else c)
      in if oc_Timeout c \<le> 0 then c\<lparr>oc_Timeout := 30 * ns_per_s\<rparr> else c)"

datatype otel_err = ErrProtocol | ErrURL | ErrOtelThreads | ErrOtelBatch | ErrOtelCompression

definition otel_Validate :: "otel_config \<Rightarrow> otel_err option" where
  "otel_Validate c =
     (if \<not> oc_Enabled c then None
      else first_err [err_if (oc_Protocol c \<notin> {[], protocolGRPC, protocolHTTP}) ErrProtocol,
        err_if (oc_URL c = []) ErrURL, err_if (oc_Threads c < 1) ErrOtelThreads,
        err_if (oc_BatchSize c < 1) ErrOtelBatch,
        err_if (oc_Compression c \<notin> {[], ''none'', ''gzip''}) ErrOtelCompression])"

definition otel_parseTarget :: "string \<Rightarrow> string \<times> bool" where
  "otel_parseTarget url =
     (if hasPrefix url ''http://'' then (trimPrefix url ''http://'', True)
      else if hasPrefix url ''https://'' then (trimPrefix url ''https://'', False)
      else if hasPrefix url ''grpc://'' then (trimPrefix url ''grpc://'', False)
      else (url, False))"

definition otel_plaintext :: "otel_config \<Rightarrow> bool" where
  "otel_plaintext c = (if oc_Insecure c then True else snd (otel_parseTarget (oc_URL c)))"

datatype otel_transport = OverGRPC | OverHTTP

definition otel_dial :: "otel_config \<Rightarrow> otel_transport" where
  "otel_dial c = (if otel_protocol c = protocolHTTP then OverHTTP else OverGRPC)"

text \<open>
  \<open>httpBaseURL\<close>: \<open>parse\<close> is \<open>url.Parse\<close>, which gives scheme, host and path.
\<close>

datatype url_err = InvalidURL | BadScheme | MissingHost

definition raw_url :: "string \<Rightarrow> bool \<Rightarrow> string" where
  "raw_url raw plain =
     (if contains raw ''://'' then raw else (if plain then ''http'' else ''https'') @ ''://'' @ raw)"

definition httpBaseURL ::
  "(string \<Rightarrow> (string \<times> string \<times> string) option) \<Rightarrow> string \<Rightarrow> bool \<Rightarrow> url_err + string \<times> string \<times> string" where
  "httpBaseURL parse raw plain =
     (case parse (raw_url raw plain) of
        None \<Rightarrow> Inl InvalidURL
      | Some (scheme, host, path) \<Rightarrow>
          if scheme \<noteq> ''http'' \<and> scheme \<noteq> ''https'' then Inl BadScheme
          else if host = [] then Inl MissingHost
          else Inr (scheme, host, path))"

definition otel_signalPath :: "string \<Rightarrow> string \<Rightarrow> string" where
  "otel_signalPath path signalPath =
     (let p = trimRight (CHR ''/'') path in if \<not> hasSuffix p signalPath then p @ signalPath else p)"

section \<open>Blocks into batches\<close>

fun logs_addRows :: "time_codec \<Rightarrow> logs_cols \<Rightarrow> nat list \<Rightarrow> logsBuilder \<Rightarrow> logsBuilder option" where
  "logs_addRows T c [] b = Some b"
| "logs_addRows T c (i # is) b =
     (case ReadLogRow T c i of None \<Rightarrow> None | Some r \<Rightarrow> logs_addRows T c is (logs_add r b))"

definition logs_addBlock :: "time_codec \<Rightarrow> logs_cols \<Rightarrow> logsBuilder \<Rightarrow> logsBuilder option" where
  "logs_addBlock T c b = logs_addRows T c [0..<logs_Rows c] b"

fun traces_addRows :: "time_codec \<Rightarrow> OtelRow.traces_cols \<Rightarrow> nat list \<Rightarrow> tracesBuilder \<Rightarrow> tracesBuilder option" where
  "traces_addRows T c [] b = Some b"
| "traces_addRows T c (i # is) b =
     (case ReadTraceRow T c i of None \<Rightarrow> None | Some r \<Rightarrow> traces_addRows T c is (traces_add r b))"

definition traces_addBlock :: "time_codec \<Rightarrow> OtelRow.traces_cols \<Rightarrow> tracesBuilder \<Rightarrow> tracesBuilder option" where
  "traces_addBlock T c b = traces_addRows T c [0..<traces_Rows c] b"

lemma logs_addRows_fold:
  "\<forall>i \<in> set is. ReadLogRow T c i = Some (rows ! i) \<Longrightarrow>
   logs_addRows T c is b = Some (fold logs_add (map (\<lambda>i. rows ! i) is) b)"
  by (induction "is" arbitrary: b) simp_all

lemma traces_addRows_fold:
  "\<forall>i \<in> set is. ReadTraceRow T c i = Some (rows ! i) \<Longrightarrow>
   traces_addRows T c is b = Some (fold traces_add (map (\<lambda>i. rows ! i) is) b)"
  by (induction "is" arbitrary: b) simp_all

lemma logs_addBlock_rows:
  assumes "logs_repr T c rows"
  shows "logs_addBlock T c b = Some (fold logs_add rows b)"
proof -
  have n: "logs_Rows c = length rows"
    using assms unfolding logs_repr_def logs_Rows_def by (metis length_map)
  have "\<forall>i \<in> set [0..<length rows]. ReadLogRow T c i = Some (rows ! i)"
    using ReadLogRow_ok [OF assms] by auto
  from logs_addRows_fold [OF this] show ?thesis by (simp add: logs_addBlock_def n map_nth)
qed

lemma traces_addBlock_rows:
  assumes "traces_repr T c rows"
  shows "traces_addBlock T c b = Some (fold traces_add rows b)"
proof -
  have n: "traces_Rows c = length rows"
    using assms unfolding traces_repr_def traces_Rows_def by (metis length_map)
  have "\<forall>i \<in> set [0..<length rows]. ReadTraceRow T c i = Some (rows ! i)"
    using ReadTraceRow_ok [OF assms] by auto
  from traces_addRows_fold [OF this] show ?thesis by (simp add: traces_addBlock_def n map_nth)
qed


section \<open>The worker\<close>

text \<open>
  \<open>oe_export n a\<close>: does attempt \<open>a\<close> of flush \<open>n\<close> succeed; \<open>oe_done\<close>, \<open>oe_wait_done\<close>: is the
  context done after it, and during the back-off that follows.
\<close>

record otel_env =
  oe_export :: "nat \<Rightarrow> nat \<Rightarrow> bool"
  oe_done :: "nat \<Rightarrow> nat \<Rightarrow> bool"
  oe_wait_done :: "nat \<Rightarrow> nat \<Rightarrow> bool"

function otel_flush_loop :: "otel_env \<Rightarrow> nat \<Rightarrow> nat \<Rightarrow> int \<Rightarrow> int list \<Rightarrow> bool \<times> nat \<times> int list" where
  "otel_flush_loop E n attempt backoff waits =
     (if oe_export E n attempt then (True, attempt, waits)
      else if oe_done E n attempt \<or> 5 \<le> attempt then (False, attempt, waits)
      else if oe_wait_done E n attempt then (False, attempt, waits)
      else otel_flush_loop E n (attempt + 1) (min (backoff * 2) (5 * ns_per_s)) (waits @ [backoff]))"
  by pat_completeness auto
termination
  by (relation "measure (\<lambda>(E, n, attempt, backoff, waits). 5 - attempt)") auto

declare otel_flush_loop.simps [simp del]

record ('p, 'b) otel_worker =
  ow_batch :: 'b
  ow_flushes :: nat
  ow_sent :: "'b list"
  ow_dropped :: "'b list"
  ow_failed :: nat
  ow_pool :: 'p
  ow_queue :: "nat list"
  ow_closed :: bool

definition otel_flush :: "('b \<Rightarrow> 'b) \<Rightarrow> ('b \<Rightarrow> nat) \<Rightarrow> otel_env \<Rightarrow> ('p, 'b) otel_worker \<Rightarrow> ('p, 'b) otel_worker" where
  "otel_flush fresh len E w =
     (if len (ow_batch w) = 0 then w
      else case otel_flush_loop E (ow_flushes w) 1 (250 * ns_per_ms) [] of (ok, attempts, waits) \<Rightarrow>
        let b = ow_batch w; w = w\<lparr>ow_batch := fresh b, ow_flushes := ow_flushes w + 1\<rparr> in
        if ok then w\<lparr>ow_sent := ow_sent w @ [b], ow_failed := ow_failed w + (attempts - 1)\<rparr>
        else w\<lparr>ow_dropped := ow_dropped w @ [b], ow_failed := ow_failed w + attempts\<rparr>)"

fun drainRelease :: "(nat \<Rightarrow> 'p \<Rightarrow> 'p option) \<Rightarrow> nat list \<Rightarrow> 'p \<Rightarrow> 'p option" where
  "drainRelease release [] p = Some p"
| "drainRelease release (b # q) p = (case release b p of None \<Rightarrow> None | Some p \<Rightarrow> drainRelease release q p)"

text \<open>
  One turn of the loop with the branch its select takes; the branch of an empty open queue is not
  ready, the worker goes on waiting. A waiting release or a panic while reading is \<open>None\<close>.
\<close>

datatype otel_branch = BranchDone | BranchQueue | BranchTick
datatype otel_end = OtelCanceled | OtelFinished

definition otel_turn ::
  "(nat \<Rightarrow> 'p \<Rightarrow> 'p option) \<Rightarrow> (nat \<Rightarrow> 'b \<Rightarrow> 'b option) \<Rightarrow> ('b \<Rightarrow> 'b) \<Rightarrow> ('b \<Rightarrow> nat) \<Rightarrow> int \<Rightarrow> otel_env \<Rightarrow>
   otel_branch \<Rightarrow> ('p, 'b) otel_worker \<Rightarrow> (otel_end option \<times> ('p, 'b) otel_worker) option" where
  "otel_turn release addBlock fresh len limit E br w =
     (case br of
        BranchDone \<Rightarrow>
          map_option (\<lambda>p. (Some OtelCanceled, w\<lparr>ow_pool := p, ow_queue := []\<rparr>))
            (drainRelease release (ow_queue w) (ow_pool w))
      | BranchTick \<Rightarrow> Some (None, otel_flush fresh len E w)
      | BranchQueue \<Rightarrow>
          (case ow_queue w of
             [] \<Rightarrow> if ow_closed w then Some (Some OtelFinished, otel_flush fresh len E w) else Some (None, w)
           | blk # q \<Rightarrow>
               (case addBlock blk (ow_batch w) of
                  None \<Rightarrow> None
                | Some b \<Rightarrow>
                    (case release blk (ow_pool w) of
                       None \<Rightarrow> None
                     | Some p \<Rightarrow>
                         let w = w\<lparr>ow_batch := b, ow_queue := q, ow_pool := p\<rparr>
                         in Some (None, if limit \<le> int (len b) then otel_flush fresh len E w else w)))))"

fun otel_Run ::
  "(nat \<Rightarrow> 'p \<Rightarrow> 'p option) \<Rightarrow> (nat \<Rightarrow> 'b \<Rightarrow> 'b option) \<Rightarrow> ('b \<Rightarrow> 'b) \<Rightarrow> ('b \<Rightarrow> nat) \<Rightarrow> int \<Rightarrow> otel_env \<Rightarrow>
   otel_branch list \<Rightarrow> ('p, 'b) otel_worker \<Rightarrow> (otel_end option \<times> ('p, 'b) otel_worker) option" where
  "otel_Run release addBlock fresh len limit E [] w = Some (None, w)"
| "otel_Run release addBlock fresh len limit E (br # brs) w =
     (case otel_turn release addBlock fresh len limit E br w of
        None \<Rightarrow> None
      | Some (Some e, w) \<Rightarrow> Some (Some e, w)
      | Some (None, w) \<Rightarrow> otel_Run release addBlock fresh len limit E brs w)"

section \<open>An exporter: a batch and a pool\<close>

locale exporter =
  batch binv fresh add len items expand + pool acquire release pinv
  for binv :: "'b \<Rightarrow> bool" and fresh and add :: "'r \<Rightarrow> 'b \<Rightarrow> 'b" and len :: "'b \<Rightarrow> nat"
    and items :: "'b \<Rightarrow> 'i multiset" and expand
    and acquire :: "'p \<Rightarrow> (nat \<times> 'p) option" and release :: "nat \<Rightarrow> 'p \<Rightarrow> 'p option"
    and pinv :: "nat multiset \<Rightarrow> 'p \<Rightarrow> bool"
begin

lemma fold_items:
  assumes "binv b"
  shows "binv (fold add rs b) \<and> items (fold add rs b) = items b + sum_list (map (\<lambda>r. expand r b) rs)"
  using assms
proof (induction rs arbitrary: b)
  case (Cons r rs)
  show ?case
    using Cons.IH [OF inv_add [OF Cons.prems, of r]] items_add [OF Cons.prems, of r]
    by (simp add: expand_add ac_simps)
qed simp

lemma fold_expand: "expand r (fold add rs b) = expand r b"
  by (induction rs arbitrary: b) (simp_all add: expand_add)

end


text \<open>Everything a worker has taken in: sent, dropped after failed exports, or still in the batch.\<close>

definition taken_items :: "('b \<Rightarrow> 'i multiset) \<Rightarrow> ('p, 'b) otel_worker \<Rightarrow> 'i multiset" where
  "taken_items items w = flushed_items items (ow_sent w) + flushed_items items (ow_dropped w) + items (ow_batch w)"

text \<open>Requests are never empty and exceed the batch size by less than the rows of one block.\<close>

definition requests_ok :: "('b \<Rightarrow> nat) \<Rightarrow> int \<Rightarrow> nat \<Rightarrow> ('p, 'b) otel_worker \<Rightarrow> bool" where
  "requests_ok len limit width w \<longleftrightarrow>
     (\<forall>x \<in> set (ow_sent w @ ow_dropped w). 0 < len x \<and> int (len x) < limit + int width)"

lemma flushed_app [simp]: "flushed_items items (xs @ [x]) = flushed_items items xs + items x"
  by (simp add: flushed_items_def)

context exporter
begin

lemma flush_ok:
  assumes "binv (ow_batch w)" and "requests_ok len limit width w" and "int (len (ow_batch w)) < limit + int width"
    and "0 < limit"
  shows "(\<lambda>w'. binv (ow_batch w') \<and> taken_items items w' = taken_items items w \<and> requests_ok len limit width w' \<and>
      len (ow_batch w') = 0 \<and> ow_pool w' = ow_pool w \<and> ow_queue w' = ow_queue w \<and> ow_closed w' = ow_closed w)
    (otel_flush fresh len E w)"
proof (cases "len (ow_batch w) = 0")
  case True
  then show ?thesis using assms by (simp add: otel_flush_def)
next
  case False
  obtain ok attempts waits where f: "otel_flush_loop E (ow_flushes w) 1 (250 * ns_per_ms) [] = (ok, attempts, waits)"
    using prod_cases3 by blast
  show ?thesis using assms False inv_fresh len_fresh
    by (cases ok) (auto simp: otel_flush_def f [simplified] Let_def taken_items_def items_fresh requests_ok_def ac_simps)
qed

lemma drain_ok:
  "pinv (mset (others @ q)) p \<Longrightarrow> \<exists>p'. drainRelease release q p = Some p' \<and> pinv (mset others) p'"
proof (induction q arbitrary: p)
  case (Cons b q)
  have "pinv (add_mset b (mset (others @ q))) p" using Cons.prems by simp
  from release_inv [OF this] Cons.IH show ?case by fastforce
qed simp

text \<open>What a part of a run did: it read some blocks and then, when cancelled, gave the others back.\<close>

definition progress where
  "progress rows others limit width r w w' \<longleftrightarrow>
     binv (ow_batch w') \<and> pinv (mset (others @ ow_queue w')) (ow_pool w') \<and>
     requests_ok len limit width w' \<and> int (len (ow_batch w')) < limit \<and>
     (\<exists>read back. ow_queue w = read @ back @ ow_queue w' \<and> (back \<noteq> [] \<longrightarrow> r = Some OtelCanceled) \<and>
        taken_items items w' = taken_items items w +
          sum_list (map (\<lambda>b. sum_list (map (\<lambda>x. expand x (ow_batch w)) (rows b))) read)) \<and>
     (\<forall>x. expand x (ow_batch w') = expand x (ow_batch w)) \<and>
     (r = Some OtelFinished \<longrightarrow> ow_queue w' = [] \<and> len (ow_batch w') = 0)"

lemma flush_expand: "expand x (ow_batch (otel_flush fresh len E w)) = expand x (ow_batch w)"
  by (simp add: otel_flush_def Let_def expand_fresh split: prod.splits)

lemma turn_ok:
  assumes b: "binv (ow_batch w)" and p: "pinv (mset (others @ ow_queue w)) (ow_pool w)" and l: "0 < limit"
    and q: "requests_ok len limit width w" "int (len (ow_batch w)) < limit"
    and width: "\<And>blk. size (sum_list (map (\<lambda>x. expand x (ow_batch w)) (rows blk))) \<le> width"
  shows "\<exists>r w'. otel_turn release (\<lambda>blk x. Some (fold add (rows blk) x)) fresh len limit E br w = Some (r, w') \<and>
    progress rows others limit width r w w'"
proof (cases br)
  case BranchDone
  obtain p' where "drainRelease release (ow_queue w) (ow_pool w) = Some p'" "pinv (mset others) p'"
    using drain_ok [OF p] by blast
  then show ?thesis using BranchDone b q
    by (auto simp: otel_turn_def progress_def requests_ok_def taken_items_def) (rule exI [of _ "[]"], simp)
next
  case BranchTick
  have "int (len (ow_batch w)) < limit + int width" using q(2) by linarith
  note f = flush_ok [OF b q(1) this l, of E]
  then show ?thesis using BranchTick p l flush_expand [of _ E w]
    by (auto simp: otel_turn_def progress_def)
next
  case BranchQueue
  show ?thesis
  proof (cases "ow_queue w")
    case Nil
    have "int (len (ow_batch w)) < limit + int width" using q(2) by linarith
    note f = flush_ok [OF b q(1) this l, of E]
    then show ?thesis using BranchQueue Nil p l flush_expand [of _ E w] b q
      by (cases "ow_closed w") (auto simp: otel_turn_def progress_def)
  next
    case (Cons blk rest)
    have "pinv (add_mset blk (mset (others @ rest))) (ow_pool w)" using p Cons by simp
    from release_inv [OF this] obtain p' where p': "release blk (ow_pool w) = Some p'" "pinv (mset (others @ rest)) p'"
      by blast
    let ?b = "fold add (rows blk) (ow_batch w)"
    define u where "u = w\<lparr>ow_batch := ?b, ow_queue := rest, ow_pool := p'\<rparr>"
    note fb = fold_items [OF b, of "rows blk"]
    have lb: "int (len ?b) < limit + int width"
      using len_items [OF b] len_items [of ?b] fb q(2) width [of blk] by simp
    have u: "binv (ow_batch u)" "requests_ok len limit width u" "int (len (ow_batch u)) < limit + int width"
      using fb q(1) lb by (simp_all add: u_def requests_ok_def)
    have ti: "taken_items items u = taken_items items w + sum_list (map (\<lambda>x. expand x (ow_batch w)) (rows blk))"
      using fb by (simp add: u_def taken_items_def ac_simps)
    have ex: "expand x (ow_batch u) = expand x (ow_batch w)" for x by (simp add: u_def fold_expand)
    have pr: "progress rows others limit width None w w'"
      if "binv (ow_batch w')" "taken_items items w' = taken_items items u" "requests_ok len limit width w'"
        "int (len (ow_batch w')) < limit" "ow_pool w' = ow_pool u" "ow_queue w' = ow_queue u"
        "\<And>x. expand x (ow_batch w') = expand x (ow_batch u)" for w'
      unfolding progress_def using that ti ex p'(2) Cons
      by (auto simp: u_def intro!: exI [of _ "[blk]"] exI [of _ "[]"])
    show ?thesis
    proof (cases "limit \<le> int (len ?b)")
      case True
      note f = flush_ok [OF u l, of E]
      have "progress rows others limit width None w (otel_flush fresh len E u)"
        using f l flush_expand [of _ E u] by (intro pr) auto
      then show ?thesis using True BranchQueue Cons p'(1) by (simp add: otel_turn_def u_def Let_def)
    next
      case False
      have "progress rows others limit width None w u" using u False by (intro pr) (auto simp: u_def)
      then show ?thesis using False BranchQueue Cons p'(1) by (simp add: otel_turn_def u_def Let_def)
    qed
  qed
qed

end


context exporter
begin

lemma run_ok:
  assumes "binv (ow_batch w)" and "pinv (mset (others @ ow_queue w)) (ow_pool w)" and l: "0 < limit"
    and "requests_ok len limit width w" "int (len (ow_batch w)) < limit"
    and width: "\<And>blk. size (sum_list (map (\<lambda>x. expand x (ow_batch w)) (rows blk))) \<le> width"
  shows "\<exists>r w'. otel_Run release (\<lambda>blk x. Some (fold add (rows blk) x)) fresh len limit E brs w = Some (r, w') \<and>
    progress rows others limit width r w w'"
  using assms
proof (induction brs arbitrary: w)
  case Nil
  have "progress rows others limit width None w w"
    unfolding progress_def using Nil.prems by (auto intro!: exI [of _ "[]"])
  then show ?case by auto
next
  case (Cons br brs)
  obtain r u where u: "otel_turn release (\<lambda>blk x. Some (fold add (rows blk) x)) fresh len limit E br w = Some (r, u)"
      "progress rows others limit width r w u"
    using turn_ok [where rows = rows and E = E and br = br, OF Cons.prems] by blast
  show ?case
  proof (cases r)
    case (Some e)
    then show ?thesis using u by auto
  next
    case None
    have ex: "\<And>x. expand x (ow_batch u) = expand x (ow_batch w)"
      and pu: "binv (ow_batch u)" "pinv (mset (others @ ow_queue u)) (ow_pool u)" "requests_ok len limit width u"
        "int (len (ow_batch u)) < limit"
      using u(2) unfolding progress_def by auto
    have "\<And>blk. size (sum_list (map (\<lambda>x. expand x (ow_batch u)) (rows blk))) \<le> width"
      using Cons.prems(6) ex by simp
    from Cons.IH [OF pu(1,2) l pu(3,4) this] obtain s v where
      v: "otel_Run release (\<lambda>blk x. Some (fold add (rows blk) x)) fresh len limit E brs u = Some (s, v)"
        "progress rows others limit width s u v" by blast
    obtain r1 where r1: "ow_queue w = r1 @ ow_queue u"
        "taken_items items u = taken_items items w +
          sum_list (map (\<lambda>b. sum_list (map (\<lambda>x. expand x (ow_batch w)) (rows b))) r1)"
      using u(2) None unfolding progress_def by auto
    obtain r2 rest where r2: "ow_queue u = r2 @ rest @ ow_queue v" "rest \<noteq> [] \<longrightarrow> s = Some OtelCanceled"
        "taken_items items v = taken_items items u +
          sum_list (map (\<lambda>b. sum_list (map (\<lambda>x. expand x (ow_batch u)) (rows b))) r2)"
      using v(2) unfolding progress_def by auto
    have "ow_queue w = (r1 @ r2) @ rest @ ow_queue v" using r1(1) r2(1) by simp
    moreover have "taken_items items v = taken_items items w +
          sum_list (map (\<lambda>b. sum_list (map (\<lambda>x. expand x (ow_batch w)) (rows b))) (r1 @ r2))"
      using r1(2) r2(3) by (simp add: ex ac_simps)
    ultimately have "progress rows others limit width s w v"
      using v(2) r2(2) ex unfolding progress_def by metis
    then show ?thesis using u(1) v(1) None by auto
  qed
qed

end

interpretation logs_exporter: exporter "gb_inv rl_LogRecords" gb_reset logs_add gb_count "gb_items rl_LogRecords"
  "\<lambda>r b. {#log_message r#}" bp_Acquire bp_Release bp_inv
  by unfold_locales

interpretation traces_exporter: exporter "gb_inv rs_Spans" gb_reset traces_add gb_count "gb_items rs_Spans"
  "\<lambda>r b. {#span_message r#}" bp_Acquire bp_Release bp_inv
  by unfold_locales

definition otel_newWorker :: "'p \<Rightarrow> nat list \<Rightarrow> bool \<Rightarrow> ('p, ('k, 'g) gbuilder) otel_worker" where
  "otel_newWorker p q shut =
     \<lparr>ow_batch = gb_new, ow_flushes = 0, ow_sent = [], ow_dropped = [], ow_failed = 0, ow_pool = p, ow_queue = q,
      ow_closed = shut\<rparr>"

definition otel_pipe :: "(nat \<times> nat) list \<Rightarrow> nat list \<Rightarrow> 'p \<Rightarrow> nat list \<Rightarrow> 'p pipe" where
  "otel_pipe H L p q = \<lparr>pi_pool = p, pi_held = H, pi_queue = q, pi_lost = L\<rparr>"

lemma size_sum_single: "size (sum_list (map (\<lambda>x. {#f x#}) xs)) = length xs"
  by (induction xs) simp_all

lemma sum_single: "sum_list (map (\<lambda>x. {#f x#}) xs) = mset (map f xs)"
  by (induction xs) simp_all

lemma gb_new_ok: "gb_inv msgs gb_new" "gb_items msgs gb_new = {#}" "gb_count gb_new = 0"
  by (simp_all add: gb_inv_def gb_items_def gb_new_def)


text \<open>
  C5. The exporter loses no row and no block: from any reachable state of the pipeline, whatever the
  exports return and the select branches taken, a run returns; the messages of the rows of the
  blocks read are, as a multiset, those of the requests sent, of the batches dropped after failed
  attempts and of the batch still open; blocks not read are still queued or were given back on
  cancellation; every block taken is back in the pool; a request is never empty and exceeds the
  batch size by less than one block; when the queue has been closed and read, nothing is left open.
\<close>

theorem otel_logs_conserved:
  assumes "(pipe_step bp_Acquire bp_Release cap)\<^sup>*\<^sup>* (pipe_start n ret) (otel_pipe H L p q)"
    and "\<And>b. logs_repr T (data b) (rows b)" and "\<And>b. length (rows b) \<le> width" and "0 < limit"
  shows "\<exists>r w read back. otel_Run bp_Release (\<lambda>b. logs_addBlock T (data b)) gb_reset gb_count limit E brs
        (otel_newWorker p q shut) = Some (r, w) \<and>
    q = read @ back @ ow_queue w \<and> (back \<noteq> [] \<longrightarrow> r = Some OtelCanceled) \<and>
    taken_items (gb_items rl_LogRecords) w = mset (map log_message (concat (map rows read))) \<and>
    bp_inv (mset (map snd H @ L @ ow_queue w)) (ow_pool w) \<and>
    (\<forall>x \<in> set (ow_sent w @ ow_dropped w). 0 < gb_count x \<and> int (gb_count x) < limit + int width) \<and>
    (r = Some OtelFinished \<longrightarrow> ow_queue w = [] \<and> gb_count (ow_batch w) = 0)"
proof -
  let ?w = "otel_newWorker p q shut :: (blockPool, logsBuilder) otel_worker"
  have a: "(\<lambda>b. logs_addBlock T (data b)) = (\<lambda>b x. Some (fold logs_add (rows b) x))"
    using logs_addBlock_rows [OF assms(2)] by (simp add: fun_eq_iff)
  have "bp_inv (mset (out_blocks (otel_pipe H L p q))) p"
    using reach_inv [OF assms(1)] by (simp add: otel_pipe_def)
  then have i: "bp_inv (mset ((map snd H @ L) @ ow_queue ?w)) (ow_pool ?w)"
    by (simp add: otel_pipe_def out_blocks_def otel_newWorker_def ac_simps)
  have s: "gb_inv rl_LogRecords (ow_batch ?w)" "requests_ok gb_count limit width ?w" "int (gb_count (ow_batch ?w)) < limit"
    "taken_items (gb_items rl_LogRecords) ?w = {#}" "ow_queue ?w = q"
    using assms(4) by (simp_all add: otel_newWorker_def gb_new_ok requests_ok_def taken_items_def flushed_items_def)
  obtain r w where w: "otel_Run bp_Release (\<lambda>b x. Some (fold logs_add (rows b) x)) gb_reset gb_count limit E brs ?w = Some (r, w)"
      "logs_exporter.progress rows (map snd H @ L) limit width r ?w w"
    using logs_exporter.run_ok [OF s(1) i assms(4) s(2,3), where rows = rows and E = E and brs = brs] assms(3) by (auto simp: size_sum_single)
  have m: "sum_list (map (\<lambda>b. mset (map log_message (rows b))) read) = mset (map log_message (concat (map rows read)))" for read
    by (induction read) simp_all
  show ?thesis
    unfolding a w(1) using w(2)
    unfolding logs_exporter.progress_def s sum_single m requests_ok_def by auto
qed

theorem otel_logs_conserved_witness:
  "\<exists>r w read back. otel_Run bp_Release (\<lambda>b. logs_addBlock unit_codec sample_logs) gb_reset gb_count 3
        \<lparr>oe_export = (\<lambda>n a. a = 3), oe_done = (\<lambda>n a. False), oe_wait_done = (\<lambda>n a. False)\<rparr>
        [BranchQueue, BranchTick, BranchQueue, BranchDone]
        (otel_newWorker ((NewBlockPool 4 0)\<lparr>bp_chan := [3]\<rparr>) [0, 1, 2] False) = Some (r, w) \<and>
    [0, 1, 2] = read @ back @ ow_queue w \<and>
    taken_items (gb_items rl_LogRecords) w =
      mset (map log_message (concat (map (\<lambda>b. [sample_log ''00ff'' ''x'', sample_log ''10ff'' ''yy'']) read)))"
proof -
  have "(pipe_step bp_Acquire bp_Release 3)\<^sup>*\<^sup>* (pipe_start 4 0)
      (otel_pipe [] [] ((NewBlockPool 4 0)\<lparr>bp_chan := [3]\<rparr>) [0, 1, 2])"
    using reach_sent [of 3 4 3 0] by (simp add: otel_pipe_def upt_rec numeral_2_eq_2 numeral_3_eq_3)
  from otel_logs_conserved [OF this sample_logs_repr, of 2 3
      "\<lparr>oe_export = (\<lambda>n a. a = 3), oe_done = (\<lambda>n a. False), oe_wait_done = (\<lambda>n a. False)\<rparr>"
      "[BranchQueue, BranchTick, BranchQueue, BranchDone]" False]
  show ?thesis by simp blast
qed

text \<open>The same for traces.\<close>

theorem otel_traces_conserved:
  assumes "(pipe_step bp_Acquire bp_Release cap)\<^sup>*\<^sup>* (pipe_start n ret) (otel_pipe H L p q)"
    and "\<And>b. traces_repr T (data b) (rows b)" and "\<And>b. length (rows b) \<le> width" and "0 < limit"
  shows "\<exists>r w read back. otel_Run bp_Release (\<lambda>b. traces_addBlock T (data b)) gb_reset gb_count limit E brs
        (otel_newWorker p q shut) = Some (r, w) \<and>
    q = read @ back @ ow_queue w \<and> (back \<noteq> [] \<longrightarrow> r = Some OtelCanceled) \<and>
    taken_items (gb_items rs_Spans) w = mset (map span_message (concat (map rows read))) \<and>
    bp_inv (mset (map snd H @ L @ ow_queue w)) (ow_pool w) \<and>
    (\<forall>x \<in> set (ow_sent w @ ow_dropped w). 0 < gb_count x \<and> int (gb_count x) < limit + int width) \<and>
    (r = Some OtelFinished \<longrightarrow> ow_queue w = [] \<and> gb_count (ow_batch w) = 0)"
proof -
  let ?w = "otel_newWorker p q shut :: (blockPool, tracesBuilder) otel_worker"
  have a: "(\<lambda>b. traces_addBlock T (data b)) = (\<lambda>b x. Some (fold traces_add (rows b) x))"
    using traces_addBlock_rows [OF assms(2)] by (simp add: fun_eq_iff)
  have "bp_inv (mset (out_blocks (otel_pipe H L p q))) p"
    using reach_inv [OF assms(1)] by (simp add: otel_pipe_def)
  then have i: "bp_inv (mset ((map snd H @ L) @ ow_queue ?w)) (ow_pool ?w)"
    by (simp add: otel_pipe_def out_blocks_def otel_newWorker_def ac_simps)
  have s: "gb_inv rs_Spans (ow_batch ?w)" "requests_ok gb_count limit width ?w" "int (gb_count (ow_batch ?w)) < limit"
    "taken_items (gb_items rs_Spans) ?w = {#}" "ow_queue ?w = q"
    using assms(4) by (simp_all add: otel_newWorker_def gb_new_ok requests_ok_def taken_items_def flushed_items_def)
  obtain r w where w: "otel_Run bp_Release (\<lambda>b x. Some (fold traces_add (rows b) x)) gb_reset gb_count limit E brs ?w = Some (r, w)"
      "traces_exporter.progress rows (map snd H @ L) limit width r ?w w"
    using traces_exporter.run_ok [OF s(1) i assms(4) s(2,3), where rows = rows and E = E and brs = brs] assms(3) by (auto simp: size_sum_single)
  have m: "sum_list (map (\<lambda>b. mset (map span_message (rows b))) read) = mset (map span_message (concat (map rows read)))" for read
    by (induction read) simp_all
  show ?thesis
    unfolding a w(1) using w(2)
    unfolding traces_exporter.progress_def s sum_single m requests_ok_def by auto
qed


theorem otel_traces_conserved_witness:
  "\<exists>r w read back. otel_Run bp_Release (\<lambda>b. traces_addBlock unit_codec sample_traces) gb_reset gb_count 3
        \<lparr>oe_export = (\<lambda>n a. False), oe_done = (\<lambda>n a. False), oe_wait_done = (\<lambda>n a. False)\<rparr>
        [BranchQueue, BranchTick, BranchQueue, BranchQueue, BranchQueue]
        (otel_newWorker ((NewBlockPool 4 0)\<lparr>bp_chan := [3]\<rparr>) [0, 1, 2] True) = Some (r, w) \<and>
    [0, 1, 2] = read @ back @ ow_queue w \<and> (r = Some OtelFinished \<longrightarrow> ow_queue w = [])"
proof -
  have "(pipe_step bp_Acquire bp_Release 3)\<^sup>*\<^sup>* (pipe_start 4 0)
      (otel_pipe [] [] ((NewBlockPool 4 0)\<lparr>bp_chan := [3]\<rparr>) [0, 1, 2])"
    using reach_sent [of 3 4 3 0] by (simp add: otel_pipe_def upt_rec numeral_2_eq_2 numeral_3_eq_3)
  from otel_traces_conserved [OF this sample_traces_repr, of 2 3
      "\<lparr>oe_export = (\<lambda>n a. False), oe_done = (\<lambda>n a. False), oe_wait_done = (\<lambda>n a. False)\<rparr>"
      "[BranchQueue, BranchTick, BranchQueue, BranchQueue, BranchQueue]" True]
  show ?thesis by simp blast
qed

section \<open>Flushing and targets: properties\<close>

definition otel_schedule :: "int list" where
  "otel_schedule = map (\<lambda>k. 250 * ns_per_ms * 2 ^ k) [0..<4]"

lemma otel_flush_loop_inv:
  assumes "otel_flush_loop E n att backoff ws = (ok, attempts, waits)"
    and "1 \<le> att" "att \<le> 5" and "att \<le> 4 \<longrightarrow> backoff = otel_schedule ! (att - 1)"
    and "ws = take (att - 1) otel_schedule"
  shows "att \<le> attempts \<and> attempts \<le> 5 \<and> waits = take (attempts - 1) otel_schedule \<and> ok = oe_export E n attempts \<and>
    (\<forall>a. att \<le> a \<and> a < attempts \<longrightarrow> \<not> oe_export E n a \<and> \<not> oe_done E n a \<and> \<not> oe_wait_done E n a)"
  using assms
proof (induction E n att backoff ws rule: otel_flush_loop.induct)
  case (1 E n att backoff ws)
  show ?case
  proof (cases "oe_export E n att \<or> oe_done E n att \<or> 5 \<le> att \<or> oe_wait_done E n att")
    case True
    then have "attempts = att" "waits = ws" "ok = oe_export E n att"
      using "1.prems"(1) by (auto simp: otel_flush_loop.simps [of E n att] split: if_splits)
    then show ?thesis using "1.prems" by auto
  next
    case False
    then have att: "att < 5" by simp
    have rec: "otel_flush_loop E n (att + 1) (min (backoff * 2) (5 * ns_per_s)) (ws @ [backoff]) = (ok, attempts, waits)"
      using "1.prems"(1) False by (simp add: otel_flush_loop.simps [of E n att])
    have b: "backoff = otel_schedule ! (att - 1)" using "1.prems"(4) att by simp
    have sched: "otel_schedule = [250000000, 500000000, 1000000000, 2000000000]"
      by (simp add: otel_schedule_def upt_rec)
    have "att = 1 \<or> att = 2 \<or> att = 3 \<or> att = 4" using "1.prems"(2) att by linarith
    then have next_b: "att + 1 \<le> 4 \<longrightarrow> min (backoff * 2) (5 * ns_per_s) = otel_schedule ! (att + 1 - 1)"
      and next_w: "ws @ [backoff] = take (att + 1 - 1) otel_schedule"
      unfolding b "1.prems"(5) sched by auto
    have IH: "att + 1 \<le> attempts \<and> attempts \<le> 5 \<and> waits = take (attempts - 1) otel_schedule \<and> ok = oe_export E n attempts \<and>
        (\<forall>a. att + 1 \<le> a \<and> a < attempts \<longrightarrow> \<not> oe_export E n a \<and> \<not> oe_done E n a \<and> \<not> oe_wait_done E n a)"
      using "1.IH" [OF _ _ _ rec _ _ next_b next_w] False att by simp
    then show ?thesis using False by (metis Suc_eq_plus1 Suc_leD less_eq_Suc_le nat_less_le order_le_less)
  qed
qed


text \<open>
  A flush makes at most five attempts, waits 250 ms, 500 ms, 1 s and 2 s between them, succeeds
  exactly when its last attempt does, and never tries again after a success or a cancellation.
\<close>

theorem otel_flush_bounded:
  "case otel_flush_loop E n 1 (250 * ns_per_ms) [] of (ok, attempts, waits) \<Rightarrow>
     1 \<le> attempts \<and> attempts \<le> 5 \<and> waits = take (attempts - 1) otel_schedule \<and> ok = oe_export E n attempts \<and>
     {a. 1 \<le> a \<and> a < attempts} \<inter> {a. oe_export E n a \<or> oe_done E n a \<or> oe_wait_done E n a} = {}"
proof -
  obtain ok attempts waits where f: "otel_flush_loop E n 1 (250 * ns_per_ms) [] = (ok, attempts, waits)"
    using prod_cases3 by blast
  have "otel_schedule ! 0 = 250 * ns_per_ms" by (simp add: otel_schedule_def upt_rec)
  with otel_flush_loop_inv [OF f] show ?thesis unfolding f by auto
qed

text \<open>Targets: over HTTP an explicit scheme wins over the insecure flag, over gRPC the flag wins.\<close>

lemma otel_scheme_rules:
  "contains raw ''://'' \<Longrightarrow> httpBaseURL parse raw True = httpBaseURL parse raw False"
  "otel_parseTarget (''https://'' @ host) = (host, False)"
  "oc_Insecure c \<Longrightarrow> otel_plaintext c"
  by (simp_all add: httpBaseURL_def raw_url_def otel_parseTarget_def hasPrefix_def trimPrefix_def otel_plaintext_def)

text \<open>The signal path is appended once.\<close>

lemma otel_signal_once:
  "hasSuffix (otel_signalPath path p) p"
  by (simp add: otel_signalPath_def hasSuffix_def Let_def)

lemma otel_withDefaults_positive:
  "0 < oc_FlushInterval (otel_withDefaults c) \<and> 0 < oc_Timeout (otel_withDefaults c)"
  by (simp add: otel_withDefaults_def Let_def)

lemma otel_Validate_ok:
  "otel_Validate c = None \<longleftrightarrow>
     \<not> oc_Enabled c \<or>
     oc_Protocol c \<in> {[], protocolGRPC, protocolHTTP} \<and> oc_URL c \<noteq> [] \<and> 1 \<le> oc_Threads c \<and> 1 \<le> oc_BatchSize c \<and>
     oc_Compression c \<in> {[], ''none'', ''gzip''}"
  by (auto simp: otel_Validate_def)

section \<open>The scheduler\<close>

text \<open>
  \<open>runWorker\<close> (\<open>scheduler.go\<close>): a worker that fails is started again after a wait that doubles with every
  failure and is never reset.
\<close>

definition otel_baseBackoff :: int where "otel_baseBackoff = 500 * 1000000"
definition otel_maxBackoff :: int where "otel_maxBackoff = 30 * 1000000000"

datatype otel_attempt = OtelNil | OtelCanceled | OtelErr

fun otel_waits :: "otel_attempt list \<Rightarrow> int \<Rightarrow> int list" where
  "otel_waits [] backoff = []"
| "otel_waits (a # as) backoff =
     (if a = OtelNil \<or> a = OtelCanceled then []
      else backoff # otel_waits as (min (backoff * 2) otel_maxBackoff))"

fun_cases otel_waits_endE: "otel_waits as b = []"

lemma otel_waits_from:
  "0 \<le> b \<Longrightarrow> b \<le> otel_maxBackoff \<Longrightarrow>
     otel_waits (replicate n OtelErr) b = map (\<lambda>k. min (b * 2 ^ k) otel_maxBackoff) [0..<n]"
proof (induction n arbitrary: b)
  case (Suc n)
  have "min (min (b * 2) otel_maxBackoff * 2 ^ k) otel_maxBackoff = min (b * 2 ^ Suc k) otel_maxBackoff" for k
    using Suc.prems by (intro min_doubling) simp_all
  then show ?case using Suc.IH [of "min (b * 2) otel_maxBackoff"] Suc.prems
    by (simp add: otel_maxBackoff_def upt_conv_Cons map_Suc_upt [symmetric] comp_def del: upt_Suc power_Suc)
qed simp

text \<open>The restart waits never end early: only a worker that stopped or was cancelled is not restarted.\<close>

lemma otel_waits_stop: "otel_waits as b = [] \<Longrightarrow> as = [] \<or> hd as \<noteq> OtelErr"
  by (erule otel_waits_endE) (auto split: if_splits)

end
