(* ===== verification/Metrics.thy ===== *)
theory Metrics
  imports OtelConv GoStrings "HOL-Library.List_Lexorder" "HOL-Library.Char_ord" "HOL-Library.AList" "HOL-Library.Sublist"
begin

text \<open>
  The metrics store (\<open>internal/metrics\<close>): the entries the workers send, the table one worker
  keeps of them, the snapshots it pushes to ClickHouse every second, and the OTLP emitter that
  exports the same table and the sample points. Go maps are association lists in some iteration
  order; a nil map is the empty list. The clock, the runtime statistics and the results of the
  driver are arguments.
\<close>

section \<open>Names and keys\<close>

text \<open>The names of \<open>names.go\<close>, in its three groups.\<close>

definition counterNames :: "string list" where
  "counterNames =
     [''disk_rows_total'', ''disk_bytes_compressed_total'', ''disk_bytes_uncompressed_total'',
      ''insert_rows_total'', ''insert_bytes_uncompressed_total'', ''insert_bytes_compressed_total'',
      ''insert_batches_total'', ''insert_rows_worker_total'',
      ''insert_bytes_uncompressed_worker_total'', ''insert_bytes_compressed_worker_total'',
      ''insert_batches_worker_total'', ''otel_rows_total'', ''otel_batches_total'',
      ''otel_bytes_total'', ''otel_exports_failed_total'', ''otel_rows_worker_total'',
      ''otel_batches_worker_total'', ''generate_rows_total'', ''generate_blocks_total'',
      ''generate_rows_worker_total'', ''metricgen_points_total'', ''metricgen_requests_total'',
      ''metricgen_bytes_total'', ''metricgen_exports_failed_total'',
      ''metricgen_points_rejected_total'', ''metricgen_points_worker_total'',
      ''metricgen_sweeps_worker_total'', ''disk_rows_worker_total'',
      ''disk_bytes_compressed_worker_total'', ''disk_bytes_uncompressed_worker_total'',
      ''queries_ok_worker_total'', ''queries_failed_worker_total'', ''blocks_retired_total'',
      ''insert_workers_retired_total'', ''queries_ok_total'', ''queries_failed_total'',
      ''preflights_ok_total'', ''preflights_failed_total'', ''program_gc_runs_total'',
      ''program_gc_pause_ns_total'', ''program_cpu_user_ns_total'', ''program_cpu_sys_ns_total'']"

definition gaugeNames :: "string list" where
  "gaugeNames =
     [''target_bytes_per_second'', ''target_generate_rows_per_second'',
      ''target_worker_bytes_per_second'', ''target_metricgen_points_per_second'',
      ''active_generators'', ''active_readers'', ''active_inserters'', ''active_otel_exporters'',
      ''active_metricgen_workers'', ''active_users'', ''block_pool_count'', ''block_pool_capacity'',
      ''block_queue_length'', ''program_heap_alloc_bytes'', ''program_sys_bytes'',
      ''program_num_goroutines'', ''program_next_gc_bytes'', ''program_num_cpu'']"

definition sampleNames :: "string list" where
  "sampleNames =
     [''query_latency_micros'', ''preflight_latency_micros'', ''otel_export_latency_micros'',
      ''metricgen_export_latency_micros'']"

datatype entryMode = EntryModeIncrement | EntryModeDecrement | EntryModeSet | EntryModePoint

record entry =
  en_Mode :: entryMode
  en_Timestamp :: int
  en_Name :: string
  en_AttrKey :: string
  en_AttrValue :: string
  en_Attributes :: "(string \<times> string) list"
  en_Value :: u64

datatype metricKey = MetricKey (mk_Name: string) (mk_AttrKey: string) (mk_AttrValue: string)

text \<open>The comparison \<open>buildRequest\<close> sorts by; Go compares strings byte by byte.\<close>

definition key_less :: "metricKey \<Rightarrow> metricKey \<Rightarrow> bool" where
  "key_less a b =
     (if mk_Name a \<noteq> mk_Name b then mk_Name a < mk_Name b
      else if mk_AttrKey a \<noteq> mk_AttrKey b then mk_AttrKey a < mk_AttrKey b
      else mk_AttrValue a < mk_AttrValue b)"

instantiation metricKey :: linorder
begin

definition less_metricKey :: "metricKey \<Rightarrow> metricKey \<Rightarrow> bool" where
  "less_metricKey = key_less"

definition less_eq_metricKey :: "metricKey \<Rightarrow> metricKey \<Rightarrow> bool" where
  "less_eq_metricKey a b \<longleftrightarrow> a = b \<or> key_less a b"

instance
proof
  fix a b c :: metricKey
  have irrefl: "\<not> key_less a a" and asym: "key_less a b \<Longrightarrow> \<not> key_less b a"
    and linear: "a \<noteq> b \<Longrightarrow> key_less a b \<or> key_less b a"
    by (cases a; cases b; auto simp: key_less_def split: if_splits)+
  have trans: "key_less a b \<Longrightarrow> key_less b c \<Longrightarrow> key_less a c"
    by (cases a; cases b; cases c; auto simp: key_less_def split: if_splits)
  show "a < b \<longleftrightarrow> a \<le> b \<and> \<not> b \<le> a"
    using irrefl asym by (auto simp: less_metricKey_def less_eq_metricKey_def)
  show "a \<le> a" by (simp add: less_eq_metricKey_def)
  show "a \<le> b \<Longrightarrow> b \<le> c \<Longrightarrow> a \<le> c" using trans by (auto simp: less_eq_metricKey_def)
  show "a \<le> b \<Longrightarrow> b \<le> a \<Longrightarrow> a = b" using asym by (auto simp: less_eq_metricKey_def)
  show "a \<le> b \<or> b \<le> a" using linear by (auto simp: less_eq_metricKey_def)
qed

end

text \<open>Reading a Go map: the zero value where the key is absent.\<close>

definition go_get :: "('k \<times> u64) list \<Rightarrow> 'k \<Rightarrow> u64" where
  "go_get m k = (case map_of m k of Some v \<Rightarrow> v | None \<Rightarrow> 0)"

lemma go_get_update [simp]: "go_get (AList.update k v m) k' = (if k' = k then v else go_get m k')"
  by (simp add: go_get_def update_conv')


section \<open>The request builder\<close>

datatype metricData = Sum | Gauge

record data_point =
  np_StartTimeUnixNano :: u64
  np_TimeUnixNano :: u64
  np_AsInt :: int
  np_Attributes :: "(string \<times> string) list"

record otlp_metric =
  om_Name :: string
  om_Data :: metricData
  om_DataPoints :: "data_point list"

record metrics_request =
  mq_Resource :: "(string \<times> string) list"
  mq_Scope :: "string \<times> string"
  mq_Metrics :: "otlp_metric list"

text \<open>
  The emitter. \<open>em_inFlight\<close> is the flag of the export that runs in its own goroutine.
\<close>

record emitter =
  em_resource :: "(string \<times> string) list"
  em_startTime :: int
  em_samples :: "entry list"
  em_dropped :: u64
  em_inFlight :: bool

definition sortedKVs :: "(string \<times> string) list \<Rightarrow> (string \<times> string) list" where
  "sortedKVs attributes =
     (if length attributes = 0 then []
      else map (\<lambda>k. (k, case map_of attributes k of Some v \<Rightarrow> v | None \<Rightarrow> '''')) (sort (map fst attributes)))"

definition buildOTLPResource ::
    "string \<Rightarrow> string \<Rightarrow> (string \<times> string) list \<Rightarrow> (string \<times> string) list" where
  "buildOTLPResource runID configName configAttributes =
     [(''service.name'', ''clickcannon''), (''service.instance.id'', runID),
      (''clickcannon.run_name'', configName)] @ sortedKVs configAttributes"

definition empty_metric :: "string \<Rightarrow> otlp_metric" where
  "empty_metric name =
     \<lparr>om_Name = name, om_Data = (if hasSuffix name ''_total'' then Sum else Gauge), om_DataPoints = []\<rparr>"

definition push_point :: "u64 \<Rightarrow> data_point \<Rightarrow> otlp_metric \<Rightarrow> otlp_metric" where
  "push_point startNano dp m =
     (case om_Data m of
        Sum \<Rightarrow> m\<lparr>om_DataPoints := om_DataPoints m @ [dp\<lparr>np_StartTimeUnixNano := startNano\<rparr>]\<rparr>
      | Gauge \<Rightarrow> m\<lparr>om_DataPoints := om_DataPoints m @ [dp]\<rparr>)"

type_synonym metricsBuilder = "(string, otlp_metric) gbuilder"

definition metricsAddPoint :: "u64 \<Rightarrow> string \<times> data_point \<Rightarrow> metricsBuilder \<Rightarrow> metricsBuilder" where
  "metricsAddPoint startNano p = gb_add (fst p) (empty_metric (fst p)) (push_point startNano (snd p))"

definition key_point :: "u64 \<Rightarrow> (metricKey \<times> u64) list \<Rightarrow> metricKey \<Rightarrow> string \<times> data_point" where
  "key_point nowNano snapshot key =
     (mk_Name key,
      \<lparr>np_StartTimeUnixNano = 0, np_TimeUnixNano = nowNano, np_AsInt = sint (go_get snapshot key),
       np_Attributes = (if mk_AttrKey key \<noteq> '''' then [(mk_AttrKey key, mk_AttrValue key)] else [])\<rparr>)"

definition sample_point :: "entry \<Rightarrow> string \<times> data_point" where
  "sample_point s =
     (en_Name s,
      \<lparr>np_StartTimeUnixNano = 0, np_TimeUnixNano = word_of_int (en_Timestamp s), np_AsInt = sint (en_Value s),
       np_Attributes = sortedKVs (en_Attributes s)\<rparr>)"

definition otlpScopeName :: string where "otlpScopeName = ''clickcannon.metrics''"
definition otlpScopeVersion :: string where "otlpScopeVersion = ''1.0.0''"

definition buildRequest ::
    "emitter \<Rightarrow> (metricKey \<times> u64) list \<Rightarrow> entry list \<Rightarrow> int \<Rightarrow> metrics_request" where
  "buildRequest e snapshot samples now =
     (let nowNano = word_of_int now;
          startNano = word_of_int (em_startTime e);
          keys = sort (map fst snapshot);
          b = fold (\<lambda>key. metricsAddPoint startNano (key_point nowNano snapshot key)) keys gb_new;
          b = fold (\<lambda>s. metricsAddPoint startNano (sample_point s)) samples b
      in \<lparr>mq_Resource = em_resource e, mq_Scope = (otlpScopeName, otlpScopeVersion),
          mq_Metrics = gb_order b\<rparr>)"

section \<open>The emitter\<close>

definition otlpMaxBufferedSamples :: nat where "otlpMaxBufferedSamples = 10000"

definition newOTLPEmitter :: "string \<Rightarrow> string \<Rightarrow> (string \<times> string) list \<Rightarrow> int \<Rightarrow> emitter" where
  "newOTLPEmitter runID configName configAttributes startTime =
     \<lparr>em_resource = buildOTLPResource runID configName configAttributes, em_startTime = startTime,
      em_samples = [], em_dropped = 0, em_inFlight = False\<rparr>"

definition addSample :: "entry \<Rightarrow> emitter \<Rightarrow> emitter" where
  "addSample m e =
     (let e = (if length (em_samples e) \<ge> otlpMaxBufferedSamples
               then e\<lparr>em_samples := drop 1 (em_samples e), em_dropped := em_dropped e + 1\<rparr> else e)
      in e\<lparr>em_samples := em_samples e @ [m]\<rparr>)"

definition drainSamples :: "emitter \<Rightarrow> entry list \<times> u64 \<times> emitter" where
  "drainSamples e = (em_samples e, em_dropped e, e\<lparr>em_samples := [], em_dropped := 0\<rparr>)"

text \<open>
  \<open>export\<close>: the request it hands to the goroutine, if any, and the overflow it logs. The
  goroutine clears the flag when the client returns, whatever it returns: \<open>em_exported\<close>.
\<close>

definition em_export ::
    "(metricKey \<times> u64) list \<Rightarrow> int \<Rightarrow> emitter \<Rightarrow> metrics_request option \<times> u64 \<times> emitter" where
  "em_export snapshot now e =
     (if em_inFlight e then (None, 0, e)
      else case drainSamples e of (samples, dropped, e) \<Rightarrow>
        if length snapshot = 0 \<and> length samples = 0 then (None, dropped, e\<lparr>em_inFlight := False\<rparr>)
        else (Some (buildRequest e snapshot samples now), dropped, e\<lparr>em_inFlight := True\<rparr>))"

definition em_exported :: "emitter \<Rightarrow> emitter" where
  "em_exported e = e\<lparr>em_inFlight := False\<rparr>"

definition em_flush ::
    "(metricKey \<times> u64) list \<Rightarrow> int \<Rightarrow> emitter \<Rightarrow> metrics_request option \<times> u64 \<times> emitter" where
  "em_flush snapshot now e =
     (case drainSamples e of (samples, dropped, e) \<Rightarrow>
        if length snapshot = 0 \<and> length samples = 0 then (None, dropped, e)
        else (Some (buildRequest e snapshot samples now), dropped, e))"

section \<open>The worker\<close>

text \<open>
  The state of the worker that its operations share; the ids, the targets and the SQL text do
  not change after \<open>NewWorker\<close>. \<open>wc_insertSQL\<close> says whether a ClickHouse sink is configured.
\<close>

record worker_config =
  wc_runID :: string
  wc_insertSQL :: bool
  wc_targetBytesPerSecond :: u64
  wc_targetGenerateRowsPerSecond :: u64
  wc_configAttributes :: "(string \<times> string) list"

record metrics_worker =
  mw_queue :: "entry list"
  mw_metrics :: "(metricKey \<times> u64) list"
  mw_points :: "entry list"
  mw_otlp :: "emitter option"

definition metricsQueueCap :: nat where "metricsQueueCap = 100000"

definition mw_new :: "emitter option \<Rightarrow> metrics_worker" where
  "mw_new otlp = \<lparr>mw_queue = [], mw_metrics = [], mw_points = [], mw_otlp = otlp\<rparr>"

text \<open>The calls of the producers: the entry each builds, and the send that never blocks.\<close>

definition mw_send :: "entry \<Rightarrow> metrics_worker \<Rightarrow> metrics_worker" where
  "mw_send m w =
     (if length (mw_queue w) < metricsQueueCap then w\<lparr>mw_queue := mw_queue w @ [m]\<rparr> else w)"

definition plain_entry :: "entryMode \<Rightarrow> string \<Rightarrow> u64 \<Rightarrow> entry" where
  "plain_entry mode name v =
     \<lparr>en_Mode = mode, en_Timestamp = 0, en_Name = name, en_AttrKey = '''', en_AttrValue = '''',
      en_Attributes = [], en_Value = v\<rparr>"

definition IncrementMetric :: "string \<Rightarrow> u64 \<Rightarrow> metrics_worker \<Rightarrow> metrics_worker" where
  "IncrementMetric name delta = mw_send (plain_entry EntryModeIncrement name delta)"

definition IncrementMetricWithAttr ::
    "string \<Rightarrow> u64 \<Rightarrow> string \<Rightarrow> string \<Rightarrow> metrics_worker \<Rightarrow> metrics_worker" where
  "IncrementMetricWithAttr name delta attrKey attrValue =
     mw_send ((plain_entry EntryModeIncrement name delta)\<lparr>en_AttrKey := attrKey, en_AttrValue := attrValue\<rparr>)"

definition DecrementMetric :: "string \<Rightarrow> u64 \<Rightarrow> metrics_worker \<Rightarrow> metrics_worker" where
  "DecrementMetric name delta = mw_send (plain_entry EntryModeDecrement name delta)"

definition SetMetric :: "string \<Rightarrow> u64 \<Rightarrow> metrics_worker \<Rightarrow> metrics_worker" where
  "SetMetric name v = mw_send (plain_entry EntryModeSet name v)"

definition AddMetricPoint :: "int \<Rightarrow> string \<Rightarrow> u64 \<Rightarrow> metrics_worker \<Rightarrow> metrics_worker" where
  "AddMetricPoint now name v = mw_send ((plain_entry EntryModePoint name v)\<lparr>en_Timestamp := now\<rparr>)"

definition AddMetricPointWithAttributes ::
    "int \<Rightarrow> string \<Rightarrow> u64 \<Rightarrow> (string \<times> string) list \<Rightarrow> metrics_worker \<Rightarrow> metrics_worker" where
  "AddMetricPointWithAttributes now name v attributes =
     mw_send ((plain_entry EntryModePoint name v)\<lparr>en_Timestamp := now, en_Attributes := attributes\<rparr>)"

definition GetMetric :: "string \<Rightarrow> metrics_worker \<Rightarrow> u64" where
  "GetMetric name w = go_get (mw_metrics w) (MetricKey name '''' '''')"

definition entry_key :: "entry \<Rightarrow> metricKey" where
  "entry_key m = MetricKey (en_Name m) (en_AttrKey m) (en_AttrValue m)"

definition applyMetricEntry :: "entry \<Rightarrow> metrics_worker \<Rightarrow> metrics_worker" where
  "applyMetricEntry m w =
     (let key = entry_key m;
          w = (if map_of (mw_metrics w) key = None \<and> en_Mode m \<noteq> EntryModePoint
               then w\<lparr>mw_metrics := AList.update key 0 (mw_metrics w)\<rparr> else w);
          old = go_get (mw_metrics w) key
      in case en_Mode m of
           EntryModeIncrement \<Rightarrow> w\<lparr>mw_metrics := AList.update key (old + en_Value m) (mw_metrics w)\<rparr>
         | EntryModeDecrement \<Rightarrow>
             if en_Value m \<ge> old then w\<lparr>mw_metrics := AList.update key 0 (mw_metrics w)\<rparr>
             else w\<lparr>mw_metrics := AList.update key (old - en_Value m) (mw_metrics w)\<rparr>
         | EntryModeSet \<Rightarrow> w\<lparr>mw_metrics := AList.update key (en_Value m) (mw_metrics w)\<rparr>
         | EntryModePoint \<Rightarrow> w\<lparr>mw_points := mw_points w @ [m], mw_otlp := map_option (addSample m) (mw_otlp w)\<rparr>)"

fun drain_entries :: "entry list \<Rightarrow> metrics_worker \<Rightarrow> metrics_worker" where
  "drain_entries [] w = w"
| "drain_entries (m # ms) w = drain_entries ms (applyMetricEntry m (w\<lparr>mw_queue := ms\<rparr>))"

definition drainQueue :: "metrics_worker \<Rightarrow> metrics_worker" where
  "drainQueue w = drain_entries (mw_queue w) w"

text \<open>What \<open>collectInternalMetrics\<close> reads of the block pool, the runtime and the kernel.\<close>

record internals =
  it_count :: u64
  it_capacity :: u64
  it_queueLen :: u64
  it_retired :: u64
  it_HeapAlloc :: u64
  it_Sys :: u64
  it_goroutines :: u64
  it_NumGC :: u64
  it_PauseTotalNs :: u64
  it_NextGC :: u64
  it_NumCPU :: u64
  it_rusage :: "(u64 \<times> u64) option"

definition internal_writes :: "worker_config \<Rightarrow> internals \<Rightarrow> (string \<times> u64) list" where
  "internal_writes c i =
     (let (cpuUser, cpuSys) = (case it_rusage i of Some p \<Rightarrow> p | None \<Rightarrow> (0, 0)) in
      [(''block_pool_count'', it_count i), (''block_pool_capacity'', it_capacity i),
       (''block_queue_length'', it_queueLen i), (''blocks_retired_total'', it_retired i),
       (''target_bytes_per_second'', wc_targetBytesPerSecond c),
       (''target_generate_rows_per_second'', wc_targetGenerateRowsPerSecond c),
       (''program_heap_alloc_bytes'', it_HeapAlloc i), (''program_sys_bytes'', it_Sys i),
       (''program_num_goroutines'', it_goroutines i), (''program_gc_runs_total'', it_NumGC i),
       (''program_gc_pause_ns_total'', it_PauseTotalNs i), (''program_next_gc_bytes'', it_NextGC i),
       (''program_num_cpu'', it_NumCPU i)] @
      (if cpuUser > 0 then [(''program_cpu_user_ns_total'', cpuUser), (''program_cpu_sys_ns_total'', cpuSys)]
       else []))"

definition collectInternalMetrics :: "worker_config \<Rightarrow> internals \<Rightarrow> metrics_worker \<Rightarrow> metrics_worker" where
  "collectInternalMetrics c i w =
     w\<lparr>mw_metrics := fold (\<lambda>(name, v). AList.update (MetricKey name '''' '''') v) (internal_writes c i) (mw_metrics w)\<rparr>"

definition snapshotAndReset :: "metrics_worker \<Rightarrow> (metricKey \<times> u64) list \<times> entry list \<times> metrics_worker" where
  "snapshotAndReset w = (mw_metrics w, mw_points w, w\<lparr>mw_points := []\<rparr>)"

definition snapshotCumulative :: "metrics_worker \<Rightarrow> (metricKey \<times> u64) list" where
  "snapshotCumulative w = mw_metrics w"

definition resetMetrics :: "metrics_worker \<Rightarrow> metrics_worker" where
  "resetMetrics w = w\<lparr>mw_points := []\<rparr>"

definition mergeAttributes :: "worker_config \<Rightarrow> (string \<times> string) list \<Rightarrow> (string \<times> string) list" where
  "mergeAttributes c pointAttr =
     (if length (wc_configAttributes c) = 0 then pointAttr
      else fold (\<lambda>(k, v). AList.update k v) pointAttr
             (fold (\<lambda>(k, v). AList.update k v) (wc_configAttributes c) []))"

text \<open>
  \<open>pushMetrics\<close>. A row is the five columns of the insert; \<open>prepared\<close>, \<open>appends\<close> and \<open>sent\<close>
  are what the driver answers. A batch that was not sent is closed, and its rows are lost.
\<close>

record metrics_row =
  mr_run :: string
  mr_name :: string
  mr_timestamp :: int
  mr_value :: u64
  mr_attributes :: "(string \<times> string) list"

record driver_world =
  dw_now :: int
  dw_prepared :: bool
  dw_appends :: "metrics_row \<Rightarrow> bool"
  dw_sent :: bool

datatype push_err = ErrPrepare | ErrAppend metrics_row | ErrSend

definition metric_row :: "worker_config \<Rightarrow> int \<Rightarrow> metricKey \<times> u64 \<Rightarrow> metrics_row" where
  "metric_row c now kv =
     (case kv of (key, v) \<Rightarrow>
        \<lparr>mr_run = wc_runID c, mr_name = mk_Name key, mr_timestamp = now, mr_value = v,
         mr_attributes = mergeAttributes c (if mk_AttrKey key \<noteq> '''' then [(mk_AttrKey key, mk_AttrValue key)] else [])\<rparr>)"

definition sample_row :: "worker_config \<Rightarrow> entry \<Rightarrow> metrics_row" where
  "sample_row c m =
     \<lparr>mr_run = wc_runID c, mr_name = en_Name m, mr_timestamp = en_Timestamp m, mr_value = en_Value m,
      mr_attributes = mergeAttributes c (en_Attributes m)\<rparr>"

fun append_rows :: "(metrics_row \<Rightarrow> bool) \<Rightarrow> metrics_row list \<Rightarrow> push_err + unit" where
  "append_rows ok [] = Inr ()"
| "append_rows ok (r # rs) = (if ok r then append_rows ok rs else Inl (ErrAppend r))"

definition pushMetrics ::
    "worker_config \<Rightarrow> driver_world \<Rightarrow> (metricKey \<times> u64) list \<Rightarrow> entry list \<Rightarrow> push_err + metrics_row list" where
  "pushMetrics c d snapshot pointSnapshot =
     (if \<not> dw_prepared d then Inl ErrPrepare
      else
        let rows = map (metric_row c (dw_now d)) snapshot @ map (sample_row c) pointSnapshot in
        case append_rows (dw_appends d) rows of
          Inl err \<Rightarrow> Inl err
        | Inr _ \<Rightarrow> if \<not> dw_sent d then Inl ErrSend else Inr rows)"

section \<open>The loop\<close>

text \<open>
  One event is one thing that happens to the worker: a producer's send, a branch of the select
  in \<open>Run\<close>, or the end of an export goroutine. \<open>metrics_out\<close> is what an observer sees of it.
\<close>

datatype mw_event =
    Call entry
  | TakeEntry
  | OtlpTick internals int
  | ExportDone
  | Tick internals driver_world

datatype metrics_out =
    Accepted entry
  | Applied entry
  | Overflow u64
  | Exported metrics_request
  | Pushed "push_err + metrics_row list"

definition export_out :: "metrics_request option \<Rightarrow> u64 \<Rightarrow> metrics_out list" where
  "export_out req dropped =
     (if dropped > 0 then [Overflow dropped] else []) @
     (case req of None \<Rightarrow> [] | Some r \<Rightarrow> [Exported r])"

definition mw_call :: "entry \<Rightarrow> metrics_worker \<Rightarrow> metrics_worker \<times> metrics_out list" where
  "mw_call m w = (mw_send m w, if length (mw_queue w) < metricsQueueCap then [Accepted m] else [])"

definition mw_take :: "metrics_worker \<Rightarrow> metrics_worker \<times> metrics_out list" where
  "mw_take w =
     (case mw_queue w of
        [] \<Rightarrow> (w, [])
      | m # ms \<Rightarrow> (applyMetricEntry m (w\<lparr>mw_queue := ms\<rparr>), [Applied m]))"

definition mw_otlp_tick ::
    "worker_config \<Rightarrow> internals \<Rightarrow> int \<Rightarrow> metrics_worker \<Rightarrow> metrics_worker \<times> metrics_out list" where
  "mw_otlp_tick c i now w =
     (case mw_otlp w of
        None \<Rightarrow> (w, [])
      | Some e \<Rightarrow>
          let w = collectInternalMetrics c i w in
          case em_export (snapshotCumulative w) now e of (req, dropped, e) \<Rightarrow>
            (w\<lparr>mw_otlp := Some e\<rparr>, export_out req dropped))"

definition mw_tick ::
    "worker_config \<Rightarrow> internals \<Rightarrow> driver_world \<Rightarrow> metrics_worker \<Rightarrow> metrics_worker \<times> metrics_out list" where
  "mw_tick c i d w =
     (let w = collectInternalMetrics c i w in
      if wc_insertSQL c then
        (case snapshotAndReset w of (snapshot, points, w) \<Rightarrow> (w, [Pushed (pushMetrics c d snapshot points)]))
      else (resetMetrics w, []))"

fun mw_step :: "worker_config \<Rightarrow> mw_event \<Rightarrow> metrics_worker \<Rightarrow> metrics_worker \<times> metrics_out list" where
  "mw_step c (Call m) w = mw_call m w"
| "mw_step c TakeEntry w = mw_take w"
| "mw_step c (OtlpTick i now) w = mw_otlp_tick c i now w"
| "mw_step c ExportDone w = (w\<lparr>mw_otlp := map_option em_exported (mw_otlp w)\<rparr>, [])"
| "mw_step c (Tick i d) w = mw_tick c i d w"

fun mw_run :: "worker_config \<Rightarrow> mw_event list \<Rightarrow> metrics_worker \<Rightarrow> metrics_worker \<times> metrics_out list" where
  "mw_run c [] w = (w, [])"
| "mw_run c (ev # evs) w =
     (case mw_step c ev w of (w, out) \<Rightarrow> case mw_run c evs w of (w, out') \<Rightarrow> (w, out @ out'))"

text \<open>The cancelled branch: the last partial interval is applied and flushed.\<close>

definition mw_stop ::
    "worker_config \<Rightarrow> internals \<Rightarrow> int \<Rightarrow> metrics_worker \<Rightarrow> metrics_worker \<times> metrics_out list" where
  "mw_stop c i now w =
     (case mw_otlp w of
        None \<Rightarrow> (w, [])
      | Some _ \<Rightarrow>
          let queued = mw_queue w; w = collectInternalMetrics c i (drainQueue w) in
          case mw_otlp w of
            None \<Rightarrow> (w, [])
          | Some e \<Rightarrow> (case em_flush (snapshotCumulative w) now e of (req, dropped, e) \<Rightarrow>
              (w\<lparr>mw_otlp := Some e\<rparr>, map Applied queued @ export_out req dropped)))"

section \<open>What happened\<close>

definition mw_accepted :: "metrics_out list \<Rightarrow> entry list" where
  "mw_accepted out = concat (map (\<lambda>x. case x of Accepted m \<Rightarrow> [m] | _ \<Rightarrow> []) out)"

definition mw_applied :: "metrics_out list \<Rightarrow> entry list" where
  "mw_applied out = concat (map (\<lambda>x. case x of Applied m \<Rightarrow> [m] | _ \<Rightarrow> []) out)"

definition points_of :: "entry list \<Rightarrow> entry list" where
  "points_of ms = filter (\<lambda>m. en_Mode m = EntryModePoint) ms"

text \<open>What the entries of a key make of its value.\<close>

definition entry_effect :: "entry \<Rightarrow> u64 \<Rightarrow> u64" where
  "entry_effect m v =
     (case en_Mode m of
        EntryModeIncrement \<Rightarrow> v + en_Value m
      | EntryModeDecrement \<Rightarrow> word_of_int (max 0 (uint v - uint (en_Value m)))
      | EntryModeSet \<Rightarrow> en_Value m
      | EntryModePoint \<Rightarrow> v)"

definition value_spec :: "metricKey \<Rightarrow> entry list \<Rightarrow> u64" where
  "value_spec k ms = fold entry_effect (filter (\<lambda>m. entry_key m = k) ms) 0"

definition internal_keys :: "metricKey set" where
  "internal_keys = (\<lambda>n. MetricKey n '''' '''') `
     {''block_pool_count'', ''block_pool_capacity'', ''block_queue_length'', ''blocks_retired_total'',
      ''target_bytes_per_second'', ''target_generate_rows_per_second'', ''program_heap_alloc_bytes'',
      ''program_sys_bytes'', ''program_num_goroutines'', ''program_gc_runs_total'',
      ''program_gc_pause_ns_total'', ''program_next_gc_bytes'', ''program_num_cpu'',
      ''program_cpu_user_ns_total'', ''program_cpu_sys_ns_total''}"

lemma parts_append [simp]:
  "mw_accepted (a @ b) = mw_accepted a @ mw_accepted b" "mw_applied (a @ b) = mw_applied a @ mw_applied b"
  "points_of (ms @ ns) = points_of ms @ points_of ns"
  by (simp_all add: mw_accepted_def mw_applied_def points_of_def)

lemma parts_simps [simp]:
  "mw_accepted [] = []" "mw_accepted (Accepted m # out) = m # mw_accepted out"
  "mw_accepted (Applied m # out) = mw_accepted out" "mw_accepted (Exported r # out) = mw_accepted out"
  "mw_accepted (Pushed p # out) = mw_accepted out" "mw_accepted (Overflow n # out) = mw_accepted out"
  "mw_applied [] = []" "mw_applied (Applied m # out) = m # mw_applied out"
  "mw_applied (Accepted m # out) = mw_applied out" "mw_applied (Exported r # out) = mw_applied out"
  "mw_applied (Pushed p # out) = mw_applied out" "mw_applied (Overflow n # out) = mw_applied out"
  "mw_accepted (map Applied ms) = []" "mw_applied (map Applied ms) = ms"
  by (simp_all add: mw_accepted_def mw_applied_def comp_def)

section \<open>The table\<close>

lemma decrement_effect:
  "(if d \<ge> v then 0 else v - d) = word_of_int (max 0 (uint (v :: u64) - uint d))"
proof (cases "d \<ge> v")
  case True
  then show ?thesis by (simp add: word_le_def max_def)
next
  case False
  then have "max 0 (uint v - uint d) = uint v - uint d" by (simp add: word_le_def)
  with False show ?thesis by simp
qed

lemma apply_metrics:
  assumes "t = (if map_of (mw_metrics w) (entry_key m) = None then AList.update (entry_key m) 0 (mw_metrics w)
     else mw_metrics w)"
  shows "mw_metrics (applyMetricEntry m w) =
     (if en_Mode m = EntryModePoint then mw_metrics w
      else AList.update (entry_key m) (entry_effect m (go_get t (entry_key m))) t)"
proof (cases "en_Mode m")
  case EntryModeDecrement
  show ?thesis
    unfolding entry_effect_def EntryModeDecrement entryMode.case decrement_effect [symmetric]
    by (cases "map_of (mw_metrics w) (entry_key m)")
      (simp_all add: applyMetricEntry_def Let_def assms EntryModeDecrement)
qed (simp_all add: applyMetricEntry_def Let_def assms entry_effect_def)

lemma apply_value:
  "go_get (mw_metrics (applyMetricEntry m w)) k =
     (if entry_key m = k then entry_effect m (go_get (mw_metrics w) k) else go_get (mw_metrics w) k)"
proof -
  define t where "t = (if map_of (mw_metrics w) (entry_key m) = None
    then AList.update (entry_key m) 0 (mw_metrics w) else mw_metrics w)"
  have same: "go_get t k = go_get (mw_metrics w) k" for k by (simp add: t_def go_get_def update_conv')
  show ?thesis by (simp add: apply_metrics [OF t_def] same entry_effect_def)
qed

lemma apply_queue [simp]: "mw_queue (applyMetricEntry m w) = mw_queue w"
  by (simp add: applyMetricEntry_def Let_def split: entryMode.split)

lemma internal_writes_keys:
  "(name, v) \<in> set (internal_writes c i) \<Longrightarrow> MetricKey name '''' '''' \<in> internal_keys"
  by (auto simp: internal_writes_def internal_keys_def split: option.splits if_splits)

lemma collect_value:
  assumes "k \<notin> internal_keys"
  shows "go_get (mw_metrics (collectInternalMetrics c i w)) k = go_get (mw_metrics w) k"
proof -
  have "go_get (fold (\<lambda>(name, v). AList.update (MetricKey name '''' '''') v) ws m) k = go_get m k"
    if "\<And>name v. (name, v) \<in> set ws \<Longrightarrow> MetricKey name '''' '''' \<noteq> k" for ws m
    using that
  proof (induction ws arbitrary: m)
    case (Cons x ws)
    obtain name v where x: "x = (name, v)" by (cases x)
    have here: "MetricKey name '''' '''' \<noteq> k" by (rule Cons.prems [of name v]) (simp add: x)
    have "go_get (fold (\<lambda>(name, v). AList.update (MetricKey name '''' '''') v) ws m') k = go_get m' k" for m'
      by (rule Cons.IH) (rule Cons.prems, rule list.set_intros)
    then show ?case using here by (simp add: x)
  qed simp
  then show ?thesis using assms internal_writes_keys unfolding collectInternalMetrics_def by fastforce
qed

lemma collect_rest [simp]:
  "mw_queue (collectInternalMetrics c i w) = mw_queue w"
  "mw_points (collectInternalMetrics c i w) = mw_points w"
  "mw_otlp (collectInternalMetrics c i w) = mw_otlp w"
  by (simp_all add: collectInternalMetrics_def)

section \<open>The run: lemmas\<close>

lemma export_out_parts [simp]:
  "mw_accepted (export_out req dropped) = []" "mw_applied (export_out req dropped) = []"
  by (simp_all add: export_out_def split: option.split)

text \<open>One event moves the accepted entries through the queue and gives the table their effect.\<close>

lemma step_flow:
  assumes "mw_step c ev w = (w', out)"
  shows "mw_queue w @ mw_accepted out = mw_applied out @ mw_queue w' \<and>
    (length (mw_queue w) \<le> metricsQueueCap \<longrightarrow> length (mw_queue w') \<le> metricsQueueCap) \<and>
    (k \<notin> internal_keys \<longrightarrow> go_get (mw_metrics w') k =
      fold entry_effect (filter (\<lambda>m. entry_key m = k) (mw_applied out)) (go_get (mw_metrics w) k))"
proof (cases ev)
  case (Call m)
  then show ?thesis using assms by (auto simp: mw_call_def mw_send_def)
next
  case TakeEntry
  then show ?thesis using assms by (auto simp: mw_take_def apply_value split: list.splits)
next
  case (OtlpTick i now)
  then show ?thesis
    using assms by (auto simp: mw_otlp_tick_def Let_def collect_value split: option.splits prod.splits)
next
  case ExportDone
  then show ?thesis using assms by auto
next
  case (Tick i d)
  then show ?thesis
    using assms
    by (auto simp: mw_tick_def Let_def collect_value snapshotAndReset_def resetMetrics_def split: if_splits)
qed

lemma run_flow:
  assumes "mw_run c evs w = (w', out)"
  shows "mw_queue w @ mw_accepted out = mw_applied out @ mw_queue w' \<and>
    (length (mw_queue w) \<le> metricsQueueCap \<longrightarrow> length (mw_queue w') \<le> metricsQueueCap) \<and>
    (k \<notin> internal_keys \<longrightarrow> go_get (mw_metrics w') k =
      fold entry_effect (filter (\<lambda>m. entry_key m = k) (mw_applied out)) (go_get (mw_metrics w) k))"
  using assms
proof (induction evs arbitrary: w out)
  case (Cons ev evs)
  obtain w1 o1 where s: "mw_step c ev w = (w1, o1)" by fastforce
  obtain o2 where r: "mw_run c evs w1 = (w', o2)" and out: "out = o1 @ o2"
    using Cons.prems s by (auto split: prod.splits)
  have "mw_queue w @ mw_accepted o1 @ mw_accepted o2 = mw_applied o1 @ mw_applied o2 @ mw_queue w'"
    using step_flow [OF s] Cons.IH [OF r] by (metis append.assoc)
  then show ?case using step_flow [OF s, of k] Cons.IH [OF r] by (simp add: out)
qed simp

lemma metrics_flow:
  assumes "mw_run c evs (mw_new otlp) = (w, out)"
  shows "mw_accepted out = mw_applied out @ mw_queue w"
  using run_flow [OF assms] by (simp add: mw_new_def)

lemma metrics_table:
  assumes "mw_run c evs (mw_new otlp) = (w, out)"
  shows "length (mw_queue w) \<le> metricsQueueCap \<and>
    (k \<notin> internal_keys \<longrightarrow> go_get (mw_metrics w) k = value_spec k (mw_applied out))"
  using run_flow [OF assms, of k] by (simp add: mw_new_def value_spec_def go_get_def)

text \<open>
  C9. The table: whatever the workers send and however their sends interleave with the ticks,
  the entries the queue takes are applied in the order they were accepted, none twice and none
  left out except those still queued, the queue stays within its bound, and the value of every
  key that is not one of the internal ones is exactly what the applied entries of that key make
  of zero: wrapping additions, a subtraction that stops at zero, and overwriting.
\<close>

theorem metrics_value:
  assumes "mw_run c evs (mw_new otlp) = (w, out)"
  shows "mw_accepted out = mw_applied out @ mw_queue w \<and> length (mw_queue w) \<le> metricsQueueCap \<and>
    (k \<notin> internal_keys \<longrightarrow> go_get (mw_metrics w) k = value_spec k (mw_applied out))"
  using metrics_flow [OF assms] metrics_table [OF assms] by blast

text \<open>Sending and taking one increment, then a decrement beyond it: the value stops at zero.\<close>

definition sample_events :: "mw_event list" where
  "sample_events =
     [Call (plain_entry EntryModeIncrement ''active_users'' 3), TakeEntry,
      Call (plain_entry EntryModeDecrement ''active_users'' 5),
      Call (plain_entry EntryModePoint ''query_latency_micros'' 7), TakeEntry, TakeEntry]"

definition push_config :: worker_config where
  "push_config =
     \<lparr>wc_runID = ''r'', wc_insertSQL = True, wc_targetBytesPerSecond = 0, wc_targetGenerateRowsPerSecond = 0,
      wc_configAttributes = []\<rparr>"

lemma sample_run:
  "mw_run push_config sample_events (mw_new None) =
     (\<lparr>mw_queue = [], mw_metrics = [(MetricKey ''active_users'' '''' '''', 0)],
       mw_points = [plain_entry EntryModePoint ''query_latency_micros'' 7], mw_otlp = None\<rparr>,
      [Accepted (plain_entry EntryModeIncrement ''active_users'' 3),
       Applied (plain_entry EntryModeIncrement ''active_users'' 3),
       Accepted (plain_entry EntryModeDecrement ''active_users'' 5),
       Accepted (plain_entry EntryModePoint ''query_latency_micros'' 7),
       Applied (plain_entry EntryModeDecrement ''active_users'' 5),
       Applied (plain_entry EntryModePoint ''query_latency_micros'' 7)])"
  by (simp add: sample_events_def mw_new_def mw_call_def mw_send_def metricsQueueCap_def mw_take_def
      applyMetricEntry_def entry_key_def plain_entry_def go_get_def Let_def)

theorem metrics_value_witness:
  "GetMetric ''active_users'' (fst (mw_run push_config sample_events (mw_new None))) = 0 \<and>
   value_spec (MetricKey ''active_users'' '''' '''')
     (mw_applied (snd (mw_run push_config sample_events (mw_new None)))) = 0"
proof -
  have key: "MetricKey ''active_users'' '''' '''' \<notin> internal_keys" by (auto simp: internal_keys_def)
  obtain w out where run: "mw_run push_config sample_events (mw_new None) = (w, out)" by fastforce
  have "go_get (mw_metrics w) (MetricKey ''active_users'' '''' '''') =
      value_spec (MetricKey ''active_users'' '''' '''') (mw_applied out)"
    using metrics_value [OF run] key by blast
  moreover have "go_get (mw_metrics w) (MetricKey ''active_users'' '''' '''') = 0"
    using run sample_run by (auto simp: go_get_def)
  ultimately show ?thesis by (simp add: run GetMetric_def)
qed

section \<open>Sample points: lemmas\<close>

definition mw_requests :: "metrics_out list \<Rightarrow> metrics_request list" where
  "mw_requests out = concat (map (\<lambda>x. case x of Exported r \<Rightarrow> [r] | _ \<Rightarrow> []) out)"

definition mw_overflowed :: "metrics_out list \<Rightarrow> u64" where
  "mw_overflowed out = sum_list (map (\<lambda>x. case x of Overflow n \<Rightarrow> n | _ \<Rightarrow> 0) out)"

definition mw_pushes :: "metrics_out list \<Rightarrow> (push_err + metrics_row list) list" where
  "mw_pushes out = concat (map (\<lambda>x. case x of Pushed p \<Rightarrow> [p] | _ \<Rightarrow> []) out)"

lemma parts2_simps [simp]:
  "mw_requests [] = []" "mw_requests (Accepted m # out) = mw_requests out" "mw_requests (Applied m # out) = mw_requests out"
  "mw_requests (Overflow n # out) = mw_requests out" "mw_requests (Exported r # out) = r # mw_requests out"
  "mw_requests (Pushed p # out) = mw_requests out"
  "mw_overflowed [] = 0" "mw_overflowed (Accepted m # out) = mw_overflowed out" "mw_overflowed (Applied m # out) = mw_overflowed out"
  "mw_overflowed (Overflow n # out) = n + mw_overflowed out" "mw_overflowed (Exported r # out) = mw_overflowed out"
  "mw_overflowed (Pushed p # out) = mw_overflowed out"
  "mw_pushes [] = []" "mw_pushes (Accepted m # out) = mw_pushes out" "mw_pushes (Applied m # out) = mw_pushes out"
  "mw_pushes (Overflow n # out) = mw_pushes out" "mw_pushes (Exported r # out) = mw_pushes out"
  "mw_pushes (Pushed p # out) = p # mw_pushes out"
  by (simp_all add: mw_requests_def mw_overflowed_def mw_pushes_def)

lemma parts2_append [simp]:
  "mw_requests (a @ b) = mw_requests a @ mw_requests b" "mw_overflowed (a @ b) = mw_overflowed a + mw_overflowed b"
  "mw_pushes (a @ b) = mw_pushes a @ mw_pushes b"
  by (simp_all add: mw_requests_def mw_overflowed_def mw_pushes_def)

lemma export_out_parts2 [simp]:
  "mw_requests (export_out req dropped) = (case req of None \<Rightarrow> [] | Some r \<Rightarrow> [r])"
  "mw_overflowed (export_out req dropped) = dropped" "mw_pushes (export_out req dropped) = []"
  by (simp_all add: export_out_def word_gt_0 split: option.split)

text \<open>
  A request carries the samples \<open>b\<close> of an emitter with resource and start time of \<open>e\<close>; the
  builder reads nothing else of the emitter.
\<close>

definition carries :: "emitter \<Rightarrow> metrics_request \<Rightarrow> entry list \<Rightarrow> bool" where
  "carries e r b \<longleftrightarrow> (\<exists>snapshot now. r = buildRequest e snapshot b now)"

lemma buildRequest_emitter:
  "em_resource e = em_resource e' \<Longrightarrow> em_startTime e = em_startTime e' \<Longrightarrow>
     buildRequest e snapshot b now = buildRequest e' snapshot b now"
  by (simp add: buildRequest_def)

text \<open>
  The account of the points: \<open>done\<close> went into requests, the buffer holds the rest in order, and
  what is missing was counted.
\<close>

definition sample_account :: "emitter \<Rightarrow> entry list \<Rightarrow> entry list \<Rightarrow> u64 \<Rightarrow> emitter \<Rightarrow> bool" where
  "sample_account e0 points sent lost e \<longleftrightarrow>
     em_resource e = em_resource e0 \<and> em_startTime e = em_startTime e0 \<and>
     length (em_samples e) \<le> otlpMaxBufferedSamples \<and>
     subseq (sent @ em_samples e) points \<and> suffix (em_samples e) points \<and>
     (of_nat (length points) :: u64) = of_nat (length (sent @ em_samples e)) + lost + em_dropped e \<and>
     (length points \<le> otlpMaxBufferedSamples \<longrightarrow> sent @ em_samples e = points)"

lemma addSample_account:
  assumes "sample_account e0 points sent lost e"
  shows "sample_account e0 (points @ [m]) sent lost (addSample m e)"
proof (cases "length (em_samples e) \<ge> otlpMaxBufferedSamples")
  case False
  then show ?thesis
    using assms by (auto simp: sample_account_def addSample_def suffix_def)
next
  case True
  then obtain x xs where s: "em_samples e = x # xs"
    by (cases "em_samples e") (auto simp: otlpMaxBufferedSamples_def)
  have "subseq (sent @ xs) (sent @ x # xs)"
    by (intro list_emb_append_mono list_emb_Cons) simp_all
  then have sub: "subseq (sent @ xs) points"
    using assms s by (auto simp: sample_account_def intro: subseq_order.order_trans)
  have long: "otlpMaxBufferedSamples \<le> length points"
    using assms True by (auto simp: sample_account_def dest!: suffix_length_le)
  have "suffix xs points" using assms s by (auto simp: sample_account_def suffix_def)
  moreover have "subseq (sent @ xs @ [m]) (points @ [m])" using list_emb_append_mono [OF sub, of "[m]" "[m]"] by simp
  moreover have "length (x # xs) = otlpMaxBufferedSamples" using assms True by (simp add: sample_account_def s)
  then have "(of_nat otlpMaxBufferedSamples :: u64) = 1 + of_nat (length xs)"
    by (metis length_Cons of_nat_Suc)
  ultimately show ?thesis
    using assms True long by (simp add: sample_account_def addSample_def s algebra_simps)
qed

lemma drain_account:
  assumes "sample_account e0 points sent lost e"
    and "em_resource e' = em_resource e" "em_startTime e' = em_startTime e" "em_samples e' = []" "em_dropped e' = 0"
  shows "sample_account e0 points (sent @ em_samples e) (lost + em_dropped e) e'"
  using assms by (simp add: sample_account_def ac_simps)

lemma em_export_account:
  assumes acc: "sample_account e0 points sent lost e" and run: "em_export snapshot now e = (req, dropped, e')"
  shows "\<exists>b. (case req of None \<Rightarrow> b = [] | Some r \<Rightarrow> carries e0 r b) \<and>
    sample_account e0 points (sent @ b) (lost + dropped) e'"
proof (cases "em_inFlight e")
  case True
  then show ?thesis using assms by (auto simp: em_export_def)
next
  case False
  have d: "dropped = em_dropped e"
    and e': "em_resource e' = em_resource e" "em_startTime e' = em_startTime e" "em_samples e' = []" "em_dropped e' = 0"
    using run False by (auto simp: em_export_def drainSamples_def split: if_splits)
  have "case req of None \<Rightarrow> em_samples e = [] | Some r \<Rightarrow> carries e0 r (em_samples e)"
  proof (cases "length snapshot = 0 \<and> length (em_samples e) = 0")
    case True
    then show ?thesis using run False by (auto simp: em_export_def drainSamples_def)
  next
    case nonempty: False
    then have "req = Some (buildRequest (e\<lparr>em_samples := [], em_dropped := 0\<rparr>) snapshot (em_samples e) now)"
      using run False by (auto simp: em_export_def drainSamples_def)
    then show ?thesis using acc unfolding carries_def sample_account_def
      by (auto intro!: exI [of _ snapshot] exI [of _ now] buildRequest_emitter)
  qed
  then show ?thesis using drain_account [OF acc e'] d by (intro exI [of _ "em_samples e"]) auto
qed

lemma apply_otlp:
  "mw_otlp (applyMetricEntry m w) =
     (if en_Mode m = EntryModePoint then map_option (addSample m) (mw_otlp w) else mw_otlp w)"
  "mw_points (applyMetricEntry m w) = mw_points w @ points_of [m]"
  by (simp_all add: applyMetricEntry_def Let_def points_of_def split: entryMode.split)

lemma step_samples:
  assumes step: "mw_step c ev w = (w', out)" and w: "mw_otlp w = Some e"
    and acc: "sample_account e0 points sent lost e"
  shows "\<exists>e' bs. mw_otlp w' = Some e' \<and> list_all2 (carries e0) (mw_requests out) bs \<and>
    sample_account e0 (points @ points_of (mw_applied out)) (sent @ concat bs) (lost + mw_overflowed out) e'"
proof (cases ev)
  case (Call m)
  then show ?thesis using assms by (auto simp: mw_call_def mw_send_def points_of_def)
next
  case TakeEntry
  show ?thesis
  proof (cases "mw_queue w")
    case Nil
    then show ?thesis using assms TakeEntry by (auto simp: mw_take_def points_of_def)
  next
    case (Cons m ms)
    then show ?thesis
      using assms TakeEntry addSample_account [OF acc, of m]
      by (auto simp: mw_take_def apply_otlp points_of_def)
  qed
next
  case (OtlpTick i now)
  let ?s = "snapshotCumulative (collectInternalMetrics c i w)"
  obtain req dropped e' where x: "em_export ?s now e = (req, dropped, e')" by (metis prod_cases3)
  obtain b where b: "case req of None \<Rightarrow> b = [] | Some r \<Rightarrow> carries e0 r b"
    and acc': "sample_account e0 points (sent @ b) (lost + dropped) e'"
    using em_export_account [OF acc x] by blast
  have out: "out = export_out req dropped" and w': "mw_otlp w' = Some e'"
    using step OtlpTick w x by (auto simp: mw_otlp_tick_def Let_def)
  show ?thesis
  proof (cases req)
    case None
    then show ?thesis using b acc' out w' by (auto simp: points_of_def)
  next
    case (Some r)
    then show ?thesis using b acc' out w' by (intro exI [of _ e'] exI [of _ "[b]"]) (auto simp: points_of_def)
  qed
next
  case ExportDone
  have "sample_account e0 points sent lost (em_exported e)"
    using acc by (simp add: sample_account_def em_exported_def)
  then show ?thesis using assms ExportDone by (auto simp: points_of_def)
next
  case (Tick i d)
  then show ?thesis
    using assms by (auto simp: mw_tick_def Let_def snapshotAndReset_def resetMetrics_def points_of_def split: if_splits)
qed

lemma run_samples:
  assumes "mw_run c evs w = (w', out)" and "mw_otlp w = Some e" and "sample_account e0 points sent lost e"
  shows "\<exists>e' bs. mw_otlp w' = Some e' \<and> list_all2 (carries e0) (mw_requests out) bs \<and>
    sample_account e0 (points @ points_of (mw_applied out)) (sent @ concat bs) (lost + mw_overflowed out) e'"
  using assms
proof (induction evs arbitrary: w e points sent lost out)
  case Nil
  then show ?case by (auto simp: points_of_def)
next
  case (Cons ev evs)
  obtain w1 o1 where s: "mw_step c ev w = (w1, o1)" by fastforce
  obtain o2 where r: "mw_run c evs w1 = (w', o2)" and out: "out = o1 @ o2"
    using Cons.prems(1) s by (auto split: prod.splits)
  obtain e1 b1 where one: "mw_otlp w1 = Some e1" "list_all2 (carries e0) (mw_requests o1) b1"
    "sample_account e0 (points @ points_of (mw_applied o1)) (sent @ concat b1) (lost + mw_overflowed o1) e1"
    using step_samples [OF s Cons.prems(2,3)] by blast
  obtain e' b2 where two: "mw_otlp w' = Some e'" "list_all2 (carries e0) (mw_requests o2) b2"
    "sample_account e0 ((points @ points_of (mw_applied o1)) @ points_of (mw_applied o2))
       ((sent @ concat b1) @ concat b2) ((lost + mw_overflowed o1) + mw_overflowed o2) e'"
    using Cons.IH [OF r one(1,3)] by blast
  show ?case
    by (intro exI [of _ e'] exI [of _ "b1 @ b2"])
      (use one two in \<open>auto simp: out ac_simps intro: list_all2_appendI\<close>)
qed


text \<open>One point, sent, taken and exported.\<close>

definition no_internals :: internals where
  "no_internals =
     \<lparr>it_count = 0, it_capacity = 0, it_queueLen = 0, it_retired = 0, it_HeapAlloc = 0, it_Sys = 0,
      it_goroutines = 0, it_NumGC = 0, it_PauseTotalNs = 0, it_NextGC = 0, it_NumCPU = 0, it_rusage = None\<rparr>"

definition point_events :: "mw_event list" where
  "point_events =
     [Call (plain_entry EntryModePoint ''query_latency_micros'' 7), TakeEntry, OtlpTick no_internals 5]"

lemma point_events_applied:
  "mw_applied (snd (mw_run push_config point_events (mw_new (Some e)))) =
     [plain_entry EntryModePoint ''query_latency_micros'' 7]"
  by (simp add: point_events_def mw_new_def mw_call_def mw_send_def metricsQueueCap_def mw_take_def
      mw_otlp_tick_def Let_def plain_entry_def split: option.splits prod.splits)


section \<open>Rows of the ClickHouse sink: lemmas\<close>

lemma append_rows_Inr: "append_rows ok rs = Inr () \<longleftrightarrow> (\<forall>r \<in> set rs. ok r)"
  by (induction rs) auto

text \<open>A push wrote the points \<open>b\<close> with one snapshot of the table, or failed and lost them.\<close>

definition wrote :: "worker_config \<Rightarrow> push_err + metrics_row list \<Rightarrow> entry list \<Rightarrow> bool" where
  "wrote c p b \<longleftrightarrow>
     (case p of
        Inl _ \<Rightarrow> True
      | Inr rows \<Rightarrow> \<exists>snapshot now. rows = map (metric_row c now) snapshot @ map (sample_row c) b)"

lemma pushMetrics_wrote: "wrote c (pushMetrics c d snapshot points) points"
  by (auto simp: wrote_def pushMetrics_def Let_def split: sum.splits)

lemma step_pushes:
  assumes sink: "wc_insertSQL c" and step: "mw_step c ev w = (w', out)"
  shows "\<exists>bs. list_all2 (wrote c) (mw_pushes out) bs \<and>
    mw_points w @ points_of (mw_applied out) = concat bs @ mw_points w'"
proof (cases ev)
  case (Call m)
  then show ?thesis using step by (auto simp: mw_call_def mw_send_def points_of_def)
next
  case TakeEntry
  then show ?thesis
    using step by (intro exI [of _ "[]"]) (auto simp: mw_take_def apply_otlp points_of_def split: list.splits)
next
  case (OtlpTick i now)
  then show ?thesis
    using step by (intro exI [of _ "[]"]) (auto simp: mw_otlp_tick_def Let_def points_of_def split: option.splits prod.splits)
next
  case ExportDone
  then show ?thesis using step by (auto simp: points_of_def)
next
  case (Tick i d)
  then show ?thesis
    using step sink
    by (intro exI [of _ "[mw_points w]"])
      (auto simp: mw_tick_def Let_def snapshotAndReset_def points_of_def pushMetrics_wrote)
qed

lemma run_pushes:
  assumes "wc_insertSQL c" and "mw_run c evs w = (w', out)"
  shows "\<exists>bs. list_all2 (wrote c) (mw_pushes out) bs \<and>
    mw_points w @ points_of (mw_applied out) = concat bs @ mw_points w'"
  using assms(2)
proof (induction evs arbitrary: w out)
  case Nil
  then show ?case by (auto simp: points_of_def)
next
  case (Cons ev evs)
  obtain w1 o1 where s: "mw_step c ev w = (w1, o1)" by fastforce
  obtain o2 where r: "mw_run c evs w1 = (w', o2)" and out: "out = o1 @ o2"
    using Cons.prems s by (auto split: prod.splits)
  obtain b1 where one: "list_all2 (wrote c) (mw_pushes o1) b1"
    "mw_points w @ points_of (mw_applied o1) = concat b1 @ mw_points w1"
    using step_pushes [OF assms(1) s] by blast
  obtain b2 where two: "list_all2 (wrote c) (mw_pushes o2) b2"
    "mw_points w1 @ points_of (mw_applied o2) = concat b2 @ mw_points w'"
    using Cons.IH [OF r] by blast
  have "mw_points w @ points_of (mw_applied o1) @ points_of (mw_applied o2) = concat b1 @ concat b2 @ mw_points w'"
    using one(2) two(2) by (metis append.assoc)
  then show ?case
    by (intro exI [of _ "b1 @ b2"]) (use one(1) two(1) in \<open>auto simp: out intro: list_all2_appendI\<close>)
qed

text \<open>
  The ClickHouse sink sees every applied sample point exactly once and in order: the points
  of the pushes and the points still held are the applied ones; a push that the driver refused
  loses its own points and nothing else.
\<close>

theorem pushes_exact:
  assumes "wc_insertSQL c" and "mw_run c evs (mw_new otlp) = (w, out)"
  shows "\<exists>bs. list_all2 (wrote c) (mw_pushes out) bs \<and> points_of (mw_applied out) = concat bs @ mw_points w"
  using run_pushes [OF assms] by (simp add: mw_new_def)

theorem pushes_exact_witness:
  "\<exists>bs. list_all2 (wrote push_config) (mw_pushes (snd (mw_run push_config sample_events (mw_new None)))) bs \<and>
     points_of (mw_applied (snd (mw_run push_config sample_events (mw_new None)))) =
     concat bs @ mw_points (fst (mw_run push_config sample_events (mw_new None)))"
  by (rule pushes_exact [of push_config sample_events None]) (simp_all add: push_config_def)

section \<open>Shutdown: lemmas\<close>

lemma drain_entries_flow:
  "mw_queue (drain_entries ms w) = (if ms = [] then mw_queue w else []) \<and>
   go_get (mw_metrics (drain_entries ms w)) k =
     fold entry_effect (filter (\<lambda>m. entry_key m = k) ms) (go_get (mw_metrics w) k)"
proof (induction ms arbitrary: w)
  case (Cons m ms)
  show ?case using Cons [of "applyMetricEntry m (w\<lparr>mw_queue := ms\<rparr>)"] by (simp add: apply_value)
qed simp

lemma drain_entries_account:
  assumes "mw_otlp w = Some e" and "sample_account e0 points sent lost e"
  shows "\<exists>e'. mw_otlp (drain_entries ms w) = Some e' \<and> sample_account e0 (points @ points_of ms) sent lost e'"
  using assms
proof (induction ms arbitrary: w e points)
  case Nil
  then show ?case by (auto simp: points_of_def)
next
  case (Cons m ms)
  let ?w = "applyMetricEntry m (w\<lparr>mw_queue := ms\<rparr>)"
  let ?e = "if en_Mode m = EntryModePoint then addSample m e else e"
  have "mw_otlp ?w = Some ?e" using Cons.prems(1) by (simp add: apply_otlp)
  moreover have "sample_account e0 (points @ points_of [m]) sent lost ?e"
    using Cons.prems(2) addSample_account [OF Cons.prems(2), of m] by (simp add: points_of_def)
  ultimately have "\<exists>e'. mw_otlp (drain_entries ms ?w) = Some e' \<and>
      sample_account e0 ((points @ points_of [m]) @ points_of ms) sent lost e'"
    by (rule Cons.IH)
  then show ?case using parts_append(3) [of "[m]" ms] by simp
qed

lemma collect_nonempty: "mw_metrics (collectInternalMetrics c i w) \<noteq> []"
proof -
  have "fold (\<lambda>(name, v). AList.update (MetricKey name '''' '''') v) ws m \<noteq> []" if "m \<noteq> [] \<or> ws \<noteq> []" for ws m
    using that
  proof (induction ws arbitrary: m)
    case (Cons x ws)
    have "(\<lambda>(name, v). AList.update (MetricKey name '''' '''') v) x m \<noteq> []" by (cases x; cases m) auto
    then show ?case using Cons.IH by simp
  qed simp
  then show ?thesis by (simp add: collectInternalMetrics_def internal_writes_def Let_def split: prod.split option.split)
qed

lemma requests_Applied [simp]: "mw_requests (map Applied ms) = []"
  by (induction ms) simp_all

lemma em_flush_account:
  assumes acc: "sample_account e0 points sent lost e" and snapshot: "snapshot \<noteq> []"
    and run: "em_flush snapshot now e = (req, dropped, e')"
  shows "req = Some (buildRequest e0 snapshot (em_samples e) now) \<and> em_samples e' = []"
proof -
  have "buildRequest (e\<lparr>em_samples := [], em_dropped := 0\<rparr>) snapshot (em_samples e) now =
      buildRequest e0 snapshot (em_samples e) now"
    using acc by (intro buildRequest_emitter) (simp_all add: sample_account_def)
  then show ?thesis using run snapshot by (auto simp: em_flush_def drainSamples_def)
qed

text \<open>
  C11. Shutdown: on cancellation the worker applies everything still queued and its last request
  goes out with it: nothing accepted is left, the last snapshot holds for every key the value of
  all its accepted entries, and, unless the point buffer can have overflowed, the points of all
  the requests are the accepted points, in order.
\<close>

theorem shutdown_complete:
  assumes "mw_run c evs (mw_new (Some (newOTLPEmitter runID configName attrs t0))) = (w, out)"
    and "mw_stop c i now w = (w', out')"
  shows "mw_queue w' = [] \<and> mw_accepted out = mw_applied (out @ out') \<and>
    (\<exists>snapshot bs b.
       list_all2 (carries (newOTLPEmitter runID configName attrs t0)) (mw_requests out) bs \<and>
       mw_requests out' = [buildRequest (newOTLPEmitter runID configName attrs t0) snapshot b now] \<and>
       (\<forall>k. k \<notin> internal_keys \<longrightarrow> go_get snapshot k = value_spec k (mw_accepted out)) \<and>
       (length (points_of (mw_accepted out)) \<le> otlpMaxBufferedSamples \<longrightarrow>
         concat bs @ b = points_of (mw_accepted out)))"
proof -
  let ?e0 = "newOTLPEmitter runID configName attrs t0"
  have "sample_account ?e0 [] [] 0 ?e0" by (simp add: sample_account_def newOTLPEmitter_def)
  moreover have "mw_otlp (mw_new (Some ?e0)) = Some ?e0" by (simp add: mw_new_def)
  ultimately have "\<exists>e bs. mw_otlp w = Some e \<and> list_all2 (carries ?e0) (mw_requests out) bs \<and>
      sample_account ?e0 ([] @ points_of (mw_applied out)) ([] @ concat bs) (0 + mw_overflowed out) e"
    using run_samples [OF assms(1)] by blast
  then obtain e bs where e: "mw_otlp w = Some e" and bs: "list_all2 (carries ?e0) (mw_requests out) bs"
    and acc: "sample_account ?e0 (points_of (mw_applied out)) (concat bs) (mw_overflowed out) e"
    by auto
  let ?q = "mw_queue w" and ?d = "drainQueue w"
  obtain e1 where e1: "mw_otlp ?d = Some e1"
    and acc1: "sample_account ?e0 (points_of (mw_applied out) @ points_of ?q) (concat bs) (mw_overflowed out) e1"
    using drain_entries_account [OF e acc] unfolding drainQueue_def by blast
  let ?w = "collectInternalMetrics c i ?d"
  obtain req dropped e2 where f: "em_flush (snapshotCumulative ?w) now e1 = (req, dropped, e2)"
    by (metis prod_cases3)
  have req: "req = Some (buildRequest ?e0 (mw_metrics ?w) (em_samples e1) now)"
    using em_flush_account [OF acc1 _ f] collect_nonempty by (simp add: snapshotCumulative_def)
  have w': "w' = ?w\<lparr>mw_otlp := Some e2\<rparr>" and out': "out' = map Applied ?q @ export_out req dropped"
    using assms(2) e e1 f by (auto simp: mw_stop_def Let_def)
  have flow: "mw_accepted out = mw_applied out @ ?q" using metrics_flow [OF assms(1)] by simp
  have queue: "mw_queue w' = []" by (simp add: w' drainQueue_def drain_entries_flow)
  have points: "points_of (mw_accepted out) = points_of (mw_applied out) @ points_of ?q" by (simp add: flow)
  have "go_get (mw_metrics ?w) k = value_spec k (mw_accepted out)" if "k \<notin> internal_keys" for k
  proof -
    have "go_get (mw_metrics w) k = value_spec k (mw_applied out)"
      using metrics_table [OF assms(1)] that by blast
    then show ?thesis using that
      by (simp add: collect_value drainQueue_def drain_entries_flow flow value_spec_def)
  qed
  moreover have "mw_requests out' = [buildRequest ?e0 (mw_metrics ?w) (em_samples e1) now]"
    by (simp add: out' req requests_Applied)
  moreover have "length (points_of (mw_accepted out)) \<le> otlpMaxBufferedSamples \<longrightarrow>
      concat bs @ em_samples e1 = points_of (mw_accepted out)"
    using acc1 unfolding sample_account_def points by blast
  moreover have "mw_accepted out = mw_applied (out @ out')" by (simp add: flow out')
  ultimately show ?thesis using queue bs by blast
qed

theorem shutdown_complete_witness:
  "\<exists>w out w' out' snapshot.
     mw_run push_config [Call (plain_entry EntryModePoint ''query_latency_micros'' 7)]
       (mw_new (Some (newOTLPEmitter ''r'' ''c'' [] 0))) = (w, out) \<and>
     mw_stop push_config no_internals 9 w = (w', out') \<and>
     mw_requests out' = [buildRequest (newOTLPEmitter ''r'' ''c'' [] 0) snapshot
       [plain_entry EntryModePoint ''query_latency_micros'' 7] 9]"
proof -
  let ?e0 = "newOTLPEmitter ''r'' ''c'' [] 0" and ?P = "plain_entry EntryModePoint ''query_latency_micros'' 7"
  obtain w out where run: "mw_run push_config [Call ?P] (mw_new (Some ?e0)) = (w, out)" by fastforce
  obtain w' out' where stop: "mw_stop push_config no_internals 9 w = (w', out')" by fastforce
  have a: "mw_accepted out = [?P]" "mw_requests out = []"
    using run by (auto simp: mw_new_def mw_call_def mw_send_def metricsQueueCap_def split: prod.splits)
  have p: "points_of [?P] = [?P]" by (simp add: points_of_def plain_entry_def)
  from shutdown_complete [OF run stop] a p
  obtain snapshot bs b where "list_all2 (carries ?e0) [] bs" "mw_requests out' = [buildRequest ?e0 snapshot b 9]"
    "concat bs @ b = [?P]" by (auto simp: otlpMaxBufferedSamples_def)
  then show ?thesis using run stop by auto
qed

end
