(* ===== verification/MetricsExport.thy ===== *)
theory MetricsExport
  imports Metrics Otel
begin

text \<open>
  What the metrics worker sends: the OTLP request as a function of the table and the points, the
  attributes of the ClickHouse rows, the configuration and targets of the exporter, the number
  formats, and the store as the interface the other components use.
\<close>

section \<open>The request as a function\<close>

text \<open>
  The reference: the data points in order, each under the name of its metric; a metric has the
  points of its name, and those of a sum carry the start time.
\<close>

definition request_points :: "(metricKey \<times> u64) list \<Rightarrow> entry list \<Rightarrow> int \<Rightarrow> (string \<times> data_point) list" where
  "request_points snapshot samples now =
     map (key_point (word_of_int now) snapshot) (sort (map fst snapshot)) @ map sample_point samples"

definition metric_of :: "int \<Rightarrow> (string \<times> data_point) list \<Rightarrow> string \<Rightarrow> otlp_metric" where
  "metric_of start ps name =
     (let mine = map snd (filter (\<lambda>p. fst p = name) ps) in
      if hasSuffix name ''_total''
      then \<lparr>om_Name = name, om_Data = Sum,
             om_DataPoints = map (\<lambda>dp. dp\<lparr>np_StartTimeUnixNano := word_of_int start\<rparr>) mine\<rparr>
      else \<lparr>om_Name = name, om_Data = Gauge, om_DataPoints = mine\<rparr>)"

lemma fold_push_point:
  "fold (\<lambda>p. push_point start (snd p)) ps m =
     m\<lparr>om_DataPoints := om_DataPoints m @
        (case om_Data m of Sum \<Rightarrow> map (\<lambda>p. (snd p)\<lparr>np_StartTimeUnixNano := start\<rparr>) ps | Gauge \<Rightarrow> map snd ps)\<rparr>"
  by (induction ps arbitrary: m) (auto simp: push_point_def split: metricData.split)

lemma group_of_metric:
  assumes "name \<in> fst ` set ps"
  shows "group_of fst (\<lambda>p. empty_metric (fst p)) (\<lambda>p. push_point (word_of_int start) (snd p)) ps name = metric_of start ps name"
proof -
  let ?mine = "filter (\<lambda>p. fst p = name) ps"
  have "?mine \<noteq> []" using assms by (auto simp: filter_empty_conv)
  then have "hd ?mine \<in> set ?mine" by (rule hd_in_set)
  then have "fst (hd ?mine) = name" by simp
  then show ?thesis
    by (simp add: group_of_def Let_def fold_push_point empty_metric_def metric_of_def comp_def)
qed

lemma buildRequest_metrics:
  "mq_Metrics (buildRequest e snapshot samples now) =
     (let ps = request_points snapshot samples now in map (metric_of (em_startTime e) ps) (firsts (map fst ps)))"
proof -
  let ?ps = "request_points snapshot samples now" and ?start = "word_of_int (em_startTime e) :: u64"
  have fold: "mq_Metrics (buildRequest e snapshot samples now) = gb_order (fold (metricsAddPoint ?start) ?ps gb_new)"
    by (simp add: buildRequest_def Let_def request_points_def fold_map comp_def)
  have "metricsAddPoint ?start = (\<lambda>p. gb_add (fst p) (empty_metric (fst p)) (push_point ?start (snd p)))"
    by (simp add: metricsAddPoint_def fun_eq_iff)
  then have "gb_order (fold (metricsAddPoint ?start) ?ps gb_new) =
      group_spec fst (\<lambda>p. empty_metric (fst p)) (\<lambda>p. push_point ?start (snd p)) ?ps"
    using gb_fold [of fst "\<lambda>p. empty_metric (fst p)" "\<lambda>p. push_point ?start (snd p)" ?ps] by simp
  also have "\<dots> = map (metric_of (em_startTime e) ?ps) (firsts (map fst ?ps))"
    unfolding group_spec_def by (intro map_cong refl group_of_metric) simp
  finally show ?thesis by (simp add: fold Let_def)
qed

lemma map_of_perm:
  assumes "distinct (map fst m)" and "mset m' = mset m"
  shows "map_of m' = map_of m"
proof -
  have "distinct (map fst m')" using assms by (metis mset_eq_imp_distinct_iff mset_map)
  then show ?thesis using assms by (intro map_of_inject_set [THEN iffD2]) (auto dest: mset_eq_setD)
qed

lemma go_get_perm: "distinct (map fst m) \<Longrightarrow> mset m' = mset m \<Longrightarrow> go_get m' = go_get m"
  using map_of_perm [of m m'] by (simp add: go_get_def fun_eq_iff)

text \<open>
  C19. An export is a function of the table: the order in which Go walks the map does not show in
  the request, and the request is the reference one, with one metric per name in the order of the
  sorted keys and then of the samples, every key and every sample as exactly one data point of its
  metric, cumulative with the start time exactly for the names that end in \<open>_total\<close>.
\<close>

theorem request_exact:
  assumes "distinct (map fst snapshot)" and "mset snapshot' = mset snapshot"
  shows "buildRequest e snapshot' samples now = buildRequest e snapshot samples now \<and>
    mq_Metrics (buildRequest e snapshot samples now) =
      (let ps = request_points snapshot samples now in map (metric_of (em_startTime e) ps) (firsts (map fst ps)))"
proof -
  have "sort (map fst snapshot') = sort (map fst snapshot)"
    using assms(2) by (metis mset_map properties_for_sort mset_sort sorted_sort)
  moreover have "go_get snapshot' = go_get snapshot" using assms by (rule go_get_perm)
  ultimately have "buildRequest e snapshot' samples now = buildRequest e snapshot samples now"
    by (simp add: buildRequest_def key_point_def)
  then show ?thesis using buildRequest_metrics by blast
qed

theorem request_exact_witness:
  "buildRequest (newOTLPEmitter ''r'' ''c'' [] 0)
       [(MetricKey ''b_total'' '''' '''', 2), (MetricKey ''a'' '''' '''', 1)] [] 0 =
     buildRequest (newOTLPEmitter ''r'' ''c'' [] 0)
       [(MetricKey ''a'' '''' '''', 1), (MetricKey ''b_total'' '''' '''', 2)] [] 0"
  using request_exact [of "[(MetricKey ''a'' '''' '''', 1), (MetricKey ''b_total'' '''' '''', 2)]"
      "[(MetricKey ''b_total'' '''' '''', 2), (MetricKey ''a'' '''' '''', 1)]"
      "newOTLPEmitter ''r'' ''c'' [] 0" "[]" 0]
  by simp

text \<open>Every update keeps the keys of the table distinct, as a Go map has them.\<close>

lemma apply_distinct:
  "distinct (map fst (mw_metrics w)) \<Longrightarrow> distinct (map fst (mw_metrics (applyMetricEntry m w)))"
  unfolding apply_metrics [OF refl] by (simp add: distinct_update)

lemma collect_distinct:
  "distinct (map fst (mw_metrics w)) \<Longrightarrow> distinct (map fst (mw_metrics (collectInternalMetrics c i w)))"
proof -
  have "distinct (map fst m) \<Longrightarrow>
      distinct (map fst (fold (\<lambda>(name, v). AList.update (MetricKey name '''' '''') v) ws m))" for ws m
    by (induction ws arbitrary: m) (auto simp: distinct_update split: prod.split)
  then show "distinct (map fst (mw_metrics w)) \<Longrightarrow> ?thesis" by (simp add: collectInternalMetrics_def)
qed

lemma step_distinct:
  assumes "distinct (map fst (mw_metrics w))" and "mw_step c ev w = (w', out)"
  shows "distinct (map fst (mw_metrics w'))"
  using assms
  by (cases ev)
    (auto simp: mw_call_def mw_send_def mw_take_def mw_otlp_tick_def mw_tick_def snapshotAndReset_def
      resetMetrics_def Let_def apply_distinct collect_distinct
      split: if_splits list.splits option.splits prod.splits)

lemma table_distinct:
  assumes "mw_run c evs w = (w', out)" and "distinct (map fst (mw_metrics w))"
  shows "distinct (map fst (mw_metrics w'))"
  using assms
proof (induction evs arbitrary: w out)
  case (Cons ev evs)
  then show ?case by (auto split: prod.splits dest: step_distinct)
qed simp

section \<open>Attributes of the rows\<close>

lemma map_of_fold_update:
  "map_of (fold (\<lambda>(k, v). AList.update k v) kvs m) = map_of m ++ map_of (rev kvs)"
proof (induction kvs arbitrary: m)
  case (Cons x kvs)
  then show ?case by (cases x) (simp add: update_conv' map_add_def fun_eq_iff split: option.split)
qed simp

text \<open>
  A row has the attributes of the run, overwritten by those of the metric; attributes
  are Go maps, so their keys are distinct.
\<close>

lemma mergeAttributes_lookup:
  assumes "distinct (map fst (wc_configAttributes c))" and "distinct (map fst pointAttr)"
  shows "map_of (mergeAttributes c pointAttr) = map_of (wc_configAttributes c) ++ map_of pointAttr"
  using assms map_of_perm [of "wc_configAttributes c" "rev (wc_configAttributes c)"]
    map_of_perm [of pointAttr "rev pointAttr"]
  by (simp add: mergeAttributes_def map_of_fold_update)

section \<open>Names\<close>

text \<open>
  The names: no two metrics share one, and the emitter exports as a cumulative sum exactly
  the metrics that \<open>names.go\<close> declares as counters; the gauges and the samples become gauges.
\<close>

theorem names_kinds:
  "distinct (counterNames @ gaugeNames @ sampleNames) \<and>
   map om_Data (map empty_metric (counterNames @ gaugeNames @ sampleNames)) =
     replicate (length counterNames) Sum @ replicate (length gaugeNames + length sampleNames) Gauge"
  by code_simp

section \<open>Numbers as text\<close>

definition comma :: char where "comma = CHR '',''"

text \<open>\<open>formatNumber\<close>: the loop over the digits, \<open>i\<close> being the index of the first of \<open>str\<close>.\<close>

fun group_digits :: "nat \<Rightarrow> nat \<Rightarrow> string \<Rightarrow> string" where
  "group_digits len i [] = []"
| "group_digits len i (d # str) =
     (if 0 < i \<and> (len - i) mod 3 = 0 then [comma] else []) @ [d] @ group_digits len (i + 1) str"

definition formatNumber :: "u64 \<Rightarrow> string" where
  "formatNumber n =
     (let str = itoa (unat n) in if length str \<le> 3 then str else group_digits (length str) 0 str)"

definition byteUnits :: "string list" where
  "byteUnits = [''B'', ''KB'', ''MB'', ''GB'', ''TB'', ''PB'', ''EB'']"

fun scale :: "nat \<Rightarrow> nat \<Rightarrow> nat \<Rightarrow> nat \<Rightarrow> nat \<times> nat" where
  "scale 0 n dv ex = (dv, ex)"
| "scale (Suc fuel) n dv ex =
     (if 1024 \<le> n \<and> ex < length byteUnits - 2 then scale fuel (n div 1024) (dv * 1024) (ex + 1)
      else (dv, ex))"

text \<open>
  \<open>formatBytes\<close>: \<open>fixed2\<close> is \<open>%.2f\<close> of the quotient of two numbers as floating point. The loop
  ends by its bound on \<open>exp\<close>, so five rounds of fuel are all it can use.
\<close>

definition formatBytes :: "(nat \<Rightarrow> nat \<Rightarrow> string) \<Rightarrow> u64 \<Rightarrow> string" where
  "formatBytes fixed2 bytes =
     (if bytes < 1024 then itoa (unat bytes) @ '' B''
      else case scale 5 (unat bytes div 1024) 1024 0 of (dv, ex) \<Rightarrow>
        fixed2 (unat bytes) dv @ '' '' @ byteUnits ! (ex + 1))"

lemma digit_not_comma: "d < 10 \<Longrightarrow> digit_char d \<noteq> comma"
  by (simp add: digit_char_def comma_def char_of_eq_iff take_bit_eq_mod)

lemma group_digits_strip:
  "comma \<notin> set str \<Longrightarrow> filter (\<lambda>c. c \<noteq> comma) (group_digits len i str) = str"
  by (induction len i str rule: group_digits.induct) auto

lemma itoa_no_comma: "comma \<notin> set (itoa n)"
  using itoa_chars [of comma n] digit_not_comma by fastforce

text \<open>Where the commas are: before a digit that has a positive multiple of three digits from it to the end.\<close>

lemma group_digits_length:
  "i + length str = len \<Longrightarrow> 0 < i \<Longrightarrow> length (group_digits len i str) = length str + length str div 3"
proof (induction len i str rule: group_digits.induct)
  case (2 len i d str)
  then have l: "len - i = Suc (length str)" by simp
  have "Suc (length str) div 3 = length str div 3 + (if Suc (length str) mod 3 = 0 then 1 else 0)"
    by (simp add: div_Suc)
  then show ?case using 2 l by simp
qed simp

text \<open>
  Number formats: stripping the commas of \<open>formatNumber\<close> gives back the decimal digits, so
  two numbers with the same text are equal, and there is one comma for each full group of three
  digits after the first digit.
\<close>

theorem formatNumber_roundtrip:
  "filter (\<lambda>c. c \<noteq> comma) (formatNumber n) = itoa (unat n) \<and>
   length (formatNumber n) = length (itoa (unat n)) + (length (itoa (unat n)) - 1) div 3"
proof -
  let ?s = "itoa (unat n)"
  obtain d str where s: "?s = d # str" by (cases ?s) auto
  have "filter (\<lambda>c. c \<noteq> comma) ?s = ?s" using itoa_no_comma [of "unat n"] by (induction ?s) (auto simp: filter_id_conv)
  then have "filter (\<lambda>c. c \<noteq> comma) (formatNumber n) = ?s"
    using group_digits_strip [OF itoa_no_comma] by (simp add: formatNumber_def Let_def)
  moreover have "length (group_digits (length ?s) 0 ?s) = length ?s + (length ?s - 1) div 3"
    using group_digits_length [of 1 str "length ?s"] by (simp add: s)
  ultimately show ?thesis by (simp add: formatNumber_def Let_def)
qed

text \<open>The scale of \<open>formatBytes\<close> is the power of 1024 that leaves a quotient from 1 to 1023.\<close>

lemma scale_ok:
  assumes "scale fuel n d x = (d', x')" and "x + fuel = 5" and "n < 1024 ^ (Suc fuel)" and "0 < n"
  shows "\<exists>j. x' = x + j \<and> d' = d * 1024 ^ j \<and> x' \<le> 5 \<and> 1 \<le> n div 1024 ^ j \<and> n div 1024 ^ j < 1024"
  using assms
proof (induction fuel arbitrary: n d x)
  case 0
  then show ?case by (intro exI [of _ 0]) simp
next
  case (Suc fuel)
  show ?case
  proof (cases "1024 \<le> n \<and> x < 5")
    case True
    have "n div 1024 < 1024 ^ Suc fuel" using Suc.prems(3) by (simp add: less_mult_imp_div_less mult.commute)
    moreover have "0 < n div 1024" using True by (simp add: div_greater_zero_iff)
    moreover have "scale fuel (n div 1024) (d * 1024) (x + 1) = (d', x')"
      using Suc.prems(1) True by (simp add: byteUnits_def)
    ultimately obtain j where "x' = x + 1 + j" "d' = d * 1024 * 1024 ^ j" "x' \<le> 5"
      "1 \<le> n div 1024 div 1024 ^ j" "n div 1024 div 1024 ^ j < 1024"
      using Suc.IH [of "n div 1024" "d * 1024" "x + 1"] Suc.prems(2) by auto
    then show ?thesis by (intro exI [of _ "Suc j"]) (simp add: div_mult2_eq)
  next
    case False
    then have "scale (Suc fuel) n d x = (d, x)" and "n < 1024"
      using Suc.prems(2) by (auto simp: byteUnits_def)
    then show ?thesis using Suc.prems by (intro exI [of _ 0]) simp
  qed
qed

text \<open>
  Sizes: from one kibibyte on, the text is a quotient by a power of 1024 with the unit of that
  power, chosen so that the quotient lies between 1 and 1023; the unit exists for every 64-bit
  size.
\<close>

lemma formatBytes_scale:
  assumes "1024 \<le> unat bytes"
  shows "\<exists>j. 1 \<le> j \<and> j \<le> 6 \<and> 1024 ^ j \<le> unat bytes \<and> unat bytes < 1024 ^ (j + 1) \<and>
    formatBytes fixed2 bytes = fixed2 (unat bytes) (1024 ^ j) @ '' '' @ byteUnits ! j"
proof -
  have "unat bytes < 1024 ^ 7" using unat_lt_2p64 [of bytes] by simp
  then have b: "unat bytes div 1024 < 1024 ^ Suc 5" by (simp add: less_mult_imp_div_less)
  have p: "0 < unat bytes div 1024" using assms by (simp add: div_greater_zero_iff)
  obtain d x where s: "scale 5 (unat bytes div 1024) 1024 0 = (d, x)" by fastforce
  obtain j where j: "x = 0 + j" "d = 1024 * 1024 ^ j" "x \<le> 5"
    "1 \<le> unat bytes div 1024 div 1024 ^ j" "unat bytes div 1024 div 1024 ^ j < 1024"
    using scale_ok [OF s _ b p] by auto
  have "1 \<le> unat bytes div 1024 ^ Suc j" "unat bytes div 1024 ^ Suc j < 1024"
    using j(4,5) by (simp_all add: div_mult2_eq)
  moreover have "(0 :: nat) < 1024 ^ Suc j" by simp
  ultimately have "1024 ^ Suc j \<le> unat bytes" "unat bytes < 1024 * 1024 ^ Suc j"
    by (metis Suc_leI div_greater_zero_iff less_eq_Suc_le One_nat_def, metis div_less_iff_less_mult)
  moreover have "formatBytes fixed2 bytes = fixed2 (unat bytes) (1024 ^ Suc j) @ '' '' @ byteUnits ! Suc j"
    using assms s j by (simp add: formatBytes_def word_less_nat_alt)
  ultimately show ?thesis using j by (intro exI [of _ "Suc j"]) (simp add: mult.commute)
qed

section \<open>Configuration\<close>

record otlp_config =
  mo_Enabled :: bool
  mo_Protocol :: string
  mo_URL :: string
  mo_Insecure :: bool
  mo_Compression :: string
  mo_Headers :: "(string \<times> string) list"
  mo_Interval :: int

record metrics_config =
  me_Enabled :: bool
  me_ClickHouseDSN :: string
  me_Database :: string
  me_RunTable :: string
  me_MetricsTable :: string
  me_CreateSchema :: bool
  me_Attributes :: "(string \<times> string) list"
  me_OTLP :: otlp_config

definition defaultOTLPInterval :: int where "defaultOTLPInterval = 15 * ns_per_s"

definition otlp_protocol :: "otlp_config \<Rightarrow> string" where
  "otlp_protocol c = (if mo_Protocol c = '''' then ''grpc'' else mo_Protocol c)"

definition otlp_withDefaults :: "otlp_config \<Rightarrow> otlp_config" where
  "otlp_withDefaults c = (if mo_Interval c \<le> 0 then c\<lparr>mo_Interval := defaultOTLPInterval\<rparr> else c)"

datatype metrics_err =
  OtlpProtocol | OtlpURL | OtlpCompression | OtlpInterval | NoSink | NoDatabase | NoRunTable | NoMetricsTable

definition otlp_Validate :: "otlp_config \<Rightarrow> metrics_err option" where
  "otlp_Validate c =
     (if \<not> mo_Enabled c then None
      else first_err
        [err_if (mo_Protocol c \<notin> {'''', ''grpc'', ''http''}) OtlpProtocol,
         err_if (mo_URL c = '''') OtlpURL,
         err_if (mo_Compression c \<notin> {'''', ''none'', ''gzip''}) OtlpCompression,
         err_if (mo_Interval c \<noteq> 0 \<and> mo_Interval c < ns_per_s) OtlpInterval])"

definition metrics_Validate :: "metrics_config \<Rightarrow> metrics_err option" where
  "metrics_Validate c =
     (if \<not> me_Enabled c then None
      else case otlp_Validate (me_OTLP c) of
        Some err \<Rightarrow> Some err
      | None \<Rightarrow>
          if me_ClickHouseDSN c = '''' then (if \<not> mo_Enabled (me_OTLP c) then Some NoSink else None)
          else first_err [err_if (me_Database c = '''') NoDatabase, err_if (me_RunTable c = '''') NoRunTable,
            err_if (me_MetricsTable c = '''') NoMetricsTable])"

text \<open>
  What an accepted configuration guarantees the worker: at least one sink, tables for the
  ClickHouse one, and an export interval that a ticker accepts.
\<close>

lemma metrics_Validate_ok:
  assumes "metrics_Validate c = None" and "me_Enabled c"
  shows "(me_ClickHouseDSN c \<noteq> '''' \<or> mo_Enabled (me_OTLP c)) \<and>
    (me_ClickHouseDSN c \<noteq> '''' \<longrightarrow> me_Database c \<noteq> '''' \<and> me_RunTable c \<noteq> '''' \<and> me_MetricsTable c \<noteq> '''') \<and>
    (mo_Enabled (me_OTLP c) \<longrightarrow> mo_URL (me_OTLP c) \<noteq> '''' \<and>
      ns_per_s \<le> mo_Interval (otlp_withDefaults (me_OTLP c)) \<and>
      otlp_protocol (me_OTLP c) \<in> {''grpc'', ''http''})"
  using assms
  by (auto simp: metrics_Validate_def otlp_Validate_def otlp_withDefaults_def defaultOTLPInterval_def
      otlp_protocol_def split: if_splits option.splits)

section \<open>Targets and responses\<close>

definition parseOTLPTarget :: "string \<Rightarrow> string \<times> bool" where
  "parseOTLPTarget url =
     (if hasPrefix url ''http://'' then (trimPrefix url ''http://'', True)
      else if hasPrefix url ''https://'' then (trimPrefix url ''https://'', False)
      else if hasPrefix url ''grpc://'' then (trimPrefix url ''grpc://'', False)
      else (url, False))"

text \<open>The dialled target, whether it is plaintext, and whether gzip is on.\<close>

definition dialOTLPGRPC :: "otlp_config \<Rightarrow> string \<times> bool \<times> bool" where
  "dialOTLPGRPC cfg =
     (let (target, plaintext) = parseOTLPTarget (mo_URL cfg);
          plaintext = (if mo_Insecure cfg then True else plaintext)
      in (target, plaintext, mo_Compression cfg = ''gzip''))"

definition otlpBaseURL ::
    "(string \<Rightarrow> (string \<times> string \<times> string) option) \<Rightarrow> string \<Rightarrow> bool \<Rightarrow> url_err + string \<times> string \<times> string" where
  "otlpBaseURL parse raw insecure =
     (let raw = (if \<not> contains raw ''://''
                 then (if insecure then ''http'' else ''https'') @ ''://'' @ raw else raw)
      in case parse raw of
           None \<Rightarrow> Inl InvalidURL
         | Some (scheme, host, path) \<Rightarrow>
             if scheme \<noteq> ''http'' \<and> scheme \<noteq> ''https'' then Inl BadScheme
             else if host = '''' then Inl MissingHost
             else Inr (scheme, host, path))"

definition otlpMetricsURL :: "string \<times> string \<times> string \<Rightarrow> string \<times> string \<times> string" where
  "otlpMetricsURL base =
     (case base of (scheme, host, path) \<Rightarrow>
        let p = trimRight (CHR ''/'') path;
            p = (if \<not> hasSuffix p ''/v1/metrics'' then p @ ''/v1/metrics'' else p)
        in (scheme, host, p))"

definition dialOTLPHTTP ::
    "(string \<Rightarrow> (string \<times> string \<times> string) option) \<Rightarrow> otlp_config \<Rightarrow> url_err + (string \<times> string \<times> string) \<times> bool" where
  "dialOTLPHTTP parse cfg =
     (case otlpBaseURL parse (mo_URL cfg) (mo_Insecure cfg) of
        Inl err \<Rightarrow> Inl err
      | Inr base \<Rightarrow> Inr (otlpMetricsURL base, mo_Compression cfg = ''gzip''))"

datatype otlp_client = GRPCClient string bool bool | HTTPClient "string \<times> string \<times> string" bool

definition dialOTLP ::
    "(string \<Rightarrow> (string \<times> string \<times> string) option) \<Rightarrow> otlp_config \<Rightarrow> url_err + otlp_client" where
  "dialOTLP parse cfg =
     (if otlp_protocol cfg = ''http''
      then (case dialOTLPHTTP parse cfg of Inl err \<Rightarrow> Inl err | Inr (url, gz) \<Rightarrow> Inr (HTTPClient url gz))
      else (case dialOTLPGRPC cfg of (target, plaintext, gz) \<Rightarrow> Inr (GRPCClient target plaintext gz)))"

text \<open>
  The answer of an export: a failed call, a status, and the rejected data points of a decodable
  body, if it reports any.
\<close>

datatype otlp_export_err = ErrTransport | ErrStatus int | ErrRejected int

definition grpc_export :: "int option option \<Rightarrow> otlp_export_err option" where
  "grpc_export resp =
     (case resp of
        None \<Rightarrow> Some ErrTransport
      | Some None \<Rightarrow> None
      | Some (Some rejected) \<Rightarrow> if rejected > 0 then Some (ErrRejected rejected) else None)"

definition http_export :: "(int \<times> int option option) option \<Rightarrow> otlp_export_err option" where
  "http_export resp =
     (case resp of
        None \<Rightarrow> Some ErrTransport
      | Some (status, body) \<Rightarrow>
          if go_quot status 100 \<noteq> 2 then Some (ErrStatus status)
          else case body of
            Some (Some rejected) \<Rightarrow> if rejected > 0 then Some (ErrRejected rejected) else None
          | _ \<Rightarrow> None)"

text \<open>
  Over HTTP an explicit scheme in the URL decides, as the comment on the option says; over gRPC
  the option forces plaintext even onto an \<open>https://\<close> URL.
\<close>

lemma explicit_scheme_http:
  "contains raw ''://'' \<Longrightarrow> otlpBaseURL parse raw True = otlpBaseURL parse raw False"
  by (simp add: otlpBaseURL_def)

lemma metrics_insecure_overrides:
  assumes "hasPrefix url ''https://''"
  shows "fst (snd (dialOTLPGRPC (c\<lparr>mo_URL := url, mo_Insecure := True\<rparr>))) \<and>
    \<not> fst (snd (dialOTLPGRPC (c\<lparr>mo_URL := url, mo_Insecure := False\<rparr>)))"
proof -
  have "\<not> hasPrefix url ''http://''"
  proof
    assume "hasPrefix url ''http://''"
    then have "take 7 (take 8 url) = ''http://''" by (simp add: hasPrefix_def numeral_eq_Suc)
    moreover have "take 8 url = ''https://''" using assms by (simp add: hasPrefix_def numeral_eq_Suc)
    ultimately show False by simp
  qed
  with assms show ?thesis by (simp add: dialOTLPGRPC_def parseOTLPTarget_def)
qed

lemma metrics_url_once: "otlpMetricsURL (otlpMetricsURL u) = otlpMetricsURL u"
  by (cases u) (auto simp: otlpMetricsURL_def Let_def trimRight_def hasSuffix_def)

section \<open>Starting the worker\<close>

datatype statement = CreateDatabase | CreateRunTable | InsertRun | CreateMetricsTable

datatype start_err = DialFailed url_err | DSNFailed | OpenFailed | ExecFailed statement

fun exec_all :: "(statement \<Rightarrow> bool) \<Rightarrow> statement list \<Rightarrow> statement option" where
  "exec_all ok [] = None"
| "exec_all ok (s # ss) = (if ok s then exec_all ok ss else Some s)"

definition start_statements :: "bool \<Rightarrow> statement list" where
  "start_statements createSchema =
     (if createSchema then [CreateDatabase, CreateRunTable] else []) @ [InsertRun] @
     (if createSchema then [CreateMetricsTable] else [])"

text \<open>
  \<open>NewWorker\<close>: the driver is \<open>dsn_ok\<close>, \<open>open_ok\<close> and \<open>ok\<close> (which statements succeed).
\<close>

definition newMetricsWorker ::
    "(string \<Rightarrow> (string \<times> string \<times> string) option) \<Rightarrow> (string \<Rightarrow> bool) \<Rightarrow> bool \<Rightarrow> (statement \<Rightarrow> bool) \<Rightarrow>
     string \<Rightarrow> string \<Rightarrow> u64 \<Rightarrow> u64 \<Rightarrow> (string \<times> string) list \<Rightarrow> int \<Rightarrow> metrics_config \<Rightarrow>
     start_err + worker_config \<times> metrics_worker" where
  "newMetricsWorker parse dsn_ok open_ok ok runID configName tb tr runAttr now cfg =
     (let wc = \<lparr>wc_runID = runID, wc_insertSQL = False, wc_targetBytesPerSecond = tb,
                wc_targetGenerateRowsPerSecond = tr, wc_configAttributes = runAttr\<rparr>;
          emitter = (if mo_Enabled (me_OTLP cfg)
                     then map_sum DialFailed (\<lambda>_. Some (newOTLPEmitter runID configName runAttr now))
                            (dialOTLP parse (otlp_withDefaults (me_OTLP cfg)))
                     else Inr None)
      in case emitter of
           Inl err \<Rightarrow> Inl err
         | Inr otlp \<Rightarrow>
             if me_ClickHouseDSN cfg \<noteq> '''' then
               if \<not> dsn_ok (me_ClickHouseDSN cfg) then Inl DSNFailed
               else if \<not> open_ok then Inl OpenFailed
               else (case exec_all ok (start_statements (me_CreateSchema cfg)) of
                       Some s \<Rightarrow> Inl (ExecFailed s)
                     | None \<Rightarrow> Inr (wc\<lparr>wc_insertSQL := True\<rparr>, mw_new otlp))
             else Inr (wc, mw_new otlp))"

text \<open>A worker started on an accepted configuration has a sink.\<close>

lemma newMetricsWorker_sink:
  assumes "newMetricsWorker parse dsn_ok open_ok ok runID configName tb tr runAttr now cfg = Inr (wc, w)"
    and "metrics_Validate cfg = None" and "me_Enabled cfg"
  shows "(wc_insertSQL wc \<or> mw_otlp w \<noteq> None) \<and> (wc_insertSQL wc \<longleftrightarrow> me_ClickHouseDSN cfg \<noteq> '''') \<and>
    (mw_otlp w = None \<longleftrightarrow> \<not> mo_Enabled (me_OTLP cfg)) \<and> mw_queue w = [] \<and> mw_metrics w = []"
  using assms metrics_Validate_ok [OF assms(2,3)]
  by (cases "dialOTLP parse (otlp_withDefaults (me_OTLP cfg))")
    (auto simp: newMetricsWorker_def Let_def mw_new_def split: if_splits option.splits)

section \<open>The store as an interface\<close>

text \<open>
  What the other components rely on when they call a store: a call is asynchronous, it never
  blocks and no read shows it before the worker has applied it; and it keeps the store's own
  invariant. \<open>DisabledStore\<close> is the store of a run without metrics.
\<close>

locale metric_store =
  fixes send :: "entry \<Rightarrow> 's \<Rightarrow> 's" and read :: "string \<Rightarrow> 's \<Rightarrow> u64" and healthy :: "'s \<Rightarrow> bool"
  assumes read_send: "read name (send m s) = read name s"
    and healthy_send: "healthy s \<Longrightarrow> healthy (send m s)"
begin

lemma reads_stable: "read name (fold send ms s) = read name s"
  by (induction ms arbitrary: s) (simp_all add: read_send)

lemma healthy_sends: "healthy s \<Longrightarrow> healthy (fold send ms s)"
  by (induction ms arbitrary: s) (simp_all add: healthy_send)

end

definition disabled_send :: "entry \<Rightarrow> unit \<Rightarrow> unit" where "disabled_send m s = s"
definition disabled_get :: "string \<Rightarrow> unit \<Rightarrow> u64" where "disabled_get name s = 0"

definition store_healthy :: "metrics_worker \<Rightarrow> bool" where
  "store_healthy w \<longleftrightarrow> length (mw_queue w) \<le> metricsQueueCap \<and> distinct (map fst (mw_metrics w))"

interpretation live_store: metric_store mw_send GetMetric store_healthy
  by unfold_locales (auto simp: mw_send_def GetMetric_def store_healthy_def)

interpretation disabled_store: metric_store disabled_send disabled_get "\<lambda>_. True"
  by unfold_locales (simp_all add: disabled_send_def disabled_get_def)

text \<open>
  A burst of calls of any kind leaves every reading of the store as it was and its queue
  within the bound, on the live store and on the disabled one, which always reads zero.
\<close>

theorem store_calls_invisible:
  assumes "store_healthy w"
  shows "GetMetric name (fold mw_send ms w) = GetMetric name w \<and> store_healthy (fold mw_send ms w) \<and>
    disabled_get name (fold disabled_send ms s) = 0"
  using live_store.reads_stable live_store.healthy_sends [OF assms] disabled_store.reads_stable
  by (simp add: disabled_get_def)

theorem store_calls_invisible_witness:
  "GetMetric ''active_users'' (fold mw_send [plain_entry EntryModeIncrement ''active_users'' 3] (mw_new None)) = 0"
  using store_calls_invisible [of "mw_new None" "''active_users''" "[plain_entry EntryModeIncrement ''active_users'' 3]" "()"]
  by (simp add: store_healthy_def mw_new_def GetMetric_def go_get_def)

end
