(* ===== verification/GenRng.thy ===== *)
theory GenRng
  imports Hash "HOL-Library.State_Monad" "HOL-Library.AList"
begin

text \<open>
  The value generators of \<open>internal/generate\<close>: the helpers of \<open>Rng\<close> over Go's random source, and
  the \<open>Gen\<close> and \<open>MapGen\<close> objects profiles are built from. A draw is a computation in the state
  monad over the state of the source; \<open>pred_state P m\<close> of the library says that every outcome of
  \<open>m\<close> satisfies \<open>P\<close>.
\<close>

named_theorems outcomes \<open>what every outcome of a draw satisfies\<close>

section \<open>The random source\<close>

text \<open>
  What the code uses of \<open>math/rand/v2\<close> and of \<open>strconv\<close>: \<open>rg_FormatFloat max u decimals\<close> is the
  text of the rounded product of a unit float \<open>u\<close> and \<open>max\<close>.
\<close>

record 'g go_rng =
  rg_IntN :: "nat \<Rightarrow> ('g, nat) state"
  rg_Uint64 :: "('g, u64) state"
  rg_Uint32 :: "('g, u32) state"
  rg_Uint64N :: "u64 \<Rightarrow> ('g, u64) state"
  rg_Int64N :: "int \<Rightarrow> ('g, int) state"
  rg_Float64 :: "('g, rat) state"
  rg_FormatFloat :: "rat \<Rightarrow> rat \<Rightarrow> nat \<Rightarrow> string"

text \<open>The documented ranges of the source.\<close>

definition go_rng_ok :: "'g go_rng \<Rightarrow> bool" where
  "go_rng_ok r \<longleftrightarrow>
     (\<forall>n > 0. pred_state (\<lambda>x. x < n) (rg_IntN r n)) \<and>
     (\<forall>n > 0. pred_state (\<lambda>x. x < n) (rg_Uint64N r n)) \<and>
     (\<forall>n > 0. pred_state (\<lambda>x. 0 \<le> x \<and> x < n) (rg_Int64N r n)) \<and>
     pred_state (\<lambda>x. 0 \<le> x \<and> x < 1) (rg_Float64 r)"

lemma go_rng_okD:
  "go_rng_ok r \<Longrightarrow> 0 < n \<Longrightarrow> pred_state (\<lambda>x. x < n) (rg_IntN r n)"
  "go_rng_ok r \<Longrightarrow> 0 < w \<Longrightarrow> pred_state (\<lambda>x. x < w) (rg_Uint64N r w)"
  "go_rng_ok r \<Longrightarrow> 0 < i \<Longrightarrow> pred_state (\<lambda>x. 0 \<le> x \<and> x < i) (rg_Int64N r i)"
  "go_rng_ok r \<Longrightarrow> pred_state (\<lambda>x. 0 \<le> x \<and> x < 1) (rg_Float64 r)"
  by (simp_all add: go_rng_ok_def)

lemma pred_return [simp, outcomes]: "pred_state P (State_Monad.return x) \<longleftrightarrow> P x"
proof
  assume "pred_state P (State_Monad.return x)"
  then show "P x" using pred_state_run_state [of P "State_Monad.return x" undefined] by simp
next
  assume "P x"
  then show "pred_state P (State_Monad.return x)" by (intro pred_stateI) simp
qed

lemma pred_bind [outcomes]:
  "pred_state Q m \<Longrightarrow> (\<And>x. Q x \<Longrightarrow> pred_state P (f x)) \<Longrightarrow> pred_state P (m \<bind> f)"
  by (rule bind_predI) (rule state.pred_mono_strong)

lemma pred_any: "(\<And>x. P x) \<Longrightarrow> pred_state P m"
  by (rule pred_stateI)

lemma pred_bind_any: "(\<And>x. pred_state P (f x)) \<Longrightarrow> pred_state P (m \<bind> f)"
  by (rule pred_bind [of "\<lambda>_. True"]) (auto intro: pred_any)

lemma pred_weaken: "pred_state Q m \<Longrightarrow> (\<And>x. Q x \<Longrightarrow> P x) \<Longrightarrow> pred_state P m"
  by (rule state.pred_mono_strong)

lemma pred_traverse:
  "(\<And>x. x \<in> set xs \<Longrightarrow> pred_state P (f x)) \<Longrightarrow>
     pred_state (\<lambda>ys. length ys = length xs \<and> (\<forall>y \<in> set ys. P y)) (State_Monad.traverse_list f xs)"
proof (induction xs)
  case (Cons x xs)
  have "pred_state P (f x)" using Cons.prems by simp
  moreover have "pred_state (\<lambda>ys. length ys = length xs \<and> (\<forall>y \<in> set ys. P y)) (State_Monad.traverse_list f xs)"
    using Cons by simp
  ultimately show ?case by (auto intro!: pred_bind [of P] pred_bind)
qed simp

section \<open>Strings\<close>

definition rngHexChars :: string where "rngHexChars = ''0123456789abcdef''"
definition alphaNumChars :: string where "alphaNumChars = ''abcdefghijklmnopqrstuvwxyz0123456789''"

definition HexString :: "'g go_rng \<Rightarrow> nat \<Rightarrow> ('g, string) state" where
  "HexString r n =
     State_Monad.traverse_list (\<lambda>_. do { i \<leftarrow> rg_IntN r 16; State_Monad.return (rngHexChars ! i) }) [0..<n]"

definition AlphaNum :: "'g go_rng \<Rightarrow> nat \<Rightarrow> ('g, string) state" where
  "AlphaNum r n =
     State_Monad.traverse_list
       (\<lambda>_. do { i \<leftarrow> rg_IntN r (length alphaNumChars); State_Monad.return (alphaNumChars ! i) }) [0..<n]"

definition TraceID :: "'g go_rng \<Rightarrow> ('g, string) state" where "TraceID r = HexString r 32"
definition SpanID :: "'g go_rng \<Rightarrow> ('g, string) state" where "SpanID r = HexString r 16"

text \<open>\<open>Read\<close>: the bytes of successive words, the least significant first.\<close>

definition word_bytes :: "u64 \<Rightarrow> u8 list" where
  "word_bytes val = map (\<lambda>j. ucast (drop_bit (j * 8) val)) [0..<8]"

definition rng_Read :: "'g go_rng \<Rightarrow> nat \<Rightarrow> ('g, u8 list) state" where
  "rng_Read r n = do {
     words \<leftarrow> State_Monad.traverse_list (\<lambda>_. rg_Uint64 r) [0..<(n + 7) div 8];
     State_Monad.return (take n (concat (map word_bytes words))) }"

definition hexEncode :: "u8 list \<Rightarrow> string" where
  "hexEncode src = concat (map (\<lambda>b. [rngHexChars ! unat (drop_bit 4 b), rngHexChars ! unat (b AND 15)]) src)"

definition uuid_string :: "u8 list \<Rightarrow> string" where
  "uuid_string u =
     (let u = u[6 := ((u ! 6) AND 15) OR 64];
          u = u[8 := ((u ! 8) AND 63) OR 128]
      in hexEncode (take 4 u) @ ''-'' @ hexEncode (take 2 (drop 4 u)) @ ''-'' @
         hexEncode (take 2 (drop 6 u)) @ ''-'' @ hexEncode (take 2 (drop 8 u)) @ ''-'' @
         hexEncode (take 6 (drop 10 u)))"

definition rng_UUID :: "'g go_rng \<Rightarrow> ('g, string) state" where
  "rng_UUID r = do { u \<leftarrow> rng_Read r 16; State_Monad.return (uuid_string u) }"

text \<open>The words a worker seeds its source with.\<close>

definition le_bytes :: "u64 \<Rightarrow> string" where
  "le_bytes w = map (\<lambda>b. char_of (unat b)) (word_bytes w)"

definition rng_seed :: "string \<Rightarrow> nat \<Rightarrow> u64 \<times> u64" where
  "rng_seed seed workerID = (fnv1a fnv_offset64 (seed @ le_bytes (of_nat workerID)), of_nat workerID)"

definition all_hex :: "string \<Rightarrow> bool" where "all_hex s \<longleftrightarrow> set s \<subseteq> set rngHexChars"

lemma length_tables [simp]: "length rngHexChars = 16" "length alphaNumChars = 36"
  by (simp_all add: rngHexChars_def alphaNumChars_def)

lemma HexString_outcome [outcomes]:
  assumes "go_rng_ok r"
  shows "pred_state (\<lambda>s. length s = n \<and> all_hex s) (HexString r n)"
proof -
  have "pred_state (\<lambda>c. c \<in> set rngHexChars) (rg_IntN r 16 \<bind> (\<lambda>i. State_Monad.return (rngHexChars ! i)))"
    by (rule pred_bind [OF go_rng_okD(1) [OF assms]]) simp_all
  from pred_traverse [OF this, of "[0..<n]"] show ?thesis
    unfolding HexString_def by (rule pred_weaken) (auto simp: all_hex_def)
qed

lemma AlphaNum_outcome [outcomes]:
  assumes "go_rng_ok r"
  shows "pred_state (\<lambda>s. length s = n \<and> set s \<subseteq> set alphaNumChars) (AlphaNum r n)"
proof -
  have "pred_state (\<lambda>c. c \<in> set alphaNumChars)
      (rg_IntN r (length alphaNumChars) \<bind> (\<lambda>i. State_Monad.return (alphaNumChars ! i)))"
    by (rule pred_bind [OF go_rng_okD(1) [OF assms]]) simp_all
  from pred_traverse [OF this, of "[0..<n]"] show ?thesis
    unfolding AlphaNum_def by (rule pred_weaken) auto
qed

section \<open>UUIDs\<close>

lemma hexEncode_simps [simp]:
  "hexEncode [] = []"
  "hexEncode (b # bs) = rngHexChars ! unat (drop_bit 4 b) # rngHexChars ! unat (b AND 15) # hexEncode bs"
  by (simp_all add: hexEncode_def)

lemma u8_nibbles: "unat (drop_bit 4 (b :: u8)) < 16" "unat (b AND 15) < 16"
proof -
  have "unat b < 256" using unsigned_less [of b] by simp
  then show "unat (drop_bit 4 b) < 16" by (simp add: drop_bit_eq_div unat_div)
  show "unat (b AND 15) < 16" using word_and_le1 [of b 15] by (simp add: word_le_nat_alt)
qed

lemma version_nibble: "drop_bit 4 (((b :: u8) AND 15) OR 64) = 4"
  by (simp add: drop_bit_or drop_bit_and)

lemma variant_nibble: "drop_bit 4 (((b :: u8) AND 63) OR 128) \<in> {8, 9, 10, 11}"
proof -
  define c where "c = drop_bit 4 b AND 3"
  have "unat c \<le> 3" using word_and_le1 [of "drop_bit 4 b" 3] by (simp add: word_le_nat_alt c_def)
  then have "unat c \<in> {0, 1, 2, 3}" by auto
  then have c: "c \<in> {0, 1, 2, 3}" by (auto simp: word_eq_unat)
  have "drop_bit 4 ((b AND 63) OR 128) = c OR 8"
    by (simp add: drop_bit_or drop_bit_and c_def)
  then show ?thesis using c by auto
qed

text \<open>
  A version 4 UUID: five groups of 8, 4, 4, 4 and 12 hexadecimal digits between dashes, the third
  starting with the version, the fourth with the variant.
\<close>

definition uuid4 :: "string \<Rightarrow> bool" where
  "uuid4 s \<longleftrightarrow>
     (\<exists>a b c v d e. s = a @ ''-'' @ b @ ''-4'' @ c @ ''-'' @ [v] @ d @ ''-'' @ e \<and>
        map length [a, b, c, d, e] = [8, 4, 3, 3, 12] \<and> all_hex (concat [a, b, c, d, e]) \<and>
        v \<in> set ''89ab'')"

lemma hexEncode_hex: "all_hex (hexEncode bs)"
  by (induction bs) (auto simp: all_hex_def u8_nibbles)

lemma length_hexEncode: "length (hexEncode bs) = 2 * length bs"
  by (induction bs) simp_all

lemma uuid_string_ok:
  assumes "length u = 16"
  shows "uuid4 (uuid_string u)"
proof -
  let ?v = "rngHexChars ! unat (drop_bit 4 ((u ! 8 AND 63) OR 128))"
  let ?w = "rngHexChars ! unat (((u ! 8 AND 63) OR 128) AND 15)"
  let ?x = "rngHexChars ! unat (((u ! 6 AND 15) OR 64) AND 15)"
  have v: "?v \<in> set ''89ab''" using variant_nibble [of "u ! 8"] by (auto simp: rngHexChars_def)
  have four: "rngHexChars ! unat (drop_bit 4 ((u ! 6 AND 15) OR 64)) = CHR ''4''"
    by (simp only: version_nibble) (simp add: rngHexChars_def)
  have two: "take 2 (drop 6 u) = [u ! 6, u ! 7]" "take 2 (drop 8 u) = [u ! 8, u ! 9]"
    using assms by (auto simp: numeral_2_eq_2 take_Suc_conv_app_nth)
  have nib: "?w \<in> set rngHexChars" "?x \<in> set rngHexChars" by (simp_all add: u8_nibbles)
  let ?u = "u[6 := ((u ! 6) AND 15) OR 64, 8 := ((u ! 8) AND 63) OR 128]"
  show ?thesis
    unfolding uuid4_def
  proof (intro exI conjI)
    show "uuid_string u = hexEncode (take 4 ?u) @ ''-'' @ hexEncode (take 2 (drop 4 ?u)) @ ''-4'' @
      (?x # hexEncode [u ! 7]) @ ''-'' @ [?v] @ (?w # hexEncode [u ! 9]) @ ''-'' @ hexEncode (take 6 (drop 10 ?u))"
      using assms four by (simp add: uuid_string_def Let_def drop_update_swap two take_update_swap)
    show "map length [hexEncode (take 4 ?u), hexEncode (take 2 (drop 4 ?u)), ?x # hexEncode [u ! 7],
        ?w # hexEncode [u ! 9], hexEncode (take 6 (drop 10 ?u))] = [8, 4, 3, 3, 12]"
      using assms by (simp add: length_hexEncode)
    show "all_hex (concat [hexEncode (take 4 ?u), hexEncode (take 2 (drop 4 ?u)), ?x # hexEncode [u ! 7],
        ?w # hexEncode [u ! 9], hexEncode (take 6 (drop 10 ?u))])"
      using nib hexEncode_hex unfolding all_hex_def by (simp del: hexEncode_simps)
    show "?v \<in> set ''89ab''" by (rule v)
  qed
qed

lemma rng_Read_length: "pred_state (\<lambda>bs. length bs = n) (rng_Read r n)"
proof -
  have "length (concat (map word_bytes ws)) = 8 * length ws" for ws
    by (induction ws) (simp_all add: word_bytes_def)
  moreover have "n \<le> 8 * ((n + 7) div 8)" by simp
  moreover have "pred_state (\<lambda>ws. length ws = (n + 7) div 8)
      (State_Monad.traverse_list (\<lambda>_. rg_Uint64 r) [0..<(n + 7) div 8])"
    using pred_traverse [of "[0..<(n + 7) div 8]" "\<lambda>_. True" "\<lambda>_. rg_Uint64 r"]
    by (rule pred_weaken) (auto intro: pred_any)
  ultimately show ?thesis unfolding rng_Read_def
    by (intro pred_bind [where Q = "\<lambda>ws. length ws = (n + 7) div 8"]) simp_all
qed

lemma UUID_outcome [outcomes]: "pred_state uuid4 (rng_UUID r)"
  unfolding rng_UUID_def
  by (rule pred_bind [OF rng_Read_length]) (simp add: uuid_string_ok)

lemma ID_outcomes [outcomes]:
  assumes "go_rng_ok r"
  shows "pred_state (\<lambda>s. length s = 32 \<and> all_hex s) (TraceID r)"
    and "pred_state (\<lambda>s. length s = 16 \<and> all_hex s) (SpanID r)"
  using HexString_outcome [OF assms] by (simp_all add: TraceID_def SpanID_def)

text \<open>
  The comment on \<open>TraceID\<close> says that the identifier is valid and non-zero, but the code only draws
  hexadecimal digits: a source that draws zeros gives the all-zero identifier, which OTel
  calls invalid.
\<close>

lemma zero_HexString:
  assumes "rg_IntN r 16 = State_Monad.return 0"
  shows "HexString r n = State_Monad.return (replicate n (CHR ''0''))"
proof -
  have "State_Monad.traverse_list (\<lambda>_. State_Monad.return c) xs = State_Monad.return (replicate (length xs) c)"
    for c :: char and xs :: "nat list"
    by (induction xs) simp_all
  from this [of "CHR ''0''" "[0..<n]"] show ?thesis by (simp add: HexString_def assms rngHexChars_def)
qed

lemma zero_TraceID:
  "rg_IntN r 16 = State_Monad.return 0 \<Longrightarrow> TraceID r = State_Monad.return (replicate 32 (CHR ''0''))"
  by (simp add: TraceID_def zero_HexString)

end
