(* ===== verification/GenValues.thy ===== *)
theory GenValues
  imports GenRng
begin

text \<open>
  The generators profiles are made of (\<open>generator.go\<close>): a \<open>Gen\<close> value is one of the types that
  implement the interface, except \<open>Func\<close>, which no profile uses; \<open>produces\<close> is the language of a
  generator.
\<close>

section \<open>Generators\<close>

datatype ipFormat = IpFmtDotted | IpFmtU32 | IpFmtHex

datatype gen =
    ConstGen string
  | PoolGen "string list"
  | AnyOfGen "gen list"
  | RandStrGen string nat
  | HexGen string nat
  | UUIDGen
  | IPGen ipFormat
  | IntGen string int int
  | FloatGen string rat nat
  | BoolGen rat

definition Const :: "string \<Rightarrow> gen" where "Const v = ConstGen v"

fun Pool :: "string list \<Rightarrow> gen" where
  "Pool [] = Const ''''"
| "Pool [v] = Const v"
| "Pool vals = PoolGen vals"

fun AnyOf :: "gen list \<Rightarrow> gen" where
  "AnyOf [] = Const ''''"
| "AnyOf [g] = g"
| "AnyOf gens = AnyOfGen gens"

text \<open>\<open>strconv.Itoa\<close> on a signed number.\<close>

definition itoa_int :: "int \<Rightarrow> string" where
  "itoa_int v = (if v < 0 then ''-'' @ itoa (nat (- v)) else itoa (nat v))"

definition formatHex32 :: "u32 \<Rightarrow> string" where
  "formatHex32 v = rev (map (\<lambda>i. rngHexChars ! unat (drop_bit (i * 4) v AND 15)) [0..<8])"

definition octet_digits :: "nat \<Rightarrow> string" where
  "octet_digits oct =
     (if oct \<ge> 100 then [digit_char (oct div 100), digit_char (oct div 10 mod 10), digit_char (oct mod 10)]
      else if oct \<ge> 10 then [digit_char (oct div 10), digit_char (oct mod 10)]
      else [digit_char oct])"

fun ipv4_loop :: "nat list \<Rightarrow> u32 \<Rightarrow> string" where
  "ipv4_loop [] v = []"
| "ipv4_loop (shift # shifts) v =
     octet_digits (unat (ucast (drop_bit shift v) :: u8)) @ (if 0 < shift then ''.'' else '''') @
     ipv4_loop shifts v"

definition formatIPv4 :: "u32 \<Rightarrow> string" where
  "formatIPv4 v = ipv4_loop [24, 16, 8, 0] v"

definition with_prefix :: "string \<Rightarrow> ('g, string) state \<Rightarrow> ('g, string) state" where
  "with_prefix p m = (if p = '''' then m else do { s \<leftarrow> m; State_Monad.return (p @ s) })"

definition poolGen_Generate :: "'g go_rng \<Rightarrow> string list \<Rightarrow> ('g, string) state" where
  "poolGen_Generate r vals = do { i \<leftarrow> rg_IntN r (length vals); State_Monad.return (vals ! i) }"

definition ipGen_Generate :: "'g go_rng \<Rightarrow> ipFormat \<Rightarrow> ('g, string) state" where
  "ipGen_Generate r format = do {
     v \<leftarrow> rg_Uint32 r;
     State_Monad.return
       (case format of IpFmtU32 \<Rightarrow> itoa (unat v) | IpFmtHex \<Rightarrow> formatHex32 v | IpFmtDotted \<Rightarrow> formatIPv4 v) }"

definition intGen_Generate :: "'g go_rng \<Rightarrow> string \<Rightarrow> int \<Rightarrow> int \<Rightarrow> ('g, string) state" where
  "intGen_Generate r p lo hi = do {
     v \<leftarrow> (if hi > lo then do { k \<leftarrow> rg_IntN r (nat (hi - lo + 1)); State_Monad.return (lo + int k) }
           else State_Monad.return lo);
     State_Monad.return (if p = '''' then itoa_int v else p @ itoa_int v) }"

definition floatGen_Generate :: "'g go_rng \<Rightarrow> string \<Rightarrow> rat \<Rightarrow> nat \<Rightarrow> ('g, string) state" where
  "floatGen_Generate r p mx decimals = do {
     u \<leftarrow> rg_Float64 r;
     State_Monad.return (if p = '''' then rg_FormatFloat r mx u decimals else p @ rg_FormatFloat r mx u decimals) }"

definition boolGen_Generate :: "'g go_rng \<Rightarrow> rat \<Rightarrow> ('g, string) state" where
  "boolGen_Generate r trueProb = do {
     u \<leftarrow> rg_Float64 r;
     State_Monad.return (if u < trueProb then ''true'' else ''false'') }"

lemmas gen_methods = poolGen_Generate_def ipGen_Generate_def intGen_Generate_def floatGen_Generate_def
  boolGen_Generate_def

primrec generate :: "'g go_rng \<Rightarrow> gen \<Rightarrow> ('g, string) state" where
  "generate r (ConstGen v) = State_Monad.return v"
| "generate r (PoolGen vals) = poolGen_Generate r vals"
| "generate r (AnyOfGen gens) =
     do { i \<leftarrow> rg_IntN r (length gens); (map (generate r) gens) ! i }"
| "generate r (RandStrGen p n) = with_prefix p (AlphaNum r n)"
| "generate r (HexGen p n) = with_prefix p (HexString r n)"
| "generate r UUIDGen = rng_UUID r"
| "generate r (IPGen format) = ipGen_Generate r format"
| "generate r (IntGen p lo hi) = intGen_Generate r p lo hi"
| "generate r (FloatGen p mx decimals) = floatGen_Generate r p mx decimals"
| "generate r (BoolGen trueProb) = boolGen_Generate r trueProb"

text \<open>What the constructors guarantee: a pool or a choice is never empty, so no draw panics.\<close>

primrec gen_ok :: "gen \<Rightarrow> bool" where
  "gen_ok (ConstGen v) = True"
| "gen_ok (PoolGen vals) = (vals \<noteq> [])"
| "gen_ok (AnyOfGen gens) = (gens \<noteq> [] \<and> list_all id (map gen_ok gens))"
| "gen_ok (RandStrGen p n) = True"
| "gen_ok (HexGen p n) = True"
| "gen_ok UUIDGen = True"
| "gen_ok (IPGen format) = True"
| "gen_ok (IntGen p lo hi) = True"
| "gen_ok (FloatGen p mx decimals) = True"
| "gen_ok (BoolGen trueProb) = True"

text \<open>A dotted quad: four decimal numbers below 256.\<close>

definition dotted :: "string \<Rightarrow> bool" where
  "dotted s \<longleftrightarrow> (\<exists>a < 256. \<exists>b < 256. \<exists>c < 256. \<exists>d < 256.
     s = itoa a @ ''.'' @ itoa b @ ''.'' @ itoa c @ ''.'' @ itoa d)"

primrec produces :: "'g go_rng \<Rightarrow> gen \<Rightarrow> string \<Rightarrow> bool" where
  "produces r (ConstGen v) s = (s = v)"
| "produces r (PoolGen vals) s = (s \<in> set vals)"
| "produces r (AnyOfGen gens) s = list_ex (\<lambda>p. p s) (map (produces r) gens)"
| "produces r (RandStrGen p n) s = (\<exists>t. s = p @ t \<and> length t = n \<and> set t \<subseteq> set alphaNumChars)"
| "produces r (HexGen p n) s = (\<exists>t. s = p @ t \<and> length t = n \<and> all_hex t)"
| "produces r UUIDGen s = uuid4 s"
| "produces r (IPGen format) s =
     (case format of
        IpFmtU32 \<Rightarrow> \<exists>n < 4294967296. s = itoa n
      | IpFmtHex \<Rightarrow> length s = 8 \<and> all_hex s
      | IpFmtDotted \<Rightarrow> dotted s)"
| "produces r (IntGen p lo hi) s = (\<exists>v. lo \<le> v \<and> v \<le> max lo hi \<and> s = p @ itoa_int v)"
| "produces r (FloatGen p mx decimals) s = (\<exists>u. 0 \<le> u \<and> u < 1 \<and> s = p @ rg_FormatFloat r mx u decimals)"
| "produces r (BoolGen trueProb) s =
     (s \<in> {''true'', ''false''} \<and> (1 \<le> trueProb \<longrightarrow> s = ''true'') \<and> (trueProb \<le> 0 \<longrightarrow> s = ''false''))"

lemma octet_digits_itoa: "n < 256 \<Longrightarrow> octet_digits n = itoa n"
proof -
  assume n: "n < 256"
  have d: "itoa n = [digit_char n]" if "n < 10" for n using that by (simp add: itoa.simps)
  show ?thesis
  proof (cases "100 \<le> n")
    case True
    then have "n div 10 div 10 < 10" "\<not> n < 10" "\<not> n div 10 < 10" using n by auto
    then show ?thesis
      using True by (simp add: octet_digits_def itoa.simps [of n] itoa.simps [of "n div 10"] d)
        (simp add: div_mult2_eq [symmetric])
  next
    case False
    then show ?thesis
      by (cases "n < 10") (simp_all add: octet_digits_def d itoa.simps [of n])
  qed
qed

lemma formatIPv4_dotted: "dotted (formatIPv4 v)"
proof -
  have "unat (w :: u8) < 256" for w using unsigned_less [of w] by simp
  then show ?thesis unfolding dotted_def formatIPv4_def
    by (auto simp: octet_digits_itoa intro!: exI)
qed

lemma formatHex32_shape: "length (formatHex32 v) = 8 \<and> all_hex (formatHex32 v)"
proof -
  have "unat ((x :: u32) AND 15) < 16" for x using word_and_le1 [of x 15] by (simp add: word_le_nat_alt)
  then show ?thesis by (auto simp: formatHex32_def all_hex_def)
qed

lemma with_prefix_outcome:
  assumes "pred_state Q m" and "\<And>s. Q s \<Longrightarrow> P (p @ s)"
  shows "pred_state P (with_prefix p m)"
  using assms by (auto simp: with_prefix_def intro: pred_bind [OF assms(1)] pred_weaken)

lemma generate_outcome:
  assumes r: "go_rng_ok r"
  shows "gen_ok g \<Longrightarrow> pred_state (produces r g) (generate r g)"
proof (induction g)
  case (PoolGen vals)
  then have "0 < length vals" by simp
  show ?case by (auto simp: gen_methods intro!: pred_bind [OF go_rng_okD(1) [OF r \<open>0 < length vals\<close>]])
next
  case (AnyOfGen gens)
  then have n: "0 < length gens" by simp
  have "pred_state (produces r (AnyOfGen gens)) (map (generate r) gens ! i)" if i: "i < length gens" for i
  proof -
    have "gens ! i \<in> set gens" and "gen_ok (gens ! i)" using i AnyOfGen.prems by (auto simp: list_all_iff)
    then have "pred_state (produces r (gens ! i)) (generate r (gens ! i))" by (rule AnyOfGen.IH)
    then have "pred_state (produces r (AnyOfGen gens)) (generate r (gens ! i))"
      by (rule pred_weaken) (use \<open>gens ! i \<in> set gens\<close> in \<open>auto simp: list_ex_iff\<close>)
    then show ?thesis using i by simp
  qed
  then show ?case by (simp only: generate.simps gen_methods) (rule pred_bind [OF go_rng_okD(1) [OF r n]])
next
  case (RandStrGen p n)
  show ?case by simp (rule with_prefix_outcome [OF AlphaNum_outcome [OF r, of n]], auto)
next
  case (HexGen p n)
  show ?case by simp (rule with_prefix_outcome [OF HexString_outcome [OF r, of n]], auto)
next
  case UUIDGen
  have "produces r UUIDGen = uuid4" by (simp add: fun_eq_iff)
  then show ?case using UUID_outcome by simp
next
  case (IPGen format)
  have "unat (v :: u32) < 4294967296" for v using unsigned_less [of v] by simp
  then have "\<exists>n < 4294967296. itoa (unat (v :: u32)) = itoa n" for v by blast
  then show ?case
    by (auto intro!: pred_bind_any simp: gen_methods formatIPv4_dotted formatHex32_shape split: ipFormat.split)
next
  case (IntGen p lo hi)
  have "pred_state (\<lambda>v. lo \<le> v \<and> v \<le> max lo hi)
      (if hi > lo then do { k \<leftarrow> rg_IntN r (nat (hi - lo + 1)); State_Monad.return (lo + int k) }
       else State_Monad.return lo)"
  proof (cases "hi > lo")
    case True
    then have "0 < nat (hi - lo + 1)" by simp
    with True show ?thesis by (auto intro!: pred_bind [OF go_rng_okD(1) [OF r]])
  qed auto
  then show ?case unfolding generate.simps gen_methods by (rule pred_bind) auto
next
  case (FloatGen p mx decimals)
  show ?case unfolding generate.simps gen_methods by (rule pred_bind [OF go_rng_okD(4) [OF r]]) auto
next
  case (BoolGen trueProb)
  show ?case unfolding generate.simps gen_methods by (rule pred_bind [OF go_rng_okD(4) [OF r]]) auto
qed simp

lemma constructors_ok:
  "gen_ok (Pool vals)" "list_all gen_ok gens \<Longrightarrow> gen_ok (AnyOf gens)"
  by (cases vals rule: Pool.cases; simp add: Const_def)
    (cases gens rule: AnyOf.cases; simp add: Const_def list_all_iff)

section \<open>Maps\<close>

record mapEntry =
  ge_fixedKey :: string
  ge_keyPfx :: string
  ge_suffixLen :: nat
  ge_prob :: rat
  ge_valueGen :: gen

text \<open>The arguments of \<open>K\<close> and \<open>KP\<close>; \<open>None\<close> is the panic on a malformed profile.\<close>

datatype map_arg = StrArg string | GenArg gen

fun str_args :: "map_arg list \<Rightarrow> string list option" where
  "str_args [] = Some []"
| "str_args (StrArg s # args) = map_option ((#) s) (str_args args)"
| "str_args (GenArg g # args) = None"

definition argsToGen :: "map_arg list \<Rightarrow> gen option" where
  "argsToGen args =
     (case args of
        [] \<Rightarrow> Some (Const '''')
      | [GenArg g] \<Rightarrow> Some g
      | _ \<Rightarrow> map_option Pool (str_args args))"

definition K :: "rat \<Rightarrow> string \<Rightarrow> map_arg list \<Rightarrow> mapEntry option" where
  "K prob key args = map_option (\<lambda>g. \<lparr>ge_fixedKey = key, ge_keyPfx = '''', ge_suffixLen = 0,
     ge_prob = prob, ge_valueGen = g\<rparr>) (argsToGen args)"

definition KP :: "rat \<Rightarrow> string \<Rightarrow> nat \<Rightarrow> map_arg list \<Rightarrow> mapEntry option" where
  "KP prob prefix suffixLen args = map_option (\<lambda>g. \<lparr>ge_fixedKey = '''', ge_keyPfx = prefix,
     ge_suffixLen = suffixLen, ge_prob = prob, ge_valueGen = g\<rparr>) (argsToGen args)"

definition map_entry ::
    "'g go_rng \<Rightarrow> mapEntry \<Rightarrow> (string \<times> string) list \<Rightarrow> ('g, (string \<times> string) list) state" where
  "map_entry r e m = do {
     u \<leftarrow> rg_Float64 r;
     if u \<ge> ge_prob e then State_Monad.return m
     else do {
       key \<leftarrow> (if ge_keyPfx e \<noteq> '''' then do { s \<leftarrow> HexString r (ge_suffixLen e); State_Monad.return (ge_keyPfx e @ s) }
              else State_Monad.return (ge_fixedKey e));
       v \<leftarrow> generate r (ge_valueGen e);
       State_Monad.return (AList.update key v m) } }"

text \<open>A nil generator and one without entries give no map; a map starts empty.\<close>

fun map_entries ::
    "'g go_rng \<Rightarrow> mapEntry list \<Rightarrow> (string \<times> string) list \<Rightarrow> ('g, (string \<times> string) list) state" where
  "map_entries r [] m = State_Monad.return m"
| "map_entries r (e # es) m = do { m \<leftarrow> map_entry r e m; map_entries r es m }"

definition map_Generate :: "'g go_rng \<Rightarrow> mapEntry list \<Rightarrow> ('g, (string \<times> string) list) state" where
  "map_Generate r es = map_entries r es []"

definition entry_produces :: "'g go_rng \<Rightarrow> mapEntry \<Rightarrow> string \<times> string \<Rightarrow> bool" where
  "entry_produces r e kv \<longleftrightarrow>
     (if ge_keyPfx e = '''' then fst kv = ge_fixedKey e
      else \<exists>s. fst kv = ge_keyPfx e @ s \<and> length s = ge_suffixLen e \<and> all_hex s) \<and>
     produces r (ge_valueGen e) (snd kv)"

definition entries_ok :: "mapEntry list \<Rightarrow> bool" where
  "entries_ok es \<longleftrightarrow> list_all (\<lambda>e. gen_ok (ge_valueGen e)) es"

definition map_produces :: "'g go_rng \<Rightarrow> mapEntry set \<Rightarrow> (string \<times> string) list \<Rightarrow> bool" where
  "map_produces r E m \<longleftrightarrow>
     distinct (map fst m) \<and> (\<forall>kv \<in> set m. \<exists>e \<in> E. entry_produces r e kv) \<and>
     (\<forall>e \<in> E. ge_keyPfx e = '''' \<longrightarrow> 1 \<le> ge_prob e \<longrightarrow> ge_fixedKey e \<in> fst ` set m)"

lemma map_entry_outcome:
  assumes r: "go_rng_ok r" and e: "gen_ok (ge_valueGen e)"
  shows "pred_state (\<lambda>m'. (m' = m \<and> \<not> 1 \<le> ge_prob e) \<or> (\<exists>k v. m' = AList.update k v m \<and> entry_produces r e (k, v)))
    (map_entry r e m)"
proof -
  have key: "pred_state (\<lambda>k. if ge_keyPfx e = '''' then k = ge_fixedKey e
        else \<exists>s. k = ge_keyPfx e @ s \<and> length s = ge_suffixLen e \<and> all_hex s)
      (if ge_keyPfx e \<noteq> '''' then do { s \<leftarrow> HexString r (ge_suffixLen e); State_Monad.return (ge_keyPfx e @ s) }
       else State_Monad.return (ge_fixedKey e))"
    by (auto intro!: pred_bind [OF HexString_outcome [OF r, of "ge_suffixLen e"]])
  show ?thesis
    unfolding map_entry_def
  proof (rule pred_bind [OF go_rng_okD(4) [OF r]])
    fix u assume u: "0 \<le> u \<and> u < (1 :: rat)"
    show "pred_state (\<lambda>m'. m' = m \<and> \<not> 1 \<le> ge_prob e \<or> (\<exists>k v. m' = AList.update k v m \<and> entry_produces r e (k, v)))
      (if u \<ge> ge_prob e then State_Monad.return m
       else do {
         key \<leftarrow> (if ge_keyPfx e \<noteq> '''' then do { s \<leftarrow> HexString r (ge_suffixLen e); State_Monad.return (ge_keyPfx e @ s) }
                else State_Monad.return (ge_fixedKey e));
         v \<leftarrow> generate r (ge_valueGen e);
         State_Monad.return (AList.update key v m) })"
    proof (cases "u \<ge> ge_prob e")
      case True
      then show ?thesis using u by simp
    next
      case False
      show ?thesis
        unfolding if_not_P [OF False]
        by (rule pred_bind [OF key], rule pred_bind [OF generate_outcome [OF r e]], unfold pred_return,
            rule disjI2, intro exI, rule conjI [OF refl]) (simp add: entry_produces_def)
    qed
  qed
qed

lemma update_set: "set (AList.update k v m) \<subseteq> insert (k, v) (set m)"
  by (induction m) auto

lemma map_produces_update:
  assumes m: "map_produces r E m" and v: "entry_produces r e (k, v)"
  shows "map_produces r (insert e E) (AList.update k v m)"
proof -
  let ?m' = "AList.update k v m"
  have dom: "fst ` set ?m' = insert k (fst ` set m)" by (simp add: update_conv' flip: dom_map_of_conv_image_fst)
  have "\<forall>kv \<in> set ?m'. \<exists>e' \<in> insert e E. entry_produces r e' kv"
    using m v update_set [of k v m] unfolding map_produces_def by blast
  moreover have "distinct (map fst ?m')" using m by (simp add: map_produces_def distinct_update)
  moreover have "k = ge_fixedKey e" if "ge_keyPfx e = ''''" using v that by (simp add: entry_produces_def)
  then have "\<forall>e' \<in> insert e E. ge_keyPfx e' = '''' \<longrightarrow> 1 \<le> ge_prob e' \<longrightarrow> ge_fixedKey e' \<in> fst ` set ?m'"
    using m unfolding dom map_produces_def by blast
  ultimately show ?thesis unfolding map_produces_def by blast
qed

lemma map_produces_skip:
  "map_produces r E m \<Longrightarrow> \<not> 1 \<le> ge_prob e \<Longrightarrow> map_produces r (insert e E) m"
  unfolding map_produces_def by blast

lemma map_entries_outcome:
  assumes r: "go_rng_ok r"
  shows "entries_ok es \<Longrightarrow> map_produces r E m \<Longrightarrow>
    pred_state (map_produces r (E \<union> set es)) (map_entries r es m)"
proof (induction es arbitrary: m E)
  case (Cons e es)
  have e: "gen_ok (ge_valueGen e)" and es: "entries_ok es" using Cons.prems(1) by (simp_all add: entries_ok_def)
  have next_map: "map_produces r (insert e E) m'"
    if "(m' = m \<and> \<not> 1 \<le> ge_prob e) \<or> (\<exists>k v. m' = AList.update k v m \<and> entry_produces r e (k, v))" for m'
    using that map_produces_update [OF Cons.prems(2)] map_produces_skip [OF Cons.prems(2)] by auto
  have "pred_state (map_produces r (insert e E \<union> set es)) (map_entries r (e # es) m)"
    unfolding map_entries.simps
    by (rule pred_bind [OF map_entry_outcome [OF r e]]) (rule Cons.IH [OF es next_map])
  then show ?case by simp
qed simp

text \<open>
  Attribute maps: every outcome has distinct keys, each key and value the shape its entry in the
  profile declares, and the keys declared with probability one are always there.
\<close>

lemma map_Generate_outcome:
  assumes "go_rng_ok r" and "entries_ok es"
  shows "pred_state (map_produces r (set es)) (map_Generate r es)"
  using map_entries_outcome [OF assms, of "{}" "[]"] by (simp add: map_Generate_def map_produces_def)

text \<open>
  Generators: whatever the random source does within its documented ranges, no draw panics
  and a generator built by the constructors yields exactly the shape it is declared with: a
  member of its pool, its prefix with the declared number of random characters, a version 4
  UUID, a dotted quad, a number within its bounds; an attribute map has distinct keys of the
  declared shapes, and every key of probability one.
\<close>

theorem generators_sound:
  assumes "go_rng_ok r" and "gen_ok g" and "entries_ok es"
  shows "pred_state (produces r g) (generate r g) \<and> pred_state (map_produces r (set es)) (map_Generate r es)"
  using generate_outcome [OF assms(1,2)] map_Generate_outcome [OF assms(1,3)] by blast

text \<open>A source that always draws zero.\<close>

definition zero_rng :: "unit go_rng" where
  "zero_rng =
     \<lparr>rg_IntN = \<lambda>_. State_Monad.return 0, rg_Uint64 = State_Monad.return 0, rg_Uint32 = State_Monad.return 0,
      rg_Uint64N = \<lambda>_. State_Monad.return 0, rg_Int64N = \<lambda>_. State_Monad.return 0,
      rg_Float64 = State_Monad.return 0, rg_FormatFloat = \<lambda>_ _ _. ''0.00''\<rparr>"

lemma zero_rng_ok: "go_rng_ok zero_rng"
  by (simp add: go_rng_ok_def zero_rng_def word_gt_0)

definition sample_entries :: "mapEntry list" where
  "sample_entries =
     [\<lparr>ge_fixedKey = ''cloud.provider'', ge_keyPfx = '''', ge_suffixLen = 0, ge_prob = 1, ge_valueGen = Pool [''aws'']\<rparr>]"

theorem generators_sound_witness:
  "produces zero_rng (Pool [''a'', ''b'']) (fst (run_state (generate zero_rng (Pool [''a'', ''b''])) ())) \<and>
   map_produces zero_rng (set sample_entries) (fst (run_state (map_Generate zero_rng sample_entries) ()))"
proof -
  have "gen_ok (Pool [''a'', ''b''])" and "entries_ok sample_entries"
    by (simp_all add: sample_entries_def entries_ok_def Const_def)
  from generators_sound [OF zero_rng_ok this] show ?thesis
    by (intro conjI) (blast intro: pred_state_run_state)+
qed

end
