(* ===== verification/GenProfile.thy ===== *)
theory GenProfile
  imports GenValues "HOL-Library.List_Lexorder" "HOL-Library.Char_ord"
begin

text \<open>
  The configuration of the generator (\<open>config.go\<close>) and the profiles (\<open>profile.go\<close>): the record of
  column generators, its defaults and the registry. A profile under construction has optional
  fields; one with its defaults applied has none left unset.
\<close>

section \<open>Configuration\<close>

record tracesConfig =
  tg_SpansPerTraceMin :: int
  tg_SpansPerTraceMax :: int
  tg_MaxDepth :: int
  tg_DurationMinUs :: u64
  tg_DurationMaxUs :: u64

record profilesConfig =
  pg_SamplesPerProfileMin :: int
  pg_SamplesPerProfileMax :: int
  pg_StackDepthMin :: int
  pg_StackDepthMax :: int
  pg_DurationMinMs :: u64
  pg_DurationMaxMs :: u64
  pg_PeriodNs :: int

record gen_config =
  gc_Enabled :: bool
  gc_Threads :: int
  gc_RowsPerBlock :: int
  gc_RowsPerSecond :: u64
  gc_Profile :: string
  gc_ReuseBlocks :: bool
  gc_BlockRetirementUses :: int
  gc_Traces :: tracesConfig
  gc_Profiles :: profilesConfig

datatype gen_err = ErrGenThreads | ErrRowsPerBlock

definition traces_defaults :: "tracesConfig \<Rightarrow> tracesConfig" where
  "traces_defaults t =
     (let t = (if tg_SpansPerTraceMin t < 1 then t\<lparr>tg_SpansPerTraceMin := 1\<rparr> else t);
          t = (if tg_SpansPerTraceMax t < tg_SpansPerTraceMin t
               then t\<lparr>tg_SpansPerTraceMax := tg_SpansPerTraceMin t\<rparr> else t);
          t = (if tg_MaxDepth t < 1 then t\<lparr>tg_MaxDepth := 5\<rparr> else t);
          t = (if tg_DurationMinUs t = 0 then t\<lparr>tg_DurationMinUs := 1000\<rparr> else t)
      in if tg_DurationMaxUs t = 0 \<or> tg_DurationMaxUs t < tg_DurationMinUs t
         then t\<lparr>tg_DurationMaxUs := 5000000\<rparr> else t)"

definition profiles_defaults :: "profilesConfig \<Rightarrow> profilesConfig" where
  "profiles_defaults p =
     (let p = (if pg_SamplesPerProfileMin p < 1 then p\<lparr>pg_SamplesPerProfileMin := 1\<rparr> else p);
          p = (if pg_SamplesPerProfileMax p < pg_SamplesPerProfileMin p
               then p\<lparr>pg_SamplesPerProfileMax := pg_SamplesPerProfileMin p\<rparr> else p);
          p = (if pg_StackDepthMin p < 1 then p\<lparr>pg_StackDepthMin := 1\<rparr> else p);
          p = (if pg_StackDepthMax p < pg_StackDepthMin p
               then p\<lparr>pg_StackDepthMax := pg_StackDepthMin p\<rparr> else p);
          p = (if pg_DurationMinMs p = 0 then p\<lparr>pg_DurationMinMs := 1000\<rparr> else p);
          p = (if pg_DurationMaxMs p = 0 \<or> pg_DurationMaxMs p < pg_DurationMinMs p
               then p\<lparr>pg_DurationMaxMs := 60000\<rparr> else p)
      in if pg_PeriodNs p = 0 then p\<lparr>pg_PeriodNs := 10000000\<rparr> else p)"

text \<open>\<open>Validate\<close> also fills in the defaults, on an enabled configuration only.\<close>

definition gen_Validate :: "gen_config \<Rightarrow> gen_err + gen_config" where
  "gen_Validate c =
     (if \<not> gc_Enabled c then Inr c
      else if gc_Threads c < 1 then Inl ErrGenThreads
      else if gc_RowsPerBlock c < 1 then Inl ErrRowsPerBlock
      else Inr (c\<lparr>gc_Traces := traces_defaults (gc_Traces c), gc_Profiles := profiles_defaults (gc_Profiles c)\<rparr>))"

text \<open>What the fillers need of their configuration.\<close>

definition traces_ok :: "tracesConfig \<Rightarrow> bool" where
  "traces_ok t \<longleftrightarrow> 1 \<le> tg_SpansPerTraceMin t \<and> tg_SpansPerTraceMin t \<le> tg_SpansPerTraceMax t \<and>
     1 \<le> tg_MaxDepth t \<and> 0 < tg_DurationMinUs t"

definition profiles_ok :: "profilesConfig \<Rightarrow> bool" where
  "profiles_ok p \<longleftrightarrow> 1 \<le> pg_SamplesPerProfileMin p \<and> pg_SamplesPerProfileMin p \<le> pg_SamplesPerProfileMax p \<and>
     1 \<le> pg_StackDepthMin p \<and> pg_StackDepthMin p \<le> pg_StackDepthMax p \<and>
     0 < pg_DurationMinMs p \<and> pg_PeriodNs p \<noteq> 0"

lemma traces_defaults_ok: "traces_ok (traces_defaults t)"
  by (simp add: traces_ok_def traces_defaults_def Let_def word_gt_0)

lemma profiles_defaults_ok: "profiles_ok (profiles_defaults p)"
  by (simp add: profiles_ok_def profiles_defaults_def Let_def word_gt_0)

lemma gen_Validate_ok:
  assumes "gen_Validate c = Inr c'" and "gc_Enabled c"
  shows "1 \<le> gc_Threads c' \<and> 1 \<le> gc_RowsPerBlock c' \<and> traces_ok (gc_Traces c') \<and> profiles_ok (gc_Profiles c')"
  using assms traces_defaults_ok profiles_defaults_ok by (auto simp: gen_Validate_def split: if_splits)

text \<open>
  A maximum below the minimum is replaced by the fixed default, not by the minimum, so a large
  minimum leaves the bounds reversed: the configured range is 6 s to 6 s and the accepted one 6 s to 5 s.
\<close>

lemma duration_bounds_reversed:
  assumes "tg_DurationMinUs t = 6000000" and "tg_DurationMaxUs t = 0"
  shows "tg_DurationMaxUs (traces_defaults t) < tg_DurationMinUs (traces_defaults t)"
  using assms by (simp add: traces_defaults_def Let_def)

section \<open>Profiles\<close>

record ('g, 'm) profile_fields =
  pf_Name :: string
  pf_ServiceName :: 'g
  pf_ScopeName :: 'g
  pf_ScopeVersion :: 'g
  pf_ResourceAttrs :: 'm
  pf_ScopeAttrs :: 'm
  pf_SeverityText :: 'g
  pf_Body :: 'g
  pf_LogAttrs :: 'm
  pf_SpanName :: 'g
  pf_SpanKind :: 'g
  pf_StatusCode :: 'g
  pf_StatusMessage :: 'g
  pf_SpanAttrs :: 'm
  pf_SampleType :: 'g
  pf_SampleUnit :: 'g
  pf_PeriodType :: 'g
  pf_PeriodUnit :: 'g
  pf_FunctionName :: 'g
  pf_FileName :: 'g
  pf_MappingFileName :: 'g
  pf_ProfileAttrs :: 'm
  pf_SampleAttrs :: 'm

type_synonym open_profile = "(gen option, mapEntry list option) profile_fields"
type_synonym profile = "(gen, mapEntry list) profile_fields"

definition NewProfile :: "string \<Rightarrow> open_profile" where
  "NewProfile name =
     \<lparr>pf_Name = name, pf_ServiceName = None, pf_ScopeName = None, pf_ScopeVersion = None,
      pf_ResourceAttrs = None, pf_ScopeAttrs = None, pf_SeverityText = None, pf_Body = None,
      pf_LogAttrs = None, pf_SpanName = None, pf_SpanKind = None, pf_StatusCode = None,
      pf_StatusMessage = None, pf_SpanAttrs = None, pf_SampleType = None, pf_SampleUnit = None,
      pf_PeriodType = None, pf_PeriodUnit = None, pf_FunctionName = None, pf_FileName = None,
      pf_MappingFileName = None, pf_ProfileAttrs = None, pf_SampleAttrs = None\<rparr>"

text \<open>\<open>Map\<close> of the entries; an entry that panicked makes the whole map panic.\<close>

fun Map :: "mapEntry option list \<Rightarrow> mapEntry list option" where
  "Map [] = Some []"
| "Map (Some e # es) = map_option ((#) e) (Map es)"
| "Map (None # es) = None"

definition defaultSampleType :: gen where
  "defaultSampleType =
     Pool [''cpu'', ''samples'', ''alloc_space'', ''inuse_space'', ''alloc_objects'', ''inuse_objects'']"

definition defaultSampleUnit :: gen where
  "defaultSampleUnit = Pool [''nanoseconds'', ''count'', ''bytes'']"

definition defaultFunctionName :: gen where
  "defaultFunctionName = AnyOf
     [Pool [''main.main'', ''runtime.mallocgc'', ''runtime.gcBgMarkWorker'', ''runtime.systemstack'',
        ''runtime.futex'', ''runtime.memmove'', ''runtime.scanobject'', ''runtime.mapaccess2'',
        ''runtime.growslice'', ''net/http.('' @ ''*conn).serve'', ''net/http.('' @ ''*ServeMux).ServeHTTP'',
        ''sync.('' @ ''*Mutex).Lock'', ''encoding/json.Marshal'', ''encoding/json.Unmarshal'',
        ''database/sql.('' @ ''*DB).QueryContext'', ''google.golang.org/grpc.('' @ ''*Server).processUnaryRPC''],
      RandStrGen ''app/internal/service.'' 10, RandStrGen ''app/internal/handler.'' 8,
      RandStrGen ''vendor/github.com/'' 10]"

definition defaultFileName :: gen where
  "defaultFileName = AnyOf
     [Pool [''/usr/local/go/src/runtime/proc.go'', ''/usr/local/go/src/runtime/malloc.go'',
        ''/usr/local/go/src/net/http/server.go'', ''/usr/local/go/src/sync/mutex.go'',
        ''/usr/local/go/src/encoding/json/encode.go''],
      RandStrGen ''/app/internal/service/'' 8, RandStrGen ''/app/internal/handler/'' 8,
      RandStrGen ''/go/pkg/mod/github.com/'' 8]"

definition defaultMappingFileName :: gen where
  "defaultMappingFileName =
     Pool [''/app/server'', ''/usr/lib/x86_64-linux-gnu/libc.so.6'',
       ''/usr/lib/x86_64-linux-gnu/libpthread.so.0'', ''/usr/local/go/pkg/tool/linux_amd64/link'',
       ''[vdso]'', ''[kernel.kallsyms]'']"

definition defaultProfileAttrs :: "mapEntry list option" where
  "defaultProfileAttrs = Map
     [K (95/100) ''profiler.name'' (map StrArg [''otel-ebpf-profiler'', ''pyroscope'', ''parca'', ''async-profiler'',
        ''datadog-profiler'']),
      K (9/10) ''profiler.version'' [GenArg (RandStrGen ''1.'' 5)],
      K (7/10) ''process.pid'' [GenArg (IntGen '''' 1 65535)],
      K (5/10) ''runtime.name'' (map StrArg [''go'', ''OpenJDK'', ''CPython'', ''Node.js''])]"

definition defaultSampleAttrs :: "mapEntry list option" where
  "defaultSampleAttrs = Map
     [K (8/10) ''thread.name'' (map StrArg [''main'', ''worker'', ''gc'', ''http-handler'', ''grpc-worker'',
        ''scheduler'', ''io-poller'']),
      K (8/10) ''thread.id'' [GenArg (IntGen '''' 1 4096)],
      K (3/10) ''endpoint'' (map StrArg [''/api/v1/users'', ''/api/v1/orders'', ''/api/v1/search'',
        ''/api/v1/checkout'', ''/internal/health'']),
      K (15/100) ''tenant.id'' [GenArg (IntGen ''tenant-'' 1000 9999)]]"

definition or_default :: "'a option \<Rightarrow> 'a \<Rightarrow> 'a" where
  "or_default field d = (case field of None \<Rightarrow> d | Some x \<Rightarrow> x)"

text \<open>\<open>applyDefaults\<close>; \<open>None\<close> is a panic while a default map is built.\<close>

definition applyDefaults :: "open_profile \<Rightarrow> profile option" where
  "applyDefaults p =
     (case (case pf_ProfileAttrs p of None \<Rightarrow> defaultProfileAttrs | Some m \<Rightarrow> Some m,
            case pf_SampleAttrs p of None \<Rightarrow> defaultSampleAttrs | Some m \<Rightarrow> Some m) of
        (Some profileAttrs, Some sampleAttrs) \<Rightarrow> Some
          \<lparr>pf_Name = pf_Name p,
           pf_ServiceName = or_default (pf_ServiceName p) (Const ''unknown''),
           pf_ScopeName = or_default (pf_ScopeName p) (Const ''''),
           pf_ScopeVersion = or_default (pf_ScopeVersion p) (Const ''''),
           pf_ResourceAttrs = or_default (pf_ResourceAttrs p) [],
           pf_ScopeAttrs = or_default (pf_ScopeAttrs p) [],
           pf_SeverityText = or_default (pf_SeverityText p) (Const ''INFO''),
           pf_Body = or_default (pf_Body p) (Const ''''),
           pf_LogAttrs = or_default (pf_LogAttrs p) [],
           pf_SpanName = or_default (pf_SpanName p) (Const ''unknown''),
           pf_SpanKind = or_default (pf_SpanKind p) (Const ''SPAN_KIND_INTERNAL''),
           pf_StatusCode = or_default (pf_StatusCode p) (Const ''STATUS_CODE_UNSET''),
           pf_StatusMessage = or_default (pf_StatusMessage p) (Const ''''),
           pf_SpanAttrs = or_default (pf_SpanAttrs p) [],
           pf_SampleType = or_default (pf_SampleType p) defaultSampleType,
           pf_SampleUnit = or_default (pf_SampleUnit p) defaultSampleUnit,
           pf_PeriodType = or_default (pf_PeriodType p) (Const ''cpu''),
           pf_PeriodUnit = or_default (pf_PeriodUnit p) (Const ''nanoseconds''),
           pf_FunctionName = or_default (pf_FunctionName p) defaultFunctionName,
           pf_FileName = or_default (pf_FileName p) defaultFileName,
           pf_MappingFileName = or_default (pf_MappingFileName p) defaultMappingFileName,
           pf_ProfileAttrs = profileAttrs,
           pf_SampleAttrs = sampleAttrs\<rparr>
      | _ \<Rightarrow> None)"

section \<open>The registry\<close>

type_synonym registry = "(string \<times> open_profile) list"

text \<open>A second profile of the same name panics at start.\<close>

definition RegisterProfile :: "string \<Rightarrow> open_profile \<Rightarrow> registry \<Rightarrow> registry option" where
  "RegisterProfile name build reg =
     (if map_of reg name \<noteq> None then None else Some ((name, build) # reg))"

definition ListProfiles :: "registry \<Rightarrow> string list" where
  "ListProfiles reg = sort (map fst reg)"

fun join_names :: "nat \<Rightarrow> string list \<Rightarrow> string" where
  "join_names i [] = ''''"
| "join_names i (n # ns) = (if 0 < i then '', '' else '''') @ n @ join_names (i + 1) ns"

definition registeredProfileNames :: "registry \<Rightarrow> string" where
  "registeredProfileNames reg = join_names 0 (ListProfiles reg)"

datatype profile_err = UnknownProfile string string | ProfilePanic

definition GetProfile :: "registry \<Rightarrow> string \<Rightarrow> profile_err + profile" where
  "GetProfile reg name =
     (case map_of reg name of
        None \<Rightarrow> Inl (UnknownProfile name (registeredProfileNames reg))
      | Some p \<Rightarrow> (case applyDefaults p of None \<Rightarrow> Inl ProfilePanic | Some p \<Rightarrow> Inr p))"

text \<open>A profile whose generators were all built by the constructors.\<close>

definition profile_ok :: "profile \<Rightarrow> bool" where
  "profile_ok p \<longleftrightarrow>
     list_all gen_ok [pf_ServiceName p, pf_ScopeName p, pf_ScopeVersion p, pf_SeverityText p, pf_Body p,
       pf_SpanName p, pf_SpanKind p, pf_StatusCode p, pf_StatusMessage p, pf_SampleType p, pf_SampleUnit p,
       pf_PeriodType p, pf_PeriodUnit p, pf_FunctionName p, pf_FileName p, pf_MappingFileName p] \<and>
     list_all entries_ok [pf_ResourceAttrs p, pf_ScopeAttrs p, pf_LogAttrs p, pf_SpanAttrs p,
       pf_ProfileAttrs p, pf_SampleAttrs p]"

definition open_ok :: "open_profile \<Rightarrow> bool" where
  "open_ok p \<longleftrightarrow>
     list_all (\<lambda>f. case f of None \<Rightarrow> True | Some g \<Rightarrow> gen_ok g)
       [pf_ServiceName p, pf_ScopeName p, pf_ScopeVersion p, pf_SeverityText p, pf_Body p,
       pf_SpanName p, pf_SpanKind p, pf_StatusCode p, pf_StatusMessage p, pf_SampleType p, pf_SampleUnit p,
       pf_PeriodType p, pf_PeriodUnit p, pf_FunctionName p, pf_FileName p, pf_MappingFileName p] \<and>
     list_all (\<lambda>f. case f of None \<Rightarrow> True | Some m \<Rightarrow> entries_ok m)
       [pf_ResourceAttrs p, pf_ScopeAttrs p, pf_LogAttrs p, pf_SpanAttrs p, pf_ProfileAttrs p, pf_SampleAttrs p]"

lemma default_maps:
  "\<exists>m. defaultProfileAttrs = Some m \<and> entries_ok m" "\<exists>m. defaultSampleAttrs = Some m \<and> entries_ok m"
  by (simp_all add: defaultProfileAttrs_def defaultSampleAttrs_def K_def argsToGen_def entries_ok_def constructors_ok)

lemma default_gens:
  "gen_ok defaultSampleType" "gen_ok defaultSampleUnit" "gen_ok defaultFunctionName" "gen_ok defaultFileName"
  "gen_ok defaultMappingFileName" "gen_ok (Const v)"
  by (simp_all add: defaultSampleType_def defaultSampleUnit_def defaultFunctionName_def defaultFileName_def
      defaultMappingFileName_def Const_def)

lemma or_default_ok:
  "(case f of None \<Rightarrow> True | Some g \<Rightarrow> P g) \<Longrightarrow> P d \<Longrightarrow> P (or_default f d)"
  by (simp add: or_default_def split: option.splits)

text \<open>Defaults never panic, leave every field that is set as it is, and give a complete profile.\<close>

lemma applyDefaults_ok:
  assumes "open_ok p"
  shows "\<exists>q. applyDefaults p = Some q \<and> profile_ok q \<and>
    (\<forall>g. pf_ServiceName p = Some g \<longrightarrow> pf_ServiceName q = g) \<and>
    (\<forall>g. pf_SeverityText p = Some g \<longrightarrow> pf_SeverityText q = g)"
proof -
  obtain pa where pa: "(case pf_ProfileAttrs p of None \<Rightarrow> defaultProfileAttrs | Some m \<Rightarrow> Some m) = Some pa"
    "entries_ok pa" using default_maps(1) assms by (cases "pf_ProfileAttrs p") (auto simp: open_ok_def)
  obtain sa where sa: "(case pf_SampleAttrs p of None \<Rightarrow> defaultSampleAttrs | Some m \<Rightarrow> Some m) = Some sa"
    "entries_ok sa" using default_maps(2) assms by (cases "pf_SampleAttrs p") (auto simp: open_ok_def)
  have empty: "entries_ok []" by (simp add: entries_ok_def)
  have gens: "list_all (\<lambda>f. case f of None \<Rightarrow> True | Some g \<Rightarrow> gen_ok g) fs \<Longrightarrow> list_all gen_ok ds \<Longrightarrow>
      list_all gen_ok (map2 or_default fs ds)" for fs ds
    by (induction fs ds rule: list_induct2') (auto simp: or_default_ok)
  have maps: "list_all (\<lambda>f. case f of None \<Rightarrow> True | Some m \<Rightarrow> entries_ok m) fs \<Longrightarrow> list_all entries_ok ds \<Longrightarrow>
      list_all entries_ok (map2 or_default fs ds)" for fs ds
    by (induction fs ds rule: list_induct2') (auto simp: or_default_ok)
  obtain q where q: "applyDefaults p = Some q"
    and attrs: "pf_ProfileAttrs q = pa" "pf_SampleAttrs q = sa"
    and fields: "[pf_ServiceName q, pf_ScopeName q, pf_ScopeVersion q, pf_SeverityText q, pf_Body q,
       pf_SpanName q, pf_SpanKind q, pf_StatusCode q, pf_StatusMessage q, pf_SampleType q, pf_SampleUnit q,
       pf_PeriodType q, pf_PeriodUnit q, pf_FunctionName q, pf_FileName q, pf_MappingFileName q] =
      map2 or_default [pf_ServiceName p, pf_ScopeName p, pf_ScopeVersion p, pf_SeverityText p, pf_Body p,
       pf_SpanName p, pf_SpanKind p, pf_StatusCode p, pf_StatusMessage p, pf_SampleType p, pf_SampleUnit p,
       pf_PeriodType p, pf_PeriodUnit p, pf_FunctionName p, pf_FileName p, pf_MappingFileName p]
       [Const ''unknown'', Const '''', Const '''', Const ''INFO'', Const '''', Const ''unknown'',
        Const ''SPAN_KIND_INTERNAL'', Const ''STATUS_CODE_UNSET'', Const '''', defaultSampleType, defaultSampleUnit,
        Const ''cpu'', Const ''nanoseconds'', defaultFunctionName, defaultFileName, defaultMappingFileName]"
    and map_fields: "[pf_ResourceAttrs q, pf_ScopeAttrs q, pf_LogAttrs q, pf_SpanAttrs q] =
      map2 or_default [pf_ResourceAttrs p, pf_ScopeAttrs p, pf_LogAttrs p, pf_SpanAttrs p] [[], [], [], []]"
    unfolding applyDefaults_def pa(1) sa(1) prod.case option.case by simp
  have "list_all gen_ok [pf_ServiceName q, pf_ScopeName q, pf_ScopeVersion q, pf_SeverityText q, pf_Body q,
       pf_SpanName q, pf_SpanKind q, pf_StatusCode q, pf_StatusMessage q, pf_SampleType q, pf_SampleUnit q,
       pf_PeriodType q, pf_PeriodUnit q, pf_FunctionName q, pf_FileName q, pf_MappingFileName q]"
    unfolding fields using assms unfolding open_ok_def by (intro gens) (simp_all add: default_gens)
  moreover have "list_all entries_ok [pf_ResourceAttrs q, pf_ScopeAttrs q, pf_LogAttrs q, pf_SpanAttrs q]"
    unfolding map_fields using assms unfolding open_ok_def by (intro maps) (simp_all add: empty)
  ultimately have "profile_ok q" by (simp add: profile_ok_def attrs pa(2) sa(2))
  moreover have "pf_ServiceName q = or_default (pf_ServiceName p) (Const ''unknown'')"
    and "pf_SeverityText q = or_default (pf_SeverityText p) (Const ''INFO'')"
    using fields by simp_all
  ultimately show ?thesis using q by (simp add: or_default_def)
qed

lemma join_names_nonempty: "join_names (Suc i) ns = concat (map (\<lambda>n. '', '' @ n) ns)"
  by (induction ns arbitrary: i) simp_all

text \<open>
  The registry: a name is registered at most once, the listing is sorted and without repeats, and
  every registered profile that is well formed can be loaded, under its own name only.
\<close>

lemma RegisterProfile_get:
  assumes "RegisterProfile name p reg = Some reg'" and "open_ok p"
  shows "(\<exists>q. GetProfile reg' name = Inr q \<and> profile_ok q) \<and>
    (\<forall>other. other \<noteq> name \<longrightarrow>
      map_of reg' other = map_of reg other) \<and> RegisterProfile name p' reg' = None"
  using assms applyDefaults_ok [OF assms(2)]
  by (auto simp: RegisterProfile_def GetProfile_def split: if_splits)

lemma RegisterProfile_distinct:
  "RegisterProfile name p reg = Some reg' \<Longrightarrow> distinct (map fst reg) \<Longrightarrow>
     distinct (map fst reg') \<and> sorted (ListProfiles reg') \<and> set (ListProfiles reg') = insert name (set (ListProfiles reg))"
  by (auto simp: RegisterProfile_def ListProfiles_def map_of_eq_None_iff split: if_splits)

end
