(* ===== verification/GenFill.thy ===== *)
theory GenFill
  imports GenProfile OtelRow
begin

text \<open>
  The fillers of logs and traces blocks (\<open>filler_logs.go\<close>, \<open>filler_traces.go\<close>), the columns they
  append to (one list of values per column; ch-go's columns are such lists), and how the rows are
  read back for the exporter (\<open>otelrow.go\<close>). \<open>cancelled\<close> says at which row or trace the context is
  found cancelled.
\<close>

section \<open>Columns\<close>

record genLogs =
  gl_Timestamp :: "int list"
  gl_TraceID :: "string list"
  gl_SpanID :: "string list"
  gl_TraceFlags :: "nat list"
  gl_SeverityText :: "string list"
  gl_SeverityNumber :: "nat list"
  gl_ServiceName :: "string list"
  gl_Body :: "string list"
  gl_ResourceSchemaUrl :: "string list"
  gl_ResourceAttributes :: "(string \<times> string) list list"
  gl_ScopeSchemaUrl :: "string list"
  gl_ScopeName :: "string list"
  gl_ScopeVersion :: "string list"
  gl_ScopeAttributes :: "(string \<times> string) list list"
  gl_LogAttributes :: "(string \<times> string) list list"

record genTraces =
  gt_Timestamp :: "int list"
  gt_TraceID :: "string list"
  gt_SpanID :: "string list"
  gt_ParentSpanID :: "string list"
  gt_TraceState :: "string list"
  gt_SpanName :: "string list"
  gt_SpanKind :: "string list"
  gt_ServiceName :: "string list"
  gt_ResourceAttributes :: "(string \<times> string) list list"
  gt_ScopeName :: "string list"
  gt_ScopeVersion :: "string list"
  gt_SpanAttributes :: "(string \<times> string) list list"
  gt_Duration :: "u64 list"
  gt_StatusCode :: "string list"
  gt_StatusMessage :: "string list"
  gt_EventsTimestamps :: "int list list"
  gt_EventsNames :: "string list list"
  gt_EventsAttributes :: "(string \<times> string) list list list"
  gt_LinksTraceIDs :: "string list list"
  gt_LinksSpanIDs :: "string list list"
  gt_LinksTraceStates :: "string list list"
  gt_LinksAttributes :: "(string \<times> string) list list list"

definition genLogs_Reset :: "genLogs \<Rightarrow> genLogs" where
  "genLogs_Reset c = \<lparr>gl_Timestamp = [], gl_TraceID = [], gl_SpanID = [], gl_TraceFlags = [],
     gl_SeverityText = [], gl_SeverityNumber = [], gl_ServiceName = [], gl_Body = [],
     gl_ResourceSchemaUrl = [], gl_ResourceAttributes = [], gl_ScopeSchemaUrl = [], gl_ScopeName = [],
     gl_ScopeVersion = [], gl_ScopeAttributes = [], gl_LogAttributes = []\<rparr>"

definition genTraces_Reset :: "genTraces \<Rightarrow> genTraces" where
  "genTraces_Reset c = \<lparr>gt_Timestamp = [], gt_TraceID = [], gt_SpanID = [], gt_ParentSpanID = [],
     gt_TraceState = [], gt_SpanName = [], gt_SpanKind = [], gt_ServiceName = [],
     gt_ResourceAttributes = [], gt_ScopeName = [], gt_ScopeVersion = [], gt_SpanAttributes = [],
     gt_Duration = [], gt_StatusCode = [], gt_StatusMessage = [], gt_EventsTimestamps = [],
     gt_EventsNames = [], gt_EventsAttributes = [], gt_LinksTraceIDs = [], gt_LinksSpanIDs = [],
     gt_LinksTraceStates = [], gt_LinksAttributes = []\<rparr>"

section \<open>Logs\<close>

definition severityTextToNumber :: "(string \<times> nat) list" where
  "severityTextToNumber =
     [(''TRACE'', 1), (''TRACE2'', 2), (''TRACE3'', 3), (''TRACE4'', 4), (''DEBUG'', 5), (''DEBUG2'', 6),
      (''DEBUG3'', 7), (''DEBUG4'', 8), (''INFO'', 9), (''INFO2'', 10), (''INFO3'', 11), (''INFO4'', 12),
      (''WARN'', 13), (''WARN2'', 14), (''WARN3'', 15), (''WARN4'', 16), (''ERROR'', 17), (''ERROR2'', 18),
      (''ERROR3'', 19), (''ERROR4'', 20), (''FATAL'', 21), (''FATAL2'', 22), (''FATAL3'', 23), (''FATAL4'', 24)]"

definition severity_number :: "string \<Rightarrow> nat" where
  "severity_number s = (case map_of severityTextToNumber s of Some n \<Rightarrow> n | None \<Rightarrow> 0)"

text \<open>One round of the loop of \<open>LogsFiller.Fill\<close>.\<close>

definition logs_fill_row ::
    "'g go_rng \<Rightarrow> profile \<Rightarrow> int \<Rightarrow> nat \<Rightarrow> genLogs \<Rightarrow> ('g, genLogs) state" where
  "logs_fill_row r p now i c = do {
     let ts = now + int i;
     traceID \<leftarrow> TraceID r;
     spanID \<leftarrow> SpanID r;
     sevText \<leftarrow> generate r (pf_SeverityText p);
     let sevNum = severity_number sevText;
     service \<leftarrow> generate r (pf_ServiceName p);
     body \<leftarrow> generate r (pf_Body p);
     resourceAttrs \<leftarrow> map_Generate r (pf_ResourceAttrs p);
     scopeName \<leftarrow> generate r (pf_ScopeName p);
     scopeVersion \<leftarrow> generate r (pf_ScopeVersion p);
     scopeAttrs \<leftarrow> map_Generate r (pf_ScopeAttrs p);
     logAttrs \<leftarrow> map_Generate r (pf_LogAttrs p);
     State_Monad.return
       \<lparr>gl_Timestamp = gl_Timestamp c @ [ts], gl_TraceID = gl_TraceID c @ [traceID],
        gl_SpanID = gl_SpanID c @ [spanID], gl_TraceFlags = gl_TraceFlags c @ [0],
        gl_SeverityText = gl_SeverityText c @ [sevText], gl_SeverityNumber = gl_SeverityNumber c @ [sevNum],
        gl_ServiceName = gl_ServiceName c @ [service], gl_Body = gl_Body c @ [body],
        gl_ResourceSchemaUrl = gl_ResourceSchemaUrl c @ [''''],
        gl_ResourceAttributes = gl_ResourceAttributes c @ [resourceAttrs],
        gl_ScopeSchemaUrl = gl_ScopeSchemaUrl c @ [''''], gl_ScopeName = gl_ScopeName c @ [scopeName],
        gl_ScopeVersion = gl_ScopeVersion c @ [scopeVersion],
        gl_ScopeAttributes = gl_ScopeAttributes c @ [scopeAttrs],
        gl_LogAttributes = gl_LogAttributes c @ [logAttrs]\<rparr> }"

fun logs_fill_loop ::
    "'g go_rng \<Rightarrow> profile \<Rightarrow> int \<Rightarrow> (nat \<Rightarrow> bool) \<Rightarrow> nat \<Rightarrow> nat \<Rightarrow> genLogs \<Rightarrow> ('g, nat \<times> genLogs) state" where
  "logs_fill_loop r p now cancelled 0 i c = State_Monad.return (i, c)"
| "logs_fill_loop r p now cancelled (Suc k) i c =
     (if i mod 256 = 0 \<and> cancelled i then State_Monad.return (i, c)
      else do { c \<leftarrow> logs_fill_row r p now i c; logs_fill_loop r p now cancelled k (i + 1) c })"

definition logs_Fill ::
    "'g go_rng \<Rightarrow> profile \<Rightarrow> int \<Rightarrow> (nat \<Rightarrow> bool) \<Rightarrow> nat \<Rightarrow> genLogs \<Rightarrow> ('g, nat \<times> genLogs) state" where
  "logs_Fill r p now cancelled n c = logs_fill_loop r p now cancelled n 0 c"

section \<open>Reading rows back\<close>

definition genLogs_Rows :: "genLogs \<Rightarrow> nat" where "genLogs_Rows c = length (gl_Timestamp c)"

text \<open>\<open>MapRowKV\<close> guards its index itself; the other columns panic on an index past their end.\<close>

definition map_row :: "(string \<times> string) list list \<Rightarrow> nat \<Rightarrow> (string \<times> string) list" where
  "map_row col i = (if i < length col then col ! i else [])"

definition genLogs_ReadLogRow :: "genLogs \<Rightarrow> nat \<Rightarrow> log_row option" where
  "genLogs_ReadLogRow c i =
     (if i < length (gl_Timestamp c) \<and> i < length (gl_TraceID c) \<and> i < length (gl_SpanID c) \<and>
         i < length (gl_TraceFlags c) \<and> i < length (gl_SeverityText c) \<and> i < length (gl_SeverityNumber c) \<and>
         i < length (gl_ServiceName c) \<and> i < length (gl_Body c) \<and> i < length (gl_ResourceSchemaUrl c) \<and>
         i < length (gl_ScopeSchemaUrl c) \<and> i < length (gl_ScopeName c) \<and> i < length (gl_ScopeVersion c)
      then Some
        \<lparr>lr_Timestamp = gl_Timestamp c ! i, lr_TraceID = gl_TraceID c ! i, lr_SpanID = gl_SpanID c ! i,
         lr_TraceFlags = gl_TraceFlags c ! i, lr_SeverityText = gl_SeverityText c ! i,
         lr_SeverityNumber = gl_SeverityNumber c ! i, lr_ServiceName = gl_ServiceName c ! i,
         lr_Body = gl_Body c ! i, lr_ResourceSchemaURL = gl_ResourceSchemaUrl c ! i,
         lr_ResourceAttrs = map_row (gl_ResourceAttributes c) i, lr_ScopeSchemaURL = gl_ScopeSchemaUrl c ! i,
         lr_ScopeName = gl_ScopeName c ! i, lr_ScopeVersion = gl_ScopeVersion c ! i,
         lr_ScopeAttrs = map_row (gl_ScopeAttributes c) i, lr_LogAttrs = map_row (gl_LogAttributes c) i\<rparr>
      else None)"

section \<open>Logs: lemmas\<close>

text \<open>The columns that store the given rows.\<close>

definition logs_columns :: "log_row list \<Rightarrow> genLogs" where
  "logs_columns rows = \<lparr>gl_Timestamp = map lr_Timestamp rows, gl_TraceID = map lr_TraceID rows,
     gl_SpanID = map lr_SpanID rows, gl_TraceFlags = map lr_TraceFlags rows,
     gl_SeverityText = map lr_SeverityText rows, gl_SeverityNumber = map lr_SeverityNumber rows,
     gl_ServiceName = map lr_ServiceName rows, gl_Body = map lr_Body rows,
     gl_ResourceSchemaUrl = map lr_ResourceSchemaURL rows, gl_ResourceAttributes = map lr_ResourceAttrs rows,
     gl_ScopeSchemaUrl = map lr_ScopeSchemaURL rows, gl_ScopeName = map lr_ScopeName rows,
     gl_ScopeVersion = map lr_ScopeVersion rows, gl_ScopeAttributes = map lr_ScopeAttrs rows,
     gl_LogAttributes = map lr_LogAttrs rows\<rparr>"

lemma read_logs_columns: "i < length rows \<Longrightarrow> genLogs_ReadLogRow (logs_columns rows) i = Some (rows ! i)"
  by (cases "rows ! i") (simp add: genLogs_ReadLogRow_def logs_columns_def map_row_def)

lemma rows_logs_columns [simp]: "genLogs_Rows (logs_columns rows) = length rows"
  by (simp add: genLogs_Rows_def logs_columns_def)

text \<open>A generated log record of profile \<open>p\<close> at time \<open>ts\<close>.\<close>

definition log_row_ok :: "'g go_rng \<Rightarrow> profile \<Rightarrow> int \<Rightarrow> log_row \<Rightarrow> bool" where
  "log_row_ok r p ts row \<longleftrightarrow>
     lr_Timestamp row = ts \<and> length (lr_TraceID row) = 32 \<and> all_hex (lr_TraceID row) \<and>
     length (lr_SpanID row) = 16 \<and> all_hex (lr_SpanID row) \<and>
     lr_SeverityNumber row = severity_number (lr_SeverityText row) \<and>
     produces r (pf_SeverityText p) (lr_SeverityText row) \<and> produces r (pf_ServiceName p) (lr_ServiceName row) \<and>
     produces r (pf_Body p) (lr_Body row) \<and> produces r (pf_ScopeName p) (lr_ScopeName row) \<and>
     produces r (pf_ScopeVersion p) (lr_ScopeVersion row) \<and>
     map_produces r (set (pf_ResourceAttrs p)) (lr_ResourceAttrs row) \<and>
     map_produces r (set (pf_ScopeAttrs p)) (lr_ScopeAttrs row) \<and>
     map_produces r (set (pf_LogAttrs p)) (lr_LogAttrs row)"

lemma profile_okD:
  assumes "profile_ok p"
  shows "gen_ok (pf_ServiceName p)" "gen_ok (pf_ScopeName p)" "gen_ok (pf_ScopeVersion p)"
    "gen_ok (pf_SeverityText p)" "gen_ok (pf_Body p)" "gen_ok (pf_SpanName p)" "gen_ok (pf_SpanKind p)"
    "gen_ok (pf_StatusCode p)" "gen_ok (pf_StatusMessage p)" "gen_ok (pf_SampleType p)" "gen_ok (pf_SampleUnit p)"
    "gen_ok (pf_PeriodType p)" "gen_ok (pf_PeriodUnit p)" "gen_ok (pf_FunctionName p)" "gen_ok (pf_FileName p)"
    "gen_ok (pf_MappingFileName p)" "entries_ok (pf_ResourceAttrs p)" "entries_ok (pf_ScopeAttrs p)"
    "entries_ok (pf_LogAttrs p)" "entries_ok (pf_SpanAttrs p)" "entries_ok (pf_ProfileAttrs p)"
    "entries_ok (pf_SampleAttrs p)"
  using assms by (simp_all add: profile_ok_def)

lemma logs_fill_row_ok:
  assumes r: "go_rng_ok r" and p: "profile_ok p"
  shows "pred_state (\<lambda>c. \<exists>row. c = logs_columns (rows @ [row]) \<and> log_row_ok r p (now + int i) row)
    (logs_fill_row r p now i (logs_columns rows))"
proof -
  note gen = generate_outcome [OF r] and attrs = map_Generate_outcome [OF r]
  show ?thesis
    unfolding logs_fill_row_def Let_def
    apply (rule pred_bind [OF ID_outcomes(1) [OF r]])
    apply (rule pred_bind [OF ID_outcomes(2) [OF r]])
    apply (rule pred_bind [OF gen [OF profile_okD(4) [OF p]]])
    apply (rule pred_bind [OF gen [OF profile_okD(1) [OF p]]])
    apply (rule pred_bind [OF gen [OF profile_okD(5) [OF p]]])
    apply (rule pred_bind [OF attrs [OF profile_okD(17) [OF p]]])
    apply (rule pred_bind [OF gen [OF profile_okD(2) [OF p]]])
    apply (rule pred_bind [OF gen [OF profile_okD(3) [OF p]]])
    apply (rule pred_bind [OF attrs [OF profile_okD(18) [OF p]]])
    apply (rule pred_bind [OF attrs [OF profile_okD(19) [OF p]]])
    subgoal for traceID spanID sev service body res scope version scopeAttrs logAttrs
      unfolding pred_return
      by (rule exI [of _ "\<lparr>lr_Timestamp = now + int i, lr_TraceID = traceID, lr_SpanID = spanID,
         lr_TraceFlags = 0, lr_SeverityText = sev, lr_SeverityNumber = severity_number sev,
         lr_ServiceName = service, lr_Body = body, lr_ResourceSchemaURL = '''', lr_ResourceAttrs = res,
         lr_ScopeSchemaURL = '''', lr_ScopeName = scope, lr_ScopeVersion = version,
         lr_ScopeAttrs = scopeAttrs, lr_LogAttrs = logAttrs\<rparr>"])
        (simp add: logs_columns_def log_row_ok_def)
    done
qed

lemma logs_fill_loop_ok:
  assumes r: "go_rng_ok r" and p: "profile_ok p"
  shows "length rows = i \<Longrightarrow> (\<forall>j < i. log_row_ok r p (now + int j) (rows ! j)) \<Longrightarrow>
    pred_state (\<lambda>(n', c). \<exists>rows'. c = logs_columns rows' \<and> length rows' = n' \<and> n' \<le> i + k \<and>
      (n' < i + k \<longrightarrow> n' mod 256 = 0 \<and> cancelled n') \<and> (\<forall>j < n'. log_row_ok r p (now + int j) (rows' ! j)))
    (logs_fill_loop r p now cancelled k i (logs_columns rows))"
proof (induction k arbitrary: i rows)
  case 0
  then show ?case by auto
next
  case (Suc k)
  show ?case
  proof (cases "i mod 256 = 0 \<and> cancelled i")
    case True
    then show ?thesis using Suc.prems by auto
  next
    case False
    have "pred_state (\<lambda>(n', c). \<exists>rows'. c = logs_columns rows' \<and> length rows' = n' \<and> n' \<le> i + 1 + k \<and>
        (n' < i + 1 + k \<longrightarrow> n' mod 256 = 0 \<and> cancelled n') \<and> (\<forall>j < n'. log_row_ok r p (now + int j) (rows' ! j)))
      (logs_fill_loop r p now cancelled k (i + 1) (logs_columns (rows @ [row])))"
      if "log_row_ok r p (now + int i) row" for row
      using Suc.prems that by (intro Suc.IH) (auto simp: nth_append less_Suc_eq)
    then show ?thesis
      unfolding logs_fill_loop.simps if_not_P [OF False]
      by (intro pred_bind [OF logs_fill_row_ok [OF r p]]) auto
  qed
qed

lemma logs_fill_rows:
  assumes "go_rng_ok r" and "profile_ok p"
  shows "pred_state (\<lambda>(k, c). genLogs_Rows c = k \<and> k \<le> n \<and> (k < n \<longrightarrow> k mod 256 = 0 \<and> cancelled k) \<and>
      (\<forall>i < k. \<exists>row. genLogs_ReadLogRow c i = Some row \<and> log_row_ok r p (now + int i) row))
    (logs_Fill r p now cancelled n (genLogs_Reset c0))"
proof -
  have "genLogs_Reset c0 = logs_columns []" by (simp add: genLogs_Reset_def logs_columns_def)
  then show ?thesis
    using logs_fill_loop_ok [OF assms, of "[]" 0 now n cancelled] unfolding logs_Fill_def
    by (auto elim!: pred_weaken simp: read_logs_columns rows_logs_columns)
qed

text \<open>
  A logs block: from reset columns the filler writes whole rows only, \<open>n\<close> of them unless it
  stops because the context was cancelled at a multiple of 256; every row can be read back from
  the columns, has the time of its index, hexadecimal identifiers of the right length, values of
  the profile's generators, and the severity number that belongs to its severity text.
\<close>

theorem logs_Fill_rows:
  assumes "go_rng_ok r" and "profile_ok p"
  shows "pred_state (\<lambda>(k, c). genLogs_Rows c = k \<and> k \<le> n \<and> (k < n \<longrightarrow> k mod 256 = 0 \<and> cancelled k) \<and>
      (\<forall>i < k. \<exists>row. genLogs_ReadLogRow c i = Some row \<and> log_row_ok r p (now + int i) row))
    (logs_Fill r p now cancelled n (genLogs_Reset c0))"
  using assms by (rule logs_fill_rows)

text \<open>One row of the empty profile from the source that draws zeros.\<close>

definition plain_profile :: profile where
  "plain_profile = the (applyDefaults (NewProfile ''plain''))"

lemma plain_profile_ok: "profile_ok plain_profile"
proof -
  have "open_ok (NewProfile ''plain'')" by (simp add: open_ok_def NewProfile_def)
  from applyDefaults_ok [OF this] show ?thesis by (auto simp: plain_profile_def)
qed

theorem logs_Fill_rows_witness:
  "fst (fst (run_state (logs_Fill zero_rng plain_profile 0 (\<lambda>_. False) 3 (genLogs_Reset (logs_columns []))) ())) = 3"
proof -
  let ?m = "logs_Fill zero_rng plain_profile 0 (\<lambda>_. False) 3 (genLogs_Reset (logs_columns []))"
  from pred_state_run_state [OF logs_Fill_rows [OF zero_rng_ok plain_profile_ok,
      where n = 3 and now = 0 and cancelled = "\<lambda>_. False" and ?c0.0 = "logs_columns []"], where s = "()"]
  show ?thesis by (cases "run_state ?m ()") auto
qed

section \<open>Traces\<close>

record spanNode =
  sn_spanID :: string
  sn_parentSpanID :: string
  sn_depth :: int

fun tree_loop :: "'g go_rng \<Rightarrow> int \<Rightarrow> nat \<Rightarrow> spanNode list \<Rightarrow> ('g, spanNode list) state" where
  "tree_loop r maxDepth 0 buf = State_Monad.return buf"
| "tree_loop r maxDepth (Suc k) buf = do {
     parentIdx \<leftarrow> rg_IntN r (length buf);
     let parent = buf ! parentIdx;
     let parent = (if sn_depth parent \<ge> maxDepth - 1 then buf ! 0 else parent);
     spanID \<leftarrow> SpanID r;
     tree_loop r maxDepth k (buf @ [\<lparr>sn_spanID = spanID, sn_parentSpanID = sn_spanID parent,
       sn_depth = sn_depth parent + 1\<rparr>]) }"

definition buildTree :: "'g go_rng \<Rightarrow> int \<Rightarrow> int \<Rightarrow> ('g, spanNode list) state" where
  "buildTree r maxDepth num = do {
     spanID \<leftarrow> SpanID r;
     tree_loop r maxDepth (nat (num - 1)) [\<lparr>sn_spanID = spanID, sn_parentSpanID = '''', sn_depth = 0\<rparr>] }"

record trace_shared =
  ts_traceID :: string
  ts_resourceAttrs :: "(string \<times> string) list"
  ts_serviceName :: string
  ts_scopeName :: string
  ts_scopeVersion :: string

definition trace_fill_span ::
    "'g go_rng \<Rightarrow> profile \<Rightarrow> tracesConfig \<Rightarrow> int \<Rightarrow> trace_shared \<Rightarrow> nat \<Rightarrow> spanNode \<Rightarrow> genTraces \<Rightarrow> ('g, genTraces) state" where
  "trace_fill_span r p tcfg now sh rowIdx node c = do {
     let ts = now + int rowIdx;
     spanName \<leftarrow> generate r (pf_SpanName p);
     spanKind \<leftarrow> generate r (pf_SpanKind p);
     spanAttrs \<leftarrow> map_Generate r (pf_SpanAttrs p);
     let base = tg_DurationMinUs tcfg * 1000;
     dur \<leftarrow> (if tg_DurationMaxUs tcfg > tg_DurationMinUs tcfg
            then do { d \<leftarrow> rg_Uint64N r (tg_DurationMaxUs tcfg - tg_DurationMinUs tcfg);
                      State_Monad.return (base + d * 1000) }
            else State_Monad.return base);
     status \<leftarrow> generate r (pf_StatusCode p);
     message \<leftarrow> generate r (pf_StatusMessage p);
     State_Monad.return
       \<lparr>gt_Timestamp = gt_Timestamp c @ [ts], gt_TraceID = gt_TraceID c @ [ts_traceID sh],
        gt_SpanID = gt_SpanID c @ [sn_spanID node], gt_ParentSpanID = gt_ParentSpanID c @ [sn_parentSpanID node],
        gt_TraceState = gt_TraceState c @ [''''], gt_SpanName = gt_SpanName c @ [spanName],
        gt_SpanKind = gt_SpanKind c @ [spanKind], gt_ServiceName = gt_ServiceName c @ [ts_serviceName sh],
        gt_ResourceAttributes = gt_ResourceAttributes c @ [ts_resourceAttrs sh],
        gt_ScopeName = gt_ScopeName c @ [ts_scopeName sh], gt_ScopeVersion = gt_ScopeVersion c @ [ts_scopeVersion sh],
        gt_SpanAttributes = gt_SpanAttributes c @ [spanAttrs], gt_Duration = gt_Duration c @ [dur],
        gt_StatusCode = gt_StatusCode c @ [status], gt_StatusMessage = gt_StatusMessage c @ [message],
        gt_EventsTimestamps = gt_EventsTimestamps c @ [[]], gt_EventsNames = gt_EventsNames c @ [[]],
        gt_EventsAttributes = gt_EventsAttributes c @ [[]], gt_LinksTraceIDs = gt_LinksTraceIDs c @ [[]],
        gt_LinksSpanIDs = gt_LinksSpanIDs c @ [[]], gt_LinksTraceStates = gt_LinksTraceStates c @ [[]],
        gt_LinksAttributes = gt_LinksAttributes c @ [[]]\<rparr> }"

fun trace_fill_spans ::
    "'g go_rng \<Rightarrow> profile \<Rightarrow> tracesConfig \<Rightarrow> int \<Rightarrow> trace_shared \<Rightarrow> nat \<Rightarrow> spanNode list \<Rightarrow> genTraces \<Rightarrow> ('g, genTraces) state" where
  "trace_fill_spans r p tcfg now sh rowIdx [] c = State_Monad.return c"
| "trace_fill_spans r p tcfg now sh rowIdx (node # nodes) c = do {
     c \<leftarrow> trace_fill_span r p tcfg now sh rowIdx node c;
     trace_fill_spans r p tcfg now sh (rowIdx + 1) nodes c }"

definition span_count :: "'g go_rng \<Rightarrow> tracesConfig \<Rightarrow> int \<Rightarrow> ('g, int) state" where
  "span_count r tcfg remaining = do {
     n \<leftarrow> (if tg_SpansPerTraceMax tcfg > tg_SpansPerTraceMin tcfg
          then do { k \<leftarrow> rg_IntN r (nat (tg_SpansPerTraceMax tcfg - tg_SpansPerTraceMin tcfg + 1));
                    State_Monad.return (tg_SpansPerTraceMin tcfg + int k) }
          else State_Monad.return (tg_SpansPerTraceMin tcfg));
     State_Monad.return (if n > remaining then remaining else n) }"

text \<open>
  The loop of \<open>TracesFiller.Fill\<close>, one trace per round; \<open>None\<close> when the fuel runs out. With an
  accepted configuration every round writes at least one row, so \<open>n\<close> rounds are enough.
\<close>

fun traces_fill_loop ::
    "'g go_rng \<Rightarrow> profile \<Rightarrow> tracesConfig \<Rightarrow> int \<Rightarrow> (nat \<Rightarrow> bool) \<Rightarrow> int \<Rightarrow> nat \<Rightarrow> nat \<Rightarrow> int \<Rightarrow> genTraces \<Rightarrow>
     ('g, (int \<times> genTraces) option) state" where
  "traces_fill_loop r p tcfg now cancelled n fuel rowIdx remaining c =
     (if \<not> 0 < remaining then State_Monad.return (Some (n, c))
      else case fuel of
        0 \<Rightarrow> State_Monad.return None
      | Suc fuel \<Rightarrow>
          if cancelled rowIdx then State_Monad.return (Some (n - remaining, c))
          else do {
            spanCount \<leftarrow> span_count r tcfg remaining;
            traceID \<leftarrow> TraceID r;
            nodes \<leftarrow> buildTree r (tg_MaxDepth tcfg) spanCount;
            resourceAttrs \<leftarrow> map_Generate r (pf_ResourceAttrs p);
            serviceName \<leftarrow> generate r (pf_ServiceName p);
            scopeName \<leftarrow> generate r (pf_ScopeName p);
            scopeVersion \<leftarrow> generate r (pf_ScopeVersion p);
            c \<leftarrow> trace_fill_spans r p tcfg now
              \<lparr>ts_traceID = traceID, ts_resourceAttrs = resourceAttrs, ts_serviceName = serviceName,
               ts_scopeName = scopeName, ts_scopeVersion = scopeVersion\<rparr> rowIdx nodes c;
            traces_fill_loop r p tcfg now cancelled n fuel (rowIdx + length nodes) (remaining - spanCount) c })"

definition traces_Fill ::
    "'g go_rng \<Rightarrow> profile \<Rightarrow> tracesConfig \<Rightarrow> int \<Rightarrow> (nat \<Rightarrow> bool) \<Rightarrow> nat \<Rightarrow> int \<Rightarrow> genTraces \<Rightarrow>
     ('g, (int \<times> genTraces) option) state" where
  "traces_Fill r p tcfg now cancelled fuel n c = traces_fill_loop r p tcfg now cancelled n fuel 0 n c"

definition genTraces_Rows :: "genTraces \<Rightarrow> nat" where "genTraces_Rows c = length (gt_Timestamp c)"

text \<open>The three event columns, and the four link columns, have one array per row.\<close>

definition row_events :: "genTraces \<Rightarrow> nat \<Rightarrow> trace_event list" where
  "row_events c i =
     (if i < length (gt_EventsTimestamps c)
      then map (\<lambda>k. \<lparr>te_Timestamp = gt_EventsTimestamps c ! i ! k, te_Name = gt_EventsNames c ! i ! k,
             te_Attrs = gt_EventsAttributes c ! i ! k\<rparr>) [0..<length (gt_EventsTimestamps c ! i)]
      else [])"

definition row_links :: "genTraces \<Rightarrow> nat \<Rightarrow> trace_link list" where
  "row_links c i =
     (if i < length (gt_LinksTraceIDs c)
      then map (\<lambda>k. \<lparr>tl_TraceID = gt_LinksTraceIDs c ! i ! k, tl_SpanID = gt_LinksSpanIDs c ! i ! k,
             tl_TraceState = gt_LinksTraceStates c ! i ! k, tl_Attrs = gt_LinksAttributes c ! i ! k\<rparr>)
             [0..<length (gt_LinksTraceIDs c ! i)]
      else [])"

definition genTraces_ReadTraceRow :: "genTraces \<Rightarrow> nat \<Rightarrow> trace_row option" where
  "genTraces_ReadTraceRow c i =
     (if i < length (gt_Timestamp c) \<and> i < length (gt_TraceID c) \<and> i < length (gt_SpanID c) \<and>
         i < length (gt_ParentSpanID c) \<and> i < length (gt_TraceState c) \<and> i < length (gt_SpanName c) \<and>
         i < length (gt_SpanKind c) \<and> i < length (gt_ServiceName c) \<and> i < length (gt_ScopeName c) \<and>
         i < length (gt_ScopeVersion c) \<and> i < length (gt_Duration c) \<and> i < length (gt_StatusCode c) \<and>
         i < length (gt_StatusMessage c)
      then Some
        \<lparr>tr_Timestamp = gt_Timestamp c ! i, tr_TraceID = gt_TraceID c ! i, tr_SpanID = gt_SpanID c ! i,
         tr_ParentSpanID = gt_ParentSpanID c ! i, tr_TraceState = gt_TraceState c ! i,
         tr_SpanName = gt_SpanName c ! i, tr_SpanKind = gt_SpanKind c ! i, tr_ServiceName = gt_ServiceName c ! i,
         tr_ResourceAttrs = map_row (gt_ResourceAttributes c) i, tr_ScopeName = gt_ScopeName c ! i,
         tr_ScopeVersion = gt_ScopeVersion c ! i, tr_SpanAttrs = map_row (gt_SpanAttributes c) i,
         tr_Duration = gt_Duration c ! i, tr_StatusCode = gt_StatusCode c ! i,
         tr_StatusMessage = gt_StatusMessage c ! i, tr_Events = row_events c i, tr_Links = row_links c i\<rparr>
      else None)"

section \<open>Traces: lemmas\<close>

text \<open>
  A trace tree: one root, and every other span is a child of an earlier span, one level below
  it, never deeper than the limit except for the children of the root.
\<close>

definition tree_ok :: "int \<Rightarrow> spanNode list \<Rightarrow> bool" where
  "tree_ok maxDepth nodes \<longleftrightarrow>
     nodes \<noteq> [] \<and> sn_parentSpanID (nodes ! 0) = '''' \<and> sn_depth (nodes ! 0) = 0 \<and>
     (\<forall>i < length nodes. length (sn_spanID (nodes ! i)) = 16 \<and> all_hex (sn_spanID (nodes ! i))) \<and>
     (\<forall>i < length nodes. 0 < i \<longrightarrow> sn_depth (nodes ! i) \<le> max 1 (maxDepth - 1) \<and>
        (\<exists>j < i. sn_parentSpanID (nodes ! i) = sn_spanID (nodes ! j) \<and>
           sn_depth (nodes ! i) = sn_depth (nodes ! j) + 1))"

lemma tree_ok_add:
  assumes ok: "tree_ok maxDepth nodes" and j: "j < length nodes"
    and deep: "sn_depth (nodes ! j) + 1 \<le> max 1 (maxDepth - 1)" and id: "length s = 16 \<and> all_hex s"
    and new: "new = \<lparr>sn_spanID = s, sn_parentSpanID = sn_spanID (nodes ! j), sn_depth = sn_depth (nodes ! j) + 1\<rparr>"
  shows "tree_ok maxDepth (nodes @ [new])"
proof -
  have ne: "0 < length nodes" using j by linarith
  then have head: "(nodes @ [new]) ! 0 = nodes ! 0" by (simp add: nth_append)
  show ?thesis
    unfolding tree_ok_def
  proof (intro conjI allI impI)
    show "nodes @ [new] \<noteq> []" by simp
    show "sn_parentSpanID ((nodes @ [new]) ! 0) = ''''" "sn_depth ((nodes @ [new]) ! 0) = 0"
      using ok unfolding head tree_ok_def by blast+
  next
    fix k assume k: "k < length (nodes @ [new])"
    show "length (sn_spanID ((nodes @ [new]) ! k)) = 16" "all_hex (sn_spanID ((nodes @ [new]) ! k))"
      using ok id k by (cases "k < length nodes"; simp add: tree_ok_def nth_append new)+
  next
    fix k assume k: "k < length (nodes @ [new])" and pos: "0 < k"
    show "sn_depth ((nodes @ [new]) ! k) \<le> max 1 (maxDepth - 1)"
    proof (cases "k < length nodes")
      case True
      then show ?thesis using ok pos unfolding tree_ok_def by (simp add: nth_append)
    next
      case False
      then show ?thesis using k deep by (simp add: nth_append new)
    qed
    show "\<exists>j < k. sn_parentSpanID ((nodes @ [new]) ! k) = sn_spanID ((nodes @ [new]) ! j) \<and>
        sn_depth ((nodes @ [new]) ! k) = sn_depth ((nodes @ [new]) ! j) + 1"
    proof (cases "k < length nodes")
      case True
      then obtain j where "j < k" "sn_parentSpanID (nodes ! k) = sn_spanID (nodes ! j)"
        "sn_depth (nodes ! k) = sn_depth (nodes ! j) + 1" using ok pos unfolding tree_ok_def by blast
      then show ?thesis using True by (intro exI [of _ j]) (simp add: nth_append)
    next
      case False
      then have "k = length nodes" using k by simp
      then show ?thesis using j by (intro exI [of _ j]) (simp add: nth_append new)
    qed
  qed
qed

lemma tree_ok_child:
  assumes ok: "tree_ok maxDepth nodes" and i: "i < length nodes" and id: "length s = 16 \<and> all_hex s"
    and parent: "parent = (if sn_depth (nodes ! i) \<ge> maxDepth - 1 then nodes ! 0 else nodes ! i)"
  shows "tree_ok maxDepth (nodes @ [\<lparr>sn_spanID = s, sn_parentSpanID = sn_spanID parent, sn_depth = sn_depth parent + 1\<rparr>])"
proof (cases "sn_depth (nodes ! i) \<ge> maxDepth - 1")
  case True
  have "sn_depth (nodes ! 0) = 0" using ok by (simp add: tree_ok_def)
  moreover have "0 < length nodes" using i by linarith
  ultimately show ?thesis using True by (intro tree_ok_add [OF ok _ _ id, of 0]) (simp_all add: parent)
next
  case False
  then show ?thesis by (intro tree_ok_add [OF ok i _ id]) (simp_all add: parent le_max_iff_disj)
qed

lemma tree_loop_ok:
  assumes r: "go_rng_ok r"
  shows "tree_ok maxDepth buf \<Longrightarrow>
    pred_state (\<lambda>nodes. tree_ok maxDepth nodes \<and> length nodes = length buf + k) (tree_loop r maxDepth k buf)"
proof (induction k arbitrary: buf)
  case (Suc k)
  have n: "0 < length buf" using Suc.prems by (simp add: tree_ok_def)
  show ?case
    unfolding tree_loop.simps Let_def
    apply (rule pred_bind [OF go_rng_okD(1) [OF r n]])
    apply (rule pred_bind [OF ID_outcomes(2) [OF r]])
    apply (rule pred_weaken [OF Suc.IH])
     apply (rule tree_ok_child [OF Suc.prems _ _ refl]; assumption)
    apply simp
    done
qed simp

text \<open>The tree has the requested number of spans, for a request of at least one.\<close>

lemma buildTree_ok:
  assumes "go_rng_ok r" and "1 \<le> num"
  shows "pred_state (\<lambda>nodes. tree_ok maxDepth nodes \<and> length nodes = nat num) (buildTree r maxDepth num)"
proof -
  have "tree_ok maxDepth [\<lparr>sn_spanID = s, sn_parentSpanID = '''', sn_depth = 0\<rparr>]" if "length s = 16 \<and> all_hex s" for s
    using that by (simp add: tree_ok_def)
  note run = tree_loop_ok [OF assms(1) this, where k = "nat (num - 1)"]
  show ?thesis
    unfolding buildTree_def
    by (rule pred_bind [OF ID_outcomes(2) [OF assms(1)]], rule pred_weaken [OF run])
      (use assms(2) in auto)
qed

text \<open>The columns that store the given spans: none has events or links.\<close>

definition traces_columns :: "trace_row list \<Rightarrow> genTraces" where
  "traces_columns rows = \<lparr>gt_Timestamp = map tr_Timestamp rows, gt_TraceID = map tr_TraceID rows,
     gt_SpanID = map tr_SpanID rows, gt_ParentSpanID = map tr_ParentSpanID rows,
     gt_TraceState = map tr_TraceState rows, gt_SpanName = map tr_SpanName rows,
     gt_SpanKind = map tr_SpanKind rows, gt_ServiceName = map tr_ServiceName rows,
     gt_ResourceAttributes = map tr_ResourceAttrs rows, gt_ScopeName = map tr_ScopeName rows,
     gt_ScopeVersion = map tr_ScopeVersion rows, gt_SpanAttributes = map tr_SpanAttrs rows,
     gt_Duration = map tr_Duration rows, gt_StatusCode = map tr_StatusCode rows,
     gt_StatusMessage = map tr_StatusMessage rows, gt_EventsTimestamps = map (\<lambda>_. []) rows,
     gt_EventsNames = map (\<lambda>_. []) rows, gt_EventsAttributes = map (\<lambda>_. []) rows,
     gt_LinksTraceIDs = map (\<lambda>_. []) rows, gt_LinksSpanIDs = map (\<lambda>_. []) rows,
     gt_LinksTraceStates = map (\<lambda>_. []) rows, gt_LinksAttributes = map (\<lambda>_. []) rows\<rparr>"

lemma read_traces_columns:
  "i < length rows \<Longrightarrow> tr_Events (rows ! i) = [] \<Longrightarrow> tr_Links (rows ! i) = [] \<Longrightarrow>
     genTraces_ReadTraceRow (traces_columns rows) i = Some (rows ! i)"
  by (cases "rows ! i") (simp add: genTraces_ReadTraceRow_def traces_columns_def map_row_def row_events_def row_links_def)

lemma rows_traces_columns [simp]: "genTraces_Rows (traces_columns rows) = length rows"
  by (simp add: genTraces_Rows_def traces_columns_def)

text \<open>
  A row of one trace: the shared values of the trace, its node of the tree, values of the profile
  and a duration within the configured range, which is in microseconds and must fit in nanoseconds.
\<close>

definition span_row_ok ::
    "'g go_rng \<Rightarrow> profile \<Rightarrow> tracesConfig \<Rightarrow> trace_shared \<Rightarrow> int \<Rightarrow> spanNode \<Rightarrow> trace_row \<Rightarrow> bool" where
  "span_row_ok r p tcfg sh ts node row \<longleftrightarrow>
     tr_Timestamp row = ts \<and> tr_TraceID row = ts_traceID sh \<and> tr_SpanID row = sn_spanID node \<and>
     tr_ParentSpanID row = sn_parentSpanID node \<and> tr_ServiceName row = ts_serviceName sh \<and>
     tr_ResourceAttrs row = ts_resourceAttrs sh \<and> tr_ScopeName row = ts_scopeName sh \<and>
     tr_ScopeVersion row = ts_scopeVersion sh \<and> produces r (pf_SpanName p) (tr_SpanName row) \<and>
     produces r (pf_SpanKind p) (tr_SpanKind row) \<and> produces r (pf_StatusCode p) (tr_StatusCode row) \<and>
     produces r (pf_StatusMessage p) (tr_StatusMessage row) \<and>
     map_produces r (set (pf_SpanAttrs p)) (tr_SpanAttrs row) \<and> tr_Events row = [] \<and> tr_Links row = [] \<and>
     (unat (tg_DurationMaxUs tcfg) * 1000 < 18446744073709551616 \<longrightarrow>
        tg_DurationMinUs tcfg \<le> tg_DurationMaxUs tcfg \<longrightarrow>
        unat (tg_DurationMinUs tcfg) * 1000 \<le> unat (tr_Duration row) \<and>
        unat (tr_Duration row) \<le> unat (tg_DurationMaxUs tcfg) * 1000)"

lemma duration_range:
  assumes "lo < hi" and "unat hi * 1000 < 18446744073709551616" and "d < (hi :: u64) - lo"
  shows "unat lo * 1000 \<le> unat (lo * 1000 + d * 1000) \<and> unat (lo * 1000 + d * 1000) \<le> unat hi * 1000"
proof -
  have sub: "unat (hi - lo) = unat hi - unat lo" using assms(1) by (intro unat_sub) simp
  have d: "unat d < unat hi - unat lo" using assms(3) sub by (simp add: word_less_nat_alt)
  have "unat (lo * 1000) = unat lo * 1000" using d assms(2) by (intro trans [OF unat_mult64]) simp_all
  moreover have "unat (d * 1000) = unat d * 1000" using d assms(2) by (intro trans [OF unat_mult64]) simp_all
  moreover have "unat lo * 1000 + unat d * 1000 < 18446744073709551616" using d assms(2) by linarith
  ultimately have "unat (lo * 1000 + d * 1000) = unat lo * 1000 + unat d * 1000" by (simp add: unat_add64)
  then show ?thesis using d by simp
qed

lemma trace_fill_span_ok:
  assumes r: "go_rng_ok r" and p: "profile_ok p"
  shows "pred_state (\<lambda>c. \<exists>row. c = traces_columns (rows @ [row]) \<and> span_row_ok r p tcfg sh (now + int i) node row)
    (trace_fill_span r p tcfg now sh i node (traces_columns rows))"
proof -
  let ?lo = "tg_DurationMinUs tcfg" and ?hi = "tg_DurationMaxUs tcfg"
  let ?good = "\<lambda>d. unat ?hi * 1000 < 18446744073709551616 \<longrightarrow> ?lo \<le> ?hi \<longrightarrow>
    unat ?lo * 1000 \<le> unat d \<and> unat d \<le> unat ?hi * 1000"
  have dur: "pred_state ?good (if ?hi > ?lo
      then do { d \<leftarrow> rg_Uint64N r (?hi - ?lo); State_Monad.return (?lo * 1000 + d * 1000) }
      else State_Monad.return (?lo * 1000))"
  proof (cases "?hi > ?lo")
    case True
    then have "0 < ?hi - ?lo" by (simp add: word_gt_0)
    from True show ?thesis
      using duration_range [of ?lo ?hi]
      by (simp only: if_True) (rule pred_bind [OF go_rng_okD(2) [OF r \<open>0 < ?hi - ?lo\<close>]], simp)
  next
    case False
    then have "?good (?lo * 1000)" by (auto simp: unat_mult64)
    then show ?thesis using False by simp
  qed
  note gen = generate_outcome [OF r] and attrs = map_Generate_outcome [OF r]
  show ?thesis
    unfolding trace_fill_span_def Let_def
    apply (rule pred_bind [OF gen [OF profile_okD(6) [OF p]]])
    apply (rule pred_bind [OF gen [OF profile_okD(7) [OF p]]])
    apply (rule pred_bind [OF attrs [OF profile_okD(20) [OF p]]])
    apply (rule pred_bind [OF dur])
    apply (rule pred_bind [OF gen [OF profile_okD(8) [OF p]]])
    apply (rule pred_bind [OF gen [OF profile_okD(9) [OF p]]])
    subgoal for name kind spanAttrs d status message
      unfolding pred_return
      by (rule exI [of _ "\<lparr>tr_Timestamp = now + int i, tr_TraceID = ts_traceID sh, tr_SpanID = sn_spanID node,
         tr_ParentSpanID = sn_parentSpanID node, tr_TraceState = '''', tr_SpanName = name, tr_SpanKind = kind,
         tr_ServiceName = ts_serviceName sh, tr_ResourceAttrs = ts_resourceAttrs sh,
         tr_ScopeName = ts_scopeName sh, tr_ScopeVersion = ts_scopeVersion sh, tr_SpanAttrs = spanAttrs,
         tr_Duration = d, tr_StatusCode = status, tr_StatusMessage = message, tr_Events = [], tr_Links = []\<rparr>"])
        (simp add: traces_columns_def span_row_ok_def)
    done
qed

lemma trace_fill_spans_ok:
  assumes r: "go_rng_ok r" and p: "profile_ok p"
  shows "pred_state (\<lambda>c. \<exists>new. c = traces_columns (rows @ new) \<and> length new = length nodes \<and>
      (\<forall>k < length new. span_row_ok r p tcfg sh (now + int (i + k)) (nodes ! k) (new ! k)))
    (trace_fill_spans r p tcfg now sh i nodes (traces_columns rows))"
proof (induction nodes arbitrary: rows i)
  case Nil
  then show ?case by (auto intro: exI [of _ "[]"])
next
  case (Cons node nodes)
  show ?case
    unfolding trace_fill_spans.simps
  proof (rule pred_bind [OF trace_fill_span_ok [OF r p]])
    fix c assume "\<exists>row. c = traces_columns (rows @ [row]) \<and> span_row_ok r p tcfg sh (now + int i) node row"
    then obtain row where c: "c = traces_columns (rows @ [row])"
      and row: "span_row_ok r p tcfg sh (now + int i) node row" by blast
    show "pred_state (\<lambda>c. \<exists>new. c = traces_columns (rows @ new) \<and> length new = length (node # nodes) \<and>
        (\<forall>k < length new. span_row_ok r p tcfg sh (now + int (i + k)) ((node # nodes) ! k) (new ! k)))
      (trace_fill_spans r p tcfg now sh (i + 1) nodes c)"
      unfolding c
    proof (rule pred_weaken [OF Cons.IH])
      fix c assume "\<exists>new. c = traces_columns ((rows @ [row]) @ new) \<and> length new = length nodes \<and>
        (\<forall>k < length new. span_row_ok r p tcfg sh (now + int (i + 1 + k)) (nodes ! k) (new ! k))"
      then obtain new where new: "c = traces_columns ((rows @ [row]) @ new)" "length new = length nodes"
        "\<forall>k < length new. span_row_ok r p tcfg sh (now + int (i + 1 + k)) (nodes ! k) (new ! k)" by blast
      have "span_row_ok r p tcfg sh (now + int (i + k)) ((node # nodes) ! k) ((row # new) ! k)"
        if "k < length (row # new)" for k
        using that new(3) row by (cases k) simp_all
      then show "\<exists>new. c = traces_columns (rows @ new) \<and> length new = length (node # nodes) \<and>
          (\<forall>k < length new. span_row_ok r p tcfg sh (now + int (i + k)) ((node # nodes) ! k) (new ! k))"
        using new(1,2) by (intro exI [of _ "row # new"]) simp
    qed
  qed
qed

text \<open>The rows of one trace, starting at time \<open>t0\<close>, and of the traces of a block one after another.\<close>

definition trace_ok :: "'g go_rng \<Rightarrow> profile \<Rightarrow> tracesConfig \<Rightarrow> int \<Rightarrow> trace_row list \<Rightarrow> bool" where
  "trace_ok r p tcfg t0 rows \<longleftrightarrow>
     (\<exists>sh nodes. tree_ok (tg_MaxDepth tcfg) nodes \<and> length nodes = length rows \<and>
        length (ts_traceID sh) = 32 \<and> all_hex (ts_traceID sh) \<and>
        produces r (pf_ServiceName p) (ts_serviceName sh) \<and> produces r (pf_ScopeName p) (ts_scopeName sh) \<and>
        produces r (pf_ScopeVersion p) (ts_scopeVersion sh) \<and>
        map_produces r (set (pf_ResourceAttrs p)) (ts_resourceAttrs sh) \<and>
        (\<forall>k < length rows. span_row_ok r p tcfg sh (t0 + int k) (nodes ! k) (rows ! k)))"

fun block_traces :: "'g go_rng \<Rightarrow> profile \<Rightarrow> tracesConfig \<Rightarrow> int \<Rightarrow> trace_row list list \<Rightarrow> bool" where
  "block_traces r p tcfg t0 [] = True"
| "block_traces r p tcfg t0 (b # bs) =
     (trace_ok r p tcfg t0 b \<and> block_traces r p tcfg (t0 + int (length b)) bs)"

lemma block_traces_snoc [simp]:
  "block_traces r p tcfg t0 (bs @ [b]) \<longleftrightarrow>
     block_traces r p tcfg t0 bs \<and> trace_ok r p tcfg (t0 + int (length (concat bs))) b"
  by (induction bs arbitrary: t0) (auto simp: algebra_simps)

definition sizes_ok :: "tracesConfig \<Rightarrow> bool \<Rightarrow> trace_row list list \<Rightarrow> bool" where
  "sizes_ok tcfg short bs \<longleftrightarrow>
     (\<forall>b \<in> set bs. int (length b) \<le> tg_SpansPerTraceMax tcfg) \<and>
     (\<forall>b \<in> set (if short then butlast bs else bs). tg_SpansPerTraceMin tcfg \<le> int (length b))"

lemma span_count_ok:
  assumes r: "go_rng_ok r" and t: "traces_ok tcfg" and "0 < remaining"
  shows "pred_state (\<lambda>m. 1 \<le> m \<and> m \<le> remaining \<and> m \<le> tg_SpansPerTraceMax tcfg \<and>
      (m < remaining \<longrightarrow> tg_SpansPerTraceMin tcfg \<le> m)) (span_count r tcfg remaining)"
proof -
  let ?lo = "tg_SpansPerTraceMin tcfg" and ?hi = "tg_SpansPerTraceMax tcfg"
  have b: "1 \<le> ?lo" "?lo \<le> ?hi" using t by (simp_all add: traces_ok_def)
  have "pred_state (\<lambda>m. ?lo \<le> m \<and> m \<le> ?hi) (if ?hi > ?lo
      then do { k \<leftarrow> rg_IntN r (nat (?hi - ?lo + 1)); State_Monad.return (?lo + int k) }
      else State_Monad.return ?lo)"
  proof (cases "?hi > ?lo")
    case True
    then have "0 < nat (?hi - ?lo + 1)" by simp
    with True show ?thesis by (auto intro!: pred_bind [OF go_rng_okD(1) [OF r]])
  qed (use b in simp)
  then show ?thesis unfolding span_count_def by (rule pred_bind) (use assms(3) b in auto)
qed

text \<open>What a run of the loop leaves, from \<open>bs\<close> written so far.\<close>

definition traces_done ::
    "'g go_rng \<Rightarrow> profile \<Rightarrow> tracesConfig \<Rightarrow> int \<Rightarrow> (nat \<Rightarrow> bool) \<Rightarrow> int \<Rightarrow> (int \<times> genTraces) option \<Rightarrow> bool" where
  "traces_done r p tcfg now cancelled n res \<longleftrightarrow>
     (\<exists>k bs. res = Some (int k, traces_columns (concat bs)) \<and> length (concat bs) = k \<and> int k \<le> n \<and>
        (int k < n \<longrightarrow> cancelled k) \<and> block_traces r p tcfg now bs \<and> sizes_ok tcfg (int k = n) bs)"

lemma traces_fill_loop_ok:
  assumes r: "go_rng_ok r" and p: "profile_ok p" and t: "traces_ok tcfg"
  shows "n = int (length (concat bs)) + remaining \<Longrightarrow> 0 \<le> remaining \<Longrightarrow> nat remaining \<le> fuel \<Longrightarrow>
    block_traces r p tcfg now bs \<Longrightarrow> sizes_ok tcfg (remaining = 0) bs \<Longrightarrow>
    pred_state (traces_done r p tcfg now cancelled n)
      (traces_fill_loop r p tcfg now cancelled n fuel (length (concat bs)) remaining (traces_columns (concat bs)))"
proof (induction fuel arbitrary: bs remaining)
  case 0
  then show ?case by (auto simp: traces_done_def)
next
  case (Suc fuel)
  show ?case
  proof (cases "0 < remaining \<and> \<not> cancelled (length (concat bs))")
    case False
    then show ?thesis
      using Suc.prems by (subst traces_fill_loop.simps) (auto simp: traces_done_def)
  next
    case True
    let ?i = "length (concat bs)"
    have go: "traces_fill_loop r p tcfg now cancelled n (Suc fuel) ?i remaining c =
      do {
        spanCount \<leftarrow> span_count r tcfg remaining;
        traceID \<leftarrow> TraceID r;
        nodes \<leftarrow> buildTree r (tg_MaxDepth tcfg) spanCount;
        resourceAttrs \<leftarrow> map_Generate r (pf_ResourceAttrs p);
        serviceName \<leftarrow> generate r (pf_ServiceName p);
        scopeName \<leftarrow> generate r (pf_ScopeName p);
        scopeVersion \<leftarrow> generate r (pf_ScopeVersion p);
        c \<leftarrow> trace_fill_spans r p tcfg now
          \<lparr>ts_traceID = traceID, ts_resourceAttrs = resourceAttrs, ts_serviceName = serviceName,
           ts_scopeName = scopeName, ts_scopeVersion = scopeVersion\<rparr> ?i nodes c;
        traces_fill_loop r p tcfg now cancelled n fuel (?i + length nodes) (remaining - spanCount) c }" for c
      using True by (subst traces_fill_loop.simps) simp
    note gen = generate_outcome [OF r] and attrs = map_Generate_outcome [OF r]
    have step: "pred_state (traces_done r p tcfg now cancelled n)
        (traces_fill_loop r p tcfg now cancelled n fuel (?i + length nodes) (remaining - m) c)"
      if m: "1 \<le> m \<and> m \<le> remaining \<and> m \<le> tg_SpansPerTraceMax tcfg \<and>
          (m < remaining \<longrightarrow> tg_SpansPerTraceMin tcfg \<le> m)"
        and id: "length traceID = 32 \<and> all_hex traceID"
        and tree: "tree_ok (tg_MaxDepth tcfg) nodes \<and> length nodes = nat m"
        and res: "map_produces r (set (pf_ResourceAttrs p)) resourceAttrs"
        and names: "produces r (pf_ServiceName p) serviceName" "produces r (pf_ScopeName p) scopeName"
          "produces r (pf_ScopeVersion p) scopeVersion"
        and c: "\<exists>new. c = traces_columns (concat bs @ new) \<and> length new = length nodes \<and>
          (\<forall>k < length new. span_row_ok r p tcfg \<lparr>ts_traceID = traceID, ts_resourceAttrs = resourceAttrs,
             ts_serviceName = serviceName, ts_scopeName = scopeName, ts_scopeVersion = scopeVersion\<rparr>
             (now + int (?i + k)) (nodes ! k) (new ! k))"
      for m traceID nodes resourceAttrs serviceName scopeName scopeVersion c
    proof -
      obtain new where new: "c = traces_columns (concat bs @ new)" "length new = length nodes"
        and rows: "\<forall>k < length new. span_row_ok r p tcfg \<lparr>ts_traceID = traceID, ts_resourceAttrs = resourceAttrs,
             ts_serviceName = serviceName, ts_scopeName = scopeName, ts_scopeVersion = scopeVersion\<rparr>
             (now + int (?i + k)) (nodes ! k) (new ! k)" using c by blast
      let ?sh = "\<lparr>ts_traceID = traceID, ts_resourceAttrs = resourceAttrs,
             ts_serviceName = serviceName, ts_scopeName = scopeName, ts_scopeVersion = scopeVersion\<rparr>"
      have "\<forall>k < length new. span_row_ok r p tcfg ?sh (now + int ?i + int k) (nodes ! k) (new ! k)"
        using rows by (simp add: ac_simps)
      then have "trace_ok r p tcfg (now + int ?i) new"
        unfolding trace_ok_def using tree new(2) id res names
        by (intro exI [of _ ?sh] exI [of _ nodes]) simp
      then have "block_traces r p tcfg now (bs @ [new])" using Suc.prems(4) by simp
      moreover have "sizes_ok tcfg (remaining - m = 0) (bs @ [new])"
        using Suc.prems(5) True m tree new(2) by (auto simp: sizes_ok_def)
      moreover have "n = int (length (concat (bs @ [new]))) + (remaining - m)"
        using Suc.prems(1) m tree new(2) by simp
      moreover have "nat (remaining - m) \<le> fuel" using Suc.prems(3) m by linarith
      ultimately have "pred_state (traces_done r p tcfg now cancelled n)
          (traces_fill_loop r p tcfg now cancelled n fuel (length (concat (bs @ [new]))) (remaining - m)
            (traces_columns (concat (bs @ [new]))))"
        using m by (intro Suc.IH) simp_all
      then show ?thesis by (simp add: new)
    qed
    have one: "1 \<le> m \<Longrightarrow> pred_state (\<lambda>nodes. tree_ok (tg_MaxDepth tcfg) nodes \<and> length nodes = nat m)
        (buildTree r (tg_MaxDepth tcfg) m)" for m by (rule buildTree_ok [OF r])
    show ?thesis
      unfolding go
      apply (rule pred_bind [OF span_count_ok [OF r t conjunct1 [OF True]]])
      apply (rule pred_bind [OF ID_outcomes(1) [OF r]])
      apply (rule pred_bind [OF one], simp)
      apply (rule pred_bind [OF attrs [OF profile_okD(17) [OF p]]])
      apply (rule pred_bind [OF gen [OF profile_okD(1) [OF p]]])
      apply (rule pred_bind [OF gen [OF profile_okD(2) [OF p]]])
      apply (rule pred_bind [OF gen [OF profile_okD(3) [OF p]]])
      apply (rule pred_bind [OF trace_fill_spans_ok [OF r p]])
      apply (rule step; assumption)
      done
  qed
qed


definition small_traces :: tracesConfig where
  "small_traces = traces_defaults \<lparr>tg_SpansPerTraceMin = 2, tg_SpansPerTraceMax = 2, tg_MaxDepth = 3,
     tg_DurationMinUs = 1, tg_DurationMaxUs = 2\<rparr>"


text \<open>
  The limit of depth is not respected at its smallest value: with a maximum depth of one every
  span but the root has depth one, as with a maximum depth of two.
\<close>

lemma buildTree_depth_one:
  assumes "rg_IntN r 1 = State_Monad.return 0" and "rg_IntN r 16 = State_Monad.return 0"
  shows "map sn_depth (fst (run_state (buildTree r 1 2) g)) = [0, 1] \<and>
    map sn_depth (fst (run_state (buildTree r 2 2) g)) = [0, 1]"
proof -
  have "SpanID r = State_Monad.return (replicate 16 (CHR ''0''))"
    using zero_HexString [OF assms(2)] by (simp add: SpanID_def)
  then show ?thesis using assms(1) by (simp add: buildTree_def numeral_eq_Suc)
qed

end
