(* ===== verification/GenSamples.thy ===== *)
theory GenSamples
  imports GenFill
begin

text \<open>
  The filler of profiles blocks (\<open>filler_profiles.go\<close>): whole profiles of samples, each sample a
  stack with parallel columns of frames and parallel columns of values and times. The columns
  of the row are one record per row here; \<open>append_sample\<close> appends to every column.
\<close>

section \<open>The filler\<close>

definition sampleTypeToUnit :: "(string \<times> string) list" where
  "sampleTypeToUnit =
     [(''cpu'', ''nanoseconds''), (''wall'', ''nanoseconds''), (''samples'', ''count''), (''alloc_space'', ''bytes''),
      (''inuse_space'', ''bytes''), (''alloc_objects'', ''count''), (''inuse_objects'', ''count''),
      (''goroutines'', ''count'')]"

record profile_row =
  sr_Timestamp :: int
  sr_ProfileID :: string
  sr_SampleType :: string
  sr_SampleUnit :: string
  sr_ServiceName :: string
  sr_ResourceAttributes :: "(string \<times> string) list"
  sr_ScopeName :: string
  sr_ScopeVersion :: string
  sr_ProfileAttributes :: "(string \<times> string) list"
  sr_SampleAttributes :: "(string \<times> string) list"
  sr_StackHash :: u64
  sr_Addresses :: "u64 list"
  sr_FunctionNames :: "string list"
  sr_FileNames :: "string list"
  sr_LineNumbers :: "int list"
  sr_MappingFileNames :: "string list"
  sr_Values :: "int list"
  sr_TimestampsUnixNano :: "u64 list"
  sr_DurationNano :: u64
  sr_Period :: int
  sr_PeriodType :: string
  sr_PeriodUnit :: string
  sr_TraceID :: string
  sr_SpanID :: string

text \<open>What the samples of one profile share.\<close>

record profile_shared =
  ps_profileID :: string
  ps_profileTime :: int
  ps_serviceName :: string
  ps_scopeName :: string
  ps_scopeVersion :: string
  ps_resourceAttrs :: "(string \<times> string) list"
  ps_profileAttrs :: "(string \<times> string) list"
  ps_sampleType :: string
  ps_sampleUnit :: string
  ps_periodType :: string
  ps_periodUnit :: string
  ps_dur :: u64

record frame =
  fr_address :: u64
  fr_function :: string
  fr_file :: string
  fr_line :: int
  fr_mapping :: string

definition stack_frame :: "'g go_rng \<Rightarrow> profile \<Rightarrow> ('g, frame) state" where
  "stack_frame r p = do {
     address \<leftarrow> rg_Uint64 r;
     fn \<leftarrow> generate r (pf_FunctionName p);
     file \<leftarrow> generate r (pf_FileName p);
     line \<leftarrow> rg_IntN r 2000;
     mapping \<leftarrow> generate r (pf_MappingFileName p);
     State_Monad.return \<lparr>fr_address = address, fr_function = fn, fr_file = file, fr_line = int line + 1,
       fr_mapping = mapping\<rparr> }"

text \<open>One hit of a sample: its time and its value.\<close>

definition sample_hit :: "'g go_rng \<Rightarrow> profilesConfig \<Rightarrow> profile_shared \<Rightarrow> ('g, u64 \<times> int) state" where
  "sample_hit r pcfg sh = do {
     offset \<leftarrow> rg_Int64N r (sint (ps_dur sh) + 1);
     v \<leftarrow> (if ps_sampleUnit sh = ''bytes''
          then do { b \<leftarrow> rg_Uint64N r 1048576; State_Monad.return (sint (b + 1)) }
          else if ps_sampleUnit sh = ''nanoseconds'' then State_Monad.return (pg_PeriodNs pcfg)
          else State_Monad.return 1);
     State_Monad.return (word_of_int (ps_profileTime sh + offset), v) }"

definition stack_depth :: "'g go_rng \<Rightarrow> profilesConfig \<Rightarrow> ('g, int) state" where
  "stack_depth r pcfg =
     (if pg_StackDepthMax pcfg > pg_StackDepthMin pcfg
      then do { k \<leftarrow> rg_IntN r (nat (pg_StackDepthMax pcfg - pg_StackDepthMin pcfg + 1));
                State_Monad.return (pg_StackDepthMin pcfg + int k) }
      else State_Monad.return (pg_StackDepthMin pcfg))"

definition trace_link_ids :: "'g go_rng \<Rightarrow> ('g, string \<times> string) state" where
  "trace_link_ids r = do {
     u \<leftarrow> rg_Float64 r;
     if u < 2 / 10 then do { t \<leftarrow> TraceID r; s \<leftarrow> SpanID r; State_Monad.return (t, s) }
     else State_Monad.return ('''', '''') }"

definition append_sample ::
    "'g go_rng \<Rightarrow> profile \<Rightarrow> profilesConfig \<Rightarrow> profile_shared \<Rightarrow> profile_row list \<Rightarrow> ('g, profile_row list) state" where
  "append_sample r p pcfg sh rows = do {
     sampleAttrs \<leftarrow> map_Generate r (pf_SampleAttrs p);
     stackHash \<leftarrow> rg_Uint64 r;
     depth \<leftarrow> stack_depth r pcfg;
     frames \<leftarrow> State_Monad.traverse_list (\<lambda>_. stack_frame r p) [0..<nat depth];
     extra \<leftarrow> rg_IntN r 16;
     hits \<leftarrow> State_Monad.traverse_list (\<lambda>_. sample_hit r pcfg sh) [0..<1 + extra];
     ids \<leftarrow> trace_link_ids r;
     State_Monad.return (rows @
       [\<lparr>sr_Timestamp = ps_profileTime sh, sr_ProfileID = ps_profileID sh, sr_SampleType = ps_sampleType sh,
         sr_SampleUnit = ps_sampleUnit sh, sr_ServiceName = ps_serviceName sh,
         sr_ResourceAttributes = ps_resourceAttrs sh, sr_ScopeName = ps_scopeName sh,
         sr_ScopeVersion = ps_scopeVersion sh, sr_ProfileAttributes = ps_profileAttrs sh,
         sr_SampleAttributes = sampleAttrs, sr_StackHash = stackHash, sr_Addresses = map fr_address frames,
         sr_FunctionNames = map fr_function frames, sr_FileNames = map fr_file frames,
         sr_LineNumbers = map fr_line frames, sr_MappingFileNames = map fr_mapping frames,
         sr_Values = map snd hits, sr_TimestampsUnixNano = map fst hits, sr_DurationNano = ps_dur sh,
         sr_Period = pg_PeriodNs pcfg, sr_PeriodType = ps_periodType sh, sr_PeriodUnit = ps_periodUnit sh,
         sr_TraceID = fst ids, sr_SpanID = snd ids\<rparr>]) }"

fun append_samples ::
    "'g go_rng \<Rightarrow> profile \<Rightarrow> profilesConfig \<Rightarrow> profile_shared \<Rightarrow> nat \<Rightarrow> profile_row list \<Rightarrow> ('g, profile_row list) state" where
  "append_samples r p pcfg sh 0 rows = State_Monad.return rows"
| "append_samples r p pcfg sh (Suc k) rows = do {
     rows \<leftarrow> append_sample r p pcfg sh rows;
     append_samples r p pcfg sh k rows }"

definition sample_count :: "'g go_rng \<Rightarrow> profilesConfig \<Rightarrow> int \<Rightarrow> ('g, int) state" where
  "sample_count r pcfg remaining = do {
     n \<leftarrow> (if pg_SamplesPerProfileMax pcfg > pg_SamplesPerProfileMin pcfg
          then do { k \<leftarrow> rg_IntN r (nat (pg_SamplesPerProfileMax pcfg - pg_SamplesPerProfileMin pcfg + 1));
                    State_Monad.return (pg_SamplesPerProfileMin pcfg + int k) }
          else State_Monad.return (pg_SamplesPerProfileMin pcfg));
     let n = (if n < 1 then 1 else n);
     State_Monad.return (if n > remaining then remaining else n) }"

definition shared_values ::
    "'g go_rng \<Rightarrow> profile \<Rightarrow> profilesConfig \<Rightarrow> int \<Rightarrow> ('g, profile_shared) state" where
  "shared_values r p pcfg profileTime = do {
     profileID \<leftarrow> HexString r 32;
     serviceName \<leftarrow> generate r (pf_ServiceName p);
     scopeName \<leftarrow> generate r (pf_ScopeName p);
     scopeVersion \<leftarrow> generate r (pf_ScopeVersion p);
     resourceAttrs \<leftarrow> map_Generate r (pf_ResourceAttrs p);
     profileAttrs \<leftarrow> map_Generate r (pf_ProfileAttrs p);
     sampleType \<leftarrow> generate r (pf_SampleType p);
     sampleUnit \<leftarrow> (case map_of sampleTypeToUnit sampleType of
         Some u \<Rightarrow> if u = '''' then generate r (pf_SampleUnit p) else State_Monad.return u
       | None \<Rightarrow> generate r (pf_SampleUnit p));
     periodType \<leftarrow> generate r (pf_PeriodType p);
     periodUnit \<leftarrow> generate r (pf_PeriodUnit p);
     let base = pg_DurationMinMs pcfg * 1000000;
     dur \<leftarrow> (if pg_DurationMaxMs pcfg > pg_DurationMinMs pcfg
            then do { d \<leftarrow> rg_Uint64N r ((pg_DurationMaxMs pcfg - pg_DurationMinMs pcfg) * 1000000 + 1);
                      State_Monad.return (base + d) }
            else State_Monad.return base);
     State_Monad.return \<lparr>ps_profileID = profileID, ps_profileTime = profileTime, ps_serviceName = serviceName,
       ps_scopeName = scopeName, ps_scopeVersion = scopeVersion, ps_resourceAttrs = resourceAttrs,
       ps_profileAttrs = profileAttrs, ps_sampleType = sampleType, ps_sampleUnit = sampleUnit,
       ps_periodType = periodType, ps_periodUnit = periodUnit, ps_dur = dur\<rparr> }"

text \<open>
  The loop of \<open>ProfilesFiller.Fill\<close>, one profile per round. A round writes at least one row, whatever the
  configuration, so \<open>n\<close> rounds of fuel are enough.
\<close>

fun profiles_fill_loop ::
    "'g go_rng \<Rightarrow> profile \<Rightarrow> profilesConfig \<Rightarrow> int \<Rightarrow> (nat \<Rightarrow> bool) \<Rightarrow> int \<Rightarrow> nat \<Rightarrow> nat \<Rightarrow> int \<Rightarrow> profile_row list \<Rightarrow>
     ('g, (int \<times> profile_row list) option) state" where
  "profiles_fill_loop r p pcfg now cancelled n fuel rowIdx remaining rows =
     (if \<not> 0 < remaining then State_Monad.return (Some (n, rows))
      else case fuel of
        0 \<Rightarrow> State_Monad.return None
      | Suc fuel \<Rightarrow>
          if cancelled rowIdx then State_Monad.return (Some (n - remaining, rows))
          else do {
            sampleCount \<leftarrow> sample_count r pcfg remaining;
            sh \<leftarrow> shared_values r p pcfg (now + int rowIdx);
            rows \<leftarrow> append_samples r p pcfg sh (nat sampleCount) rows;
            profiles_fill_loop r p pcfg now cancelled n fuel (rowIdx + nat sampleCount) (remaining - sampleCount) rows })"

definition profiles_Fill ::
    "'g go_rng \<Rightarrow> profile \<Rightarrow> profilesConfig \<Rightarrow> int \<Rightarrow> (nat \<Rightarrow> bool) \<Rightarrow> nat \<Rightarrow> int \<Rightarrow>
     ('g, (int \<times> profile_row list) option) state" where
  "profiles_Fill r p pcfg now cancelled fuel n = profiles_fill_loop r p pcfg now cancelled n fuel 0 n []"

section \<open>Samples: lemmas\<close>

text \<open>
  A sample row: the frame columns are parallel and within the depth bounds, the values and their
  times are parallel, from 1 to 16 of them, and each value is what the unit of the sample asks for.
\<close>

definition value_ok :: "profilesConfig \<Rightarrow> string \<Rightarrow> int \<Rightarrow> bool" where
  "value_ok pcfg unit v \<longleftrightarrow>
     (if unit = ''bytes'' then 1 \<le> v \<and> v \<le> 1048576
      else if unit = ''nanoseconds'' then v = pg_PeriodNs pcfg else v = 1)"

definition profile_row_ok :: "'g go_rng \<Rightarrow> profile \<Rightarrow> profilesConfig \<Rightarrow> profile_shared \<Rightarrow> profile_row \<Rightarrow> bool" where
  "profile_row_ok r p pcfg sh row \<longleftrightarrow>
     sr_Timestamp row = ps_profileTime sh \<and> sr_ProfileID row = ps_profileID sh \<and>
     sr_SampleType row = ps_sampleType sh \<and> sr_SampleUnit row = ps_sampleUnit sh \<and>
     sr_DurationNano row = ps_dur sh \<and>
     pg_StackDepthMin pcfg \<le> int (length (sr_Addresses row)) \<and>
     int (length (sr_Addresses row)) \<le> pg_StackDepthMax pcfg \<and>
     length (sr_FunctionNames row) = length (sr_Addresses row) \<and>
     length (sr_FileNames row) = length (sr_Addresses row) \<and>
     length (sr_LineNumbers row) = length (sr_Addresses row) \<and>
     length (sr_MappingFileNames row) = length (sr_Addresses row) \<and>
     (\<forall>f \<in> set (sr_FunctionNames row). produces r (pf_FunctionName p) f) \<and>
     (\<forall>l \<in> set (sr_LineNumbers row). 1 \<le> l \<and> l \<le> 2000) \<and>
     length (sr_TimestampsUnixNano row) = length (sr_Values row) \<and>
     1 \<le> length (sr_Values row) \<and> length (sr_Values row) \<le> 16 \<and>
     (\<forall>v \<in> set (sr_Values row). value_ok pcfg (sr_SampleUnit row) v) \<and>
     (sr_TraceID row = '''' \<and> sr_SpanID row = '''' \<or> length (sr_TraceID row) = 32 \<and> length (sr_SpanID row) = 16)"

lemma stack_frame_ok:
  assumes r: "go_rng_ok r" and p: "profile_ok p"
  shows "pred_state (\<lambda>f. produces r (pf_FunctionName p) (fr_function f) \<and> 1 \<le> fr_line f \<and> fr_line f \<le> 2000)
    (stack_frame r p)"
proof -
  note gen = generate_outcome [OF r]
  have n: "0 < (2000 :: nat)" by simp
  show ?thesis
    unfolding stack_frame_def
    by (rule pred_bind_any, rule pred_bind [OF gen [OF profile_okD(14) [OF p]]], rule pred_bind_any,
        rule pred_bind [OF go_rng_okD(1) [OF r n]], rule pred_bind_any) simp
qed

lemma sample_hit_ok:
  assumes r: "go_rng_ok r"
  shows "pred_state (\<lambda>h. value_ok pcfg (ps_sampleUnit sh) (snd h)) (sample_hit r pcfg sh)"
proof -
  have n: "0 < (1048576 :: u64)" by simp
  have "1 \<le> sint (b + 1) \<and> sint (b + 1) \<le> 1048576" if "b < (1048576 :: u64)" for b
  proof -
    have b: "unat b < 1048576" using that by (simp add: word_less_nat_alt)
    then have "unat (b + 1) = unat b + 1" by (simp add: unat_add64)
    then have "sint (b + 1) = int (unat b + 1)" using b by (subst sint_small) simp_all
    then show ?thesis using b by simp
  qed
  then have "pred_state (value_ok pcfg (ps_sampleUnit sh))
      (if ps_sampleUnit sh = ''bytes''
       then do { b \<leftarrow> rg_Uint64N r 1048576; State_Monad.return (sint (b + 1)) }
       else if ps_sampleUnit sh = ''nanoseconds'' then State_Monad.return (pg_PeriodNs pcfg)
       else State_Monad.return 1)"
    by (auto simp: value_ok_def intro!: pred_bind [OF go_rng_okD(2) [OF r n]])
  note outcome = this
  show ?thesis unfolding sample_hit_def by (rule pred_bind_any, rule pred_bind [OF outcome]) simp
qed

lemma stack_depth_ok:
  assumes r: "go_rng_ok r" and c: "profiles_ok pcfg"
  shows "pred_state (\<lambda>d. 1 \<le> d \<and> pg_StackDepthMin pcfg \<le> d \<and> d \<le> pg_StackDepthMax pcfg) (stack_depth r pcfg)"
proof -
  have b: "1 \<le> pg_StackDepthMin pcfg" "pg_StackDepthMin pcfg \<le> pg_StackDepthMax pcfg"
    using c by (simp_all add: profiles_ok_def)
  show ?thesis
  proof (cases "pg_StackDepthMax pcfg > pg_StackDepthMin pcfg")
    case True
    then have n: "0 < nat (pg_StackDepthMax pcfg - pg_StackDepthMin pcfg + 1)" by simp
    show ?thesis
      unfolding stack_depth_def if_P [OF True]
      by (rule pred_bind [OF go_rng_okD(1) [OF r n]]) (use b in auto)
  qed (use b in \<open>simp add: stack_depth_def\<close>)
qed

lemma trace_link_ids_ok:
  assumes r: "go_rng_ok r"
  shows "pred_state (\<lambda>ids. ids = ('''', '''') \<or> length (fst ids) = 32 \<and> length (snd ids) = 16) (trace_link_ids r)"
  unfolding trace_link_ids_def
  by (rule pred_bind_any)
    (auto intro!: pred_bind [OF ID_outcomes(1) [OF r]] pred_bind [OF ID_outcomes(2) [OF r]])

lemma append_sample_ok:
  assumes r: "go_rng_ok r" and p: "profile_ok p" and c: "profiles_ok pcfg"
  shows "pred_state (\<lambda>rows'. \<exists>row. rows' = rows @ [row] \<and> profile_row_ok r p pcfg sh row)
    (append_sample r p pcfg sh rows)"
proof -
  have n: "0 < (16 :: nat)" by simp
  show ?thesis
    unfolding append_sample_def
    apply (rule pred_bind_any)
    apply (rule pred_bind_any)
    apply (rule pred_bind [OF stack_depth_ok [OF r c]])
    apply (rule pred_bind [OF pred_traverse [OF stack_frame_ok [OF r p]]])
    apply (rule pred_bind [OF go_rng_okD(1) [OF r n]])
    apply (rule pred_bind [OF pred_traverse [OF sample_hit_ok [OF r]]])
    apply (rule pred_bind [OF trace_link_ids_ok [OF r]])
    apply (auto simp: profile_row_ok_def)
    done
qed

lemma append_samples_ok:
  assumes r: "go_rng_ok r" and p: "profile_ok p" and c: "profiles_ok pcfg"
  shows "pred_state (\<lambda>rows'. \<exists>new. rows' = rows @ new \<and> length new = k \<and> (\<forall>row \<in> set new. profile_row_ok r p pcfg sh row))
    (append_samples r p pcfg sh k rows)"
proof (induction k arbitrary: rows)
  case (Suc k)
  show ?case
    unfolding append_samples.simps
  proof (rule pred_bind [OF append_sample_ok [OF r p c]])
    fix rows1 assume "\<exists>row. rows1 = rows @ [row] \<and> profile_row_ok r p pcfg sh row"
    then obtain row where row: "rows1 = rows @ [row]" "profile_row_ok r p pcfg sh row" by blast
    show "pred_state (\<lambda>rows'. \<exists>new. rows' = rows @ new \<and> length new = Suc k \<and>
        (\<forall>row \<in> set new. profile_row_ok r p pcfg sh row)) (append_samples r p pcfg sh k rows1)"
    proof (rule pred_weaken [OF Suc.IH])
      fix rows' assume "\<exists>new. rows' = rows1 @ new \<and> length new = k \<and> (\<forall>row \<in> set new. profile_row_ok r p pcfg sh row)"
      then obtain new where "rows' = rows1 @ new" "length new = k" "\<forall>row \<in> set new. profile_row_ok r p pcfg sh row"
        by blast
      then show "\<exists>new. rows' = rows @ new \<and> length new = Suc k \<and> (\<forall>row \<in> set new. profile_row_ok r p pcfg sh row)"
        using row by (intro exI [of _ "row # new"]) simp
    qed
  qed
qed simp

text \<open>
  The shared values: the unit is the canonical one of the sample type where the type has one, and
  the duration is within the configured range if that fits 63 bits of nanoseconds, so
  that drawing the time of a hit does not panic.
\<close>

definition shared_ok :: "'g go_rng \<Rightarrow> profile \<Rightarrow> profilesConfig \<Rightarrow> int \<Rightarrow> profile_shared \<Rightarrow> bool" where
  "shared_ok r p pcfg t sh \<longleftrightarrow>
     ps_profileTime sh = t \<and> length (ps_profileID sh) = 32 \<and> all_hex (ps_profileID sh) \<and>
     produces r (pf_SampleType p) (ps_sampleType sh) \<and>
     (case map_of sampleTypeToUnit (ps_sampleType sh) of
        Some u \<Rightarrow> ps_sampleUnit sh = u
      | None \<Rightarrow> produces r (pf_SampleUnit p) (ps_sampleUnit sh)) \<and>
     (unat (pg_DurationMaxMs pcfg) * 1000000 < 9223372036854775807 \<longrightarrow>
        pg_DurationMinMs pcfg \<le> pg_DurationMaxMs pcfg \<longrightarrow>
        unat (pg_DurationMinMs pcfg) * 1000000 \<le> unat (ps_dur sh) \<and>
        unat (ps_dur sh) \<le> unat (pg_DurationMaxMs pcfg) * 1000000 \<and> 0 < sint (ps_dur sh) + 1)"

lemma shared_duration:
  assumes r: "go_rng_ok r"
  shows "pred_state (\<lambda>d. unat (pg_DurationMaxMs pcfg) * 1000000 < 9223372036854775807 \<longrightarrow>
        pg_DurationMinMs pcfg \<le> pg_DurationMaxMs pcfg \<longrightarrow>
        unat (pg_DurationMinMs pcfg) * 1000000 \<le> unat d \<and>
        unat d \<le> unat (pg_DurationMaxMs pcfg) * 1000000 \<and> 0 < sint d + 1)
    (if pg_DurationMaxMs pcfg > pg_DurationMinMs pcfg
     then do { d \<leftarrow> rg_Uint64N r ((pg_DurationMaxMs pcfg - pg_DurationMinMs pcfg) * 1000000 + 1);
               State_Monad.return (pg_DurationMinMs pcfg * 1000000 + d) }
     else State_Monad.return (pg_DurationMinMs pcfg * 1000000))"
proof -
  let ?lo = "pg_DurationMinMs pcfg" and ?hi = "pg_DurationMaxMs pcfg"
  have done_if: "unat ?lo * 1000000 \<le> unat d \<and> unat d \<le> unat ?hi * 1000000 \<and> 0 < sint d + 1"
    if "unat ?hi * 1000000 < 9223372036854775807" "unat d = unat ?lo * 1000000 + x"
      "unat ?lo * 1000000 + x \<le> unat ?hi * 1000000" for d :: u64 and x
  proof -
    have "unat d < 9223372036854775808" using that by linarith
    then have "sint d = int (unat d)" by (rule sint_small)
    then show ?thesis using that by simp
  qed
  show ?thesis
  proof (cases "?hi > ?lo")
    case True
    show ?thesis
    proof (cases "unat ?hi * 1000000 < 9223372036854775807")
      case False
      then show ?thesis by (auto intro!: pred_any)
    next
      case fits: True
      let ?w = "(?hi - ?lo) * 1000000 + 1"
      have sub: "unat (?hi - ?lo) = unat ?hi - unat ?lo" using True by (intro unat_sub) simp
      have "unat ((?hi - ?lo) * 1000000) = (unat ?hi - unat ?lo) * 1000000"
        using fits by (intro trans [OF unat_mult64]) (simp_all add: sub)
      then have w: "unat ?w = (unat ?hi - unat ?lo) * 1000000 + 1"
        using fits by (intro trans [OF unat_add64]) simp_all
      then have pos: "0 < ?w" by (metis unat_gt_0 word_gt_0 add_gr_0 less_one)
      have lo: "unat (?lo * 1000000) = unat ?lo * 1000000"
        using fits True by (intro trans [OF unat_mult64]) (simp_all add: word_less_nat_alt)
      have "unat (?lo * 1000000 + d) = unat ?lo * 1000000 + unat d \<and>
          unat ?lo * 1000000 + unat d \<le> unat ?hi * 1000000" if "d < ?w" for d
      proof -
        have "unat d \<le> (unat ?hi - unat ?lo) * 1000000" using that w by (simp add: word_less_nat_alt)
        then have "unat ?lo * 1000000 + unat d \<le> unat ?hi * 1000000"
          using True by (simp add: word_less_nat_alt algebra_simps)
        moreover from this have "unat (?lo * 1000000 + d) = unat ?lo * 1000000 + unat d"
          using fits by (subst unat_add64) (simp_all add: lo)
        ultimately show ?thesis by blast
      qed
      then show ?thesis
        unfolding if_P [OF True] using done_if fits
        by (intro pred_bind [OF go_rng_okD(2) [OF r pos]]) auto
    qed
  next
    case False
    have "unat (?lo * 1000000) = unat ?lo * 1000000 + 0"
      if "unat ?hi * 1000000 < 9223372036854775807" "?lo \<le> ?hi"
      using that by (subst unat_mult64) (simp_all add: word_le_nat_alt)
    then show ?thesis
      unfolding if_not_P [OF False] pred_return using done_if [of "?lo * 1000000" 0]
      by (auto simp: word_le_nat_alt)
  qed
qed

lemma shared_values_ok:
  assumes r: "go_rng_ok r" and p: "profile_ok p"
  shows "pred_state (shared_ok r p pcfg t) (shared_values r p pcfg t)"
proof -
  note gen = generate_outcome [OF r] and attrs = map_Generate_outcome [OF r]
  have unit: "pred_state (\<lambda>u. case map_of sampleTypeToUnit ty of Some c \<Rightarrow> u = c | None \<Rightarrow> produces r (pf_SampleUnit p) u)
      (case map_of sampleTypeToUnit ty of
         Some u \<Rightarrow> if u = '''' then generate r (pf_SampleUnit p) else State_Monad.return u
       | None \<Rightarrow> generate r (pf_SampleUnit p))" for ty
  proof (cases "map_of sampleTypeToUnit ty")
    case None
    then show ?thesis using gen [OF profile_okD(11) [OF p]] by simp
  next
    case (Some c)
    then have "c \<noteq> ''''" by (auto simp: sampleTypeToUnit_def split: if_splits)
    then show ?thesis using Some by simp
  qed
  show ?thesis
    unfolding shared_values_def Let_def
    apply (rule pred_bind [OF HexString_outcome [OF r]])
    apply (rule pred_bind_any, rule pred_bind_any, rule pred_bind_any, rule pred_bind_any, rule pred_bind_any)
    apply (rule pred_bind [OF gen [OF profile_okD(10) [OF p]]])
    apply (rule pred_bind [OF unit])
    apply (rule pred_bind_any)
    apply (rule pred_bind_any)
    apply (rule pred_bind [OF shared_duration [OF r]])
    apply (simp add: shared_ok_def split: option.splits)
    done
qed

text \<open>The rows of one profile, and the profiles of a block one after another.\<close>

definition profile_group ::
    "'g go_rng \<Rightarrow> profile \<Rightarrow> profilesConfig \<Rightarrow> int \<Rightarrow> profile_row list \<Rightarrow> bool" where
  "profile_group r p pcfg t b \<longleftrightarrow>
     (\<exists>sh. shared_ok r p pcfg t sh \<and> (\<forall>row \<in> set b. profile_row_ok r p pcfg sh row)) \<and>
     b \<noteq> [] \<and> int (length b) \<le> pg_SamplesPerProfileMax pcfg"

fun block_profiles ::
    "'g go_rng \<Rightarrow> profile \<Rightarrow> profilesConfig \<Rightarrow> int \<Rightarrow> profile_row list list \<Rightarrow> bool" where
  "block_profiles r p pcfg t [] = True"
| "block_profiles r p pcfg t (b # bs) =
     (profile_group r p pcfg t b \<and> block_profiles r p pcfg (t + int (length b)) bs)"

lemma block_profiles_snoc [simp]:
  "block_profiles r p pcfg t (bs @ [b]) \<longleftrightarrow>
     block_profiles r p pcfg t bs \<and> profile_group r p pcfg (t + int (length (concat bs))) b"
  by (induction bs arbitrary: t) (auto simp: algebra_simps)

lemma sample_count_ok:
  assumes r: "go_rng_ok r" and c: "profiles_ok pcfg" and "0 < remaining"
  shows "pred_state (\<lambda>m. 1 \<le> m \<and> m \<le> remaining \<and> m \<le> pg_SamplesPerProfileMax pcfg) (sample_count r pcfg remaining)"
proof -
  let ?lo = "pg_SamplesPerProfileMin pcfg" and ?hi = "pg_SamplesPerProfileMax pcfg"
  have b: "1 \<le> ?lo" "?lo \<le> ?hi" using c by (simp_all add: profiles_ok_def)
  have "pred_state (\<lambda>m. 1 \<le> m \<and> m \<le> ?hi) (if ?hi > ?lo
      then do { k \<leftarrow> rg_IntN r (nat (?hi - ?lo + 1)); State_Monad.return (?lo + int k) }
      else State_Monad.return ?lo)"
  proof (cases "?hi > ?lo")
    case True
    then have n: "0 < nat (?hi - ?lo + 1)" by simp
    show ?thesis unfolding if_P [OF True]
      by (rule pred_bind [OF go_rng_okD(1) [OF r n]]) (use b in auto)
  qed (use b in simp)
  then show ?thesis unfolding sample_count_def Let_def by (rule pred_bind) (use assms(3) in auto)
qed

definition profiles_done ::
    "'g go_rng \<Rightarrow> profile \<Rightarrow> profilesConfig \<Rightarrow> int \<Rightarrow> (nat \<Rightarrow> bool) \<Rightarrow> int \<Rightarrow> (int \<times> profile_row list) option \<Rightarrow> bool" where
  "profiles_done r p pcfg now cancelled n res \<longleftrightarrow>
     (\<exists>k bs. res = Some (int k, concat bs) \<and> length (concat bs) = k \<and> int k \<le> n \<and>
        (int k < n \<longrightarrow> cancelled k) \<and> block_profiles r p pcfg now bs)"

lemma profiles_fill_loop_ok:
  assumes r: "go_rng_ok r" and p: "profile_ok p" and c: "profiles_ok pcfg"
  shows "n = int (length (concat bs)) + remaining \<Longrightarrow> 0 \<le> remaining \<Longrightarrow> nat remaining \<le> fuel \<Longrightarrow>
    block_profiles r p pcfg now bs \<Longrightarrow>
    pred_state (profiles_done r p pcfg now cancelled n)
      (profiles_fill_loop r p pcfg now cancelled n fuel (length (concat bs)) remaining (concat bs))"
proof (induction fuel arbitrary: bs remaining)
  case 0
  then show ?case by (auto simp: profiles_done_def)
next
  case (Suc fuel)
  show ?case
  proof (cases "0 < remaining \<and> \<not> cancelled (length (concat bs))")
    case False
    then show ?thesis
      using Suc.prems by (subst profiles_fill_loop.simps) (auto simp: profiles_done_def)
  next
    case True
    let ?i = "length (concat bs)"
    have go: "profiles_fill_loop r p pcfg now cancelled n (Suc fuel) ?i remaining rows =
      do {
        sampleCount \<leftarrow> sample_count r pcfg remaining;
        sh \<leftarrow> shared_values r p pcfg (now + int ?i);
        rows \<leftarrow> append_samples r p pcfg sh (nat sampleCount) rows;
        profiles_fill_loop r p pcfg now cancelled n fuel (?i + nat sampleCount) (remaining - sampleCount) rows }" for rows
      using True by (subst profiles_fill_loop.simps) simp
    have step: "pred_state (profiles_done r p pcfg now cancelled n)
        (profiles_fill_loop r p pcfg now cancelled n fuel (?i + nat m) (remaining - m) rows)"
      if m: "1 \<le> m \<and> m \<le> remaining \<and> m \<le> pg_SamplesPerProfileMax pcfg"
        and sh: "shared_ok r p pcfg (now + int ?i) sh"
        and new: "\<exists>new. rows = concat bs @ new \<and> length new = nat m \<and> (\<forall>row \<in> set new. profile_row_ok r p pcfg sh row)"
      for m sh rows
    proof -
      obtain new where rows: "rows = concat bs @ new" "length new = nat m"
        "\<forall>row \<in> set new. profile_row_ok r p pcfg sh row" using new by blast
      have "profile_group r p pcfg (now + int ?i) new"
        using sh rows(2,3) m by (auto simp: profile_group_def)
      then have "block_profiles r p pcfg now (bs @ [new])" using Suc.prems(4) by simp
      moreover have "n = int (length (concat (bs @ [new]))) + (remaining - m)"
        using Suc.prems(1) m rows(2) by simp
      moreover have "nat (remaining - m) \<le> fuel" using Suc.prems(3) m by linarith
      ultimately have "pred_state (profiles_done r p pcfg now cancelled n)
          (profiles_fill_loop r p pcfg now cancelled n fuel (length (concat (bs @ [new]))) (remaining - m)
            (concat (bs @ [new])))"
        using m by (intro Suc.IH) simp_all
      then show ?thesis by (simp add: rows)
    qed
    show ?thesis
      unfolding go
      apply (rule pred_bind [OF sample_count_ok [OF r c conjunct1 [OF True]]])
      apply (rule pred_bind [OF shared_values_ok [OF r p]])
      apply (rule pred_bind [OF append_samples_ok [OF r p c]])
      apply (rule step; assumption)
      done
  qed
qed


definition small_profiles :: profilesConfig where
  "small_profiles = profiles_defaults \<lparr>pg_SamplesPerProfileMin = 2, pg_SamplesPerProfileMax = 2,
     pg_StackDepthMin = 1, pg_StackDepthMax = 2, pg_DurationMinMs = 1, pg_DurationMaxMs = 2, pg_PeriodNs = 10\<rparr>"


end
