(* ===== verification/GenWorker.thy ===== *)
theory GenWorker
  imports GenSamples Disk
begin

text \<open>
  The generate worker and scheduler (\<open>worker.go\<close>, \<open>scheduler.go\<close>): a worker takes a block from the
  pool, resets and fills it, and passes it to the insert queue or, in passthrough mode, back to
  the pool. The block pool is an argument; what the limiter answers, what the filler writes and
  when the context is cancelled are the turns of the run.
\<close>

section \<open>The worker\<close>

record ('p, 'c) gen_state =
  gs_pool :: 'p
  gs_data :: "nat \<Rightarrow> 'c"
  gs_queue :: "nat list"
  gs_rowsTotal :: u64
  gs_blocksTotal :: u64

datatype limit_answer = Permitted | LimitCancelled | LimitFailed

text \<open>
  One turn: whether the context is done at its top, the limiter's answer, the filler on the reset
  columns with the number of rows it wrote, and whether the final select takes the cancelled branch.
\<close>

record 'c gen_turn =
  tn_done :: bool
  tn_limit :: limit_answer
  tn_fill :: "'c \<Rightarrow> 'c \<times> int"
  tn_cancel :: bool

record 'c gen_env =
  ev_reset :: "'c \<Rightarrow> 'c"
  ev_kind_ok :: "'c \<Rightarrow> bool"
  ev_limited :: bool
  ev_rowsPerBlock :: int
  ev_passthrough :: bool
  ev_cap :: nat

datatype gen_end = GenStopped | GenFailed | GenGoesOn

definition give_back ::
    "(nat \<Rightarrow> 'p \<Rightarrow> 'p option) \<Rightarrow> nat \<Rightarrow> gen_end \<Rightarrow> ('p, 'c) gen_state \<Rightarrow> (gen_end \<times> ('p, 'c) gen_state) outcome" where
  "give_back release b e s =
     (case release b (gs_pool s) of None \<Rightarrow> Blocked | Some p \<Rightarrow> Returned (e, s\<lparr>gs_pool := p\<rparr>))"

definition gen_filled ::
    "(nat \<Rightarrow> 'p \<Rightarrow> 'p option) \<Rightarrow> 'c gen_env \<Rightarrow> 'c gen_turn \<Rightarrow> nat \<Rightarrow> ('p, 'c) gen_state \<Rightarrow>
     (gen_end \<times> ('p, 'c) gen_state) outcome" where
  "gen_filled release E t b s =
     (case tn_fill t (gs_data s b) of (c, rowsFilled) \<Rightarrow>
        let s = s\<lparr>gs_data := (gs_data s)(b := c)\<rparr> in
        if rowsFilled < ev_rowsPerBlock E then give_back release b GenStopped s
        else
          let s = s\<lparr>gs_rowsTotal := gs_rowsTotal s + word_of_int (ev_rowsPerBlock E),
                    gs_blocksTotal := gs_blocksTotal s + 1\<rparr>
          in if ev_passthrough E then give_back release b GenGoesOn s
             else if tn_cancel t then give_back release b GenStopped s
             else if length (gs_queue s) < ev_cap E then Returned (GenGoesOn, s\<lparr>gs_queue := gs_queue s @ [b]\<rparr>)
             else Blocked)"

definition gen_turn_run ::
    "('p \<Rightarrow> (nat \<times> 'p) option) \<Rightarrow> (nat \<Rightarrow> 'p \<Rightarrow> 'p option) \<Rightarrow> 'c gen_env \<Rightarrow> 'c gen_turn \<Rightarrow> ('p, 'c) gen_state \<Rightarrow>
     (gen_end \<times> ('p, 'c) gen_state) outcome" where
  "gen_turn_run acquire release E t s =
     (if tn_done t then Returned (GenStopped, s)
      else if ev_limited E \<and> tn_limit t = LimitCancelled then Returned (GenStopped, s)
      else if ev_limited E \<and> tn_limit t = LimitFailed then Returned (GenFailed, s)
      else case acquire (gs_pool s) of
        None \<Rightarrow> Blocked
      | Some (b, p) \<Rightarrow>
          let s = s\<lparr>gs_pool := p, gs_data := (gs_data s)(b := ev_reset E (gs_data s b))\<rparr>
          in if \<not> ev_kind_ok E (gs_data s b) then give_back release b GenFailed s
             else gen_filled release E t b s)"

fun gen_worker_Run ::
    "('p \<Rightarrow> (nat \<times> 'p) option) \<Rightarrow> (nat \<Rightarrow> 'p \<Rightarrow> 'p option) \<Rightarrow> 'c gen_env \<Rightarrow> 'c gen_turn list \<Rightarrow> ('p, 'c) gen_state \<Rightarrow>
     (gen_end \<times> ('p, 'c) gen_state) outcome" where
  "gen_worker_Run acquire release E [] s = Returned (GenGoesOn, s)"
| "gen_worker_Run acquire release E (t # ts) s =
     (case gen_turn_run acquire release E t s of
        Returned (GenGoesOn, s) \<Rightarrow> gen_worker_Run acquire release E ts s
      | r \<Rightarrow> r)"

section \<open>The scheduler\<close>

definition DefaultProfile :: string where "DefaultProfile = ''otel_demo''"

datatype filler = FillLogs profile | FillTraces profile tracesConfig | FillProfiles profile profilesConfig

datatype sched_err = LoadFailed profile_err | UnsupportedDataType string

text \<open>The limiter: rows per second and its burst, if limited.\<close>

definition gen_limiter :: "gen_config \<Rightarrow> (u64 \<times> int) option" where
  "gen_limiter c = (if gc_RowsPerSecond c > 0 then Some (gc_RowsPerSecond c, gc_RowsPerBlock c) else None)"

text \<open>
  What \<open>Scheduler.Run\<close> sets up before it waits: the filler, the limiter and the ids of its workers, which
  share both; worker \<open>i\<close> draws from the source seeded with \<open>rng_seed seed i\<close>.
\<close>

definition gen_Scheduler ::
    "registry \<Rightarrow> gen_config \<Rightarrow> string \<Rightarrow> sched_err + filler \<times> (u64 \<times> int) option \<times> nat list" where
  "gen_Scheduler reg c dataType =
     (let profileName = (if gc_Profile c = '''' then DefaultProfile else gc_Profile c) in
      case GetProfile reg profileName of
        Inl err \<Rightarrow> Inl (LoadFailed err)
      | Inr p \<Rightarrow>
          (case (if dataType = ''logs'' then Some (FillLogs p)
                 else if dataType = ''traces'' then Some (FillTraces p (gc_Traces c))
                 else if dataType = ''profiles'' then Some (FillProfiles p (gc_Profiles c))
                 else None) of
             None \<Rightarrow> Inl (UnsupportedDataType dataType)
           | Some f \<Rightarrow> Inr (f, gen_limiter c, [0..<nat (gc_Threads c)])))"

section \<open>Lemmas\<close>

lemma give_back_cases:
  "give_back release b e s = Returned (e', s') \<Longrightarrow>
     \<exists>p. release b (gs_pool s) = Some p \<and> e' = e \<and> s' = s\<lparr>gs_pool := p\<rparr>"
  by (auto simp: give_back_def split: option.splits)

text \<open>
  The effect of a run on an observer: \<open>sent\<close> are the blocks it put into the queue, each with at
  least a full block of rows, and the counters count the full blocks.
\<close>

definition gen_inv :: "(nat multiset \<Rightarrow> 'p \<Rightarrow> bool) \<Rightarrow> nat list \<Rightarrow> ('p, 'c) gen_state \<Rightarrow> bool" where
  "gen_inv I H s \<longleftrightarrow> I (mset (H @ gs_queue s)) (gs_pool s)"

text \<open>
  What the run left: the queue grew by \<open>sent\<close>, blocks nobody owned before, each holding the
  columns of a fill that reached the block size; the contents of all other blocks in use are as
  they were.
\<close>

definition gen_delivered :: "'c gen_env \<Rightarrow> 'c gen_turn list \<Rightarrow> nat list \<Rightarrow> ('p, 'c) gen_state \<Rightarrow> ('p, 'c) gen_state \<Rightarrow> bool" where
  "gen_delivered E ts H s s' \<longleftrightarrow>
     (\<forall>x \<in> set (H @ gs_queue s). gs_data s' x = gs_data s x) \<and>
     (\<exists>sent k. gs_queue s' = gs_queue s @ sent \<and> length sent \<le> k \<and> k \<le> length ts \<and>
        (\<forall>b \<in> set sent. \<not> ev_passthrough E \<and>
           (\<exists>t \<in> set ts. \<exists>c n. tn_fill t (ev_reset E c) = (gs_data s' b, n) \<and> ev_rowsPerBlock E \<le> n)) \<and>
        gs_blocksTotal s' = gs_blocksTotal s + of_nat k \<and>
        gs_rowsTotal s' = gs_rowsTotal s + of_nat k * word_of_int (ev_rowsPerBlock E))"

lemma gen_delivered_refl: "gen_delivered E ts H s s"
  by (auto simp: gen_delivered_def intro: exI [of _ "[]"] exI [of _ "0 :: nat"])

lemma delivered_none:
  assumes "\<forall>x \<in> set (H @ gs_queue s). gs_data s' x = gs_data s x" and "gs_queue s' = gs_queue s" and "k \<le> 1"
    and "gs_blocksTotal s' = gs_blocksTotal s + of_nat k"
    and "gs_rowsTotal s' = gs_rowsTotal s + of_nat k * word_of_int (ev_rowsPerBlock E)"
  shows "gen_delivered E [t] H s s'"
  using assms unfolding gen_delivered_def by (intro conjI exI [of _ "[]"] exI [of _ k]) simp_all

lemma delivered_one:
  assumes "\<forall>x \<in> set (H @ gs_queue s). gs_data s' x = gs_data s x" and "gs_queue s' = gs_queue s @ [b]"
    and "\<not> ev_passthrough E" and "tn_fill t (ev_reset E c) = (gs_data s' b, n)" and "ev_rowsPerBlock E \<le> n"
    and "gs_blocksTotal s' = gs_blocksTotal s + 1"
    and "gs_rowsTotal s' = gs_rowsTotal s + word_of_int (ev_rowsPerBlock E)"
  shows "gen_delivered E [t] H s s'"
  using assms unfolding gen_delivered_def by (intro conjI exI [of _ "[b]"] exI [of _ 1]) auto

context pool
begin

lemma gen_give_back:
  assumes "inv (add_mset b (mset (H @ gs_queue s))) (gs_pool s)"
  shows "\<exists>s'. give_back release b e s = Returned (e, s') \<and> gen_inv inv H s' \<and> gs_queue s' = gs_queue s \<and>
    gs_data s' = gs_data s \<and> gs_rowsTotal s' = gs_rowsTotal s \<and> gs_blocksTotal s' = gs_blocksTotal s"
proof -
  obtain p where "release b (gs_pool s) = Some p" "inv (mset (H @ gs_queue s)) p"
    using release_inv [OF assms] by blast
  then show ?thesis by (simp add: give_back_def gen_inv_def)
qed

lemma gen_turn_ok:
  assumes i: "gen_inv inv H s" and t: "gen_turn_run acquire release E t s = Returned (e, s')"
  shows "gen_inv inv H s' \<and> gen_delivered E [t] H s s'"
proof (cases "tn_done t \<or> ev_limited E \<and> tn_limit t \<noteq> Permitted")
  case True
  then have "s' = s"
    using t by (cases "tn_limit t") (auto simp: gen_turn_run_def split: if_splits)
  then show ?thesis using i by (simp add: gen_delivered_refl)
next
  case False
  then have "tn_limit t = Permitted \<or> \<not> ev_limited E" "\<not> tn_done t" by auto
  then obtain b p where a: "acquire (gs_pool s) = Some (b, p)"
    using t by (cases "acquire (gs_pool s)") (auto simp: gen_turn_run_def split: if_splits)
  define s1 where "s1 = s\<lparr>gs_pool := p, gs_data := (gs_data s)(b := ev_reset E (gs_data s b))\<rparr>"
  have new: "b \<notin> set (H @ gs_queue s)" by (rule acquired_fresh [OF i [unfolded gen_inv_def] a])
  have out: "inv (add_mset b (mset (H @ gs_queue s))) p" by (rule acquire_inv [OF i [unfolded gen_inv_def] a])
  have run: "(if \<not> ev_kind_ok E (gs_data s1 b) then give_back release b GenFailed s1
      else gen_filled release E t b s1) = Returned (e, s')"
    using t a False by (auto simp: gen_turn_run_def s1_def Let_def split: if_splits)
  have frame: "\<forall>x \<in> set (H @ gs_queue s). gs_data s1 x = gs_data s x" using new by (auto simp: s1_def)
  show ?thesis
  proof (cases "ev_kind_ok E (gs_data s1 b)")
    case False
    have "inv (add_mset b (mset (H @ gs_queue s1))) (gs_pool s1)" using out by (simp add: s1_def)
    with gen_give_back [OF this, of GenFailed] run False
    have kept: "gen_inv inv H s'" "gs_queue s' = gs_queue s1" "gs_data s' = gs_data s1"
      "gs_rowsTotal s' = gs_rowsTotal s1" "gs_blocksTotal s' = gs_blocksTotal s1" by auto
    then show ?thesis using frame by (intro conjI delivered_none [where k = 0]) (simp_all add: s1_def)
  next
    case True
    obtain c n where f: "tn_fill t (gs_data s1 b) = (c, n)" by fastforce
    define s2 where "s2 = s1\<lparr>gs_data := (gs_data s1)(b := c)\<rparr>"
    have fill: "tn_fill t (ev_reset E (gs_data s b)) = (c, n)" using f by (simp add: s1_def)
    have frame2: "\<forall>x \<in> set (H @ gs_queue s). gs_data s2 x = gs_data s x" using new frame by (auto simp: s2_def)
    have q: "gs_queue s2 = gs_queue s" "gs_pool s2 = p" "gs_blocksTotal s2 = gs_blocksTotal s"
      "gs_rowsTotal s2 = gs_rowsTotal s" "gs_data s2 b = c" by (simp_all add: s2_def s1_def)
    show ?thesis
    proof (cases "n < ev_rowsPerBlock E")
      case short: True
      have "inv (add_mset b (mset (H @ gs_queue s2))) (gs_pool s2)" using out by (simp add: q)
      with gen_give_back [OF this, of GenStopped] run True f short
      have kept: "gen_inv inv H s'" "gs_queue s' = gs_queue s2" "gs_data s' = gs_data s2"
        "gs_rowsTotal s' = gs_rowsTotal s2" "gs_blocksTotal s' = gs_blocksTotal s2"
        by (auto simp: gen_filled_def s2_def [symmetric] Let_def)
      then show ?thesis using frame2 by (intro conjI delivered_none [where k = 0]) (simp_all add: q)
    next
      case full: False
      define s3 where "s3 = s2\<lparr>gs_rowsTotal := gs_rowsTotal s2 + word_of_int (ev_rowsPerBlock E),
        gs_blocksTotal := gs_blocksTotal s2 + 1\<rparr>"
      have r: "(if ev_passthrough E then give_back release b GenGoesOn s3
          else if tn_cancel t then give_back release b GenStopped s3
          else if length (gs_queue s3) < ev_cap E then Returned (GenGoesOn, s3\<lparr>gs_queue := gs_queue s3 @ [b]\<rparr>)
          else Blocked) = Returned (e, s')"
        using run True f full by (simp add: gen_filled_def s2_def [symmetric] s3_def [symmetric] Let_def)
      have q3: "gs_queue s3 = gs_queue s" "gs_pool s3 = p" "gs_data s3 = gs_data s2"
        "gs_blocksTotal s3 = gs_blocksTotal s + 1"
        "gs_rowsTotal s3 = gs_rowsTotal s + word_of_int (ev_rowsPerBlock E)"
        by (simp_all add: s3_def q)
      show ?thesis
      proof (cases "ev_passthrough E \<or> tn_cancel t")
        case True
        have o: "inv (add_mset b (mset (H @ gs_queue s3))) (gs_pool s3)" using out by (simp add: q3)
        obtain e0 where "give_back release b e0 s3 = Returned (e, s')" using r True by (auto split: if_splits)
        with gen_give_back [OF o, of e0] have kept: "gen_inv inv H s'" "gs_queue s' = gs_queue s3"
          "gs_data s' = gs_data s3" "gs_rowsTotal s' = gs_rowsTotal s3" "gs_blocksTotal s' = gs_blocksTotal s3"
          by auto
        then show ?thesis using frame2 by (intro conjI delivered_none [where k = 1]) (simp_all add: q3)
      next
        case False
        then have s': "s' = s3\<lparr>gs_queue := gs_queue s3 @ [b]\<rparr>" using r by (auto split: if_splits)
        have "gen_inv inv H s'" using out by (simp add: gen_inv_def s' q3)
        then show ?thesis
          using frame2 fill full False by (intro conjI delivered_one [where b = b]) (simp_all add: s' q3 q not_less)
      qed
    qed
  qed
qed

end

lemma delivered_trans:
  assumes a: "gen_delivered E [t] H s s1" and b: "gen_delivered E ts H s1 s2"
  shows "gen_delivered E (t # ts) H s s2"
proof -
  obtain n1 k1 where q1: "gs_queue s1 = gs_queue s @ n1" "length n1 \<le> k1" "k1 \<le> 1"
    and p1: "\<forall>b \<in> set n1. \<not> ev_passthrough E \<and>
        (\<exists>t' \<in> set [t]. \<exists>c n. tn_fill t' (ev_reset E c) = (gs_data s1 b, n) \<and> ev_rowsPerBlock E \<le> n)"
    and c1: "gs_blocksTotal s1 = gs_blocksTotal s + of_nat k1"
      "gs_rowsTotal s1 = gs_rowsTotal s + of_nat k1 * word_of_int (ev_rowsPerBlock E)"
    using a unfolding gen_delivered_def by auto
  obtain n2 k2 where q2: "gs_queue s2 = gs_queue s1 @ n2" "length n2 \<le> k2" "k2 \<le> length ts"
    and p2: "\<forall>b \<in> set n2. \<not> ev_passthrough E \<and>
        (\<exists>t' \<in> set ts. \<exists>c n. tn_fill t' (ev_reset E c) = (gs_data s2 b, n) \<and> ev_rowsPerBlock E \<le> n)"
    and c2: "gs_blocksTotal s2 = gs_blocksTotal s1 + of_nat k2"
      "gs_rowsTotal s2 = gs_rowsTotal s1 + of_nat k2 * word_of_int (ev_rowsPerBlock E)"
    using b unfolding gen_delivered_def by blast
  have f1: "\<forall>x \<in> set (H @ gs_queue s). gs_data s1 x = gs_data s x" using a unfolding gen_delivered_def by blast
  have f2: "\<forall>x \<in> set (H @ gs_queue s1). gs_data s2 x = gs_data s1 x" using b unfolding gen_delivered_def by blast
  have "\<forall>b \<in> set (n1 @ n2). \<not> ev_passthrough E \<and>
      (\<exists>t' \<in> set (t # ts). \<exists>c n. tn_fill t' (ev_reset E c) = (gs_data s2 b, n) \<and> ev_rowsPerBlock E \<le> n)"
    using p1 p2 f2 unfolding q1(1) by fastforce
  moreover have "\<forall>x \<in> set (H @ gs_queue s). gs_data s2 x = gs_data s x" using f1 f2 unfolding q1(1) by auto
  moreover have "gs_queue s2 = gs_queue s @ n1 @ n2" using q1 q2 by simp
  moreover have "length (n1 @ n2) \<le> k1 + k2" "k1 + k2 \<le> length (t # ts)" using q1 q2 by auto
  moreover have "gs_blocksTotal s2 = gs_blocksTotal s + of_nat (k1 + k2)"
    "gs_rowsTotal s2 = gs_rowsTotal s + of_nat (k1 + k2) * word_of_int (ev_rowsPerBlock E)"
    using c1 c2 by (simp_all add: algebra_simps)
  ultimately show ?thesis unfolding gen_delivered_def by blast
qed

context pool
begin

lemma gen_run_ok:
  assumes "gen_inv inv H s" and "gen_worker_Run acquire release E ts s = Returned (e, s')"
  shows "gen_inv inv H s' \<and> gen_delivered E ts H s s'"
  using assms
proof (induction ts arbitrary: s)
  case Nil
  then show ?case by (simp add: gen_delivered_refl)
next
  case (Cons t ts)
  obtain e1 s1 where one: "gen_turn_run acquire release E t s = Returned (e1, s1)"
    using Cons.prems(2) by (auto split: outcome.splits)
  note step = gen_turn_ok [OF Cons.prems(1) one]
  show ?case
  proof (cases "e1 = GenGoesOn")
    case True
    then have "gen_worker_Run acquire release E ts s1 = Returned (e, s')" using Cons.prems(2) one by simp
    with Cons.IH step show ?thesis by (blast intro: delivered_trans)
  next
    case False
    then have "s' = s1" using Cons.prems(2) one by (cases e1) auto
    then show ?thesis using step delivered_trans [OF _ gen_delivered_refl] by blast
  qed
qed

end

text \<open>
  The generate worker: with the block pool, whatever the limiter, the filler and the
  cancellation do, every block it takes is either queued or back in the pool when the run
  returns, none is lost or owned twice; a block it queues holds a fill that reached the block
  size, no block in use elsewhere is touched, nothing is queued in passthrough mode, and the
  counters count the full blocks and their rows.
\<close>

theorem gen_worker_conserves:
  assumes "bp_inv (mset (H @ gs_queue s)) (gs_pool s)"
    and "gen_worker_Run bp_Acquire bp_Release E ts s = Returned (e, s')"
  shows "bp_inv (mset (H @ gs_queue s')) (gs_pool s') \<and> gen_delivered E ts H s s'"
  using block_pool.gen_run_ok [of H s E ts e s'] assms by (simp add: gen_inv_def)

definition gen_demo_env :: "nat gen_env" where
  "gen_demo_env = \<lparr>ev_reset = \<lambda>_. 0, ev_kind_ok = \<lambda>_. True, ev_limited = False, ev_rowsPerBlock = 5,
     ev_passthrough = False, ev_cap = 4\<rparr>"

definition gen_demo_turn :: "int \<Rightarrow> nat gen_turn" where
  "gen_demo_turn n = \<lparr>tn_done = False, tn_limit = Permitted, tn_fill = \<lambda>c. (nat n, n), tn_cancel = False\<rparr>"

definition gen_demo_state :: "(blockPool, nat) gen_state" where
  "gen_demo_state = \<lparr>gs_pool = NewBlockPool 2 0, gs_data = \<lambda>_. 9, gs_queue = [], gs_rowsTotal = 0, gs_blocksTotal = 0\<rparr>"

theorem gen_worker_conserves_witness:
  "\<exists>s'. gen_worker_Run bp_Acquire bp_Release gen_demo_env [gen_demo_turn 5, gen_demo_turn 3] gen_demo_state =
       Returned (GenStopped, s') \<and> gs_queue s' = [0] \<and> bp_inv (mset (gs_queue s')) (gs_pool s')"
proof -
  have start: "bp_inv (mset ([] @ gs_queue gen_demo_state)) (gs_pool gen_demo_state)"
    using bp_inv_new [of 2 0] by (simp add: gen_demo_state_def)
  have "\<exists>s'. gen_worker_Run bp_Acquire bp_Release gen_demo_env [gen_demo_turn 5, gen_demo_turn 3] gen_demo_state =
       Returned (GenStopped, s') \<and> gs_queue s' = [0]"
    by (simp add: gen_turn_run_def gen_filled_def give_back_def gen_demo_env_def gen_demo_turn_def gen_demo_state_def
        NewBlockPool_def bp_Acquire_def bp_Release_def bp_retire_def upt_conv_Cons Let_def)
  with gen_worker_conserves [OF start] show ?thesis by fastforce
qed

section \<open>Worker and filler together\<close>

text \<open>A turn whose filler is the logs filler, at some time, on some state of the random source.\<close>

definition fills_logs :: "'g go_rng \<Rightarrow> profile \<Rightarrow> int \<Rightarrow> genLogs gen_turn \<Rightarrow> bool" where
  "fills_logs r p n t \<longleftrightarrow>
     (\<exists>now cancelled g. tn_fill t =
        (\<lambda>c. case fst (run_state (logs_Fill r p now cancelled (nat n) c) g) of (k, c) \<Rightarrow> (c, int k)))"

lemma fills_logs_rows:
  assumes "go_rng_ok r" and "profile_ok p" and "fills_logs r p n t" and "0 \<le> n"
    and "tn_fill t (genLogs_Reset c0) = (c, k)" and "n \<le> k"
  shows "int (genLogs_Rows c) = n \<and>
    (\<exists>now. \<forall>i < nat n. \<exists>row. genLogs_ReadLogRow c i = Some row \<and> log_row_ok r p (now + int i) row)"
proof -
  obtain now cancelled g where f: "tn_fill t =
      (\<lambda>c. case fst (run_state (logs_Fill r p now cancelled (nat n) c) g) of (k, c) \<Rightarrow> (c, int k))"
    using assms(3) by (auto simp: fills_logs_def)
  obtain k' where x: "fst (run_state (logs_Fill r p now cancelled (nat n) (genLogs_Reset c0)) g) = (k', c)" "k = int k'"
    using assms(5) by (auto simp: f split: prod.splits)
  have "genLogs_Rows c = k' \<and> k' \<le> nat n \<and>
      (\<forall>i < k'. \<exists>row. genLogs_ReadLogRow c i = Some row \<and> log_row_ok r p (now + int i) row)"
    using pred_state_run_state [OF logs_fill_rows [OF assms(1,2), where n = "nat n" and now = now
        and cancelled = cancelled and ?c0.0 = c0], where s = g] by (simp add: x)
  moreover have "k' = nat n" using calculation x(2) assms(4,6) by linarith
  ultimately show ?thesis using assms(4) by auto
qed

text \<open>
  C2. A logs run end to end: with the logs filler, every block the worker queues has exactly the
  configured number of rows, and each of them can be read by the sink and is a log record of the
  profile at its time.
\<close>

theorem gen_logs_delivered:
  assumes "go_rng_ok r" and "profile_ok p" and "ev_reset E = genLogs_Reset" and "0 \<le> ev_rowsPerBlock E"
    and "list_all (fills_logs r p (ev_rowsPerBlock E)) ts"
    and "bp_inv (mset (H @ gs_queue s)) (gs_pool s)"
    and "gen_worker_Run bp_Acquire bp_Release E ts s = Returned (e, s')"
  shows "\<exists>sent. gs_queue s' = gs_queue s @ sent \<and>
    (\<forall>b \<in> set sent. int (genLogs_Rows (gs_data s' b)) = ev_rowsPerBlock E \<and>
      (\<exists>now. \<forall>i < nat (ev_rowsPerBlock E).
        \<exists>row. genLogs_ReadLogRow (gs_data s' b) i = Some row \<and> log_row_ok r p (now + int i) row))"
proof -
  have "gen_delivered E ts H s s'"
    using block_pool.gen_run_ok [of H s E ts e s'] assms(6,7) by (simp add: gen_inv_def)
  then obtain sent where q: "gs_queue s' = gs_queue s @ sent"
    and b: "\<forall>b \<in> set sent. \<exists>t \<in> set ts. \<exists>c n. tn_fill t (ev_reset E c) = (gs_data s' b, n) \<and> ev_rowsPerBlock E \<le> n"
    unfolding gen_delivered_def by blast
  have "int (genLogs_Rows (gs_data s' x)) = ev_rowsPerBlock E \<and>
      (\<exists>now. \<forall>i < nat (ev_rowsPerBlock E).
        \<exists>row. genLogs_ReadLogRow (gs_data s' x) i = Some row \<and> log_row_ok r p (now + int i) row)"
    if "x \<in> set sent" for x
  proof -
    obtain t c n where t: "t \<in> set ts" "tn_fill t (genLogs_Reset c) = (gs_data s' x, n)" "ev_rowsPerBlock E \<le> n"
      using b \<open>x \<in> set sent\<close> unfolding assms(3) by blast
    have "fills_logs r p (ev_rowsPerBlock E) t" using assms(5) t(1) by (simp add: list_all_iff)
    from fills_logs_rows [OF assms(1,2) this assms(4) t(2,3)] show ?thesis .
  qed
  then show ?thesis using q by blast
qed

definition logs_demo_env :: "genLogs gen_env" where
  "logs_demo_env = \<lparr>ev_reset = genLogs_Reset, ev_kind_ok = \<lambda>_. True, ev_limited = False, ev_rowsPerBlock = 2,
     ev_passthrough = False, ev_cap = 4\<rparr>"

definition logs_demo_turn :: "genLogs gen_turn" where
  "logs_demo_turn = \<lparr>tn_done = False, tn_limit = Permitted,
     tn_fill = (\<lambda>c. case fst (run_state (logs_Fill zero_rng plain_profile 0 (\<lambda>_. False) (nat 2) c) ()) of
       (k, c) \<Rightarrow> (c, int k)), tn_cancel = False\<rparr>"

definition logs_demo_state :: "(blockPool, genLogs) gen_state" where
  "logs_demo_state = \<lparr>gs_pool = NewBlockPool 1 0, gs_data = \<lambda>_. logs_columns [], gs_queue = [],
     gs_rowsTotal = 0, gs_blocksTotal = 0\<rparr>"

theorem gen_logs_delivered_witness:
  "\<exists>s' row. gen_worker_Run bp_Acquire bp_Release logs_demo_env [logs_demo_turn] logs_demo_state =
       Returned (GenGoesOn, s') \<and> gs_queue s' = [0] \<and> genLogs_Rows (gs_data s' 0) = 2 \<and>
     genLogs_ReadLogRow (gs_data s' 0) 1 = Some row"
proof -
  have start: "bp_inv (mset ([] @ gs_queue logs_demo_state)) (gs_pool logs_demo_state)"
    using bp_inv_new [of 1 0] by (simp add: logs_demo_state_def)
  have env: "ev_reset logs_demo_env = genLogs_Reset" "0 \<le> ev_rowsPerBlock logs_demo_env"
    "list_all (fills_logs zero_rng plain_profile (ev_rowsPerBlock logs_demo_env)) [logs_demo_turn]"
    by (auto simp: logs_demo_env_def logs_demo_turn_def fills_logs_def)
  obtain c k where f: "tn_fill logs_demo_turn (genLogs_Reset (logs_columns [])) = (c, k)" by fastforce
  have "k = 2"
    using f pred_state_run_state [OF logs_fill_rows [OF zero_rng_ok plain_profile_ok, where n = 2 and now = 0
        and cancelled = "\<lambda>_. False" and ?c0.0 = "logs_columns []"], where s = "()"]
    by (auto simp: logs_demo_turn_def split: prod.splits)
  with f have run: "\<exists>s'. gen_worker_Run bp_Acquire bp_Release logs_demo_env [logs_demo_turn] logs_demo_state =
       Returned (GenGoesOn, s') \<and> gs_queue s' = [0]"
    by (simp add: gen_turn_run_def gen_filled_def give_back_def logs_demo_env_def logs_demo_state_def
        NewBlockPool_def bp_Acquire_def Let_def) (simp add: logs_demo_turn_def)
  then obtain s' where s': "gen_worker_Run bp_Acquire bp_Release logs_demo_env [logs_demo_turn] logs_demo_state =
       Returned (GenGoesOn, s')" "gs_queue s' = [0]" by blast
  from gen_logs_delivered [OF zero_rng_ok plain_profile_ok env start s'(1)]
  have "int (genLogs_Rows (gs_data s' 0)) = 2 \<and>
      (\<exists>now. \<forall>i < nat 2. \<exists>row. genLogs_ReadLogRow (gs_data s' 0) i = Some row \<and>
        log_row_ok zero_rng plain_profile (now + int i) row)"
    using s'(2) by (simp add: logs_demo_state_def logs_demo_env_def)
  then obtain now where r: "int (genLogs_Rows (gs_data s' 0)) = 2"
    "\<forall>i < nat 2. \<exists>row. genLogs_ReadLogRow (gs_data s' 0) i = Some row \<and>
        log_row_ok zero_rng plain_profile (now + int i) row" by blast
  have "genLogs_Rows (gs_data s' 0) = 2" "\<exists>row. genLogs_ReadLogRow (gs_data s' 0) 1 = Some row"
    using r(1) spec [OF r(2), of 1] by auto
  with s' show ?thesis by blast
qed

section \<open>Scheduler: lemmas\<close>

text \<open>Workers draw from different sources, and a block never exceeds the burst of the limiter.\<close>

lemma seeds_distinct:
  assumes "i < 18446744073709551616" and "j < 18446744073709551616" and "i \<noteq> j"
  shows "rng_seed seed i \<noteq> rng_seed seed j"
  using assms by (simp add: rng_seed_def of_nat_u64_inject)

lemma limiter_burst: "gen_limiter c = Some (rate, burst) \<Longrightarrow> 0 < rate \<and> burst = gc_RowsPerBlock c"
  by (auto simp: gen_limiter_def split: if_splits)

lemma gen_Scheduler_ok:
  assumes "RegisterProfile (if gc_Profile c = '''' then DefaultProfile else gc_Profile c) p reg0 = Some reg" and "open_ok p"
    and "dataType \<in> {''logs'', ''traces'', ''profiles''}"
  shows "\<exists>f. gen_Scheduler reg c dataType = Inr (f, gen_limiter c, [0..<nat (gc_Threads c)])"
proof -
  obtain q where "GetProfile reg (if gc_Profile c = '''' then DefaultProfile else gc_Profile c) = Inr q"
    using RegisterProfile_get [OF assms(1,2)] by blast
  then show ?thesis using assms(3) unfolding gen_Scheduler_def Let_def by auto
qed

end
