(* ===== verification/OtelDemo.thy ===== *)
theory OtelDemo
  imports GenWorker
begin

text \<open>
  The profile the program ships (\<open>profile_otel_demo.go\<close>), the builder methods it is written with
  (\<open>generator.go\<close>, \<open>profile.go\<close>), and what the default configuration gets from it. The
  decimal constants are exact here; that Go rounds them to float64 is not modelled.
\<close>

section \<open>Constructors and builder\<close>

definition RandStr :: "nat \<Rightarrow> gen" where "RandStr n = RandStrGen '''' n"
definition Hex :: "nat \<Rightarrow> gen" where "Hex n = HexGen '''' n"
definition UUID :: gen where "UUID = UUIDGen"
definition IP :: gen where "IP = IPGen IpFmtDotted"
definition Int_gen :: "int \<Rightarrow> int \<Rightarrow> gen" where "Int_gen lo hi = IntGen '''' lo hi"
definition Float :: "rat \<Rightarrow> gen" where "Float mx = FloatGen '''' mx 2"
definition Bool :: "rat \<Rightarrow> gen" where "Bool trueProb = BoolGen trueProb"

text \<open>The methods of the pointer types; each type without the method is left as it is.\<close>

fun Prefix :: "string \<Rightarrow> gen \<Rightarrow> gen" where
  "Prefix p (RandStrGen _ n) = RandStrGen p n"
| "Prefix p (HexGen _ n) = HexGen p n"
| "Prefix p (IntGen _ lo hi) = IntGen p lo hi"
| "Prefix p (FloatGen _ mx decimals) = FloatGen p mx decimals"
| "Prefix p g = g"

fun Precision :: "nat \<Rightarrow> gen \<Rightarrow> gen" where
  "Precision n (FloatGen p mx _) = FloatGen p mx n"
| "Precision n g = g"

fun AsU32 :: "gen \<Rightarrow> gen" where
  "AsU32 (IPGen _) = IPGen IpFmtU32"
| "AsU32 g = g"

fun AsHex :: "gen \<Rightarrow> gen" where
  "AsHex (IPGen _) = IPGen IpFmtHex"
| "AsHex g = g"

lemmas gen_builders = RandStr_def Hex_def UUID_def IP_def Int_gen_def Float_def Bool_def

definition WithServiceName :: "gen \<Rightarrow> open_profile \<Rightarrow> open_profile" where
  "WithServiceName g p = p\<lparr>pf_ServiceName := Some g\<rparr>"
definition WithScopeName :: "gen \<Rightarrow> open_profile \<Rightarrow> open_profile" where
  "WithScopeName g p = p\<lparr>pf_ScopeName := Some g\<rparr>"
definition WithScopeVersion :: "gen \<Rightarrow> open_profile \<Rightarrow> open_profile" where
  "WithScopeVersion g p = p\<lparr>pf_ScopeVersion := Some g\<rparr>"
definition WithResourceAttrs :: "mapEntry list \<Rightarrow> open_profile \<Rightarrow> open_profile" where
  "WithResourceAttrs m p = p\<lparr>pf_ResourceAttrs := Some m\<rparr>"
definition WithScopeAttrs :: "mapEntry list \<Rightarrow> open_profile \<Rightarrow> open_profile" where
  "WithScopeAttrs m p = p\<lparr>pf_ScopeAttrs := Some m\<rparr>"
definition WithSeverityText :: "gen \<Rightarrow> open_profile \<Rightarrow> open_profile" where
  "WithSeverityText g p = p\<lparr>pf_SeverityText := Some g\<rparr>"
definition WithBody :: "gen \<Rightarrow> open_profile \<Rightarrow> open_profile" where
  "WithBody g p = p\<lparr>pf_Body := Some g\<rparr>"
definition WithLogAttrs :: "mapEntry list \<Rightarrow> open_profile \<Rightarrow> open_profile" where
  "WithLogAttrs m p = p\<lparr>pf_LogAttrs := Some m\<rparr>"
definition WithSpanName :: "gen \<Rightarrow> open_profile \<Rightarrow> open_profile" where
  "WithSpanName g p = p\<lparr>pf_SpanName := Some g\<rparr>"
definition WithSpanKind :: "gen \<Rightarrow> open_profile \<Rightarrow> open_profile" where
  "WithSpanKind g p = p\<lparr>pf_SpanKind := Some g\<rparr>"
definition WithStatusCode :: "gen \<Rightarrow> open_profile \<Rightarrow> open_profile" where
  "WithStatusCode g p = p\<lparr>pf_StatusCode := Some g\<rparr>"
definition WithStatusMessage :: "gen \<Rightarrow> open_profile \<Rightarrow> open_profile" where
  "WithStatusMessage g p = p\<lparr>pf_StatusMessage := Some g\<rparr>"
definition WithSpanAttrs :: "mapEntry list \<Rightarrow> open_profile \<Rightarrow> open_profile" where
  "WithSpanAttrs m p = p\<lparr>pf_SpanAttrs := Some m\<rparr>"
definition WithSampleType :: "gen \<Rightarrow> open_profile \<Rightarrow> open_profile" where
  "WithSampleType g p = p\<lparr>pf_SampleType := Some g\<rparr>"
definition WithSampleUnit :: "gen \<Rightarrow> open_profile \<Rightarrow> open_profile" where
  "WithSampleUnit g p = p\<lparr>pf_SampleUnit := Some g\<rparr>"
definition WithPeriodType :: "gen \<Rightarrow> open_profile \<Rightarrow> open_profile" where
  "WithPeriodType g p = p\<lparr>pf_PeriodType := Some g\<rparr>"
definition WithPeriodUnit :: "gen \<Rightarrow> open_profile \<Rightarrow> open_profile" where
  "WithPeriodUnit g p = p\<lparr>pf_PeriodUnit := Some g\<rparr>"
definition WithFunctionName :: "gen \<Rightarrow> open_profile \<Rightarrow> open_profile" where
  "WithFunctionName g p = p\<lparr>pf_FunctionName := Some g\<rparr>"
definition WithFileName :: "gen \<Rightarrow> open_profile \<Rightarrow> open_profile" where
  "WithFileName g p = p\<lparr>pf_FileName := Some g\<rparr>"
definition WithMappingFileName :: "gen \<Rightarrow> open_profile \<Rightarrow> open_profile" where
  "WithMappingFileName g p = p\<lparr>pf_MappingFileName := Some g\<rparr>"
definition WithProfileAttrs :: "mapEntry list \<Rightarrow> open_profile \<Rightarrow> open_profile" where
  "WithProfileAttrs m p = p\<lparr>pf_ProfileAttrs := Some m\<rparr>"
definition WithSampleAttrs :: "mapEntry list \<Rightarrow> open_profile \<Rightarrow> open_profile" where
  "WithSampleAttrs m p = p\<lparr>pf_SampleAttrs := Some m\<rparr>"

lemmas builder_methods = WithServiceName_def WithScopeName_def WithScopeVersion_def
  WithResourceAttrs_def WithScopeAttrs_def
  WithSeverityText_def WithBody_def WithLogAttrs_def WithSpanName_def WithSpanKind_def
  WithStatusCode_def WithStatusMessage_def WithSpanAttrs_def
  WithSampleType_def WithSampleUnit_def WithPeriodType_def WithPeriodUnit_def
  WithFunctionName_def WithFileName_def WithMappingFileName_def WithProfileAttrs_def WithSampleAttrs_def

section \<open>The tables\<close>

definition otelDemo_AuthRiskLevel :: "string list" where
  "otelDemo_AuthRiskLevel =
     [''low'', ''medium'', ''high'', ''critical'']"

definition otelDemo_CloudAvailabilityZone :: "string list" where
  "otelDemo_CloudAvailabilityZone =
     [''us-east-1a'', ''us-east-1b'', ''us-east-1c'', ''us-west-2a'', ''us-west-2b'', ''us-west-2c'',
       ''eu-west-1a'', ''eu-west-1b'', ''eu-west-1c'', ''ap-southeast-1a'', ''ap-southeast-1b'']"

definition otelDemo_DbOperation :: "string list" where
  "otelDemo_DbOperation =
     [''SELECT'', ''INSERT'', ''UPDATE'', ''DELETE'', ''BEGIN'', ''COMMIT'', ''ROLLBACK'', ''UPSERT'']"

definition otelDemo_DbSystem :: "string list" where
  "otelDemo_DbSystem =
     [''postgresql'', ''mysql'', ''mongodb'', ''cockroachdb'', ''vitess'']"

definition otelDemo_HostCpuCount :: "string list" where
  "otelDemo_HostCpuCount =
     [''2'', ''4'', ''8'', ''16'', ''32'', ''64'']"

definition otelDemo_HttpRequestHeaderAcceptEncoding :: "string list" where
  "otelDemo_HttpRequestHeaderAcceptEncoding =
     [''gzip'', ''zstd'', ''lz4'', ''snappy'', ''brotli'', ''none'']"

definition otelDemo_HttpRequestHeaderXAbTest :: "string list" where
  "otelDemo_HttpRequestHeaderXAbTest =
     [''control'', ''variant_a'', ''variant_b'', ''variant_c'', ''holdout'']"

definition otelDemo_HttpRequestHeaderXFeatureFlag :: "string list" where
  "otelDemo_HttpRequestHeaderXFeatureFlag =
     [''new-checkout-flow'', ''dark-mode'', ''recommendation-v2'', ''parallel-search'', ''grpc-migration'',
       ''canary-deploy'', ''rate-limit-v2'', ''async-notifications'', ''ml-ranking'', ''edge-caching'',
       ''ab-test-pricing'', ''graphql-gateway'']"

definition otelDemo_HttpRequestMethod :: "string list" where
  "otelDemo_HttpRequestMethod =
     [''GET'', ''POST'', ''PUT'', ''DELETE'', ''PATCH'', ''HEAD'', ''OPTIONS'']"

definition otelDemo_K8sNamespaceName :: "string list" where
  "otelDemo_K8sNamespaceName =
     [''ingress'', ''identity'', ''payments'', ''catalog'', ''search'', ''fulfillment'', ''notifications'',
       ''platform'', ''analytics'', ''ml'', ''media'']"

definition otelDemo_K8sPodAnnotationsPrometheusIoScrape :: "string list" where
  "otelDemo_K8sPodAnnotationsPrometheusIoScrape =
     [''true'']"

definition otelDemo_K8sPodLabelsCanary :: "string list" where
  "otelDemo_K8sPodLabelsCanary =
     [''true'', ''false'']"

definition otelDemo_MessagingDestinationName :: "string list" where
  "otelDemo_MessagingDestinationName =
     [''order.created'', ''payment.processed'', ''user.registered'', ''inventory.updated'',
       ''notification.send'', ''search.index'', ''analytics.event'', ''shipping.update'', ''fraud.check'',
       ''email.bounce'', ''webhook.dispatch'', ''audit.log'']"

definition otelDemo_MessagingRetryCount :: "string list" where
  "otelDemo_MessagingRetryCount =
     [''0'', ''1'', ''2'', ''3'', ''5'', ''10'']"

definition otelDemo_MessagingSystem :: "string list" where
  "otelDemo_MessagingSystem =
     [''kafka'', ''rabbitmq'', ''sqs'', ''nats'', ''pulsar'', ''redpanda'']"

definition otelDemo_PeerService :: "string list" where
  "otelDemo_PeerService =
     [''user-service'', ''payment-processor'', ''search-api'', ''order-service'', ''auth-service'',
       ''inventory-service'', ''notification-router'', ''billing-service'']"

definition otelDemo_RpcMethod :: "string list" where
  "otelDemo_RpcMethod =
     [''Get'', ''Create'', ''Update'', ''Delete'', ''List'', ''Search'', ''Process'', ''Validate'',
       ''BatchGet'', ''Stream'', ''Subscribe'', ''Unsubscribe'']"

definition otelDemo_RpcService :: "string list" where
  "otelDemo_RpcService =
     [''UserService'', ''PaymentService'', ''SearchService'', ''OrderService'', ''AuthService'',
       ''ProductService'', ''RecommendationService'', ''InventoryService'', ''NotificationService'',
       ''ShippingService'', ''BillingService'', ''AnalyticsService'']"

definition otelDemo_RpcSystem :: "string list" where
  "otelDemo_RpcSystem =
     [''grpc'']"

definition otelDemo_SlaTier :: "string list" where
  "otelDemo_SlaTier =
     [''critical'', ''standard'', ''best-effort'']"

definition otelDemo_UrlScheme :: "string list" where
  "otelDemo_UrlScheme =
     [''http'', ''https'']"

definition otelDemo_ServiceName :: gen where
  "otelDemo_ServiceName =
     (Pool [''api-gateway'', ''auth-service'', ''user-service'', ''session-manager'', ''payment-processor'',
       ''payment-gateway'', ''fraud-detector'', ''product-catalog'', ''inventory-service'', ''search-api'',
       ''order-service'', ''event-bus'', ''config-service'', ''rate-limiter'', ''cache-proxy'',
       ''cart-service'', ''checkout-orchestrator'', ''token-service'', ''billing-service'',
       ''invoice-generator'', ''pricing-engine'', ''recommendation-engine'', ''search-indexer'',
       ''search-ranker'', ''shipping-calculator'', ''warehouse-manager'', ''delivery-tracker'',
       ''notification-router'', ''email-sender'', ''sms-gateway'', ''feature-flags'', ''analytics-collector'',
       ''analytics-aggregator'', ''clickstream-processor'', ''ml-model-server'', ''ml-feature-store'',
       ''cdn-origin'', ''review-service'', ''push-service'', ''image-resizer''])"

definition otelDemo_SeverityText :: gen where
  "otelDemo_SeverityText =
     (Pool [''INFO'', ''ERROR'', ''WARN'', ''DEBUG''])"

definition otelDemo_Body :: gen where
  "otelDemo_Body =
     (Pool [''HTTP request completed'', ''Database query executed'', ''Cache operation completed'',
       ''Message published to queue'', ''gRPC call completed'', ''Application lifecycle event'',
       ''Authentication event processed'', ''Error occurred during request processing'',
       ''Performance degradation detected'', ''Debug trace information'', ''Business metric recorded'',
       (''M'' @ ''L inference completed'')])"

definition otelDemo_SpanName :: gen where
  "otelDemo_SpanName =
     (AnyOf [(Pool [''GET /api/v1/users'', ''POST /api/v1/users'', ''GET /api/v1/products'',
       ''GET /api/v1/orders'', ''POST /api/v1/orders'', ''POST /api/v1/payments'', ''GET /api/v1/search'',
       ''GET /api/v1/cart'', ''POST /api/v1/checkout'', ''GET /api/v1/inventory'', ''GET /api/v2/users/{id}'',
       ''GET /api/v2/products/{id}'', ''GET /api/v2/orders/{id}'', ''POST /api/v1/auth/login'',
       ''POST /api/v1/auth/refresh'', ''POST /api/v1/auth/logout'', ''POST /api/v1/notifications/send'',
       ''GET /api/v1/recommendations'', ''GET /internal/health'', ''GET /internal/ready'',
       ''GET /internal/metrics'', ''GET /api/v1/reviews'', ''GET /api/v1/shipping/rates'',
       ''GET /api/v1/billing/invoices'', ''POST /api/v3/graphql'', ''POST /api/v1/webhooks'',
       ''POST /api/v1/uploads'', ''GET /api/v1/exports'', ''UserService/Get'', ''UserService/Create'',
       ''PaymentService/Process'', ''SearchService/Search'', ''OrderService/Create'', ''AuthService/Validate'',
       ''ProductService/Get'', ''RecommendationService/Get'', ''InventoryService/Update'',
       ''NotificationService/Send'', ''ShippingService/Get'', ''BillingService/Process'',
       ''AnalyticsService/Stream'', ''queue.publish'', ''queue.consume'']), (Prefix ''db.query'' (RandStr 8)),
       (Prefix ''cache.GET'' (RandStr 6)), (Prefix ''cache.SET'' (RandStr 6))])"

definition otelDemo_ScopeName :: gen where
  "otelDemo_ScopeName =
     (Pool [''go.opentelemetry.io/contrib/instrumentation/net/http/otelhttp'',
       ''go.opentelemetry.io/contrib/instrumentation/google.golang.org/grpc/otelgrpc'',
       ''io.opentelemetry.instrumentation.jdbc'', ''io.opentelemetry.instrumentation.spring-webmvc'',
       ''opentelemetry.instrumentation.flask'', ''opentelemetry.instrumentation.requests'',
       ''opentelemetry-instrumentation-redis'', ''opentelemetry-instrumentation-kafka'',
       ''tracing-rs/opentelemetry'', ''opentelemetry-instrumentation-psycopg2'',
       ''io.opentelemetry.instrumentation.grpc''])"

definition otelDemo_ScopeVersion :: gen where
  "otelDemo_ScopeVersion =
     (Pool [''1.9.0'', ''1.8.0'', ''1.7.0'', ''2.0.0'', ''1.6.0''])"

definition otelDemo_ResourceAttrs_1 :: "mapEntry option list" where
  "otelDemo_ResourceAttrs_1 =
     [K 1 ''cloud.provider'' (map StrArg [''aws'']),
      K 1 ''cloud.platform'' (map StrArg [''aws_ec2'']),
      K 1 ''cloud.region'' (map StrArg [''us-east-1'', ''us-west-2'', ''eu-west-1'', ''ap-southeast-1'']),
      K 1 ''cloud.availability_zone'' [GenArg (Pool otelDemo_CloudAvailabilityZone)],
      K (99/100) ''cloud.account.id'' (map StrArg [''123456789012'']),
      K (99/100) ''os.type'' (map StrArg [''linux'']),
      K (98/100) ''os.description'' (map StrArg [''Amazon Linux 2023'']),
      K (98/100) ''process.runtime.name'' (map StrArg [''go'', ''OpenJDK'', ''CPython'', ''Node.js'',
        ''rust'']),
      K (97/100) ''process.runtime.version'' (map StrArg [''1.22.0'', ''21.0.2'', ''3.12.1'', ''20.11.0'',
        ''1.75.0'']),
      K (97/100) ''process.pid'' [GenArg (Int_gen 1 65535)],
      K (96/100) ''k8s.namespace.name'' [GenArg (Pool otelDemo_K8sNamespaceName)],
      K (96/100) ''k8s.deployment.name'' (map StrArg [''api-gateway'', ''auth-service'', ''user-service'',
        ''session-manager'', ''token-service'', ''payment-processor'', ''payment-gateway'', ''fraud-detector'',
        ''billing-service'', ''invoice-generator'', ''product-catalog'', ''inventory-service'',
        ''pricing-engine'', ''recommendation-engine'', ''search-indexer'', ''search-api'', ''search-ranker'',
        ''order-service'', ''shipping-calculator'', ''warehouse-manager'', ''delivery-tracker'',
        ''notification-router'', ''email-sender'', ''sms-gateway'', ''push-service'', ''event-bus'',
        ''config-service'', ''feature-flags'', ''rate-limiter'', ''cache-proxy'', ''analytics-collector'',
        ''analytics-aggregator'', ''clickstream-processor'', ''ml-model-server'', ''ml-feature-store'',
        ''image-resizer'', ''cdn-origin'', ''review-service'', ''cart-service'', ''checkout-orchestrator'']),
      K (95/100) ''k8s.cluster.name'' (map StrArg [''prod-main'', ''prod-secondary'', ''prod-edge'']),
      K (95/100) ''k8s.pod.uid'' [GenArg UUID],
      K (94/100) ''deployment.environment'' (map StrArg [''production'']),
      K (93/100) ''deployment.id'' [GenArg (Prefix ''deploy-'' (Hex 8))],
      K (92/100) ''telemetry.sdk.name'' (map StrArg [''opentelemetry'']),
      K (91/100) ''telemetry.sdk.language'' (map StrArg [''go'', ''java'', ''python'', ''node'', ''rust'']),
      K (9/10) ''telemetry.sdk.version'' (map StrArg [''1.9.0''])]"

definition otelDemo_ResourceAttrs_2 :: "mapEntry option list" where
  "otelDemo_ResourceAttrs_2 =
     [K (89/100) ''build.commit_sha'' [GenArg (Hex 40)],
      K (88/100) ''build.branch'' (map StrArg [''main'']),
      K (87/100) ''build.number'' [GenArg (Int_gen 0 10000)],
      K (86/100) ''company.cost_center'' (map StrArg [''cc-platform'', ''cc-identity'', ''cc-payments'',
        ''cc-catalog'', ''cc-search'', ''cc-fulfillment'', ''cc-notifications'', ''cc-analytics'',
        ''cc-ml-inference'', ''cc-devtools'']),
      K (85/100) ''company.business_unit'' [GenArg (Pool otelDemo_K8sNamespaceName)],
      K (84/100) ''sla.tier'' [GenArg (Pool otelDemo_SlaTier)],
      K (82/100) ''k8s.replicaset.name'' [GenArg (Prefix ''rs-'' (Hex 10))],
      K (8/10) ''k8s.pod.labels.app'' (map StrArg [''api-gateway'', ''auth-service'', ''user-service'',
        ''payment-processor'', ''product-catalog'', ''order-service'', ''search-api'', ''cart-service'',
        ''event-bus'', ''cache-proxy'']),
      K (78/100) ''k8s.pod.labels.version'' [GenArg (Prefix ''v1.'' (RandStr 5))],
      K (76/100) ''k8s.pod.labels.team'' (map StrArg [''platform'', ''identity'', ''payments'', ''catalog'',
        ''search'', ''fulfillment'', ''notifications'', ''analytics'', ''ml-inference'', ''devtools'']),
      K (74/100) ''k8s.pod.labels.tier'' [GenArg (Pool otelDemo_SlaTier)],
      K (72/100) ''k8s.pod.labels.part_of'' [GenArg (Pool otelDemo_K8sNamespaceName)],
      K (7/10) ''k8s.node.labels.instance_type'' (map StrArg [''m5.xlarge'', ''c5.2xlarge'', ''r5.large'',
        ''t3.medium'', ''m6g.large'', ''c6g.xlarge'', ''r6g.2xlarge'', ''m5.2xlarge'', ''c5a.xlarge'',
        ''g4dn.xlarge'']),
      K (68/100) ''k8s.node.labels.topology_zone'' [GenArg (Pool otelDemo_CloudAvailabilityZone)],
      K (66/100) ''process.command_line'' [GenArg (Prefix ''/app/svc --config /etc/svc/config.yaml --port '' (RandStr 4))],
      K (64/100) ''process.executable.path'' [GenArg (Prefix ''/app/'' (RandStr 12))],
      K (62/100) ''process.owner'' (map StrArg [''appuser'']),
      K (6/10) ''host.arch'' (map StrArg [''amd64'', ''arm64'']),
      K (58/100) ''host.image.id'' [GenArg (Prefix ''ami-'' (Hex 17))],
      K (56/100) ''host.image.name'' (map StrArg [''amzn2-ami-kernel-5.10'']),
      K (54/100) ''container.image.name'' [GenArg (Prefix ''123456789012.dkr.ecr.us-east-1.amazonaws.com/'' (RandStr 14))],
      K (52/100) ''container.image.tag'' [GenArg (Prefix ''v1.'' (Hex 10))],
      K (5/10) ''container.image.digest'' [GenArg (Prefix ''sha256:'' (Hex 64))],
      K (48/100) ''container.runtime'' (map StrArg [''containerd'', ''docker'', ''cri-o'']),
      K (46/100) ''k8s.pod.annotations.prometheus_io_scrape'' [GenArg (Pool otelDemo_K8sPodAnnotationsPrometheusIoScrape)],
      K (44/100) ''k8s.pod.annotations.prometheus_io_port'' [GenArg (Int_gen 9090 9099)],
      K (42/100) ''k8s.pod.annotations.sidecar_istio_io_inject'' [GenArg (Pool otelDemo_K8sPodAnnotationsPrometheusIoScrape)],
      K (4/10) ''k8s.container.name'' (map StrArg [''api-gateway'', ''auth-service'', ''user-service'',
        ''payment-processor'', ''product-catalog'', ''order-service'', ''search-api'', ''cart-service'',
        ''event-bus'', ''cache-proxy'', ''ml-model-server'', ''notification-router'']),
      K (38/100) ''k8s.container.image.id'' [GenArg (Prefix ''sha256:'' (Hex 64))],
      K (36/100) ''cloud.resource_id'' [GenArg (Prefix ''arn:aws:ec2:us-east-1:123456789012:instance/i-'' (Hex 17))],
      K (34/100) ''cloud.organization.id'' (map StrArg [''org-abc123'']),
      K (32/100) ''process.runtime.description'' (map StrArg [''go 1.22.0 on linux/arm64'',
        ''OpenJDK 21.0.2 on linux/arm64'', ''CPython 3.12.1 on linux/arm64'',
        ''Node.js 20.11.0 on linux/arm64'', ''rust 1.75.0 on linux/arm64'']),
      K (3/10) ''host.cpu.model.name'' (map StrArg [''AWS Graviton3'', ''Intel Xeon Platinum 8375C'',
        ''AMD EPYC 7R13'', ''AWS Graviton2'']),
      K (28/100) ''host.cpu.count'' [GenArg (Pool otelDemo_HostCpuCount)],
      K (26/100) ''host.memory.total_bytes'' [GenArg (Int_gen 1073741824 68719476736)],
      K (24/100) ''k8s.pod.labels.managed_by'' (map StrArg [''helm'', ''argocd'', ''flux'', ''kustomize'']),
      K (22/100) ''k8s.pod.labels.chart_version'' [GenArg (RandStr 8)],
      K (2/10) ''k8s.pod.annotations.config_hash'' [GenArg (Hex 32)],
      K (18/100) ''k8s.hpa.name'' [GenArg (Prefix ''svc-hpa-'' (RandStr 8))],
      K (16/100) ''k8s.hpa.current_replicas'' (map StrArg [''2'', ''3'', ''5'', ''8'', ''10'', ''15'']),
      K (14/100) ''k8s.hpa.desired_replicas'' (map StrArg [''2'', ''3'', ''5'', ''8'', ''10'', ''20'']),
      K (12/100) ''k8s.pod.labels.canary'' [GenArg (Pool otelDemo_K8sPodLabelsCanary)],
      K (1/10) ''k8s.cronjob.name'' [GenArg (Prefix ''svc-cleanup-'' (RandStr 8))],
      K (1/10) ''cloud.vpc.id'' [GenArg (Prefix ''vpc-'' (Hex 17))],
      K (1/10) ''cloud.subnet.id'' [GenArg (Prefix ''subnet-'' (Hex 17))],
      K (9/100) ''cloud.security_group.id'' [GenArg (Prefix ''sg-'' (Hex 17))],
      K (8/100) ''k8s.pod.annotations.vault_hashicorp_com_agent_inject'' [GenArg (Pool otelDemo_K8sPodAnnotationsPrometheusIoScrape)],
      K (7/100) ''k8s.pod.annotations.vault_hashicorp_com_role'' [GenArg (Prefix ''svc-'' (RandStr 12))],
      K (6/100) ''k8s.service_account.name'' [GenArg (Prefix ''svc-sa-'' (RandStr 10))],
      K (5/100) ''k8s.pod.labels.cost_allocation_tag'' (map StrArg [''platform/ingress'',
        ''identity/identity'', ''payments/payments'', ''catalog/catalog'', ''fulfillment/fulfillment'',
        ''search/search'', ''ml-inference/ml'', ''analytics/analytics'']),
      K (5/100) ''container.memory.limit_bytes'' [GenArg (Int_gen 268435456 4294967296)],
      K (5/100) ''container.cpu.limit_millicores'' (map StrArg [''250'', ''500'', ''1000'', ''2000'',
        ''4000'']),
      K (4/100) ''k8s.pod.labels.pdb_min_available'' (map StrArg [''1'', ''2'', ''50%'']),
      K (4/100) ''k8s.node.labels.spot_instance'' [GenArg (Pool otelDemo_K8sPodLabelsCanary)],
      K (3/100) ''k8s.pod.annotations.linkerd_io_inject'' (map StrArg [''enabled'']),
      K (3/100) ''cloud.placement_group'' [GenArg (Prefix ''pg-'' (Hex 8))],
      K (2/100) ''k8s.pod.labels.topology_spread_max_skew'' (map StrArg [''1'']),
      K (2/100) ''k8s.pod.labels.priority_class'' (map StrArg [''system-critical'', ''high-priority'',
        ''default'', ''low-priority'']),
      K (2/100) ''host.ebs.volume_id'' [GenArg (Prefix ''vol-'' (Hex 17))],
      K (1/100) ''k8s.pod.annotations.backup_schedule'' (map StrArg [''0 2 * * *''])]"

definition otelDemo_ResourceAttrs_3 :: "mapEntry option list" where
  "otelDemo_ResourceAttrs_3 =
     [K (1/100) ''k8s.pod.labels.gpu_type'' (map StrArg [''nvidia-t4'', ''nvidia-a10g'', ''nvidia-a100'', ''none'']),
      K (8/1000) ''k8s.pod.annotations.chaos_mesh_inject'' [GenArg (Pool otelDemo_K8sPodAnnotationsPrometheusIoScrape)],
      K (5/1000) ''cloud.dedicated_host_id'' [GenArg (Prefix ''h-'' (Hex 17))],
      K (3/1000) ''k8s.pod.labels.feature_gate_experimental'' [GenArg (Pool otelDemo_K8sPodAnnotationsPrometheusIoScrape)],
      K (2/1000) ''host.maintenance_window'' (map StrArg [''sun:02:00-sun:06:00'']),
      K (1/1000) ''cloud.capacity_reservation_id'' [GenArg (Prefix ''cr-'' (Hex 17))],
      KP (2/10) ''resource.custom.'' 6 [GenArg (RandStr 20)],
      KP (15/100) ''resource.label.'' 5 [GenArg (RandStr 14)],
      KP (1/10) ''k8s.pod.annotations.custom.'' 6 [GenArg (Hex 16)]]"

definition otelDemo_LogAttrs_1 :: "mapEntry option list" where
  "otelDemo_LogAttrs_1 =
     [K (99/100) ''http.request.method'' [GenArg (Pool otelDemo_HttpRequestMethod)],
      K (98/100) ''http.route'' (map StrArg [''/api/v1/users'', ''/api/v1/products'', ''/api/v1/orders'',
        ''/api/v1/payments'', ''/api/v1/search'', ''/api/v1/cart'', ''/api/v1/checkout'',
        ''/api/v1/inventory'', ''/api/v2/users/{id}'', ''/api/v2/products/{id}'', ''/api/v2/orders/{id}'',
        ''/api/v1/auth/login'', ''/api/v1/auth/refresh'', ''/api/v1/auth/logout'',
        ''/api/v1/notifications/send'', ''/api/v1/recommendations'', ''/internal/health'', ''/internal/ready'',
        ''/internal/metrics'', ''/api/v1/reviews'', ''/api/v1/shipping/rates'', ''/api/v1/billing/invoices'',
        ''/api/v3/graphql'', ''/api/v1/webhooks'', ''/api/v1/uploads'', ''/api/v1/exports'']),
      K (97/100) ''http.response.status_code'' (map StrArg [''200'', ''201'', ''204'', ''301'', ''304'',
        ''400'', ''401'', ''403'', ''404'', ''409'', ''422'', ''429'', ''500'', ''502'', ''503'', ''504'']),
      K (95/100) ''request.id'' [GenArg UUID],
      K (95/100) ''http.request.duration_ms'' [GenArg (Float 5000)],
      K (92/100) ''url.scheme'' [GenArg (Pool otelDemo_UrlScheme)],
      K (9/10) ''network.protocol.version'' (map StrArg [''1.1'', ''2.0'', ''3.0'']),
      K (88/100) ''http.response.body.size'' [GenArg (Int_gen 64 524288)],
      K (85/100) ''http.request.body.size'' [GenArg (Int_gen 0 65536)],
      K (82/100) ''client.address'' [GenArg IP],
      K (8/10) ''client.port'' [GenArg (Int_gen 1024 65535)],
      K (78/100) ''server.address'' (map StrArg [''api.example.com'', ''svc.example.com'',
        ''internal.example.com'', ''edge.example.com'']),
      K (75/100) ''server.port'' (map StrArg [''80'', ''443'', ''8080'', ''8443'', ''3000'']),
      K (72/100) ''user_agent.original'' (map StrArg [''Mozilla/5.0 (iPhone; CPU iPhone OS 17_0 like Mac OS X)'',
        ''Mozilla/5.0 (Windows NT 10.0; Win64; x64) AppleWebKit/537.36'',
        ''Mozilla/5.0 (Macintosh; Intel Mac OS X 10_15_7)'', ''okhttp/4.12.0'', ''python-requests/2.31.0'',
        ''Go-http-client/2.0'', ''grpc-java/1.60.0'', ''axios/1.6.2'', ''curl/8.4.0'',
        ''Apache-HttpClient/4.5.14'', ''Dart/3.2 (dart:io)'', ''ReactNative/0.73'']),
      K (7/10) ''http.request.header.x_request_id'' [GenArg UUID],
      K (68/100) ''session.id'' [GenArg UUID],
      K (65/100) ''user.id'' [GenArg (Prefix ''usr_'' (Int_gen 100000 999999))],
      K (6/10) ''http.request.header.x_forwarded_for'' [GenArg IP],
      K (55/100) ''http.request.header.content_type'' (map StrArg [''application/json'', ''application/xml'',
        ''application/protobuf'', ''text/html'', ''multipart/form-data'', ''application/octet-stream'',
        ''text/plain'', ''application/grpc'']),
      K (52/100) ''http.response.header.content_type'' (map StrArg [''application/json'', ''application/xml'',
        ''application/protobuf'', ''text/html'', ''application/octet-stream'', ''text/plain'']),
      K (5/10) ''http.request.header.x_correlation_id'' [GenArg UUID],
      K (48/100) ''net.host.name'' (map StrArg [''gateway-01'', ''gateway-02'', ''gateway-03'', ''gateway-04'',
        ''gateway-05'']),
      K (45/100) ''http.request.header.content_length'' [GenArg (Int_gen 0 1048576)],
      K (42/100) ''http.flavor'' (map StrArg [''1.0'', ''1.1'', ''2'', ''3'']),
      K (4/10) ''http.request.header.x_trace_id'' [GenArg (Hex 32)],
      K (38/100) ''http.request.header.x_span_id'' [GenArg (Hex 16)],
      K (36/100) ''http.request.header.accept'' (map StrArg [''application/json'', ''*/*'', ''text/html'',
        ''application/xml'']),
      K (35/100) ''http.request.header.accept_encoding'' [GenArg (Pool otelDemo_HttpRequestHeaderAcceptEncoding)],
      K (33/100) ''http.request.header.accept_language'' (map StrArg [''en-US'', ''en-GB'', ''de-DE'',
        ''fr-FR'', ''ja-JP'', ''es-ES'', ''pt-BR'']),
      K (32/100) ''tls.version'' (map StrArg [''TLSv1.2'', ''TLSv1.3'']),
      K (3/10) ''tls.cipher'' (map StrArg [''TLS_AES_256_GCM_SHA384'', ''TLS_CHACHA20_POLY1305_SHA256'',
        ''TLS_AES_128_GCM_SHA256'', ''ECDHE-RSA-AES128-GCM-SHA256'']),
      K (28/100) ''http.request.header.x_amzn_trace_id'' [GenArg (Prefix ''Root=1-'' (Hex 32))],
      K (25/100) ''http.request.header.authorization_type'' (map StrArg [''Bearer'', ''Basic'', ''ApiKey'',
        ''Digest''])]"

definition otelDemo_LogAttrs_2 :: "mapEntry option list" where
  "otelDemo_LogAttrs_2 =
     [K (22/100) ''http.retry_count'' [GenArg (Int_gen 0 5)],
      K (2/10) ''http.request.tls_established'' [GenArg (Bool (95/100))],
      K (18/100) ''http.request.header.x_real_ip'' [GenArg IP],
      K (16/100) ''http.request.header.x_forwarded_proto'' [GenArg (Pool otelDemo_UrlScheme)],
      K (15/100) ''http.request.header.x_ratelimit_limit'' [GenArg (Int_gen 100 10000)],
      K (15/100) ''http.request.header.x_ratelimit_remaining'' [GenArg (Int_gen 0 10000)],
      K (14/100) ''http.request.header.x_ratelimit_reset'' [GenArg (Int_gen 1000000000 2000000000)],
      K (13/100) ''http.server.request.processing_ms'' [GenArg (Float 100)],
      K (12/100) ''http.server.request.queue_time_ms'' [GenArg (Float 50)],
      K (12/100) ''http.connection.state'' (map StrArg [''new'', ''reused'', ''idle'', ''closing'']),
      K (1/10) ''http.connection.id'' [GenArg (Int_gen 1 100000)],
      K (8/100) ''http.request.header.x_debug_id'' [GenArg UUID],
      K (7/100) ''http.request.header.x_ab_test'' [GenArg (Pool otelDemo_HttpRequestHeaderXAbTest)],
      K (6/100) ''http.request.header.x_feature_flag'' [GenArg (Pool otelDemo_HttpRequestHeaderXFeatureFlag)],
      K (5/100) ''http.request.header.x_priority'' [GenArg (Int_gen 1 10)],
      K (5/100) ''http.response.header.x_cache'' (map StrArg [''HIT'', ''MISS'', ''BYPASS'', ''STALE'',
        ''UPDATING'', ''REVALIDATED'']),
      K (4/100) ''http.response.header.x_response_time'' [GenArg (Float 10000)],
      K (4/100) ''http.response.header.x_served_by'' [GenArg (Prefix ''node-'' (RandStr 3))],
      K (3/100) ''http.response.header.x_frame_options'' (map StrArg [''DENY'', ''SAMEORIGIN'']),
      K (3/100) ''http.response.header.x_content_type_options'' (map StrArg [''nosniff'']),
      K (2/100) ''http.request.header.x_idempotency_key'' [GenArg UUID],
      K (2/100) ''http.request.header.x_client_version'' [GenArg (RandStr 7)],
      K (1/100) ''http.request.is_synthetic'' [GenArg (Bool 1)],
      K (1/100) ''http.request.header.x_canary'' [GenArg (Pool otelDemo_K8sPodLabelsCanary)],
      K (8/1000) ''http.request.header.x_shadow_traffic'' [GenArg (Prefix ''shadow-'' (Hex 8))],
      K (5/1000) ''http.request.header.x_load_test'' [GenArg (Bool 1)],
      K (99/100) ''db.system'' [GenArg (Pool otelDemo_DbSystem)],
      K (98/100) ''db.operation'' [GenArg (Pool otelDemo_DbOperation)],
      K (97/100) ''db.sql.table'' (map StrArg [''users'', ''orders'', ''products'', ''sessions'', ''payments'',
        ''inventory'', ''audit_log'', ''notifications'', ''cart_items'', ''reviews'', ''subscriptions'',
        ''invoices'', ''shipping_addresses'', ''wishlists'', ''coupons'']),
      K (96/100) ''db.query.duration_ms'' [GenArg (Float 2000)],
      K (95/100) ''db.name'' (map StrArg [''users_db'', ''orders_db'', ''products_db'', ''payments_db'',
        ''inventory_db'', ''analytics_db'', ''sessions_db'']),
      K (85/100) ''db.statement'' (map StrArg [''SELECT * FROM users WHERE id = $1 LIMIT 100'',
        ''INSERT INTO orders (col1, col2, col3) VALUES ($1, $2, $3) RETURNING id'',
        ''UPDATE payments SET updated_at = NOW(), status = $2 WHERE id = $1'',
        ''INSERT INTO products (id, col1) VALUES ($1, $2) ON CONFLICT (id) DO UPDATE SET col1 = $2'',
        ''DELETE FROM sessions WHERE id = $1'', ''SELECT * FROM inventory WHERE id = $1 LIMIT 100'',
        ''COMMIT FROM cart_items WHERE id = $1'', ''ROLLBACK FROM payments WHERE id = $1'',
        ''BEGIN FROM orders WHERE id = $1'', ''SELECT * FROM reviews WHERE id = $1 LIMIT 100'']),
      K (82/100) ''db.rows_affected'' [GenArg (Int_gen 0 5000)],
      K (78/100) ''db.connection_pool.active'' [GenArg (Int_gen 1 100)],
      K (75/100) ''db.connection_pool.idle'' [GenArg (Int_gen 0 50)],
      K (72/100) ''db.connection_pool.max'' (map StrArg [''20'', ''50'', ''100'', ''200'']),
      K (7/10) ''db.host'' (map StrArg [''db-primary.internal'', ''db-replica-1.internal'',
        ''db-replica-2.internal'', ''db-replica-3.internal'', ''db-readonly.internal'']),
      K (68/100) ''db.port'' (map StrArg [''5432'', ''3306'', ''27017'', ''26257'', ''16002'']),
      K (65/100) ''db.user'' (map StrArg [''app_rw'', ''app_ro'', ''migration_user'', ''replication_user'',
        ''analytics_ro'']),
      K (62/100) ''thread.id'' [GenArg (Int_gen 1 500)],
      K (6/10) ''thread.name'' [GenArg (Prefix ''db-pool-'' (RandStr 2))],
      K (55/100) ''db.connection.state'' (map StrArg [''active'', ''idle'', ''waiting'', ''closing'']),
      K (5/10) ''db.connection_pool.wait_count'' [GenArg (Int_gen 0 100)],
      K (48/100) ''db.connection_pool.wait_time_ms'' [GenArg (Float 5000)],
      K (45/100) ''db.rows_returned'' [GenArg (Int_gen 0 10000)],
      K (42/100) ''db.query.plan_hash'' [GenArg (Hex 16)],
      K (4/10) ''db.transaction.isolation_level'' (map StrArg [''read_committed'', ''repeatable_read'',
        ''serializable'', ''read_uncommitted'']),
      K (38/100) ''db.query.planning_time_ms'' [GenArg (Float 50)],
      K (35/100) ''db.query.execution_time_ms'' [GenArg (Float 2000)]]"

definition otelDemo_LogAttrs_3 :: "mapEntry option list" where
  "otelDemo_LogAttrs_3 =
     [K (33/100) ''db.query.shared_blocks_hit'' [GenArg (Int_gen 0 100000)],
      K (3/10) ''db.query.shared_blocks_read'' [GenArg (Int_gen 0 10000)],
      K (25/100) ''db.query.used_index'' [GenArg (Bool (8/10))],
      K (22/100) ''db.query.index_name'' (map StrArg [''idx_users_email'', ''idx_orders_user_id'',
        ''idx_products_sku'', ''idx_payments_order_id'', ''pk_primary'', ''idx_created_at'',
        ''idx_composite_1'']),
      K (2/10) ''db.query.temp_bytes_written'' [GenArg (Int_gen 0 10485760)],
      K (18/100) ''db.replication.lag_ms'' [GenArg (Float 5000)],
      K (16/100) ''db.replication.role'' (map StrArg [''primary'', ''replica'', ''standby'']),
      K (15/100) ''db.connection_pool.checkout_count'' [GenArg (Int_gen 0 100000)],
      K (14/100) ''db.connection_pool.checkout_time_ms'' [GenArg (Float 100)],
      K (12/100) ''db.query.is_prepared'' [GenArg (Bool (7/10))],
      K (1/10) ''db.query.cache_hit'' [GenArg (Pool otelDemo_K8sPodLabelsCanary)],
      K (8/100) ''db.query.seq_scan'' [GenArg (Bool (3/10))],
      K (6/100) ''db.deadlock_count'' (map StrArg [''0'', ''1'', ''2'', ''3'']),
      K (5/100) ''db.advisory_lock_id'' [GenArg (Prefix ''lock_'' (RandStr 4))],
      K (4/100) ''db.query.parameters_count'' [GenArg (Int_gen 0 50)],
      K (3/100) ''db.query.is_slow'' [GenArg (Bool 1)],
      K (2/100) ''db.vacuum.last_run_seconds_ago'' [GenArg (Float 86400)],
      K (2/100) ''db.table.estimated_rows'' [GenArg (Int_gen 1000 100000000)],
      K (1/100) ''db.table.bloat_ratio'' [GenArg (Float 2)],
      K (8/1000) ''db.failover_in_progress'' [GenArg (Bool 1)],
      K (5/1000) ''db.migration.version'' [GenArg (Prefix ''2024'' (RandStr 10))],
      K (99/100) ''cache.system'' (map StrArg [''redis'', ''memcached'', ''hazelcast'', ''aerospike'']),
      K (98/100) ''cache.operation'' (map StrArg [''GET'', ''SET'', ''DEL'', ''MGET'', ''MSET'', ''EXPIRE'',
        ''INCR'', ''DECR'', ''HGET'', ''HSET'', ''LPUSH'', ''RPOP'', ''SADD'', ''ZADD'', ''SCAN'']),
      K (95/100) ''cache.hit'' [GenArg (Bool (7/10))],
      K (93/100) ''cache.latency_ms'' [GenArg (Float 50)],
      K (9/10) ''cache.key_prefix'' (map StrArg [''user:profile:'', ''product:detail:'', ''session:'',
        ''cart:'', ''inventory:'', ''search:results:'', ''config:'', ''feature:flag:'', ''rate:limit:'',
        ''geo:location:'', ''price:cache:'', ''token:blacklist:'']),
      K (82/100) ''cache.value_size_bytes'' [GenArg (Int_gen 1 1048576)],
      K (78/100) ''cache.ttl_seconds'' [GenArg (Int_gen 1 604800)],
      K (75/100) ''cache.cluster'' (map StrArg [''cache-main'', ''cache-session'', ''cache-hot'',
        ''cache-ephemeral'', ''cache-persistent'']),
      K (72/100) ''cache.node'' [GenArg (Prefix ''redis-'' (RandStr 4))],
      K (68/100) ''cache.db_index'' (map StrArg [''0'', ''1'', ''2'', ''3'', ''5'', ''10'', ''15'']),
      K (65/100) ''cache.connection_pool.size'' [GenArg (Int_gen 5 200)],
      K (62/100) ''cache.connection_pool.active'' [GenArg (Int_gen 1 200)],
      K (55/100) ''cache.serialization_format'' (map StrArg [''json'', ''msgpack'', ''protobuf'', ''gob'',
        ''raw'']),
      K (5/10) ''cache.pipeline_depth'' [GenArg (Int_gen 1 100)],
      K (48/100) ''cache.memory_usage_percent'' [GenArg (Float 100)],
      K (45/100) ''cache.key_hash'' [GenArg (Hex 16)],
      K (42/100) ''cache.key_length'' [GenArg (Int_gen 5 256)],
      K (4/10) ''cache.compressed'' [GenArg (Bool (3/10))],
      K (38/100) ''cache.eviction_policy'' (map StrArg [''lru'', ''lfu'', ''random'', ''ttl'',
        ''volatile-lru'', ''allkeys-lru'']),
      K (35/100) ''cache.slot'' [GenArg (Int_gen 0 16383)],
      K (25/100) ''cache.network.bytes_sent'' [GenArg (Int_gen 0 1048576)],
      K (22/100) ''cache.network.bytes_received'' [GenArg (Int_gen 0 1048576)],
      K (2/10) ''cache.cpu_time_us'' [GenArg (Float 10000)],
      K (18/100) ''cache.keyspace.hits'' [GenArg (Int_gen 0 1000000)],
      K (16/100) ''cache.keyspace.misses'' [GenArg (Int_gen 0 500000)],
      K (14/100) ''cache.fragmentation_ratio'' [GenArg (Float 3)],
      K (12/100) ''cache.connected_clients'' [GenArg (Int_gen 1 500)],
      K (1/10) ''cache.is_cluster_mode'' [GenArg (Bool (5/10))],
      K (7/100) ''cache.replication.offset'' [GenArg (Int_gen 0 1000000000)],
      K (5/100) ''cache.aof_enabled'' [GenArg (Bool (6/10))],
      K (4/100) ''cache.rdb_last_save_seconds_ago'' [GenArg (Float 86400)],
      K (3/100) ''cache.pubsub.channels'' [GenArg (Int_gen 0 100)],
      K (2/100) ''cache.readonly_replica'' [GenArg (Bool (3/10))],
      K (1/100) ''cache.slowlog_entry_ms'' [GenArg (Float 100)],
      K (8/1000) ''cache.maxmemory_reached'' [GenArg (Bool 1)],
      K (5/1000) ''cache.sentinel.master_name'' [GenArg (Prefix ''mymaster-'' (RandStr 1))],
      K (99/100) ''messaging.system'' [GenArg (Pool otelDemo_MessagingSystem)],
      K (98/100) ''messaging.operation'' (map StrArg [''publish'', ''receive'', ''process'', ''ack'', ''nack'',
        ''reject'', ''dead_letter'']),
      K (97/100) ''messaging.destination.name'' [GenArg (Pool otelDemo_MessagingDestinationName)]]"

definition otelDemo_LogAttrs_4 :: "mapEntry option list" where
  "otelDemo_LogAttrs_4 =
     [K (95/100) ''messaging.message.id'' [GenArg UUID],
      K (9/10) ''messaging.message.body.size'' [GenArg (Int_gen 10 1048576)],
      K (82/100) ''messaging.kafka.partition'' [GenArg (Int_gen 0 31)],
      K (8/10) ''messaging.kafka.offset'' [GenArg (Int_gen 0 100000000)],
      K (78/100) ''messaging.kafka.consumer_group'' (map StrArg [''cg-orders'', ''cg-payments'',
        ''cg-analytics'', ''cg-search'', ''cg-notifications'', ''cg-fraud'', ''cg-shipping'']),
      K (75/100) ''messaging.processing.duration_ms'' [GenArg (Float 5000)],
      K (72/100) ''messaging.batch.size'' [GenArg (Int_gen 1 500)],
      K (68/100) ''messaging.retry_count'' [GenArg (Pool otelDemo_MessagingRetryCount)],
      K (65/100) ''messaging.correlation_id'' [GenArg UUID],
      K (55/100) ''messaging.destination.kind'' (map StrArg [''topic'', ''queue'', ''subscription'']),
      K (5/10) ''messaging.message.content_type'' (map StrArg [''application/json'', ''application/protobuf'',
        ''application/xml'', ''text/plain'', ''application/octet-stream'']),
      K (48/100) ''messaging.compression'' [GenArg (Pool otelDemo_HttpRequestHeaderAcceptEncoding)],
      K (45/100) ''messaging.kafka.consumer_lag'' [GenArg (Int_gen 0 1000000)],
      K (42/100) ''messaging.message.key'' [GenArg (Prefix ''key-'' (Hex 8))],
      K (4/10) ''messaging.message.enqueue_time_ms'' [GenArg (Float 10000)],
      K (38/100) ''messaging.kafka.acks'' (map StrArg [''0'', ''1'', ''all'']),
      K (35/100) ''messaging.destination.partition_count'' [GenArg (Int_gen 1 64)],
      K (25/100) ''messaging.kafka.replication_factor'' (map StrArg [''1'', ''2'', ''3'', ''5'']),
      K (22/100) ''messaging.delivery_latency_ms'' [GenArg (Float 30000)],
      K (2/10) ''messaging.message.header_count'' [GenArg (Int_gen 0 20)],
      K (18/100) ''messaging.protocol.version'' (map StrArg [''0.10.2'', ''2.0'', ''2.8'', ''3.0'', ''3.6'']),
      K (15/100) ''messaging.is_poison_pill'' [GenArg (Bool (1/100))],
      K (12/100) ''messaging.dlq.retry_count'' [GenArg (Int_gen 0 10)],
      K (1/10) ''messaging.consumer.state'' (map StrArg [''running'', ''paused'', ''rebalancing'',
        ''stopped'']),
      K (7/100) ''messaging.transaction.active'' [GenArg (Bool (1/10))],
      K (5/100) ''messaging.transaction.id'' [GenArg UUID],
      K (4/100) ''messaging.consumer.rebalance_time_ms'' [GenArg (Float 30000)],
      K (3/100) ''messaging.schema_registry.schema_id'' [GenArg (Int_gen 1 10000)],
      K (2/100) ''messaging.schema_registry.subject'' (map StrArg [''order-value'', ''payment-value'',
        ''user-value'', ''event-value'']),
      K (1/100) ''messaging.exactly_once_enabled'' [GenArg (Bool (5/10))],
      K (8/1000) ''messaging.broker.disk_usage_percent'' [GenArg (Float 100)],
      K (5/1000) ''messaging.unclean_leader_election'' [GenArg (Bool 1)],
      K (99/100) ''rpc.system'' [GenArg (Pool otelDemo_RpcSystem)],
      K (98/100) ''rpc.service'' [GenArg (Pool otelDemo_RpcService)],
      K (97/100) ''rpc.method'' [GenArg (Pool otelDemo_RpcMethod)],
      K (95/100) ''rpc.grpc.status_code'' (map StrArg [''0'', ''1'', ''2'', ''3'', ''4'', ''5'', ''7'', ''8'',
        ''13'', ''14'', ''16'']),
      K (93/100) ''rpc.duration_ms'' [GenArg (Float 5000)],
      K (9/10) ''rpc.grpc.request.metadata.x_request_id'' [GenArg UUID],
      K (82/100) ''rpc.message.type'' (map StrArg [''SENT'', ''RECEIVED'']),
      K (8/10) ''rpc.message.compressed_size'' [GenArg (Int_gen 10 1048576)],
      K (78/100) ''rpc.message.uncompressed_size'' [GenArg (Int_gen 100 2097152)],
      K (75/100) ''peer.service'' [GenArg (Pool otelDemo_PeerService)],
      K (72/100) ''net.peer.name'' (map StrArg [''user-svc.internal'', ''payment-svc.internal'',
        ''search-svc.internal'', ''order-svc.internal'', ''auth-svc.internal'', ''inventory-svc.internal'']),
      K (7/10) ''net.peer.port'' [GenArg (Int_gen 8081 50051)],
      K (68/100) ''rpc.grpc.request.metadata.content_type'' (map StrArg [''application/grpc'',
        ''application/grpc+proto'']),
      K (55/100) ''rpc.grpc.request.metadata.x_b3_traceid'' [GenArg (Hex 32)],
      K (52/100) ''rpc.grpc.request.metadata.x_b3_spanid'' [GenArg (Hex 16)],
      K (5/10) ''rpc.grpc.request.metadata.x_b3_sampled'' (map StrArg [''0'', ''1'']),
      K (48/100) ''rpc.grpc.compression'' [GenArg (Pool otelDemo_HttpRequestHeaderAcceptEncoding)],
      K (45/100) ''rpc.grpc.request.metadata.deadline_ms'' [GenArg (Float 30000)],
      K (42/100) ''rpc.message.id'' [GenArg (Int_gen 1 10000)],
      K (4/10) ''rpc.grpc.request.metadata.authority'' (map StrArg [''user.internal:443'',
        ''payment.internal:443'', ''search.internal:443'', ''order.internal:443'', ''auth.internal:443'']),
      K (38/100) ''rpc.message.sequence_no'' [GenArg (Int_gen 1 1000)],
      K (25/100) ''rpc.grpc.is_streaming'' [GenArg (Bool (2/10))],
      K (22/100) ''rpc.grpc.request.metadata.max_recv_message_size'' [GenArg (Int_gen 1048576 67108864)],
      K (2/10) ''rpc.grpc.request.metadata.max_send_message_size'' [GenArg (Int_gen 1048576 67108864)],
      K (18/100) ''rpc.grpc.keepalive_time_ms'' [GenArg (Float 60000)],
      K (15/100) ''rpc.grpc.concurrent_streams'' [GenArg (Int_gen 1 250)],
      K (12/100) ''rpc.grpc.load_balancing_policy'' (map StrArg [''round_robin'', ''pick_first'', ''grpclb'',
        ''xds'']),
      K (1/10) ''rpc.grpc.retry_enabled'' [GenArg (Bool (8/10))]]"

definition otelDemo_LogAttrs_5 :: "mapEntry option list" where
  "otelDemo_LogAttrs_5 =
     [K (7/100) ''rpc.grpc.retry_count'' (map StrArg [''0'', ''1'', ''2'', ''3'', ''5'']),
      K (5/100) ''rpc.grpc.request.metadata.x_envoy_attempt_count'' (map StrArg [''1'', ''2'', ''3'', ''4'',
        ''5'']),
      K (4/100) ''rpc.grpc.backoff_ms'' [GenArg (Float 5000)],
      K (3/100) ''rpc.grpc.service_config_source'' (map StrArg [''dns'', ''xds'', ''static'', ''file'']),
      K (2/100) ''rpc.grpc.is_hedged'' [GenArg (Bool (1/10))],
      K (1/100) ''rpc.grpc.xds.cluster'' [GenArg (Prefix ''xds_cluster_'' (Hex 4))],
      K (5/1000) ''rpc.grpc.reflection_used'' [GenArg (Bool 1)],
      K (99/100) ''lifecycle.event'' (map StrArg [''startup'', ''ready'', ''health_check'', ''config_reload'',
        ''graceful_shutdown'', ''liveness_probe'', ''readiness_probe'', ''startup_probe'', ''pre_stop_hook'',
        ''post_start_hook'']),
      K (95/100) ''lifecycle.uptime_seconds'' [GenArg (Int_gen 0 2592000)],
      K (9/10) ''lifecycle.version'' [GenArg (Prefix ''1.'' (RandStr 5))],
      K (82/100) ''process.memory.rss_bytes'' [GenArg (Int_gen 50000000 8000000000)],
      K (8/10) ''process.cpu.utilization'' [GenArg (Float 1)],
      K (78/100) ''gc.heap_size_bytes'' [GenArg (Int_gen 100000000 4000000000)],
      K (75/100) ''gc.pause_ms'' [GenArg (Float 500)],
      K (72/100) ''system.load.1m'' [GenArg (Float 16)],
      K (7/10) ''system.load.5m'' [GenArg (Float 16)],
      K (68/100) ''system.load.15m'' [GenArg (Float 16)],
      K (65/100) ''lifecycle.config_hash'' [GenArg (Prefix ''sha256:'' (Hex 32))],
      K (55/100) ''process.memory.heap_alloc_bytes'' [GenArg (Int_gen 50000000 4000000000)],
      K (52/100) ''process.memory.heap_sys_bytes'' [GenArg (Int_gen 100000000 8000000000)],
      K (5/10) ''process.memory.stack_bytes'' [GenArg (Int_gen 1000000 100000000)],
      K (48/100) ''gc.count'' [GenArg (Int_gen 0 100000)],
      K (45/100) ''gc.total_pause_ms'' [GenArg (Float 100000)],
      K (42/100) ''process.goroutine_count'' [GenArg (Int_gen 1 10000)],
      K (4/10) ''process.thread_count'' [GenArg (Int_gen 1 500)],
      K (38/100) ''process.fd_count'' [GenArg (Int_gen 10 65535)],
      K (35/100) ''process.fd_limit'' [GenArg (Int_gen 1024 1048576)],
      K (33/100) ''system.memory.utilization'' [GenArg (Float 1)],
      K (3/10) ''system.memory.total_bytes'' [GenArg (Int_gen 1000000000 64000000000)],
      K (25/100) ''system.disk.total_bytes'' [GenArg (Int_gen 10000000000 1000000000000)],
      K (22/100) ''system.disk.utilization'' [GenArg (Float 1)],
      K (2/10) ''system.network.bytes_sent_rate'' [GenArg (Float 1000000000)],
      K (18/100) ''system.network.bytes_recv_rate'' [GenArg (Float 1000000000)],
      K (16/100) ''system.cpu.count'' [GenArg (Pool otelDemo_HostCpuCount)],
      K (14/100) ''k8s.container.restart_count'' [GenArg (Pool otelDemo_MessagingRetryCount)],
      K (12/100) ''k8s.container.status'' (map StrArg [''running'', ''waiting'', ''terminated'']),
      K (1/10) ''k8s.pod.phase'' (map StrArg [''Pending'', ''Running'', ''Succeeded'', ''Failed'']),
      K (7/100) ''process.memory.gc_goal_bytes'' [GenArg (Int_gen 100000000 8000000000)],
      K (5/100) ''gc.cpu_fraction'' [GenArg (Float (1/10))],
      K (4/100) ''process.cgroup.memory_limit_hit'' [GenArg (Bool (1/10))],
      K (3/100) ''process.cgroup.cpu_throttled_periods'' [GenArg (Int_gen 0 10000)],
      K (2/100) ''process.cgroup.cpu_throttled_time_ms'' [GenArg (Float 60000)],
      K (1/100) ''process.oom_kill_detected'' [GenArg (Bool (5/100))],
      K (8/1000) ''k8s.event'' (map StrArg [''Pulling'', ''Pulled'', ''Created'', ''Started'', ''Killing'',
        ''BackOff'', ''FailedScheduling'', ''Unhealthy'', ''SuccessfulCreate'']),
      K (5/1000) ''lifecycle.signal_received'' (map StrArg [''SIGTERM'', ''SIGINT'', ''SIGHUP'', ''SIGUSR1'']),
      K (99/100) ''auth.event'' (map StrArg [''login_success'', ''login_failure'', ''token_refresh'',
        ''token_validate'', ''logout'', ''mfa_challenge'', ''mfa_verify'', ''password_reset'',
        ''account_locked'', ''session_expired'', ''api_key_rotated'', ''permission_escalation'']),
      K (97/100) ''auth.method'' (map StrArg [''password'', ''oauth2'', ''saml'', ''api_key'', ''mfa_totp'',
        ''mfa_sms'', ''mfa_webauthn'', ''sso'', ''certificate'']),
      K (95/100) ''auth.provider'' (map StrArg [''internal'', ''google'', ''github'', ''okta'', ''azure_ad'',
        ''auth0'', ''cognito'', ''keycloak'']),
      K (82/100) ''user.roles'' (map StrArg [''admin'', ''user'', ''editor'', ''viewer'', ''service_account'',
        ''super_admin'', ''billing_admin'', ''support'']),
      K (8/10) ''auth.token.type'' (map StrArg [''access_token'', ''refresh_token'', ''id_token'', ''api_key'',
        ''service_token'']),
      K (78/100) ''auth.token.expires_in'' [GenArg (Int_gen 60 604800)],
      K (75/100) ''auth.scope'' (map StrArg [''read'', ''write'', ''admin'', ''read write'',
        ''openid profile email'', ''api.full'', ''api.read'']),
      K (72/100) ''auth.client_id'' [GenArg (Prefix ''client_'' (Int_gen 1000 9999))],
      K (7/10) ''user.email_domain'' (map StrArg [''gmail.com'', ''company.com'', ''outlook.com'',
        ''yahoo.com'', ''hotmail.com'', ''protonmail.com'', ''corporate.internal'']),
      K (68/100) ''geo.country_code'' (map StrArg [''US'', ''GB'', ''DE'', ''FR'', ''JP'', ''AU'', ''CA'',
        ''BR'', ''IN'', ''KR'', ''MX'', ''IT'', ''ES'', ''NL'', ''SE'', ''SG'']),
      K (65/100) ''geo.city'' (map StrArg [''New York'', ''London'', ''Berlin'', ''Tokyo'', ''Sydney'',
        ''Toronto'', (''S'' @ [CHR 0xC3, CHR 0xA3] @ ''o Paulo''), ''Seoul'', ''Amsterdam'', ''Singapore'',
        ''Paris'', ''Mumbai'', ''Chicago'', ''Dallas'', ''Seattle'']),
      K (6/10) ''auth.ip_reputation_score'' [GenArg (Float 1)],
      K (55/100) ''auth.session.id'' [GenArg UUID],
      K (52/100) ''auth.session.age_seconds'' [GenArg (Int_gen 0 86400)],
      K (5/10) ''auth.mfa.type'' (map StrArg [''totp'', ''sms'', ''webauthn'', ''push'', ''email'',
        ''recovery_code''])]"

definition otelDemo_LogAttrs_6 :: "mapEntry option list" where
  "otelDemo_LogAttrs_6 =
     [K (48/100) ''auth.mfa.verified'' [GenArg (Bool (95/100))],
      K (45/100) ''user.account_type'' (map StrArg [''personal'', ''business'', ''enterprise'', ''trial'',
        ''free'']),
      K (42/100) ''auth.device.fingerprint'' [GenArg (Hex 32)],
      K (4/10) ''auth.device.type'' (map StrArg [''desktop'', ''mobile'', ''tablet'', ''api_client'', ''cli'',
        ''sdk'']),
      K (38/100) ''auth.device.os'' (map StrArg [''iOS'', ''Android'', ''Windows'', ''macOS'', ''Linux'',
        ''ChromeOS'']),
      K (35/100) ''auth.device.browser'' (map StrArg [''Chrome'', ''Firefox'', ''Safari'', ''Edge'', ''Opera'',
        ''curl'', ''Postman'']),
      K (33/100) ''auth.failed_attempts'' [GenArg (Pool otelDemo_MessagingRetryCount)],
      K (3/10) ''auth.password_expired'' [GenArg (Bool (5/100))],
      K (25/100) ''auth.token.jti'' [GenArg UUID],
      K (22/100) ''auth.token.fingerprint'' [GenArg (Hex 16)],
      K (2/10) ''auth.is_impersonation'' [GenArg (Bool (2/100))],
      K (18/100) ''auth.impersonator.id'' [GenArg (Prefix ''usr_'' (Int_gen 100000 999999))],
      K (16/100) ''auth.risk_level'' [GenArg (Pool otelDemo_AuthRiskLevel)],
      K (14/100) ''auth.policy.name'' (map StrArg [''default'', ''strict'', ''mfa-required'',
        ''geo-restricted'', ''ip-whitelist'']),
      K (12/100) ''auth.consent_required'' [GenArg (Bool (3/10))],
      K (1/10) ''auth.session.is_remembered'' [GenArg (Bool (6/10))],
      K (7/100) ''auth.account_locked'' [GenArg (Bool (2/100))],
      K (5/100) ''auth.lockout_until'' [GenArg (Prefix ''2026-04-'' (RandStr 14))],
      K (4/100) ''auth.brute_force_detected'' [GenArg (Bool (1/100))],
      K (3/100) ''auth.compliance.regulation'' (map StrArg [''GDPR'', ''CCPA'', ''SOC2'', ''HIPAA'',
        ''PCI-DSS'']),
      K (2/100) ''auth.suspicious_location'' [GenArg (Bool (5/100))],
      K (1/100) ''auth.previous_country_code'' (map StrArg [''US'', ''GB'', ''DE'', ''JP'', ''BR'', ''IN'',
        ''AU'', ''CA'']),
      K (8/1000) ''auth.impossible_travel_detected'' [GenArg (Bool (1/100))],
      K (5/1000) ''auth.credential_stuffing_detected'' [GenArg (Bool (5/1000))],
      K (99/100) ''error.type'' (map StrArg [''ConnectionTimeoutError'', ''ConnectionRefusedError'',
        ''DeadlineExceededError'', ''ResourceExhaustedError'', ''PermissionDeniedError'', ''NotFoundError'',
        ''ConflictError'', ''ValidationError'', ''InternalError'', ''UnavailableError'',
        ''RateLimitExceededError'', ''CircuitBreakerOpenError'', ''RetryableError'', ''SerializationError'',
        ''AuthenticationError'', ''QuotaExceededError'']),
      K (98/100) ''error.message'' (map StrArg [''connection timed out after 30s'', ''resource not found'',
        ''permission denied for user'', ''rate limit exceeded, retry after 60s'', ''circuit breaker is open'',
        ''upstream service unavailable'', ''invalid request payload'', ''database connection pool exhausted'',
        ''deadlock detected'', ''max retries exceeded'', ''TLS handshake failed'', ''DNS resolution failed'',
        ''request body too large'', ''service mesh sidecar not ready'', ''certificate expired'']),
      K (82/100) ''error.stack_trace'' [GenArg (Prefix ''  at handle(handler.go:'' (RandStr 40))],
      K (8/10) ''error.retry_count'' [GenArg (Pool otelDemo_MessagingRetryCount)],
      K (78/100) ''error.is_retryable'' [GenArg (Bool (6/10))],
      K (75/100) ''span.kind'' (map StrArg [''server'', ''client'', ''internal'', ''producer'', ''consumer'']),
      K (72/100) ''exception.escaped'' [GenArg (Bool (3/10))],
      K (7/10) ''error.severity'' [GenArg (Pool otelDemo_AuthRiskLevel)],
      K (68/100) ''error.correlation_id'' [GenArg UUID],
      K (55/100) ''error.component'' (map StrArg [''http_handler'', ''grpc_handler'', ''db_client'',
        ''cache_client'', ''queue_consumer'', ''external_api'', ''middleware'', ''serializer'',
        ''auth_provider'']),
      K (52/100) ''error.category'' (map StrArg [''network'', ''database'', ''authentication'', ''validation'',
        ''timeout'', ''resource_exhaustion'', ''configuration'', ''dependency'']),
      K (5/10) ''error.duration_ms'' [GenArg (Float 30000)],
      K (48/100) ''error.endpoint'' (map StrArg [''/api/v1/users'', ''/api/v1/products'', ''/api/v1/orders'',
        ''/api/v1/payments'', ''/api/v1/search'', ''/api/v1/cart'', ''/api/v1/checkout'',
        ''/api/v1/auth/login'', ''/internal/health'', ''/api/v1/inventory'', ''/api/v1/recommendations'']),
      K (45/100) ''error.user_id'' [GenArg (Prefix ''usr_'' (Int_gen 100000 999999))],
      K (42/100) ''error.http_status'' (map StrArg [''400'', ''401'', ''403'', ''404'', ''409'', ''422'',
        ''429'', ''500'', ''502'', ''503'', ''504'']),
      K (4/10) ''error.grpc_code'' (map StrArg [''CANCELLED'', ''UNKNOWN'', ''INVALID_ARGUMENT'',
        ''DEADLINE_EXCEEDED'', ''NOT_FOUND'', ''ALREADY_EXISTS'', ''PERMISSION_DENIED'',
        ''RESOURCE_EXHAUSTED'', ''INTERNAL'', ''UNAVAILABLE'']),
      K (38/100) ''error.is_expected'' [GenArg (Bool (3/10))],
      K (35/100) ''error.handling'' (map StrArg [''retry'', ''fallback'', ''circuit_break'', ''dead_letter'',
        ''alert'', ''ignore'', ''escalate'']),
      K (33/100) ''error.fingerprint'' [GenArg (Hex 16)],
      K (25/100) ''error.occurrence_count'' [GenArg (Int_gen 1 10000)]]"

definition otelDemo_LogAttrs_7 :: "mapEntry option list" where
  "otelDemo_LogAttrs_7 =
     [K (22/100) ''error.first_seen'' [GenArg (Prefix ''2026-03-'' (RandStr 14))],
      K (2/10) ''error.is_new'' [GenArg (Bool (1/10))],
      K (18/100) ''error.alert.channel'' (map StrArg [''pagerduty'', ''slack'', ''opsgenie'', ''email'',
        ''teams'']),
      K (16/100) ''error.alert.priority'' (map StrArg [''P1'', ''P2'', ''P3'', ''P4'', ''P5'']),
      K (14/100) ''error.alert.runbook_url'' [GenArg (Prefix ''https://runbooks.internal/errors/'' (Hex 8))],
      K (12/100) ''error.downstream_service'' (map StrArg [''user-service'', ''payment-processor'',
        ''search-api'', ''order-service'', ''auth-service'', ''external-partner-api'']),
      K (1/10) ''error.downstream_latency_ms'' [GenArg (Float 30000)],
      K (7/100) ''error.circuit_breaker.open'' [GenArg (Bool (3/10))],
      K (5/100) ''error.circuit_breaker.failure_count'' [GenArg (Int_gen 0 100)],
      K (4/100) ''error.circuit_breaker.reset_timeout_ms'' [GenArg (Float 60000)],
      K (3/100) ''error.is_incident'' [GenArg (Bool (5/100))],
      K (2/100) ''error.incident_id'' [GenArg (Prefix ''INC-'' (Int_gen 10000 99999))],
      K (1/100) ''error.customer_facing'' [GenArg (Bool (4/10))],
      K (8/1000) ''error.data_loss_risk'' [GenArg (Bool (1/100))],
      K (5/1000) ''error.requires_manual_intervention'' [GenArg (Bool (2/100))],
      K (99/100) ''warning.type'' (map StrArg [''slow_query'', ''high_latency'', ''connection_pool_low'',
        ''memory_pressure'', ''disk_space_low'', ''queue_depth_high'', ''error_rate_elevated'',
        ''cpu_throttling'', ''gc_pressure'', ''thread_pool_exhaustion'', ''certificate_expiring'',
        ''quota_near_limit'', ''replication_lag'']),
      K (97/100) ''warning.threshold'' [GenArg (Int_gen 10 100000)],
      K (95/100) ''warning.current_value'' [GenArg (Int_gen 10 200000)],
      K (93/100) ''warning.unit'' (map StrArg [''ms'', ''percent'', ''bytes'', ''count'', ''per_second'',
        ''connections'', ''megabytes'']),
      K (82/100) ''warning.duration_seconds'' [GenArg (Int_gen 1 7200)],
      K (8/10) ''warning.affected_endpoint'' (map StrArg [''/api/v1/users'', ''/api/v1/products'',
        ''/api/v1/orders'', ''/api/v1/payments'', ''/api/v1/search'', ''/api/v1/cart'', ''/api/v1/checkout'',
        ''/internal/health'', ''/api/v1/auth/login'', ''/api/v1/inventory'', ''/api/v1/recommendations'',
        ''/api/v3/graphql'']),
      K (75/100) ''alert.severity'' (map StrArg [''p1'', ''p2'', ''p3'', ''p4'', ''p5'']),
      K (72/100) ''alert.runbook_url'' (map StrArg [''https://runbooks.internal/alerts/latency'',
        ''https://runbooks.internal/alerts/errors'', ''https://runbooks.internal/alerts/resources'',
        ''https://runbooks.internal/alerts/capacity'', ''https://runbooks.internal/alerts/security'',
        ''https://runbooks.internal/alerts/replication'', ''https://runbooks.internal/alerts/memory'',
        ''https://runbooks.internal/alerts/disk'']),
      K (7/10) ''warning.source'' (map StrArg [''self_monitor'', ''health_check'', ''metric_alert'',
        ''log_pattern'', ''anomaly_detector'']),
      K (55/100) ''warning.component'' (map StrArg [''http_server'', ''grpc_server'', ''database'', ''cache'',
        ''queue'', ''disk'', ''memory'', ''cpu'', ''network'', ''dns'', ''tls'']),
      K (52/100) ''warning.trend_direction'' [GenArg (Float 1)],
      K (5/10) ''warning.percentile'' (map StrArg [''50'', ''75'', ''90'', ''95'', ''99'']),
      K (48/100) ''warning.baseline_value'' [GenArg (Float 100000)],
      K (45/100) ''warning.deviation_factor'' [GenArg (Float 10)],
      K (42/100) ''warning.auto_remediated'' [GenArg (Bool (3/10))],
      K (4/10) ''warning.remediation_action'' (map StrArg [''scale_up'', ''restart'', ''failover'',
        ''rate_limit'', ''circuit_break'', ''none'']),
      K (38/100) ''warning.affected_service'' (map StrArg [''user-service'', ''payment-processor'',
        ''search-api'', ''order-service'', ''auth-service'', ''cache-proxy'']),
      K (35/100) ''warning.affected_instances'' [GenArg (Int_gen 1 50)],
      K (33/100) ''warning.impact_score'' [GenArg (Float 10)],
      K (25/100) ''warning.alert_group'' (map StrArg [''infrastructure'', ''application'', ''business'',
        ''security'', ''compliance'']),
      K (22/100) ''warning.consecutive_violations'' [GenArg (Int_gen 1 100)],
      K (2/10) ''warning.time_to_breach_seconds'' [GenArg (Float 3600)],
      K (18/100) ''warning.silenced'' [GenArg (Bool (15/100))],
      K (16/100) ''warning.silence_reason'' (map StrArg [''maintenance_window'', ''known_issue'',
        ''deploy_in_progress'', ''false_positive'']),
      K (14/100) ''warning.escalated'' [GenArg (Bool (2/10))],
      K (12/100) ''warning.oncall_team'' (map StrArg [''platform'', ''payments'', ''identity'',
        ''fulfillment'', ''search'', ''sre'']),
      K (1/10) ''warning.acknowledged'' [GenArg (Bool (4/10))],
      K (7/100) ''warning.related_incident'' [GenArg (Prefix ''INC-'' (Int_gen 10000 99999))],
      K (5/100) ''warning.customer_impact'' [GenArg (Bool (3/10))],
      K (4/100) ''warning.affected_customers_estimate'' [GenArg (Int_gen 0 1000000)],
      K (3/100) ''warning.slo_burn_rate'' [GenArg (Float 10)],
      K (2/100) ''warning.error_budget_remaining_percent'' [GenArg (Float 100)],
      K (1/100) ''warning.page_sent'' [GenArg (Bool (2/10))],
      K (8/1000) ''warning.page_recipient'' (map StrArg [''oncall-platform@company.com'',
        ''oncall-payments@company.com'', ''oncall-sre@company.com'', ''oncall-identity@company.com'']),
      K (5/1000) ''warning.slo_breached'' [GenArg (Bool (5/100))],
      K (99/100) ''debug.component'' (map StrArg [''http_client'', ''db_pool'', ''cache_client'',
        ''grpc_client'', ''queue_consumer'', ''scheduler'', ''middleware'', ''serializer'', ''dns_resolver'',
        ''connection_manager'', ''circuit_breaker'', ''rate_limiter'', ''config_loader'', ''health_checker'']),
      K (97/100) ''debug.operation'' (map StrArg [''serialize'', ''deserialize'', ''connect'', ''disconnect'',
        ''retry'', ''circuit_break'', ''rate_check'', ''auth_check'', ''dns_lookup'', ''tls_handshake'',
        ''pool_checkout'', ''pool_return'', ''config_read'', ''feature_eval''])]"

definition otelDemo_LogAttrs_8 :: "mapEntry option list" where
  "otelDemo_LogAttrs_8 =
     [K (95/100) ''debug.context'' (map StrArg [''connection acquired from pool'', ''request headers validated'',
  ''payload deserialized successfully'', ''middleware chain executed'', ''circuit breaker state: half-open'',
  ''retry attempt with exponential backoff'', ''feature flag evaluated'',
  ''config value resolved from environment'', ''DNS cache hit'', ''TLS session resumed'',
  ''connection keepalive sent'', ''idle connection reaped'', ''request queued for processing'',
  ''response streaming started'']),
      K (82/100) ''debug.elapsed_us'' [GenArg (Int_gen 1 1000000)],
      K (75/100) ''code.function'' (map StrArg [''handleRequest'', ''processMessage'', ''executeQuery'',
        ''fetchResource'', ''validateInput'', ''transformResponse'', ''dispatchEvent'', ''resolveConfig'',
        ''checkHealth'', ''routeRequest'', ''authenticate'', ''authorize'']),
      K (72/100) ''code.filepath'' (map StrArg [''src/handler.go'', ''src/main/java/Service.java'',
        ''src/service.py'', ''src/controller.ts'', ''internal/middleware/auth.go'', ''pkg/client/http.go'',
        ''lib/cache/redis.rb'']),
      K (7/10) ''code.lineno'' [GenArg (Int_gen 1 2000)],
      K (68/100) ''code.namespace'' (map StrArg [''com.example.service'', ''internal.handler'',
        ''pkg.middleware'', ''src.controllers'', ''lib.clients'', ''core.engine'', ''infra.adapters'']),
      K (55/100) ''debug.trace_id'' [GenArg (Hex 32)],
      K (52/100) ''debug.span_id'' [GenArg (Hex 16)],
      K (5/10) ''debug.parent_span_id'' [GenArg (Hex 16)],
      K (48/100) ''debug.sampler.type'' (map StrArg [''always_on'', ''always_off'', ''trace_id_ratio'',
        ''parent_based'', ''jaeger_remote'']),
      K (45/100) ''debug.sampler.param'' [GenArg (Float 1)],
      K (42/100) ''debug.goroutine_id'' [GenArg (Int_gen 1 100000)],
      K (4/10) ''debug.alloc_bytes'' [GenArg (Int_gen 0 104857600)],
      K (38/100) ''debug.gc_count_since_start'' [GenArg (Int_gen 0 10000)],
      K (35/100) ''debug.cpu_time_us'' [GenArg (Float 1000000)],
      K (33/100) ''debug.memory_snapshot'' [GenArg (Prefix ''heap='' (RandStr 15))],
      K (25/100) ''debug.log_level_override'' (map StrArg [''TRACE'', ''DEBUG'', ''INFO'', ''WARN'', ''ERROR'',
        ''FATAL'']),
      K (22/100) ''debug.verbose_mode'' [GenArg (Bool (1/10))],
      K (2/10) ''debug.feature_flag.name'' [GenArg (Pool otelDemo_HttpRequestHeaderXFeatureFlag)],
      K (18/100) ''debug.feature_flag.enabled'' [GenArg (Bool (7/10))],
      K (16/100) ''debug.feature_flag.variant'' [GenArg (Pool otelDemo_HttpRequestHeaderXAbTest)],
      K (14/100) ''debug.config.key'' (map StrArg [''max_connections'', ''timeout_ms'', ''retry_count'',
        ''batch_size'', ''cache_ttl'', ''rate_limit'', ''circuit_threshold'']),
      K (12/100) ''debug.config.value'' [GenArg (Int_gen 1 10000)],
      K (1/10) ''debug.config.source'' (map StrArg [''env'', ''file'', ''consul'', ''vault'', ''configmap'',
        ''ssm'']),
      K (7/100) ''debug.profiling_enabled'' [GenArg (Bool (5/100))],
      K (5/100) ''debug.pprof_url'' [GenArg (Prefix ''http://localhost:606'' (RandStr 4))],
      K (4/100) ''debug.race_detector_enabled'' [GenArg (Bool (1/100))],
      K (3/100) ''debug.build_tags'' (map StrArg [''debug'', ''trace'', ''profile'', ''integration'', ''e2e'']),
      K (2/100) ''debug.git_commit'' [GenArg (Hex 40)],
      K (1/100) ''debug.build_time'' [GenArg (Prefix ''2026-03-'' (RandStr 14))],
      K (8/1000) ''debug.dlv_attached'' [GenArg (Bool (1/100))],
      K (5/1000) ''debug.core_dump_on_crash'' [GenArg (Bool (5/10))],
      K (99/100) ''business.event'' (map StrArg [''order_placed'', ''order_completed'', ''order_cancelled'',
        ''payment_captured'', ''payment_refunded'', ''payment_failed'', ''cart_updated'', ''checkout_started'',
        ''checkout_completed'', ''subscription_created'', ''subscription_cancelled'', ''product_viewed'',
        ''product_added_to_cart'', ''coupon_applied'', ''wishlist_updated'', ''review_submitted'']),
      K (97/100) ''business.order_id'' [GenArg (Prefix ''ord_'' (Int_gen 1000000 9999999))],
      K (95/100) ''business.customer_id'' [GenArg (Prefix ''cust_'' (Int_gen 100000 999999))],
      K (93/100) ''business.amount_cents'' [GenArg (Int_gen 1 5000000)],
      K (9/10) ''business.currency'' (map StrArg [''USD'', ''EUR'', ''GBP'', ''JPY'', ''AUD'', ''CAD'',
        ''BRL'', ''KRW'', ''INR'', ''SGD'']),
      K (82/100) ''business.payment_method'' (map StrArg [''credit_card'', ''debit_card'', ''paypal'',
        ''apple_pay'', ''google_pay'', ''bank_transfer'', ''crypto'', ''klarna'', ''afterpay'']),
      K (8/10) ''business.item_count'' [GenArg (Int_gen 1 50)],
      K (78/100) ''business.category'' (map StrArg [''electronics'', ''clothing'', ''food'', ''home'',
        ''sports'', ''books'', ''toys'', ''beauty'', ''automotive'', ''garden'', ''health'', ''office'']),
      K (75/100) ''business.channel'' (map StrArg [''web'', ''mobile_app'', ''api'', ''in_store'', ''kiosk'',
        ''voice_assistant'', ''chatbot'']),
      K (72/100) ''business.shipping_method'' (map StrArg [''standard'', ''express'', ''next_day'', ''pickup'',
        ''same_day'', ''freight'']),
      K (7/10) ''business.is_first_purchase'' [GenArg (Bool (15/100))],
      K (68/100) ''business.discount_code'' (map StrArg [''SAVE10'', ''WELCOME20'', ''FLASH50'', ''VIP15'',
        ''HOLIDAY30'', ''LOYALTY25'', ''FREESHIP'', ''BUNDLE15'', '''']),
      K (55/100) ''business.discount_percent'' [GenArg (Float 50)]]"

definition otelDemo_LogAttrs_9 :: "mapEntry option list" where
  "otelDemo_LogAttrs_9 =
     [K (52/100) ''business.discount_amount_cents'' [GenArg (Int_gen 0 500000)],
      K (5/10) ''business.tax_amount_cents'' [GenArg (Int_gen 0 500000)],
      K (48/100) ''business.shipping_amount_cents'' [GenArg (Int_gen 0 50000)],
      K (45/100) ''business.payment_status'' (map StrArg [''pending'', ''authorized'', ''captured'',
        ''refunded'', ''partially_refunded'', ''voided'', ''failed'', ''disputed'']),
      K (42/100) ''business.transaction_id'' [GenArg (Prefix ''txn_'' (Hex 12))],
      K (4/10) ''business.customer_segment'' (map StrArg [''new'', ''returning'', ''vip'', ''churned'',
        ''at_risk'', ''loyal'', ''high_value'']),
      K (38/100) ''business.customer_lifetime_value_cents'' [GenArg (Int_gen 0 50000000)],
      K (35/100) ''business.customer_order_count'' [GenArg (Int_gen 1 500)],
      K (33/100) ''business.fulfillment_status'' (map StrArg [''unfulfilled'', ''partially_fulfilled'',
        ''fulfilled'', ''returned'', ''cancelled'']),
      K (25/100) ''business.warehouse_id'' [GenArg (Prefix ''wh_'' (RandStr 8))],
      K (22/100) ''business.carrier'' (map StrArg [''UPS'', ''FedEx'', ''USPS'', ''DHL'', ''Amazon'',
        ''OnTrac'', ''LaserShip'']),
      K (2/10) ''business.tracking_number'' [GenArg (Prefix ''1Z'' (Hex 16))],
      K (18/100) ''business.is_gift'' [GenArg (Bool (8/100))],
      K (16/100) ''business.gift_wrap_type'' (map StrArg [''none'', ''standard'', ''premium'', ''eco'']),
      K (14/100) ''business.subscription.plan'' (map StrArg [''basic'', ''pro'', ''enterprise'', ''team'',
        ''starter'']),
      K (12/100) ''business.subscription.interval'' (map StrArg [''monthly'', ''quarterly'', ''annual'']),
      K (1/10) ''business.subscription.is_trial'' [GenArg (Bool (2/10))],
      K (7/100) ''business.fraud_flag'' [GenArg (Bool (2/100))],
      K (5/100) ''business.fraud_score'' [GenArg (Float 1)],
      K (4/100) ''business.fraud_reason'' (map StrArg [''velocity_check'', ''geo_mismatch'',
        ''device_fingerprint'', ''card_testing'', ''account_takeover'']),
      K (3/100) ''business.chargeback_risk'' [GenArg (Bool (5/100))],
      K (2/100) ''business.affiliate_id'' [GenArg (Prefix ''aff_'' (Int_gen 1000 9999))],
      K (1/100) ''business.campaign_id'' [GenArg (Prefix ''camp_'' (Hex 6))],
      K (8/1000) ''business.referral_source'' (map StrArg [''organic'', ''paid_search'', ''social'', ''email'',
        ''affiliate'', ''direct'', ''referral'']),
      K (5/1000) ''business.conversion_value_usd'' [GenArg (Float 10000)],
      K (99/100) ''ml.model.name'' (map StrArg [''fraud-detection-v3'', ''recommendation-v2'',
        ''search-ranking-v4'', ''pricing-optimizer'', ''sentiment-analysis'', ''image-classifier-v2'',
        ''churn-predictor'', ''demand-forecast'']),
      K (97/100) ''ml.model.version'' [GenArg (Prefix ''v'' (RandStr 4))],
      K (95/100) ''ml.model.framework'' (map StrArg [''tensorflow'', ''pytorch'', ''xgboost'', ''onnx'',
        ''triton'', ''tensorrt'', ''scikit-learn'']),
      K (93/100) ''ml.inference.latency_ms'' [GenArg (Float 2000)],
      K (82/100) ''ml.inference.batch_size'' [GenArg (Int_gen 1 128)],
      K (8/10) ''ml.inference.input_tokens'' [GenArg (Int_gen 1 8192)],
      K (78/100) ''ml.inference.output_tokens'' [GenArg (Int_gen 1 4096)],
      K (75/100) ''ml.inference.confidence'' [GenArg (Float 1)],
      K (72/100) ''ml.inference.gpu_utilization'' [GenArg (Float 1)],
      K (7/10) ''ml.inference.gpu_memory_used_mb'' [GenArg (Int_gen 100 80000)],
      K (68/100) ''ml.feature.count'' [GenArg (Int_gen 1 2000)],
      K (65/100) ''ml.feature.cache_hit'' [GenArg (Bool (7/10))],
      K (62/100) ''ml.experiment.id'' [GenArg (Prefix ''exp_'' (Int_gen 1000 99999))],
      K (55/100) ''ml.model.device'' (map StrArg [''cpu'', ''gpu:0'', ''gpu:1'', ''gpu:2'', ''gpu:3'',
        ''tpu:0'', ''neuron:0'']),
      K (52/100) ''ml.model.precision'' (map StrArg [''fp32'', ''fp16'', ''bf16'', ''int8'', ''int4'']),
      K (5/10) ''ml.model.parameters_millions'' [GenArg (Int_gen 1 70000)],
      K (48/100) ''ml.inference.preprocessing_ms'' [GenArg (Float 100)],
      K (45/100) ''ml.inference.postprocessing_ms'' [GenArg (Float 100)],
      K (42/100) ''ml.inference.queue_time_ms'' [GenArg (Float 5000)],
      K (4/10) ''ml.inference.input_size_bytes'' [GenArg (Int_gen 10 10485760)],
      K (38/100) ''ml.inference.output_size_bytes'' [GenArg (Int_gen 10 1048576)],
      K (35/100) ''ml.serving.runtime'' (map StrArg [''triton'', ''tgi'', ''vllm'', ''torchserve'',
        ''tensorflow_serving'', ''onnx_runtime'', ''sagemaker'']),
      K (33/100) ''ml.serving.max_batch_size'' [GenArg (Int_gen 1 256)],
      K (25/100) ''ml.serving.queue_depth'' [GenArg (Int_gen 0 1000)],
      K (22/100) ''ml.serving.throughput_rps'' [GenArg (Float 10000)],
      K (2/10) ''ml.model.accuracy'' [GenArg (Float 1)],
      K (18/100) ''ml.model.f1_score'' [GenArg (Float 1)],
      K (16/100) ''ml.model.auc_roc'' [GenArg (Float 1)],
      K (14/100) ''ml.feature.missing_count'' [GenArg (Int_gen 0 100)],
      K (12/100) ''ml.feature.staleness_seconds'' [GenArg (Float 86400)],
      K (1/10) ''ml.ab_test.variant'' [GenArg (Pool otelDemo_HttpRequestHeaderXAbTest)],
      K (7/100) ''ml.model.drift_score'' [GenArg (Float 1)],
      K (5/100) ''ml.model.drift_detected'' [GenArg (Bool (1/10))],
      K (4/100) ''ml.model.training_run_id'' [GenArg (Prefix ''run_'' (Hex 8))],
      K (3/100) ''ml.model.registry_path'' [GenArg (Prefix ''s3://ml-models/'' (RandStr 20))]]"

definition otelDemo_LogAttrs_10 :: "mapEntry option list" where
  "otelDemo_LogAttrs_10 =
     [K (2/100) ''ml.gpu.temperature_celsius'' [GenArg (Float 100)],
      K (1/100) ''ml.gpu.thermal_throttling'' [GenArg (Bool (5/100))],
      K (8/1000) ''ml.gpu.power_draw_watts'' [GenArg (Float 400)],
      K (5/1000) ''ml.model.fallback_used'' [GenArg (Bool (2/100))],
      K (35/100) ''net.transport'' (map StrArg [''tcp'', ''udp'', ''http'', ''http2'', ''grpc'', ''websocket'',
        ''quic'']),
      K (3/10) ''net.sock.peer.addr'' [GenArg IP],
      K (28/100) ''net.sock.peer.port'' [GenArg (Int_gen 1024 65535)],
      K (25/100) ''service_mesh.proxy'' (map StrArg [''envoy'', ''linkerd'', ''istio'', ''consul_connect'',
        ''nginx'']),
      K (22/100) ''service_mesh.action'' (map StrArg [''allow'', ''deny'', ''passthrough'', ''rate_limited'',
        ''circuit_broken'', ''retried'']),
      K (2/10) ''service_mesh.request_id'' [GenArg UUID],
      K (18/100) ''service_mesh.upstream_latency_ms'' [GenArg (Float 5000)],
      K (15/100) ''dns.question.name'' (map StrArg [''user-svc.internal'', ''db-primary.internal'',
        ''cache-main.internal'', ''kafka-broker-1.internal'', ''api.external.com'']),
      K (12/100) ''dns.question.type'' (map StrArg [''A'', ''AAAA'', ''CNAME'', ''SRV'', ''TXT'']),
      K (1/10) ''dns.lookup_duration_ms'' [GenArg (Float 100)],
      K (2/10) ''feature_flag.key'' [GenArg (Pool otelDemo_HttpRequestHeaderXFeatureFlag)],
      K (2/10) ''feature_flag.enabled'' [GenArg (Bool (7/10))],
      K (15/100) ''feature_flag.variant'' [GenArg (Pool otelDemo_HttpRequestHeaderXAbTest)],
      K (12/100) ''feature_flag.context_hash'' [GenArg (Hex 8)],
      K (8/100) ''feature_flag.provider'' (map StrArg [''launchdarkly'', ''split'', ''flagsmith'', ''unleash'',
        ''internal'']),
      K (4/10) ''trace.id'' [GenArg (Hex 32)],
      K (4/10) ''span.id'' [GenArg (Hex 16)],
      K (3/10) ''parent.span.id'' [GenArg (Hex 16)],
      K (2/10) ''trace.sampled'' [GenArg (Bool (1/10))],
      K (15/100) ''security.principal'' [GenArg (Prefix ''usr_'' (Int_gen 100000 999999))],
      K (12/100) ''security.protocol'' (map StrArg [''TLSv1.2'', ''TLSv1.3'', ''mTLS'', ''none'']),
      K (1/10) ''security.mtls_verified'' [GenArg (Bool (8/10))],
      K (8/100) ''security.certificate.serial'' [GenArg (Hex 20)],
      K (6/100) ''security.certificate.issuer'' (map StrArg [''Let's Encrypt'', ''DigiCert'', ''Internal CA'',
        ''Vault PKI'']),
      K (5/100) ''security.certificate.days_until_expiry'' [GenArg (Int_gen 0 365)],
      K (18/100) ''deployment.canary.weight'' (map StrArg [''0'', ''1'', ''5'', ''10'', ''25'', ''50'',
        ''100'']),
      K (15/100) ''deployment.strategy'' (map StrArg [''rolling'', ''blue_green'', ''canary'', ''recreate'',
        ''a_b'']),
      K (12/100) ''deployment.rollout_id'' [GenArg (Prefix ''rollout-'' (Hex 6))],
      K (8/100) ''deployment.is_canary'' [GenArg (Bool (1/10))],
      K (6/100) ''deployment.previous_version'' [GenArg (Prefix ''1.'' (RandStr 5))],
      K (1/10) ''cost.estimated_usd'' [GenArg (Float (1/100))],
      K (8/100) ''cost.tier'' (map StrArg [''free'', ''standard'', ''premium'', ''enterprise'']),
      K (6/100) ''cost.budget_id'' [GenArg (Prefix ''budget-'' (Hex 4))],
      K (8/100) ''compliance.data_classification'' (map StrArg [''public'', ''internal'', ''confidential'',
        ''restricted'', ''pii'', ''phi'']),
      K (6/100) ''compliance.pii_accessed'' [GenArg (Bool (1/10))],
      K (5/100) ''compliance.regulation'' (map StrArg [''GDPR'', ''CCPA'', ''SOC2'', ''HIPAA'', ''PCI-DSS'',
        ''SOX'']),
      K (4/100) ''compliance.audit_event_id'' [GenArg UUID],
      K (3/100) ''compliance.consent_verified'' [GenArg (Bool (9/10))],
      K (2/100) ''baggage.tenant_id'' [GenArg (Prefix ''tenant_'' (Int_gen 1 500))],
      K (2/100) ''baggage.request_priority'' (map StrArg [''low'', ''normal'', ''high'', ''critical'']),
      K (1/100) ''baggage.synthetic_test_id'' [GenArg (Prefix ''synth_'' (Hex 8))],
      K (1/100) ''baggage.is_internal'' [GenArg (Bool (2/10))],
      K (8/1000) ''baggage.experiment_id'' [GenArg (Prefix ''exp_'' (Int_gen 1 10000))],
      K (5/1000) ''custom.label.team_override'' (map StrArg [''platform'', ''payments'', ''identity'',
        ''catalog'', ''search'']),
      K (3/1000) ''custom.label.incident_id'' [GenArg (Prefix ''INC-'' (Int_gen 10000 99999))],
      K (2/1000) ''custom.label.is_postmortem_trace'' [GenArg (Bool 1)],
      KP (25/100) ''log.custom.'' 6 [GenArg (RandStr 20)],
      KP (18/100) ''attr.dynamic.'' 5 [GenArg (Hex 16)],
      KP (12/100) ''tag.auto.'' 5 [GenArg (RandStr 12)],
      KP (8/100) ''metric.label.'' 4 [GenArg (RandStr 10)]]"

definition otelDemo_ScopeAttrs :: "mapEntry option list" where
  "otelDemo_ScopeAttrs =
     [K (65/100) ''otel.library.name'' (map StrArg [''otelhttp'', ''otelgrpc'', ''otelgin'', ''otelsql'',
  ''otelredis'', ''otelkafka'', ''otelpython'', ''otelnode'', ''otelrust'']),
      K (6/10) ''otel.library.version'' (map StrArg [''0.46.0'', ''0.48.0'', ''0.50.0'', ''1.0.0'', ''1.9.0'']),
      K (4/10) ''scope.environment'' (map StrArg [''production'', ''staging'', ''development''])]"

definition otelDemo_SpanAttrs :: "mapEntry option list" where
  "otelDemo_SpanAttrs =
     [K (65/100) ''http.request.method'' [GenArg (Pool otelDemo_HttpRequestMethod)],
      K (6/10) ''http.response.status_code'' (map StrArg [''200'', ''201'', ''204'', ''301'', ''400'', ''401'',
        ''403'', ''404'', ''429'', ''500'', ''502'', ''503'']),
      K (55/100) ''url.path'' (map StrArg [''/api/v1/users'', ''/api/v1/products'', ''/api/v1/orders'',
        ''/api/v1/payments'', ''/api/v1/search'', ''/api/v1/cart'', ''/api/v1/checkout'',
        ''/api/v1/auth/login'', ''/internal/health'', ''/internal/ready'', ''/internal/metrics'',
        ''/api/v1/recommendations'', ''/api/v3/graphql'', ''/api/v1/webhooks'', ''/api/v1/uploads'',
        ''/api/v1/exports'']),
      K (3/10) ''rpc.system'' [GenArg (Pool otelDemo_RpcSystem)],
      K (28/100) ''rpc.service'' [GenArg (Pool otelDemo_RpcService)],
      K (28/100) ''rpc.method'' [GenArg (Pool otelDemo_RpcMethod)],
      K (25/100) ''db.system'' [GenArg (Pool otelDemo_DbSystem)],
      K (22/100) ''db.operation'' [GenArg (Pool otelDemo_DbOperation)],
      K (15/100) ''messaging.system'' [GenArg (Pool otelDemo_MessagingSystem)],
      K (12/100) ''messaging.destination.name'' [GenArg (Pool otelDemo_MessagingDestinationName)],
      K (2/10) ''peer.service'' [GenArg (Pool otelDemo_PeerService)],
      K (8/100) ''error.type'' (map StrArg [''ConnectionTimeoutError'', ''DeadlineExceededError'',
        ''ValidationError'', ''NotFoundError'', ''InternalError'', ''RateLimitExceededError'',
        ''PermissionDeniedError'', ''UnavailableError'', ''CircuitBreakerOpenError'', ''AuthenticationError'']),
      KP (2/10) ''span.tag.'' 5 [GenArg (Hex 12)],
      KP (15/100) ''app.custom.'' 5 [GenArg (RandStr 16)]]"

definition newProfileOtelDemo :: "open_profile option" where
  "newProfileOtelDemo =
     (case (Map (otelDemo_ResourceAttrs_1 @ otelDemo_ResourceAttrs_2 @ otelDemo_ResourceAttrs_3),
            Map (otelDemo_LogAttrs_1 @ otelDemo_LogAttrs_2 @ otelDemo_LogAttrs_3 @ otelDemo_LogAttrs_4 @
              otelDemo_LogAttrs_5 @ otelDemo_LogAttrs_6 @ otelDemo_LogAttrs_7 @ otelDemo_LogAttrs_8 @
              otelDemo_LogAttrs_9 @ otelDemo_LogAttrs_10),
            Map (otelDemo_ScopeAttrs),
            Map (otelDemo_SpanAttrs)) of
        (Some ra, Some la, Some sa, Some pa) \<Rightarrow> Some (
          WithSpanAttrs pa (WithScopeAttrs sa (
          WithLogAttrs la (WithResourceAttrs ra (
          WithScopeVersion otelDemo_ScopeVersion (WithScopeName otelDemo_ScopeName (
          WithSpanName otelDemo_SpanName (WithBody otelDemo_Body (
          WithSeverityText otelDemo_SeverityText (WithServiceName otelDemo_ServiceName (
          NewProfile ''otel_demo'')))))))))))
      | _ \<Rightarrow> None)"

text \<open>Registration at start.\<close>

definition init_registry :: "registry option" where
  "init_registry = (case newProfileOtelDemo of None \<Rightarrow> None | Some p \<Rightarrow> RegisterProfile ''otel_demo'' p [])"

section \<open>The profile is well formed\<close>

definition entry_good :: "mapEntry option \<Rightarrow> bool" where
  "entry_good x \<longleftrightarrow> (\<exists>e. x = Some e \<and> gen_ok (ge_valueGen e))"

lemma strings_gen: "\<exists>g. argsToGen (map StrArg ss) = Some g \<and> gen_ok g"
proof -
  have s: "str_args (map StrArg ss) = Some ss" by (induction ss) simp_all
  show ?thesis
  proof (cases ss)
    case Nil
    then show ?thesis by (simp add: argsToGen_def Const_def)
  next
    case (Cons x xs)
    then have "argsToGen (map StrArg ss) = Some (Pool ss)" using s by (simp add: argsToGen_def split: list.split)
    then show ?thesis using constructors_ok(1) by blast
  qed
qed

lemma entry_rules:
  "entry_good (K p k (map StrArg ss))" "gen_ok g \<Longrightarrow> entry_good (K p k [GenArg g])"
  "entry_good (KP p k n (map StrArg ss))" "gen_ok g \<Longrightarrow> entry_good (KP p k n [GenArg g])"
  using strings_gen [of ss] by (auto simp: entry_good_def K_def KP_def argsToGen_def)

lemma gen_ok_Prefix: "gen_ok g \<Longrightarrow> gen_ok (Prefix p g)"
  by (cases g) simp_all

lemma gen_ok_builders:
  "gen_ok (RandStr n)" "gen_ok (Hex n)" "gen_ok UUID" "gen_ok IP" "gen_ok (Int_gen lo hi)" "gen_ok (Float mx)"
  "gen_ok (Bool q)"
  by (simp_all add: gen_builders)

lemma list_all_intros: "list_all P []" "P x \<Longrightarrow> list_all P xs \<Longrightarrow> list_all P (x # xs)"
  by simp_all

lemmas table_rules = list_all_intros entry_rules gen_ok_builders gen_ok_Prefix constructors_ok

lemma Map_good:
  assumes "list_all entry_good es"
  shows "\<exists>m. Map es = Some m \<and> entries_ok m \<and> map Some m = es"
  using assms
proof (induction es)
  case (Cons x es)
  then obtain e m where "x = Some e" "gen_ok (ge_valueGen e)" "Map es = Some m" "entries_ok m" "map Some m = es"
    by (auto simp: entry_good_def)
  then show ?case by (simp add: entries_ok_def)
qed (simp add: entries_ok_def)

lemma resource_tables:
  "list_all entry_good otelDemo_ResourceAttrs_1" "list_all entry_good otelDemo_ResourceAttrs_2"
  "list_all entry_good otelDemo_ResourceAttrs_3"
  unfolding otelDemo_ResourceAttrs_1_def otelDemo_ResourceAttrs_2_def otelDemo_ResourceAttrs_3_def
  by (intro table_rules)+

lemma log_tables:
  "list_all entry_good otelDemo_LogAttrs_1" "list_all entry_good otelDemo_LogAttrs_2"
  "list_all entry_good otelDemo_LogAttrs_3" "list_all entry_good otelDemo_LogAttrs_4"
  "list_all entry_good otelDemo_LogAttrs_5" "list_all entry_good otelDemo_LogAttrs_6"
  "list_all entry_good otelDemo_LogAttrs_7" "list_all entry_good otelDemo_LogAttrs_8"
  "list_all entry_good otelDemo_LogAttrs_9" "list_all entry_good otelDemo_LogAttrs_10"
  unfolding otelDemo_LogAttrs_1_def otelDemo_LogAttrs_2_def otelDemo_LogAttrs_3_def otelDemo_LogAttrs_4_def
    otelDemo_LogAttrs_5_def otelDemo_LogAttrs_6_def otelDemo_LogAttrs_7_def otelDemo_LogAttrs_8_def
    otelDemo_LogAttrs_9_def otelDemo_LogAttrs_10_def
  by (intro table_rules)+

lemma scope_span_tables: "list_all entry_good otelDemo_ScopeAttrs" "list_all entry_good otelDemo_SpanAttrs"
  unfolding otelDemo_ScopeAttrs_def otelDemo_SpanAttrs_def by (intro table_rules)+

lemma column_gens:
  "gen_ok otelDemo_ServiceName" "gen_ok otelDemo_SeverityText" "gen_ok otelDemo_Body" "gen_ok otelDemo_SpanName"
  "gen_ok otelDemo_ScopeName" "gen_ok otelDemo_ScopeVersion"
  unfolding otelDemo_ServiceName_def otelDemo_SeverityText_def otelDemo_Body_def otelDemo_SpanName_def
    otelDemo_ScopeName_def otelDemo_ScopeVersion_def
  by (intro table_rules)+

definition otelDemo_LogAttrs :: "mapEntry option list" where
  "otelDemo_LogAttrs = otelDemo_LogAttrs_1 @ otelDemo_LogAttrs_2 @ otelDemo_LogAttrs_3 @ otelDemo_LogAttrs_4 @
     otelDemo_LogAttrs_5 @ otelDemo_LogAttrs_6 @ otelDemo_LogAttrs_7 @ otelDemo_LogAttrs_8 @ otelDemo_LogAttrs_9 @
     otelDemo_LogAttrs_10"

lemma newProfileOtelDemo_ok:
  "\<exists>p la. newProfileOtelDemo = Some p \<and> open_ok p \<and> pf_ServiceName p = Some otelDemo_ServiceName \<and>
     pf_SeverityText p = Some otelDemo_SeverityText \<and> pf_LogAttrs p = Some la \<and> map Some la = otelDemo_LogAttrs"
proof -
  have "list_all entry_good (otelDemo_ResourceAttrs_1 @ otelDemo_ResourceAttrs_2 @ otelDemo_ResourceAttrs_3)"
    using resource_tables by simp
  then obtain ra where ra: "Map (otelDemo_ResourceAttrs_1 @ otelDemo_ResourceAttrs_2 @ otelDemo_ResourceAttrs_3) = Some ra"
      "entries_ok ra"
    using Map_good by blast
  have "list_all entry_good otelDemo_LogAttrs" using log_tables by (simp add: otelDemo_LogAttrs_def)
  then obtain la where la: "Map otelDemo_LogAttrs = Some la" "entries_ok la" "map Some la = otelDemo_LogAttrs"
    using Map_good by blast
  obtain sa pa where sp: "Map otelDemo_ScopeAttrs = Some sa" "entries_ok sa" "Map otelDemo_SpanAttrs = Some pa" "entries_ok pa"
    using Map_good [OF scope_span_tables(1)] Map_good [OF scope_span_tables(2)] by blast
  have "newProfileOtelDemo = Some (
          WithSpanAttrs pa (WithScopeAttrs sa (WithLogAttrs la (WithResourceAttrs ra (
          WithScopeVersion otelDemo_ScopeVersion (WithScopeName otelDemo_ScopeName (
          WithSpanName otelDemo_SpanName (WithBody otelDemo_Body (
          WithSeverityText otelDemo_SeverityText (WithServiceName otelDemo_ServiceName (
          NewProfile ''otel_demo'')))))))))))"
    using la(1) unfolding newProfileOtelDemo_def ra(1) sp(1,3) otelDemo_LogAttrs_def by simp
  then obtain p where p: "newProfileOtelDemo = Some p" and f: "p =
          WithSpanAttrs pa (WithScopeAttrs sa (WithLogAttrs la (WithResourceAttrs ra (
          WithScopeVersion otelDemo_ScopeVersion (WithScopeName otelDemo_ScopeName (
          WithSpanName otelDemo_SpanName (WithBody otelDemo_Body (
          WithSeverityText otelDemo_SeverityText (WithServiceName otelDemo_ServiceName (
          NewProfile ''otel_demo''))))))))))"
    by blast
  have "open_ok p" "pf_ServiceName p = Some otelDemo_ServiceName" "pf_SeverityText p = Some otelDemo_SeverityText"
    "pf_LogAttrs p = Some la"
    using ra(2) la(2) sp(2,4) column_gens by (simp_all add: f builder_methods NewProfile_def open_ok_def)
  with p la(3) show ?thesis by blast
qed

lemma applyDefaults_LogAttrs: "applyDefaults p = Some q \<Longrightarrow> pf_LogAttrs q = or_default (pf_LogAttrs p) []"
  unfolding applyDefaults_def
  by (cases "case pf_ProfileAttrs p of None \<Rightarrow> defaultProfileAttrs | Some m \<Rightarrow> Some m";
      cases "case pf_SampleAttrs p of None \<Rightarrow> defaultSampleAttrs | Some m \<Rightarrow> Some m") auto

text \<open>
  C3. The default configuration: the profile the program ships is built and registered without a
  panic, and with no profile configured the scheduler gets, for every data type, a filler over this
  profile with all its columns complete and every generator well formed: the severity levels and the
  entries of the log attributes are those of the table.
\<close>

theorem default_profile_loads:
  assumes "gc_Profile c = ''''" and "dataType \<in> {''logs'', ''traces'', ''profiles''}"
  shows "\<exists>reg p. init_registry = Some reg \<and> profile_ok p \<and> pf_SeverityText p = otelDemo_SeverityText \<and>
    map Some (pf_LogAttrs p) = otelDemo_LogAttrs \<and>
    gen_Scheduler reg c dataType =
      Inr (if dataType = ''logs'' then FillLogs p else if dataType = ''traces'' then FillTraces p (gc_Traces c)
           else FillProfiles p (gc_Profiles c), gen_limiter c, [0..<nat (gc_Threads c)])"
proof -
  obtain q la where q: "newProfileOtelDemo = Some q" "open_ok q" "pf_SeverityText q = Some otelDemo_SeverityText"
      "pf_LogAttrs q = Some la" "map Some la = otelDemo_LogAttrs"
    using newProfileOtelDemo_ok by blast
  define reg where "reg = [(''otel_demo'', q)]"
  have reg: "init_registry = Some reg" by (simp add: init_registry_def q RegisterProfile_def reg_def)
  obtain p where p: "applyDefaults q = Some p" "profile_ok p" "pf_SeverityText p = otelDemo_SeverityText"
    using applyDefaults_ok [OF q(2)] q(3) by blast
  have la: "pf_LogAttrs p = la"
    using applyDefaults_LogAttrs [OF p(1)] q(4) by (simp add: or_default_def)
  have "GetProfile reg DefaultProfile = Inr p" by (simp add: GetProfile_def reg_def DefaultProfile_def p)
  then show ?thesis
    using reg p la q(5) assms unfolding gen_Scheduler_def Let_def by (intro exI [of _ reg] exI [of _ p]) auto
qed

definition default_gen_config :: gen_config where
  "default_gen_config =
     \<lparr>gc_Enabled = True, gc_Threads = 2, gc_RowsPerBlock = 100, gc_RowsPerSecond = 0, gc_Profile = '''',
      gc_ReuseBlocks = True, gc_BlockRetirementUses = 0,
      gc_Traces = \<lparr>tg_SpansPerTraceMin = 1, tg_SpansPerTraceMax = 5, tg_MaxDepth = 5, tg_DurationMinUs = 1000,
        tg_DurationMaxUs = 5000000\<rparr>,
      gc_Profiles = \<lparr>pg_SamplesPerProfileMin = 1, pg_SamplesPerProfileMax = 1, pg_StackDepthMin = 1,
        pg_StackDepthMax = 1, pg_DurationMinMs = 1000, pg_DurationMaxMs = 60000, pg_PeriodNs = 10000000\<rparr>\<rparr>"

theorem default_profile_loads_witness:
  "\<exists>reg p. init_registry = Some reg \<and> profile_ok p \<and>
     gen_Scheduler reg default_gen_config ''logs'' = Inr (FillLogs p, None, [0, 1])"
proof -
  have c: "gc_Profile default_gen_config = ''''" "gen_limiter default_gen_config = None"
    "[0..<nat (gc_Threads default_gen_config)] = [0, 1]"
    by (simp_all add: default_gen_config_def gen_limiter_def upt_conv_Cons)
  from default_profile_loads [OF c(1), of "''logs''"] c(2,3) show ?thesis by auto
qed

end
