(* ===== verification/ProfilesCols.thy ===== *)
theory ProfilesCols
  imports Disk
begin

text \<open>
  The profiles block (\<open>block/profiles.go\<close>) under replay: the columns that the updates touch, with all
  others as one opaque part, the updates of timestamps and identifiers, and the operations of the
  three disk blocks as the disk worker calls them.
\<close>

section \<open>Columns and updates\<close>

text \<open>\<open>pl_rest\<close>: the columns that no operation here reads or writes.\<close>

record 'o profiles_data =
  pl_timestamp :: "int list"
  pl_profileID :: colStr
  pl_traceID :: colStr
  pl_spanID :: colStr
  pl_timestampsUnixNano :: "u64 list list"
  pl_rest :: 'o

definition profile_times :: "time_codec \<Rightarrow> (nat \<Rightarrow> int \<Rightarrow> int) \<Rightarrow> 'o profiles_data \<Rightarrow> 'o profiles_data" where
  "profile_times T f c =
     c\<lparr>pl_timestamp := map (\<lambda>i. tc_dt64 T (f i (tc_time T (pl_timestamp c ! i)))) [0..<length (pl_timestamp c)]\<rparr>"

definition profiles_UpdateDate :: "time_codec \<Rightarrow> int \<Rightarrow> (nat \<Rightarrow> int) \<Rightarrow> 'o profiles_data \<Rightarrow> 'o profiles_data" where
  "profiles_UpdateDate T off now c = profile_times T (\<lambda>i. ShiftDateToToday off (now i)) c"

definition profiles_UpdateTimestampMinute ::
    "time_codec \<Rightarrow> int \<Rightarrow> (nat \<Rightarrow> int) \<Rightarrow> 'o profiles_data \<Rightarrow> 'o profiles_data" where
  "profiles_UpdateTimestampMinute T off now c = profile_times T (\<lambda>i. ShiftTimestampMinute off (now i)) c"

definition profiles_ShiftTimestamp :: "time_codec \<Rightarrow> snapshot \<Rightarrow> 'o profiles_data \<Rightarrow> 'o profiles_data" where
  "profiles_ShiftTimestamp T s c = profile_times T (\<lambda>i. ShiftTimestamp s) c"

definition profiles_UpdateTimestampNow :: "time_codec \<Rightarrow> (nat \<Rightarrow> int) \<Rightarrow> 'o profiles_data \<Rightarrow> 'o profiles_data" where
  "profiles_UpdateTimestampNow T now c = profile_times T (\<lambda>i _. now i) c"

definition profiles_FirstTimestamp :: "time_codec \<Rightarrow> 'o profiles_data \<Rightarrow> int" where
  "profiles_FirstTimestamp T c = (if 0 < length (pl_timestamp c) then tc_time T (pl_timestamp c ! 0) else zeroTime)"

definition profiles_LastTimestamp :: "time_codec \<Rightarrow> 'o profiles_data \<Rightarrow> int" where
  "profiles_LastTimestamp T c =
     (if 0 < length (pl_timestamp c) then tc_time T (pl_timestamp c ! (length (pl_timestamp c) - 1)) else zeroTime)"

definition profiles_MutateIDs :: "nat \<Rightarrow> 'o profiles_data \<Rightarrow> 'o profiles_data" where
  "profiles_MutateIDs loopIndex c =
     (if loopIndex = 0 then c
      else c\<lparr>pl_profileID := shiftColStrLastByte loopIndex (pl_profileID c),
             pl_traceID := shiftColStrLastByte loopIndex (pl_traceID c),
             pl_spanID := shiftColStrLastByte loopIndex (pl_spanID c)\<rparr>)"

definition traces_ops :: "time_codec \<Rightarrow> int \<Rightarrow> (nat \<Rightarrow> int) \<Rightarrow> traces_cols block_ops" where
  "traces_ops T off now =
     \<lparr>bo_first = traces_FirstTimestamp T, bo_last = traces_LastTimestamp T, bo_rows = traces_Rows,
      bo_date = Some \<circ> traces_UpdateDate T off now, bo_shift = (\<lambda>s. Some \<circ> traces_ShiftTimestamp T s),
      bo_now = Some \<circ> traces_UpdateTimestampNow T now,
      bo_minute = Some \<circ> traces_UpdateTimestampMinute T off now, bo_mutate = traces_MutateIDs\<rparr>"

definition profiles_ops :: "time_codec \<Rightarrow> int \<Rightarrow> (nat \<Rightarrow> int) \<Rightarrow> 'o profiles_data block_ops" where
  "profiles_ops T off now =
     \<lparr>bo_first = profiles_FirstTimestamp T, bo_last = profiles_LastTimestamp T,
      bo_rows = (\<lambda>c. length (pl_timestamp c)),
      bo_date = Some \<circ> profiles_UpdateDate T off now, bo_shift = (\<lambda>s. Some \<circ> profiles_ShiftTimestamp T s),
      bo_now = Some \<circ> profiles_UpdateTimestampNow T now,
      bo_minute = Some \<circ> profiles_UpdateTimestampMinute T off now, bo_mutate = profiles_MutateIDs\<rparr>"

section \<open>Rows\<close>

record profile_ids =
  pi_Timestamp :: int
  pi_ProfileID :: string
  pi_TraceID :: string
  pi_SpanID :: string

definition profiles_repr :: "time_codec \<Rightarrow> 'o profiles_data \<Rightarrow> profile_ids list \<Rightarrow> bool" where
  "profiles_repr T c rows \<longleftrightarrow>
     map (tc_time T) (pl_timestamp c) = map pi_Timestamp rows \<and> str_repr (pl_profileID c) (map pi_ProfileID rows) \<and>
     str_repr (pl_traceID c) (map pi_TraceID rows) \<and> str_repr (pl_spanID c) (map pi_SpanID rows)"

definition mutate_profile :: "nat \<Rightarrow> profile_ids \<Rightarrow> profile_ids" where
  "mutate_profile k r = r\<lparr>pi_ProfileID := shift_row k (pi_ProfileID r), pi_TraceID := shift_row k (pi_TraceID r),
     pi_SpanID := shift_row k (pi_SpanID r)\<rparr>"

definition retime_profile :: "time_codec \<Rightarrow> (nat \<Rightarrow> int \<Rightarrow> int) \<Rightarrow> nat \<Rightarrow> profile_ids \<Rightarrow> profile_ids" where
  "retime_profile T f i r = r\<lparr>pi_Timestamp := tc_time T (tc_dt64 T (f i (pi_Timestamp r)))\<rparr>"

lemma profile_times_repr:
  assumes "profiles_repr T c rows"
  shows "profiles_repr T (profile_times T f c) (mapi (retime_profile T f) rows)"
proof -
  have ts: "map (tc_time T) (pl_timestamp c) = map pi_Timestamp rows" using assms by (simp add: profiles_repr_def)
  have new: "map (tc_time T) (pl_timestamp (profile_times T f c)) = map pi_Timestamp (mapi (retime_profile T f) rows)"
    using mapi_cong [OF ts, of "\<lambda>i x. tc_time T (tc_dt64 T (f i x))"]
    by (simp add: profile_times_def mapi_def retime_profile_def comp_def)
  show ?thesis
    using assms new unfolding profiles_repr_def by (simp add: mapi_keep retime_profile_def profile_times_def)
qed

lemma profiles_MutateIDs_repr:
  "profiles_repr T c rows \<Longrightarrow> profiles_repr T (profiles_MutateIDs k c) (map (mutate_profile k) rows)"
  using shift_str_repr [of "pl_profileID c" "map pi_ProfileID rows" k]
    shift_str_repr [of "pl_traceID c" "map pi_TraceID rows" k]
    shift_str_repr [of "pl_spanID c" "map pi_SpanID rows" k]
  by (cases "k = 0") (simp_all add: profiles_repr_def profiles_MutateIDs_def mutate_profile_def comp_def)

text \<open>
  Replaying a profiles block: every row gets its shifted time, as the column can store it, and its
  three identifiers mutated; two rows of the same profile stay rows of the same profile; and all
  other columns are as they were on disk, the sample times \<open>TimestampsUnixNano\<close> included: they are
  not moved with the timestamp of their row.
\<close>

theorem profiles_replay_refines:
  assumes "profiles_repr T c rows"
  shows "profiles_repr T (profiles_MutateIDs k (profiles_ShiftTimestamp T s c))
      (map (mutate_profile k) (mapi (retime_profile T (\<lambda>i. ShiftTimestamp s)) rows)) \<and>
    pl_timestampsUnixNano (profiles_MutateIDs k (profiles_ShiftTimestamp T s c)) = pl_timestampsUnixNano c \<and>
    pl_rest (profiles_MutateIDs k (profiles_ShiftTimestamp T s c)) = pl_rest c \<and>
    (\<forall>r \<in> set rows. \<forall>q \<in> set rows. pi_ProfileID r = pi_ProfileID q \<longrightarrow>
      pi_ProfileID (mutate_profile k r) = pi_ProfileID (mutate_profile k q))"
proof (intro conjI)
  show "profiles_repr T (profiles_MutateIDs k (profiles_ShiftTimestamp T s c))
      (map (mutate_profile k) (mapi (retime_profile T (\<lambda>i. ShiftTimestamp s)) rows))"
    unfolding profiles_ShiftTimestamp_def by (intro profiles_MutateIDs_repr profile_times_repr assms)
qed (simp_all add: profiles_MutateIDs_def profiles_ShiftTimestamp_def profile_times_def mutate_profile_def)

theorem profiles_replay_refines_witness:
  "pl_timestamp (profiles_ShiftTimestamp unit_codec \<lparr>sn_programStart = 1000, sn_datasetStart = 40, sn_loopOffset = 300\<rparr>
     \<lparr>pl_timestamp = [40, 50], pl_profileID = two_rows ''aa'' ''bb'', pl_traceID = two_rows ''1'' ''2'',
      pl_spanID = two_rows ''3'' ''4'', pl_timestampsUnixNano = [[40], [50]], pl_rest = ()\<rparr>) = [1300, 1310] \<and>
   pl_timestampsUnixNano (profiles_MutateIDs 1 (profiles_ShiftTimestamp unit_codec
     \<lparr>sn_programStart = 1000, sn_datasetStart = 40, sn_loopOffset = 300\<rparr>
     \<lparr>pl_timestamp = [40, 50], pl_profileID = two_rows ''aa'' ''bb'', pl_traceID = two_rows ''1'' ''2'',
      pl_spanID = two_rows ''3'' ''4'', pl_timestampsUnixNano = [[40], [50]], pl_rest = ()\<rparr>)) = [[40], [50]]"
proof -
  let ?c = "\<lparr>pl_timestamp = [40, 50], pl_profileID = two_rows ''aa'' ''bb'', pl_traceID = two_rows ''1'' ''2'',
      pl_spanID = two_rows ''3'' ''4'', pl_timestampsUnixNano = [[40], [50]], pl_rest = ()\<rparr>"
  let ?s = "\<lparr>sn_programStart = 1000, sn_datasetStart = 40, sn_loopOffset = 300\<rparr>"
  have "profiles_repr unit_codec ?c
      [\<lparr>pi_Timestamp = 40, pi_ProfileID = ''aa'', pi_TraceID = ''1'', pi_SpanID = ''3''\<rparr>,
       \<lparr>pi_Timestamp = 50, pi_ProfileID = ''bb'', pi_TraceID = ''2'', pi_SpanID = ''4''\<rparr>]"
    by (simp add: profiles_repr_def str_repr_def two_rows_def unit_codec_def cs_ok_def cs_rows_def cs_row_def)
  from profiles_replay_refines [OF this, of 1 ?s]
  have "pl_timestampsUnixNano (profiles_MutateIDs 1 (profiles_ShiftTimestamp unit_codec ?s ?c)) = [[40], [50]]" by simp
  then show ?thesis
    by (simp add: profiles_ShiftTimestamp_def profile_times_def unit_codec_def ShiftTimestamp_def time_Sub_def
        in_i64_def upt_conv_Cons Let_def)
qed

end
