(* ===== verification/Schedulers.thy ===== *)
theory Schedulers
  imports Metrics
begin

text \<open>
  What the schedulers of all components share (\<open>Run\<close> in \<open>disk/scheduler.go\<close>, \<open>insert/scheduler.go\<close>,
  \<open>otel/scheduler.go\<close>, \<open>generate/scheduler.go\<close>, \<open>metricgen/scheduler.go\<close>, \<open>user/scheduler.go\<close>): one goroutine for each
  thread, which counts itself in a gauge, runs its worker and counts itself out, and a wait for all
  of them. The steps of the goroutines interleave in any way.
\<close>

section \<open>The run of a scheduler\<close>

datatype scheduler_kind = DiskReaders | Inserters | OTelExporters | Generators | MetricGenWorkers | Users

primrec active_name :: "scheduler_kind \<Rightarrow> string" where
  "active_name DiskReaders = ''active_readers''"
| "active_name Inserters = ''active_inserters''"
| "active_name OTelExporters = ''active_otel_exporters''"
| "active_name Generators = ''active_generators''"
| "active_name MetricGenWorkers = ''active_metricgen_workers''"
| "active_name Users = ''active_users''"

text \<open>Only the users are started with a ramp, which the end of the context cuts short.\<close>

primrec ramps :: "scheduler_kind \<Rightarrow> bool" where
  "ramps DiskReaders = False"
| "ramps Inserters = False"
| "ramps OTelExporters = False"
| "ramps Generators = False"
| "ramps MetricGenWorkers = False"
| "ramps Users = True"

datatype goroutine = Spawned | Working | Finished

record sched =
  sc_routines :: "goroutine list"
  sc_loopEnded :: bool
  sc_returned :: bool
  sc_calls :: "entry list"

definition sched_start :: sched where
  "sched_start = \<lparr>sc_routines = [], sc_loopEnded = False, sc_returned = False, sc_calls = []\<rparr>"

definition active_inc :: "scheduler_kind \<Rightarrow> entry" where
  "active_inc k = plain_entry EntryModeIncrement (active_name k) 1"

definition active_dec :: "scheduler_kind \<Rightarrow> entry" where
  "active_dec k = plain_entry EntryModeDecrement (active_name k) 1"

definition active_key :: "scheduler_kind \<Rightarrow> metricKey" where
  "active_key k = MetricKey (active_name k) '''' ''''"

text \<open>
  A working goroutine also sends other metrics, of any key but the gauge's; so do other parts.
\<close>

inductive sched_step :: "scheduler_kind \<Rightarrow> nat \<Rightarrow> sched \<Rightarrow> sched \<Rightarrow> bool" for k threads where
  Spawn: "\<not> sc_loopEnded s \<Longrightarrow> length (sc_routines s) < threads \<Longrightarrow>
    sched_step k threads s (s\<lparr>sc_routines := sc_routines s @ [Spawned]\<rparr>)"
| LoopEnds: "\<not> sc_loopEnded s \<Longrightarrow> length (sc_routines s) = threads \<or> ramps k \<Longrightarrow>
    sched_step k threads s (s\<lparr>sc_loopEnded := True\<rparr>)"
| Enter: "i < length (sc_routines s) \<Longrightarrow> sc_routines s ! i = Spawned \<Longrightarrow>
    sched_step k threads s
      (s\<lparr>sc_routines := (sc_routines s)[i := Working], sc_calls := sc_calls s @ [active_inc k]\<rparr>)"
| Leave: "i < length (sc_routines s) \<Longrightarrow> sc_routines s ! i = Working \<Longrightarrow>
    sched_step k threads s
      (s\<lparr>sc_routines := (sc_routines s)[i := Finished], sc_calls := sc_calls s @ [active_dec k]\<rparr>)"
| OtherCall: "entry_key m \<noteq> active_key k \<Longrightarrow>
    sched_step k threads s (s\<lparr>sc_calls := sc_calls s @ [m]\<rparr>)"
| Return: "sc_loopEnded s \<Longrightarrow> set (sc_routines s) \<subseteq> {Finished} \<Longrightarrow>
    sched_step k threads s (s\<lparr>sc_returned := True\<rparr>)"

inductive_cases sched_stepE: "sched_step k threads s s'"

text \<open>The six schedulers.\<close>

definition disk_sched_step :: "nat \<Rightarrow> sched \<Rightarrow> sched \<Rightarrow> bool" where "disk_sched_step = sched_step DiskReaders"
definition insert_sched_step :: "nat \<Rightarrow> sched \<Rightarrow> sched \<Rightarrow> bool" where "insert_sched_step = sched_step Inserters"
definition otel_sched_step :: "nat \<Rightarrow> sched \<Rightarrow> sched \<Rightarrow> bool" where "otel_sched_step = sched_step OTelExporters"
definition gen_sched_step :: "nat \<Rightarrow> sched \<Rightarrow> sched \<Rightarrow> bool" where "gen_sched_step = sched_step Generators"
definition mg_sched_step :: "nat \<Rightarrow> sched \<Rightarrow> sched \<Rightarrow> bool" where "mg_sched_step = sched_step MetricGenWorkers"
definition user_sched_step :: "nat \<Rightarrow> sched \<Rightarrow> sched \<Rightarrow> bool" where "user_sched_step = sched_step Users"

inductive sched_reach :: "scheduler_kind \<Rightarrow> nat \<Rightarrow> sched \<Rightarrow> bool" for k threads where
  SchedStart: "sched_reach k threads sched_start"
| SchedStep: "sched_reach k threads s \<Longrightarrow> sched_step k threads s s' \<Longrightarrow> sched_reach k threads s'"

section \<open>The gauge\<close>

definition working :: "sched \<Rightarrow> nat" where
  "working s = length (filter ((=) Working) (sc_routines s))"

lemma filter_update:
  assumes "i < length xs"
  shows "length (filter P (xs[i := y])) + (if P (xs ! i) then 1 else 0) = length (filter P xs) + (if P y then 1 else 0)"
  using assms
proof (induction xs arbitrary: i)
  case (Cons x xs)
  then show ?case using Cons.IH [of "i - 1"] by (cases i) auto
qed simp

lemma working_bound: "working s \<le> length (sc_routines s)"
  by (simp add: working_def)

lemma value_snoc:
  "value_spec key (ms @ [m]) = (if entry_key m = key then entry_effect m (value_spec key ms) else value_spec key ms)"
  by (simp add: value_spec_def)

lemma gauge_keys [simp]: "entry_key (active_inc k) = active_key k" "entry_key (active_dec k) = active_key k"
  by (simp_all add: active_inc_def active_dec_def active_key_def entry_key_def plain_entry_def)

lemma inc_effect: "entry_effect (active_inc k) v = v + 1"
  by (simp add: entry_effect_def active_inc_def plain_entry_def)

lemma dec_effect:
  assumes "Suc n < 18446744073709551616"
  shows "entry_effect (active_dec k) (of_nat (Suc n) :: u64) = of_nat n"
proof -
  have "uint (of_nat (Suc n) :: u64) = int (Suc n)" 
    using assms unfolding uint_nat unat_of_nat by simp
  then have "uint (of_nat (Suc n) :: u64) - uint (1 :: u64) = int n" by simp
  then show ?thesis by (simp add: entry_effect_def active_dec_def plain_entry_def)
qed

definition gauge_inv :: "scheduler_kind \<Rightarrow> nat \<Rightarrow> sched \<Rightarrow> bool" where
  "gauge_inv k threads s \<longleftrightarrow>
     length (sc_routines s) \<le> threads \<and> value_spec (active_key k) (sc_calls s) = of_nat (working s) \<and>
     (sc_loopEnded s \<and> \<not> ramps k \<longrightarrow> length (sc_routines s) = threads) \<and>
     (sc_returned s \<longrightarrow> sc_loopEnded s \<and> set (sc_routines s) \<subseteq> {Finished})"

lemma gauge_step:
  assumes "sched_step k threads s s'" and "threads < 18446744073709551616" and "gauge_inv k threads s"
  shows "gauge_inv k threads s'"
  using assms(1)
proof cases
  case Spawn
  then show ?thesis using assms(3) by (auto simp: gauge_inv_def working_def)
next
  case LoopEnds
  then show ?thesis using assms(3) by (auto simp: gauge_inv_def working_def)
next
  case (Enter i)
  have "working s' = Suc (working s)"
    using filter_update [OF Enter(2), of "(=) Working" Working] Enter by (simp add: working_def)
  moreover have "\<not> sc_returned s" using Enter assms(3) nth_mem [OF Enter(2)] by (auto simp: gauge_inv_def)
  ultimately show ?thesis using Enter assms(3) by (simp add: gauge_inv_def value_snoc inc_effect)
next
  case (Leave i)
  have w: "Suc (working s') = working s"
    using filter_update [OF Leave(2), of "(=) Working" Finished] Leave by (simp add: working_def)
  have "working s \<le> threads" using working_bound [of s] assms(3) by (simp add: gauge_inv_def)
  then have "entry_effect (active_dec k) (of_nat (working s)) = (of_nat (working s') :: u64)"
    using dec_effect [of "working s'" k] w assms(2) by simp
  moreover have "\<not> sc_returned s" using Leave assms(3) nth_mem [OF Leave(2)] by (auto simp: gauge_inv_def)
  ultimately show ?thesis using Leave assms(3) by (simp add: gauge_inv_def value_snoc)
next
  case (OtherCall m)
  then show ?thesis using assms(3) by (simp add: gauge_inv_def value_snoc working_def)
next
  case Return
  then show ?thesis using assms(3) by (simp add: gauge_inv_def working_def)
qed

lemma gauge_reach:
  assumes "sched_reach k threads s" and "threads < 18446744073709551616"
  shows "gauge_inv k threads s"
  using assms(1)
proof induction
  case SchedStart
  then show ?case by (simp add: gauge_inv_def sched_start_def working_def value_spec_def)
next
  case (SchedStep s s')
  then show ?case using gauge_step assms(2) by blast
qed


text \<open>A scheduler with one thread, from start to return.\<close>

lemma one_thread_run:
  "\<exists>s. sched_reach Generators 1 s \<and> sc_returned s \<and> sc_calls s = [active_inc Generators, active_dec Generators]"
proof -
  let ?s1 = "sched_start\<lparr>sc_routines := sc_routines sched_start @ [Spawned]\<rparr>"
  let ?s2 = "?s1\<lparr>sc_routines := (sc_routines ?s1)[0 := Working], sc_calls := sc_calls ?s1 @ [active_inc Generators]\<rparr>"
  let ?s3 = "?s2\<lparr>sc_routines := (sc_routines ?s2)[0 := Finished], sc_calls := sc_calls ?s2 @ [active_dec Generators]\<rparr>"
  let ?s4 = "?s3\<lparr>sc_loopEnded := True\<rparr>"
  have r1: "sched_reach Generators 1 ?s1"
    by (rule SchedStep [OF SchedStart Spawn]) (simp_all add: sched_start_def)
  have r2: "sched_reach Generators 1 ?s2" by (rule SchedStep [OF r1 Enter]) (simp_all add: sched_start_def)
  have r3: "sched_reach Generators 1 ?s3" by (rule SchedStep [OF r2 Leave]) (simp_all add: sched_start_def)
  have r4: "sched_reach Generators 1 ?s4" by (rule SchedStep [OF r3 LoopEnds]) (simp_all add: sched_start_def)
  have r5: "sched_reach Generators 1 (?s4\<lparr>sc_returned := True\<rparr>)"
    by (rule SchedStep [OF r4 Return]) (simp_all add: sched_start_def)
  show ?thesis by (rule exI, rule conjI [OF r5]) (simp add: sched_start_def)
qed


end
