(* ===== verification/UserConfig.thy ===== *)
theory UserConfig
  imports GoStrings Complex_Main
begin

text \<open>
  Configuration of the simulated users (\<open>user/config.go\<close>, \<open>user/config_unmarshal.go\<close>): workflows of
  queries with their time ranges, preflight queries and variables, and the checks of \<open>Validate\<close> in
  their order. Durations are nanoseconds; a Go map is an association list in some iteration
  order; texts are ASCII. What the YAML library decodes is an argument.
\<close>

section \<open>Time ranges\<close>

definition TimeRangeNone :: string where "TimeRangeNone = ''none''"
definition TimeRangeFixed :: string where "TimeRangeFixed = ''fixed''"
definition TimeRangeUniform :: string where "TimeRangeUniform = ''uniform''"
definition TimeRangeExponential :: string where "TimeRangeExponential = ''exponential''"
definition TimeRangeLogNormal :: string where "TimeRangeLogNormal = ''log_normal''"

lemmas range_types = TimeRangeNone_def TimeRangeFixed_def TimeRangeUniform_def TimeRangeExponential_def
  TimeRangeLogNormal_def

record time_range =
  tr_Type :: string
  tr_Round :: int
  tr_Lookback :: int
  tr_Min :: int
  tr_Max :: int
  tr_Mean :: int
  tr_Sigma :: rat

datatype range_err =
  ErrRound | ErrLookback | ErrUniformPositive | ErrUniformOrder | ErrMean string | ErrRangeOrder string |
  ErrSigma | ErrRangeType string

definition range_Validate :: "time_range \<Rightarrow> range_err option" where
  "range_Validate c =
     (if tr_Round c < 0 then Some ErrRound
      else if tr_Type c = TimeRangeNone then None
      else if tr_Type c = TimeRangeFixed then err_if (tr_Lookback c \<le> 0) ErrLookback
      else if tr_Type c = TimeRangeUniform then
        first_err [err_if (tr_Min c \<le> 0 \<or> tr_Max c \<le> 0) ErrUniformPositive,
          err_if (tr_Max c < tr_Min c) ErrUniformOrder]
      else if tr_Type c = TimeRangeExponential then
        first_err [err_if (tr_Mean c \<le> 0) (ErrMean (tr_Type c)),
          err_if (tr_Min c > 0 \<and> tr_Max c > 0 \<and> tr_Max c < tr_Min c) (ErrRangeOrder (tr_Type c))]
      else if tr_Type c = TimeRangeLogNormal then
        first_err [err_if (tr_Mean c \<le> 0) (ErrMean (tr_Type c)),
          err_if (tr_Min c > 0 \<and> tr_Max c > 0 \<and> tr_Max c < tr_Min c) (ErrRangeOrder (tr_Type c)),
          err_if (tr_Sigma c < 0) ErrSigma]
      else Some (ErrRangeType (tr_Type c)))"

definition range_UnmarshalYAML :: "'e + time_range \<Rightarrow> 'e + time_range" where
  "range_UnmarshalYAML decoded =
     (case decoded of
        Inl err \<Rightarrow> Inl err
      | Inr p \<Rightarrow> Inr (if tr_Type p = '''' then p\<lparr>tr_Type := TimeRangeUniform\<rparr> else p))"

section \<open>Queries\<close>

type_synonym go_map = "(string \<times> string) list"

definition is_map :: "go_map \<Rightarrow> bool" where "is_map m \<longleftrightarrow> distinct (map fst m)"

datatype query_err =
  ErrSQL | ErrFormatNull | ErrVarKey | ErrBinds | ErrBindName nat | InPreflight nat query_err | InRange range_err

record preflight =
  pq_SQL :: string
  pq_Settings :: go_map
  pq_Binds :: "string list"

text \<open>The first element of a list with an error, with its index.\<close>

fun first_bad :: "nat \<Rightarrow> ('a \<Rightarrow> 'e option) \<Rightarrow> 'a list \<Rightarrow> (nat \<times> 'e) option" where
  "first_bad i check [] = None"
| "first_bad i check (x # xs) = (case check x of Some e \<Rightarrow> Some (i, e) | None \<Rightarrow> first_bad (i + 1) check xs)"

definition preflight_Validate :: "preflight \<Rightarrow> query_err option" where
  "preflight_Validate c =
     first_err [err_if (trimSpace (pq_SQL c) = '''') ErrSQL, err_if (pq_Binds c = []) ErrBinds,
       map_option (\<lambda>(i, _). ErrBindName i)
         (first_bad 0 (\<lambda>bindName. err_if (trimSpace bindName = '''') ErrSQL) (pq_Binds c))]"

definition validateVars :: "go_map \<Rightarrow> query_err option" where
  "validateVars vars = err_if (\<exists>k \<in> set (map fst vars). trimSpace k = '''') ErrVarKey"

definition validateFormatNull :: "string \<Rightarrow> query_err option" where
  "validateFormatNull sql =
     err_if (contains (toUpper sql) ''SETTINGS'' \<and> \<not> contains (toUpper sql) ''FORMAT NULL'') ErrFormatNull"

definition validatePreflights :: "preflight list \<Rightarrow> query_err option" where
  "validatePreflights pfs = map_option (\<lambda>(i, e). InPreflight i e) (first_bad 0 preflight_Validate pfs)"

record perf =
  pe_P50 :: int
  pe_P90 :: int
  pe_P95 :: int
  pe_P99 :: int

record query =
  qc_Name :: string
  qc_SQL :: string
  qc_Perf :: "perf option"
  qc_TimeRange :: "time_range option"
  qc_Vars :: go_map
  qc_PreflightQueries :: "preflight list"
  qc_Settings :: go_map

definition query_Validate :: "query \<Rightarrow> query_err option" where
  "query_Validate c =
     first_err [err_if (trimSpace (qc_SQL c) = '''') ErrSQL, validateFormatNull (qc_SQL c),
       validateVars (qc_Vars c), validatePreflights (qc_PreflightQueries c),
       (case qc_TimeRange c of None \<Rightarrow> None | Some r \<Rightarrow> map_option InRange (range_Validate r))]"

section \<open>Workflows\<close>

definition TimeAnchorNow :: string where "TimeAnchorNow = ''now''"
definition TimeAnchorDatasetEnd :: string where "TimeAnchorDatasetEnd = ''dataset_end''"
definition TimeAnchorDatasetRandom :: string where "TimeAnchorDatasetRandom = ''dataset_random''"
definition PerQuery :: string where "PerQuery = ''per_query''"
definition PerLoop :: string where "PerLoop = ''per_loop''"
definition Once :: string where "Once = ''once''"

lemmas cadences = PerQuery_def PerLoop_def Once_def
lemmas anchors = TimeAnchorNow_def TimeAnchorDatasetEnd_def TimeAnchorDatasetRandom_def

record think_time =
  tt_Min :: int
  tt_Max :: int

datatype think_err = ErrThinkNegative | ErrThinkOrder

definition think_Validate :: "think_time \<Rightarrow> think_err option" where
  "think_Validate c = first_err [err_if (tt_Min c < 0 \<or> tt_Max c < 0) ErrThinkNegative,
     err_if (tt_Max c < tt_Min c) ErrThinkOrder]"

record queries_config =
  qs_Random :: bool
  qs_ThinkTime :: think_time
  qs_TimeAnchor :: string
  qs_DefaultTimeRange :: "time_range option"
  qs_DefaultSettings :: go_map
  qs_TimeRangeCadence :: string
  qs_Vars :: go_map
  qs_PreflightQueries :: "preflight list"
  qs_PreflightCadence :: string
  qs_Queries :: "query list"

record har_config =
  hc_File :: string
  hc_ThinkTime :: think_time

datatype workflow_config = NoConfig | Queries queries_config | HAR har_config

record workflow_base =
  wb_Type :: string
  wb_Name :: string
  wb_Config :: workflow_config

record user_config =
  us_Enabled :: bool
  us_Duration :: int
  us_Threads :: int
  us_RampDuration :: int
  us_ClickHouseDSN :: string
  us_ConnectionsPerThread :: int
  us_Database :: string
  us_Table :: string
  us_DatasetUnixStart :: u64
  us_DatasetUnixEnd :: u64
  us_Workflows :: "workflow_base list"

datatype workflow_err =
  ErrAnchorEnd string | ErrAnchorRandom string | InDefaultRange range_err | ErrRangeCadence |
  ErrRangeLoopRandom | ErrPreflightCadence | ErrPreflightLoopRandom | InVars query_err | InPreflights query_err |
  ErrNoQueries | InQuery nat string query_err | ErrHARFile

text \<open>The cadences get their defaults, then the checks run in the order of the code.\<close>

definition cadence_defaults :: "queries_config \<Rightarrow> queries_config" where
  "cadence_defaults c =
     (let c = (if qs_TimeRangeCadence c = '''' then c\<lparr>qs_TimeRangeCadence := PerQuery\<rparr> else c)
      in if qs_PreflightCadence c = '''' then c\<lparr>qs_PreflightCadence := Once\<rparr> else c)"

definition queries_checks :: "user_config \<Rightarrow> queries_config \<Rightarrow> workflow_err option" where
  "queries_checks u c =
     first_err
        [(if qs_TimeAnchor c = TimeAnchorDatasetEnd \<and> us_DatasetUnixEnd u = 0 then Some (ErrAnchorEnd (qs_TimeAnchor c))
          else err_if (qs_TimeAnchor c = TimeAnchorDatasetRandom \<and> (us_DatasetUnixStart u = 0 \<or> us_DatasetUnixEnd u = 0))
            (ErrAnchorRandom (qs_TimeAnchor c))),
         (case qs_DefaultTimeRange c of None \<Rightarrow> None | Some r \<Rightarrow> map_option InDefaultRange (range_Validate r)),
         err_if (qs_TimeRangeCadence c \<noteq> PerQuery \<and> qs_TimeRangeCadence c \<noteq> PerLoop) ErrRangeCadence,
         err_if (qs_TimeRangeCadence c = PerLoop \<and> qs_Random c) ErrRangeLoopRandom,
         err_if (qs_PreflightCadence c \<noteq> Once \<and> qs_PreflightCadence c \<noteq> PerLoop \<and> qs_PreflightCadence c \<noteq> PerQuery)
           ErrPreflightCadence,
         err_if (qs_PreflightCadence c = PerLoop \<and> qs_Random c) ErrPreflightLoopRandom,
         map_option InVars (validateVars (qs_Vars c)),
         map_option InPreflights (validatePreflights (qs_PreflightQueries c)),
         err_if (qs_Queries c = []) ErrNoQueries,
         map_option (\<lambda>(i, e). InQuery i (qc_Name (qs_Queries c ! i)) e) (first_bad 0 query_Validate (qs_Queries c))]"

definition queries_Validate :: "user_config \<Rightarrow> queries_config \<Rightarrow> workflow_err + queries_config" where
  "queries_Validate u c0 =
     (let c = cadence_defaults c0 in
      case queries_checks u c of
        Some e \<Rightarrow> Inl e
      | None \<Rightarrow> Inr c)"

definition har_Validate :: "har_config \<Rightarrow> workflow_err option" where
  "har_Validate c = err_if (hc_File c = '''') ErrHARFile"

datatype user_err =
  ErrUserThreads | ErrConnections | ErrDSN | ErrUserDatabase | ErrUserTable | ErrNoWorkflows |
  ErrUnknownType nat string | ErrNoName nat string | InWorkflow nat string string workflow_err

text \<open>The loop over the workflows; a queries configuration is replaced by the one with its defaults.\<close>

fun workflows_Validate :: "user_config \<Rightarrow> nat \<Rightarrow> workflow_base list \<Rightarrow> user_err + workflow_base list" where
  "workflows_Validate u i [] = Inr []"
| "workflows_Validate u i (w # ws) =
     (if wb_Config w = NoConfig then Inl (ErrUnknownType i (wb_Type w))
      else if wb_Name w = '''' then Inl (ErrNoName i (wb_Type w))
      else case (case wb_Config w of
             Queries c \<Rightarrow> map_sum id Queries (queries_Validate u c)
           | HAR c \<Rightarrow> (case har_Validate c of Some e \<Rightarrow> Inl e | None \<Rightarrow> Inr (HAR c))
           | NoConfig \<Rightarrow> Inr NoConfig) of
        Inl e \<Rightarrow> Inl (InWorkflow i (wb_Type w) (wb_Name w) e)
      | Inr cfg \<Rightarrow>
          (case workflows_Validate u (i + 1) ws of
             Inl e \<Rightarrow> Inl e
           | Inr ws \<Rightarrow> Inr (w\<lparr>wb_Config := cfg\<rparr> # ws)))"

definition user_Validate :: "user_config \<Rightarrow> user_err + user_config" where
  "user_Validate c =
     (if \<not> us_Enabled c then Inr c
      else case first_err [err_if (us_Threads c < 1) ErrUserThreads,
          err_if (us_ConnectionsPerThread c < 1) ErrConnections, err_if (us_ClickHouseDSN c = '''') ErrDSN,
          err_if (us_Database c = '''') ErrUserDatabase, err_if (us_Table c = '''') ErrUserTable,
          err_if (us_Workflows c = []) ErrNoWorkflows] of
        Some e \<Rightarrow> Inl e
      | None \<Rightarrow>
          (case workflows_Validate c 0 (us_Workflows c) of
             Inl e \<Rightarrow> Inl e
           | Inr ws \<Rightarrow> Inr (c\<lparr>us_Workflows := ws\<rparr>)))"

text \<open>Decoding a workflow: first its type and name, then the configuration of that type.\<close>

datatype 'e yaml_err = Decode 'e | UnknownWorkflow string

definition base_UnmarshalYAML ::
    "'e + string \<times> string \<Rightarrow> 'e + queries_config \<Rightarrow> 'e + har_config \<Rightarrow> 'e yaml_err + workflow_base" where
  "base_UnmarshalYAML base as_queries as_har =
     (case base of
        Inl err \<Rightarrow> Inl (Decode err)
      | Inr (typ, name) \<Rightarrow>
          (case (if typ = ''queries'' then map_sum Decode Queries as_queries
                 else if typ = ''har'' then map_sum Decode HAR as_har
                 else Inl (UnknownWorkflow typ)) of
             Inl err \<Rightarrow> Inl err
           | Inr cfg \<Rightarrow> Inr \<lparr>wb_Type = typ, wb_Name = name, wb_Config = cfg\<rparr>))"

section \<open>Lemmas\<close>

lemma first_bad_None [simp]: "first_bad i check xs = None \<longleftrightarrow> (\<forall>x \<in> set xs. check x = None)"
  by (induction xs arbitrary: i) (auto split: option.splits)

lemma first_bad_Some: "first_bad i check xs = Some (j, e) \<Longrightarrow>
    i \<le> j \<and> j < i + length xs \<and> check (xs ! (j - i)) = Some e \<and> (\<forall>k < j - i. check (xs ! k) = None)"
proof (induction xs arbitrary: i)
  case (Cons x xs)
  show ?case
  proof (cases "check x")
    case None
    then have "first_bad (i + 1) check xs = Some (j, e)" using Cons.prems by simp
    note j = Cons.IH [OF this]
    then have "j - i = Suc (j - (i + 1))" by linarith
    then show ?thesis using j None by (auto simp: less_Suc_eq_0_disj nth_Cons')
  qed (use Cons.prems in auto)
qed simp

lemma range_types_distinct: "distinct [TimeRangeNone, TimeRangeFixed, TimeRangeUniform, TimeRangeExponential, TimeRangeLogNormal]"
  by (simp add: range_types)

text \<open>What the checks promise of a time range: an order of the bounds only where both are set.\<close>

definition range_ok :: "time_range \<Rightarrow> bool" where
  "range_ok c \<longleftrightarrow> 0 \<le> tr_Round c \<and>
     tr_Type c \<in> {TimeRangeNone, TimeRangeFixed, TimeRangeUniform, TimeRangeExponential, TimeRangeLogNormal} \<and>
     (tr_Type c = TimeRangeFixed \<longrightarrow> 0 < tr_Lookback c) \<and>
     (tr_Type c = TimeRangeUniform \<longrightarrow> 0 < tr_Min c \<and> tr_Min c \<le> tr_Max c) \<and>
     (tr_Type c \<in> {TimeRangeExponential, TimeRangeLogNormal} \<longrightarrow>
       0 < tr_Mean c \<and> (0 < tr_Min c \<and> 0 < tr_Max c \<longrightarrow> tr_Min c \<le> tr_Max c)) \<and>
     (tr_Type c = TimeRangeLogNormal \<longrightarrow> 0 \<le> tr_Sigma c)"

lemma range_Validate_ok: "range_Validate c = None \<longleftrightarrow> range_ok c"
  using range_types_distinct by (auto simp: range_Validate_def range_ok_def)

text \<open>What they promise of a workflow.\<close>

definition query_ok :: "query \<Rightarrow> bool" where
  "query_ok q \<longleftrightarrow> trimSpace (qc_SQL q) \<noteq> '''' \<and>
     (contains (toUpper (qc_SQL q)) ''SETTINGS'' \<longrightarrow> contains (toUpper (qc_SQL q)) ''FORMAT NULL'') \<and>
     (\<forall>pf \<in> set (qc_PreflightQueries q). pq_Binds pf \<noteq> []) \<and>
     (\<forall>r. qc_TimeRange q = Some r \<longrightarrow> range_ok r)"

definition queries_ok :: "user_config \<Rightarrow> queries_config \<Rightarrow> bool" where
  "queries_ok u c \<longleftrightarrow>
     (qs_TimeAnchor c = TimeAnchorDatasetEnd \<longrightarrow> us_DatasetUnixEnd u \<noteq> 0) \<and>
     (qs_TimeAnchor c = TimeAnchorDatasetRandom \<longrightarrow> us_DatasetUnixStart u \<noteq> 0 \<and> us_DatasetUnixEnd u \<noteq> 0) \<and>
     (\<forall>r. qs_DefaultTimeRange c = Some r \<longrightarrow> range_ok r) \<and>
     qs_TimeRangeCadence c \<in> {PerQuery, PerLoop} \<and> qs_PreflightCadence c \<in> {Once, PerLoop, PerQuery} \<and>
     (qs_Random c \<longrightarrow> qs_TimeRangeCadence c = PerQuery \<and> qs_PreflightCadence c \<noteq> PerLoop) \<and>
     qs_Queries c \<noteq> [] \<and> (\<forall>q \<in> set (qs_Queries c). query_ok q)"

lemma query_Validate_ok: "query_Validate q = None \<Longrightarrow> query_ok q"
  by (auto simp: query_Validate_def query_ok_def validateFormatNull_def validatePreflights_def
      preflight_Validate_def range_Validate_ok split: option.splits)

lemma queries_Validate_ok:
  assumes "queries_Validate u c0 = Inr c"
  shows "queries_ok u c \<and> c = cadence_defaults c0"
proof -
  note v = assms [unfolded queries_Validate_def queries_checks_def Let_def]
  have c: "c = cadence_defaults c0" using v by (auto split: option.splits)
  have "\<forall>q \<in> set (qs_Queries c). query_ok q"
    using v c query_Validate_ok by (auto split: option.splits)
  then show ?thesis
    using v unfolding c queries_ok_def
    by (auto simp: range_Validate_ok cadences split: option.splits if_splits)
qed

lemma workflows_Validate_ok:
  "workflows_Validate u i ws = Inr ws' \<Longrightarrow>
     length ws' = length ws \<and> (\<forall>w \<in> set ws'. wb_Config w \<noteq> NoConfig \<and> wb_Name w \<noteq> '''' \<and>
       (\<forall>c. wb_Config w = Queries c \<longrightarrow> queries_ok u c) \<and> (\<forall>h. wb_Config w = HAR h \<longrightarrow> hc_File h \<noteq> ''''))"
proof (induction ws arbitrary: i ws')
  case (Cons w ws)
  from Cons.prems obtain cfg rest where r: "workflows_Validate u (i + 1) ws = Inr rest"
    and ws': "ws' = w\<lparr>wb_Config := cfg\<rparr> # rest" and n: "wb_Name w \<noteq> ''''"
    and cfg: "(case wb_Config w of
             Queries c \<Rightarrow> map_sum id Queries (queries_Validate u c)
           | HAR c \<Rightarrow> (case har_Validate c of Some e \<Rightarrow> Inl e | None \<Rightarrow> Inr (HAR c))
           | NoConfig \<Rightarrow> Inr NoConfig) = Inr cfg" and some: "wb_Config w \<noteq> NoConfig"
    by (auto split: if_splits sum.splits)
  have "cfg \<noteq> NoConfig \<and> (\<forall>c. cfg = Queries c \<longrightarrow> queries_ok u c) \<and> (\<forall>h. cfg = HAR h \<longrightarrow> hc_File h \<noteq> '''')"
  proof (cases "wb_Config w")
    case (Queries c)
    then obtain c' where "queries_Validate u c = Inr c'" "cfg = Queries c'"
      using cfg by (cases "queries_Validate u c") auto
    then show ?thesis using queries_Validate_ok by blast
  next
    case (HAR h)
    then show ?thesis using cfg by (auto simp: har_Validate_def split: option.splits)
  qed (use some in simp)
  then show ?case using Cons.IH [OF r] ws' n by auto
qed simp

text \<open>
  An accepted user configuration has threads, connections, names and workflows, and every queries
  workflow of it has consistent cadences, anchors whose dates are set, and well formed queries.
\<close>

theorem user_Validate_ok:
  assumes "user_Validate c = Inr c'" and "us_Enabled c"
  shows "1 \<le> us_Threads c' \<and> 1 \<le> us_ConnectionsPerThread c' \<and> us_ClickHouseDSN c' \<noteq> '''' \<and>
    us_Database c' \<noteq> '''' \<and> us_Table c' \<noteq> '''' \<and> us_Workflows c' \<noteq> [] \<and>
    (\<forall>w \<in> set (us_Workflows c'). wb_Config w \<noteq> NoConfig \<and> wb_Name w \<noteq> '''' \<and>
      (\<forall>q. wb_Config w = Queries q \<longrightarrow> queries_ok c q))"
proof -
  obtain ws where "workflows_Validate c 0 (us_Workflows c) = Inr ws" "c' = c\<lparr>us_Workflows := ws\<rparr>"
    using assms by (auto simp: user_Validate_def split: option.splits sum.splits)
  then show ?thesis
    using assms workflows_Validate_ok [of c 0 "us_Workflows c" ws]
    by (auto simp: user_Validate_def split: option.splits)
qed

definition demo_user :: user_config where
  "demo_user =
     \<lparr>us_Enabled = True, us_Duration = 0, us_Threads = 3, us_RampDuration = 0, us_ClickHouseDSN = ''dsn'',
      us_ConnectionsPerThread = 1, us_Database = ''db'', us_Table = ''t'', us_DatasetUnixStart = 0, us_DatasetUnixEnd = 0,
      us_Workflows =
        [\<lparr>wb_Type = ''queries'', wb_Name = ''w'', wb_Config = Queries
           \<lparr>qs_Random = False, qs_ThinkTime = \<lparr>tt_Min = 0, tt_Max = 0\<rparr>, qs_TimeAnchor = ''now'',
            qs_DefaultTimeRange = None, qs_DefaultSettings = [], qs_TimeRangeCadence = '''', qs_Vars = [],
            qs_PreflightQueries = [], qs_PreflightCadence = '''',
            qs_Queries = [\<lparr>qc_Name = ''q'', qc_SQL = ''SELECT 1'', qc_Perf = None, qc_TimeRange = None, qc_Vars = [],
              qc_PreflightQueries = [], qc_Settings = []\<rparr>]\<rparr>\<rparr>]\<rparr>"

lemma demo_user_accepted: "\<exists>c. user_Validate demo_user = Inr c"
proof -
  have "(case user_Validate demo_user of Inl e \<Rightarrow> False | Inr c \<Rightarrow> True)" by code_simp
  then show ?thesis by (auto split: sum.splits)
qed

theorem user_Validate_ok_witness:
  "\<exists>c. user_Validate demo_user = Inr c \<and> 1 \<le> us_Threads c \<and> us_Workflows c \<noteq> []"
proof -
  obtain c where c: "user_Validate demo_user = Inr c" using demo_user_accepted by blast
  have en: "us_Enabled demo_user" by (simp add: demo_user_def)
  show ?thesis using user_Validate_ok [OF c en] c by blast
qed

end
