(* ===== verification/UserRange.thy ===== *)
theory UserRange
  imports UserConfig Floats Replay
begin

text \<open>
  Time ranges of the simulated users (\<open>user/timerange.go\<close>): the lookback is drawn from the configured
  distribution, the range ends at the anchor and both ends may be rounded. Times are nanoseconds
  since 1970. The random source, the float functions and the conversion of a float to a duration
  are arguments; \<open>None\<close> is the panic of a draw from an empty interval.
\<close>

section \<open>Draws\<close>

record 'g user_rng =
  ur_Int64N :: "int \<Rightarrow> 'g \<Rightarrow> int \<times> 'g"
  ur_IntN :: "nat \<Rightarrow> 'g \<Rightarrow> nat \<times> 'g"
  ur_Float64 :: "'g \<Rightarrow> rat \<times> 'g"
  ur_NormFloat64 :: "'g \<Rightarrow> rat \<times> 'g"

definition user_rng_ok :: "'g user_rng \<Rightarrow> bool" where
  "user_rng_ok r \<longleftrightarrow>
     (\<forall>n g. 0 < n \<longrightarrow> 0 \<le> fst (ur_Int64N r n g) \<and> fst (ur_Int64N r n g) < n) \<and>
     (\<forall>n g. 0 < n \<longrightarrow> fst (ur_IntN r n g) < n) \<and>
     (\<forall>g. 0 \<le> fst (ur_Float64 r g) \<and> fst (ur_Float64 r g) < 1)"

definition draw64 :: "'g user_rng \<Rightarrow> int \<Rightarrow> 'g \<Rightarrow> (int \<times> 'g) option" where
  "draw64 r n g = (if n \<le> 0 then None else Some (ur_Int64N r n g))"

definition draw_index :: "'g user_rng \<Rightarrow> nat \<Rightarrow> 'g \<Rightarrow> (nat \<times> 'g) option" where
  "draw_index r n g = (if n = 0 then None else Some (ur_IntN r n g))"

record user_math =
  um_F :: go_float
  um_Log :: "rat \<Rightarrow> rat"
  um_Exp :: "rat \<Rightarrow> rat"
  um_Duration :: "rat \<Rightarrow> int"

section \<open>Sampling\<close>

definition clampDuration :: "int \<Rightarrow> int \<Rightarrow> int \<Rightarrow> int" where
  "clampDuration d mn mx = (if mn > 0 \<and> d < mn then mn else if mx > 0 \<and> d > mx then mx else d)"

definition SampleLookback :: "'g user_rng \<Rightarrow> user_math \<Rightarrow> time_range \<Rightarrow> 'g \<Rightarrow> (int \<times> 'g) option" where
  "SampleLookback r M c g =
     (let F = um_F M in
      if tr_Type c = TimeRangeFixed then Some (tr_Lookback c, g)
      else if tr_Type c = TimeRangeUniform then
        (let spread = i64 (tr_Max c - tr_Min c) in
         case draw64 r spread g of None \<Rightarrow> None | Some (k, g) \<Rightarrow> Some (i64 (tr_Min c + k), g))
      else if tr_Type c = TimeRangeExponential then
        (case ur_Float64 r g of (u, g) \<Rightarrow>
           let mean = of_i64 F (tr_Mean c);
               sample = um_Duration M (fmul F (- mean) (um_Log M (fsub F 1 u)))
           in Some (clampDuration sample (tr_Min c) (tr_Max c), g))
      else if tr_Type c = TimeRangeLogNormal then
        (let sigma = (if tr_Sigma c = 0 then fconst F (1 / 2) else tr_Sigma c);
             mu = fsub F (um_Log M (of_i64 F (tr_Mean c))) (fdiv F (fmul F sigma sigma) 2)
         in case ur_NormFloat64 r g of (z, g) \<Rightarrow>
              let sample = um_Duration M (um_Exp M (fadd F mu (fmul F sigma z)))
              in Some (clampDuration sample (tr_Min c) (tr_Max c), g))
      else Some (tr_Lookback c, g))"

text \<open>\<open>Time.Round\<close>: to the nearest multiple of \<open>d\<close> since the year 1, halves up.\<close>

definition zero_offset :: int where "zero_offset = - zeroTime"

definition time_Round :: "int \<Rightarrow> int \<Rightarrow> int" where
  "time_Round d t =
     (if d \<le> 0 then t
      else let r = (t + zero_offset) mod d in if r + r < d then t - r else t + (d - r))"

definition Resolve ::
    "'g user_rng \<Rightarrow> user_math \<Rightarrow> time_range option \<Rightarrow> int \<Rightarrow> 'g \<Rightarrow> ((int \<times> int) option \<times> 'g) option" where
  "Resolve r M c anchor g =
     (case c of
        None \<Rightarrow> Some (None, g)
      | Some c \<Rightarrow>
          if tr_Type c = TimeRangeNone then Some (None, g)
          else case SampleLookback r M c g of
            None \<Rightarrow> None
          | Some (lookback, g) \<Rightarrow>
              let start = anchor + i64 (- lookback); fin = anchor;
                  (start, fin) = (if tr_Round c > 0 then (time_Round (tr_Round c) start, time_Round (tr_Round c) fin)
                                  else (start, fin))
              in Some (Some (start, fin), g))"

section \<open>Lemmas\<close>

lemma user_rng_okD:
  assumes "user_rng_ok r"
  shows "0 < n \<Longrightarrow> 0 \<le> fst (ur_Int64N r n g)" "0 < n \<Longrightarrow> fst (ur_Int64N r n g) < n"
    "0 < m \<Longrightarrow> fst (ur_IntN r m g) < m"
  using assms by (auto simp: user_rng_ok_def)

lemma time_Round_div:
  assumes "0 < d"
  shows "time_Round d t = d * ((2 * (t + zero_offset) + d) div (2 * d)) - zero_offset"
proof -
  define x where "x = t + zero_offset"
  define q r where "q = x div d" and "r = x mod d"
  have x: "x = d * q + r" by (simp add: q_def r_def)
  have r: "0 \<le> r" "r < d" using assms by (simp_all add: r_def)
  have "2 * x + d = (2 * r + d) + q * (2 * d)" by (simp add: x algebra_simps)
  then have "(2 * x + d) div (2 * d) = q + (2 * r + d) div (2 * d)"
    using div_mult_self1 [of "2 * d" "2 * r + d" q] assms by (simp only:)
  moreover have "(2 * r + d) div (2 * d) = (if r + r < d then 0 else 1)"
  proof (cases "r + r < d")
    case False
    have "(2 * r + d) div (2 * d) = 1 + (2 * r - d) div (2 * d)"
      using div_add_self1 [of "2 * d" "2 * r - d"] assms by (simp add: algebra_simps)
    moreover have "(2 * r - d) div (2 * d) = 0" using r False by (intro div_pos_pos_trivial) auto
    ultimately show ?thesis using False by simp
  qed (use r in \<open>auto intro: div_pos_pos_trivial\<close>)
  ultimately have quot: "(2 * x + d) div (2 * d) = (if r + r < d then q else q + 1)" by simp
  have round: "time_Round d t = (if r + r < d then t - r else t + (d - r))"
    using assms by (simp add: time_Round_def r_def x_def Let_def)
  have t: "t = d * q + r - zero_offset" using x by (simp add: x_def)
  have "time_Round d t = d * (if r + r < d then q else q + 1) - zero_offset"
  proof (cases "r + r < d")
    case True
    show ?thesis unfolding round if_P [OF True] using t by linarith
  next
    case False
    show ?thesis unfolding round if_not_P [OF False] distrib_left mult_1_right using t by linarith
  qed
  then show ?thesis using quot by (simp only: x_def)
qed

lemma time_Round_mono: "t \<le> u \<Longrightarrow> time_Round d t \<le> time_Round d u"
proof (cases "0 < d")
  case True
  assume "t \<le> u"
  then have "(2 * (t + zero_offset) + d) div (2 * d) \<le> (2 * (u + zero_offset) + d) div (2 * d)"
    using True by (intro zdiv_mono1) auto
  then show ?thesis using True by (simp add: time_Round_div)
qed (simp add: time_Round_def)

lemma time_Round_near:
  assumes "0 < d"
  shows "2 * \<bar>time_Round d t - t\<bar> \<le> d"
proof -
  define r where "r = (t + zero_offset) mod d"
  have "0 \<le> r" "r < d" using assms by (simp_all add: r_def)
  then show ?thesis using assms by (auto simp: time_Round_def r_def [symmetric] Let_def abs_if)
qed

lemma time_Round_multiple: "0 < d \<Longrightarrow> d dvd time_Round d t + zero_offset"
  by (simp add: time_Round_div)

text \<open>What a lookback of an accepted range is.\<close>

definition lookback_ok :: "time_range \<Rightarrow> int \<Rightarrow> bool" where
  "lookback_ok c lb \<longleftrightarrow>
     (tr_Type c = TimeRangeFixed \<longrightarrow> lb = tr_Lookback c) \<and>
     (tr_Type c = TimeRangeUniform \<longrightarrow> tr_Min c \<le> lb \<and> lb < tr_Max c) \<and>
     (tr_Type c \<in> {TimeRangeExponential, TimeRangeLogNormal} \<longrightarrow>
       (0 < tr_Min c \<longrightarrow> tr_Min c \<le> lb) \<and> (0 < tr_Max c \<longrightarrow> lb \<le> tr_Max c))"

text \<open>An accepted range can be drawn from, unless it is uniform on a single value.\<close>

definition drawable :: "time_range \<Rightarrow> bool" where
  "drawable c \<longleftrightarrow> range_ok c \<and> in_i64 (tr_Max c) \<and> (tr_Type c = TimeRangeUniform \<longrightarrow> tr_Min c < tr_Max c)"

lemma clamped:
  assumes "range_ok c" and "tr_Type c = TimeRangeExponential \<or> tr_Type c = TimeRangeLogNormal"
  shows "lookback_ok c (clampDuration d (tr_Min c) (tr_Max c))"
proof -
  have o: "0 < tr_Min c \<Longrightarrow> 0 < tr_Max c \<Longrightarrow> tr_Min c \<le> tr_Max c" and n: "tr_Type c \<noteq> TimeRangeFixed" "tr_Type c \<noteq> TimeRangeUniform"
    using assms by (auto simp: range_ok_def range_types)
  have "0 < tr_Min c \<Longrightarrow> tr_Min c \<le> clampDuration d (tr_Min c) (tr_Max c)"
    using o by (simp add: clampDuration_def)
  moreover have "0 < tr_Max c \<Longrightarrow> clampDuration d (tr_Min c) (tr_Max c) \<le> tr_Max c"
    using o by (simp add: clampDuration_def)
  ultimately show ?thesis using n by (simp add: lookback_ok_def)
qed

lemma SampleLookback_ok:
  assumes "user_rng_ok r" and "drawable c"
  shows "\<exists>lb g'. SampleLookback r M c g = Some (lb, g') \<and> (tr_Type c \<noteq> TimeRangeNone \<longrightarrow> lookback_ok c lb)"
proof -
  have ok: "range_ok c" using assms(2) by (simp add: drawable_def)
  consider "tr_Type c = TimeRangeUniform" | "tr_Type c = TimeRangeExponential" | "tr_Type c = TimeRangeLogNormal"
    | "tr_Type c = TimeRangeFixed" | "tr_Type c = TimeRangeNone"
    using ok by (auto simp: range_ok_def)
  then show ?thesis
  proof cases
    case 1
    define s where "s = tr_Max c - tr_Min c"
    have u: "0 < tr_Min c" "tr_Min c < tr_Max c" "in_i64 (tr_Max c)"
      using assms(2) 1 by (auto simp: drawable_def range_ok_def)
    then have s: "i64 s = s" "0 < s" by (auto simp: s_def in_i64_def)
    obtain k g' where k: "ur_Int64N r s g = (k, g')" by fastforce
    have b: "0 \<le> k" "k < s" using user_rng_okD(1,2) [OF assms(1) s(2), of g] by (simp_all add: k)
    then have i: "i64 (tr_Min c + k) = tr_Min c + k" using u by (intro i64_id) (auto simp: s_def in_i64_def)
    have "SampleLookback r M c g = Some (tr_Min c + k, g')"
      using s by (simp add: SampleLookback_def 1 range_types draw64_def s_def [symmetric] k i)
    moreover have "lookback_ok c (tr_Min c + k)"
      using b by (simp add: lookback_ok_def 1 range_types s_def)
    ultimately show ?thesis by blast
  next
    case 2
    then have "\<exists>d g'. SampleLookback r M c g = Some (clampDuration d (tr_Min c) (tr_Max c), g')"
      by (cases "ur_Float64 r g"; cases "ur_NormFloat64 r g") (auto simp: SampleLookback_def range_types Let_def)
    then show ?thesis using clamped [OF ok, of _] 2 by auto
  next
    case 3
    then have "\<exists>d g'. SampleLookback r M c g = Some (clampDuration d (tr_Min c) (tr_Max c), g')"
      by (cases "ur_Float64 r g"; cases "ur_NormFloat64 r g") (auto simp: SampleLookback_def range_types Let_def)
    then show ?thesis using clamped [OF ok, of _] 3 by auto
  qed (simp_all add: SampleLookback_def lookback_ok_def range_types)
qed

lemma Resolve_ok:
  assumes "user_rng_ok r" and "drawable c"
  shows "\<exists>tr g'. Resolve r M (Some c) anchor g = Some (tr, g') \<and> (tr = None \<longleftrightarrow> tr_Type c = TimeRangeNone)"
  using SampleLookback_ok [OF assms, of M g] by (auto simp: Resolve_def Let_def)


definition zero_user_rng :: "unit user_rng" where
  "zero_user_rng = \<lparr>ur_Int64N = \<lambda>_ g. (0, g), ur_IntN = \<lambda>_ g. (0, g), ur_Float64 = \<lambda>g. (0, g), ur_NormFloat64 = \<lambda>g. (0, g)\<rparr>"

definition plain_math :: user_math where
  "plain_math = \<lparr>um_F = exact_float, um_Log = \<lambda>_. 0, um_Exp = \<lambda>_. 1, um_Duration = floor\<rparr>"

lemma zero_user_rng_ok: "user_rng_ok zero_user_rng"
  by (simp add: user_rng_ok_def zero_user_rng_def)

text \<open>From one to two minutes, rounded to the minute.\<close>

definition minutes_range :: time_range where
  "minutes_range = \<lparr>tr_Type = TimeRangeUniform, tr_Round = 60 * ns_per_s, tr_Lookback = 0, tr_Min = 60 * ns_per_s,
     tr_Max = 120 * ns_per_s, tr_Mean = 0, tr_Sigma = 0\<rparr>"


text \<open>
  \<open>Validate\<close> accepts a uniform range with equal bounds, but the draw from it panics.
\<close>

lemma uniform_point_panics:
  assumes "tr_Type c = TimeRangeUniform" and "tr_Min c = tr_Max c" and "0 < tr_Min c" and "0 \<le> tr_Round c"
  shows "range_Validate c = None \<and> SampleLookback r M c g = None \<and> Resolve r M (Some c) anchor g = None"
proof -
  have "SampleLookback r M c g = None" using assms by (simp add: SampleLookback_def range_types draw64_def i64_def)
  then show ?thesis using assms range_types_distinct by (auto simp: range_Validate_ok range_ok_def Resolve_def)
qed

end
