(* ===== verification/UserWorkflow.thy ===== *)
theory UserWorkflow
  imports UserRange Metrics
begin

text \<open>
  The queries workflow of a simulated user (\<open>user/workflow.go\<close>, \<open>user/query.go\<close>): which query is next, its
  time range, the binds of variables and preflight queries with their cadences, its settings and
  text. The client, the clock and the random source are arguments; \<open>None\<close> is a panic. The calls
  of the metrics store are collected as entries.
\<close>

section \<open>Queries and parameters\<close>

definition put_all :: "go_map \<Rightarrow> go_map \<Rightarrow> go_map" where
  "put_all src dst = fold (\<lambda>(k, v). AList.update k v) src dst"

datatype param = NamedText string string | NamedTime string int

record query_params =
  qp_Database :: string
  qp_Table :: string
  qp_TimeStart :: int
  qp_TimeEnd :: int
  qp_Preflight :: go_map

definition Params :: "query_params \<Rightarrow> param list" where
  "Params p =
     [NamedText ''database'' (qp_Database p), NamedText ''table'' (qp_Table p),
      NamedTime ''time_start'' (qp_TimeStart p), NamedTime ''time_end'' (qp_TimeEnd p)] @
     map (\<lambda>(k, v). NamedText k v) (qp_Preflight p)"

definition trimRightSpace :: "string \<Rightarrow> string" where
  "trimRightSpace s = rev (dropWhile (\<lambda>c. c \<in> {CHR '' '', CHR 0x09, CHR 0x0A}) (rev s))"

definition TryAppendFormatNull :: "string \<Rightarrow> string" where
  "TryAppendFormatNull sql =
     (if contains (toUpper sql) ''SETTINGS'' \<or> contains (toUpper sql) ''FORMAT'' then sql
      else trimRightSpace sql @ CHR 0x0A # ''FORMAT Null'')"

definition mergeSettings :: "go_map \<Rightarrow> go_map \<Rightarrow> go_map" where
  "mergeSettings defaults overrides =
     (if defaults = [] then overrides else put_all overrides (put_all defaults []))"

record exec_query =
  eq_QueryIndex :: nat
  eq_Name :: string
  eq_SQL :: string
  eq_Settings :: go_map
  eq_Params :: "param list"
  eq_TimeRange :: int
  eq_Perf :: "perf option"

section \<open>The client\<close>

datatype run_err = Canceled | NoRows | OtherErr string

text \<open>
  The clock, a row scanned into so many texts, and the execution of a query.
\<close>

record 'e user_env =
  ue_Now :: "'e \<Rightarrow> int \<times> 'e"
  ue_QueryRow :: "string \<Rightarrow> go_map \<Rightarrow> param list \<Rightarrow> nat \<Rightarrow> 'e \<Rightarrow> (run_err + string list) \<times> 'e"
  ue_Exec :: "string \<Rightarrow> go_map \<Rightarrow> param list \<Rightarrow> 'e \<Rightarrow> run_err option \<times> 'e"

definition ExecPreflight ::
    "'e user_env \<Rightarrow> string list \<Rightarrow> string \<Rightarrow> go_map \<Rightarrow> param list \<Rightarrow> 'e \<Rightarrow> (run_err + go_map) \<times> 'e" where
  "ExecPreflight V bindNames sql settings params e =
     (case ue_QueryRow V sql settings params (length bindNames) e of
        (Inl err, e) \<Rightarrow> (Inl err, e)
      | (Inr bindValues, e) \<Rightarrow> (Inr (put_all (zip bindNames bindValues) []), e))"

section \<open>State\<close>

record ('g, 'e) workflow_state =
  ws_index :: nat
  ws_sampled :: "(int \<times> int) option"
  ws_binds :: go_map
  ws_cached :: bool
  ws_rng :: 'g
  ws_env :: 'e
  ws_calls :: "entry list"

record workflow =
  wf_name :: string
  wf_Database :: string
  wf_Table :: string
  wf_cfg :: queries_config
  wf_datasetStart :: int
  wf_datasetEnd :: int

record ('g, 'e) user_world =
  uw_rng :: "'g user_rng"
  uw_math :: user_math
  uw_env :: "'e user_env"

definition user_now :: "('g, 'e) user_world \<Rightarrow> ('g, 'e) workflow_state \<Rightarrow> int \<times> ('g, 'e) workflow_state" where
  "user_now U s = (case ue_Now (uw_env U) (ws_env s) of (t, e) \<Rightarrow> (t, s\<lparr>ws_env := e\<rparr>))"

definition user_call :: "entry \<Rightarrow> ('g, 'e) workflow_state \<Rightarrow> ('g, 'e) workflow_state" where
  "user_call m s = s\<lparr>ws_calls := ws_calls s @ [m]\<rparr>"

definition count_call :: "string \<Rightarrow> ('g, 'e) workflow_state \<Rightarrow> ('g, 'e) workflow_state" where
  "count_call name = user_call (plain_entry EntryModeIncrement name 1)"

definition point_call ::
    "('g, 'e) user_world \<Rightarrow> string \<Rightarrow> u64 \<Rightarrow> (string \<times> string) list \<Rightarrow> ('g, 'e) workflow_state \<Rightarrow> ('g, 'e) workflow_state" where
  "point_call U name v attributes s =
     (case user_now U s of (t, s) \<Rightarrow>
        user_call ((plain_entry EntryModePoint name v)\<lparr>en_Timestamp := t, en_Attributes := attributes\<rparr>) s)"

section \<open>The workflow\<close>

definition unix_ns :: "int \<Rightarrow> int" where "unix_ns sec = sec * 1000000000"

definition anchor ::
    "('g, 'e) user_world \<Rightarrow> workflow \<Rightarrow> ('g, 'e) workflow_state \<Rightarrow> (int \<times> ('g, 'e) workflow_state) option" where
  "anchor U w s =
     (if qs_TimeAnchor (wf_cfg w) = TimeAnchorDatasetEnd then Some (unix_ns (wf_datasetEnd w), s)
      else if qs_TimeAnchor (wf_cfg w) = TimeAnchorDatasetRandom then
        (let window = i64 (wf_datasetEnd w - wf_datasetStart w) in
         case draw64 (uw_rng U) window (ws_rng s) of
           None \<Rightarrow> None
         | Some (offset, g) \<Rightarrow> Some (unix_ns (i64 (wf_datasetStart w + offset)), s\<lparr>ws_rng := g\<rparr>))
      else Some (user_now U s))"

definition resolve_at ::
    "('g, 'e) user_world \<Rightarrow> workflow \<Rightarrow> time_range \<Rightarrow> ('g, 'e) workflow_state \<Rightarrow>
     ((int \<times> int) option \<times> ('g, 'e) workflow_state) option" where
  "resolve_at U w c s =
     (case anchor U w s of
        None \<Rightarrow> None
      | Some (a, s) \<Rightarrow>
          (case Resolve (uw_rng U) (uw_math U) (Some c) a (ws_rng s) of
             None \<Rightarrow> None
           | Some (resolved, g) \<Rightarrow> Some (resolved, s\<lparr>ws_rng := g\<rparr>)))"

definition resolveTimeRange ::
    "('g, 'e) user_world \<Rightarrow> workflow \<Rightarrow> query \<Rightarrow> ('g, 'e) workflow_state \<Rightarrow>
     ((int \<times> int) option \<times> ('g, 'e) workflow_state) option" where
  "resolveTimeRange U w q s =
     (case qc_TimeRange q of
        Some c \<Rightarrow> if tr_Type c = TimeRangeNone then Some (None, s) else resolve_at U w c s
      | None \<Rightarrow>
          (case qs_DefaultTimeRange (wf_cfg w) of
             None \<Rightarrow> Some (None, s)
           | Some c \<Rightarrow>
               if tr_Type c = TimeRangeNone then Some (None, s)
               else if qs_TimeRangeCadence (wf_cfg w) = PerQuery \<or> ws_sampled s = None then
                 (case resolve_at U w c s of
                    None \<Rightarrow> None
                  | Some (None, s) \<Rightarrow> Some (None, s)
                  | Some (Some resolved, s) \<Rightarrow> Some (Some resolved, s\<lparr>ws_sampled := Some resolved\<rparr>))
               else Some (ws_sampled s, s)))"

text \<open>The preflight queries one after the other; the error carries the index of the failed one.\<close>

fun execPreflights ::
    "('g, 'e) user_world \<Rightarrow> workflow \<Rightarrow> string \<Rightarrow> query_params \<Rightarrow> nat \<Rightarrow> preflight list \<Rightarrow> go_map \<Rightarrow>
     ('g, 'e) workflow_state \<Rightarrow> (nat \<times> run_err + go_map) \<times> ('g, 'e) workflow_state" where
  "execPreflights U w scope params i [] binds s = (Inr binds, s)"
| "execPreflights U w scope params i (pf # pfs) binds s =
     (let (start, s) = user_now U s;
          (result, e) = ExecPreflight (uw_env U) (pq_Binds pf) (pq_SQL pf) (pq_Settings pf)
            (Params (params\<lparr>qp_Preflight := binds\<rparr>)) (ws_env s);
          s = s\<lparr>ws_env := e\<rparr>
      in case result of
           Inl err \<Rightarrow> (Inl (i, err), count_call ''preflights_failed_total'' s)
         | Inr result \<Rightarrow>
             let s = count_call ''preflights_ok_total'' s;
                 (stop, s) = user_now U s;
                 s = point_call U ''preflight_latency_micros'' (word_of_int (go_quot (stop - start) 1000))
                   [(''workflow_name'', wf_name w), (''preflight_scope'', scope), (''preflight_index'', itoa i)] s
             in execPreflights U w scope params (i + 1) pfs (put_all result binds) s)"

definition getWorkloadBinds ::
    "('g, 'e) user_world \<Rightarrow> workflow \<Rightarrow> query_params \<Rightarrow> ('g, 'e) workflow_state \<Rightarrow>
     (nat \<times> run_err + go_map) \<times> ('g, 'e) workflow_state" where
  "getWorkloadBinds U w params s =
     (let cfg = wf_cfg w in
      if ws_cached s \<and> qs_PreflightCadence cfg \<noteq> PerQuery then (Inr (ws_binds s), s)
      else
        let binds = put_all (qs_Vars cfg) [];
            (result, s) = (if qs_PreflightQueries cfg \<noteq> []
              then execPreflights U w ''workflow'' (params\<lparr>qp_Preflight := binds\<rparr>) 0 (qs_PreflightQueries cfg)
                (put_all binds []) s
              else (Inr binds, s))
        in case result of
             Inl err \<Rightarrow> (Inl err, s)
           | Inr binds \<Rightarrow>
               (Inr binds, if qs_PreflightCadence cfg \<noteq> PerQuery then s\<lparr>ws_binds := binds, ws_cached := True\<rparr> else s))"

definition nextQueryConfig ::
    "('g, 'e) user_world \<Rightarrow> workflow \<Rightarrow> ('g, 'e) workflow_state \<Rightarrow> (nat \<times> query \<times> ('g, 'e) workflow_state) option" where
  "nextQueryConfig U w s =
     (let cfg = wf_cfg w; queries = qs_Queries cfg in
      if qs_Random cfg then
        (case draw_index (uw_rng U) (length queries) (ws_rng s) of
           None \<Rightarrow> None
         | Some (i, g) \<Rightarrow> if i < length queries then Some (i, queries ! i, s\<lparr>ws_rng := g\<rparr>) else None)
      else if queries = [] then None
      else
        let queryIndex = ws_index s mod length queries;
            loopWrapped = (queryIndex = 0);
            s = (if loopWrapped \<and> qs_TimeRangeCadence cfg = PerLoop then s\<lparr>ws_sampled := None\<rparr> else s);
            s = (if loopWrapped \<and> qs_PreflightCadence cfg = PerLoop then s\<lparr>ws_cached := False\<rparr> else s)
        in Some (queryIndex, queries ! queryIndex, s\<lparr>ws_index := ws_index s + 1\<rparr>))"

datatype next_err = WorkflowPreflight nat string nat run_err | QueryPreflight nat string nat run_err

fun err_cause :: "next_err \<Rightarrow> run_err" where
  "err_cause (WorkflowPreflight _ _ _ e) = e"
| "err_cause (QueryPreflight _ _ _ e) = e"

text \<open>The parameters before the binds; without a range the times are zero.\<close>

definition range_params :: "workflow \<Rightarrow> (int \<times> int) option \<Rightarrow> query_params" where
  "range_params w resolved =
     (let (start, fin) = (case resolved of Some r \<Rightarrow> r | None \<Rightarrow> (zeroTime, zeroTime))
      in \<lparr>qp_Database = wf_Database w, qp_Table = wf_Table w, qp_TimeStart = start, qp_TimeEnd = fin,
          qp_Preflight = []\<rparr>)"

definition NextQuery ::
    "('g, 'e) user_world \<Rightarrow> workflow \<Rightarrow> ('g, 'e) workflow_state \<Rightarrow>
     ((next_err + exec_query) \<times> ('g, 'e) workflow_state) option" where
  "NextQuery U w s =
     (case nextQueryConfig U w s of
        None \<Rightarrow> None
      | Some (queryIndex, q, s) \<Rightarrow>
          (case resolveTimeRange U w q s of
             None \<Rightarrow> None
           | Some (resolved, s) \<Rightarrow>
               let resolvedDuration = (case resolved of Some r \<Rightarrow> time_Sub (snd r) (fst r) | None \<Rightarrow> 0);
                   params = range_params w resolved
               in case getWorkloadBinds U w params s of
                    (Inl (i, err), s) \<Rightarrow> Some (Inl (WorkflowPreflight queryIndex (qc_Name q) i err), s)
                  | (Inr workloadBinds, s) \<Rightarrow>
                      let params = params\<lparr>qp_Preflight := put_all (qc_Vars q) (put_all workloadBinds [])\<rparr>;
                          (result, s) = (if qc_PreflightQueries q \<noteq> []
                            then execPreflights U w (qc_Name q) params 0 (qc_PreflightQueries q)
                              (put_all (qp_Preflight params) []) s
                            else (Inr (qp_Preflight params), s))
                      in case result of
                           Inl (i, err) \<Rightarrow> Some (Inl (QueryPreflight queryIndex (qc_Name q) i err), s)
                         | Inr binds \<Rightarrow>
                             Some (Inr \<lparr>eq_QueryIndex = queryIndex, eq_Name = qc_Name q,
                               eq_SQL = TryAppendFormatNull (qc_SQL q),
                               eq_Settings = mergeSettings (qs_DefaultSettings (wf_cfg w)) (qc_Settings q),
                               eq_Params = Params (params\<lparr>qp_Preflight := binds\<rparr>),
                               eq_TimeRange = resolvedDuration, eq_Perf = qc_Perf q\<rparr>, s)))"

definition ResetLoop :: "workflow \<Rightarrow> ('g, 'e) workflow_state \<Rightarrow> bool \<times> ('g, 'e) workflow_state" where
  "ResetLoop w s =
     (if qs_PreflightCadence (wf_cfg w) \<noteq> PerLoop then (False, s)
      else let n = length (qs_Queries (wf_cfg w)) in (True, s\<lparr>ws_index := (ws_index s div n) * n\<rparr>))"

definition ThinkTime ::
    "('g, 'e) user_world \<Rightarrow> workflow \<Rightarrow> ('g, 'e) workflow_state \<Rightarrow> (int \<times> ('g, 'e) workflow_state) option" where
  "ThinkTime U w s =
     (let tt = qs_ThinkTime (wf_cfg w); spread = i64 (tt_Max tt - tt_Min tt) in
      if spread \<le> 0 then Some (tt_Min tt, s)
      else case draw64 (uw_rng U) spread (ws_rng s) of
        None \<Rightarrow> None
      | Some (k, g) \<Rightarrow> Some (i64 (tt_Min tt + k), s\<lparr>ws_rng := g\<rparr>))"

section \<open>Maps: lemmas\<close>

lemma map_of_put_all: "map_of (put_all src dst) = map_of dst ++ map_of (rev src)"
  by (induction src arbitrary: dst) (auto simp: put_all_def update_conv' fun_eq_iff map_add_def split: option.splits)

lemma map_of_rev: "is_map m \<Longrightarrow> map_of (rev m) = map_of m"
proof (induction m)
  case (Cons x m)
  then have "map_of m (fst x) = None" by (auto simp: is_map_def map_of_eq_None_iff)
  then show ?case using Cons by (auto simp: is_map_def fun_eq_iff map_add_def split: option.splits)
qed simp

lemma is_map_put_all: "is_map dst \<Longrightarrow> is_map (put_all src dst)"
  by (induction src arbitrary: dst) (auto simp: put_all_def is_map_def distinct_update)

lemma put_all_map: "is_map src \<Longrightarrow> map_of (put_all src dst) = map_of dst ++ map_of src"
  by (simp add: map_of_put_all map_of_rev)

lemma is_map_Nil [simp]: "is_map []" by (simp add: is_map_def)

lemma put_all_self: "is_map src \<Longrightarrow> map_of (put_all src []) = map_of src"
  by (simp add: put_all_map)

text \<open>Overrides win, and without defaults nothing is copied.\<close>

lemma mergeSettings_lookup:
  "is_map defaults \<Longrightarrow> is_map overrides \<Longrightarrow> map_of (mergeSettings defaults overrides) = map_of defaults ++ map_of overrides"
  by (auto simp: mergeSettings_def put_all_map)

section \<open>Texts: lemmas\<close>

lemma hasPrefix_append: "hasPrefix s (p @ q) \<Longrightarrow> hasPrefix s p"
  unfolding hasPrefix_def by (metis append_eq_conv_conj append_take_drop_id append.assoc)

lemma contains_append: "contains s (p @ q) \<Longrightarrow> contains s p"
  by (induction s) (auto dest: hasPrefix_append)

lemma contains_right: "contains t p \<Longrightarrow> contains (s @ t) p"
  by (induction s) auto

lemma contains_prefix: "contains (p @ t) p"
  by (cases p) (auto simp: hasPrefix_def split: list.splits, (cases t; simp add: hasPrefix_def))

text \<open>The text of every accepted query names a format.\<close>

lemma format_appended:
  assumes "query_ok q"
  shows "contains (toUpper (TryAppendFormatNull (qc_SQL q))) ''FORMAT''"
proof (cases "contains (toUpper (qc_SQL q)) ''SETTINGS'' \<or> contains (toUpper (qc_SQL q)) ''FORMAT''")
  case True
  then have "contains (toUpper (qc_SQL q)) (''FORMAT'' @ '' NULL'') \<or> contains (toUpper (qc_SQL q)) ''FORMAT''"
    using assms by (auto simp: query_ok_def)
  then show ?thesis using True contains_append by (auto simp: TryAppendFormatNull_def)
next
  case False
  have "toUpper (CHR 0x0A # ''FORMAT Null'') = [CHR 0x0A] @ ''FORMAT'' @ '' NULL''"
    by code_simp
  then have "toUpper (TryAppendFormatNull (qc_SQL q)) =
      (toUpper (trimRightSpace (qc_SQL q)) @ [CHR 0x0A]) @ ''FORMAT'' @ '' NULL''"
    using False by (simp add: TryAppendFormatNull_def toUpper_def)
  then show ?thesis by (simp only: contains_right [OF contains_prefix])
qed

text \<open>A function whose name contains the word keeps the clause away.\<close>

lemma format_function_not_appended:
  "TryAppendFormatNull ''SELECT formatReadableSize(1)'' = ''SELECT formatReadableSize(1)''"
  by code_simp

section \<open>No panic\<close>

definition workflow_ok :: "('g, 'e) user_world \<Rightarrow> workflow \<Rightarrow> bool" where
  "workflow_ok U w \<longleftrightarrow> user_rng_ok (uw_rng U) \<and> qs_Queries (wf_cfg w) \<noteq> [] \<and>
     (\<forall>q \<in> set (qs_Queries (wf_cfg w)). query_ok q) \<and>
     (\<forall>r. qs_DefaultTimeRange (wf_cfg w) = Some r \<longrightarrow> drawable r) \<and>
     (\<forall>q \<in> set (qs_Queries (wf_cfg w)). \<forall>r. qc_TimeRange q = Some r \<longrightarrow> drawable r) \<and>
     (qs_TimeAnchor (wf_cfg w) = TimeAnchorDatasetRandom \<longrightarrow> 0 < i64 (wf_datasetEnd w - wf_datasetStart w))"

lemma resolve_at_ok:
  assumes "workflow_ok U w" and "drawable c"
  shows "\<exists>tr s'. resolve_at U w c s = Some (tr, s') \<and> ws_index s' = ws_index s \<and> ws_calls s' = ws_calls s \<and>
    ws_binds s' = ws_binds s \<and> ws_cached s' = ws_cached s \<and> ws_sampled s' = ws_sampled s \<and>
    (tr = None \<longleftrightarrow> tr_Type c = TimeRangeNone)"
proof -
  have "\<exists>a s1. anchor U w s = Some (a, s1) \<and> ws_index s1 = ws_index s \<and> ws_calls s1 = ws_calls s \<and>
      ws_binds s1 = ws_binds s \<and> ws_cached s1 = ws_cached s \<and> ws_sampled s1 = ws_sampled s"
    using assms(1)
    by (auto simp: anchor_def draw64_def workflow_ok_def user_now_def Let_def anchors not_le split: prod.splits)
  then obtain a s1 where a: "anchor U w s = Some (a, s1)" and s1: "ws_index s1 = ws_index s" "ws_calls s1 = ws_calls s"
    "ws_binds s1 = ws_binds s" "ws_cached s1 = ws_cached s" "ws_sampled s1 = ws_sampled s" by blast
  have "user_rng_ok (uw_rng U)" using assms(1) by (simp add: workflow_ok_def)
  from Resolve_ok [OF this assms(2), of "uw_math U" a "ws_rng s1"]
  show ?thesis using a s1 by (auto simp: resolve_at_def)
qed

text \<open>What drawing the time range of a query leaves.\<close>

lemma resolveTimeRange_ok:
  assumes "workflow_ok U w" and "q \<in> set (qs_Queries (wf_cfg w))"
  shows "\<exists>tr s'. resolveTimeRange U w q s = Some (tr, s') \<and> ws_index s' = ws_index s \<and> ws_calls s' = ws_calls s \<and>
    ws_binds s' = ws_binds s \<and> ws_cached s' = ws_cached s \<and>
    (qc_TimeRange q \<noteq> None \<longrightarrow> ws_sampled s' = ws_sampled s) \<and>
    (qc_TimeRange q = None \<and> qs_TimeRangeCadence (wf_cfg w) \<noteq> PerQuery \<longrightarrow>
      (ws_sampled s \<noteq> None \<longrightarrow> ws_sampled s' = ws_sampled s) \<and>
      (tr = (if (\<exists>c. qs_DefaultTimeRange (wf_cfg w) = Some c \<and> tr_Type c \<noteq> TimeRangeNone) then ws_sampled s' else None)) \<and>
      ((\<exists>c. qs_DefaultTimeRange (wf_cfg w) = Some c \<and> tr_Type c \<noteq> TimeRangeNone) \<longrightarrow> ws_sampled s' \<noteq> None))"
proof -
  have "drawable c" if "qc_TimeRange q = Some c" for c using assms that by (auto simp: workflow_ok_def)
  moreover have "drawable c" if "qs_DefaultTimeRange (wf_cfg w) = Some c" for c
    using assms(1) that by (auto simp: workflow_ok_def)
  ultimately show ?thesis
    using resolve_at_ok [OF assms(1), of _ s]
    by (cases "qc_TimeRange q"; cases "qs_DefaultTimeRange (wf_cfg w)")
      (fastforce simp: resolveTimeRange_def split: option.splits)+
qed

section \<open>Preflight queries: lemmas\<close>

definition same_loop :: "('g, 'e) workflow_state \<Rightarrow> ('g, 'e) workflow_state \<Rightarrow> bool" where
  "same_loop s s' \<longleftrightarrow> ws_index s' = ws_index s \<and> ws_sampled s' = ws_sampled s \<and> ws_binds s' = ws_binds s \<and>
     ws_cached s' = ws_cached s \<and> ws_rng s' = ws_rng s"

lemma same_loop_refl [simp]: "same_loop s s" by (simp add: same_loop_def)
lemma same_loop_trans: "same_loop s s1 \<Longrightarrow> same_loop s1 s2 \<Longrightarrow> same_loop s s2" by (simp add: same_loop_def)

lemma same_loop_calls [simp]:
  "same_loop s (user_call m s')  \<longleftrightarrow> same_loop s s'" "same_loop s (count_call n s') \<longleftrightarrow> same_loop s s'"
  "same_loop s (s'\<lparr>ws_env := e\<rparr>) \<longleftrightarrow> same_loop s s'"
  by (simp_all add: same_loop_def user_call_def count_call_def)

lemma same_loop_now: "user_now U s = (t, s') \<Longrightarrow> same_loop s s'"
  by (auto simp: user_now_def same_loop_def split: prod.splits)

lemma same_loop_point: "same_loop s (point_call U n v a s)"
  by (auto simp: point_call_def split: prod.splits dest: same_loop_now)

text \<open>The rows of the preflight queries, one map each, and the binds they leave.\<close>

definition rows_of :: "preflight list \<Rightarrow> go_map list \<Rightarrow> bool" where
  "rows_of pfs rs \<longleftrightarrow> list_all2 (\<lambda>pf r. is_map r \<and> fst ` set r \<subseteq> set (pq_Binds pf)) pfs rs"

definition overlay :: "go_map list \<Rightarrow> (string \<rightharpoonup> string) \<Rightarrow> (string \<rightharpoonup> string)" where
  "overlay rs m = fold (\<lambda>r m. m ++ map_of r) rs m"

lemma keys_put_all: "fst ` set (put_all src dst) = fst ` set src \<union> fst ` set dst"
proof -
  have "dom (map_of (put_all src dst)) = dom (map_of dst ++ map_of (rev src))" by (simp add: map_of_put_all)
  then show ?thesis by (simp add: dom_map_of_conv_image_fst Un_commute)
qed

lemma execPreflights_result:
  assumes "execPreflights U w scope params i pfs binds s = (res, s')"
  shows "same_loop s s' \<and> (\<forall>b. res = Inr b \<longrightarrow> is_map binds \<longrightarrow>
    is_map b \<and> (\<exists>rs. rows_of pfs rs \<and> map_of b = overlay rs (map_of binds)))"
  using assms
proof (induction pfs arbitrary: i binds s)
  case Nil
  then show ?case by (auto simp: rows_of_def overlay_def)
next
  case (Cons pf pfs)
  obtain start s1 where n: "user_now U s = (start, s1)" by fastforce
  obtain r e where x: "ExecPreflight (uw_env U) (pq_Binds pf) (pq_SQL pf) (pq_Settings pf)
      (Params (params\<lparr>qp_Preflight := binds\<rparr>)) (ws_env s1) = (r, e)" by fastforce
  define s2 where "s2 = s1\<lparr>ws_env := e\<rparr>"
  have 2: "same_loop s s2" using same_loop_now [OF n] by (simp add: s2_def)
  show ?case
  proof (cases r)
    case (Inl err)
    then show ?thesis using Cons.prems n x 2 by (auto simp: s2_def [symmetric] Let_def)
  next
    case (Inr m)
    obtain stop s3 where n3: "user_now U (count_call ''preflights_ok_total'' s2) = (stop, s3)" by fastforce
    define s4 where "s4 = point_call U ''preflight_latency_micros'' (word_of_int (go_quot (stop - start) 1000))
      [(''workflow_name'', wf_name w), (''preflight_scope'', scope), (''preflight_index'', itoa i)] s3"
    have "same_loop s s3" using same_loop_trans [OF _ same_loop_now [OF n3]] 2 by simp
    then have 4: "same_loop s s4" unfolding s4_def by (rule same_loop_trans [OF _ same_loop_point])
    have rest: "execPreflights U w scope params (i + 1) pfs (put_all m binds) s4 = (res, s')"
      using Cons.prems by (simp add: n x Inr n3 s2_def [symmetric] s4_def [symmetric] Let_def)
    obtain vs where vs: "m = put_all (zip (pq_Binds pf) vs) []"
      using x Inr by (auto simp: ExecPreflight_def split: prod.splits sum.splits)
    have m: "is_map m" "fst ` set m \<subseteq> set (pq_Binds pf)"
      unfolding vs keys_put_all by (auto simp: is_map_put_all dest: set_zip_leftD)
    note IH = Cons.IH [OF rest]
    have "is_map b \<and> (\<exists>rs. rows_of (pf # pfs) rs \<and> map_of b = overlay rs (map_of binds))"
      if res: "res = Inr b" "is_map binds" for b
    proof -
      obtain rs where rs: "is_map b" "rows_of pfs rs" "map_of b = overlay rs (map_of (put_all m binds))"
        using IH res is_map_put_all [OF res(2), of m] by blast
      then have "map_of b = overlay (m # rs) (map_of binds)" using m by (simp add: overlay_def put_all_map)
      moreover have "rows_of (pf # pfs) (m # rs)" using rs m by (simp add: rows_of_def)
      ultimately show ?thesis using rs by blast
    qed
    then show ?thesis using IH same_loop_trans [OF 4] by blast
  qed
qed

text \<open>What the workload binds of a state are, and what is kept of them.\<close>

lemma getWorkloadBinds_result:
  assumes "getWorkloadBinds U w params s = (res, s')"
  shows "ws_index s' = ws_index s \<and> ws_sampled s' = ws_sampled s \<and> ws_rng s' = ws_rng s \<and>
    (qs_PreflightCadence (wf_cfg w) \<noteq> PerQuery \<longrightarrow>
      (\<forall>b. res = Inr b \<longrightarrow> ws_cached s' \<and> ws_binds s' = b) \<and>
      (ws_cached s \<longrightarrow> res = Inr (ws_binds s) \<and> s' = s) \<and>
      (\<not> ws_cached s \<longrightarrow> (\<forall>err. res = Inl err \<longrightarrow> \<not> ws_cached s')))"
proof (cases "ws_cached s \<and> qs_PreflightCadence (wf_cfg w) \<noteq> PerQuery")
  case True
  then show ?thesis using assms by (auto simp: getWorkloadBinds_def Let_def)
next
  case False
  obtain r s1 where x: "(if qs_PreflightQueries (wf_cfg w) \<noteq> []
      then execPreflights U w ''workflow'' (params\<lparr>qp_Preflight := put_all (qs_Vars (wf_cfg w)) []\<rparr>) 0
        (qs_PreflightQueries (wf_cfg w)) (put_all (put_all (qs_Vars (wf_cfg w)) []) []) s
      else (Inr (put_all (qs_Vars (wf_cfg w)) []), s)) = (r, s1)" by fastforce
  then have "same_loop s s1" using execPreflights_result by (auto split: if_splits) blast
  moreover have "(res, s') = (case r of Inl err \<Rightarrow> (Inl err, s1) | Inr binds \<Rightarrow>
      (Inr binds, if qs_PreflightCadence (wf_cfg w) \<noteq> PerQuery then s1\<lparr>ws_binds := binds, ws_cached := True\<rparr> else s1))"
    using assms False x unfolding getWorkloadBinds_def Let_def by (auto split: if_splits)
  ultimately show ?thesis using False by (auto simp: same_loop_def split: sum.splits)
qed

section \<open>The next query: lemmas\<close>

text \<open>What workload binds can be, and the state that caches them.\<close>

definition workload_map :: "workflow \<Rightarrow> go_map \<Rightarrow> bool" where
  "workload_map w b \<longleftrightarrow> is_map b \<and>
     (\<exists>rs. rows_of (qs_PreflightQueries (wf_cfg w)) rs \<and> map_of b = overlay rs (map_of (qs_Vars (wf_cfg w))))"

definition binds_inv :: "workflow \<Rightarrow> ('g, 'e) workflow_state \<Rightarrow> bool" where
  "binds_inv w s \<longleftrightarrow> (ws_cached s \<longrightarrow> workload_map w (ws_binds s))"

definition maps_ok :: "workflow \<Rightarrow> bool" where
  "maps_ok w \<longleftrightarrow> is_map (qs_Vars (wf_cfg w)) \<and> is_map (qs_DefaultSettings (wf_cfg w)) \<and>
     (\<forall>q \<in> set (qs_Queries (wf_cfg w)). is_map (qc_Vars q) \<and> is_map (qc_Settings q))"

lemma getWorkloadBinds_map:
  assumes "getWorkloadBinds U w params s = (res, s')" and "binds_inv w s" and "maps_ok w"
  shows "(\<forall>b. res = Inr b \<longrightarrow> workload_map w b) \<and> binds_inv w s'"
proof (cases "ws_cached s \<and> qs_PreflightCadence (wf_cfg w) \<noteq> PerQuery")
  case True
  then show ?thesis using assms by (auto simp: getWorkloadBinds_def binds_inv_def Let_def)
next
  case False
  let ?v = "put_all (qs_Vars (wf_cfg w)) []"
  have v: "map_of ?v = map_of (qs_Vars (wf_cfg w))" "is_map ?v" "map_of (put_all ?v []) = map_of (qs_Vars (wf_cfg w))"
    "is_map (put_all ?v [])"
    using assms(3) by (simp_all add: maps_ok_def put_all_self is_map_put_all)
  obtain r s1 where x: "(if qs_PreflightQueries (wf_cfg w) \<noteq> []
      then execPreflights U w ''workflow'' (params\<lparr>qp_Preflight := ?v\<rparr>) 0 (qs_PreflightQueries (wf_cfg w))
        (put_all ?v []) s
      else (Inr ?v, s)) = (r, s1)" by fastforce
  have r: "workload_map w b" if "r = Inr b" for b
  proof (cases "qs_PreflightQueries (wf_cfg w) = []")
    case True
    then have "b = ?v" using x that by simp
    then show ?thesis using v True by (auto simp: workload_map_def rows_of_def overlay_def)
  next
    case False
    then have "execPreflights U w ''workflow'' (params\<lparr>qp_Preflight := ?v\<rparr>) 0 (qs_PreflightQueries (wf_cfg w))
        (put_all ?v []) s = (r, s1)" using x by simp
    from execPreflights_result [OF this] that v show ?thesis by (simp add: workload_map_def)
  qed
  have s1: "same_loop s s1" using x execPreflights_result by (auto split: if_splits) blast
  have "(res, s') = (case r of Inl err \<Rightarrow> (Inl err, s1) | Inr binds \<Rightarrow>
      (Inr binds, if qs_PreflightCadence (wf_cfg w) \<noteq> PerQuery then s1\<lparr>ws_binds := binds, ws_cached := True\<rparr> else s1))"
    using assms(1) False x unfolding getWorkloadBinds_def Let_def by (auto split: if_splits)
  then show ?thesis using r s1 assms(2) by (auto simp: same_loop_def binds_inv_def split: sum.splits if_splits)
qed

definition text_binds :: "param list \<Rightarrow> go_map" where
  "text_binds ps = concat (map (\<lambda>p. case p of NamedText k v \<Rightarrow> [(k, v)] | NamedTime k t \<Rightarrow> []) (drop 4 ps))"

definition exec_range :: "exec_query \<Rightarrow> param \<times> param" where
  "exec_range x = (eq_Params x ! 2, eq_Params x ! 3)"

lemma text_binds_Params [simp]: "text_binds (Params p) = qp_Preflight p"
proof -
  have "concat (map (\<lambda>p. case p of NamedText k v \<Rightarrow> [(k, v)] | NamedTime k t \<Rightarrow> [])
      (map (\<lambda>(k, v). NamedText k v) m)) = m" for m :: go_map
    by (induction m) auto
  then show ?thesis by (simp add: text_binds_def Params_def del: map_map)
qed

text \<open>
  A query that was built, from the state before: which one it is, its range, and its binds over
  the workload binds of the state left behind.
\<close>

definition built :: "workflow \<Rightarrow> nat \<Rightarrow> (int \<times> int) option \<Rightarrow> go_map \<Rightarrow> exec_query \<Rightarrow> bool" where
  "built w i tr wb x \<longleftrightarrow>
     (let q = qs_Queries (wf_cfg w) ! i in
      eq_QueryIndex x = i \<and> eq_Name x = qc_Name q \<and> eq_SQL x = TryAppendFormatNull (qc_SQL q) \<and>
      eq_Settings x = mergeSettings (qs_DefaultSettings (wf_cfg w)) (qc_Settings q) \<and> eq_Perf x = qc_Perf q \<and>
      eq_TimeRange x = (case tr of Some r \<Rightarrow> time_Sub (snd r) (fst r) | None \<Rightarrow> 0) \<and>
      (\<exists>b rs. eq_Params x = Params ((range_params w tr)\<lparr>qp_Preflight := b\<rparr>) \<and> is_map b \<and>
        rows_of (qc_PreflightQueries q) rs \<and> map_of b = overlay rs (map_of wb ++ map_of (qc_Vars q))))"

lemma NextQuery_step:
  assumes n: "NextQuery U w s = Some (res, s')" and maps: "maps_ok w" and inv: "binds_inv w s"
    and cfg: "nextQueryConfig U w s = Some (i, q, s1)" and q: "q = qs_Queries (wf_cfg w) ! i" "q \<in> set (qs_Queries (wf_cfg w))"
    and s1: "binds_inv w s1"
  shows "\<exists>tr s2 wl s3. resolveTimeRange U w q s1 = Some (tr, s2) \<and>
    getWorkloadBinds U w (range_params w tr) s2 = (wl, s3) \<and> same_loop s3 s' \<and>
    (\<forall>x. res = Inr x \<longrightarrow> (\<exists>wb. wl = Inr wb \<and> (binds_inv w s2 \<longrightarrow> built w i tr wb x)))"
proof -
  obtain tr s2 where r: "resolveTimeRange U w q s1 = Some (tr, s2)"
    using n cfg by (cases "resolveTimeRange U w q s1") (auto simp: NextQuery_def)
  obtain wl s3 where g: "getWorkloadBinds U w (range_params w tr) s2 = (wl, s3)" by fastforce
  show ?thesis
  proof (cases wl)
    case (Inl e)
    then show ?thesis using n cfg r g by (cases e) (auto simp: NextQuery_def Let_def)
  next
    case (Inr wb)
    let ?p = "(range_params w tr)\<lparr>qp_Preflight := put_all (qc_Vars q) (put_all wb [])\<rparr>"
    obtain r1 s4 where x: "(if qc_PreflightQueries q \<noteq> []
        then execPreflights U w (qc_Name q) ?p 0 (qc_PreflightQueries q) (put_all (qp_Preflight ?p) []) s3
        else (Inr (qp_Preflight ?p), s3)) = (r1, s4)" by fastforce
    have res: "(res, s') = (case r1 of Inl (k, err) \<Rightarrow> (Inl (QueryPreflight i (qc_Name q) k err), s4)
      | Inr binds \<Rightarrow> (Inr \<lparr>eq_QueryIndex = i, eq_Name = qc_Name q, eq_SQL = TryAppendFormatNull (qc_SQL q),
          eq_Settings = mergeSettings (qs_DefaultSettings (wf_cfg w)) (qc_Settings q),
          eq_Params = Params (?p\<lparr>qp_Preflight := binds\<rparr>),
          eq_TimeRange = (case tr of Some r \<Rightarrow> time_Sub (snd r) (fst r) | None \<Rightarrow> 0), eq_Perf = qc_Perf q\<rparr>, s4))"
      using n cfg r g Inr x unfolding NextQuery_def Let_def by (auto split: sum.splits if_splits)
    have s4: "same_loop s3 s4" using x execPreflights_result by (auto split: if_splits) blast
    have "built w i tr wb x" if rx: "res = Inr x" and inv2: "binds_inv w s2" for x
    proof -
      have wb: "is_map wb" using getWorkloadBinds_map [OF g inv2 maps] Inr by (simp add: workload_map_def)
      have v: "is_map (qc_Vars q)" using maps q(2) by (simp add: maps_ok_def)
      let ?m = "put_all (qc_Vars q) (put_all wb [])"
      have m: "map_of ?m = map_of wb ++ map_of (qc_Vars q)" "is_map ?m" "is_map (put_all ?m [])"
        "map_of (put_all ?m []) = map_of wb ++ map_of (qc_Vars q)"
        using wb v by (simp_all add: put_all_map put_all_self is_map_put_all)
      obtain b where b: "r1 = Inr b" using res rx by (cases r1) auto
      have "is_map b \<and> (\<exists>rs. rows_of (qc_PreflightQueries q) rs \<and> map_of b = overlay rs (map_of wb ++ map_of (qc_Vars q)))"
      proof (cases "qc_PreflightQueries q = []")
        case True
        then have "b = ?m" using x b by simp
        then show ?thesis using m True by (auto simp: rows_of_def overlay_def)
      next
        case False
        then have "execPreflights U w (qc_Name q) ?p 0 (qc_PreflightQueries q) (put_all ?m []) s3 = (r1, s4)"
          using x by simp
        from execPreflights_result [OF this] b m show ?thesis by simp
      qed
      then show ?thesis using res b rx q(1) by (auto simp: built_def Let_def)
    qed
    then show ?thesis using r g Inr res s4 by (auto split: sum.splits)
  qed
qed

lemma nextQueryConfig_ok:
  assumes "workflow_ok U w"
  shows "\<exists>i s1. nextQueryConfig U w s = Some (i, qs_Queries (wf_cfg w) ! i, s1) \<and> i < length (qs_Queries (wf_cfg w)) \<and>
    ws_binds s1 = ws_binds s \<and> (ws_cached s1 \<longrightarrow> ws_cached s) \<and> ws_calls s1 = ws_calls s \<and>
    (qs_PreflightCadence (wf_cfg w) \<noteq> PerLoop \<longrightarrow> ws_cached s1 = ws_cached s) \<and>
    (\<not> qs_Random (wf_cfg w) \<longrightarrow> i = ws_index s mod length (qs_Queries (wf_cfg w)) \<and> ws_index s1 = ws_index s + 1 \<and>
      ws_sampled s1 = (if i = 0 \<and> qs_TimeRangeCadence (wf_cfg w) = PerLoop then None else ws_sampled s) \<and>
      ws_cached s1 = (if i = 0 \<and> qs_PreflightCadence (wf_cfg w) = PerLoop then False else ws_cached s))"
proof (cases "qs_Random (wf_cfg w)")
  case True
  obtain i g where i: "ur_IntN (uw_rng U) (length (qs_Queries (wf_cfg w))) (ws_rng s) = (i, g)" by fastforce
  have "i < length (qs_Queries (wf_cfg w))"
    using user_rng_okD(3) [of "uw_rng U" "length (qs_Queries (wf_cfg w))" "ws_rng s"] assms i
    by (simp add: workflow_ok_def)
  then show ?thesis using True i by (auto simp: nextQueryConfig_def draw_index_def Let_def)
next
  case False
  then show ?thesis using assms by (auto simp: nextQueryConfig_def workflow_ok_def Let_def)
qed

lemma NextQuery_runs:
  assumes "workflow_ok U w"
  shows "\<exists>res s'. NextQuery U w s = Some (res, s')"
proof -
  obtain i s1 where c: "nextQueryConfig U w s = Some (i, qs_Queries (wf_cfg w) ! i, s1)" "i < length (qs_Queries (wf_cfg w))"
    using nextQueryConfig_ok [OF assms] by blast
  obtain tr s2 where "resolveTimeRange U w (qs_Queries (wf_cfg w) ! i) s1 = Some (tr, s2)"
    using resolveTimeRange_ok [OF assms nth_mem [OF c(2)]] by blast
  then show ?thesis using c(1) by (auto simp: NextQuery_def Let_def split: prod.splits sum.splits)
qed

text \<open>One step in the middle or at the start of a loop.\<close>

definition default_active :: "workflow \<Rightarrow> bool" where
  "default_active w \<longleftrightarrow> (\<exists>c. qs_DefaultTimeRange (wf_cfg w) = Some c \<and> tr_Type c \<noteq> TimeRangeNone)"

lemma NextQuery_facts:
  assumes w: "workflow_ok U w" and maps: "maps_ok w" and inv: "binds_inv w s" and n: "NextQuery U w s = Some (res, s')"
  shows "binds_inv w s' \<and>
    (\<exists>i. i < length (qs_Queries (wf_cfg w)) \<and>
      (\<not> qs_Random (wf_cfg w) \<longrightarrow> i = ws_index s mod length (qs_Queries (wf_cfg w)) \<and> ws_index s' = ws_index s + 1) \<and>
      (\<not> qs_Random (wf_cfg w) \<and> qs_TimeRangeCadence (wf_cfg w) = PerLoop \<and> i \<noteq> 0 \<and> ws_sampled s \<noteq> None \<longrightarrow>
        ws_sampled s' = ws_sampled s) \<and>
      (qs_PreflightCadence (wf_cfg w) \<noteq> PerQuery \<and>
        (qs_PreflightCadence (wf_cfg w) = PerLoop \<longrightarrow> \<not> qs_Random (wf_cfg w) \<and> i \<noteq> 0) \<and> ws_cached s \<longrightarrow>
        ws_cached s' \<and> ws_binds s' = ws_binds s) \<and>
      (\<forall>x. res = Inr x \<longrightarrow> (\<exists>tr wb. built w i tr wb x \<and> workload_map w wb \<and>
        (qs_PreflightCadence (wf_cfg w) \<noteq> PerQuery \<longrightarrow> ws_cached s' \<and> wb = ws_binds s') \<and>
        (qs_TimeRangeCadence (wf_cfg w) = PerLoop \<and> qc_TimeRange (qs_Queries (wf_cfg w) ! i) = None \<longrightarrow>
          tr = (if default_active w then ws_sampled s' else None) \<and>
          (default_active w \<longrightarrow> ws_sampled s' \<noteq> None)))))"
proof -
  let ?Q = "qs_Queries (wf_cfg w)"
  obtain i s1 where c: "nextQueryConfig U w s = Some (i, ?Q ! i, s1)" "i < length ?Q"
    and 1: "ws_binds s1 = ws_binds s" "ws_cached s1 \<longrightarrow> ws_cached s"
      "qs_PreflightCadence (wf_cfg w) \<noteq> PerLoop \<longrightarrow> ws_cached s1 = ws_cached s"
      "\<not> qs_Random (wf_cfg w) \<longrightarrow> i = ws_index s mod length ?Q \<and> ws_index s1 = ws_index s + 1 \<and>
        ws_sampled s1 = (if i = 0 \<and> qs_TimeRangeCadence (wf_cfg w) = PerLoop then None else ws_sampled s) \<and>
        ws_cached s1 = (if i = 0 \<and> qs_PreflightCadence (wf_cfg w) = PerLoop then False else ws_cached s)"
    using nextQueryConfig_ok [OF w] by blast
  have inv1: "binds_inv w s1" using inv 1 by (auto simp: binds_inv_def)
  obtain tr s2 wl s3 where r: "resolveTimeRange U w (?Q ! i) s1 = Some (tr, s2)"
    and g: "getWorkloadBinds U w (range_params w tr) s2 = (wl, s3)" and 4: "same_loop s3 s'"
    and x: "\<forall>x. res = Inr x \<longrightarrow> (\<exists>wb. wl = Inr wb \<and> (binds_inv w s2 \<longrightarrow> built w i tr wb x))"
    using NextQuery_step [OF n maps inv c(1) refl nth_mem [OF c(2)] inv1] by (elim exE conjE) (rule that)
  have 2: "ws_index s2 = ws_index s1" "ws_binds s2 = ws_binds s1" "ws_cached s2 = ws_cached s1"
    "qc_TimeRange (?Q ! i) \<noteq> None \<longrightarrow> ws_sampled s2 = ws_sampled s1"
    "qc_TimeRange (?Q ! i) = None \<and> qs_TimeRangeCadence (wf_cfg w) \<noteq> PerQuery \<longrightarrow>
      (ws_sampled s1 \<noteq> None \<longrightarrow> ws_sampled s2 = ws_sampled s1) \<and>
      (tr = (if default_active w then ws_sampled s2 else None)) \<and> (default_active w \<longrightarrow> ws_sampled s2 \<noteq> None)"
    using resolveTimeRange_ok [OF w nth_mem [OF c(2)], of s1] r unfolding default_active_def by auto
  have inv2: "binds_inv w s2" using inv1 2 by (simp add: binds_inv_def)
  note m = getWorkloadBinds_map [OF g inv2 maps] and g' = getWorkloadBinds_result [OF g]
  have s3: "ws_index s' = ws_index s1" "ws_sampled s' = ws_sampled s2" "ws_cached s' = ws_cached s3" "ws_binds s' = ws_binds s3"
    using g' 4 2(1) by (simp_all add: same_loop_def)
  have inv': "binds_inv w s'" using m s3 by (simp add: binds_inv_def)
  have idx: "\<not> qs_Random (wf_cfg w) \<longrightarrow> i = ws_index s mod length ?Q \<and> ws_index s' = ws_index s + 1"
    using 1(4) s3(1) by simp
  have sam: "\<not> qs_Random (wf_cfg w) \<and> qs_TimeRangeCadence (wf_cfg w) = PerLoop \<and> i \<noteq> 0 \<and> ws_sampled s \<noteq> None \<longrightarrow>
      ws_sampled s' = ws_sampled s"
    using 1(4) 2(4,5) s3(2) by (cases "qc_TimeRange (?Q ! i)") (auto simp: cadences)
  have cac: "qs_PreflightCadence (wf_cfg w) \<noteq> PerQuery \<and>
      (qs_PreflightCadence (wf_cfg w) = PerLoop \<longrightarrow> \<not> qs_Random (wf_cfg w) \<and> i \<noteq> 0) \<and> ws_cached s \<longrightarrow>
      ws_cached s' \<and> ws_binds s' = ws_binds s"
  proof
    assume h: "qs_PreflightCadence (wf_cfg w) \<noteq> PerQuery \<and>
      (qs_PreflightCadence (wf_cfg w) = PerLoop \<longrightarrow> \<not> qs_Random (wf_cfg w) \<and> i \<noteq> 0) \<and> ws_cached s"
    then have "ws_cached s2" using 1(3,4) 2(3) by auto
    then have "s3 = s2" using g' h by blast
    then show "ws_cached s' \<and> ws_binds s' = ws_binds s" using \<open>ws_cached s2\<close> s3 2(2) 1(1) by simp
  qed
  have new: "\<exists>tr wb. built w i tr wb x \<and> workload_map w wb \<and>
      (qs_PreflightCadence (wf_cfg w) \<noteq> PerQuery \<longrightarrow> ws_cached s' \<and> wb = ws_binds s') \<and>
      (qs_TimeRangeCadence (wf_cfg w) = PerLoop \<and> qc_TimeRange (?Q ! i) = None \<longrightarrow>
        tr = (if default_active w then ws_sampled s' else None) \<and> (default_active w \<longrightarrow> ws_sampled s' \<noteq> None))" if rx: "res = Inr x" for x
  proof -
    obtain wb where wb: "wl = Inr wb" "built w i tr wb x" using x rx inv2 by blast
    have "workload_map w wb" using m wb(1) by blast
    moreover have "qs_PreflightCadence (wf_cfg w) \<noteq> PerQuery \<longrightarrow> ws_cached s' \<and> wb = ws_binds s'"
      using g' wb(1) s3 by simp
    moreover have "qs_TimeRangeCadence (wf_cfg w) = PerLoop \<and> qc_TimeRange (?Q ! i) = None \<longrightarrow>
        tr = (if default_active w then ws_sampled s' else None) \<and> (default_active w \<longrightarrow> ws_sampled s' \<noteq> None)"
      using 2(5) s3(2) by (auto simp: cadences)
    ultimately show ?thesis using wb(2) by blast
  qed
  show ?thesis using inv' c(2) idx sam cac new by blast
qed

section \<open>Properties\<close>


fun next_queries ::
    "('g, 'e) user_world \<Rightarrow> workflow \<Rightarrow> nat \<Rightarrow> ('g, 'e) workflow_state \<Rightarrow>
     ((next_err + exec_query) list \<times> ('g, 'e) workflow_state) option" where
  "next_queries U w 0 s = Some ([], s)"
| "next_queries U w (Suc k) s =
     (case NextQuery U w s of
        None \<Rightarrow> None
      | Some (r, s) \<Rightarrow> (case next_queries U w k s of None \<Rightarrow> None | Some (rs, s) \<Rightarrow> Some (r # rs, s)))"

text \<open>
  The queries of the rest of a loop, from position \<open>j\<close> on: in order, with one time range for those
  that use the default and one map of workload binds.
\<close>

definition loop_query :: "workflow \<Rightarrow> (int \<times> int) option \<Rightarrow> go_map \<Rightarrow> nat \<Rightarrow> next_err + exec_query \<Rightarrow> bool" where
  "loop_query w tr wb i r \<longleftrightarrow> (\<forall>x. r = Inr x \<longrightarrow> (\<exists>t. built w i t wb x \<and> workload_map w wb \<and>
     (qc_TimeRange (qs_Queries (wf_cfg w) ! i) = None \<longrightarrow> t = tr)))"

definition per_loop :: "workflow \<Rightarrow> bool" where
  "per_loop w \<longleftrightarrow> \<not> qs_Random (wf_cfg w) \<and> qs_TimeRangeCadence (wf_cfg w) = PerLoop \<and> qs_PreflightCadence (wf_cfg w) = PerLoop"

lemma loop_rest:
  assumes w: "workflow_ok U w" "maps_ok w" "per_loop w"
  shows "binds_inv w s \<Longrightarrow> j + k \<le> length (qs_Queries (wf_cfg w)) \<Longrightarrow>
    ws_index s mod length (qs_Queries (wf_cfg w)) = j mod length (qs_Queries (wf_cfg w)) \<Longrightarrow>
    next_queries U w k s = Some (rs, s') \<Longrightarrow>
    length rs = k \<and> ws_index s' = ws_index s + k \<and> binds_inv w s' \<and>
    (\<exists>tr wb. (\<forall>i < k. loop_query w tr wb (j + i) (rs ! i)) \<and>
      (j \<noteq> 0 \<and> ws_sampled s \<noteq> None \<longrightarrow> default_active w \<longrightarrow> tr = ws_sampled s) \<and> (\<not> default_active w \<longrightarrow> tr = None) \<and>
      (j \<noteq> 0 \<and> ws_cached s \<longrightarrow> wb = ws_binds s))"
proof (induction k arbitrary: j s rs)
  case 0
  then show ?case by (auto intro: exI [of _ "if default_active w then ws_sampled s else None"])
next
  case (Suc k)
  let ?n = "length (qs_Queries (wf_cfg w))"
  obtain r s1 rs1 where n: "NextQuery U w s = Some (r, s1)" and rest: "next_queries U w k s1 = Some (rs1, s')"
    and rs: "rs = r # rs1" using Suc.prems(4) by (auto split: option.splits)
  have j: "j < ?n" "ws_index s mod ?n = j" using Suc.prems(2,3) by simp_all
  have p: "\<not> qs_Random (wf_cfg w)" "qs_TimeRangeCadence (wf_cfg w) = PerLoop" "qs_PreflightCadence (wf_cfg w) = PerLoop"
    "PerLoop \<noteq> PerQuery" using w(3) by (simp_all add: per_loop_def cadences)
  note f = NextQuery_facts [OF w(1,2) Suc.prems(1) n]
  have inv: "binds_inv w s1" and idx: "ws_index s1 = ws_index s + 1"
    and sam: "j \<noteq> 0 \<and> ws_sampled s \<noteq> None \<longrightarrow> ws_sampled s1 = ws_sampled s"
    and cac: "j \<noteq> 0 \<and> ws_cached s \<longrightarrow> ws_cached s1 \<and> ws_binds s1 = ws_binds s"
    and new: "\<forall>x. r = Inr x \<longrightarrow> (\<exists>t wb. built w j t wb x \<and> workload_map w wb \<and> ws_cached s1 \<and> wb = ws_binds s1 \<and>
      (qc_TimeRange (qs_Queries (wf_cfg w) ! j) = None \<longrightarrow> t = (if default_active w then ws_sampled s1 else None) \<and>
        (default_active w \<longrightarrow> ws_sampled s1 \<noteq> None)))"
    using f p j(2) by auto
  have "ws_index s1 mod ?n = (j + 1) mod ?n" using idx j(2) by (metis mod_add_left_eq)
  then obtain tr wb where IH: "length rs1 = k" "ws_index s' = ws_index s1 + k" "binds_inv w s'"
    "\<forall>i < k. loop_query w tr wb (j + 1 + i) (rs1 ! i)"
    "ws_sampled s1 \<noteq> None \<longrightarrow> default_active w \<longrightarrow> tr = ws_sampled s1" "\<not> default_active w \<longrightarrow> tr = None"
    "ws_cached s1 \<longrightarrow> wb = ws_binds s1"
    using Suc.IH [of s1 "j + 1" rs1] inv rest Suc.prems(2) by auto
  have head: "loop_query w tr wb j r"
    using new IH(5,6,7) unfolding loop_query_def by (cases "default_active w") fastforce+
  have all: "\<forall>i < Suc k. loop_query w tr wb (j + i) (rs ! i)"
    using head IH(4) by (auto simp: rs less_Suc_eq_0_disj)
  show ?case
    using IH(1,2,3) idx all IH(5,6,7) sam cac by (intro conjI exI [of _ tr] exI [of _ wb]) (auto simp: rs)
qed

text \<open>
  C28. A loop of a workflow whose cadences are per loop: from the start of the query list the queries
  come in the order of the list, whatever fails, and all that are built in the loop share one
  sample of the default time range and one map of workload binds.
\<close>

theorem loop_shares:
  assumes "workflow_ok U w" and "maps_ok w" and "per_loop w" and "binds_inv w s"
    and "length (qs_Queries (wf_cfg w)) dvd ws_index s" and "k \<le> length (qs_Queries (wf_cfg w))"
    and "next_queries U w k s = Some (rs, s')"
  shows "length rs = k \<and> ws_index s' = ws_index s + k \<and>
    (\<exists>tr wb. (\<not> default_active w \<longrightarrow> tr = None) \<and> (\<forall>i < k. loop_query w tr wb i (rs ! i)))"
proof -
  have "ws_index s mod length (qs_Queries (wf_cfg w)) = 0 mod length (qs_Queries (wf_cfg w))"
    using assms(5) by (simp add: dvd_eq_mod_eq_0)
  from loop_rest [OF assms(1-4) _ this assms(7)] assms(6) show ?thesis by auto
qed

text \<open>
  With the cadence once, the workload binds are fixed by the first query that gets them: every
  query built later, in any number of calls, has these binds.
\<close>

lemma once_fixed:
  assumes "workflow_ok U w" and "maps_ok w" and "qs_PreflightCadence (wf_cfg w) = Once"
  shows "binds_inv w s \<Longrightarrow> next_queries U w k s = Some (rs, s') \<Longrightarrow>
    (ws_cached s \<longrightarrow> ws_cached s' \<and> ws_binds s' = ws_binds s) \<and>
    (\<exists>wb. (ws_cached s \<longrightarrow> wb = ws_binds s) \<and>
      (\<forall>r \<in> set rs. \<forall>x. r = Inr x \<longrightarrow> (\<exists>i t. built w i t wb x \<and> workload_map w wb)))"
proof (induction k arbitrary: s rs)
  case (Suc k)
  obtain r s1 rs1 where n: "NextQuery U w s = Some (r, s1)" and rest: "next_queries U w k s1 = Some (rs1, s')"
    and rs: "rs = r # rs1" using Suc.prems(2) by (auto split: option.splits)
  note f = NextQuery_facts [OF assms(1,2) Suc.prems(1) n]
  have c: "qs_PreflightCadence (wf_cfg w) \<noteq> PerQuery" "qs_PreflightCadence (wf_cfg w) \<noteq> PerLoop"
    using assms(3) by (simp_all add: cadences)
  have f1: "binds_inv w s1" "ws_cached s \<longrightarrow> ws_cached s1 \<and> ws_binds s1 = ws_binds s"
    and f2: "\<forall>x. r = Inr x \<longrightarrow> (\<exists>i t. built w i t (ws_binds s1) x \<and> workload_map w (ws_binds s1) \<and> ws_cached s1)"
    using f c by blast+
  note IH = Suc.IH [OF f1(1) rest]
  show ?case
  proof (cases "ws_cached s1")
    case True
    with IH f1 f2 show ?thesis by (auto simp: rs)
  next
    case False
    then show ?thesis using IH f1 f2 by (auto simp: rs)
  qed
qed auto

section \<open>A workflow\<close>

text \<open>A clock that advances one second at every look, a client that answers every row with \<open>x\<close>.\<close>

definition demo_env :: "int user_env" where
  "demo_env = \<lparr>ue_Now = \<lambda>e. (e * 1000000000, e + 1), ue_QueryRow = \<lambda>sql settings ps n e. (Inr (replicate n ''x''), e),
     ue_Exec = \<lambda>sql settings ps e. (None, e)\<rparr>"

definition demo_world :: "(unit, int) user_world" where
  "demo_world = \<lparr>uw_rng = zero_user_rng, uw_math = plain_math, uw_env = demo_env\<rparr>"

definition demo_query :: "string \<Rightarrow> query" where
  "demo_query name = \<lparr>qc_Name = name, qc_SQL = ''SELECT 1'', qc_Perf = None, qc_TimeRange = None, qc_Vars = [(''a'', name)],
     qc_PreflightQueries = [], qc_Settings = []\<rparr>"

definition demo_workflow :: workflow where
  "demo_workflow = \<lparr>wf_name = ''w'', wf_Database = ''d'', wf_Table = ''t'',
     wf_cfg = \<lparr>qs_Random = False, qs_ThinkTime = \<lparr>tt_Min = 0, tt_Max = 0\<rparr>, qs_TimeAnchor = TimeAnchorNow,
       qs_DefaultTimeRange = Some minutes_range, qs_DefaultSettings = [], qs_TimeRangeCadence = PerLoop,
       qs_Vars = [(''a'', ''0''), (''b'', ''0'')],
       qs_PreflightQueries = [\<lparr>pq_SQL = ''SELECT 2'', pq_Settings = [], pq_Binds = [''b'']\<rparr>],
       qs_PreflightCadence = PerLoop, qs_Queries = [demo_query ''q1'', demo_query ''q2'']\<rparr>,
     wf_datasetStart = 0, wf_datasetEnd = 0\<rparr>"

definition demo_start :: "(unit, int) workflow_state" where
  "demo_start = \<lparr>ws_index = 4, ws_sampled = None, ws_binds = [], ws_cached = False, ws_rng = (), ws_env = 1000, ws_calls = []\<rparr>"

lemma demo_workflow_ok: "workflow_ok demo_world demo_workflow" "maps_ok demo_workflow" "per_loop demo_workflow"
    "binds_inv demo_workflow demo_start"
proof -
  have "contains (toUpper ''SELECT 1'') ''SETTINGS'' = False" "trimSpace ''SELECT 1'' = ''SELECT 1''" by code_simp+
  moreover have "drawable minutes_range"
    by (simp add: drawable_def range_ok_def minutes_range_def in_i64_def range_types)
  ultimately show "workflow_ok demo_world demo_workflow" "maps_ok demo_workflow" "per_loop demo_workflow"
    "binds_inv demo_workflow demo_start"
    by (auto simp: workflow_ok_def demo_world_def zero_user_rng_ok demo_workflow_def demo_query_def query_ok_def
        anchors maps_ok_def is_map_def per_loop_def binds_inv_def demo_start_def)
qed

lemma demo_loop:
  "map_option (map (map_sum id (\<lambda>x. (eq_Name x, exec_range x, text_binds (eq_Params x)))) \<circ> fst)
     (next_queries demo_world demo_workflow 2 demo_start) =
   Some [Inr (''q1'', (NamedTime ''time_start'' 960000000000, NamedTime ''time_end'' 1020000000000), [(''a'', ''q1''), (''b'', ''x'')]),
     Inr (''q2'', (NamedTime ''time_start'' 960000000000, NamedTime ''time_end'' 1020000000000), [(''a'', ''q2''), (''b'', ''x'')])]"
  by code_simp

lemma map_sum_Inr: "map_sum f g r = Inr v \<longleftrightarrow> (\<exists>x. r = Inr x \<and> v = g x)"
  by (cases r) auto

theorem loop_shares_witness:
  "\<exists>x y s' tr wb. next_queries demo_world demo_workflow 2 demo_start = Some ([Inr x, Inr y], s') \<and> ws_index s' = 6 \<and>
     exec_range x = exec_range y \<and> loop_query demo_workflow tr wb 0 (Inr x) \<and> loop_query demo_workflow tr wb 1 (Inr y)"
proof -
  obtain rs s' where n: "next_queries demo_world demo_workflow 2 demo_start = Some (rs, s')"
    and "map (map_sum id (\<lambda>x. (eq_Name x, exec_range x, text_binds (eq_Params x)))) rs =
     [Inr (''q1'', (NamedTime ''time_start'' 960000000000, NamedTime ''time_end'' 1020000000000), [(''a'', ''q1''), (''b'', ''x'')]),
      Inr (''q2'', (NamedTime ''time_start'' 960000000000, NamedTime ''time_end'' 1020000000000), [(''a'', ''q2''), (''b'', ''x'')])]"
    using demo_loop by auto
  then obtain x y where rs: "rs = [Inr x, Inr y]" and r: "exec_range x = exec_range y"
    by (auto simp: map_eq_Cons_conv map_sum_Inr)
  have "length (qs_Queries (wf_cfg demo_workflow)) dvd ws_index demo_start" "2 \<le> length (qs_Queries (wf_cfg demo_workflow))"
    by (simp_all add: demo_workflow_def demo_start_def numeral_2_eq_2 [symmetric])
  from loop_shares [OF demo_workflow_ok this n]
  obtain tr wb where "ws_index s' = ws_index demo_start + 2" "\<forall>i < 2. loop_query demo_workflow tr wb i (rs ! i)" by blast
  then show ?thesis using n rs r by (auto simp: demo_start_def less_Suc_eq_0_disj numeral_2_eq_2)
qed


end
