(* ===== verification/UserWorker.thy ===== *)
theory UserWorker
  imports UserWorkflow
begin

text \<open>
  The worker that runs one simulated user and the scheduler that starts and restarts the workers
  (\<open>user/worker.go\<close>, \<open>user/scheduler.go\<close>). Waiting is not modelled, only how long is waited; when
  the context is done is an argument.
\<close>

section \<open>The worker\<close>

text \<open>\<open>int(d.Seconds())\<close>: whole seconds and the rest are added as floats.\<close>

definition duration_seconds :: "user_math \<Rightarrow> int \<Rightarrow> nat" where
  "duration_seconds M d =
     (let F = um_F M in
      nat \<lfloor>fadd F (of_i64 F (d div 1000000000)) (fdiv F (of_i64 F (d mod 1000000000)) 1000000000)\<rfloor>)"

definition perf_attr :: "string \<Rightarrow> int \<Rightarrow> (string \<times> string) list" where
  "perf_attr key d = (if d > 0 then [(key, itoa (nat (d div 1000)))] else [])"

definition query_attrs :: "user_math \<Rightarrow> workflow \<Rightarrow> exec_query \<Rightarrow> (string \<times> string) list" where
  "query_attrs M w q =
     [(''query_index'', itoa (eq_QueryIndex q)), (''query_name'', eq_Name q), (''workflow_name'', wf_name w)] @
     (if eq_TimeRange q > 0 then [(''time_range_seconds'', itoa (duration_seconds M (eq_TimeRange q)))] else []) @
     (case eq_Perf q of
        None \<Rightarrow> []
      | Some p \<Rightarrow> perf_attr ''perf.p50'' (pe_P50 p) @ perf_attr ''perf.p90'' (pe_P90 p) @
          perf_attr ''perf.p95'' (pe_P95 p) @ perf_attr ''perf.p99'' (pe_P99 p))"

definition count_worker ::
    "string \<Rightarrow> string \<Rightarrow> ('g, 'e) workflow_state \<Rightarrow> ('g, 'e) workflow_state" where
  "count_worker name idStr =
     user_call ((plain_entry EntryModeIncrement name 1)\<lparr>en_AttrKey := ''worker_id'', en_AttrValue := idStr\<rparr>)"

datatype user_end = UserStopped | UserFailed next_err | UserGoesOn

text \<open>What a turn did with a query, for the observer.\<close>

datatype user_event = RanOk exec_query | RanFailed exec_query

definition think ::
    "('g, 'e) user_world \<Rightarrow> workflow \<Rightarrow> user_event \<Rightarrow> ('g, 'e) workflow_state \<Rightarrow>
     (user_end \<times> user_event list \<times> ('g, 'e) workflow_state) option" where
  "think U w ev s = (case ThinkTime U w s of None \<Rightarrow> None | Some (delay, s) \<Rightarrow> Some (UserGoesOn, [ev], s))"

definition user_exec ::
    "('g, 'e) user_world \<Rightarrow> workflow \<Rightarrow> string \<Rightarrow> exec_query \<Rightarrow> ('g, 'e) workflow_state \<Rightarrow>
     (user_end \<times> user_event list \<times> ('g, 'e) workflow_state) option" where
  "user_exec U w idStr q s =
     (let (queryStart, s) = user_now U s;
          (err, e) = ue_Exec (uw_env U) (eq_SQL q) (eq_Settings q) (eq_Params q) (ws_env s);
          s = s\<lparr>ws_env := e\<rparr>
      in case err of
           Some Canceled \<Rightarrow> Some (UserGoesOn, [], s)
         | Some _ \<Rightarrow>
             think U w (RanFailed q)
               (count_worker ''queries_failed_worker_total'' idStr (count_call ''queries_failed_total'' s))
         | None \<Rightarrow>
             let (stop, s) = user_now U s;
                 s = point_call U ''query_latency_micros'' (word_of_int (go_quot (stop - queryStart) 1000))
                   (query_attrs (uw_math U) w q) s
             in think U w (RanOk q)
                  (count_worker ''queries_ok_worker_total'' idStr (count_call ''queries_ok_total'' s)))"

definition user_turn ::
    "('g, 'e) user_world \<Rightarrow> workflow \<Rightarrow> string \<Rightarrow> bool \<Rightarrow> ('g, 'e) workflow_state \<Rightarrow>
     (user_end \<times> user_event list \<times> ('g, 'e) workflow_state) option" where
  "user_turn U w idStr done_now s =
     (if done_now then Some (UserStopped, [], s)
      else case NextQuery U w s of
        None \<Rightarrow> None
      | Some (Inl err, s) \<Rightarrow>
          (case err_cause err of
             Canceled \<Rightarrow> Some (UserGoesOn, [], s)
           | NoRows \<Rightarrow> (case ResetLoop w s of (_, s) \<Rightarrow> Some (UserGoesOn, [], s))
           | OtherErr _ \<Rightarrow>
               (case ResetLoop w s of
                  (True, s) \<Rightarrow> Some (UserGoesOn, [], s)
                | (False, s) \<Rightarrow> Some (UserFailed err, [], s)))
      | Some (Inr q, s) \<Rightarrow> user_exec U w idStr q s)"

fun user_worker_Run ::
    "('g, 'e) user_world \<Rightarrow> workflow \<Rightarrow> string \<Rightarrow> bool list \<Rightarrow> ('g, 'e) workflow_state \<Rightarrow>
     (user_end \<times> user_event list \<times> ('g, 'e) workflow_state) option" where
  "user_worker_Run U w idStr [] s = Some (UserGoesOn, [], s)"
| "user_worker_Run U w idStr (d # ds) s =
     (case user_turn U w idStr d s of
        None \<Rightarrow> None
      | Some (UserGoesOn, evs, s) \<Rightarrow>
          (case user_worker_Run U w idStr ds s of
             None \<Rightarrow> None
           | Some (e, evs', s) \<Rightarrow> Some (e, evs @ evs', s))
      | r \<Rightarrow> r)"

section \<open>The scheduler\<close>

datatype workflow_init_err = Unimplemented string | UnknownWorkflowType string | ClientFailed

definition newWorkflow ::
    "user_config \<Rightarrow> string \<Rightarrow> workflow_base \<Rightarrow> int \<Rightarrow> int \<Rightarrow> workflow_init_err + workflow" where
  "newWorkflow u name cfg datasetStart datasetEnd =
     (case wb_Config cfg of
        Queries c \<Rightarrow> Inr \<lparr>wf_name = name, wf_Database = us_Database u, wf_Table = us_Table u, wf_cfg = c,
          wf_datasetStart = datasetStart, wf_datasetEnd = datasetEnd\<rparr>
      | HAR _ \<Rightarrow> Inl (Unimplemented (wb_Type cfg))
      | NoConfig \<Rightarrow> Inl (UnknownWorkflowType (wb_Type cfg)))"

text \<open>Only the first workflow is used; \<open>client_ok\<close> is whether the query runner could be created.\<close>

definition user_newWorker :: "bool \<Rightarrow> user_config \<Rightarrow> (workflow_init_err + workflow) option" where
  "user_newWorker client_ok u =
     (case us_Workflows u of
        [] \<Rightarrow> None
      | cfg # _ \<Rightarrow>
          Some (if \<not> client_ok then Inl ClientFailed
                else newWorkflow u (wb_Name cfg) cfg (sint (us_DatasetUnixStart u)) (sint (us_DatasetUnixEnd u))))"

definition new_state :: "'g \<Rightarrow> 'e \<Rightarrow> ('g, 'e) workflow_state" where
  "new_state g e = \<lparr>ws_index = 0, ws_sampled = None, ws_binds = [], ws_cached = False, ws_rng = g, ws_env = e, ws_calls = []\<rparr>"

definition rampInterval :: "int \<Rightarrow> int \<Rightarrow> int" where
  "rampInterval ramp threads = (if threads \<le> 1 \<or> ramp \<le> 0 then 0 else go_quot ramp threads)"

text \<open>When the workers are started: each waits one step after the one before, the first one too.\<close>

definition start_times :: "user_config \<Rightarrow> int list" where
  "start_times u =
     (let rampStep = rampInterval (us_RampDuration u) (us_Threads u)
      in map (\<lambda>i. if rampStep > 0 then (int i + 1) * rampStep else 0) [0..<nat (us_Threads u)])"

definition user_baseBackoff :: int where "user_baseBackoff = 500 * 1000000"
definition user_maxBackoff :: int where "user_maxBackoff = 30 * 1000000000"

datatype user_attempt = InitFailed | RanNil | RanCanceled | RanErr

text \<open>The waits of \<open>runWorker\<close> between its attempts; a worker that could be created resets the backoff.\<close>

fun user_waits :: "user_attempt list \<Rightarrow> int \<Rightarrow> int list" where
  "user_waits [] backoff = []"
| "user_waits (a # as) backoff =
     (if a = InitFailed then backoff # user_waits as (min (backoff * 2) user_maxBackoff)
      else
        let backoff = user_baseBackoff in
        if a = RanNil \<or> a = RanCanceled then []
        else backoff # user_waits as (min (backoff * 2) user_maxBackoff))"

section \<open>Lemmas\<close>

lemma ThinkTime_ok:
  assumes "user_rng_ok (uw_rng U)"
  shows "\<exists>d s'. ThinkTime U w s = Some (d, s') \<and> ws_index s' = ws_index s \<and> ws_calls s' = ws_calls s \<and>
    ws_binds s' = ws_binds s \<and> ws_cached s' = ws_cached s"
  by (auto simp: ThinkTime_def draw64_def Let_def split: prod.splits)

text \<open>The bounds of a think time that its own check accepts; \<open>user_Validate\<close> does not run this check.\<close>

lemma ThinkTime_bounds:
  assumes "user_rng_ok (uw_rng U)" and "think_Validate (qs_ThinkTime (wf_cfg w)) = None"
    and "in_i64 (tt_Max (qs_ThinkTime (wf_cfg w)))" and "ThinkTime U w s = Some (d, s')"
  shows "tt_Min (qs_ThinkTime (wf_cfg w)) \<le> d \<and> d \<le> tt_Max (qs_ThinkTime (wf_cfg w))"
proof -
  let ?mn = "tt_Min (qs_ThinkTime (wf_cfg w))" and ?mx = "tt_Max (qs_ThinkTime (wf_cfg w))"
  have v: "0 \<le> ?mn" "?mn \<le> ?mx" using assms(2) by (auto simp: think_Validate_def)
  then have spread: "i64 (?mx - ?mn) = ?mx - ?mn" using assms(3) by (intro i64_id) (auto simp: in_i64_def)
  show ?thesis
  proof (cases "?mn = ?mx")
    case True
    then show ?thesis using assms(4) by (simp add: ThinkTime_def spread i64_def Let_def)
  next
    case False
    obtain k g where k: "ur_Int64N (uw_rng U) (?mx - ?mn) (ws_rng s) = (k, g)" by fastforce
    have b: "0 \<le> k" "k < ?mx - ?mn"
      using user_rng_okD(1,2) [OF assms(1), of "?mx - ?mn" "ws_rng s"] False v k by simp_all
    then have "i64 (?mn + k) = ?mn + k" using v assms(3) by (intro i64_id) (auto simp: in_i64_def)
    then have "d = ?mn + k"
      using assms(4) k False v by (simp add: ThinkTime_def spread draw64_def Let_def)
    then show ?thesis using b by simp
  qed
qed

text \<open>Nothing of the configuration check looks at the think time.\<close>

lemma think_time_unchecked:
  "queries_Validate u (c\<lparr>qs_ThinkTime := t\<rparr>) = map_sum id (\<lambda>c. c\<lparr>qs_ThinkTime := t\<rparr>) (queries_Validate u c)"
proof -
  have "cadence_defaults (c\<lparr>qs_ThinkTime := t\<rparr>) = (cadence_defaults c)\<lparr>qs_ThinkTime := t\<rparr>"
    by (simp add: cadence_defaults_def Let_def)
  moreover have "queries_checks u (d\<lparr>qs_ThinkTime := t\<rparr>) = queries_checks u d" for d
    by (simp add: queries_checks_def)
  ultimately show ?thesis by (simp add: queries_Validate_def Let_def split: option.split)
qed

section \<open>The worker: lemmas\<close>

text \<open>The calls of the store for the executed queries, and what the preflight queries add.\<close>

definition named :: "string \<Rightarrow> entry list \<Rightarrow> entry list" where
  "named n ms = filter (\<lambda>m. en_Name m = n) ms"

lemma named_simps [simp]:
  "named n [] = []" "named n (xs @ ys) = named n xs @ named n ys"
  "named n (m # ms) = (if en_Name m = n then m # named n ms else named n ms)"
  by (simp_all add: named_def)

definition ok_queries :: "user_event list \<Rightarrow> exec_query list" where
  "ok_queries evs = concat (map (\<lambda>ev. case ev of RanOk q \<Rightarrow> [q] | RanFailed q \<Rightarrow> []) evs)"

definition failed_queries :: "user_event list \<Rightarrow> exec_query list" where
  "failed_queries evs = concat (map (\<lambda>ev. case ev of RanOk q \<Rightarrow> [] | RanFailed q \<Rightarrow> [q]) evs)"

lemma queries_simps [simp]:
  "ok_queries [] = []" "ok_queries (xs @ ys) = ok_queries xs @ ok_queries ys"
  "ok_queries (RanOk q # evs) = q # ok_queries evs" "ok_queries (RanFailed q # evs) = ok_queries evs"
  "failed_queries [] = []" "failed_queries (xs @ ys) = failed_queries xs @ failed_queries ys"
  "failed_queries (RanOk q # evs) = failed_queries evs" "failed_queries (RanFailed q # evs) = q # failed_queries evs"
  by (simp_all add: ok_queries_def failed_queries_def)

text \<open>
  What \<open>ms\<close>, the calls of a run, say of its events \<open>evs\<close>: the counters count them, in total and for
  the worker, each latency point describes its query, and preflight points and counts agree.
\<close>

definition reported :: "user_math \<Rightarrow> workflow \<Rightarrow> user_event list \<Rightarrow> entry list \<Rightarrow> bool" where
  "reported M w evs ms \<longleftrightarrow>
     map en_Attributes (named ''query_latency_micros'' ms) = map (query_attrs M w) (ok_queries evs) \<and>
     length (named ''queries_ok_total'' ms) = length (ok_queries evs) \<and>
     length (named ''queries_ok_worker_total'' ms) = length (ok_queries evs) \<and>
     length (named ''queries_failed_total'' ms) = length (failed_queries evs) \<and>
     length (named ''queries_failed_worker_total'' ms) = length (failed_queries evs) \<and>
     length (named ''preflight_latency_micros'' ms) = length (named ''preflights_ok_total'' ms)"

lemma reported_append:
  "reported M w evs ms \<Longrightarrow> reported M w evs' ms' \<Longrightarrow> reported M w (evs @ evs') (ms @ ms')"
  by (simp add: reported_def)

lemma reported_Nil [simp]: "reported M w [] []" by (simp add: reported_def)

lemma calls_simps [simp]:
  "ws_calls (user_call m s) = ws_calls s @ [m]"
  "ws_calls (count_call n s) = ws_calls s @ [plain_entry EntryModeIncrement n 1]"
  "ws_calls (count_worker n i s) = ws_calls s @
     [(plain_entry EntryModeIncrement n 1)\<lparr>en_AttrKey := ''worker_id'', en_AttrValue := i\<rparr>]"
  by (simp_all add: user_call_def count_call_def count_worker_def)

lemma calls_now: "user_now U s = (t, s') \<Longrightarrow> ws_calls s' = ws_calls s"
  by (auto simp: user_now_def split: prod.splits)

lemma calls_point:
  "\<exists>t. ws_calls (point_call U n v as s) = ws_calls s @ [(plain_entry EntryModePoint n v)\<lparr>en_Timestamp := t, en_Attributes := as\<rparr>]"
  by (auto simp: point_call_def split: prod.splits dest: calls_now)

lemma execPreflights_calls:
  "execPreflights U w scope params i pfs binds s = (res, s') \<Longrightarrow>
     \<exists>ms. ws_calls s' = ws_calls s @ ms \<and> reported M w [] ms"
proof (induction pfs arbitrary: i binds s)
  case (Cons pf pfs)
  obtain start s1 where n: "user_now U s = (start, s1)" by fastforce
  obtain r e where x: "ExecPreflight (uw_env U) (pq_Binds pf) (pq_SQL pf) (pq_Settings pf)
      (Params (params\<lparr>qp_Preflight := binds\<rparr>)) (ws_env s1) = (r, e)" by fastforce
  define s2 where "s2 = s1\<lparr>ws_env := e\<rparr>"
  have 2: "ws_calls s2 = ws_calls s" using calls_now [OF n] by (simp add: s2_def)
  show ?case
  proof (cases r)
    case (Inl err)
    then have "s' = count_call ''preflights_failed_total'' s2"
      using Cons.prems n x by (auto simp: s2_def [symmetric] Let_def)
    then show ?thesis using 2 by (simp add: reported_def plain_entry_def)
  next
    case (Inr m)
    obtain stop s3 where n3: "user_now U (count_call ''preflights_ok_total'' s2) = (stop, s3)" by fastforce
    define as where "as = [(''workflow_name'', wf_name w), (''preflight_scope'', scope), (''preflight_index'', itoa i)]"
    define s4 where "s4 = point_call U ''preflight_latency_micros'' (word_of_int (go_quot (stop - start) 1000)) as s3"
    have rest: "execPreflights U w scope params (i + 1) pfs (put_all m binds) s4 = (res, s')"
      using Cons.prems by (simp add: n x Inr n3 s2_def [symmetric] s4_def [symmetric] as_def [symmetric] Let_def)
    obtain t where t: "ws_calls s4 = ws_calls s3 @ [(plain_entry EntryModePoint ''preflight_latency_micros''
        (word_of_int (go_quot (stop - start) 1000)))\<lparr>en_Timestamp := t, en_Attributes := as\<rparr>]"
      using calls_point unfolding s4_def by blast
    obtain ms where ms: "ws_calls s' = ws_calls s4 @ ms" "reported M w [] ms" using Cons.IH [OF rest] by blast
    then show ?thesis using calls_now [OF n3] 2 t by (simp add: reported_def plain_entry_def)
  qed
qed simp

definition adds :: "user_math \<Rightarrow> workflow \<Rightarrow> user_event list \<Rightarrow> ('g, 'e) workflow_state \<Rightarrow> ('g, 'e) workflow_state \<Rightarrow> bool" where
  "adds M w evs s s' \<longleftrightarrow> (\<exists>ms. ws_calls s' = ws_calls s @ ms \<and> reported M w evs ms)"

lemma adds_same: "ws_calls s' = ws_calls s \<Longrightarrow> adds M w [] s s'"
  by (simp add: adds_def)

lemma adds_trans: "adds M w evs s s1 \<Longrightarrow> adds M w evs' s1 s2 \<Longrightarrow> adds M w (evs @ evs') s s2"
  unfolding adds_def by (metis append.assoc reported_append)

lemma adds_then: "adds M w [] s s1 \<Longrightarrow> adds M w evs s1 s2 \<Longrightarrow> adds M w evs s s2"
  using adds_trans [of M w "[]"] by simp

lemma getWorkloadBinds_calls:
  assumes "getWorkloadBinds U w params s = (res, s')"
  shows "adds M w [] s s'"
proof (cases "ws_cached s \<and> qs_PreflightCadence (wf_cfg w) \<noteq> PerQuery")
  case True
  then show ?thesis using assms by (auto simp: getWorkloadBinds_def Let_def intro: adds_same)
next
  case False
  let ?v = "put_all (qs_Vars (wf_cfg w)) []"
  obtain r s1 where x: "(if qs_PreflightQueries (wf_cfg w) \<noteq> []
      then execPreflights U w ''workflow'' (params\<lparr>qp_Preflight := ?v\<rparr>) 0 (qs_PreflightQueries (wf_cfg w))
        (put_all ?v []) s
      else (Inr ?v, s)) = (r, s1)" by fastforce
  then have "adds M w [] s s1"
    using execPreflights_calls unfolding adds_def by (auto split: if_splits)
  moreover have "ws_calls s' = ws_calls s1"
    using assms False x unfolding getWorkloadBinds_def Let_def by (auto split: if_splits sum.splits)
  ultimately show ?thesis by (simp add: adds_def)
qed

lemma NextQuery_calls:
  assumes w: "workflow_ok U w" and n: "NextQuery U w s = Some (res, s')"
  shows "adds M w [] s s'"
proof -
  let ?Q = "qs_Queries (wf_cfg w)"
  obtain i s1 where c: "nextQueryConfig U w s = Some (i, ?Q ! i, s1)" "i < length ?Q" and c1: "ws_calls s1 = ws_calls s"
    using nextQueryConfig_ok [OF w] by blast
  obtain tr s2 where r: "resolveTimeRange U w (?Q ! i) s1 = Some (tr, s2)" and c2: "ws_calls s2 = ws_calls s1"
    using resolveTimeRange_ok [OF w nth_mem [OF c(2)], of s1] by blast
  obtain wl s3 where g: "getWorkloadBinds U w (range_params w tr) s2 = (wl, s3)" by fastforce
  have a3: "adds M w [] s s3"
    using adds_then [OF adds_same getWorkloadBinds_calls [OF g]] c1 c2 by simp
  show ?thesis
  proof (cases wl)
    case (Inl e)
    then show ?thesis using n c r g a3 by (cases e) (auto simp: NextQuery_def Let_def)
  next
    case (Inr wb)
    let ?p = "(range_params w tr)\<lparr>qp_Preflight := put_all (qc_Vars (?Q ! i)) (put_all wb [])\<rparr>"
    obtain r1 s4 where x: "(if qc_PreflightQueries (?Q ! i) \<noteq> []
        then execPreflights U w (qc_Name (?Q ! i)) ?p 0 (qc_PreflightQueries (?Q ! i)) (put_all (qp_Preflight ?p) []) s3
        else (Inr (qp_Preflight ?p), s3)) = (r1, s4)" by fastforce
    have "s' = s4"
      using n c r g Inr x unfolding NextQuery_def Let_def by (auto split: sum.splits if_splits)
    moreover have "adds M w [] s3 s4"
      using x execPreflights_calls unfolding adds_def by (auto split: if_splits)
    ultimately show ?thesis using adds_then [OF a3] by simp
  qed
qed

lemma user_exec_calls:
  assumes "workflow_ok U w"
  shows "\<exists>e evs s'. user_exec U w idStr q s = Some (e, evs, s') \<and> e = UserGoesOn \<and> adds (uw_math U) w evs s s' \<and>
    set (ok_queries evs @ failed_queries evs) \<subseteq> {q} \<and> ws_index s' = ws_index s \<and>
    ws_cached s' = ws_cached s \<and> ws_binds s' = ws_binds s"
proof -
  obtain queryStart s1 where n: "user_now U s = (queryStart, s1)" by fastforce
  obtain err e where x: "ue_Exec (uw_env U) (eq_SQL q) (eq_Settings q) (eq_Params q) (ws_env s1) = (err, e)" by fastforce
  define s2 where "s2 = s1\<lparr>ws_env := e\<rparr>"
  have 2: "ws_calls s2 = ws_calls s" "same_loop s s2"
    using calls_now [OF n] same_loop_now [OF n] by (simp_all add: s2_def)
  have rng: "user_rng_ok (uw_rng U)" using assms by (simp add: workflow_ok_def)
  show ?thesis
  proof (cases err)
    case None
    obtain stop s3 where n3: "user_now U s2 = (stop, s3)" by fastforce
    define s4 where "s4 = point_call U ''query_latency_micros'' (word_of_int (go_quot (stop - queryStart) 1000))
      (query_attrs (uw_math U) w q) s3"
    obtain t where t: "ws_calls s4 = ws_calls s3 @ [(plain_entry EntryModePoint ''query_latency_micros''
        (word_of_int (go_quot (stop - queryStart) 1000)))\<lparr>en_Timestamp := t, en_Attributes := query_attrs (uw_math U) w q\<rparr>]"
      using calls_point unfolding s4_def by blast
    define s5 where "s5 = count_worker ''queries_ok_worker_total'' idStr (count_call ''queries_ok_total'' s4)"
    have "adds (uw_math U) w [RanOk q] s s5"
      using 2(1) calls_now [OF n3] t by (simp add: adds_def s5_def reported_def plain_entry_def)
    moreover have "same_loop s s4"
      unfolding s4_def by (rule same_loop_trans [OF same_loop_trans [OF 2(2) same_loop_now [OF n3]] same_loop_point])
    then have "same_loop s s5" by (simp add: s5_def count_worker_def)
    ultimately show ?thesis
      using ThinkTime_ok [OF rng, of w s5] x n n3 None
      by (auto simp: user_exec_def think_def s2_def [symmetric] s4_def [symmetric] s5_def [symmetric] adds_def same_loop_def Let_def)
  next
    case (Some er)
    define s3 where "s3 = count_worker ''queries_failed_worker_total'' idStr (count_call ''queries_failed_total'' s2)"
    have "adds (uw_math U) w [RanFailed q] s s3"
      using 2(1) by (simp add: adds_def s3_def reported_def plain_entry_def)
    moreover have "same_loop s s3" using 2(2) unfolding s3_def by (simp add: count_worker_def)
    ultimately show ?thesis
      using ThinkTime_ok [OF rng, of w s3] x n Some 2
      by (cases er) (auto simp: user_exec_def think_def s2_def [symmetric] s3_def [symmetric] adds_def same_loop_def Let_def)
  qed
qed

text \<open>A turn never panics, keeps the binds invariant and reports what it did.\<close>

lemma user_turn_ok:
  assumes w: "workflow_ok U w" "maps_ok w" and inv: "binds_inv w s"
  shows "\<exists>e evs s'. user_turn U w idStr d s = Some (e, evs, s') \<and> binds_inv w s' \<and> adds (uw_math U) w evs s s' \<and>
    (\<forall>q \<in> set (ok_queries evs @ failed_queries evs). eq_QueryIndex q < length (qs_Queries (wf_cfg w))) \<and>
    (\<forall>err. e = UserFailed err \<longrightarrow> qs_PreflightCadence (wf_cfg w) \<noteq> PerLoop \<and> err_cause err \<notin> {Canceled, NoRows})"
proof (cases d)
  case True
  then show ?thesis using inv by (simp add: user_turn_def adds_same)
next
  case False
  obtain res s1 where n: "NextQuery U w s = Some (res, s1)" using NextQuery_runs [OF w(1)] by blast
  note f = NextQuery_facts [OF w inv n]
  have a: "adds (uw_math U) w [] s s1" by (rule NextQuery_calls [OF w(1) n])
  show ?thesis
  proof (cases res)
    case (Inl err)
    have r: "ws_calls (snd (ResetLoop w s1)) = ws_calls s1" "binds_inv w (snd (ResetLoop w s1))"
      "fst (ResetLoop w s1) \<longleftrightarrow> qs_PreflightCadence (wf_cfg w) = PerLoop"
      using f by (auto simp: ResetLoop_def binds_inv_def Let_def)
    then show ?thesis using False n Inl a f
      by (cases "err_cause err"; cases "ResetLoop w s1"; cases "fst (ResetLoop w s1)") (auto simp: user_turn_def adds_def)
  next
    case (Inr q)
    have i: "eq_QueryIndex q < length (qs_Queries (wf_cfg w))" using f Inr by (auto simp: built_def Let_def)
    obtain e evs s2 where x: "user_exec U w idStr q s1 = Some (e, evs, s2)" "e = UserGoesOn"
      "adds (uw_math U) w evs s1 s2" "set (ok_queries evs @ failed_queries evs) \<subseteq> {q}"
      "ws_cached s2 = ws_cached s1" "ws_binds s2 = ws_binds s1"
      using user_exec_calls [OF w(1)] by blast
    have "binds_inv w s2" using f x by (simp add: binds_inv_def)
    then show ?thesis using False n Inr x i adds_then [OF a x(3)] by (auto simp: user_turn_def)
  qed
qed



text \<open>
  The restart: with the preflight cadence per loop, after any failed preflight query that was
  not cancelled the next query is the first of the list, with nothing cached.
\<close>

theorem user_restart:
  assumes "workflow_ok U w" and "per_loop w" and "NextQuery U w s = Some (Inl err, s1)" and "err_cause err \<noteq> Canceled"
  shows "\<exists>s2. user_turn U w idStr False s = Some (UserGoesOn, [], s2) \<and>
    (\<exists>s3. nextQueryConfig U w s2 = Some (0, qs_Queries (wf_cfg w) ! 0, s3) \<and> ws_sampled s3 = None \<and> \<not> ws_cached s3)"
proof -
  let ?n = "length (qs_Queries (wf_cfg w))"
  have p: "\<not> qs_Random (wf_cfg w)" "qs_TimeRangeCadence (wf_cfg w) = PerLoop" "qs_PreflightCadence (wf_cfg w) = PerLoop"
    using assms(2) by (simp_all add: per_loop_def)
  define s2 where "s2 = s1\<lparr>ws_index := (ws_index s1 div ?n) * ?n\<rparr>"
  have "ResetLoop w s1 = (True, s2)" using p by (simp add: ResetLoop_def s2_def Let_def)
  then have "user_turn U w idStr False s = Some (UserGoesOn, [], s2)"
    using assms(3,4) by (cases "err_cause err") (simp_all add: user_turn_def)
  moreover have "ws_index s2 mod ?n = 0" by (simp add: s2_def)
  ultimately show ?thesis using nextQueryConfig_ok [OF assms(1), of s2] p by auto
qed

text \<open>The same user with a client that finds no row.\<close>

definition no_rows_world :: "(unit, int) user_world" where
  "no_rows_world = demo_world\<lparr>uw_env := demo_env\<lparr>ue_QueryRow := \<lambda>sql settings ps n e. (Inl NoRows, e)\<rparr>\<rparr>"

theorem user_restart_witness:
  "\<exists>s2 s3. user_turn no_rows_world demo_workflow ''7'' False (demo_start\<lparr>ws_index := 5\<rparr>) = Some (UserGoesOn, [], s2) \<and>
     nextQueryConfig no_rows_world demo_workflow s2 = Some (0, demo_query ''q1'', s3)"
proof -
  let ?s = "demo_start\<lparr>ws_index := 5\<rparr>"
  have w: "workflow_ok no_rows_world demo_workflow"
    using demo_workflow_ok(1) by (simp add: workflow_ok_def no_rows_world_def)
  have "map_option (\<lambda>(r, s). r = Inl (WorkflowPreflight 1 ''q2'' 0 NoRows))
      (NextQuery no_rows_world demo_workflow ?s) = Some True" by code_simp
  then obtain s1 where n: "NextQuery no_rows_world demo_workflow ?s = Some (Inl (WorkflowPreflight 1 ''q2'' 0 NoRows), s1)"
    by auto
  from user_restart [OF w demo_workflow_ok(3) n, of "''7''"]
  show ?thesis by (auto simp: demo_workflow_def)
qed

section \<open>The scheduler: lemmas\<close>

text \<open>An accepted configuration whose first workflow is one of queries starts a worker that cannot panic.\<close>

lemma newWorker_ok:
  assumes "user_Validate c = Inr c'" and "us_Enabled c" and "user_newWorker True c' = Some (Inr w)" and "user_rng_ok (uw_rng U)"
    and "\<forall>r. (qs_DefaultTimeRange (wf_cfg w) = Some r \<or> (\<exists>q \<in> set (qs_Queries (wf_cfg w)). qc_TimeRange q = Some r)) \<longrightarrow>
      in_i64 (tr_Max r) \<and> (tr_Type r = TimeRangeUniform \<longrightarrow> tr_Min r \<noteq> tr_Max r)"
    and "qs_TimeAnchor (wf_cfg w) = TimeAnchorDatasetRandom \<longrightarrow> 0 < i64 (wf_datasetEnd w - wf_datasetStart w)"
  shows "workflow_ok U w"
proof -
  note v = user_Validate_ok [OF assms(1,2)]
  then obtain b bs where b: "us_Workflows c' = b # bs" by (cases "us_Workflows c'") auto
  then obtain q where q: "wb_Config b = Queries q" "wf_cfg w = q"
    using assms(3) by (auto simp: user_newWorker_def newWorkflow_def split: workflow_config.splits)
  have ok: "queries_ok c q" using v b q by auto
  then have "drawable r" if "qs_DefaultTimeRange q = Some r \<or> (\<exists>x \<in> set (qs_Queries q). qc_TimeRange x = Some r)" for r
  proof -
    have "range_ok r" using ok that by (auto simp: queries_ok_def query_ok_def)
    moreover have "in_i64 (tr_Max r)" "tr_Type r = TimeRangeUniform \<longrightarrow> tr_Min r \<noteq> tr_Max r"
      using assms(5) that q(2) by auto
    ultimately show ?thesis by (auto simp: drawable_def range_ok_def)
  qed
  then show ?thesis using ok assms(4,6) q(2) by (auto simp: workflow_ok_def queries_ok_def)
qed

text \<open>The start of the users fits the ramp, and the last one starts within one step of its end.\<close>

lemma ramp_bounds:
  assumes "1 < threads" and "0 < ramp" and "threads \<le> ramp"
  shows "0 < rampInterval ramp threads \<and> threads * rampInterval ramp threads \<le> ramp \<and>
    ramp < threads * (rampInterval ramp threads + 1)"
proof -
  define q where "q = ramp div threads"
  have r: "rampInterval ramp threads = q" using assms by (simp add: rampInterval_def go_quot_def q_def)
  have "threads * q + ramp mod threads = ramp" unfolding q_def by simp
  moreover have "ramp mod threads < threads" "0 \<le> ramp mod threads" using assms by simp_all
  moreover have "threads * (q + 1) = threads * q + threads" by (simp add: algebra_simps)
  moreover have "0 < q" using assms by (simp add: q_def pos_imp_zdiv_pos_iff)
  ultimately show ?thesis unfolding r by linarith
qed

lemma start_times_sorted: "sorted (start_times u) \<and> length (start_times u) = nat (us_Threads u)"
  unfolding start_times_def Let_def
  by (auto simp: sorted_iff_nth_mono intro: mult_right_mono)

text \<open>
  The waits between attempts lie between half a second and thirty seconds; failed starts in a row
  wait twice as long each time, and a failed run always waits half a second.
\<close>

lemma user_waits_bounds:
  "user_baseBackoff \<le> b \<Longrightarrow> b \<le> user_maxBackoff \<Longrightarrow> d \<in> set (user_waits as b) \<Longrightarrow>
     user_baseBackoff \<le> d \<and> d \<le> user_maxBackoff"
proof (induction as arbitrary: b)
  case (Cons a as)
  have "user_baseBackoff \<le> min (b * 2) user_maxBackoff" "user_baseBackoff \<le> min (user_baseBackoff * 2) user_maxBackoff"
    using Cons.prems(1) by (auto simp: user_baseBackoff_def user_maxBackoff_def)
  then show ?case
    using Cons.prems Cons.IH [of "min (b * 2) user_maxBackoff"] Cons.IH [of "min (user_baseBackoff * 2) user_maxBackoff"]
    by (auto simp: user_baseBackoff_def user_maxBackoff_def Let_def split: if_splits)
qed simp

lemma user_waits_init:
  "b \<le> user_maxBackoff \<Longrightarrow> 0 \<le> b \<Longrightarrow>
     user_waits (replicate n InitFailed) b = map (\<lambda>k. min (b * 2 ^ k) user_maxBackoff) [0..<n]"
proof (induction n arbitrary: b)
  case (Suc n)
  have "min (min (b * 2) user_maxBackoff * 2 ^ k) user_maxBackoff = min (b * 2 ^ Suc k) user_maxBackoff" for k
    using Suc.prems by (intro min_doubling) simp_all
  then show ?case using Suc.IH [of "min (b * 2) user_maxBackoff"] Suc.prems
    by (simp add: user_maxBackoff_def upt_conv_Cons map_Suc_upt [symmetric] comp_def del: upt_Suc power_Suc)
qed simp

lemma failed_run_waits: "user_waits (RanErr # as) b = user_baseBackoff # user_waits as (2 * user_baseBackoff)"
  by (simp add: user_baseBackoff_def user_maxBackoff_def)

text \<open>A workflow of recorded requests is accepted by the checks, but no worker for it ever starts.\<close>

lemma har_never_starts:
  assumes "us_Workflows u = w # ws" and "wb_Config w = HAR h"
  shows "\<exists>e. user_newWorker client_ok u = Some (Inl e)"
  using assms by (simp add: user_newWorker_def newWorkflow_def)

end
