(* ===== verification/App.thy ===== *)
theory App
  imports MgWorker Disk Insert Otel MetricsExport GenWorker UserWorker
begin

text \<open>
  The program as a whole (\<open>main.go\<close>, \<open>app/config.go\<close>): the checks of the configuration in their order,
  which parts run and with which block pool and queue, and the order in which they are stopped.
  What the client libraries know (compression names), parsing of durations and times and the
  cardinality curve are arguments.
\<close>

section \<open>Configuration\<close>

definition ConfigDataTypeLogs :: string where "ConfigDataTypeLogs = ''logs''"
definition ConfigDataTypeTraces :: string where "ConfigDataTypeTraces = ''traces''"
definition ConfigDataTypeProfiles :: string where "ConfigDataTypeProfiles = ''profiles''"

lemmas data_types = ConfigDataTypeLogs_def ConfigDataTypeTraces_def ConfigDataTypeProfiles_def

record app_config =
  ac_Name :: string
  ac_DataType :: string
  ac_Seed :: string
  ac_Disk :: disk_config
  ac_Generate :: gen_config
  ac_Insert :: insert_config
  ac_OTel :: otel_config
  ac_MetricGen :: mg_config
  ac_Metrics :: metrics_config
  ac_User :: user_config

definition GetDataFolder :: "app_config \<Rightarrow> string" where
  "GetDataFolder c =
     (if ac_DataType c = ConfigDataTypeLogs then dk_LogsPath (ac_Disk c)
      else if ac_DataType c = ConfigDataTypeTraces then dk_TracesPath (ac_Disk c)
      else if ac_DataType c = ConfigDataTypeProfiles then dk_ProfilesPath (ac_Disk c)
      else '''')"

definition GetInsertTable :: "app_config \<Rightarrow> string" where
  "GetInsertTable c =
     (if ac_DataType c = ConfigDataTypeLogs then ck_LogsTable (ik_ClickHouse (ac_Insert c))
      else if ac_DataType c = ConfigDataTypeTraces then ck_TracesTable (ik_ClickHouse (ac_Insert c))
      else if ac_DataType c = ConfigDataTypeProfiles then ck_ProfilesTable (ik_ClickHouse (ac_Insert c))
      else '''')"

datatype app_err =
  ErrDataTypeMissing | ErrDataType | ErrTwoSources | ErrOTelProfiles | InDisk disk_err | ErrFolder string |
  InGenerate gen_err | InInsert insert_err | ErrTable string | InOTel otel_err | InMetricGen mg_err |
  InMetrics metrics_err | InUser user_err

text \<open>What the checks of the parts take from libraries.\<close>

record app_libs =
  al_compression :: "string \<Rightarrow> bool"
  al_duration :: "string \<Rightarrow> int option"
  al_rfc3339 :: "string \<Rightarrow> int option"
  al_curve :: "rat \<Rightarrow> rat \<Rightarrow> int \<Rightarrow> rat"
  al_now :: int

definition isBlockMode :: "app_config \<Rightarrow> bool" where
  "isBlockMode c \<longleftrightarrow> dk_Enabled (ac_Disk c) \<or> gc_Enabled (ac_Generate c) \<or> ik_Enabled (ac_Insert c) \<or> oc_Enabled (ac_OTel c)"

definition known_data_type :: "app_config \<Rightarrow> bool" where
  "known_data_type c \<longleftrightarrow> ac_DataType c = ConfigDataTypeLogs \<or> ac_DataType c = ConfigDataTypeTraces \<or>
     ac_DataType c = ConfigDataTypeProfiles"

definition mode_checks :: "app_config \<Rightarrow> app_err option" where
  "mode_checks c = first_err
     [(if ac_DataType c = '''' then err_if (isBlockMode c) ErrDataTypeMissing
       else err_if (\<not> known_data_type c) ErrDataType),
      err_if (dk_Enabled (ac_Disk c) \<and> gc_Enabled (ac_Generate c)) ErrTwoSources,
      err_if (ac_DataType c = ConfigDataTypeProfiles \<and> oc_Enabled (ac_OTel c)) ErrOTelProfiles]"

text \<open>The switch over the data type after an empty folder or table: no error for another type.\<close>

definition folder_check :: "app_config \<Rightarrow> app_err option" where
  "folder_check c = err_if (dk_Enabled (ac_Disk c) \<and> GetDataFolder c = '''' \<and> known_data_type c) (ErrFolder (ac_DataType c))"

definition table_check :: "app_config \<Rightarrow> app_err option" where
  "table_check c = err_if (ik_Enabled (ac_Insert c) \<and> GetInsertTable c = '''' \<and> known_data_type c) (ErrTable (ac_DataType c))"

text \<open>Early return on an error, and on the error of a step that gives a value.\<close>

definition unless_err :: "'e option \<Rightarrow> 'e + 'a \<Rightarrow> 'e + 'a" where
  "unless_err e r = (case e of Some x \<Rightarrow> Inl x | None \<Rightarrow> r)"

definition with_value :: "'e + 'a \<Rightarrow> ('a \<Rightarrow> 'e + 'b) \<Rightarrow> 'e + 'b" where
  "with_value m f = (case m of Inl e \<Rightarrow> Inl e | Inr a \<Rightarrow> f a)"

definition disk_step :: "app_config \<Rightarrow> app_err + app_config" where
  "disk_step c =
     (case disk_Validate (ac_Disk c) of (e, disk) \<Rightarrow>
        unless_err (map_option InDisk e) (Inr (c\<lparr>ac_Disk := disk\<rparr>)))"

definition generate_step :: "app_config \<Rightarrow> app_err + app_config" where
  "generate_step c = map_sum InGenerate (\<lambda>g. c\<lparr>ac_Generate := g\<rparr>) (gen_Validate (ac_Generate c))"

definition user_step :: "app_config \<Rightarrow> app_err + app_config" where
  "user_step c = map_sum InUser (\<lambda>u. c\<lparr>ac_User := u\<rparr>) (user_Validate (ac_User c))"

definition sink_checks :: "app_libs \<Rightarrow> app_config \<Rightarrow> app_err option" where
  "sink_checks L c = first_err
     [map_option InInsert (insert_Validate (al_compression L) (ac_Insert c)), table_check c,
      map_option InOTel (otel_Validate (ac_OTel c)),
      map_option InMetricGen
        (mg_Validate (al_duration L) (al_rfc3339 L) (al_curve L) (al_now L) (ac_MetricGen c)),
      map_option InMetrics (metrics_Validate (ac_Metrics c))]"

definition app_Validate :: "app_libs \<Rightarrow> app_config \<Rightarrow> app_err + app_config" where
  "app_Validate L c =
     unless_err (mode_checks c)
       (with_value (disk_step c) (\<lambda>c.
        unless_err (folder_check c)
          (with_value (generate_step c) (\<lambda>c.
           unless_err (sink_checks L c) (user_step c)))))"

text \<open>The seed is the run id unless it is configured; the first eight bytes of the id name the log file.\<close>

definition app_seed :: "string \<Rightarrow> app_config \<Rightarrow> app_config" where
  "app_seed runID c = (if ac_Seed c = '''' then c\<lparr>ac_Seed := runID\<rparr> else c)"

definition log_file_id :: "string \<Rightarrow> string option" where
  "log_file_id runID = (if 8 \<le> length runID then Some (take 8 runID) else None)"

section \<open>Wiring\<close>

datatype block_kind =
  GenLogsBlock | GenTracesBlock | GenProfilesBlock | LogsBlock bool | TracesBlock | ProfilesBlock

datatype pool_kind = Reusing int int | Garbage

datatype source = FromGenerate bool | FromDisk string bool | NoSource

record wiring =
  wr_insertEnabled :: bool
  wr_otelEnabled :: bool
  wr_blocksToAlloc :: int
  wr_create :: "block_kind option"
  wr_pool :: pool_kind
  wr_queueCap :: "int option"
  wr_source :: source
  wr_inserter :: "string option"
  wr_exporter :: bool
  wr_metricGen :: bool
  wr_user :: bool

definition block_create :: "app_config \<Rightarrow> block_kind option" where
  "block_create c =
     (if gc_Enabled (ac_Generate c) then
        (if ac_DataType c = ConfigDataTypeLogs then Some GenLogsBlock
         else if ac_DataType c = ConfigDataTypeTraces then Some GenTracesBlock
         else if ac_DataType c = ConfigDataTypeProfiles then Some GenProfilesBlock
         else None)
      else if ac_DataType c = ConfigDataTypeLogs then Some (LogsBlock (dk_HasTimestampTime (ac_Disk c)))
      else if ac_DataType c = ConfigDataTypeTraces then Some TracesBlock
      else if ac_DataType c = ConfigDataTypeProfiles then Some ProfilesBlock
      else None)"

text \<open>\<open>None\<close>: making a channel of negative capacity panics.\<close>

definition app_wiring :: "app_config \<Rightarrow> wiring option" where
  "app_wiring c =
     (let insertEnabled = (ik_Enabled (ac_Insert c) \<and> \<not> oc_Enabled (ac_OTel c));
          otelEnabled = oc_Enabled (ac_OTel c);
          sourceThreads = (if gc_Enabled (ac_Generate c) then gc_Threads (ac_Generate c) else dk_Threads (ac_Disk c));
          consumerThreads = (if insertEnabled then ik_Threads (ac_Insert c)
            else if otelEnabled then oc_Threads (ac_OTel c) else 0);
          blocksToAlloc = i64 (i64 (sourceThreads + consumerThreads) * 2);
          create = block_create c;
          passthrough = (\<not> (insertEnabled \<or> otelEnabled));
          hasSource = (dk_Enabled (ac_Disk c) \<or> gc_Enabled (ac_Generate c))
      in if create \<noteq> None \<and> blocksToAlloc < 0 then None
         else Some
           \<lparr>wr_insertEnabled = insertEnabled, wr_otelEnabled = otelEnabled, wr_blocksToAlloc = blocksToAlloc,
            wr_create = create,
            wr_pool = (if create = None then Garbage
              else if gc_Enabled (ac_Generate c) then
                (if gc_ReuseBlocks (ac_Generate c) then Reusing blocksToAlloc (gc_BlockRetirementUses (ac_Generate c))
                 else Garbage)
              else if dk_ReuseBlocks (ac_Disk c) then Reusing blocksToAlloc (dk_BlockRetirementUses (ac_Disk c))
              else Garbage),
            wr_queueCap = (if create = None then None else Some blocksToAlloc),
            wr_source = (if gc_Enabled (ac_Generate c) then FromGenerate passthrough
              else if dk_Enabled (ac_Disk c) then FromDisk (GetDataFolder c) passthrough else NoSource),
            wr_inserter = (if insertEnabled \<and> hasSource then Some (GetInsertTable c) else None),
            wr_exporter = (otelEnabled \<and> hasSource),
            wr_metricGen = mg_Enabled (ac_MetricGen c), wr_user = us_Enabled (ac_User c)\<rparr>)"

definition targetBytesPerSecond :: "app_config \<Rightarrow> u64" where
  "targetBytesPerSecond c = dk_MiBytesPerSecondLimit (ac_Disk c) * 1024 * 1024"

definition runName :: "string \<Rightarrow> app_config \<Rightarrow> string" where
  "runName cfgFileName c = (if ac_Name c \<noteq> '''' then ac_Name c else cfgFileName)"

section \<open>Starting and stopping\<close>

text \<open>
  The goroutines that \<open>main\<close> starts besides the metrics worker. \<open>main\<close> waits for a signal or for the
  end of all of them, and then cancels them one after the other, waiting for each before it
  cancels the next; the metrics worker is cancelled last.
\<close>

datatype part = SourcePart | InsertPart | OTelPart | MetricGenPart | UserPart

definition stop_order :: "part list" where
  "stop_order = [SourcePart, InsertPart, OTelPart, MetricGenPart, UserPart]"

datatype main_pc = MainSelect | MainWaits "part list" | MainStopsMetrics | MainDone

record app_state =
  as_running :: "part set"
  as_cancelled :: "part set"
  as_queueClosed :: bool
  as_main :: main_pc
  as_calls :: "entry list"
  as_final :: "entry list option"

definition started :: "wiring \<Rightarrow> part set" where
  "started W =
     (if wr_source W = NoSource then {} else {SourcePart}) \<union> (if wr_inserter W = None then {} else {InsertPart}) \<union>
     (if wr_exporter W then {OTelPart} else {}) \<union> (if wr_metricGen W then {MetricGenPart} else {}) \<union>
     (if wr_user W then {UserPart} else {})"

definition app_start :: "wiring \<Rightarrow> app_state" where
  "app_start W = \<lparr>as_running = started W, as_cancelled = {}, as_queueClosed = (wr_source W = NoSource),
     as_main = MainSelect, as_calls = [], as_final = None\<rparr>"

text \<open>
  The steps: a running part calls the metrics store; a part ends, of its own or because it was
  cancelled, and the end of the source closes the queue; \<open>main\<close> leaves its select, waits, goes on
  to the next part, and stops the metrics worker; \<open>as_final\<close> records the calls made until then. The
  parts all run at the start: one that ends before a later one is started is one that ends before
  the later one does anything. A metrics worker that cannot be created ends the program at once,
  before any part is started, and is left out.
\<close>

inductive app_step :: "app_state \<Rightarrow> app_state \<Rightarrow> bool" where
  Emit: "p \<in> as_running s \<Longrightarrow> app_step s (s\<lparr>as_calls := as_calls s @ [m]\<rparr>)"
| Ends: "p \<in> as_running s \<Longrightarrow>
    app_step s (s\<lparr>as_running := as_running s - {p}, as_queueClosed := as_queueClosed s \<or> p = SourcePart\<rparr>)"
| StopRequested: "as_main s = MainSelect \<Longrightarrow>
    app_step s (s\<lparr>as_main := MainWaits stop_order, as_cancelled := {hd stop_order}\<rparr>)"
| NextPart: "as_main s = MainWaits (p # q # ps) \<Longrightarrow> p \<notin> as_running s \<Longrightarrow>
    app_step s (s\<lparr>as_main := MainWaits (q # ps), as_cancelled := insert q (as_cancelled s)\<rparr>)"
| LastPart: "as_main s = MainWaits [p] \<Longrightarrow> p \<notin> as_running s \<Longrightarrow> app_step s (s\<lparr>as_main := MainStopsMetrics\<rparr>)"
| MetricsStopped: "as_main s = MainStopsMetrics \<Longrightarrow> app_step s (s\<lparr>as_main := MainDone, as_final := Some (as_calls s)\<rparr>)"

inductive_cases app_stepE: "app_step s s'"
inductive_simps app_step_done: "app_step (s\<lparr>as_running := {}, as_main := MainDone\<rparr>) s'"

inductive app_reach :: "wiring \<Rightarrow> app_state \<Rightarrow> bool" for W where
  Start: "app_reach W (app_start W)"
| Step: "app_reach W s \<Longrightarrow> app_step s s' \<Longrightarrow> app_reach W s'"

section \<open>Wiring: lemmas\<close>

lemma unless_err_Inr [simp]: "unless_err e r = Inr x \<longleftrightarrow> e = None \<and> r = Inr x"
  by (simp add: unless_err_def split: option.split)

lemma with_value_Inr [simp]: "with_value m f = Inr x \<longleftrightarrow> (\<exists>a. m = Inr a \<and> f a = Inr x)"
  by (simp add: with_value_def split: sum.split)

lemma map_sum_eq_Inr: "map_sum f g m = Inr x \<longleftrightarrow> (\<exists>a. m = Inr a \<and> x = g a)"
  by (cases m) auto

text \<open>What each step of the validation leaves behind.\<close>

lemma disk_step_ok:
  assumes "disk_step c = Inr c1"
  obtains dk where "c1 = c\<lparr>ac_Disk := dk\<rparr>" and "dk_Enabled dk = dk_Enabled (ac_Disk c)"
    and "dk_Enabled dk \<longrightarrow> 1 \<le> dk_Threads dk"
proof -
  obtain e dk where v: "disk_Validate (ac_Disk c) = (e, dk)" by fastforce
  have "c1 = c\<lparr>ac_Disk := dk\<rparr>" "e = None" using assms by (simp_all add: disk_step_def v)
  moreover have "dk_Enabled dk = dk_Enabled (ac_Disk c) \<and> (e = None \<and> dk_Enabled dk \<longrightarrow> 1 \<le> dk_Threads dk)"
    using v by (cases "dk_Enabled (ac_Disk c)") (auto simp: disk_Validate_def split: if_split_asm)
  ultimately show ?thesis using that by blast
qed

lemma generate_step_ok:
  assumes "generate_step c = Inr c1"
  obtains g where "c1 = c\<lparr>ac_Generate := g\<rparr>" and "gc_Enabled g = gc_Enabled (ac_Generate c)"
    and "gc_Enabled g \<longrightarrow> 1 \<le> gc_Threads g \<and> 1 \<le> gc_RowsPerBlock g"
proof -
  obtain g where v: "gen_Validate (ac_Generate c) = Inr g" and c1: "c1 = c\<lparr>ac_Generate := g\<rparr>"
    using assms by (auto simp: generate_step_def map_sum_eq_Inr)
  have en: "gc_Enabled g = gc_Enabled (ac_Generate c)" using v by (auto simp: gen_Validate_def split: if_split_asm)
  show ?thesis using that [OF c1 en] gen_Validate_ok [OF v] en by simp
qed

lemma sink_checks_ok:
  assumes "sink_checks L c = None"
  shows "table_check c = None" and "ik_Enabled (ac_Insert c) \<Longrightarrow> 1 \<le> ik_Threads (ac_Insert c)"
    and "oc_Enabled (ac_OTel c) \<Longrightarrow> 1 \<le> oc_Threads (ac_OTel c)"
proof -
  have s: "insert_Validate (al_compression L) (ac_Insert c) = None" "otel_Validate (ac_OTel c) = None"
    and t: "table_check c = None"
    using assms by (simp_all add: sink_checks_def)
  show "table_check c = None" by (rule t)
  show "1 \<le> ik_Threads (ac_Insert c)" if "ik_Enabled (ac_Insert c)" using s(1) that by (simp add: insert_Validate_def)
  show "1 \<le> oc_Threads (ac_OTel c)" if "oc_Enabled (ac_OTel c)" using s(2) that by (simp add: otel_Validate_def)
qed

text \<open>What an accepted configuration promises to the wiring.\<close>

definition app_ready :: "app_config \<Rightarrow> bool" where
  "app_ready c \<longleftrightarrow>
     (isBlockMode c \<longrightarrow> known_data_type c) \<and> \<not> (dk_Enabled (ac_Disk c) \<and> gc_Enabled (ac_Generate c)) \<and>
     \<not> (ac_DataType c = ConfigDataTypeProfiles \<and> oc_Enabled (ac_OTel c)) \<and>
     (dk_Enabled (ac_Disk c) \<longrightarrow> 1 \<le> dk_Threads (ac_Disk c) \<and> GetDataFolder c \<noteq> '''') \<and>
     (gc_Enabled (ac_Generate c) \<longrightarrow> 1 \<le> gc_Threads (ac_Generate c) \<and> 1 \<le> gc_RowsPerBlock (ac_Generate c)) \<and>
     (ik_Enabled (ac_Insert c) \<longrightarrow> 1 \<le> ik_Threads (ac_Insert c) \<and> GetInsertTable c \<noteq> '''') \<and>
     (oc_Enabled (ac_OTel c) \<longrightarrow> 1 \<le> oc_Threads (ac_OTel c))"

lemma mode_checks_ok:
  assumes "mode_checks c = None"
  shows "isBlockMode c \<longrightarrow> known_data_type c" and "\<not> (dk_Enabled (ac_Disk c) \<and> gc_Enabled (ac_Generate c))"
    and "\<not> (ac_DataType c = ConfigDataTypeProfiles \<and> oc_Enabled (ac_OTel c))"
  using assms by (simp_all add: mode_checks_def split: if_split_asm)

lemma app_Validate_ready:
  assumes "app_Validate L c = Inr c'"
  shows "app_ready c'"
proof -
  obtain c1 c2 where m: "mode_checks c = None" and d: "disk_step c = Inr c1" and f: "folder_check c1 = None"
    and g: "generate_step c1 = Inr c2" and s: "sink_checks L c2 = None" and u: "user_step c2 = Inr c'"
    using assms by (auto simp: app_Validate_def)
  obtain dk where c1: "c1 = c\<lparr>ac_Disk := dk\<rparr>" "dk_Enabled dk = dk_Enabled (ac_Disk c)"
      "dk_Enabled dk \<longrightarrow> 1 \<le> dk_Threads dk"
    by (rule disk_step_ok [OF d])
  obtain gn where c2: "c2 = c1\<lparr>ac_Generate := gn\<rparr>" "gc_Enabled gn = gc_Enabled (ac_Generate c1)"
      "gc_Enabled gn \<longrightarrow> 1 \<le> gc_Threads gn \<and> 1 \<le> gc_RowsPerBlock gn"
    by (rule generate_step_ok [OF g])
  obtain us where c': "c' = c2\<lparr>ac_User := us\<rparr>" using u by (auto simp: user_step_def map_sum_eq_Inr)
  note F = c1(1) c2(1) c'
  have same: "isBlockMode c' = isBlockMode c" "known_data_type c' = known_data_type c"
    "known_data_type c1 = known_data_type c" "known_data_type c2 = known_data_type c"
    "GetDataFolder c1 = GetDataFolder c'" "GetInsertTable c2 = GetInsertTable c'"
    using c1(2) c2(2) by (simp_all add: F isBlockMode_def known_data_type_def GetDataFolder_def GetInsertTable_def)
  have known: "isBlockMode c' \<longrightarrow> known_data_type c'" using mode_checks_ok(1) [OF m] same by simp
  have folder: "dk_Enabled (ac_Disk c') \<longrightarrow> GetDataFolder c' \<noteq> ''''"
    using f known same by (auto simp: folder_check_def F isBlockMode_def)
  have tabled: "ik_Enabled (ac_Insert c') \<longrightarrow> GetInsertTable c' \<noteq> ''''"
    using sink_checks_ok(1) [OF s] known same by (auto simp: table_check_def F isBlockMode_def)
  show ?thesis
    using known folder tabled mode_checks_ok(2,3) [OF m] sink_checks_ok(2,3) [OF s] c1(2,3) c2(2,3)
    by (simp add: app_ready_def F)
qed

definition threads_small :: "app_config \<Rightarrow> bool" where
  "threads_small c \<longleftrightarrow> dk_Threads (ac_Disk c) < 2 ^ 60 \<and> gc_Threads (ac_Generate c) < 2 ^ 60 \<and>
     ik_Threads (ac_Insert c) < 2 ^ 60 \<and> oc_Threads (ac_OTel c) < 2 ^ 60"

section \<open>Accepted configurations and their wiring\<close>

text \<open>What the parts rely on: the block pool and the queue of the same size, one sink, its table, its folder.\<close>

definition wired_ok :: "wiring \<Rightarrow> block_kind \<Rightarrow> int \<Rightarrow> bool" where
  "wired_ok W k n \<longleftrightarrow>
     wr_create W = Some k \<and> wr_blocksToAlloc W = n \<and> wr_queueCap W = Some n \<and>
     (case wr_pool W of Garbage \<Rightarrow> True | Reusing m r \<Rightarrow> m = n) \<and>
     \<not> (wr_inserter W \<noteq> None \<and> wr_exporter W) \<and> wr_inserter W \<noteq> Some '''' \<and>
     \<not> (wr_exporter W \<and> k \<in> {GenProfilesBlock, ProfilesBlock}) \<and>
     (case wr_source W of
        NoSource \<Rightarrow> False
      | FromGenerate pass \<Rightarrow> pass = (wr_inserter W = None \<and> \<not> wr_exporter W)
      | FromDisk folder pass \<Rightarrow> folder \<noteq> '''' \<and> pass = (wr_inserter W = None \<and> \<not> wr_exporter W))"

lemma block_create_known:
  assumes "known_data_type c"
  obtains k where "block_create c = Some k"
    and "k \<in> {GenProfilesBlock, ProfilesBlock} \<longleftrightarrow> ac_DataType c = ConfigDataTypeProfiles"
proof -
  consider "ac_DataType c = ConfigDataTypeLogs" | "ac_DataType c = ConfigDataTypeTraces" |
      "ac_DataType c = ConfigDataTypeProfiles"
    using assms by (auto simp: known_data_type_def)
  then show ?thesis
    using that by cases (cases "gc_Enabled (ac_Generate c)"; simp add: block_create_def data_types)+
qed

definition sourceThreads :: "app_config \<Rightarrow> int" where
  "sourceThreads c = (if gc_Enabled (ac_Generate c) then gc_Threads (ac_Generate c) else dk_Threads (ac_Disk c))"

definition consumerThreads :: "app_config \<Rightarrow> int" where
  "consumerThreads c =
     (if oc_Enabled (ac_OTel c) then oc_Threads (ac_OTel c)
      else if ik_Enabled (ac_Insert c) then ik_Threads (ac_Insert c) else 0)"

lemma thread_bounds:
  assumes "app_ready c" and "dk_Enabled (ac_Disk c) \<or> gc_Enabled (ac_Generate c)" and "threads_small c"
  shows "1 \<le> sourceThreads c" and "0 \<le> consumerThreads c"
    and "i64 (i64 (sourceThreads c + consumerThreads c) * 2) = (sourceThreads c + consumerThreads c) * 2"
proof -
  have s: "1 \<le> sourceThreads c \<and> sourceThreads c < 2 ^ 60"
    using assms by (auto simp: app_ready_def sourceThreads_def threads_small_def)
  have k: "0 \<le> consumerThreads c \<and> consumerThreads c < 2 ^ 60"
    using assms by (auto simp: app_ready_def consumerThreads_def threads_small_def)
  show "1 \<le> sourceThreads c" "0 \<le> consumerThreads c" using s k by auto
  show "i64 (i64 (sourceThreads c + consumerThreads c) * 2) = (sourceThreads c + consumerThreads c) * 2"
    using s k by (simp add: i64_id in_i64_def)
qed

text \<open>
  C13. The wiring of an accepted configuration with a data source: it never panics; the pool and the
  queue hold two blocks for every thread of the source and of the one sink, so at least two;
  blocks of the configured type are made; insert and export never share the queue, the exporter
  never gets profiles, the inserter has a table and the disk source a folder; and the source
  drops its blocks exactly when there is no sink.
\<close>

theorem app_wired:
  assumes "app_Validate L c = Inr c'" and "dk_Enabled (ac_Disk c') \<or> gc_Enabled (ac_Generate c')"
    and "threads_small c'"
  shows "\<exists>W k. app_wiring c' = Some W \<and> block_create c' = Some k \<and>
    wired_ok W k ((sourceThreads c' + consumerThreads c') * 2) \<and> 1 \<le> sourceThreads c' \<and> 0 \<le> consumerThreads c'"
proof -
  have ready: "app_ready c'" by (rule app_Validate_ready [OF assms(1)])
  have "known_data_type c'" using ready assms(2) by (auto simp: app_ready_def isBlockMode_def)
  then obtain k where k: "block_create c' = Some k"
      "k \<in> {GenProfilesBlock, ProfilesBlock} \<longleftrightarrow> ac_DataType c' = ConfigDataTypeProfiles"
    by (rule block_create_known)
  note b = thread_bounds [OF ready assms(2,3)]
  define n where "n = (sourceThreads c' + consumerThreads c') * 2"
  have n: "i64 (i64 ((if gc_Enabled (ac_Generate c') then gc_Threads (ac_Generate c') else dk_Threads (ac_Disk c')) +
      (if ik_Enabled (ac_Insert c') \<and> \<not> oc_Enabled (ac_OTel c') then ik_Threads (ac_Insert c')
       else if oc_Enabled (ac_OTel c') then oc_Threads (ac_OTel c') else 0)) * 2) = n"
  proof -
    have "(if ik_Enabled (ac_Insert c') \<and> \<not> oc_Enabled (ac_OTel c') then ik_Threads (ac_Insert c')
       else if oc_Enabled (ac_OTel c') then oc_Threads (ac_OTel c') else 0) = consumerThreads c'"
      by (simp add: consumerThreads_def)
    then show ?thesis using b(3) by (simp only: n_def sourceThreads_def)
  qed
  have pos: "\<not> n < 0" using b by (simp add: n_def)
  obtain W where W: "app_wiring c' = Some W" using pos by (simp add: app_wiring_def n Let_def)
  have "wired_ok W k n"
    using W ready assms(2) k pos unfolding app_wiring_def n Let_def
    by (cases "gc_Enabled (ac_Generate c')"; cases "oc_Enabled (ac_OTel c')"; cases "ik_Enabled (ac_Insert c')")
      (auto simp: wired_ok_def app_ready_def)
  with W k b show ?thesis by (auto simp: n_def)
qed

definition demo_app :: app_config where
  "demo_app =
     \<lparr>ac_Name = '''', ac_DataType = ''logs'', ac_Seed = ''seed'',
      ac_Disk = \<lparr>dk_Enabled = False, dk_Threads = 0, dk_LogsPath = '''', dk_TracesPath = '''', dk_ProfilesPath = '''',
        dk_ReuseBlocks = True, dk_BlockRetirementUses = 0, dk_Loop = False, dk_MiBytesPerSecondLimit = 0,
        dk_ShiftTimestamp = '''', dk_HasTimestampTime = False\<rparr>,
      ac_Generate = \<lparr>gc_Enabled = True, gc_Threads = 2, gc_RowsPerBlock = 100, gc_RowsPerSecond = 0, gc_Profile = '''',
        gc_ReuseBlocks = True, gc_BlockRetirementUses = 5,
        gc_Traces = \<lparr>tg_SpansPerTraceMin = 0, tg_SpansPerTraceMax = 0, tg_MaxDepth = 0, tg_DurationMinUs = 0,
          tg_DurationMaxUs = 0\<rparr>,
        gc_Profiles = \<lparr>pg_SamplesPerProfileMin = 0, pg_SamplesPerProfileMax = 0, pg_StackDepthMin = 0,
          pg_StackDepthMax = 0, pg_DurationMinMs = 0, pg_DurationMaxMs = 0, pg_PeriodNs = 0\<rparr>\<rparr>,
      ac_Insert = \<lparr>ik_Enabled = True, ik_Threads = 1, ik_BatchSize = 50, ik_WorkerRetirementBatches = 0,
        ik_BalanceNodes = False,
        ik_ClickHouse = \<lparr>ck_Address = ''host'', ck_Secure = False, ck_Compression = '''', ck_User = '''',
          ck_Password = '''', ck_Database = ''db'', ck_LogsTable = ''otel_logs'', ck_TracesTable = '''',
          ck_ProfilesTable = ''''\<rparr>\<rparr>,
      ac_OTel = \<lparr>oc_Enabled = False, oc_Protocol = '''', oc_URL = '''', oc_Insecure = False, oc_Threads = 0,
        oc_BatchSize = 0, oc_FlushInterval = 0, oc_Timeout = 0, oc_Compression = '''', oc_Headers = []\<rparr>,
      ac_MetricGen = sample_config\<lparr>mg_Enabled := False\<rparr>,
      ac_Metrics = \<lparr>me_Enabled = False, me_ClickHouseDSN = '''', me_Database = '''', me_RunTable = '''',
        me_MetricsTable = '''', me_CreateSchema = False, me_Attributes = [],
        me_OTLP = \<lparr>mo_Enabled = False, mo_Protocol = '''', mo_URL = '''', mo_Insecure = False, mo_Compression = '''',
          mo_Headers = [], mo_Interval = 0\<rparr>\<rparr>,
      ac_User = \<lparr>us_Enabled = False, us_Duration = 0, us_Threads = 0, us_RampDuration = 0, us_ClickHouseDSN = '''',
        us_ConnectionsPerThread = 0, us_Database = '''', us_Table = '''', us_DatasetUnixStart = 0,
        us_DatasetUnixEnd = 0, us_Workflows = []\<rparr>\<rparr>"

definition demo_libs :: app_libs where
  "demo_libs = \<lparr>al_compression = (\<lambda>s. True), al_duration = (\<lambda>s. None), al_rfc3339 = (\<lambda>s. None),
     al_curve = (\<lambda>m b n. 0), al_now = 0\<rparr>"

lemma demo_app_accepted:
  "\<exists>c. app_Validate demo_libs demo_app = Inr c \<and> gc_Enabled (ac_Generate c) \<and> threads_small c \<and>
     gc_Threads (ac_Generate c) = 2 \<and> ik_Threads (ac_Insert c) = 1 \<and> \<not> oc_Enabled (ac_OTel c)"
proof -
  have d: "disk_Validate (ac_Disk demo_app) = (None, ac_Disk demo_app)"
    by (simp add: disk_Validate_def demo_app_def)
  have disk: "disk_step demo_app = Inr demo_app" by (simp add: disk_step_def d)
  obtain g where g: "gen_Validate (ac_Generate demo_app) = Inr g" "gc_Threads g = 2" "gc_Enabled g"
    by (simp add: gen_Validate_def demo_app_def)
  have gen: "generate_step demo_app = Inr (demo_app\<lparr>ac_Generate := g\<rparr>)" by (simp add: generate_step_def g)
  have sinks: "sink_checks demo_libs (demo_app\<lparr>ac_Generate := g\<rparr>) = None"
    by (simp add: sink_checks_def insert_Validate_def table_check_def otel_Validate_def mg_Validate_def
        metrics_Validate_def ck_Validate_def GetInsertTable_def data_types demo_app_def demo_libs_def)
  have user: "user_step (demo_app\<lparr>ac_Generate := g\<rparr>) = Inr (demo_app\<lparr>ac_Generate := g\<rparr>)"
    by (simp add: user_step_def user_Validate_def demo_app_def)
  have first: "mode_checks demo_app = None" "folder_check demo_app = None"
    by (simp_all add: mode_checks_def folder_check_def isBlockMode_def known_data_type_def data_types demo_app_def)
  have "app_Validate demo_libs demo_app = Inr (demo_app\<lparr>ac_Generate := g\<rparr>)"
    using disk gen sinks user first by (simp add: app_Validate_def)
  moreover have "threads_small (demo_app\<lparr>ac_Generate := g\<rparr>)" "gc_Enabled g"
    "ik_Threads (ac_Insert demo_app) = 1" "\<not> oc_Enabled (ac_OTel demo_app)"
    using g by (simp_all add: threads_small_def demo_app_def)
  ultimately show ?thesis using g by auto
qed

theorem app_wired_witness:
  "\<exists>c W. app_Validate demo_libs demo_app = Inr c \<and> app_wiring c = Some W \<and> wr_blocksToAlloc W \<ge> 2 \<and>
     wr_queueCap W = Some (wr_blocksToAlloc W)"
proof -
  obtain c where c: "app_Validate demo_libs demo_app = Inr c" "gc_Enabled (ac_Generate c)" "threads_small c"
    using demo_app_accepted by blast
  obtain W k where "app_wiring c = Some W" "wired_ok W k ((sourceThreads c + consumerThreads c) * 2)"
      "1 \<le> sourceThreads c" "0 \<le> consumerThreads c"
    using app_wired [OF c(1) _ c(3)] c(2) by blast
  then show ?thesis using c(1) by (auto simp: wired_ok_def)
qed

section \<open>The queue never holds back a worker\<close>

lemma queue_has_room:
  assumes "bp_inv (add_mset b (mset (H @ q))) p"
  shows "length q < bp_cap p"
  using assms by (simp add: bp_inv_def)

lemma bp_give_back_returns:
  assumes "bp_inv (add_mset b (mset H)) (gs_pool s)"
  shows "give_back bp_Release b e s \<noteq> Blocked"
  using bp_release_inv [OF assms] by (auto simp: give_back_def)

text \<open>
  C16. With the queue as large as the pool, as \<open>main\<close> makes them, a generate worker that stands still
  stands in \<open>Acquire\<close> on an empty pool: handing a block to the queue and giving one back never wait,
  so a stalled run is one whose consumers hold all the blocks.
\<close>

theorem gen_blocks_only_on_pool:
  assumes "bp_inv (mset (H @ gs_queue s)) (gs_pool s)" and "bp_cap (gs_pool s) \<le> ev_cap E"
    and "gen_turn_run bp_Acquire bp_Release E t s = Blocked"
  shows "bp_chan (gs_pool s) = [] \<and> size (mset (H @ gs_queue s)) = bp_cap (gs_pool s)"
proof -
  have "bp_chan (gs_pool s) = []"
  proof (rule ccontr)
    assume "bp_chan (gs_pool s) \<noteq> []"
    then obtain b rest where q: "bp_chan (gs_pool s) = b # rest" by (cases "bp_chan (gs_pool s)") auto
    define p where "p = gs_pool s\<lparr>bp_chan := rest\<rparr>"
    have a: "bp_Acquire (gs_pool s) = Some (b, p)" by (simp add: bp_Acquire_def q p_def)
    have out: "bp_inv (add_mset b (mset (H @ gs_queue s))) p"
      using assms(1) by (simp add: bp_inv_def q p_def add.assoc)
    have room: "length (gs_queue s) < ev_cap E"
      using queue_has_room [OF out] assms(2) by (simp add: p_def)
    define s1 where "s1 = s\<lparr>gs_pool := p, gs_data := (gs_data s)(b := ev_reset E (gs_data s b))\<rparr>"
    obtain c n where f: "tn_fill t (gs_data s1 b) = (c, n)" by fastforce
    have keep: "give_back bp_Release b e s' \<noteq> Blocked" if pool: "gs_pool s' = p" for e s'
      by (rule bp_give_back_returns [of b "H @ gs_queue s"]) (use out pool in simp)
    have back0: "give_back bp_Release b e s1 \<noteq> Blocked" for e by (rule keep) (simp add: s1_def)
    have "gen_filled bp_Release E t b s1 \<noteq> Blocked"
    proof -
      have q: "gs_pool s1 = p" "gs_queue s1 = gs_queue s" by (simp_all add: s1_def)
      show ?thesis using room q by (simp add: gen_filled_def f Let_def keep del: fun_upd_apply)
    qed
    then show False using assms(3) a back0 by (auto simp: gen_turn_run_def s1_def Let_def split: if_splits)
  qed
  then show ?thesis using assms(1) by (simp add: bp_inv_def)
qed

theorem gen_blocks_only_on_pool_witness:
  "gen_turn_run bp_Acquire bp_Release (gen_demo_env\<lparr>ev_cap := 2\<rparr>) (gen_demo_turn 5)
     (gen_demo_state\<lparr>gs_pool := (NewBlockPool 2 0)\<lparr>bp_chan := []\<rparr>, gs_queue := [0, 1]\<rparr>) = Blocked \<and>
   size (mset ([] @ gs_queue (gen_demo_state\<lparr>gs_pool := (NewBlockPool 2 0)\<lparr>bp_chan := []\<rparr>, gs_queue := [0, 1]\<rparr>))) = 2"
proof -
  let ?p = "(NewBlockPool 2 0)\<lparr>bp_chan := []\<rparr>"
  let ?s = "gen_demo_state\<lparr>gs_pool := ?p, gs_queue := [0, 1]\<rparr>"
  have inv: "bp_inv (mset ([] @ gs_queue ?s)) (gs_pool ?s)"
    using bp_inv_new [of 2 0] by (simp add: bp_inv_def NewBlockPool_def upt_conv_Cons)
  have room: "bp_cap (gs_pool ?s) \<le> ev_cap (gen_demo_env\<lparr>ev_cap := 2\<rparr>)" by (simp add: NewBlockPool_def)
  have b: "gen_turn_run bp_Acquire bp_Release (gen_demo_env\<lparr>ev_cap := 2\<rparr>) (gen_demo_turn 5) ?s = Blocked"
    by (simp add: gen_turn_run_def gen_demo_turn_def gen_demo_env_def bp_Acquire_def)
  from gen_blocks_only_on_pool [OF inv room b] b show ?thesis by (simp add: NewBlockPool_def)
qed

section \<open>Shutdown: invariant and progress\<close>

text \<open>
  Where \<open>main\<close> stands and what it has made sure of: while it waits for the first of \<open>ps\<close>, the parts
  before are ended and only they and the first of \<open>ps\<close> are cancelled; the metrics worker stops
  after all parts and leaves with every call they made.
\<close>

definition stop_inv :: "app_state \<Rightarrow> bool" where
  "stop_inv s \<longleftrightarrow>
     (case as_main s of
        MainSelect \<Rightarrow> as_cancelled s = {} \<and> as_final s = None
      | MainWaits ps \<Rightarrow> (\<exists>earlier p rest. ps = p # rest \<and> stop_order = earlier @ ps \<and>
          as_running s \<inter> set earlier = {} \<and> as_cancelled s = insert p (set earlier) \<and> as_final s = None)
      | MainStopsMetrics \<Rightarrow> as_running s = {} \<and> as_final s = None
      | MainDone \<Rightarrow> as_running s = {} \<and> as_final s = Some (as_calls s))"

definition queue_inv :: "wiring \<Rightarrow> app_state \<Rightarrow> bool" where
  "queue_inv W s \<longleftrightarrow> as_running s \<subseteq> started W \<and> (as_queueClosed s \<longleftrightarrow> SourcePart \<notin> as_running s)"

lemma all_parts: "set stop_order = UNIV"
proof -
  have "p \<in> set stop_order" for p by (cases p) (simp_all add: stop_order_def)
  then show ?thesis by blast
qed

lemma stop_step:
  assumes "app_step s s'" and "stop_inv s"
  shows "stop_inv s'"
  using assms
proof cases
  case (Emit p m)
  then show ?thesis using assms(2) by (auto simp: stop_inv_def split: main_pc.splits)
next
  case (Ends p)
  then show ?thesis using assms(2) by (auto simp: stop_inv_def split: main_pc.splits)
next
  case StopRequested
  then show ?thesis using assms(2) by (simp add: stop_inv_def stop_order_def)
next
  case (NextPart p q ps)
  then obtain earlier where "stop_order = (earlier @ [p]) @ q # ps" "as_running s \<inter> set (earlier @ [p]) = {}"
      "as_cancelled s = set (earlier @ [p])" "as_final s = None"
    using assms(2) by (auto simp: stop_inv_def)
  then show ?thesis unfolding NextPart stop_inv_def by (auto intro!: exI [of _ "earlier @ [p]"])
next
  case (LastPart p)
  then obtain earlier where e: "stop_order = earlier @ [p]" "as_running s \<inter> set earlier = {}" "as_final s = None"
    using assms(2) by (auto simp: stop_inv_def)
  have "as_running s \<inter> set (earlier @ [p]) = {}" using e(2) LastPart(3) by auto
  then have "as_running s \<inter> set stop_order = {}" by (simp only: e(1))
  then show ?thesis using e LastPart by (simp add: stop_inv_def all_parts)
next
  case MetricsStopped
  then show ?thesis using assms(2) by (simp add: stop_inv_def)
qed

lemma queue_step: "app_step s s' \<Longrightarrow> queue_inv W s \<Longrightarrow> queue_inv W s'"
  by (erule app_stepE) (auto simp: queue_inv_def)

lemma app_reach_inv:
  assumes "app_reach W s"
  shows "stop_inv s \<and> queue_inv W s"
  using assms
proof (induction rule: app_reach.induct)
  case Start
  then show ?case by (auto simp: stop_inv_def queue_inv_def app_start_def started_def)
next
  case (Step s s')
  then show ?case using stop_step queue_step by blast
qed

text \<open>The order the parts are to be stopped in, from the producers to the consumers.\<close>

fun part_rank :: "part \<Rightarrow> nat" where
  "part_rank SourcePart = 0"
| "part_rank InsertPart = 1"
| "part_rank OTelPart = 2"
| "part_rank MetricGenPart = 3"
| "part_rank UserPart = 4"

lemma part_rank_less: "part_rank p < length stop_order"
  by (cases p) (simp_all add: stop_order_def)

lemma stop_order_rank: "i < length stop_order \<Longrightarrow> part_rank (stop_order ! i) = i"
  by (auto simp: stop_order_def nth_Cons' less_Suc_eq)

lemma rank_stop_order: "stop_order ! part_rank p = p"
  by (cases p) (simp_all add: stop_order_def)

lemma before_cancelled:
  assumes "stop_order = earlier @ q # rest" and "x \<in> insert q (set earlier)" and "part_rank p < part_rank x"
  shows "p \<in> set earlier"
proof -
  have "x \<in> set (earlier @ [q])" using assms(2) by auto
  then obtain i where i: "i < Suc (length earlier)" "(earlier @ [q]) ! i = x"
    unfolding in_set_conv_nth by auto
  have "(earlier @ q # rest) ! i = x" using i by (auto simp: nth_append less_Suc_eq)
  then have "stop_order ! i = x" by (simp only: assms(1))
  moreover have "i < length stop_order" using i(1) unfolding assms(1) by simp
  ultimately have "part_rank x = i" using stop_order_rank by blast
  then have "part_rank p < length earlier" using assms(3) i(1) by simp
  moreover have "(earlier @ q # rest) ! part_rank p = p" using rank_stop_order [of p] by (simp only: assms(1))
  ultimately show ?thesis by (metis nth_append nth_mem)
qed

text \<open>
  C14. In every reachable state of the program: while \<open>main\<close> waits for a part, every part before it in the
  order source, insert, OTel export, metric generator, users has ended and no later one has been
  cancelled, so a cancelled part never runs beside one that feeds it; the metrics worker is told to
  stop only when all of them have ended, so no call to the store comes after the last one it sees;
  and the block queue is closed exactly when the source has ended.
\<close>

theorem shutdown_order:
  assumes "app_reach W s"
  shows "stop_inv s \<and> queue_inv W s \<and>
    (\<forall>p q. q \<in> as_cancelled s \<and> part_rank p < part_rank q \<longrightarrow> p \<notin> as_running s)"
proof -
  note inv = app_reach_inv [OF assms]
  have "p \<notin> as_running s" if "q \<in> as_cancelled s" "part_rank p < part_rank q" for p q
  proof (cases "as_main s")
    case (MainWaits ps)
    then obtain earlier x rest where "stop_order = earlier @ x # rest" "as_running s \<inter> set earlier = {}"
        "as_cancelled s = insert x (set earlier)"
      using inv by (auto simp: stop_inv_def)
    then show ?thesis using before_cancelled [of earlier x rest q p] that by blast
  qed (use inv that in \<open>auto simp: stop_inv_def\<close>)
  then show ?thesis using inv by blast
qed

text \<open>A run of two parts: the source makes one call, both are told to stop in turn, and the export has the call.\<close>

definition demo_wiring :: wiring where
  "demo_wiring = \<lparr>wr_insertEnabled = True, wr_otelEnabled = False, wr_blocksToAlloc = 4, wr_create = Some GenLogsBlock,
     wr_pool = Reusing 4 0, wr_queueCap = Some 4, wr_source = FromGenerate False, wr_inserter = Some ''t'',
     wr_exporter = False, wr_metricGen = False, wr_user = False\<rparr>"

lemma parts_can_end:
  "\<exists>s'. app_step\<^sup>*\<^sup>* s s' \<and> as_running s' = {} \<and> as_main s' = as_main s \<and> as_calls s' = as_calls s"
proof -
  have "finite (as_running s)" using finite_subset [of "as_running s" "set stop_order"] all_parts by blast
  then show ?thesis
  proof (induction "as_running s" arbitrary: s rule: finite_psubset_induct)
    case psubset
    show ?case
    proof (cases "as_running s = {}")
      case True
      then show ?thesis by blast
    next
      case False
      then obtain p where p: "p \<in> as_running s" by blast
      let ?t = "s\<lparr>as_running := as_running s - {p}, as_queueClosed := as_queueClosed s \<or> p = SourcePart\<rparr>"
      have "app_step s ?t" by (rule Ends [OF p])
      moreover have "\<exists>s'. app_step\<^sup>*\<^sup>* ?t s' \<and> as_running s' = {} \<and> as_main s' = as_main ?t \<and> as_calls s' = as_calls ?t"
        by (rule psubset.hyps) (use p in auto)
      ultimately show ?thesis by (auto intro: converse_rtranclp_into_rtranclp)
    qed
  qed
qed

lemma main_finishes:
  assumes "as_running s = {}" and "as_main s = MainWaits (p # ps)"
  shows "\<exists>s'. app_step\<^sup>*\<^sup>* s s' \<and> as_running s' = {} \<and> as_main s' = MainStopsMetrics \<and> as_calls s' = as_calls s"
  using assms
proof (induction ps arbitrary: p s)
  case Nil
  have "app_step s (s\<lparr>as_main := MainStopsMetrics\<rparr>)" by (rule LastPart [OF Nil(2)]) (simp add: Nil(1))
  then show ?case using Nil(1) by (intro exI [of _ "s\<lparr>as_main := MainStopsMetrics\<rparr>"]) auto
next
  case (Cons q ps)
  let ?t = "s\<lparr>as_main := MainWaits (q # ps), as_cancelled := insert q (as_cancelled s)\<rparr>"
  have "app_step s ?t" by (rule NextPart [OF Cons.prems(2)]) (simp add: Cons.prems(1))
  moreover obtain s' where "app_step\<^sup>*\<^sup>* ?t s'" "as_running s' = {}" "as_main s' = MainStopsMetrics" "as_calls s' = as_calls ?t"
    using Cons.IH [of ?t q] Cons.prems(1) by auto
  ultimately show ?case by (auto intro: converse_rtranclp_into_rtranclp)
qed

lemma waits_nonempty: "stop_inv s \<Longrightarrow> as_main s = MainWaits ps \<Longrightarrow> ps \<noteq> []"
  by (auto simp: stop_inv_def)

text \<open>
  Stopping cannot get stuck: from every reachable state, whatever was running, the parts can end and
  \<open>main\<close> then goes through its waits to the end, the metrics worker stopping after all calls.
\<close>

theorem shutdown_completes:
  assumes "app_reach W s"
  shows "\<exists>s'. app_step\<^sup>*\<^sup>* s s' \<and> as_main s' = MainDone \<and> as_final s' = Some (as_calls s)"
proof -
  have si: "stop_inv s" using app_reach_inv [OF assms] by simp
  have finish: "\<exists>s'. app_step\<^sup>*\<^sup>* u s' \<and> as_main s' = MainDone \<and> as_final s' = Some (as_calls u)"
    if "as_main u = MainStopsMetrics" for u
    using MetricsStopped [OF that] by (intro exI [of _ "u\<lparr>as_main := MainDone, as_final := Some (as_calls u)\<rparr>"]) auto
  have waits: "\<exists>s'. app_step\<^sup>*\<^sup>* u s' \<and> as_main s' = MainDone \<and> as_final s' = Some (as_calls u)"
    if u: "as_main u = MainWaits (p # ps)" for u p ps
  proof -
    obtain v where v: "app_step\<^sup>*\<^sup>* u v" "as_running v = {}" "as_main v = as_main u" "as_calls v = as_calls u"
      using parts_can_end by blast
    obtain w where w: "app_step\<^sup>*\<^sup>* v w" "as_main w = MainStopsMetrics" "as_calls w = as_calls v"
      using main_finishes [OF v(2)] v(3) u by metis
    show ?thesis using finish [OF w(2)] v w by (metis rtranclp_trans)
  qed
  show ?thesis
  proof (cases "as_main s")
    case MainSelect
    let ?t = "s\<lparr>as_main := MainWaits stop_order, as_cancelled := {hd stop_order}\<rparr>"
    have "app_step s ?t" by (rule StopRequested [OF MainSelect])
    moreover have "\<exists>s'. app_step\<^sup>*\<^sup>* ?t s' \<and> as_main s' = MainDone \<and> as_final s' = Some (as_calls ?t)"
      by (rule waits) (simp add: stop_order_def)
    ultimately show ?thesis by (auto intro: converse_rtranclp_into_rtranclp)
  next
    case (MainWaits ps)
    then show ?thesis using waits_nonempty [OF si MainWaits] waits by (cases ps) auto
  next
    case MainStopsMetrics
    then show ?thesis by (rule finish)
  next
    case MainDone
    then show ?thesis using si by (auto simp: stop_inv_def)
  qed
qed

definition demo_entry :: entry where
  "demo_entry = \<lparr>en_Mode = EntryModeIncrement, en_Timestamp = 0, en_Name = ''rows'', en_AttrKey = '''', en_AttrValue = '''',
     en_Attributes = [], en_Value = 1\<rparr>"

lemma demo_run:
  "app_reach demo_wiring (app_start demo_wiring\<lparr>as_calls := [m], as_main := MainWaits [InsertPart, OTelPart, MetricGenPart, UserPart],
     as_cancelled := {SourcePart, InsertPart}, as_running := {InsertPart}, as_queueClosed := True\<rparr>)"
proof -
  let ?s0 = "app_start demo_wiring"
  let ?s1 = "?s0\<lparr>as_calls := as_calls ?s0 @ [m]\<rparr>"
  let ?s2 = "?s1\<lparr>as_main := MainWaits stop_order, as_cancelled := {hd stop_order}\<rparr>"
  let ?s3 = "?s2\<lparr>as_running := as_running ?s2 - {SourcePart}, as_queueClosed := as_queueClosed ?s2 \<or> SourcePart = SourcePart\<rparr>"
  let ?s4 = "?s3\<lparr>as_main := MainWaits [InsertPart, OTelPart, MetricGenPart, UserPart],
     as_cancelled := insert InsertPart (as_cancelled ?s3)\<rparr>"
  have run: "as_running ?s0 = {SourcePart, InsertPart}" by (auto simp: app_start_def started_def demo_wiring_def)
  have r1: "app_reach demo_wiring ?s1" by (rule app_reach.Step [OF app_reach.Start Emit [of SourcePart]]) (simp add: run)
  have r2: "app_reach demo_wiring ?s2"
    by (rule app_reach.Step [OF r1 StopRequested]) (simp add: app_start_def)
  have r3: "app_reach demo_wiring ?s3" by (rule app_reach.Step [OF r2 Ends]) (simp add: run)
  have r4: "app_reach demo_wiring ?s4"
    by (rule app_reach.Step [OF r3 NextPart [of _ SourcePart]]) (simp_all add: stop_order_def)
  have "as_running ?s4 = {InsertPart}" "as_cancelled ?s4 = {SourcePart, InsertPart}" "as_calls ?s4 = [m]"
    using run by (auto simp: app_start_def stop_order_def)
  with r4 show ?thesis by (simp add: insert_commute app_start_def)
qed

theorem shutdown_order_witness:
  "\<exists>s. app_reach demo_wiring s \<and> as_running s = {InsertPart} \<and> as_queueClosed s \<and> stop_inv s \<and> queue_inv demo_wiring s"
  using shutdown_order [OF demo_run] demo_run
  by (intro exI [of _ "app_start demo_wiring\<lparr>as_calls := [demo_entry],
     as_main := MainWaits [InsertPart, OTelPart, MetricGenPart, UserPart],
     as_cancelled := {SourcePart, InsertPart}, as_running := {InsertPart}, as_queueClosed := True\<rparr>"]) simp

theorem shutdown_completes_witness:
  "\<exists>s'. as_main s' = MainDone \<and> (\<exists>s. app_reach demo_wiring s \<and> app_step\<^sup>*\<^sup>* s s')"
  using shutdown_completes [OF demo_run] demo_run by blast

end
