(* ===== verification/Tools.thy ===== *)
theory Tools
  imports UserRange "HOL-Library.AList"
begin

text \<open>
  Two small parts: the program that samples a time range and counts the samples in buckets
  (\<open>cmd/plot-timerange/main.go\<close>), and the log handler that passes a record to several handlers
  (\<open>app/logger.go\<close>).
\<close>

section \<open>The histogram of a time range\<close>

definition plot_runs :: nat where "plot_runs = 4000000"

definition plot_cfg :: time_range where
  "plot_cfg = \<lparr>tr_Type = TimeRangeLogNormal, tr_Round = 60 * ns_per_s, tr_Lookback = 0, tr_Min = 30 * ns_per_s,
     tr_Max = 72 * 3600 * ns_per_s, tr_Mean = 100 * 60 * ns_per_s, tr_Sigma = 6/10\<rparr>"

text \<open>\<open>Duration.Truncate\<close>: towards zero to a multiple.\<close>

definition duration_Truncate :: "int \<Rightarrow> int \<Rightarrow> int" where
  "duration_Truncate m d = (if m \<le> 0 then d else d - go_rem d m)"

definition count_bucket :: "int \<Rightarrow> (int \<times> nat) list \<Rightarrow> (int \<times> nat) list" where
  "count_bucket d buckets =
     AList.update d ((case map_of buckets d of None \<Rightarrow> 0 | Some n \<Rightarrow> n) + 1) buckets"

fun plot_loop ::
    "'g user_rng \<Rightarrow> user_math \<Rightarrow> time_range \<Rightarrow> nat \<Rightarrow> (int \<times> nat) list \<Rightarrow> 'g \<Rightarrow> ((int \<times> nat) list \<times> 'g) option" where
  "plot_loop r M c 0 buckets g = Some (buckets, g)"
| "plot_loop r M c (Suc n) buckets g =
     (case SampleLookback r M c g of
        None \<Rightarrow> None
      | Some (d, g) \<Rightarrow> plot_loop r M c n (count_bucket (duration_Truncate (tr_Round c) d) buckets) g)"

text \<open>The rows that are written, in the order of the keys; the formatting of the minutes is an argument.\<close>

definition plot_rows :: "(int \<Rightarrow> string) \<Rightarrow> (int \<times> nat) list \<Rightarrow> string list list" where
  "plot_rows minutes buckets =
     [''x_minutes'', ''y_count''] #
     map (\<lambda>k. [minutes k, itoa (case map_of buckets k of None \<Rightarrow> 0 | Some n \<Rightarrow> n)]) (sort (map fst buckets))"

definition plot_main :: "'g user_rng \<Rightarrow> user_math \<Rightarrow> (int \<Rightarrow> string) \<Rightarrow> nat \<Rightarrow> time_range \<Rightarrow> 'g \<Rightarrow> string list list option" where
  "plot_main r M minutes n c g = map_option (\<lambda>(buckets, g). plot_rows minutes buckets) (plot_loop r M c n [] g)"

text \<open>The buckets a range can fall into, and the counts of all of them.\<close>

definition bucket_ok :: "time_range \<Rightarrow> int \<Rightarrow> bool" where
  "bucket_ok c k \<longleftrightarrow> (0 < tr_Round c \<longrightarrow> tr_Round c dvd k) \<and> 0 \<le> k \<and> k \<le> tr_Max c \<and> tr_Min c - tr_Round c < k"

definition bucket_total :: "(int \<times> nat) list \<Rightarrow> nat" where
  "bucket_total buckets = sum_list (map snd buckets)"

lemma update_total:
  assumes "distinct (map fst bs)"
  shows "bucket_total (AList.update k v bs) + (case map_of bs k of None \<Rightarrow> 0 | Some n \<Rightarrow> n) = bucket_total bs + v"
  using assms
proof (induction bs)
  case (Cons b bs)
  then show ?case by (cases b) (auto simp: bucket_total_def)
qed (simp add: bucket_total_def)

lemma count_total: "distinct (map fst bs) \<Longrightarrow> bucket_total (count_bucket k bs) = Suc (bucket_total bs)"
  using update_total [of bs k "(case map_of bs k of None \<Rightarrow> 0 | Some n \<Rightarrow> n) + 1"] by (simp add: count_bucket_def)

lemma count_keys: "fst ` set (count_bucket k bs) = insert k (fst ` set bs)"
proof -
  have "dom (map_of (count_bucket k bs)) = insert k (dom (map_of bs))"
    by (simp add: count_bucket_def update_conv')
  then show ?thesis by (simp add: dom_map_of_conv_image_fst)
qed

lemma count_distinct: "distinct (map fst bs) \<Longrightarrow> distinct (map fst (count_bucket k bs))"
  by (simp add: count_bucket_def distinct_update)

lemma truncate_nonneg:
  assumes "0 < m" and "0 \<le> d"
  shows "duration_Truncate m d = d div m * m"
proof -
  have "go_quot d m = d div m" using assms by (cases "d = 0") (simp_all add: go_quot_def)
  then show ?thesis using assms by (simp add: duration_Truncate_def go_rem_def)
qed

lemma truncated_bucket:
  assumes "0 < tr_Round c" and "0 \<le> tr_Min c" and "tr_Min c \<le> d" and "d \<le> tr_Max c"
  shows "bucket_ok c (duration_Truncate (tr_Round c) d)"
proof -
  have d: "0 \<le> d" using assms by linarith
  have "d div tr_Round c * tr_Round c \<le> d" "d - tr_Round c < d div tr_Round c * tr_Round c"
    using div_mult_mod_eq [of d "tr_Round c"] pos_mod_bound [OF assms(1), of d] pos_mod_sign [OF assms(1), of d] by linarith+
  moreover have "0 \<le> d div tr_Round c * tr_Round c" using d assms(1) by (simp add: pos_imp_zdiv_nonneg_iff)
  ultimately show ?thesis
    unfolding truncate_nonneg [OF assms(1) d] bucket_ok_def using assms by auto
qed

lemma plot_loop_ok:
  assumes "user_rng_ok r" and "drawable c" and "tr_Type c = TimeRangeLogNormal" and "0 < tr_Round c"
    and "0 < tr_Min c" and "0 < tr_Max c" and "distinct (map fst bs)" and "\<forall>k \<in> fst ` set bs. bucket_ok c k"
  shows "\<exists>bs' g'. plot_loop r M c n bs g = Some (bs', g') \<and> distinct (map fst bs') \<and>
    (\<forall>k \<in> fst ` set bs'. bucket_ok c k) \<and> bucket_total bs' = bucket_total bs + n"
  using assms(7,8)
proof (induction n arbitrary: bs g)
  case (Suc n)
  have "tr_Type c \<noteq> TimeRangeNone" using assms(3) by (simp add: range_types)
  then obtain d g1 where d: "SampleLookback r M c g = Some (d, g1)" "lookback_ok c d"
    using SampleLookback_ok [OF assms(1,2), of M g] by blast
  have b: "bucket_ok c (duration_Truncate (tr_Round c) d)"
    using d(2) assms(3-6) by (intro truncated_bucket) (auto simp: lookback_ok_def)
  let ?bs = "count_bucket (duration_Truncate (tr_Round c) d) bs"
  have "\<forall>k \<in> fst ` set ?bs. bucket_ok c k" using Suc.prems(2) b by (simp add: count_keys)
  then obtain bs' g' where "plot_loop r M c n ?bs g1 = Some (bs', g')" "distinct (map fst bs')"
      "\<forall>k \<in> fst ` set bs'. bucket_ok c k" "bucket_total bs' = bucket_total ?bs + n"
    using Suc.IH [OF count_distinct [OF Suc.prems(1)]] by blast
  then show ?case using d(1) count_total [OF Suc.prems(1)] by auto
qed simp

text \<open>
  The histogram: with the ranges of the random source sampling never panics, the buckets are
  different multiples of the rounding within the bounds of the range, written in strictly
  increasing order, and their counts add up to the number of samples.
\<close>

theorem plot_counts:
  assumes "user_rng_ok r" and "drawable c" and "tr_Type c = TimeRangeLogNormal" and "0 < tr_Round c"
    and "0 < tr_Min c" and "0 < tr_Max c"
  shows "\<exists>bs g'. plot_loop r M c n [] g = Some (bs, g') \<and> (\<forall>k \<in> fst ` set bs. bucket_ok c k) \<and>
    bucket_total bs = n \<and> plot_main r M minutes n c g = Some (plot_rows minutes bs) \<and>
    sorted_wrt (<) (sort (map fst bs)) \<and> length (plot_rows minutes bs) = length bs + 1"
proof -
  obtain bs g' where p: "plot_loop r M c n [] g = Some (bs, g')" "distinct (map fst bs)"
      "\<forall>k \<in> fst ` set bs. bucket_ok c k" "bucket_total bs = n"
    using plot_loop_ok [OF assms, of "[]" M n g] by (auto simp: bucket_total_def)
  have "sorted_wrt (<) (sort (map fst bs))" using p(2) by (simp add: strict_sorted_iff)
  then show ?thesis using p by (simp add: plot_main_def plot_rows_def)
qed

theorem plot_counts_witness:
  "\<exists>bs. plot_loop zero_user_rng plain_math plot_cfg 3 [] () = Some (bs, ()) \<and> bucket_total bs = 3 \<and>
     (\<forall>k \<in> fst ` set bs. 0 \<le> k)"
proof -
  have d: "drawable plot_cfg"
    by (simp add: drawable_def range_ok_def plot_cfg_def in_i64_def range_types)
  have c: "tr_Type plot_cfg = TimeRangeLogNormal" "0 < tr_Round plot_cfg" "0 < tr_Min plot_cfg" "0 < tr_Max plot_cfg"
    by (simp_all add: plot_cfg_def)
  from plot_counts [OF zero_user_rng_ok d c, of plain_math 3 "()" "\<lambda>_. ''''"] show ?thesis
    by (auto simp: bucket_ok_def)
qed

section \<open>The log handler\<close>

text \<open>
  A handler: whether it takes a level, and what it makes of a record, which may fail; its state is
  what was written.
\<close>

record ('l, 'r, 's) log_handler =
  lh_Enabled :: "'l \<Rightarrow> bool"
  lh_Handle :: "'r \<Rightarrow> 's \<Rightarrow> bool \<times> 's"

definition multi_Enabled :: "('l, 'r, 's) log_handler list \<Rightarrow> 'l \<Rightarrow> bool" where
  "multi_Enabled hs level \<longleftrightarrow> list_ex (\<lambda>h. lh_Enabled h level) hs"

fun multi_Handle :: "('l, 'r, 's) log_handler list \<Rightarrow> 'r \<Rightarrow> 's list \<Rightarrow> bool \<times> 's list" where
  "multi_Handle (h # hs) rcd (s # ss) =
     (case lh_Handle h rcd s of
        (False, s) \<Rightarrow> (False, s # ss)
      | (True, s) \<Rightarrow> (case multi_Handle hs rcd ss of (ok, ss) \<Rightarrow> (ok, s # ss)))"
| "multi_Handle hs rcd ss = (True, ss)"

definition new_logger :: "bool \<Rightarrow> bool \<Rightarrow> 'h \<Rightarrow> 'h \<Rightarrow> 'h list" where
  "new_logger logToConsole logToFile console file =
     (if logToConsole then [console] else []) @ (if logToFile then [file] else [])"

text \<open>When every handler succeeds the record reaches each of them; a failure keeps it from all after it.\<close>

lemma multi_Handle_all:
  assumes "length hs = length ss" and "\<forall>h \<in> set hs. \<forall>s. fst (lh_Handle h rcd s)"
  shows "multi_Handle hs rcd ss = (True, map2 (\<lambda>h s. snd (lh_Handle h rcd s)) hs ss)"
  using assms
proof (induction hs ss rule: list_induct2)
  case (Cons h hs s ss)
  then have "fst (lh_Handle h rcd s)" by simp
  then obtain s' where "lh_Handle h rcd s = (True, s')" by (cases "lh_Handle h rcd s") auto
  then show ?case using Cons by simp
qed simp

lemma multi_Handle_stops:
  "lh_Handle h rcd s = (False, s') \<Longrightarrow> multi_Handle (h # hs) rcd (s # ss) = (False, s' # ss)"
  by simp

lemma no_logger: "multi_Enabled (new_logger False False console file) level = False"
  by (simp add: multi_Enabled_def new_logger_def)

end
