(* ===== verification/Transports.thy ===== *)
theory Transports
  imports MgWorker Otel MetricsExport
begin

text \<open>
  The export clients of the three OTLP senders, over HTTP and gRPC (\<open>metricgen/client.go\<close>,
  \<open>client_http.go\<close>, \<open>otel/client.go\<close>, \<open>client_http.go\<close>, \<open>metrics/otlp_client.go\<close>, \<open>otlp_client_http.go\<close>): the
  request that is built, and what becomes of the answer. URL parsing, gzip, protobuf and the network
  are arguments; the header map is Go's, with its canonical keys.
\<close>

section \<open>Headers\<close>

definition lower_char :: "char \<Rightarrow> char" where
  "lower_char c = (let n = of_char c :: nat in if 65 \<le> n \<and> n \<le> 90 then char_of (n + 32) else c)"

definition header_token :: "char \<Rightarrow> bool" where
  "header_token c \<longleftrightarrow>
     (let n = of_char c :: nat in 48 \<le> n \<and> n \<le> 57 \<or> 65 \<le> n \<and> n \<le> 90 \<or> 97 \<le> n \<and> n \<le> 122) \<or>
     c \<in> {CHR ''!'', CHR ''#'', CHR ''$'', CHR ''%'', CHR ''&'', CHR 0x27, CHR ''*'', CHR ''+'', CHR ''-'', CHR ''.'',
       CHR ''^'', CHR ''_'', CHR 0x60, CHR ''|'', CHR ''~''}"

fun canonical_from :: "bool \<Rightarrow> string \<Rightarrow> string" where
  "canonical_from upper [] = []"
| "canonical_from upper (c # cs) =
     (if upper then upper_char c else lower_char c) # canonical_from (c = CHR ''-'') cs"

definition canonical_key :: "string \<Rightarrow> string" where
  "canonical_key k = (if list_all header_token k then canonical_from True k else k)"

type_synonym http_header = "string \<rightharpoonup> string"

definition set_header :: "string \<Rightarrow> string \<Rightarrow> http_header \<Rightarrow> http_header" where
  "set_header k v h = h(canonical_key k \<mapsto> v)"

section \<open>A POST\<close>

record http_request =
  rq_url :: string
  rq_headers :: http_header
  rq_body :: string
  rq_timeout :: "int option"

text \<open>
  The libraries: parsing and printing of URLs, gzip, whether a request can be made of a URL, the
  round trip (\<open>None\<close> an error, else code, status line and body), and the rejected points that the
  body of a metrics response reports (\<open>None\<close> not a response, \<open>Some None\<close> none reported).
\<close>

record http_lib =
  hl_parse :: "string \<Rightarrow> (string \<times> string \<times> string) option"
  hl_print :: "string \<times> string \<times> string \<Rightarrow> string"
  hl_gzip :: "string \<Rightarrow> string option"
  hl_request :: "string \<Rightarrow> bool"
  hl_do :: "http_request \<Rightarrow> (int \<times> string \<times> string) option"
  hl_partial :: "string \<Rightarrow> (int \<times> string) option option"

record http_client =
  htc_url :: string
  htc_headers :: "(string \<times> string) list"
  htc_gzip :: bool
  htc_timeout :: int
  htc_tls :: bool

datatype post_err =
  PostMarshal | PostGzip | PostRequest | PostNet | PostTooLarge string string | PostStatus string string string |
  PostRejected int string

definition encode_body :: "http_lib \<Rightarrow> http_client \<Rightarrow> string \<Rightarrow> (string \<times> string) option" where
  "encode_body L c body =
     (if htc_gzip c then map_option (\<lambda>b. (b, ''gzip'')) (hl_gzip L body) else Some (body, ''''))"

text \<open>The configured headers in the order the map iteration takes them, then the ones the protocol needs.\<close>

definition request_headers :: "http_client \<Rightarrow> string \<Rightarrow> http_header" where
  "request_headers c encoding =
     (let h = fold (\<lambda>(k, v). set_header k v) (htc_headers c) Map.empty;
          h = set_header ''Content-Type'' ''application/x-protobuf'' h
      in if encoding \<noteq> '''' then set_header ''Content-Encoding'' encoding h else h)"

definition post_request :: "http_client \<Rightarrow> string \<Rightarrow> string \<Rightarrow> string \<Rightarrow> http_request" where
  "post_request c endpoint body encoding =
     \<lparr>rq_url = endpoint, rq_headers = request_headers c encoding, rq_body = body,
      rq_timeout = (if htc_timeout c > 0 then Some (htc_timeout c) else None)\<rparr>"

definition http_post ::
    "http_lib \<Rightarrow> http_client \<Rightarrow> string \<Rightarrow> string \<Rightarrow> nat \<Rightarrow> post_err + int \<times> string \<times> string" where
  "http_post L c endpoint body limit =
     (case encode_body L c body of
        None \<Rightarrow> Inl PostGzip
      | Some (body, encoding) \<Rightarrow>
          if \<not> hl_request L endpoint then Inl PostRequest
          else case hl_do L (post_request c endpoint body encoding) of
            None \<Rightarrow> Inl PostNet
          | Some (code, status, respBody) \<Rightarrow> Inr (code, status, take limit respBody))"

definition snippet :: "string \<Rightarrow> string" where "snippet body = trimSpace (take 512 body)"

definition rejected_of :: "(int \<times> string) option option \<Rightarrow> (int \<times> string) option" where
  "rejected_of r = (case r of Some (Some (n, msg)) \<Rightarrow> if n > 0 then Some (n, msg) else None | _ \<Rightarrow> None)"

section \<open>The clients over HTTP\<close>

definition mg_httpBaseURL ::
    "(string \<Rightarrow> (string \<times> string \<times> string) option) \<Rightarrow> string \<Rightarrow> bool \<Rightarrow> url_err + string \<times> string \<times> string" where
  "mg_httpBaseURL parse raw insecure =
     (let raw = (if \<not> contains raw ''://'' then (if insecure then ''http'' else ''https'') @ ''://'' @ raw else raw)
      in case parse raw of
           None \<Rightarrow> Inl InvalidURL
         | Some (scheme, host, path) \<Rightarrow>
             if scheme \<noteq> ''http'' \<and> scheme \<noteq> ''https'' then Inl BadScheme
             else if host = '''' then Inl MissingHost
             else Inr (scheme, host, path))"

definition signal_url :: "http_lib \<Rightarrow> string \<times> string \<times> string \<Rightarrow> string \<Rightarrow> string" where
  "signal_url L base signalPath =
     (case base of (scheme, host, path) \<Rightarrow> hl_print L (scheme, host, signal_path path signalPath))"

definition mg_dialHTTP :: "http_lib \<Rightarrow> mg_config \<Rightarrow> url_err + http_client" where
  "mg_dialHTTP L cfg =
     (case mg_httpBaseURL (hl_parse L) (mg_URL cfg) (mg_Insecure cfg) of
        Inl err \<Rightarrow> Inl err
      | Inr base \<Rightarrow> Inr
          \<lparr>htc_url = signal_url L base ''/v1/metrics'', htc_headers = mg_Headers cfg,
           htc_gzip = (mg_Compression cfg = ''gzip''), htc_timeout = mg_Timeout cfg, htc_tls = (fst base = ''https'')\<rparr>)"

definition mg_http_export :: "http_lib \<Rightarrow> http_client \<Rightarrow> string \<Rightarrow> int \<times> string \<times> post_err option" where
  "mg_http_export L c body =
     (case http_post L c (htc_url c) body (2 ^ 20) of
        Inl err \<Rightarrow> (0, '''', Some err)
      | Inr (code, status, respBody) \<Rightarrow>
          if code = 413 then (0, '''', Some (PostTooLarge (htc_url c) status))
          else if go_quot code 100 \<noteq> 2 then (0, '''', Some (PostStatus (htc_url c) status (snippet respBody)))
          else case (if 0 < length respBody then rejected_of (hl_partial L respBody) else None) of
            Some (n, msg) \<Rightarrow> (n, msg, None)
          | None \<Rightarrow> (0, '''', None))"

text \<open>The error as \<open>isMessageTooLarge\<close> sees it.\<close>

definition mg_http_err :: "post_err \<Rightarrow> export_err" where
  "mg_http_err e = (case e of PostTooLarge _ _ \<Rightarrow> HTTPTooLarge | _ \<Rightarrow> OtherErr)"

text \<open>The OTel client has one URL for each signal.\<close>

definition otel_dialHTTP :: "http_lib \<Rightarrow> otel_config \<Rightarrow> url_err + http_client \<times> string \<times> string" where
  "otel_dialHTTP L cfg =
     (case httpBaseURL (hl_parse L) (oc_URL cfg) (oc_Insecure cfg) of
        Inl err \<Rightarrow> Inl err
      | Inr (scheme, host, path) \<Rightarrow>
          let url = \<lambda>signal. hl_print L (scheme, host, otel_signalPath path signal) in Inr
          (\<lparr>htc_url = '''', htc_headers = oc_Headers cfg, htc_gzip = (oc_Compression cfg = ''gzip''),
            htc_timeout = oc_Timeout cfg, htc_tls = (scheme = ''https'')\<rparr>, url ''/v1/logs'', url ''/v1/traces''))"

definition otel_post :: "http_lib \<Rightarrow> http_client \<Rightarrow> string \<Rightarrow> string option \<Rightarrow> post_err option" where
  "otel_post L c endpoint marshalled =
     (case marshalled of
        None \<Rightarrow> Some PostMarshal
      | Some body \<Rightarrow>
          (case http_post L c endpoint body 512 of
             Inl err \<Rightarrow> Some err
           | Inr (code, status, respBody) \<Rightarrow>
               if go_quot code 100 \<noteq> 2 then Some (PostStatus endpoint status (trimSpace respBody)) else None))"

definition metrics_dialHTTP :: "http_lib \<Rightarrow> otlp_config \<Rightarrow> int \<Rightarrow> url_err + http_client" where
  "metrics_dialHTTP L cfg timeout =
     (case dialOTLPHTTP (hl_parse L) cfg of
        Inl err \<Rightarrow> Inl err
      | Inr (url, gz) \<Rightarrow> Inr
          \<lparr>htc_url = hl_print L url, htc_headers = mo_Headers cfg, htc_gzip = gz, htc_timeout = timeout,
           htc_tls = (fst url = ''https'')\<rparr>)"

definition metrics_http_export :: "http_lib \<Rightarrow> http_client \<Rightarrow> string option \<Rightarrow> post_err option" where
  "metrics_http_export L c marshalled =
     (case marshalled of
        None \<Rightarrow> Some PostMarshal
      | Some body \<Rightarrow>
          (case http_post L c (htc_url c) body (2 ^ 20) of
             Inl err \<Rightarrow> Some err
           | Inr (code, status, respBody) \<Rightarrow>
               if go_quot code 100 \<noteq> 2 then Some (PostStatus (htc_url c) status (snippet respBody))
               else case rejected_of (hl_partial L respBody) of
                 Some (n, msg) \<Rightarrow> Some (PostRejected n msg)
               | None \<Rightarrow> None))"

section \<open>The clients over gRPC\<close>

record grpc_client =
  grc_target :: string
  grc_plaintext :: bool
  grc_gzip :: bool
  grc_metadata :: "(string \<times> string) list option"
  grc_timeout :: int

text \<open>What \<open>grpc.NewClient\<close> accepts as a target is an argument; dialling connects to nothing.\<close>

definition new_grpc :: "(string \<Rightarrow> bool) \<Rightarrow> grpc_client \<Rightarrow> grpc_client option" where
  "new_grpc accepts c = (if accepts (grc_target c) then Some c else None)"

definition metadata_of :: "(string \<times> string) list \<Rightarrow> (string \<times> string) list option" where
  "metadata_of headers = (if 0 < length headers then Some headers else None)"

definition mg_dialGRPC :: "(string \<Rightarrow> bool) \<Rightarrow> mg_config \<Rightarrow> grpc_client option" where
  "mg_dialGRPC accepts cfg = new_grpc accepts
     \<lparr>grc_target = fst (parseTarget (mg_URL cfg)), grc_plaintext = grpc_plaintext cfg,
      grc_gzip = (mg_Compression cfg = ''gzip''), grc_metadata = metadata_of (mg_Headers cfg), grc_timeout = mg_Timeout cfg\<rparr>"

definition otel_dialGRPC :: "(string \<Rightarrow> bool) \<Rightarrow> otel_config \<Rightarrow> grpc_client option" where
  "otel_dialGRPC accepts cfg = new_grpc accepts
     \<lparr>grc_target = fst (otel_parseTarget (oc_URL cfg)), grc_plaintext = otel_plaintext cfg,
      grc_gzip = (oc_Compression cfg = ''gzip''), grc_metadata = metadata_of (oc_Headers cfg), grc_timeout = oc_Timeout cfg\<rparr>"

definition metrics_dialGRPC :: "(string \<Rightarrow> bool) \<Rightarrow> otlp_config \<Rightarrow> int \<Rightarrow> grpc_client option" where
  "metrics_dialGRPC accepts cfg timeout =
     (case dialOTLPGRPC cfg of (target, plaintext, gz) \<Rightarrow> new_grpc accepts
        \<lparr>grc_target = target, grc_plaintext = plaintext, grc_gzip = gz, grc_metadata = metadata_of (mo_Headers cfg),
         grc_timeout = timeout\<rparr>)"

text \<open>The metadata are the configured headers; \<open>metadata.New\<close> lowers their keys.\<close>

text \<open>The payload of a call: bytes that were marshalled before, or a message the base codec marshals.\<close>

datatype 'm payload = PreMarshaled string | Message 'm

definition codec_Marshal :: "('m \<Rightarrow> string option) \<Rightarrow> 'm payload \<Rightarrow> string option" where
  "codec_Marshal base v = (case v of PreMarshaled data \<Rightarrow> Some data | Message m \<Rightarrow> base m)"

definition exportFullMethod :: string where
  "exportFullMethod = ''/opentelemetry.proto.collector.metrics.v1.MetricsService/Export''"

record 'm grpc_call =
  gl_method :: string
  gl_metadata :: "(string \<times> string) list option"
  gl_timeout :: "int option"
  gl_payload :: "'m payload"

text \<open>\<open>invoke\<close>: the error of the call, or the partial success of the response.\<close>

definition callContext :: "grpc_client \<Rightarrow> (string \<times> string) list option \<times> int option" where
  "callContext c = (grc_metadata c, if grc_timeout c > 0 then Some (grc_timeout c) else None)"

definition mg_grpc_export ::
    "('m grpc_call \<Rightarrow> export_err + (int \<times> string) option) \<Rightarrow> grpc_client \<Rightarrow> string \<Rightarrow> int \<times> string \<times> export_err option" where
  "mg_grpc_export invoke c data =
     (case callContext c of (md, tmo) \<Rightarrow>
      case invoke \<lparr>gl_method = exportFullMethod, gl_metadata = md, gl_timeout = tmo, gl_payload = PreMarshaled data\<rparr> of
        Inl err \<Rightarrow> (0, '''', Some err)
      | Inr ps \<Rightarrow> (case rejected_of (Some ps) of Some (n, msg) \<Rightarrow> (n, msg, None) | None \<Rightarrow> (0, '''', None)))"

definition otel_grpc_export ::
    "('m grpc_call \<Rightarrow> export_err + unit) \<Rightarrow> string \<Rightarrow> grpc_client \<Rightarrow> 'm \<Rightarrow> export_err option" where
  "otel_grpc_export invoke service c req =
     (case callContext c of (md, tmo) \<Rightarrow>
      case invoke \<lparr>gl_method = service, gl_metadata = md, gl_timeout = tmo, gl_payload = Message req\<rparr> of
        Inl err \<Rightarrow> Some err
      | Inr _ \<Rightarrow> None)"

definition metrics_grpc_export ::
    "('m grpc_call \<Rightarrow> export_err + (int \<times> string) option) \<Rightarrow> grpc_client \<Rightarrow> 'm \<Rightarrow> (export_err + int \<times> string) option" where
  "metrics_grpc_export invoke c req =
     (case callContext c of (md, tmo) \<Rightarrow>
      case invoke \<lparr>gl_method = exportFullMethod, gl_metadata = md, gl_timeout = tmo, gl_payload = Message req\<rparr> of
        Inl err \<Rightarrow> Some (Inl err)
      | Inr ps \<Rightarrow> map_option Inr (rejected_of (Some ps)))"

section \<open>Lemmas\<close>

lemma content_keys:
  "canonical_key ''Content-Type'' = ''Content-Type''" "canonical_key ''Content-Encoding'' = ''Content-Encoding''"
  by (simp_all add: canonical_key_def header_token_def upper_char_def lower_char_def Let_def)

text \<open>Whatever headers are configured, in whatever case, a request has the ones its body needs.\<close>

lemma required_headers:
  "rq_headers (post_request c endpoint body encoding) ''Content-Type'' = Some ''application/x-protobuf''"
  "encoding \<noteq> '''' \<Longrightarrow> rq_headers (post_request c endpoint body encoding) ''Content-Encoding'' = Some encoding"
  by (simp_all add: post_request_def request_headers_def set_header_def content_keys Let_def)

lemma user_headers:
  assumes "k \<noteq> ''Content-Type''" and "k \<noteq> ''Content-Encoding''"
  shows "rq_headers (post_request c endpoint body encoding) k =
    fold (\<lambda>(k, v). set_header k v) (htc_headers c) Map.empty k"
  using assms by (simp add: post_request_def request_headers_def set_header_def content_keys Let_def)

text \<open>
  Not so without compression: a configured \<open>content-encoding\<close> header goes out with the plain body.
\<close>

lemma encoding_clobbered:
  "rq_headers (post_request \<lparr>htc_url = u, htc_headers = [(''content-encoding'', ''gzip'')], htc_gzip = False, htc_timeout = t,
     htc_tls = s\<rparr> endpoint body '''') ''Content-Encoding'' = Some ''gzip''"
proof -
  have "canonical_key ''content-encoding'' = ''Content-Encoding''"
    by code_simp
  then show ?thesis by (simp add: post_request_def request_headers_def set_header_def content_keys Let_def)
qed

lemma status_ok: "go_quot code 100 = 2 \<longleftrightarrow> 200 \<le> code \<and> code < 300"
proof (cases "0 \<le> code")
  case True
  then have "go_quot code 100 = code div 100" by (cases "code = 0") (simp_all add: go_quot_def)
  then show ?thesis by presburger
next
  case False
  then have "go_quot code 100 \<le> 0" by (simp add: go_quot_def sgn_if)
  with False show ?thesis by linarith
qed

section \<open>A flush over HTTP\<close>

text \<open>The status of an answer, when the request could be made and was answered.\<close>

definition answer_code :: "http_lib \<Rightarrow> http_client \<Rightarrow> string \<Rightarrow> int option" where
  "answer_code L c body =
     (case http_post L c (htc_url c) body (2 ^ 20) of Inl _ \<Rightarrow> None | Inr (code, _, _) \<Rightarrow> Some code)"

text \<open>The attempts of a flush, as the worker's loop takes them; the network may answer each one differently.\<close>

definition http_attempts :: "(nat \<Rightarrow> http_lib) \<Rightarrow> http_client \<Rightarrow> string \<Rightarrow> nat \<Rightarrow> export_err option \<times> nat" where
  "http_attempts L c body a =
     (case mg_http_export (L a) c body of (n, _, err) \<Rightarrow> (map_option mg_http_err err, nat n))"

lemma mg_http_export_verdict:
  assumes "mg_http_export L c body = (n, msg, err)"
  shows "err = None \<longleftrightarrow> (\<exists>code. answer_code L c body = Some code \<and> 200 \<le> code \<and> code < 300)"
    and "isMessageTooLarge (map_option mg_http_err err) \<longleftrightarrow> answer_code L c body = Some 413"
    and "0 \<le> n" and "err \<noteq> None \<longrightarrow> n = 0"
proof -
  have early: "err = Some PostGzip \<or> err = Some PostRequest \<or> err = Some PostNet" "n = 0"
    if "http_post L c (htc_url c) body (2 ^ 20) = Inl e" for e
    using that assms by (auto simp: mg_http_export_def http_post_def split: option.splits if_splits prod.splits)
  have "(err = None \<longleftrightarrow> (\<exists>code. answer_code L c body = Some code \<and> 200 \<le> code \<and> code < 300)) \<and>
    (isMessageTooLarge (map_option mg_http_err err) \<longleftrightarrow> answer_code L c body = Some 413) \<and> 0 \<le> n \<and> (err \<noteq> None \<longrightarrow> n = 0)"
  proof (cases "http_post L c (htc_url c) body (2 ^ 20)")
    case (Inl e)
    then show ?thesis
      using early [OF Inl] by (auto simp: answer_code_def mg_http_err_def isMessageTooLarge_def)
  next
    case (Inr a)
    obtain code status resp where a: "a = (code, status, resp)" by (rule prod_cases3)
    show ?thesis
      using assms Inr a
      by (auto simp: mg_http_export_def answer_code_def status_ok mg_http_err_def isMessageTooLarge_def rejected_of_def
          split: if_splits option.splits)
  qed
  then show "err = None \<longleftrightarrow> (\<exists>code. answer_code L c body = Some code \<and> 200 \<le> code \<and> code < 300)"
    and "isMessageTooLarge (map_option mg_http_err err) \<longleftrightarrow> answer_code L c body = Some 413"
    and "0 \<le> n" and "err \<noteq> None \<longrightarrow> n = 0"
    by blast+
qed

text \<open>
  A flush over HTTP delivers exactly when its last attempt was answered with a 2xx status; no attempt
  follows one answered with 2xx or 413, and at most five are made.
\<close>

theorem http_flush_verdict:
  assumes "se_export E n = http_attempts L c body"
    and "flush_loop E n 1 baseFlushBackoff [] = (v, attempts, waits)"
  shows "((\<exists>r. v = Delivered r) \<longleftrightarrow>
      (\<exists>code. answer_code (L attempts) c body = Some code \<and> 200 \<le> code \<and> code < 300)) \<and>
    1 \<le> attempts \<and> attempts \<le> 5 \<and>
    (\<forall>a code. 1 \<le> a \<and> a < attempts \<and> answer_code (L a) c body = Some code \<longrightarrow>
       code \<noteq> 413 \<and> \<not> (200 \<le> code \<and> code < 300))"
proof -
  have attempt: "fst (se_export E n a) = None \<longleftrightarrow> (\<exists>code. answer_code (L a) c body = Some code \<and> 200 \<le> code \<and> code < 300)"
    "isMessageTooLarge (fst (se_export E n a)) \<longleftrightarrow> answer_code (L a) c body = Some 413" for a
  proof -
    obtain k msg err where e: "mg_http_export (L a) c body = (k, msg, err)" by (rule prod_cases3)
    have f: "fst (se_export E n a) = map_option mg_http_err err" by (simp only: assms(1) http_attempts_def e prod.case fst_conv)
    show "fst (se_export E n a) = None \<longleftrightarrow> (\<exists>code. answer_code (L a) c body = Some code \<and> 200 \<le> code \<and> code < 300)"
      unfolding f using mg_http_export_verdict(1) [OF e] by simp
    show "isMessageTooLarge (fst (se_export E n a)) \<longleftrightarrow> answer_code (L a) c body = Some 413"
      unfolding f by (rule mg_http_export_verdict(2) [OF e])
  qed
  note loop = flush_loop_inv [OF assms(2)]
  have bounds: "1 \<le> attempts" "attempts \<le> 5"
    using loop by (simp_all add: flush_schedule_def baseFlushBackoff_def)
  have last: "v = Delivered r \<longleftrightarrow> se_export E n attempts = (None, r)" for r
    using loop by (simp add: flush_schedule_def baseFlushBackoff_def)
  have before: "fst (se_export E n a) \<noteq> None" "\<not> isMessageTooLarge (fst (se_export E n a))"
    if "1 \<le> a" "a < attempts" for a
    using loop that by (simp_all add: flush_schedule_def baseFlushBackoff_def)
  have "(\<exists>r. v = Delivered r) \<longleftrightarrow> fst (se_export E n attempts) = None"
    by (cases "se_export E n attempts") (simp add: last)
  moreover have "code \<noteq> 413 \<and> \<not> (200 \<le> code \<and> code < 300)"
    if "1 \<le> a" "a < attempts" and code: "answer_code (L a) c body = Some code" for a code
    using before [OF that(1,2)] unfolding attempt code by simp
  ultimately show ?thesis unfolding attempt(1) using bounds by blast
qed

text \<open>An endpoint that is busy twice and then finds the request too large.\<close>

definition busy_lib :: "nat \<Rightarrow> http_lib" where
  "busy_lib a = \<lparr>hl_parse = (\<lambda>_. None), hl_print = (\<lambda>_. ''''), hl_gzip = Some, hl_request = (\<lambda>_. True),
     hl_do = (\<lambda>_. Some (if a < 3 then (503, ''503'', '''') else (413, ''413'', ''''))), hl_partial = (\<lambda>_. None)\<rparr>"

definition busy_client :: http_client where
  "busy_client = \<lparr>htc_url = ''http://h/v1/metrics'', htc_headers = [], htc_gzip = True, htc_timeout = 0, htc_tls = False\<rparr>"

definition busy_env :: "builder send_env" where
  "busy_env = \<lparr>se_marshal = (\<lambda>_. Some 100), se_export = (\<lambda>_. http_attempts busy_lib busy_client ''x''),
     se_done = (\<lambda>_ _. False), se_wait_done = (\<lambda>_ _. False)\<rparr>"

lemma busy_attempts:
  "http_attempts busy_lib busy_client ''x'' a = (if a < 3 then (Some OtherErr, 0) else (Some HTTPTooLarge, 0))"
  by (simp add: http_attempts_def mg_http_export_def http_post_def encode_body_def busy_client_def busy_lib_def
      status_ok mg_http_err_def)

theorem http_flush_verdict_witness:
  "flush_loop busy_env 0 1 baseFlushBackoff [] = (Dropped, 3, [250 * ns_per_ms, 500 * ns_per_ms]) \<and>
   \<not> (\<exists>code. answer_code (busy_lib 3) busy_client ''x'' = Some code \<and> 200 \<le> code \<and> code < 300)"
proof -
  have run: "flush_loop busy_env 0 1 baseFlushBackoff [] = (Dropped, 3, [250 * ns_per_ms, 500 * ns_per_ms])"
    by (simp add: flush_loop.simps busy_env_def busy_attempts isMessageTooLarge_def maxFlushAttempts_def
        baseFlushBackoff_def maxFlushBackoff_def)
  have "se_export busy_env 0 = http_attempts busy_lib busy_client ''x''" by (simp add: busy_env_def)
  from http_flush_verdict [OF this run] run show ?thesis by simp
qed

end
