(* ===== verification/DiskRun.thy ===== *)
theory DiskRun
  imports Disk
begin

text \<open>
  The disk source as a whole (\<open>disk/scheduler.go\<close>, \<open>disk/worker.go\<close>): how a worker opens and closes the
  files it reads, and the goroutine that hands out files and the workers that take them, in any
  interleaving. What opening a file answers and how a run ends are arguments.
\<close>

section \<open>The reader of a file\<close>

text \<open>The resources a reader holds: the open file, the decompressor, the metering reader.\<close>

datatype resource_kind = FileHandle | Decompressor | SpeedReader

datatype reader_event = Opened resource_kind | Closed resource_kind

datatype reader_err = OpeningFile | CreatingZstd

text \<open>
  \<open>buildReader\<close>: the events, and the events of the cleanup function it returns. \<open>opens\<close> is \<open>os.Open\<close>,
  \<open>decodes\<close> is \<open>zstd.NewReader\<close>; the counting and buffering readers hold nothing.
\<close>

definition buildReader ::
    "(string \<Rightarrow> bool) \<Rightarrow> (string \<Rightarrow> bool) \<Rightarrow> dataFile \<Rightarrow> reader_event list \<times> (reader_err + reader_event list)" where
  "buildReader opens decodes f =
     (if \<not> opens (df_Path f) then ([], Inl OpeningFile)
      else if df_Compressed f \<and> \<not> decodes (df_Path f) then ([Opened FileHandle, Closed FileHandle], Inl CreatingZstd)
      else (Opened FileHandle # (if df_Compressed f then [Opened Decompressor] else []) @ [Opened SpeedReader],
        Inr (Closed SpeedReader # (if df_Compressed f then [Closed Decompressor] else []) @ [Closed FileHandle])))"

datatype run_result = RunReader reader_err | RunContext | RunNil

text \<open>
  \<open>Run\<close>: the error it returns, the events of its resources, and the state its blocks leave. A run
  that waits for ever keeps its resources; a panic runs the deferred cleanup.
\<close>

definition disk_worker_Run ::
  "('p \<Rightarrow> (nat \<times> 'p) option) \<Rightarrow> (nat \<Rightarrow> 'p \<Rightarrow> 'p option) \<Rightarrow> (string \<Rightarrow> bool) \<Rightarrow> (string \<Rightarrow> bool) \<Rightarrow>
   'c block_ops \<Rightarrow> string \<Rightarrow> dataFile \<Rightarrow> bool \<Rightarrow> nat \<Rightarrow> (bool \<times> bool \<times> 'c decoded) list \<Rightarrow> ('p, 'c) disk_state \<Rightarrow>
   reader_event list \<times> (run_result option \<times> ('p, 'c) disk_state) outcome" where
  "disk_worker_Run acquire release opens decodes B mode f passthrough cap ds s =
     (case buildReader opens decodes f of
        (evs, Inl err) \<Rightarrow> (evs, Returned (Some (RunReader err), s))
      | (evs, Inr cleanup) \<Rightarrow>
          (case disk_run acquire release B mode f passthrough cap ds s of
             Blocked \<Rightarrow> (evs, Blocked)
           | Panicked \<Rightarrow> (evs @ cleanup, Panicked)
           | Returned (RunGoesOn, s) \<Rightarrow> (evs, Returned (None, s))
           | Returned (RunStopped, s) \<Rightarrow> (evs @ cleanup, Returned (Some RunContext, s))
           | Returned (RunFinished, s) \<Rightarrow> (evs @ cleanup, Returned (Some RunNil, s))
           | Returned (RunReadFailed, s) \<Rightarrow> (evs @ cleanup, Returned (Some RunNil, s))))"

definition held :: "reader_event list \<Rightarrow> resource_kind \<Rightarrow> int" where
  "held evs r = int (count_list evs (Opened r)) - int (count_list evs (Closed r))"

text \<open>A run that returns, with or without an error, has closed all it opened.\<close>

lemma run_closes:
  assumes "disk_worker_Run acquire release opens decodes B mode f passthrough cap ds s = (evs, Returned (Some r, s'))"
  shows "held evs x = 0"
proof (cases x)
qed (use assms in \<open>auto simp: disk_worker_Run_def buildReader_def held_def split: if_splits outcome.splits prod.splits run_end.splits\<close>)

text \<open>Only a file that is not opened or not decoded is reported; one that breaks off in the middle is not.\<close>

lemma run_reports:
  assumes "disk_worker_Run acquire release opens decodes B mode f passthrough cap ds s = (evs, Returned (Some (RunReader err), s'))"
  shows "s' = s \<and> (err = OpeningFile \<longleftrightarrow> \<not> opens (df_Path f)) \<and>
    (err = CreatingZstd \<longleftrightarrow> opens (df_Path f) \<and> df_Compressed f \<and> \<not> decodes (df_Path f))"
  using assms
  by (auto simp: disk_worker_Run_def buildReader_def split: if_splits outcome.splits prod.splits run_end.splits)

section \<open>Handing out files\<close>

text \<open>
  Where a worker is in \<open>runWorker\<close>: at the receive, with its file, with its \<open>worker\<close> made, registered, running,
  returned, unregistered, or gone. Each lock of the workers map is a step of its own. \<open>fs_started\<close> and
  \<open>fs_ended\<close> record which worker received which file and which runs returned.
\<close>

datatype at_step =
  Waiting | Received dataFile | Created dataFile u64 | Registered dataFile | Running dataFile | RanOut dataFile | Unregistered | Gone

record file_sched =
  fs_next :: "nat \<times> nat"
  fs_closed :: bool
  fs_done :: bool
  fs_at :: "at_step list"
  fs_workers :: workers
  fs_started :: "(nat \<times> dataFile) list"
  fs_ended :: "(nat \<times> dataFile) list"

text \<open>
  The steps of \<open>generateFiles\<close> and of the workers. The channel has no buffer: a send and its receive are
  one step. When the context is done either arm of a select may be taken.
\<close>

inductive files_step :: "disk_config \<Rightarrow> dataFile list \<Rightarrow> file_sched \<Rightarrow> file_sched \<Rightarrow> bool" for c files where
  Receive: "\<not> fs_closed s \<Longrightarrow> i < length (fs_at s) \<Longrightarrow> fs_at s ! i = Waiting \<Longrightarrow>
    next_file files (dk_Loop c) (fs_next s) = Some (f, p) \<Longrightarrow>
    files_step c files s (s\<lparr>fs_next := p, fs_started := fs_started s @ [(i, f)],
      fs_at := (fs_at s)[i := Received f]\<rparr>)"
| NewWorker: "i < length (fs_at s) \<Longrightarrow> fs_at s ! i = Received f \<Longrightarrow>
    files_step c files s (s\<lparr>fs_at := (fs_at s)[i := Created f (getNewWorkerSpeed c (fs_workers s))]\<rparr>)"
| Register: "i < length (fs_at s) \<Longrightarrow> fs_at s ! i = Created f w \<Longrightarrow>
    files_step c files s (s\<lparr>fs_at := (fs_at s)[i := Registered f], fs_workers := disk_register i w (fs_workers s)\<rparr>)"
| StartRun: "i < length (fs_at s) \<Longrightarrow> fs_at s ! i = Registered f \<Longrightarrow>
    files_step c files s (s\<lparr>fs_at := (fs_at s)[i := Running f], fs_workers := rebalanceSpeed c (fs_workers s)\<rparr>)"
| EndRun: "i < length (fs_at s) \<Longrightarrow> fs_at s ! i = Running f \<Longrightarrow>
    files_step c files s (s\<lparr>fs_at := (fs_at s)[i := RanOut f], fs_ended := fs_ended s @ [(i, f)]\<rparr>)"
| Unregister: "i < length (fs_at s) \<Longrightarrow> fs_at s ! i = RanOut f \<Longrightarrow>
    files_step c files s (s\<lparr>fs_at := (fs_at s)[i := Unregistered], fs_workers := disk_unregister i (fs_workers s)\<rparr>)"
| Again: "i < length (fs_at s) \<Longrightarrow> fs_at s ! i = Unregistered \<Longrightarrow>
    files_step c files s (s\<lparr>fs_at := (fs_at s)[i := Waiting], fs_workers := rebalanceSpeed c (fs_workers s)\<rparr>)"
| LeaveClosed: "fs_closed s \<Longrightarrow> i < length (fs_at s) \<Longrightarrow> fs_at s ! i = Waiting \<Longrightarrow>
    files_step c files s (s\<lparr>fs_at := (fs_at s)[i := Gone]\<rparr>)"
| LeaveDone: "fs_done s \<Longrightarrow> i < length (fs_at s) \<Longrightarrow> fs_at s ! i = Waiting \<Longrightarrow>
    files_step c files s (s\<lparr>fs_at := (fs_at s)[i := Gone]\<rparr>)"
| CloseEnd: "next_file files (dk_Loop c) (fs_next s) = None \<Longrightarrow> files_step c files s (s\<lparr>fs_closed := True\<rparr>)"
| CloseDone: "fs_done s \<Longrightarrow> files_step c files s (s\<lparr>fs_closed := True\<rparr>)"
| Cancel: "files_step c files s (s\<lparr>fs_done := True\<rparr>)"

definition files_start :: "nat \<Rightarrow> file_sched" where
  "files_start threads = \<lparr>fs_next = (0, 0), fs_closed = False, fs_done = False, fs_at = replicate threads Waiting,
     fs_workers = [], fs_started = [], fs_ended = []\<rparr>"

inductive files_reach :: "disk_config \<Rightarrow> dataFile list \<Rightarrow> nat \<Rightarrow> file_sched \<Rightarrow> bool" for c files threads where
  FilesStart: "files_reach c files threads (files_start threads)"
| FilesStep: "files_reach c files threads s \<Longrightarrow> files_step c files s s' \<Longrightarrow> files_reach c files threads s'"


section \<open>Invariants\<close>

lemma step_length: "files_step c files s s' \<Longrightarrow> length (fs_at s') = length (fs_at s)"
  by (induction rule: files_step.induct) simp_all

lemma reach_length: "files_reach c files threads s \<Longrightarrow> length (fs_at s) = threads"
  by (induction rule: files_reach.induct) (simp_all add: files_start_def step_length)

text \<open>The files come in the order of the schedule, whoever takes them.\<close>

definition in_schedule :: "disk_config \<Rightarrow> dataFile list \<Rightarrow> file_sched \<Rightarrow> bool" where
  "in_schedule c files s \<longleftrightarrow>
     (\<forall>m. sent_files files (dk_Loop c) (length (fs_started s) + m) (0, 0) =
       map snd (fs_started s) @ sent_files files (dk_Loop c) m (fs_next s))"

lemma step_schedule: "files_step c files s s' \<Longrightarrow> in_schedule c files s \<Longrightarrow> in_schedule c files s'"
proof (induction rule: files_step.induct)
  case (Receive s i f p)
  have "sent_files files (dk_Loop c) (length (fs_started s) + Suc m) (0, 0) =
      map snd (fs_started s) @ sent_files files (dk_Loop c) (Suc m) (fs_next s)" for m
    using Receive.prems unfolding in_schedule_def by blast
  with Receive.hyps show ?case by (simp add: in_schedule_def)
qed (simp_all add: in_schedule_def)

lemma reach_schedule: "files_reach c files threads s \<Longrightarrow> in_schedule c files s"
  by (induction rule: files_reach.induct) (simp_all add: step_schedule, simp add: files_start_def in_schedule_def)

text \<open>A file that was received is in the hands of the worker that took it until its run has returned.\<close>

primrec hand :: "nat \<Rightarrow> at_step \<Rightarrow> (nat \<times> dataFile) multiset" where
  "hand i Waiting = {#}"
| "hand i (Received f) = {#(i, f)#}"
| "hand i (Created f w) = {#(i, f)#}"
| "hand i (Registered f) = {#(i, f)#}"
| "hand i (Running f) = {#(i, f)#}"
| "hand i (RanOut f) = {#}"
| "hand i Unregistered = {#}"
| "hand i Gone = {#}"

definition in_hand :: "at_step list \<Rightarrow> (nat \<times> dataFile) multiset" where
  "in_hand xs = (\<Sum>i<length xs. hand i (xs ! i))"

lemma in_hand_split:
  assumes "i < length xs"
  shows "in_hand (xs[i := x]) = hand i x + (\<Sum>j \<in> {..<length xs} - {i}. hand j (xs ! j))"
proof -
  have "in_hand (xs[i := x]) = hand i x + (\<Sum>j \<in> {..<length xs} - {i}. hand j (xs[i := x] ! j))"
    using assms by (simp add: in_hand_def sum.remove [of "{..<length xs}" i])
  also have "(\<Sum>j \<in> {..<length xs} - {i}. hand j (xs[i := x] ! j)) = (\<Sum>j \<in> {..<length xs} - {i}. hand j (xs ! j))"
    by (rule sum.cong) auto
  finally show ?thesis .
qed

lemma in_hand_update:
  "i < length xs \<Longrightarrow> in_hand (xs[i := x]) + hand i (xs ! i) = in_hand xs + hand i x"
  using in_hand_split [of i xs x] in_hand_split [of i xs "xs ! i"] by (simp add: ac_simps)

lemma in_hand_same: "i < length xs \<Longrightarrow> hand i x = hand i (xs ! i) \<Longrightarrow> in_hand (xs[i := x]) = in_hand xs"
  using in_hand_update [of i xs x] by simp

lemma step_hands:
  "files_step c files s s' \<Longrightarrow> mset (fs_started s) = mset (fs_ended s) + in_hand (fs_at s) \<Longrightarrow>
   mset (fs_started s') = mset (fs_ended s') + in_hand (fs_at s')"
proof (induction rule: files_step.induct)
  case (Receive s i f p)
  with in_hand_update [of i "fs_at s" "Received f"] show ?case by simp
next
  case (EndRun i s f)
  with in_hand_update [of i "fs_at s" "RanOut f"] show ?case by simp
qed (simp_all add: in_hand_same)

lemma reach_hands: "files_reach c files threads s \<Longrightarrow> mset (fs_started s) = mset (fs_ended s) + in_hand (fs_at s)"
  by (induction rule: files_reach.induct) (simp_all add: step_hands, simp add: files_start_def in_hand_def)

text \<open>The workers map holds the workers between registration and unregistration, each once.\<close>

fun registered :: "at_step \<Rightarrow> bool" where
  "registered (Registered f) = True"
| "registered (Running f) = True"
| "registered (RanOut f) = True"
| "registered _ = False"

definition keys :: "workers \<Rightarrow> nat set" where "keys ws = set (map fst ws)"

definition registry_ok :: "file_sched \<Rightarrow> bool" where
  "registry_ok s \<longleftrightarrow> distinct (map fst (fs_workers s)) \<and>
     (\<forall>i. i \<in> keys (fs_workers s) \<longleftrightarrow> i < length (fs_at s) \<and> registered (fs_at s ! i))"

lemma registry_fsts [simp]:
  "map fst (rebalanceSpeed c ws) = map fst ws"
  "map fst (disk_register i w ws) = i # filter (\<lambda>j. j \<noteq> i) (map fst ws)"
  "map fst (disk_unregister i ws) = filter (\<lambda>j. j \<noteq> i) (map fst ws)"
  by (simp_all add: rebalanceSpeed_def disk_register_def disk_unregister_def comp_def case_prod_unfold filter_map)

lemma registry_keys [simp]:
  "keys (rebalanceSpeed c ws) = keys ws" "keys (disk_register i w ws) = insert i (keys ws)"
  "keys (disk_unregister i ws) = keys ws - {i}"
  unfolding keys_def registry_fsts by auto

lemma step_registry: "files_step c files s s' \<Longrightarrow> registry_ok s \<Longrightarrow> registry_ok s'"
  by (induction rule: files_step.induct) (auto simp: registry_ok_def nth_list_update)

lemma reach_registry: "files_reach c files threads s \<Longrightarrow> registry_ok s"
  by (induction rule: files_reach.induct) (simp_all add: step_registry, simp add: files_start_def registry_ok_def keys_def)

text \<open>The speeds are equal shares whenever nobody is between a change of the map and its rebalancing.\<close>

fun unsettled :: "at_step \<Rightarrow> bool" where
  "unsettled (Registered f) = True"
| "unsettled Unregistered = True"
| "unsettled _ = False"

definition shares_ok :: "disk_config \<Rightarrow> file_sched \<Rightarrow> bool" where
  "shares_ok c s \<longleftrightarrow> (\<exists>x \<in> set (fs_at s). unsettled x) \<or> rebalanceSpeed c (fs_workers s) = fs_workers s"

lemma unsettled_update:
  "i < length xs \<Longrightarrow> \<not> unsettled (xs ! i) \<Longrightarrow> (\<exists>x \<in> set xs. unsettled x) \<Longrightarrow> \<exists>x \<in> set (xs[i := y]). unsettled x"
  by (metis in_set_conv_nth length_list_update nth_list_update_neq)

lemma step_shares: "files_step c files s s' \<Longrightarrow> shares_ok c s \<Longrightarrow> shares_ok c s'"
proof (induction rule: files_step.induct)
  case (Register i s f w)
  have "Registered f \<in> set ((fs_at s)[i := Registered f])" using Register.hyps by (simp add: set_update_memI)
  then show ?case unfolding shares_ok_def by force
next
  case (Unregister i s f)
  have "Unregistered \<in> set ((fs_at s)[i := Unregistered])" using Unregister.hyps by (simp add: set_update_memI)
  then show ?case unfolding shares_ok_def by force
qed (auto simp: shares_ok_def rebalance_idem intro!: unsettled_update)

lemma reach_shares: "files_reach c files threads s \<Longrightarrow> shares_ok c s"
  by (induction rule: files_reach.induct) (simp_all add: step_shares, simp add: files_start_def shares_ok_def rebalanceSpeed_def)

text \<open>Without cancellation a worker leaves only after the last file was taken.\<close>

definition ends_ok :: "disk_config \<Rightarrow> dataFile list \<Rightarrow> file_sched \<Rightarrow> bool" where
  "ends_ok c files s \<longleftrightarrow> fs_done s \<or>
     (fs_closed s \<longrightarrow> next_file files (dk_Loop c) (fs_next s) = None) \<and> (Gone \<in> set (fs_at s) \<longrightarrow> fs_closed s)"

lemma step_ends: "files_step c files s s' \<Longrightarrow> ends_ok c files s \<Longrightarrow> ends_ok c files s'"
  by (induction rule: files_step.induct) (auto simp: ends_ok_def dest: set_update_subset_insert [THEN subsetD])

lemma reach_ends: "files_reach c files threads s \<Longrightarrow> ends_ok c files s"
  by (induction rule: files_reach.induct) (simp_all add: step_ends, simp add: files_start_def ends_ok_def)

section \<open>The scheduler\<close>

lemma all_gone:
  assumes "\<forall>x \<in> set xs. x = Gone"
  shows "in_hand xs = {#}"
  unfolding in_hand_def
proof (rule sum.neutral, rule ballI)
  fix i
  assume "i \<in> {..<length xs}"
  then have "xs ! i = Gone" using assms by simp
  then show "hand i (xs ! i) = {#}" by simp
qed

lemma no_file: "sent_files [] loop n p = []"
  by (cases n; cases p) (simp_all add: next_file_def)

text \<open>All workers gone, nobody cancelled: the whole list was taken once.\<close>

lemma finished_schedule:
  assumes "in_schedule c files s" and "next_file files (dk_Loop c) (fs_next s) = None"
  shows "map snd (fs_started s) = map (\<lambda>f. f\<lparr>df_LoopIndex := 0\<rparr>) files \<and> (files = [] \<or> \<not> dk_Loop c)"
proof -
  have idle: "sent_files files (dk_Loop c) m (fs_next s) = []" for m
    using assms(2) by (cases m) simp_all
  have all: "map snd (fs_started s) = sent_files files (dk_Loop c) (length (fs_started s) + length files) (0, 0)"
    using assms(1) idle unfolding in_schedule_def by simp
  have "files = [] \<or> \<not> dk_Loop c" using assms(2) by (auto simp: next_file_def split: prod.splits if_splits)
  then show ?thesis using all by (auto simp: sent_once no_file)
qed

text \<open>
  C8. The disk scheduler, however the goroutines interleave. The files are handed out in the order of
  the schedule, each to one worker, and none is given up: it is in the hands of that worker until its
  run has returned. Registered are exactly the workers that hold a file, each once; when no change of
  the map awaits its rebalancing they have equal shares that together keep the limit. When all
  workers have left and nobody cancelled, looping was off (or there was no file), every file was read once, and
  nobody is registered.
\<close>

theorem disk_sched_files:
  assumes "files_reach c files threads s" and "0 < threads" and "threads < 2 ^ 60"
  shows "map snd (fs_started s) = sent_files files (dk_Loop c) (length (fs_started s)) (0, 0) \<and>
    mset (fs_started s) = mset (fs_ended s) + in_hand (fs_at s) \<and>
    distinct (map fst (fs_workers s)) \<and>
    (\<forall>i. i \<in> keys (fs_workers s) \<longleftrightarrow> i < threads \<and> registered (fs_at s ! i)) \<and>
    ((\<forall>x \<in> set (fs_at s). \<not> unsettled x) \<and> fs_workers s \<noteq> [] \<longrightarrow>
       (\<forall>(i, w) \<in> set (fs_workers s). w = total_limit c div of_nat (length (fs_workers s))) \<and>
       (\<Sum>(i, w) \<leftarrow> fs_workers s. unat w) \<le> unat (total_limit c)) \<and>
    ((\<forall>x \<in> set (fs_at s). x = Gone) \<and> \<not> fs_done s \<longrightarrow>
       mset (map snd (fs_ended s)) = mset (map (\<lambda>f. f\<lparr>df_LoopIndex := 0\<rparr>) files) \<and>
       (files = [] \<or> \<not> dk_Loop c) \<and> fs_workers s = [])"
proof (intro conjI impI)
  note len = reach_length [OF assms(1)] and sch = reach_schedule [OF assms(1)] and reg = reach_registry [OF assms(1)]
  show "map snd (fs_started s) = sent_files files (dk_Loop c) (length (fs_started s)) (0, 0)"
    using sch unfolding in_schedule_def by (metis add.right_neutral append.right_neutral sent_files.simps(1))
  show hands: "mset (fs_started s) = mset (fs_ended s) + in_hand (fs_at s)" by (rule reach_hands [OF assms(1)])
  show dist: "distinct (map fst (fs_workers s))"
    and keys: "\<forall>i. i \<in> keys (fs_workers s) \<longleftrightarrow> i < threads \<and> registered (fs_at s ! i)"
    using reg len by (simp_all add: registry_ok_def)
  have few: "length (fs_workers s) < 18446744073709551616"
  proof -
    have "keys (fs_workers s) \<subseteq> {..<threads}" using keys by auto
    then have "card (keys (fs_workers s)) \<le> threads" using card_mono [of "{..<threads}"] by simp
    then have "length (fs_workers s) \<le> threads" using distinct_card [OF dist] by (simp add: keys_def)
    with assms(3) show ?thesis by simp
  qed
  show "\<forall>(i, w) \<in> set (fs_workers s). w = total_limit c div of_nat (length (fs_workers s))"
    and "(\<Sum>(i, w) \<leftarrow> fs_workers s. unat w) \<le> unat (total_limit c)"
    if settled: "(\<forall>x \<in> set (fs_at s). \<not> unsettled x) \<and> fs_workers s \<noteq> []"
  proof -
    have fixed: "rebalanceSpeed c (fs_workers s) = fs_workers s"
      using reach_shares [OF assms(1)] settled by (auto simp: shares_ok_def)
    show "\<forall>(i, w) \<in> set (fs_workers s). w = total_limit c div of_nat (length (fs_workers s))"
      using rebalance_each [of "fs_workers s" _ _ c] settled unfolding fixed by blast
    show "(\<Sum>(i, w) \<leftarrow> fs_workers s. unat w) \<le> unat (total_limit c)"
      using rebalance_sum [OF few, of c] settled unfolding fixed by blast
  qed
  show "mset (map snd (fs_ended s)) = mset (map (\<lambda>f. f\<lparr>df_LoopIndex := 0\<rparr>) files)"
    and "files = [] \<or> \<not> dk_Loop c" and "fs_workers s = []"
    if gone: "(\<forall>x \<in> set (fs_at s). x = Gone) \<and> \<not> fs_done s"
  proof -
    have "fs_at s \<noteq> []" using len assms(2) by auto
    then have "Gone \<in> set (fs_at s)" using gone by (cases "fs_at s") auto
    then have "next_file files (dk_Loop c) (fs_next s) = None"
      using reach_ends [OF assms(1)] gone by (simp add: ends_ok_def)
    note fin = finished_schedule [OF sch this]
    have "mset (fs_started s) = mset (fs_ended s)" using hands all_gone [of "fs_at s"] gone by simp
    then have "mset (map snd (fs_ended s)) = mset (map snd (fs_started s))" by (metis mset_map)
    with fin show "mset (map snd (fs_ended s)) = mset (map (\<lambda>f. f\<lparr>df_LoopIndex := 0\<rparr>) files)" by simp
    from fin show "files = [] \<or> \<not> dk_Loop c" by simp
    have "\<not> registered (fs_at s ! i)" if "i < threads" for i
      using gone nth_mem [of i "fs_at s"] that len by (metis registered.simps)
    then have "keys (fs_workers s) = {}" using keys by blast
    then show "fs_workers s = []" by (simp add: keys_def)
  qed
qed

text \<open>Two workers and two files: worker 1 takes the first, worker 0 the second, and both leave.\<close>

definition two_files :: "dataFile list" where
  "two_files = [first_file, first_file\<lparr>df_Index := 1\<rparr>]"

definition once_disk :: disk_config where "once_disk = sample_disk\<lparr>dk_Loop := False\<rparr>"

lemma work_file:
  assumes "files_reach c files threads s" and "i < length (fs_at s)" and "fs_at s ! i = Waiting"
    and "\<not> fs_closed s" and "next_file files (dk_Loop c) (fs_next s) = Some (f, p)"
  shows "files_reach c files threads
    (s\<lparr>fs_next := p, fs_started := fs_started s @ [(i, f)], fs_ended := fs_ended s @ [(i, f)],
       fs_workers := file_end c i (file_start c i (fs_workers s))\<rparr>)"
proof -
  have "files_reach c files threads (s\<lparr>fs_next := p, fs_started := fs_started s @ [(i, f)],
      fs_at := (fs_at s)[i := Received f]\<rparr>)"
    by (rule FilesStep [OF assms(1) Receive [OF assms(4,2,3,5)]])
  note r = FilesStep [OF this NewWorker [of i _ f], simplified assms(2), simplified]
  note r = FilesStep [OF r Register [of i _ f "getNewWorkerSpeed c (fs_workers s)"], simplified assms(2), simplified]
  note r = FilesStep [OF r StartRun [of i _ f], simplified assms(2), simplified]
  note r = FilesStep [OF r EndRun [of i _ f], simplified assms(2), simplified]
  note r = FilesStep [OF r Unregister [of i _ f], simplified assms(2), simplified]
  note r = FilesStep [OF r Again [of i], simplified assms(2), simplified]
  have same: "(fs_at s)[i := Waiting] = fs_at s" using assms(3) by (metis list_update_id)
  show ?thesis using r assms(2) by (simp add: same file_end_def file_start_def)
qed

definition both_read :: file_sched where
  "both_read = \<lparr>fs_next = (0, 2), fs_closed = True, fs_done = False, fs_at = [Gone, Gone], fs_workers = [],
     fs_started = [(1, first_file), (0, first_file\<lparr>df_Index := 1\<rparr>)],
     fs_ended = [(1, first_file), (0, first_file\<lparr>df_Index := 1\<rparr>)]\<rparr>"

lemma both_reached: "files_reach once_disk two_files 2 both_read"
proof -
  note simps = files_start_def two_files_def once_disk_def sample_disk_def first_file_def next_file_def
  have "files_reach once_disk two_files 2 (files_start 2)" by (rule FilesStart)
  note r = work_file [OF this, of 1 first_file "(0, 1)"]
  let ?s1 = "(files_start 2)\<lparr>fs_next := (0, 1), fs_started := [(1, first_file)], fs_ended := [(1, first_file)],
    fs_workers := []\<rparr>"
  have ends: "file_end c i (file_start c i []) = []" for c i
    by (simp add: file_end_def file_start_def disk_register_def disk_unregister_def rebalanceSpeed_def)
  have "files_reach once_disk two_files 2 ?s1"
    using r by (simp add: simps ends nth_Cons' numeral_2_eq_2)
  note r = work_file [OF this, of 0 "first_file\<lparr>df_Index := 1\<rparr>" "(0, 2)"]
  let ?s2 = "?s1\<lparr>fs_next := (0, 2), fs_started := fs_started both_read, fs_ended := fs_ended both_read\<rparr>"
  have "files_reach once_disk two_files 2 ?s2"
    using r by (simp add: simps ends both_read_def numeral_2_eq_2)
  note r = FilesStep [OF this CloseEnd]
  have "files_reach once_disk two_files 2 (?s2\<lparr>fs_closed := True\<rparr>)"
    using r by (simp add: simps numeral_2_eq_2)
  note r = FilesStep [OF this LeaveClosed [of _ 0]]
  have "files_reach once_disk two_files 2 (?s2\<lparr>fs_closed := True, fs_at := [Gone, Waiting]\<rparr>)"
    using r by (simp add: simps numeral_2_eq_2)
  note r = FilesStep [OF this LeaveClosed [of _ 1]]
  show ?thesis using r by (simp add: simps both_read_def numeral_2_eq_2)
qed

theorem disk_sched_files_witness:
  "mset (map snd (fs_ended both_read)) = mset (map (\<lambda>f. f\<lparr>df_LoopIndex := 0\<rparr>) two_files) \<and>
   map snd (fs_started both_read) = two_files"
proof -
  have "(\<forall>x \<in> set (fs_at both_read). x = Gone) \<and> \<not> fs_done both_read" by (simp add: both_read_def)
  then have "mset (map snd (fs_ended both_read)) = mset (map (\<lambda>f. f\<lparr>df_LoopIndex := 0\<rparr>) two_files)"
    using disk_sched_files [OF both_reached] by simp
  then show ?thesis by (simp add: both_read_def two_files_def)
qed

end
