(* ===== verification/Spec2Isabelle.thy ===== *)
theory Spec2Isabelle
  imports MgWorker BlockSchema Speed Disk Insert Otel MetricsExport GenWorker OtelDemo ProfilesCols Schedulers UserWorker App Tools Transports DiskRun
begin

text \<open>
  ClickCannon generates, replays and queries telemetry to put load on ClickHouse and on OTLP
  endpoints. This development models the Go program under \<open>src/\<close> (\<open>main.go\<close>, \<open>internal/\<close>,
  \<open>cmd/plot-timerange\<close>) as HOL functions and step relations over its data, and proves what makes each
  part correct. Definitions keep the names of the Go code; where a Go name is a name of HOL or occurs in
  several packages it has a prefix (\<open>mg_\<close> metricgen, \<open>otel_\<close>, \<open>user_\<close>, \<open>gen_\<close>, \<open>metrics_\<close>, \<open>insert_\<close>).

  \<^bold>\<open>The program.\<close> \<open>main\<close> loads and checks one configuration, starts the metrics worker and then the parts that
  are enabled, and stops them in order on a signal. A source fills blocks and puts them on a bounded queue: the disk
  source (\<open>internal/disk\<close>) decodes files, shifts their times and mutates their identifiers; the generator
  (\<open>internal/generate\<close>) fills blocks from a profile. A sink empties the queue: the insert sink
  (\<open>internal/insert\<close>) streams blocks into INSERT statements, the otel sink (\<open>internal/otel\<close>) converts rows to OTLP
  requests. Blocks circulate through the pool of \<open>internal/block\<close>. Beside that pipeline run the metric
  generator (\<open>internal/metricgen\<close>), which builds OTLP metric requests from a virtual clock, and the simulated users
  (\<open>internal/user\<close>), which run queries. Every worker reports to \<open>internal/metrics\<close>.

  \<^bold>\<open>Theories.\<close>

  \<^item> Foundations. \<open>Prelude\<close>: \<open>int64\<close> as integers wrapped by \<open>i64\<close>, \<open>uint64\<close> as 64-bit words, decimal printing, and
    the lemmas on lists, maps and options that all use. \<open>GoStrings\<close>: package \<open>strings\<close> on character lists. \<open>Floats\<close>: a
    \<open>float64\<close> is a rational, every operation rounds its exact result. \<open>Rejection\<close>: loops that draw until they have
    enough distinct candidates. \<open>Batch\<close>: the contract between a worker and the request builder it fills (locale
    \<open>batch\<close>).
  \<^item> Metric generator. \<open>Hash\<close> (\<open>hash.go\<close>), \<open>MgConfig\<close> (\<open>config.go\<close>), \<open>MgCycle\<close>, \<open>MgSweep\<close>, \<open>MgDims\<close>, \<open>MgPlan\<close>
    (\<open>plan.go\<close>, \<open>names.go\<close>, the clock of \<open>values.go\<close>), \<open>MgResources\<close> (\<open>resources.go\<close>, \<open>names.go\<close>), \<open>MgValues\<close>
    (\<open>values.go\<close>), \<open>MgBuilder\<close> (\<open>builder.go\<close>), \<open>MgWorker\<close> (\<open>worker.go\<close>, \<open>scheduler.go\<close>, the decisions of
    \<open>client.go\<close>). State: the immutable \<open>plan\<close>, the shared \<open>resourcePool\<close>, one \<open>builder\<close> and one \<open>worker\<close> record
    for each thread.
  \<^item> Blocks. \<open>BlockPool\<close> (\<open>pool.go\<close>, \<open>block.go\<close>), \<open>Columns\<close> and \<open>Replay\<close> (\<open>columns.go\<close>, \<open>timeshift.go\<close>), \<open>OtelRow\<close>
    (\<open>otelrow.go\<close>, \<open>otelrow_disk.go\<close>, \<open>logs.go\<close>, \<open>traces.go\<close>), \<open>ProfilesCols\<close> (\<open>profiles.go\<close>), \<open>BlockSchema\<close> (the
    column lists of all block kinds, also \<open>generate/columns_*.go\<close>).
  \<^item> Disk source. \<open>Window\<close> and \<open>Speed\<close> (\<open>speedreader.go\<close>), \<open>Disk\<close> (\<open>config.go\<close>, \<open>files.go\<close>, the speed
    shares of \<open>scheduler.go\<close>, \<open>worker.go\<close>), \<open>DiskRun\<close> (readers, and the dispatch of files in \<open>scheduler.go\<close>).
  \<^item> Generator. \<open>GenRng\<close> (\<open>rng.go\<close>), \<open>GenValues\<close> (\<open>generator.go\<close>), \<open>GenProfile\<close> (\<open>config.go\<close>, \<open>profile.go\<close>), \<open>GenFill\<close>
    (\<open>filler_logs.go\<close>, \<open>filler_traces.go\<close>, \<open>otelrow.go\<close>), \<open>GenSamples\<close> (\<open>filler_profiles.go\<close>), \<open>GenWorker\<close>
    (\<open>worker.go\<close>, \<open>scheduler.go\<close>), \<open>OtelDemo\<close> (\<open>profile_otel_demo.go\<close>, all of its tables).
  \<^item> Sinks. \<open>Insert\<close> (\<open>internal/insert\<close>), \<open>OtelConv\<close> (\<open>otel/convert*.go\<close>), \<open>Otel\<close> (\<open>otel/config.go\<close>, \<open>worker.go\<close>,
    \<open>scheduler.go\<close>, targets of the clients).
  \<^item> Metrics. \<open>Metrics\<close> (\<open>worker.go\<close>, \<open>metrics.go\<close>, \<open>names.go\<close>), \<open>MetricsExport\<close> (\<open>otlp.go\<close>, \<open>config.go\<close>, \<open>fmt.go\<close>,
    \<open>disabled.go\<close>, targets of the clients).
  \<^item> Transports. \<open>Transports\<close>: the HTTP and gRPC export clients of metricgen, otel and metrics.
  \<^item> Users. \<open>UserConfig\<close> (\<open>config.go\<close>, \<open>config_unmarshal.go\<close>), \<open>UserRange\<close> (\<open>timerange.go\<close>), \<open>UserWorkflow\<close>
    (\<open>workflow.go\<close>, \<open>query.go\<close>), \<open>UserWorker\<close> (\<open>worker.go\<close>, \<open>scheduler.go\<close>).
  \<^item> The whole. \<open>Schedulers\<close> (\<open>Run\<close> of all six schedulers), \<open>App\<close> (\<open>main.go\<close>, \<open>app/config.go\<close>, \<open>app/app.go\<close>), \<open>Tools\<close>
    (\<open>cmd/plot-timerange\<close>, \<open>app/logger.go\<close>).

  \<^bold>\<open>How code becomes HOL.\<close> A struct is a record, an enum or an error a datatype, a map an association list (in some
  iteration order) or a function to options, a slice a list. A panic, an error and a wait that never ends are values.
  A pointer that is compared or shared is a number (blocks, cache slots, columns). Goroutines are \<open>inductive\<close> step
  relations where their interleaving matters: clients of the pool (\<open>pipe_step\<close>), readers of the resource cache
  (\<open>rp_step\<close>), goroutines of a scheduler (\<open>sched_step\<close>), the dispatch of files (\<open>files_step\<close>), parts of the program (\<open>app_step\<close>); elsewhere a worker is a
  function of the turns the world takes.

  \<^bold>\<open>Interfaces.\<close> \<open>batch\<close> is interpreted on the metric builder and on both OTLP builders, \<open>pool\<close> on the block pool, the
  garbage-collected pool, and the pool of a running insert worker, \<open>exporter\<close> (which extends both) on the logs and traces
  exporters, \<open>metric_store\<close> on the live and the disabled store. The client lemmas are proved once in the locale;
  the properties use them through these interpretations.

  \<^bold>\<open>What is shown.\<close>

  \<^item> Nothing is lost or duplicated: points of the metric generator, rows and blocks of the otel sink, blocks of the
    insert sink, the disk source and the pool, samples of the metrics store.
  \<^item> An optimised routine equals a plain reference: the three request builders and the grouping of OTLP metrics equal a
    grouping by key; the cached resource equals a fresh one; the ring of the rate window is a bounded queue; in-place
    changes of columns are changes of rows; the readers of a block return its rows.
  \<^item> What is generated is well formed: plans, series attributes, times of points, logs, trace trees, profiles, the profile
    that is shipped, time ranges and queries of users.
  \<^item> Configurations: what an accepted one guarantees, for the metric generator, the users and the whole program; an
    accepted configuration is wired without a panic.
  \<^item> Runs: retries are bounded, parts stop in order, a gauge is the number of running workers, the generator waits only
    for a free block, replayed loops follow each other without overlap.
  \<^item> Where the code does not do what it means to, a lemma shows the run: a lost start of replay, workers that retire
    together, a queue peek that drops a block, and others named beside their definitions.

  \<^bold>\<open>Fuel and bounds.\<close> Rejection loops of the plan take fuel, since a source may repeat itself for ever; on a fair source
  they end, and \<open>newPlan\<close> is shown for every fuel that gives a plan. The fillers of traces and profiles take as
  much fuel as there are rows, which is proved to be enough because each round makes at least one. The number
  formatter has six units, so five rounds. A flush has five attempts and the dial loop a hundred, as in the code.
  Counters wrap at 64 bits; lemmas that add durations state the range they need.

  \<^bold>\<open>Assumptions on libraries.\<close> Each is a named predicate and each is witnessed: \<open>go_rng_ok\<close>, \<open>user_rng_ok\<close>, \<open>rng_ok\<close> (a
  draw below \<open>n\<close> is below \<open>n\<close>), \<open>float_ok\<close> (rounding is monotone, exact on 53-bit integers, accurate to half a unit),
  \<open>env_ok\<close> (the functions the plan uses), the time conversions of the column library, and that parsers answer
  at all. Nothing is assumed of the network, of decoded files or of the database: their answers are arguments.

  \<^bold>\<open>Not modelled.\<close>

  \<^item> Input and output: opening and reading files, TLS, gzip, protobuf and wire encodings, YAML and command
    line parsing, the text of log lines; what they answer is an argument.
  \<^item> The Go scheduler and memory model beyond the interleavings named above, and panics of a part outside the code modelled.
  \<^item> The rounding of decimal constants in the shipped profile, and the digits of a formatted float.
  \<^item> \<open>Reset\<close> and the accessors of the columns of \<open>ch-go\<close>, a library; \<open>Close\<close> of clients; the exit of \<open>main\<close> when the
    metrics worker cannot be created; the \<open>Func\<close> generator, which no profile uses.
\<close>

end
